(* ===== verification/Prelude.thy ===== *)
theory Prelude
  imports Main "HOL-Library.Word"
begin

text \<open>
  Shared material of the development: the machine-integer types of the C++ sources
  (\<open>uint8_t\<close> .. \<open>uint64_t\<close>), the collections of rewrite rules the component theories add to,
  generic facts on bit strings (membership of single bits, masks and fields, Hamming weight) and
  on lists that more than one component uses, and the interface of an event-driven component
  (a step function together with an invariant every step keeps), proved once for all runs.
\<close>

unbundle bit_operations_syntax

section \<open>Machine integers\<close>

type_synonym u8 = "8 word"
type_synonym u16 = "16 word"
type_synonym u32 = "32 word"
type_synonym u64 = "64 word"
type_synonym byte = u8

named_theorems bit_field \<open>membership of a bit in masks, shifts and fields\<close>
named_theorems linear \<open>operations that commute with exclusive or\<close>

section \<open>Bits of words\<close>

lemma bit_mask_word [bit_field]:
  fixes w :: "'a::len word"
  shows "bit (w AND mask k) n \<longleftrightarrow> n < k \<and> bit w n"
  by (auto simp: bit_simps dest: bit_imp_le_length)

lemma mask_12: "(0xFFF :: 'a::len word) = mask 12"
  by (simp add: mask_eq_decr_exp)

lemma mask_24: "(0xFFFFFF :: 'a::len word) = mask 24"
  by (simp add: mask_eq_decr_exp)

lemma mask_21: "(0x1FFFFF :: 'a::len word) = mask 21"
  by (simp add: mask_eq_decr_exp)

lemma mask_7: "(0x7F :: 'a::len word) = mask 7"
  by (simp add: mask_eq_decr_exp)

lemmas mask_numerals = mask_7 mask_12 mask_21 mask_24

lemma xor_word_eq_0_iff [simp]: "a XOR b = 0 \<longleftrightarrow> a = (b :: 'a::len word)"
  by (metis xor.assoc xor.left_neutral xor.right_neutral xor_self_eq)

lemma unat_and_mask: "unat (w AND mask k) = unat w mod 2 ^ k"
  by (metis take_bit_eq_mask take_bit_eq_mod unsigned_take_bit_eq)

lemma unat_and_mask_less: "unat (w AND mask k) < 2 ^ k"
  by (simp add: unat_and_mask)

section \<open>Hamming weight\<close>

function bit_weight :: "'a::len word \<Rightarrow> nat" where
  "bit_weight w = (if w = 0 then 0 else (if odd w then 1 else 0) + bit_weight (drop_bit 1 w))"
  by pat_completeness auto
termination
proof (relation "measure unat")
  fix w :: "'a word"
  assume "w \<noteq> 0"
  then have "0 < unat w" by (simp add: unat_gt_0)
  then show "(drop_bit 1 w, w) \<in> measure unat"
    by (simp add: unat_drop_bit_eq drop_bit_eq_div unat_div)
qed simp

declare bit_weight.simps [simp del]

lemma finite_bits [simp]: "finite {n. bit (w :: 'a::len word) n}"
  by (rule finite_subset [of _ "{..<LENGTH('a)}"]) (auto dest: bit_imp_le_length)

lemma bits_of_drop: 
  "{n. bit (w :: 'a::len word) n} = (if odd w then {0} else {}) \<union> Suc ` {n. bit (drop_bit 1 w) n}"
  (is "?A = ?B")
proof (rule set_eqI)
  fix n
  show "n \<in> ?A \<longleftrightarrow> n \<in> ?B"
    by (cases n) (auto simp: bit_0 bit_drop_bit_eq)
qed

lemma bit_weight_card: "bit_weight w = card {n. bit w n}"
proof (induction w rule: bit_weight.induct)
  case (1 w)
  show ?case
  proof (cases "w = 0")
    case True
    then show ?thesis by (simp add: bit_weight.simps)
  next
    case False
    have "card {n. bit w n} = (if odd w then 1 else 0) + card {n. bit (drop_bit 1 w) n}"
      by (subst bits_of_drop) (simp add: card_insert_if card_image)
    with False "1.IH" show ?thesis by (subst bit_weight.simps) simp
  qed
qed

lemma bit_weight_0 [simp]: "bit_weight 0 = 0"
  by (simp add: bit_weight.simps)

lemma bit_weight_eq_0 [simp]: "bit_weight w = 0 \<longleftrightarrow> w = 0"
  by (auto simp: bit_weight_card intro!: bit_eqI)

lemma bit_weight_xor_le: "bit_weight (a XOR b) \<le> bit_weight a + bit_weight b"
proof -
  have "{n. bit (a XOR b) n} \<subseteq> {n. bit a n} \<union> {n. bit b n}"
    by (auto simp: bit_xor_iff)
  then have "card {n. bit (a XOR b) n} \<le> card ({n. bit a n} \<union> {n. bit b n})"
    by (intro card_mono) auto
  also have "\<dots> \<le> card {n. bit a n} + card {n. bit b n}"
    by (rule card_Un_le)
  finally show ?thesis by (simp add: bit_weight_card)
qed

fun num_weight :: "num \<Rightarrow> nat" where
  "num_weight num.One = 1"
| "num_weight (num.Bit0 n) = num_weight n"
| "num_weight (num.Bit1 n) = Suc (num_weight n)"


lemma unat_numeral_small:
  "numeral n < (2 :: nat) ^ LENGTH('a) \<Longrightarrow> unat (numeral n :: 'a::len word) = numeral n"
  by (simp add: take_bit_nat_eq_self)

lemma bit_weight_1 [simp]: "bit_weight (1 :: 'a::len word) = 1"
  by (simp add: bit_weight_card bit_1_iff)

lemma bit_weight_step: "bit_weight w = of_bool (odd w) + bit_weight (drop_bit 1 w)"
  by (cases "w = 0") (auto simp: bit_weight.simps [of w])

lemma bit_weight_code [code]:
  "bit_weight w = (if w = 0 then 0 else of_bool (bit w 0) + bit_weight (drop_bit 1 w))"
  using bit_weight_step [of w] by (simp add: bit_0)

lemma numeral_half:
  assumes "unat (numeral m :: 'a::len word) div 2 = numeral n" and "numeral n < (2 :: nat) ^ LENGTH('a)"
  shows "drop_bit 1 (numeral m :: 'a word) = numeral n"
  using assms unfolding word_unat_eq_iff unat_drop_bit_eq
  by (simp only: unat_numeral_small drop_bit_eq_div power_one_right)

lemma bit_weight_numeral:
  "numeral n < (2 :: nat) ^ LENGTH('a) \<Longrightarrow> bit_weight (numeral n :: 'a::len word) = num_weight n"
proof (induction n)
  case One
  then show ?case by simp
next
  case (Bit0 n)
  have u: "unat (numeral (num.Bit0 n) :: 'a word) = numeral (num.Bit0 n)"
    by (rule unat_numeral_small) (rule Bit0.prems)
  then have "even (numeral (num.Bit0 n) :: 'a word)" by (metis even_numeral even_word_iff)
  moreover have b: "numeral n < (2 :: nat) ^ LENGTH('a)"
    using Bit0.prems unfolding numeral_Bit0 by linarith
  moreover have "drop_bit 1 (numeral (num.Bit0 n) :: 'a word) = numeral n"
    by (rule numeral_half [OF _ b]) (simp only: u, simp)
  ultimately show ?case
    using Bit0.IH [OF b] by (simp only: bit_weight_step [of "numeral (num.Bit0 n)"] num_weight.simps) simp
next
  case (Bit1 n)
  have u: "unat (numeral (num.Bit1 n) :: 'a word) = numeral (num.Bit1 n)"
    by (rule unat_numeral_small) (rule Bit1.prems)
  then have "odd (numeral (num.Bit1 n) :: 'a word)" by (metis odd_numeral even_word_iff)
  moreover have b: "numeral n < (2 :: nat) ^ LENGTH('a)"
    using Bit1.prems unfolding numeral_Bit1 by linarith
  moreover have "drop_bit 1 (numeral (num.Bit1 n) :: 'a word) = numeral n"
    by (rule numeral_half [OF _ b]) (simp only: u, simp)
  ultimately show ?case
    using Bit1.IH [OF b] by (simp only: bit_weight_step [of "numeral (num.Bit1 n)"] num_weight.simps) simp
qed

section \<open>Bit streams, most significant bit first\<close>

definition msb_bits :: "nat \<Rightarrow> 'a::len word \<Rightarrow> bool list" where
  "msb_bits n w = map (\<lambda>i. drop_bit i w AND 1 \<noteq> 0) (rev [0..<n])"

definition shift_in :: "'a::len word \<Rightarrow> bool \<Rightarrow> 'a word" where
  "shift_in v b = push_bit 1 v OR (if b then 1 else 0)"

lemma length_msb_bits [simp]: "length (msb_bits n w) = n"
  by (simp add: msb_bits_def)

lemma drop_bit_and_1: "drop_bit n w AND 1 \<noteq> 0 \<longleftrightarrow> bit w n"
  for w :: "'a::len word"
  by (simp add: and_one_eq bit_iff_odd_drop_bit odd_iff_mod_2_eq_one)

lemma bit_shift_in: "bit (shift_in v b) n \<longleftrightarrow> n < LENGTH('a) \<and> (if n = 0 then b else bit v (n - 1))"
  for v :: "'a::len word"
  unfolding shift_in_def bit_or_iff bit_push_bit_iff by (auto simp: bit_1_iff)

lemma foldl_shift_in_bit:
  "bit (foldl shift_in v bs) n \<longleftrightarrow>
     n < LENGTH('a) \<and> (if n < length bs then rev bs ! n else bit v (n - length bs))"
  for v :: "'a::len word"
proof (induction bs arbitrary: v)
  case Nil
  then show ?case by (auto dest: bit_imp_le_length)
next
  case (Cons b bs)
  show ?case
    unfolding foldl.simps Cons.IH
    by (auto simp: bit_shift_in nth_append not_less)
qed

lemma foldl_shift_in_msb_bits: "foldl shift_in 0 (msb_bits n w) = w AND mask n"
  by (rule bit_eqI) (auto simp: foldl_shift_in_bit bit_mask_word msb_bits_def rev_map drop_bit_and_1)

lemma foldl_shift_in_ucast:
  "unat w < 2 ^ n \<Longrightarrow> foldl shift_in 0 (msb_bits n w) = w"
  by (simp add: foldl_shift_in_msb_bits word_unat_eq_iff unat_and_mask)

lemma msb_bits_foldl_shift_in:
  assumes "length bs \<le> LENGTH('a)"
  shows "msb_bits (length bs) (foldl shift_in (0 :: 'a::len word) bs) = bs"
  by (rule nth_equalityI)
    (use assms in \<open>auto simp: msb_bits_def rev_map rev_nth drop_bit_and_1 foldl_shift_in_bit\<close>)

section \<open>Event-driven components\<close>

text \<open>
  The interface of a component that reacts to events: a step function and an invariant every step
  keeps. What holds of one step holds of every run.
\<close>

locale event_machine =
  fixes step :: "'s \<Rightarrow> 'e \<Rightarrow> 's"
    and inv :: "'s \<Rightarrow> bool"
  assumes step_inv: "inv s \<Longrightarrow> inv (step s e)"
begin

lemma run_inv: "inv s \<Longrightarrow> inv (foldl step s es)"
  by (induction es arbitrary: s) (auto intro: step_inv)

lemma run_prefix_inv: "inv s \<Longrightarrow> inv (foldl step s (take k es))"
  by (rule run_inv)

end

end
