(* ===== verification/Golay.thy ===== *)
theory Golay
  imports Golay_Table
begin

text \<open>
  \<open>include/FEC/golay.h\<close> and \<open>src/FEC/golay.cpp\<close>: the extended Golay (24,12) coder. The table
  lookup of the encoder, the syndrome, the syndrome table \<open>init_syndrome_table\<close> fills once and the
  decoder with its correction modes, at the widths of the source. The locale \<open>syndrome_code\<close> is what
  the decoder needs of the code (a linear syndrome, a minimum distance); it is interpreted on
  \<open>compute_syndrome\<close>.
\<close>

unbundle bit_operations_syntax

section \<open>Encoder and syndrome\<close>

definition golay_encode :: "u16 \<Rightarrow> u32" where
  "golay_encode info =
     (let parity = GOLAY_ENCODE_TABLE ! unat (info AND 0xFFF)
      in push_bit 12 (ucast info) OR ucast parity)"

function compute_parity_loop :: "u8 \<Rightarrow> u32 \<Rightarrow> u8" where
  "compute_parity_loop parity value =
     (if value \<noteq> 0
      then compute_parity_loop (parity XOR ucast (value AND 1)) (drop_bit 1 value)
      else parity)"
  by pat_completeness auto
termination
proof (relation "measure (\<lambda>(parity, v). unat v)")
  fix parity :: u8 and v :: u32
  assume "v \<noteq> 0"
  then have "0 < unat v" by (simp add: unat_gt_0)
  then show "((parity XOR ucast (v AND 1), drop_bit 1 v), parity, v)
      \<in> measure (\<lambda>(parity, v). unat v)"
    by (simp add: unat_drop_bit_eq drop_bit_eq_div unat_div)
qed simp

declare compute_parity_loop.simps [simp del]

definition compute_parity :: "u32 \<Rightarrow> u8" where
  "compute_parity value = compute_parity_loop 0 value"

definition extract_info :: "u32 \<Rightarrow> u16" where
  "extract_info codeword = ucast (drop_bit 12 codeword AND 0xFFF)"

definition extract_parity :: "u32 \<Rightarrow> u16" where
  "extract_parity codeword = ucast (codeword AND 0xFFF)"

definition compute_syndrome :: "u32 \<Rightarrow> u16" where
  "compute_syndrome codeword =
     (let info = ucast (drop_bit 12 codeword AND 0xFFF) :: u16;
          received_parity = ucast (codeword AND 0xFFF) :: u16;
          expected_parity = GOLAY_ENCODE_TABLE ! unat info
      in received_parity XOR expected_parity)"

section \<open>The syndrome table\<close>

definition NO_PATTERN :: u32 where
  "NO_PATTERN = 0xFFFFFFFF"

definition record_pattern :: "u32 list \<Rightarrow> u32 \<Rightarrow> u32 list" where
  "record_pattern tbl error_pattern =
     (let syndrome = unat (compute_syndrome error_pattern)
      in if tbl ! syndrome = NO_PATTERN then tbl[syndrome := error_pattern] else tbl)"

definition patterns_1 :: "u32 list" where
  "patterns_1 = map (\<lambda>bit. push_bit bit 1) [0..<24]"

definition patterns_2 :: "u32 list" where
  "patterns_2 =
     concat (map (\<lambda>bit1. map (\<lambda>bit2. push_bit bit1 1 OR push_bit bit2 1) [bit1 + 1..<24]) [0..<24])"

definition patterns_3 :: "u32 list" where
  "patterns_3 =
     concat (map (\<lambda>bit1. concat (map (\<lambda>bit2.
       map (\<lambda>bit3. push_bit bit1 1 OR push_bit bit2 1 OR push_bit bit3 1) [bit2 + 1..<24])
       [bit1 + 1..<24])) [0..<24])"

definition init_syndrome_table :: "u32 list" where
  "init_syndrome_table =
     (let t0 = (replicate 4096 NO_PATTERN)[0 := 0];
          t1 = foldl record_pattern t0 patterns_1;
          t2 = foldl record_pattern t1 patterns_2
      in foldl record_pattern t2 patterns_3)"

section \<open>Decoder\<close>

datatype golay_mode = Mode0_7 | Mode1_6 | Mode2_5 | Mode3_4

fun mode_value :: "golay_mode \<Rightarrow> u8" where
  "mode_value Mode0_7 = 0"
| "mode_value Mode1_6 = 1"
| "mode_value Mode2_5 = 2"
| "mode_value Mode3_4 = 3"

datatype decode_flag = DECODE_OK | DECODE_CORRECTED | DECODE_DETECTED

record decode_result =
  flag :: decode_flag
  errors_corrected :: u8

text \<open>The result and the output parameter.\<close>

definition golay_decode :: "u32 \<Rightarrow> golay_mode \<Rightarrow> decode_result \<times> u16" where
  "golay_decode codeword mode =
     (let raw = ucast (drop_bit 12 codeword AND 0xFFF) :: u16;
          syndrome = compute_syndrome codeword
      in if syndrome = 0 then (\<lparr>flag = DECODE_OK, errors_corrected = 0\<rparr>, raw)
         else
           let error_pattern = init_syndrome_table ! unat syndrome
           in if error_pattern = NO_PATTERN then (\<lparr>flag = DECODE_DETECTED, errors_corrected = 0\<rparr>, raw)
              else
                let error_weight = of_nat (bit_weight error_pattern) :: u8
                in if error_weight > mode_value mode
                   then (\<lparr>flag = DECODE_DETECTED, errors_corrected = 0\<rparr>, raw)
                   else
                     let corrected = codeword XOR error_pattern
                     in (\<lparr>flag = DECODE_CORRECTED, errors_corrected = error_weight\<rparr>,
                         ucast (drop_bit 12 corrected AND 0xFFF)))"

section \<open>Codes given by a syndrome\<close>

locale syndrome_code =
  fixes syn :: "'a::len word \<Rightarrow> 'b::len word"
    and received :: "'a word \<Rightarrow> bool"
    and distance :: nat
  assumes syn_xor: "syn (x XOR y) = syn x XOR syn y"
    and received_xor: "received x \<Longrightarrow> received y \<Longrightarrow> received (x XOR y)"
    and min_distance: "received x \<Longrightarrow> syn x = 0 \<Longrightarrow> x = 0 \<or> distance \<le> bit_weight x"
begin

lemma coset_unique:
  assumes "received x" "received y" "syn x = syn y" "bit_weight x + bit_weight y < distance"
  shows "x = y"
proof -
  have "syn (x XOR y) = 0" using assms(3) by (simp add: syn_xor)
  moreover have "bit_weight (x XOR y) < distance"
    using bit_weight_xor_le [of x y] assms(4) by simp
  ultimately have "x XOR y = 0"
    using min_distance [OF received_xor [OF assms(1,2)]] by force
  then show ?thesis by simp
qed

lemma find_leader:
  assumes "e \<in> set ps" and "\<And>p. p \<in> set ps \<Longrightarrow> received p \<and> bit_weight p \<le> t" and "2 * t < distance"
  shows "find (\<lambda>p. syn p = syn e) ps = Some e"
proof -
  have e: "received e" "bit_weight e \<le> t" using assms(1,2) by auto
  have "\<exists>p. find (\<lambda>p. syn p = syn e) ps = Some p"
    using assms(1) by (auto simp: find_None_iff simp flip: not_None_eq)
  then obtain p where p: "find (\<lambda>p. syn p = syn e) ps = Some p" by blast
  then have "p \<in> set ps" "syn p = syn e" by (auto simp: find_Some_iff)
  moreover from this have "received p" "bit_weight p \<le> t" using assms(2) by auto
  ultimately have "p = e"
    using e assms(3) by (intro coset_unique) auto
  with p show ?thesis by simp
qed

lemma find_no_leader:
  assumes "\<And>p. p \<in> set ps \<Longrightarrow> received p \<and> p \<noteq> e \<and> bit_weight p + bit_weight e < distance"
    and "received e"
  shows "find (\<lambda>p. syn p = syn e) ps = None"
  using assms coset_unique [of _ e] by (auto simp: find_None_iff)

end

section \<open>The syndrome is linear and vanishes on the code\<close>

definition received24 :: "u32 \<Rightarrow> bool" where
  "received24 w \<longleftrightarrow> w AND 0xFFFFFF = w"

definition info_index :: "u32 \<Rightarrow> nat" where
  "info_index w = unat (drop_bit 12 w AND mask 12)"

lemma bit_info_index: "bit (info_index w) i \<longleftrightarrow> i < 12 \<and> bit w (i + 12)"
  by (simp add: info_index_def bit_unsigned_iff bit_mask_word bit_drop_bit_eq add.commute)

lemma info_index_less [simp]: "info_index w < 4096"
  using unat_and_mask_less [of "drop_bit 12 w" 12] by (simp add: info_index_def)

lemma info_index_xor: "info_index (x XOR y) = info_index x XOR info_index y"
  by (rule bit_eqI) (auto simp: bit_info_index bit_xor_iff)

lemma compute_syndrome_eq:
  "compute_syndrome w = ucast (w AND mask 12) XOR lin_comb golay_basis (info_index w)"
proof -
  have "unat (ucast (drop_bit 12 w AND mask 12) :: u16) = info_index w"
    unfolding info_index_def by (rule bit_eqI) (auto simp: bit_unsigned_iff bit_ucast_iff bit_mask_word)
  then show ?thesis
    by (simp add: compute_syndrome_def mask_12 GOLAY_ENCODE_TABLE_nth)
qed

lemma compute_syndrome_xor: "compute_syndrome (x XOR y) = compute_syndrome x XOR compute_syndrome y"
proof -
  have "ucast ((x XOR y) AND mask 12) = (ucast (x AND mask 12) XOR ucast (y AND mask 12) :: u16)"
    by (rule bit_eqI) (auto simp: bit_ucast_iff bit_mask_word bit_xor_iff)
  then show ?thesis
    by (simp add: compute_syndrome_eq info_index_xor lin_comb_xor xor.assoc xor.left_commute)
qed

lemma bit_lin_comb_basis: "bit (lin_comb golay_basis n) i \<Longrightarrow> i < 12"
proof -
  have "lin_comb (map (\<lambda>b. b AND 0xFFF) golay_basis) n = lin_comb golay_basis n AND 0xFFF"
    by (rule lin_comb_linear) (auto simp: bit.conj_xor_distrib2)
  moreover have "map (\<lambda>b. b AND 0xFFF) golay_basis = golay_basis"
    by (simp add: golay_basis_def)
  ultimately have "lin_comb golay_basis n = lin_comb golay_basis n AND mask 12"
    by (simp add: mask_12)
  then show "bit (lin_comb golay_basis n) i \<Longrightarrow> i < 12"
    by (metis bit_mask_word)
qed

lemma bit_compute_syndrome: "bit (compute_syndrome w) i \<Longrightarrow> i < 12"
  by (auto simp: compute_syndrome_eq bit_xor_iff bit_ucast_iff bit_mask_word dest: bit_lin_comb_basis)

lemma compute_syndrome_less [simp]: "unat (compute_syndrome w) < 4096"
proof -
  have "compute_syndrome w = compute_syndrome w AND mask 12"
    by (rule bit_eqI) (auto simp: bit_mask_word dest: bit_compute_syndrome)
  then show ?thesis using unat_and_mask_less [of "compute_syndrome w" 12] by simp
qed

lemma bit_golay_rows:
  "bit (lin_comb golay_rows n) i \<longleftrightarrow>
   (if i < 12 then bit (lin_comb golay_basis n) i else i < 24 \<and> bit n (i - 12))"
  using bit_lin_comb_basis [of n i] by (auto simp: bit_golay_rows_lin_comb bit_ucast_iff)

lemma golay_encode_rows:
  assumes "info AND 0xFFF = info"
  shows "golay_encode info = lin_comb golay_rows (unat info)"
proof (rule bit_eqI)
  fix i
  have "unat info < 4096"
    using unat_and_mask_less [of info 12] assms by (simp add: mask_12)
  moreover have "bit info k \<Longrightarrow> k < 12" for k
    using assms by (metis bit_mask_word mask_12)
  moreover have "bit info (i - 12) \<Longrightarrow> i < 24"
    using calculation(2) [of "i - 12"] by simp
  ultimately show "bit (golay_encode info) i = bit (lin_comb golay_rows (unat info)) i"
    using bit_lin_comb_basis [of "unat info" i] assms
    by (auto simp: golay_encode_def GOLAY_ENCODE_TABLE_nth bit_golay_rows bit_or_iff bit_push_bit_iff
        bit_ucast_iff bit_unsigned_iff)
qed

lemma received24_bits: "received24 w \<longleftrightarrow> (\<forall>i. bit w i \<longrightarrow> i < 24)"
  unfolding received24_def mask_24 by (metis bit_eqI bit_mask_word)

lemma zero_syndrome_codeword:
  assumes "received24 w" "compute_syndrome w = 0"
  shows "w = lin_comb golay_rows (info_index w)"
proof (rule bit_eqI)
  fix i
  have "lin_comb golay_basis (info_index w) = ucast (w AND mask 12)"
    using assms(2) by (simp add: compute_syndrome_eq)
  then have "i < 12 \<Longrightarrow> bit (lin_comb golay_basis (info_index w)) i = bit w i"
    by (simp add: bit_ucast_iff bit_mask_word)
  then show "bit w i = bit (lin_comb golay_rows (info_index w)) i"
    using assms(1) by (auto simp: bit_golay_rows received24_bits bit_info_index)
qed

interpretation golay: syndrome_code compute_syndrome received24 8
proof
  fix x y :: u32
  show "compute_syndrome (x XOR y) = compute_syndrome x XOR compute_syndrome y"
    by (rule compute_syndrome_xor)
  show "received24 (x XOR y)" if "received24 x" "received24 y"
    using that by (auto simp: received24_bits bit_xor_iff)
  show "x = 0 \<or> 8 \<le> bit_weight x" if "received24 x" "compute_syndrome x = 0"
    using zero_syndrome_codeword [OF that] golay_rows_weight [of "info_index x"] by simp
qed

section \<open>The patterns the table is filled with\<close>

lemma bits_exp: "b < 32 \<Longrightarrow> {n. bit ((2 :: u32) ^ b) n} = {b}"
  by (auto simp: bit_exp_iff)

lemma bits_or: "{n. bit (x OR y) n} = {n. bit x n} \<union> {n. bit y n}"
  by (auto simp: bit_or_iff)

lemma word_of_bits: "{n. bit x n} = {n. bit y n} \<Longrightarrow> x = y"
  by (rule bit_eqI) blast

lemma received24_less: "received24 e \<longleftrightarrow> {n. bit e n} \<subseteq> {..<24}"
  by (auto simp: received24_bits)

lemma set_patterns_1: "set patterns_1 = {e. received24 e \<and> bit_weight e = 1}"
proof (intro set_eqI iffI)
  fix e assume "e \<in> set patterns_1"
  then show "e \<in> {e. received24 e \<and> bit_weight e = 1}"
    by (auto simp: patterns_1_def received24_bits bit_exp_iff bit_weight_card bits_exp)
next
  fix e assume "e \<in> {e. received24 e \<and> bit_weight e = 1}"
  then obtain b where b: "{n. bit e n} = {b}" "b < 24"
    by (auto simp: bit_weight_card received24_less card_1_singleton_iff)
  then have "e = push_bit b 1" by (intro word_of_bits) (simp add: bits_exp)
  with b show "e \<in> set patterns_1" by (auto simp: patterns_1_def)
qed

lemma set_patterns_2: "set patterns_2 = {e. received24 e \<and> bit_weight e = 2}"
proof (intro set_eqI iffI)
  fix e assume "e \<in> set patterns_2"
  then obtain a b where e: "e = push_bit a 1 OR push_bit b 1" "a < b" "b < 24"
    by (auto simp: patterns_2_def)
  then have "{n. bit e n} = {a, b}" by (simp add: bits_or bits_exp insert_commute)
  with e show "e \<in> {e. received24 e \<and> bit_weight e = 2}"
    by (simp add: received24_less bit_weight_card)
next
  fix e assume "e \<in> {e. received24 e \<and> bit_weight e = 2}"
  then obtain a b where "{n. bit e n} = {a, b}" "a \<noteq> b" "a < 24" "b < 24"
    by (auto simp: bit_weight_card received24_less card_2_iff)
  then obtain c d where c: "{n. bit e n} = {c, d}" "c < d" "d < 24"
    by (metis insert_commute linorder_neqE_nat)
  then have "e = push_bit c 1 OR push_bit d 1"
    by (intro word_of_bits) (auto simp: bits_or bits_exp)
  moreover have "push_bit c 1 OR push_bit d 1 \<in> set patterns_2"
    unfolding patterns_2_def using c
    by (simp only: set_concat set_map image_image) (rule UN_I [of c], auto)
  ultimately show "e \<in> set patterns_2" by simp
qed

lemma three_sorted:
  assumes "card S = 3" "S \<subseteq> {..<24 :: nat}"
  obtains a b c where "S = {a, b, c}" "a < b" "b < c" "c < 24"
proof -
  have "finite S" using assms(2) finite_subset by blast
  then obtain xs where xs: "set xs = S" "sorted xs" "distinct xs"
    using finite_sorted_distinct_unique by blast
  then have "length xs = 3" using assms(1) distinct_card by metis
  then obtain a b c where "xs = [a, b, c]"
    by (metis (no_types) length_0_conv length_Suc_conv numeral_3_eq_3)
  with xs assms(2) show thesis by (intro that [of a b c]) auto
qed

lemma set_patterns_3: "set patterns_3 = {e. received24 e \<and> bit_weight e = 3}"
proof (intro set_eqI iffI)
  fix e assume "e \<in> set patterns_3"
  then obtain a b c where e: "e = push_bit a 1 OR push_bit b 1 OR push_bit c 1" "a < b" "b < c" "c < 24"
    by (auto simp: patterns_3_def)
  then have "{n. bit e n} = {a, b, c}" by (auto simp add: bits_or bits_exp)
  with e show "e \<in> {e. received24 e \<and> bit_weight e = 3}"
    by (simp add: received24_less bit_weight_card)
next
  fix e assume "e \<in> {e. received24 e \<and> bit_weight e = 3}"
  then obtain a b c where c: "{n. bit e n} = {a, b, c}" "a < b" "b < c" "c < 24"
    by (auto simp: bit_weight_card received24_less elim: three_sorted)
  then have "e = push_bit a 1 OR push_bit b 1 OR push_bit c 1"
    by (intro word_of_bits) (auto simp: bits_or bits_exp)
  moreover have "push_bit a 1 OR push_bit b 1 OR push_bit c 1 \<in> set patterns_3"
    unfolding patterns_3_def using c
    by (simp only: set_concat set_map image_image) (rule UN_I [of a], simp, rule UN_I [of b], auto)
  ultimately show "e \<in> set patterns_3" by simp
qed

definition leaders :: "u32 list" where
  "leaders = patterns_1 @ patterns_2 @ patterns_3"

lemma set_leaders: "set leaders = {e. received24 e \<and> 1 \<le> bit_weight e \<and> bit_weight e \<le> 3}"
  by (auto simp: leaders_def set_patterns_1 set_patterns_2 set_patterns_3)

section \<open>What the table holds\<close>

lemma not_received24_NO_PATTERN: "\<not> received24 NO_PATTERN"
  by (simp add: received24_def NO_PATTERN_def)

lemma length_foldl_record [simp]: "length (foldl record_pattern tbl ps) = length tbl"
  by (induction ps arbitrary: tbl) (auto simp: record_pattern_def Let_def)

lemma foldl_record_nth:
  assumes "length tbl = 4096" "n < 4096" "NO_PATTERN \<notin> set ps"
  shows "foldl record_pattern tbl ps ! n =
    (if tbl ! n \<noteq> NO_PATTERN then tbl ! n
     else case find (\<lambda>p. unat (compute_syndrome p) = n) ps of Some e \<Rightarrow> e | None \<Rightarrow> NO_PATTERN)"
  using assms
proof (induction ps arbitrary: tbl)
  case Nil
  then show ?case by simp
next
  case (Cons p ps)
  have "length (record_pattern tbl p) = 4096" using Cons.prems by (simp add: record_pattern_def Let_def)
  then show ?case using Cons.IH [of "record_pattern tbl p"] Cons.prems
    by (auto simp: record_pattern_def Let_def nth_list_update)
qed

lemma init_syndrome_table_nth:
  assumes "0 < n" "n < 4096"
  shows "init_syndrome_table ! n =
    (case find (\<lambda>p. unat (compute_syndrome p) = n) leaders of Some e \<Rightarrow> e | None \<Rightarrow> NO_PATTERN)"
proof -
  let ?t0 = "(replicate 4096 NO_PATTERN)[0 := 0]"
  have t: "init_syndrome_table = foldl record_pattern ?t0 leaders"
    by (simp only: init_syndrome_table_def Let_def leaders_def foldl_append)
  have "NO_PATTERN \<notin> set leaders"
    using not_received24_NO_PATTERN by (auto simp: set_leaders)
  moreover have "?t0 ! n = NO_PATTERN"
    using assms by (simp del: replicate.simps)
  moreover have "length ?t0 = 4096" by (simp only: length_list_update length_replicate)
  ultimately show ?thesis
    unfolding t using assms(2) by (simp only: foldl_record_nth simp_thms if_False)
qed

lemma syndrome_lookup:
  "find (\<lambda>p. unat (compute_syndrome p) = unat (compute_syndrome e)) leaders =
   find (\<lambda>p. compute_syndrome p = compute_syndrome e) leaders"
  by (rule find_cong) (auto simp: word_unat_eq_iff)

lemma compute_syndrome_nonzero:
  "received24 e \<Longrightarrow> e \<noteq> 0 \<Longrightarrow> bit_weight e < 8 \<Longrightarrow> 0 < unat (compute_syndrome e)"
  using golay.min_distance [of e] by (auto simp: unat_gt_0)

lemma table_leader:
  assumes "received24 e" "e \<noteq> 0" "bit_weight e \<le> 3"
  shows "init_syndrome_table ! unat (compute_syndrome e) = e"
proof -
  have "1 \<le> bit_weight e" using assms(2) bit_weight_eq_0 [of e] by linarith
  then have "e \<in> set leaders" using assms by (simp add: set_leaders)
  then have "find (\<lambda>p. compute_syndrome p = compute_syndrome e) leaders = Some e"
    by (rule golay.find_leader [where t = 3]) (auto simp: set_leaders)
  moreover have "0 < unat (compute_syndrome e)"
    using assms by (intro compute_syndrome_nonzero) auto
  ultimately show ?thesis by (simp add: init_syndrome_table_nth syndrome_lookup)
qed

lemma table_other:
  assumes "received24 e" "e \<noteq> 0" "3 < bit_weight e" "bit_weight e < 8"
    and "init_syndrome_table ! unat (compute_syndrome e) = p" "p \<noteq> NO_PATTERN"
  shows "received24 p \<and> 8 \<le> bit_weight p + bit_weight e"
proof -
  have "0 < unat (compute_syndrome e)"
    using assms by (intro compute_syndrome_nonzero) auto
  then have f: "find (\<lambda>p. compute_syndrome p = compute_syndrome e) leaders = Some p"
    using assms(5,6) by (auto simp: init_syndrome_table_nth syndrome_lookup split: option.splits)
  then have "p \<in> set leaders" "compute_syndrome p = compute_syndrome e"
    by (auto simp: find_Some_iff)
  then have "received24 p" "bit_weight p \<le> 3" by (auto simp: set_leaders)
  moreover have "p \<noteq> e" using \<open>bit_weight p \<le> 3\<close> assms(3) by auto
  ultimately show ?thesis
    using golay.coset_unique [of p e] assms(1) \<open>compute_syndrome p = compute_syndrome e\<close>
    by (meson not_le)
qed

section \<open>Decoding\<close>

lemma received24_rows: "received24 (lin_comb golay_rows n)"
  by (auto simp: received24_bits bit_golay_rows split: if_splits)

lemma info_index_rows: "n < 4096 \<Longrightarrow> info_index (lin_comb golay_rows n) = n"
proof (rule bit_eqI)
  fix i
  assume "n < 4096"
  then have "bit n i \<Longrightarrow> i < 12"
    using bit_take_bit_iff [of 12 n i] by (simp add: take_bit_eq_mod)
  then show "bit (info_index (lin_comb golay_rows n)) i = bit n i"
    by (auto simp: bit_info_index bit_golay_rows)
qed

lemma compute_syndrome_rows: "n < 4096 \<Longrightarrow> compute_syndrome (lin_comb golay_rows n) = 0"
  unfolding compute_syndrome_eq info_index_rows
  by (rule bit_eqI) (auto simp: bit_xor_iff bit_ucast_iff bit_mask_word bit_golay_rows dest: bit_lin_comb_basis)

lemma info_word_less: "info AND 0xFFF = info \<Longrightarrow> unat info < 4096"
  using unat_and_mask_less [of info 12] by (simp add: mask_12)

lemma compute_syndrome_encode:
  "info AND 0xFFF = info \<Longrightarrow> compute_syndrome (golay_encode info) = 0"
  by (simp add: golay_encode_rows compute_syndrome_rows info_word_less)

lemma received24_encode: "info AND 0xFFF = info \<Longrightarrow> received24 (golay_encode info)"
  by (simp add: golay_encode_rows received24_rows)

lemma extract_info_index: "extract_info w = of_nat (info_index w)"
proof -
  have "unat (extract_info w) = info_index w"
    by (rule bit_eqI)
      (auto simp: extract_info_def mask_12 bit_info_index bit_unsigned_iff bit_ucast_iff bit_mask_word
        bit_drop_bit_eq add.commute)
  then show ?thesis by (metis of_nat_unat ucast_id)
qed

lemma extract_info_encode: "info AND 0xFFF = info \<Longrightarrow> extract_info (golay_encode info) = info"
  by (simp add: extract_info_index golay_encode_rows info_index_rows info_word_less)

lemma golay_decode_extract:
  "golay_decode codeword mode =
     (let raw = extract_info codeword; syndrome = compute_syndrome codeword
      in if syndrome = 0 then (\<lparr>flag = DECODE_OK, errors_corrected = 0\<rparr>, raw)
         else let e = init_syndrome_table ! unat syndrome
           in if e = NO_PATTERN \<or> of_nat (bit_weight e) > mode_value mode
              then (\<lparr>flag = DECODE_DETECTED, errors_corrected = 0\<rparr>, raw)
              else (\<lparr>flag = DECODE_CORRECTED, errors_corrected = of_nat (bit_weight e)\<rparr>,
                    extract_info (codeword XOR e)))"
  by (simp add: golay_decode_def extract_info_def Let_def)

lemma mode_value_bound: "unat (mode_value m) \<le> 3"
  by (cases m) auto

lemma weight_exceeds_iff:
  "bit_weight (e :: u32) \<le> 24 \<Longrightarrow> (of_nat (bit_weight e) > mode_value m) \<longleftrightarrow> unat (mode_value m) < bit_weight e"
  by (simp add: word_less_nat_alt unat_of_nat)

lemma bit_weight_received: "received24 e \<Longrightarrow> bit_weight e \<le> 24"
proof -
  assume "received24 e"
  then have "card {n. bit e n} \<le> card {..<24 :: nat}"
    by (intro card_mono) (auto simp: received24_bits)
  then show ?thesis by (simp add: bit_weight_card)
qed

lemma golay_decode_light:
  assumes "info AND 0xFFF = info" "received24 e" "bit_weight e \<le> unat (mode_value mode)"
  shows "golay_decode (golay_encode info XOR e) mode =
    (\<lparr>flag = (if e = 0 then DECODE_OK else DECODE_CORRECTED), errors_corrected = of_nat (bit_weight e)\<rparr>, info)"
proof -
  have syn: "compute_syndrome (golay_encode info XOR e) = compute_syndrome e"
    using assms(1) by (simp add: compute_syndrome_xor compute_syndrome_encode)
  show ?thesis
  proof (cases "e = 0")
    case True
    then show ?thesis
      using assms(1) syn by (simp add: golay_decode_extract compute_syndrome_encode extract_info_encode)
  next
    case False
    have w: "bit_weight e \<le> 3" using assms(3) mode_value_bound [of mode] by linarith
    then have "0 < unat (compute_syndrome e)"
      using assms(2) False by (intro compute_syndrome_nonzero) auto
    moreover have "e \<noteq> NO_PATTERN" using assms(2) not_received24_NO_PATTERN by blast
    ultimately show ?thesis
      using False assms w table_leader [OF assms(2) False w]
      by (simp add: golay_decode_extract syn weight_exceeds_iff unat_gt_0 xor.assoc extract_info_encode)
  qed
qed

text \<open>
  C1. Up to as many channel errors as the correction mode allows, anywhere in the 24-bit codeword,
  are corrected: the decoder returns the encoded information, reports the number of errors, and
  says OK only when there was none.
\<close>

theorem golay_decode_corrects:
  assumes "info AND 0xFFF = info" "received24 e" "bit_weight e \<le> unat (mode_value mode)"
  shows "golay_decode (golay_encode info XOR e) mode =
    (\<lparr>flag = (if e = 0 then DECODE_OK else DECODE_CORRECTED), errors_corrected = of_nat (bit_weight e)\<rparr>, info)"
  using assms by (rule golay_decode_light)

theorem golay_decode_corrects_witness:
  "golay_decode (golay_encode 0xABC XOR 0x800401) Mode3_4 =
    (\<lparr>flag = DECODE_CORRECTED, errors_corrected = 3\<rparr>, 0xABC)"
  using golay_decode_corrects [of "0xABC" "0x800401" Mode3_4]
  by (simp add: received24_def bit_weight_numeral_32)

text \<open>
  More errors than the mode corrects, but no more than the code's distance leaves for detection,
  are always detected, never miscorrected: with mode \<open>n/m\<close> every pattern of more than \<open>n\<close> and at most
  \<open>7 - n\<close> errors gives DETECTED and the received information bits unchanged.
\<close>

theorem golay_decode_detects:
  assumes "info AND 0xFFF = info" "received24 e"
    and "unat (mode_value mode) < bit_weight e" "bit_weight e + unat (mode_value mode) \<le> 7"
  shows "golay_decode (golay_encode info XOR e) mode =
    (\<lparr>flag = DECODE_DETECTED, errors_corrected = 0\<rparr>, extract_info (golay_encode info XOR e))"
proof -
  have syn: "compute_syndrome (golay_encode info XOR e) = compute_syndrome e"
    using assms(1) by (simp add: compute_syndrome_xor compute_syndrome_encode)
  have e: "e \<noteq> 0" using assms(3) by auto
  have "0 < unat (compute_syndrome e)"
    using assms e by (intro compute_syndrome_nonzero) auto
  then have s: "compute_syndrome e \<noteq> 0" by (simp add: unat_gt_0)
  define p where "p = init_syndrome_table ! unat (compute_syndrome e)"
  have "p = NO_PATTERN \<or> of_nat (bit_weight p) > mode_value mode"
  proof (cases "bit_weight e \<le> 3")
    case True
    then have "p = e" using table_leader [OF assms(2) e] by (simp add: p_def)
    then show ?thesis using assms(3) True by (simp add: weight_exceeds_iff)
  next
    case False
    then have "p \<noteq> NO_PATTERN \<Longrightarrow> received24 p \<and> 8 \<le> bit_weight p + bit_weight e"
      using table_other [OF assms(2) e] assms(4) p_def by auto
    then show ?thesis
      using assms(4) bit_weight_received [of p] weight_exceeds_iff [of p mode] by fastforce
  qed
  then show ?thesis
    using s by (auto simp: golay_decode_extract syn p_def [symmetric])
qed

theorem golay_decode_detects_witness:
  "golay_decode (golay_encode 0x123 XOR 0xF00001) Mode2_5 =
    (\<lparr>flag = DECODE_DETECTED, errors_corrected = 0\<rparr>, extract_info (golay_encode 0x123 XOR 0xF00001))"
  using golay_decode_detects [of "0x123" "0xF00001" Mode2_5]
  by (simp add: received24_def bit_weight_numeral_32)

lemma golay_encode_extract:
  assumes "received24 w" "compute_syndrome w = 0"
  shows "golay_encode (extract_info w) = w"
proof -
  have "unat (extract_info w) = info_index w"
    by (simp add: extract_info_index unat_of_nat take_bit_nat_eq_self less_trans [OF info_index_less])
  moreover have "extract_info w AND 0xFFF = extract_info w"
    by (rule bit_eqI) (auto simp: extract_info_def mask_12 bit_mask_word bit_ucast_iff)
  ultimately have "golay_encode (extract_info w) = lin_comb golay_rows (info_index w)"
    by (simp add: golay_encode_rows)
  then show ?thesis using zero_syndrome_codeword [OF assms] by simp
qed

lemma table_entry:
  assumes "received24 w" "compute_syndrome w \<noteq> 0"
    and "init_syndrome_table ! unat (compute_syndrome w) = e" "e \<noteq> NO_PATTERN"
  shows "received24 e \<and> bit_weight e \<le> 3 \<and> e \<noteq> 0 \<and> compute_syndrome e = compute_syndrome w"
proof -
  have "0 < unat (compute_syndrome w)" using assms(2) by (simp add: unat_gt_0)
  then have "find (\<lambda>p. compute_syndrome p = compute_syndrome w) leaders = Some e"
    using assms(3,4) by (auto simp: init_syndrome_table_nth syndrome_lookup split: option.splits)
  then have "e \<in> set leaders" "compute_syndrome e = compute_syndrome w"
    by (auto simp: find_Some_iff)
  then show ?thesis by (auto simp: set_leaders)
qed

text \<open>
  On any received word the decoder is sound: an answer that is not DETECTED is a codeword at
  the reported distance, and that distance is within the correction mode.
\<close>

theorem golay_decode_sound:
  assumes "received24 w" "golay_decode w mode = (r, info)" "flag r \<noteq> DECODE_DETECTED"
  shows "bit_weight (w XOR golay_encode info) = unat (errors_corrected r) \<and>
    unat (errors_corrected r) \<le> unat (mode_value mode)"
proof (cases "compute_syndrome w = 0")
  case True
  then show ?thesis
    using assms by (auto simp: golay_decode_extract golay_encode_extract)
next
  case False
  define e where "e = init_syndrome_table ! unat (compute_syndrome w)"
  have g: "e \<noteq> NO_PATTERN" "\<not> of_nat (bit_weight e) > mode_value mode"
    and r: "r = \<lparr>flag = DECODE_CORRECTED, errors_corrected = of_nat (bit_weight e)\<rparr>"
    and i: "info = extract_info (w XOR e)"
    using assms(2,3) False by (auto simp: golay_decode_extract e_def Let_def split: if_splits)
  have e: "received24 e" "bit_weight e \<le> 3" "compute_syndrome e = compute_syndrome w"
    using table_entry [OF assms(1) False e_def [symmetric] g(1)] by auto
  then have "golay_encode info = w XOR e"
    unfolding i using assms(1)
    by (intro golay_encode_extract golay.received_xor) (auto simp: compute_syndrome_xor)
  then have "w XOR golay_encode info = e" by (simp flip: xor.assoc)
  moreover have "bit_weight e \<le> unat (mode_value mode)"
    using g(2) e(2) weight_exceeds_iff [of e mode] by auto
  ultimately show ?thesis
    using e(2) r by (simp add: unat_of_nat take_bit_nat_eq_self)
qed

theorem golay_decode_sound_witness:
  "golay_decode (golay_encode 0xABC XOR 0x401) Mode3_4 =
    (\<lparr>flag = DECODE_CORRECTED, errors_corrected = 2\<rparr>, 0xABC) \<and>
   bit_weight ((golay_encode 0xABC XOR 0x401) XOR golay_encode 0xABC) = 2"
proof -
  have s: "compute_syndrome (golay_encode 0xABC XOR 0x401) = compute_syndrome 0x401"
    by (simp add: compute_syndrome_xor compute_syndrome_encode)
  have t: "init_syndrome_table ! unat (compute_syndrome 0x401) = 0x401"
    by (rule table_leader) (simp_all add: received24_def bit_weight_numeral_32)
  have "0 < unat (compute_syndrome 0x401)"
    by (rule compute_syndrome_nonzero) (simp_all add: received24_def bit_weight_numeral_32)
  then have d: "golay_decode (golay_encode 0xABC XOR 0x401) Mode3_4 =
      (\<lparr>flag = DECODE_CORRECTED, errors_corrected = 2\<rparr>, 0xABC)"
    by (simp add: golay_decode_extract s t unat_gt_0 NO_PATTERN_def bit_weight_numeral_32 xor.assoc
        extract_info_encode)
  have "received24 (golay_encode 0xABC XOR 0x401)"
    by (rule golay.received_xor) (simp_all add: received24_encode, simp add: received24_def)
  from golay_decode_sound [OF this d] d show ?thesis by simp
qed

end
