(* ===== verification/Fec_Codec.thy ===== *)
theory Fec_Codec
  imports Golay
begin

text \<open>
  \<open>src/FEC/word_interleaver.cpp\<close> and \<open>src/FEC/ale_fec_codec.cpp\<close>: the 49-bit transmitted word.
  \<open>interleave\<close> and \<open>deinterleave\<close> are the two loops of each routine; \<open>encode_word\<close>,
  \<open>interleave_word\<close> and \<open>deinterleave_word\<close> the transmit and receive pipelines. The locale
  \<open>linear_channel\<close> is the contract between a bit-level word layout and a pair of half decoders.
\<close>

unbundle bit_operations_syntax

section \<open>Word interleaver\<close>

definition interleave_bit :: "u32 \<Rightarrow> u32 \<Rightarrow> nat \<Rightarrow> u64 \<Rightarrow> u64" where
  "interleave_bit sequence_a sequence_b k out =
     (let out = (if drop_bit (23 - k) sequence_a AND 1 \<noteq> 0 then out OR push_bit (2 * k) 1 else out)
      in if drop_bit (23 - k) sequence_b AND 1 \<noteq> 0 then out OR push_bit (2 * k + 1) 1 else out)"

definition interleave :: "u32 \<Rightarrow> u32 \<Rightarrow> u64" where
  "interleave sequence_a sequence_b =
     (let data = fold (interleave_bit sequence_a sequence_b) [0..<12] 0
      in fold (interleave_bit sequence_a sequence_b) [12..<24] data)"

definition deinterleave_bit :: "u64 \<Rightarrow> nat \<Rightarrow> u32 \<times> u32 \<Rightarrow> u32 \<times> u32" where
  "deinterleave_bit transmitted k = (\<lambda>(sequence_a, sequence_b).
     (if drop_bit (2 * k) transmitted AND 1 \<noteq> 0 then sequence_a OR push_bit (23 - k) 1 else sequence_a,
      if drop_bit (2 * k + 1) transmitted AND 1 \<noteq> 0 then sequence_b OR push_bit (23 - k) 1 else sequence_b))"

definition deinterleave :: "u64 \<Rightarrow> u32 \<times> u32" where
  "deinterleave transmitted =
     (let data = fold (deinterleave_bit transmitted) [0..<12] (0, 0)
      in fold (deinterleave_bit transmitted) [12..<24] data)"

section \<open>Codec\<close>

record golay_coded =
  coder_a :: u32
  coder_b :: u32

definition flip_coder_b_check_bits :: "u32 \<Rightarrow> u32" where
  "flip_coder_b_check_bits golay_codeword =
     (let unchanged_high_12 = golay_codeword AND 0xFFF000;
          inverted_check_12 = NOT golay_codeword AND 0xFFF
      in unchanged_high_12 OR inverted_check_12)"

definition encode_word :: "u32 \<Rightarrow> golay_coded" where
  "encode_word ale_word =
     (let w_upper = ucast (drop_bit 12 ale_word AND 0xFFF) :: u16;
          w_lower = ucast (ale_word AND 0xFFF) :: u16
      in \<lparr>coder_a = golay_encode w_upper, coder_b = flip_coder_b_check_bits (golay_encode w_lower)\<rparr>)"

definition interleave_word :: "golay_coded \<Rightarrow> u64" where
  "interleave_word coded = interleave (coder_a coded) (coder_b coded)"

definition combine_results :: "decode_result \<Rightarrow> decode_result \<Rightarrow> decode_result" where
  "combine_results fec_a fec_b =
     (if flag fec_a = DECODE_DETECTED \<or> flag fec_b = DECODE_DETECTED
      then \<lparr>flag = DECODE_DETECTED, errors_corrected = 0\<rparr>
      else if flag fec_a = DECODE_CORRECTED \<or> flag fec_b = DECODE_CORRECTED
      then \<lparr>flag = DECODE_CORRECTED, errors_corrected = errors_corrected fec_a + errors_corrected fec_b\<rparr>
      else \<lparr>flag = DECODE_OK, errors_corrected = 0\<rparr>)"

text \<open>The word and the output parameter \<open>fec_out\<close>.\<close>

definition deinterleave_word :: "u64 \<Rightarrow> golay_mode \<Rightarrow> u32 \<times> decode_result" where
  "deinterleave_word transmitted mode =
     (let (seq_a, seq_b) = deinterleave transmitted;
          seq_b_natural = flip_coder_b_check_bits seq_b;
          (fec_a, corrected_upper) = golay_decode seq_a mode;
          (fec_b, corrected_lower) = golay_decode seq_b_natural mode
      in (push_bit 12 (ucast corrected_upper) OR ucast corrected_lower, combine_results fec_a fec_b))"

section \<open>Which bit goes where\<close>

lemma and_1_iff: "drop_bit n w AND 1 \<noteq> 0 \<longleftrightarrow> bit w n"
  by (simp add: and_one_eq bit_iff_odd_drop_bit odd_iff_mod_2_eq_one)

lemma bit_set_if:
  "bit (if c then out OR push_bit n 1 else out) i \<longleftrightarrow> bit out i \<or> c \<and> i = n \<and> n < LENGTH('a)"
  for out :: "'a::len word"
  by (auto simp: bit_or_iff bit_exp_iff)

lemma double_iff: "i = 2 * k \<longleftrightarrow> even i \<and> i div 2 = k" "i = 2 * k + 1 \<longleftrightarrow> odd i \<and> i div 2 = k"
  for i k :: nat
  by presburger+

lemma bit_interleave_fold:
  "set ks \<subseteq> {..<24} \<Longrightarrow> bit (fold (interleave_bit a b) ks out) i \<longleftrightarrow>
     bit out i \<or> i div 2 \<in> set ks \<and> bit (if even i then a else b) (23 - i div 2)"
proof (induction ks arbitrary: out)
  case Nil
  then show ?case by simp
next
  case (Cons k ks)
  have "bit (interleave_bit a b k out) i \<longleftrightarrow>
      bit out i \<or> i div 2 = k \<and> bit (if even i then a else b) (23 - k)"
    unfolding interleave_bit_def Let_def and_1_iff bit_set_if double_iff using Cons.prems by auto
  then show ?case using Cons by auto
qed

lemma bit_interleave [bit_field]:
  "bit (interleave a b) i \<longleftrightarrow> i < 48 \<and> bit (if even i then a else b) (23 - i div 2)"
proof -
  have p: "set [0..<12] \<subseteq> {..<24}" "set [12..<24] \<subseteq> {..<24 :: nat}" by auto
  have "i < 48 \<longleftrightarrow> i div 2 \<in> set [0..<12] \<or> i div 2 \<in> set [12..<24]"
    unfolding set_upt by auto
  then show ?thesis
    unfolding interleave_def Let_def bit_interleave_fold [OF p(1)] bit_interleave_fold [OF p(2)] by auto
qed

lemma bit_deinterleave_fold:
  "set ks \<subseteq> {..<24} \<Longrightarrow> bit (fst (fold (deinterleave_bit t) ks ab)) i \<longleftrightarrow>
      bit (fst ab) i \<or> (\<exists>k \<in> set ks. i = 23 - k \<and> bit t (2 * k))"
  "set ks \<subseteq> {..<24} \<Longrightarrow> bit (snd (fold (deinterleave_bit t) ks ab)) i \<longleftrightarrow>
      bit (snd ab) i \<or> (\<exists>k \<in> set ks. i = 23 - k \<and> bit t (2 * k + 1))"
  by (induction ks arbitrary: ab)
    (auto simp: deinterleave_bit_def and_1_iff bit_set_if split: prod.splits simp del: push_bit_of_1)

lemma bit_deinterleave [bit_field]:
  "bit (fst (deinterleave t)) i \<longleftrightarrow> i < 24 \<and> bit t (2 * (23 - i))"
  "bit (snd (deinterleave t)) i \<longleftrightarrow> i < 24 \<and> bit t (2 * (23 - i) + 1)"
proof -
  have f: "(\<exists>k \<in> set [0..<12]. i = 23 - k \<and> P k) \<or> (\<exists>k \<in> set [12..<24]. i = 23 - k \<and> P k) \<longleftrightarrow>
      i < 24 \<and> P (23 - i)" for P
  proof -
    have "(\<exists>k \<in> {..<24}. i = 23 - k \<and> P k) \<longleftrightarrow> i < 24 \<and> P (23 - i)"
      by (auto intro!: bexI [of _ "23 - i"])
    moreover have "{..<24} = set [0..<12] \<union> set [12..<24]" unfolding set_upt by auto
    ultimately show ?thesis by (simp only: bex_Un)
  qed
  have p: "set [0..<12] \<subseteq> {..<24}" "set [12..<24] \<subseteq> {..<24 :: nat}" by auto
  show "bit (fst (deinterleave t)) i \<longleftrightarrow> i < 24 \<and> bit t (2 * (23 - i))"
    unfolding deinterleave_def Let_def bit_deinterleave_fold(1) [OF p(2)] bit_deinterleave_fold(1) [OF p(1)]
    using f [of "\<lambda>k. bit t (2 * k)"] by simp
  show "bit (snd (deinterleave t)) i \<longleftrightarrow> i < 24 \<and> bit t (2 * (23 - i) + 1)"
    unfolding deinterleave_def Let_def bit_deinterleave_fold(2) [OF p(2)] bit_deinterleave_fold(2) [OF p(1)]
    using f [of "\<lambda>k. bit t (2 * k + 1)"] by simp
qed

lemma deinterleave_xor [linear]:
  "fst (deinterleave (x XOR y)) = fst (deinterleave x) XOR fst (deinterleave y)"
  "snd (deinterleave (x XOR y)) = snd (deinterleave x) XOR snd (deinterleave y)"
  by (rule bit_eqI, auto simp: bit_field bit_xor_iff)+

lemma received24_deinterleave [simp]:
  "received24 (fst (deinterleave t))" "received24 (snd (deinterleave t))"
  by (auto simp: received24_bits bit_field)

lemma interleaved_fst: "received24 a \<Longrightarrow> fst (deinterleave (interleave a b)) = a"
  by (rule bit_eqI) (auto simp: bit_field received24_bits)

lemma interleaved_snd: "received24 b \<Longrightarrow> snd (deinterleave (interleave a b)) = b"
  by (rule bit_eqI) (auto simp: bit_field received24_bits)

text \<open>
  The interleaver and the deinterleaver are inverse on pairs of 24-bit codewords, and the
  interleaved word fits in 48 bits: the stuff bit S49 is sent as 0.
\<close>

theorem deinterleave_interleave:
  assumes "received24 a" "received24 b"
  shows "deinterleave (interleave a b) = (a, b) \<and> \<not> bit (interleave a b) 48 \<and> interleave a b AND mask 49 = interleave a b"
proof -
  have "interleave a b AND mask 49 = interleave a b"
    by (rule bit_eqI) (auto simp: bit_field)
  then show ?thesis using assms by (simp add: prod_eq_iff bit_field interleaved_fst interleaved_snd)
qed

theorem deinterleave_interleave_witness:
  "deinterleave (interleave 0xABC123 0x5A5A5A) = (0xABC123, 0x5A5A5A)"
  using deinterleave_interleave [of "0xABC123" "0x5A5A5A"] by (simp add: received24_def)

section \<open>The check bits of coder B\<close>

lemma flip_coder_b_xor: "received24 w \<Longrightarrow> flip_coder_b_check_bits w = w XOR 0xFFF"
proof (rule bit_eqI)
  fix i
  assume "received24 w"
  moreover have "bit (0xFFF000 :: u32) i \<longleftrightarrow> 12 \<le> i \<and> i < 24"
  proof -
    have "(0xFFF000 :: u32) = push_bit 12 (mask 12)" by (simp add: mask_eq_decr_exp push_bit_eq_mult)
    then show ?thesis by (simp only: bit_push_bit_iff bit_mask_iff) auto
  qed
  ultimately show "bit (flip_coder_b_check_bits w) i = bit (w XOR 0xFFF) i"
    unfolding flip_coder_b_check_bits_def Let_def mask_12
    by (auto simp: bit_or_iff bit_and_iff bit_not_iff bit_xor_iff bit_mask_iff received24_bits)
qed

lemma received24_flip: "received24 w \<Longrightarrow> received24 (flip_coder_b_check_bits w)"
  by (auto simp: flip_coder_b_xor received24_bits bit_xor_iff mask_12 bit_mask_iff)

lemma flip_coder_b_flip: "received24 w \<Longrightarrow> flip_coder_b_check_bits (flip_coder_b_check_bits w) = w"
  using received24_flip [of w] by (simp add: flip_coder_b_xor xor.assoc)

lemma flip_coder_b_error:
  "received24 w \<Longrightarrow> received24 e \<Longrightarrow>
   flip_coder_b_check_bits (flip_coder_b_check_bits w XOR e) = w XOR e"
  using received24_flip [of w] golay.received_xor [of "flip_coder_b_check_bits w" e]
  by (simp add: flip_coder_b_xor xor.assoc xor.left_commute xor.commute)

section \<open>Two protected halves\<close>

text \<open>
  What the pipeline above needs of the code of the halves: \<open>code\<close> gives codewords of the frame, \<open>dec\<close>
  recovers the information from every error pattern the predicate \<open>light\<close> allows.
\<close>

locale half_code =
  fixes code :: "u16 \<Rightarrow> u32"
    and dec :: "u32 \<Rightarrow> decode_result \<times> u16"
    and light :: "u32 \<Rightarrow> bool"
    and result :: "u32 \<Rightarrow> decode_result"
  assumes code_received: "info AND 0xFFF = info \<Longrightarrow> received24 (code info)"
    and dec_code: "info AND 0xFFF = info \<Longrightarrow> received24 e \<Longrightarrow> light e \<Longrightarrow>
      dec (code info XOR e) = (result e, info)"
begin

lemma halves_recovered:
  assumes "hi AND 0xFFF = hi" "lo AND 0xFFF = lo"
    and "light (fst (deinterleave noise))" "light (snd (deinterleave noise))"
    and "deinterleave (interleave (code hi) (flip_coder_b_check_bits (code lo)) XOR noise) = (a, b)"
  shows "dec a = (result (fst (deinterleave noise)), hi)"
    "dec (flip_coder_b_check_bits b) = (result (snd (deinterleave noise)), lo)"
proof -
  have d: "deinterleave (interleave (code hi) (flip_coder_b_check_bits (code lo))) =
      (code hi, flip_coder_b_check_bits (code lo))"
  proof (rule prod_eqI)
    show "fst (deinterleave (interleave (code hi) (flip_coder_b_check_bits (code lo)))) = fst (code hi, flip_coder_b_check_bits (code lo))"
      using code_received [OF assms(1)] by (simp add: interleaved_fst)
    show "snd (deinterleave (interleave (code hi) (flip_coder_b_check_bits (code lo)))) = snd (code hi, flip_coder_b_check_bits (code lo))"
      using code_received [OF assms(2)] by (simp add: interleaved_snd received24_flip)
  qed
  then have a: "a = code hi XOR fst (deinterleave noise)"
    and b: "b = flip_coder_b_check_bits (code lo) XOR snd (deinterleave noise)"
    using assms(5) by (simp_all add: prod_eq_iff linear)
  show "dec a = (result (fst (deinterleave noise)), hi)"
    unfolding a by (rule dec_code) (use assms in simp_all)
  show "dec (flip_coder_b_check_bits b) = (result (snd (deinterleave noise)), lo)"
    unfolding b
    by (subst flip_coder_b_error) (use assms in \<open>simp_all add: code_received dec_code\<close>)
qed

end

interpretation ale_half: half_code golay_encode "\<lambda>w. golay_decode w mode"
  "\<lambda>e. bit_weight e \<le> unat (mode_value mode)" "\<lambda>e. \<lparr>flag = (if e = 0 then DECODE_OK else DECODE_CORRECTED), errors_corrected = of_nat (bit_weight e)\<rparr>"
  for mode
  by unfold_locales (simp_all add: received24_encode golay_decode_light)

lemma upper_half: "(ucast (drop_bit 12 w AND 0xFFF) :: u16) AND 0xFFF = ucast (drop_bit 12 (w :: u32) AND 0xFFF)"
  by (rule bit_eqI) (auto simp: mask_12 bit_field bit_ucast_iff)

lemma lower_half: "(ucast (w AND 0xFFF) :: u16) AND 0xFFF = ucast ((w :: u32) AND 0xFFF)"
  by (rule bit_eqI) (auto simp: mask_12 bit_field bit_ucast_iff)

lemma join_halves:
  assumes "received24 w"
  shows "push_bit 12 (ucast (ucast (drop_bit 12 w AND 0xFFF) :: u16)) OR ucast (ucast (w AND 0xFFF) :: u16) = w"
  using assms
  by (intro bit_eqI)
    (auto simp: mask_12 received24_bits bit_or_iff bit_push_bit_iff bit_ucast_iff bit_mask_word bit_drop_bit_eq)

definition half_errors :: "u64 \<Rightarrow> nat \<times> nat" where
  "half_errors noise = (bit_weight (fst (deinterleave noise)), bit_weight (snd (deinterleave noise)))"

lemma pipeline_recovers:
  assumes "received24 w"
    and "fst (half_errors noise) \<le> unat (mode_value mode)" "snd (half_errors noise) \<le> unat (mode_value mode)"
  shows "deinterleave_word (interleave_word (encode_word w) XOR noise) mode =
    (w, \<lparr>flag = (if half_errors noise = (0, 0) then DECODE_OK else DECODE_CORRECTED),
        errors_corrected = of_nat (fst (half_errors noise) + snd (half_errors noise))\<rparr>)"
proof -
  let ?hi = "ucast (drop_bit 12 w AND 0xFFF) :: u16" and ?lo = "ucast (w AND 0xFFF) :: u16"
  obtain a b where ab: "deinterleave (interleave_word (encode_word w) XOR noise) = (a, b)"
    by (cases "deinterleave (interleave_word (encode_word w) XOR noise)")
  have d: "deinterleave (interleave (golay_encode ?hi) (flip_coder_b_check_bits (golay_encode ?lo)) XOR noise) = (a, b)"
    using ab by (simp add: interleave_word_def encode_word_def)
  note halves = ale_half.halves_recovered [OF upper_half lower_half _ _ d, where mode = mode]
  have "golay_decode a mode = (\<lparr>flag = (if fst (deinterleave noise) = 0 then DECODE_OK else DECODE_CORRECTED),
      errors_corrected = of_nat (fst (half_errors noise))\<rparr>, ?hi)"
    "golay_decode (flip_coder_b_check_bits b) mode = (\<lparr>flag = (if snd (deinterleave noise) = 0 then DECODE_OK else DECODE_CORRECTED),
      errors_corrected = of_nat (snd (half_errors noise))\<rparr>, ?lo)"
    using halves assms(2,3) by (simp_all add: half_errors_def)
  then show ?thesis
    using ab assms(1)
    by (simp add: deinterleave_word_def Let_def combine_results_def join_halves half_errors_def)
qed

text \<open>
  C2. The transmit and receive pipelines are inverse through a noisy channel: whatever bits of the
  transmitted word the channel inverts (the stuff bit and above included), if neither half carries
  more errors than the correction mode allows then the 24-bit word comes back, and the combined
  result counts the errors of both halves.
\<close>

theorem deinterleave_word_recovers:
  assumes "received24 w"
    and "fst (half_errors noise) \<le> unat (mode_value mode)" "snd (half_errors noise) \<le> unat (mode_value mode)"
  shows "deinterleave_word (interleave_word (encode_word w) XOR noise) mode =
    (w, \<lparr>flag = (if half_errors noise = (0, 0) then DECODE_OK else DECODE_CORRECTED),
        errors_corrected = of_nat (fst (half_errors noise) + snd (half_errors noise))\<rparr>)"
  using assms by (rule pipeline_recovers)

theorem deinterleave_word_recovers_witness:
  "deinterleave_word (interleave_word (encode_word 0x54A2C3) XOR 0x1000000000215) Mode3_4 =
    (0x54A2C3, \<lparr>flag = DECODE_CORRECTED, errors_corrected = 4\<rparr>)"
proof -
  have "deinterleave 0x1000000000215 = (0xE00000, 0x080000)"
    by code_simp
  then have "half_errors 0x1000000000215 = (3, 1)"
    by (simp add: half_errors_def bit_weight_numeral_32)
  then show ?thesis
    using deinterleave_word_recovers [of "0x54A2C3" "0x1000000000215" Mode3_4]
    by (simp add: received24_def)
qed

end
