(* ===== verification/Ale_Word.thy ===== *)
theory Ale_Word
  imports Complex_Main Fec_Codec
begin

text \<open>
  \<open>include/Word/ale_word.h\<close> and \<open>src/Word/ale_word.cpp\<close>: the 24-bit ALE word (a 3-bit preamble and
  three 7-bit characters), the two character sets, and the parser and factory of words. The result
  and the output parameters of a function are a tuple. The float \<open>sinad_db\<close> is a rational: the code
  modelled here only copies it.
\<close>

unbundle bit_operations_syntax

section \<open>Words\<close>

datatype preamble_type = DATA | THRU | TO | TWAS | FROM | TIS | CMD | REP | UNKNOWN

fun preamble_value :: "preamble_type \<Rightarrow> u8" where
  "preamble_value DATA = 0"
| "preamble_value THRU = 1"
| "preamble_value TO = 2"
| "preamble_value TWAS = 3"
| "preamble_value FROM = 4"
| "preamble_value TIS = 5"
| "preamble_value CMD = 6"
| "preamble_value REP = 7"
| "preamble_value UNKNOWN = 0xFF"

text \<open>The cast of a three-bit value to the enumeration.\<close>

definition preamble_cast :: "u8 \<Rightarrow> preamble_type" where
  "preamble_cast v =
     (if v = 0 then DATA else if v = 1 then THRU else if v = 2 then TO else if v = 3 then TWAS
      else if v = 4 then FROM else if v = 5 then TIS else if v = 6 then CMD
      else if v = 7 then REP else UNKNOWN)"

abbreviation NUL :: char where
  "NUL \<equiv> CHR 0x00"

record ale_word =
  word_type :: preamble_type
  address :: string
  raw_payload :: u32
  fec_errors :: u8
  unanimous_votes :: u8
  sinad_db :: rat
  golay_uncorrectable :: bool
  valid :: bool
  timestamp_ms :: u32

definition ALEWord :: ale_word where
  "ALEWord = \<lparr>word_type = UNKNOWN, address = [NUL, NUL, NUL, NUL], raw_payload = 0, fec_errors = 0,
     unanimous_votes = 0, sinad_db = 0, golay_uncorrectable = False, valid = False, timestamp_ms = 0\<rparr>"

definition ale_word_encode :: "ale_word \<Rightarrow> u64" where
  "ale_word_encode w =
     (let raw24 = push_bit 21 (ucast (preamble_value (word_type w))) OR (raw_payload w AND 0x1FFFFF)
      in interleave_word (encode_word raw24))"

section \<open>Character sets\<close>

definition ASCII_INVALID :: nat where "ASCII_INVALID = 0"
definition ASCII_64 :: nat where "ASCII_64 = 1"
definition ASCII_38 :: nat where "ASCII_38 = 2"

definition ASCII_SET :: "nat list" where
  "ASCII_SET =
    [0, 0, 0, 0, 0, 0, 0, 0, 0, 0, 0, 0, 0, 0, 0, 0,
     0, 0, 0, 0, 0, 0, 0, 0, 0, 0, 0, 0, 0, 0, 0, 0,
     1, 1, 1, 1, 1, 1, 1, 1, 1, 1, 1, 1, 1, 1, 1, 1,
     2, 2, 2, 2, 2, 2, 2, 2, 2, 2, 1, 1, 1, 1, 1, 2,
     2, 2, 2, 2, 2, 2, 2, 2, 2, 2, 2, 2, 2, 2, 2, 2,
     2, 2, 2, 2, 2, 2, 2, 2, 2, 2, 2, 1, 1, 1, 1, 1,
     0, 0, 0, 0, 0, 0, 0, 0, 0, 0, 0, 0, 0, 0, 0, 0,
     0, 0, 0, 0, 0, 0, 0, 0, 0, 0, 0, 0, 0, 0, 0, 0]"

definition is_valid_basic38_char :: "char \<Rightarrow> bool" where
  "is_valid_basic38_char ch =
     (let u = (of_char ch :: nat) in if u \<ge> 128 then False else ASCII_SET ! u = ASCII_38)"

definition is_valid_expanded64_char :: "char \<Rightarrow> bool" where
  "is_valid_expanded64_char ch =
     (let u = (of_char ch :: nat) in if u \<ge> 128 then False else ASCII_SET ! u \<noteq> ASCII_INVALID)"

definition uses_basic38 :: "preamble_type \<Rightarrow> bool" where
  "uses_basic38 type = (type \<noteq> DATA \<and> type \<noteq> REP)"

definition valid_char :: "preamble_type \<Rightarrow> char \<Rightarrow> bool" where
  "valid_char type = (if uses_basic38 type then is_valid_basic38_char else is_valid_expanded64_char)"

section \<open>Parser\<close>

record word_parser =
  last_timestamp_ms :: u32

definition extract_preamble :: "u32 \<Rightarrow> preamble_type" where
  "extract_preamble word_bits = preamble_cast (ucast (drop_bit 21 word_bits AND 0x07))"

definition extract_payload :: "u32 \<Rightarrow> u32" where
  "extract_payload word_bits = word_bits AND 0x1FFFFF"

definition payload_char :: "u32 \<Rightarrow> nat \<Rightarrow> char" where
  "payload_char payload shift = char_of (unat (drop_bit shift payload AND 0x7F))"

definition decode_ascii :: "u32 \<Rightarrow> preamble_type \<Rightarrow> bool \<times> string" where
  "decode_ascii payload type =
     (let c0 = payload_char payload 14; c1 = payload_char payload 7; c2 = payload_char payload 0
      in if type = CMD then (True, [c0, c1, c2, NUL])
         else if \<not> valid_char type c0 \<or> \<not> valid_char type c1 \<or> \<not> valid_char type c2
         then (False, [CHR ''?'', CHR ''?'', CHR ''?'', NUL])
         else (True, [c0, c1, c2, NUL]))"

definition encode_ascii :: "string \<Rightarrow> preamble_type \<Rightarrow> u32" where
  "encode_ascii chars type =
     (if \<not> valid_char type (chars ! 0) \<or> \<not> valid_char type (chars ! 1) \<or> \<not> valid_char type (chars ! 2)
      then 0xFFFFFFFF
      else (push_bit 14 (of_char (chars ! 0) AND 0x7F) OR push_bit 7 (of_char (chars ! 1) AND 0x7F) OR
            (of_char (chars ! 2) AND 0x7F)) AND 0x1FFFFF)"

definition parse_from_bits ::
  "word_parser \<Rightarrow> u32 \<Rightarrow> ale_word \<Rightarrow> u32 \<Rightarrow> bool \<times> ale_word \<times> word_parser" where
  "parse_from_bits parser word_bits output timestamp =
     (let type = extract_preamble word_bits;
          payload = extract_payload word_bits;
          (ascii_valid, chars) = decode_ascii payload type
      in (ascii_valid,
          output\<lparr>word_type := type, raw_payload := payload, timestamp_ms := timestamp,
                 address := chars, valid := ascii_valid\<rparr>,
          parser\<lparr>last_timestamp_ms := timestamp\<rparr>))"

definition make_word :: "preamble_type \<Rightarrow> string \<Rightarrow> ale_word" where
  "make_word type chars =
     (let payload = encode_ascii chars type
      in if payload = 0xFFFFFFFF then ALEWord
         else fst (snd (parse_from_bits \<lparr>last_timestamp_ms = 0\<rparr>
                (push_bit 21 (ucast (preamble_value type)) OR payload) ALEWord 0)))"

definition WORD_TYPE_NAMES :: "string list" where
  "WORD_TYPE_NAMES = [''DATA'', ''THRU'', ''TO'', ''TWAS'', ''FROM'', ''TIS'', ''CMD'', ''REP'', ''UNKNOWN'']"

definition word_type_name :: "preamble_type \<Rightarrow> string" where
  "word_type_name type =
     (let index = unat (preamble_value type) in WORD_TYPE_NAMES ! (if index > 7 then 8 else index))"

section \<open>The character sets as the standard names them\<close>

lemma ASCII_SET_ranges:
  "ASCII_SET = map (\<lambda>n. if 48 \<le> n \<and> n \<le> 57 \<or> 63 \<le> n \<and> n \<le> 90 then ASCII_38
     else if 0x20 \<le> n \<and> n < 0x60 then ASCII_64 else ASCII_INVALID) [0..<128]"
  by code_simp

text \<open>Digits, the question mark, the at sign and the capital letters.\<close>

lemma is_valid_basic38_char_iff:
  "is_valid_basic38_char c \<longleftrightarrow>
     of_char c \<in> {48 .. 57 :: nat} \<or> of_char c \<in> {63 .. 90 :: nat}"
  by (auto simp: is_valid_basic38_char_def Let_def ASCII_SET_ranges ASCII_38_def ASCII_64_def ASCII_INVALID_def
      simp del: upt_rec_numeral)

lemma is_valid_expanded64_char_iff:
  "is_valid_expanded64_char c \<longleftrightarrow> 0x20 \<le> (of_char c :: nat) \<and> of_char c < (0x60 :: nat)"
  by (auto simp: is_valid_expanded64_char_def Let_def ASCII_SET_ranges ASCII_38_def ASCII_64_def
      ASCII_INVALID_def simp del: upt_rec_numeral)

lemma basic38_expanded64: "is_valid_basic38_char c \<Longrightarrow> is_valid_expanded64_char c"
  by (auto simp: is_valid_basic38_char_def is_valid_expanded64_char_def Let_def ASCII_38_def
      ASCII_INVALID_def split: if_splits)

lemma valid_char_expanded64: "valid_char type c \<Longrightarrow> is_valid_expanded64_char c"
  by (auto simp: valid_char_def basic38_expanded64 split: if_splits)

lemma valid_char_less: "valid_char type c \<Longrightarrow> of_char c < (128 :: nat)"
  using valid_char_expanded64 by (force simp: is_valid_expanded64_char_iff)

lemma valid_char_not_NUL: "\<not> valid_char type NUL"
  using valid_char_expanded64 [of type NUL] by (auto simp: is_valid_expanded64_char_iff)

section \<open>Fields of a word\<close>

lemma mask_3: "(0x07 :: 'a::len word) = mask 3"
  by (simp add: mask_eq_decr_exp)

lemma preamble_cast_value [simp]: "t \<noteq> UNKNOWN \<Longrightarrow> preamble_cast (preamble_value t) = t"
  by (cases t) (simp_all add: preamble_cast_def)

lemma bit_preamble_value: "t \<noteq> UNKNOWN \<Longrightarrow> bit (preamble_value t) n \<Longrightarrow> n < 3"
proof -
  assume "t \<noteq> UNKNOWN"
  then have "preamble_value t = preamble_value t AND mask 3"
    by (cases t) (simp_all flip: mask_3)
  then show "bit (preamble_value t) n \<Longrightarrow> n < 3" by (metis bit_mask_word)
qed

lemma extract_preamble_join:
  assumes "t \<noteq> UNKNOWN"
  shows "extract_preamble (push_bit 21 (ucast (preamble_value t)) OR (p AND 0x1FFFFF)) = t"
proof -
  have "ucast (drop_bit 21 (push_bit 21 (ucast (preamble_value t)) OR (p AND 0x1FFFFF) :: u32) AND 0x07) =
      preamble_value t"
    by (rule bit_eqI)
      (auto simp: mask_3 mask_21 bit_ucast_iff bit_and_iff bit_mask_iff bit_drop_bit_eq bit_or_iff
        bit_push_bit_iff dest: bit_preamble_value [OF assms])
  then show ?thesis using assms by (simp add: extract_preamble_def)
qed

lemma extract_payload_join:
  "extract_payload (push_bit 21 t OR (p AND 0x1FFFFF)) = p AND 0x1FFFFF"
  by (rule bit_eqI) (auto simp: extract_payload_def mask_21 bit_mask_word bit_or_iff bit_push_bit_iff)

lemma received24_join:
  "t \<noteq> UNKNOWN \<Longrightarrow> received24 (push_bit 21 (ucast (preamble_value t)) OR (p AND 0x1FFFFF))"
  by (auto simp: received24_bits mask_21 bit_mask_word bit_or_iff bit_push_bit_iff bit_ucast_iff
      dest: bit_preamble_value)

lemma of_char_word:
  assumes "of_char c < (128 :: nat)"
  shows "char_of (unat ((of_char c :: u32) AND 0x7F)) = c"
proof -
  have "unat (of_char c :: u32) = (of_char c :: nat) mod 2 ^ 32"
    by (simp add: of_nat_of_char [where ?'a = u32, symmetric] unat_of_nat take_bit_eq_mod del: of_nat_of_char)
  then show ?thesis using assms by (simp add: mask_7 unat_and_mask)
qed

lemma payload_char_fields:
  fixes x y z :: u32
  defines "p \<equiv> (push_bit 14 (x AND 0x7F) OR push_bit 7 (y AND 0x7F) OR (z AND 0x7F)) AND 0x1FFFFF"
  shows "payload_char p 14 = char_of (unat (x AND 0x7F))"
    "payload_char p 7 = char_of (unat (y AND 0x7F))"
    "payload_char p 0 = char_of (unat (z AND 0x7F))"
proof -
  have "drop_bit 14 p AND 0x7F = x AND 0x7F" "drop_bit 7 p AND 0x7F = y AND 0x7F" "p AND 0x7F = z AND 0x7F"
    unfolding p_def mask_7 mask_21
    by (rule bit_eqI, auto simp: bit_and_iff bit_mask_iff bit_drop_bit_eq bit_or_iff bit_push_bit_iff)+
  then show "payload_char p 14 = char_of (unat (x AND 0x7F))"
    "payload_char p 7 = char_of (unat (y AND 0x7F))"
    "payload_char p 0 = char_of (unat (z AND 0x7F))"
    by (simp_all add: payload_char_def)
qed

lemma encode_ascii_cases:
  assumes "length cs = 3"
  shows "encode_ascii cs t = (if list_all (valid_char t) cs then encode_ascii cs t else 0xFFFFFFFF)"
proof -
  obtain a b c where "cs = [a, b, c]"
    using assms by (metis (no_types) length_0_conv length_Suc_conv numeral_3_eq_3)
  then show ?thesis by (simp add: encode_ascii_def)
qed

lemma encode_ascii_masked:
  assumes "list_all (valid_char t) [a, b, c]"
  shows "encode_ascii [a, b, c] t AND 0x1FFFFF = encode_ascii [a, b, c] t" "encode_ascii [a, b, c] t \<noteq> 0xFFFFFFFF"
proof -
  show m: "encode_ascii [a, b, c] t AND 0x1FFFFF = encode_ascii [a, b, c] t"
    using assms by (simp add: encode_ascii_def and.assoc)
  have "(0xFFFFFFFF :: u32) AND 0x1FFFFF \<noteq> 0xFFFFFFFF" by simp
  then show "encode_ascii [a, b, c] t \<noteq> 0xFFFFFFFF" using m by metis
qed

lemma decode_encode_ascii:
  assumes "list_all (valid_char t) [a, b, c]"
  shows "decode_ascii (encode_ascii [a, b, c] t) t = (True, [a, b, c, NUL])"
proof -
  have e: "encode_ascii [a, b, c] t =
      (push_bit 14 (of_char a AND 0x7F) OR push_bit 7 (of_char b AND 0x7F) OR (of_char c AND 0x7F)) AND 0x1FFFFF"
    using assms by (simp add: encode_ascii_def)
  have "payload_char (encode_ascii [a, b, c] t) 14 = a" "payload_char (encode_ascii [a, b, c] t) 7 = b"
    "payload_char (encode_ascii [a, b, c] t) 0 = c"
    unfolding e payload_char_fields using assms by (auto intro!: of_char_word valid_char_less)
  then show ?thesis using assms by (simp add: decode_ascii_def)
qed

lemma decode_ascii_valid:
  "t \<noteq> CMD \<Longrightarrow> fst (decode_ascii p t) \<Longrightarrow> list_all (valid_char t) (take 3 (snd (decode_ascii p t)))"
  by (auto simp: decode_ascii_def Let_def split: if_splits)

lemma length_decode_ascii [simp]: "length (snd (decode_ascii p t)) = 4"
  by (simp add: decode_ascii_def Let_def)

section \<open>Building and parsing words\<close>

lemma make_word_eq:
  assumes "t \<noteq> UNKNOWN" "length cs = 3"
  shows "make_word t cs =
    (if list_all (valid_char t) cs
     then ALEWord\<lparr>word_type := t, address := cs @ [NUL], raw_payload := encode_ascii cs t, valid := True\<rparr>
     else ALEWord)"
proof -
  obtain a b c where cs: "cs = [a, b, c]"
    using assms(2) by (metis (no_types) length_0_conv length_Suc_conv numeral_3_eq_3)
  show ?thesis
  proof (cases "list_all (valid_char t) cs")
    case False
    then show ?thesis using encode_ascii_cases [OF assms(2), of t] by (simp add: make_word_def)
  next
    case True
    note e = encode_ascii_masked [of t a b c] and d = decode_encode_ascii [of t a b c]
    have "extract_preamble (push_bit 21 (ucast (preamble_value t)) OR encode_ascii cs t) = t"
      "extract_payload (push_bit 21 (ucast (preamble_value t)) OR encode_ascii cs t) = encode_ascii cs t"
      using extract_preamble_join [OF assms(1), of "encode_ascii cs t"]
        extract_payload_join [of "ucast (preamble_value t)" "encode_ascii cs t"] e True cs by simp_all
    then show ?thesis
      using True cs e d by (simp add: make_word_def parse_from_bits_def ALEWord_def)
  qed
qed

text \<open>
  The word factory: three characters of the set its type allows give a valid word that carries
  them, and any other three the invalid word of type UNKNOWN; a valid word's fields are those a
  receiver parses from the 24 bits the word is sent as.
\<close>

theorem make_word_cases:
  assumes "t \<noteq> UNKNOWN" "length cs = 3"
  shows "make_word t cs =
    (if list_all (valid_char t) cs
     then ALEWord\<lparr>word_type := t, address := cs @ [NUL], raw_payload := encode_ascii cs t, valid := True\<rparr>
     else ALEWord)"
  using assms by (rule make_word_eq)

theorem make_word_cases_witness:
  "make_word TO ''A1?'' = ALEWord\<lparr>word_type := TO, address := ''A1?'' @ [NUL],
     raw_payload := encode_ascii ''A1?'' TO, valid := True\<rparr> \<and> make_word TO ''a b'' = ALEWord"
  using make_word_cases [of TO "''A1?''"] make_word_cases [of TO "''a b''"]
  by (simp add: valid_char_def uses_basic38_def is_valid_basic38_char_iff)

end
