(* ===== verification/Ale_Codec.thy ===== *)
theory Ale_Codec
  imports Ale_Word
begin

text \<open>
  \<open>src/Codec/ale_encoder.cpp\<close>, \<open>src/Codec/ale_decoder.cpp\<close> and the symbol mapping of
  \<open>include/FSK/ale_waveform.h\<close>: a word as 49 symbols of the 8-FSK waveform, sent as three copies of the
  49-bit transmitted word, and the receiver's majority voter, Golay decoder and parser.
\<close>

unbundle bit_operations_syntax

section \<open>Waveform constants\<close>

definition NUM_TONES :: nat where "NUM_TONES = 8"
definition BITS_PER_SYMBOL :: nat where "BITS_PER_SYMBOL = 3"
definition SYMBOLS_PER_WORD :: nat where "SYMBOLS_PER_WORD = 49"
definition SYMBOL_REPETITION :: nat where "SYMBOL_REPETITION = 3"

lemmas waveform_consts [simp] =
  NUM_TONES_def BITS_PER_SYMBOL_def SYMBOLS_PER_WORD_def SYMBOL_REPETITION_def

definition TONE_FREQS_HZ :: "nat list" where
  "TONE_FREQS_HZ = [750, 1000, 1250, 1500, 1750, 2000, 2250, 2500]"

definition FREQ_TO_SYMBOL :: "u8 list" where
  "FREQ_TO_SYMBOL = [0, 1, 3, 2, 6, 7, 5, 4]"

definition freq_to_symbol_is_permutation :: bool where
  "freq_to_symbol_is_permutation =
     (case fold (\<lambda>r seen. case seen of None \<Rightarrow> None
                | Some m \<Rightarrow> let s = unat (FREQ_TO_SYMBOL ! r)
                    in if s \<ge> NUM_TONES \<or> m ! s then None else Some (m[s := True]))
        [0..<NUM_TONES] (Some (replicate NUM_TONES False))
      of None \<Rightarrow> False | Some _ \<Rightarrow> True)"

definition SYMBOL_TO_FREQ :: "nat list" where
  "SYMBOL_TO_FREQ =
     fold (\<lambda>rank result. result[unat (FREQ_TO_SYMBOL ! rank) := TONE_FREQS_HZ ! rank])
       [0..<NUM_TONES] (replicate NUM_TONES 0)"

section \<open>Encoder\<close>

definition encode_symbol :: "u64 \<Rightarrow> nat \<Rightarrow> u8" where
  "encode_symbol tx49 k =
     fold (\<lambda>b sym.
         let bit_pos = (k * BITS_PER_SYMBOL + b) mod SYMBOLS_PER_WORD
         in if drop_bit bit_pos tx49 AND 1 \<noteq> 0
            then sym OR push_bit (BITS_PER_SYMBOL - 1 - b) 1 else sym)
       [0..<BITS_PER_SYMBOL] 0"

definition encode_tx49 :: "u64 \<Rightarrow> u8 list" where
  "encode_tx49 tx49 = map (encode_symbol tx49) [0..<SYMBOLS_PER_WORD]"

definition encoder_encode :: "ale_word \<Rightarrow> u8 list" where
  "encoder_encode w = encode_tx49 (ale_word_encode w)"

section \<open>Decoder\<close>

definition copy_bit :: "u8 list \<Rightarrow> nat \<Rightarrow> u8" where
  "copy_bit symbols_49 p =
     drop_bit (BITS_PER_SYMBOL - 1 - p mod BITS_PER_SYMBOL) (symbols_49 ! (p div BITS_PER_SYMBOL)) AND 1"

definition count_ones :: "u8 list \<Rightarrow> nat \<Rightarrow> u8" where
  "count_ones symbols_49 b =
     fold (\<lambda>copy ones. ones + copy_bit symbols_49 (b + copy * SYMBOLS_PER_WORD)) [0..<SYMBOL_REPETITION] 0"

definition vote_bit :: "u8 list \<Rightarrow> nat \<Rightarrow> u64 \<times> u8 \<Rightarrow> u64 \<times> u8" where
  "vote_bit symbols_49 b = (\<lambda>(tx49, unanimous).
     let ones = count_ones symbols_49 b
     in (if 2 * unat ones > SYMBOL_REPETITION then tx49 OR push_bit b 1 else tx49,
         if ones = 0 \<or> unat ones = SYMBOL_REPETITION then unanimous + 1 else unanimous))"

definition majority_vote :: "u8 list \<Rightarrow> u64 \<times> u8" where
  "majority_vote symbols_49 = fold (vote_bit symbols_49) [0..<SYMBOLS_PER_WORD - 1] (0, 0)"

text \<open>The result, \<open>out\<close> (in and out), \<open>fec\<close> and \<open>unanimous_votes_out\<close>.\<close>

definition decoder_decode ::
  "u8 list \<Rightarrow> ale_word \<Rightarrow> golay_mode \<Rightarrow> bool \<times> ale_word \<times> decode_result \<times> u8" where
  "decoder_decode symbols_49 out golay_mode =
     (let (tx49, votes) = majority_vote symbols_49;
          out = out\<lparr>unanimous_votes := votes\<rparr>;
          (word24, fec) = deinterleave_word tx49 golay_mode;
          out = out\<lparr>fec_errors := errors_corrected fec,
                    golay_uncorrectable := (flag fec \<noteq> DECODE_OK \<and> flag fec \<noteq> DECODE_CORRECTED)\<rparr>
      in if golay_uncorrectable out then (False, out, fec, votes)
         else let (ok, out, _) = parse_from_bits \<lparr>last_timestamp_ms = 0\<rparr> word24 out 0
              in (ok, out, fec, votes))"

section \<open>The symbol mapping\<close>

text \<open>
  The symbol assignment is a Gray code over the tones in ascending frequency: every symbol value
  names one tone, the frequency table is its inverse, and neighbouring tones differ in one bit.
\<close>

theorem symbol_mapping:
  "freq_to_symbol_is_permutation \<and>
   map (\<lambda>s. SYMBOL_TO_FREQ ! unat s) FREQ_TO_SYMBOL = TONE_FREQS_HZ \<and>
   map (\<lambda>r. bit_weight (FREQ_TO_SYMBOL ! r XOR FREQ_TO_SYMBOL ! Suc r)) [0..<7] = replicate 7 1"
  by code_simp

section \<open>The copies a symbol frame carries\<close>

lemma sub_bits: "b < 3 \<Longrightarrow> b = 0 \<or> b = 1 \<or> b = (2 :: nat)"
  by auto

lemma bit_encode_symbol:
  "b < 3 \<Longrightarrow> bit (encode_symbol tx k) (2 - b) \<longleftrightarrow> bit tx ((k * 3 + b) mod 49)"
  unfolding encode_symbol_def Let_def and_1_iff
  by (drule sub_bits) (auto simp: upt_rec bit_or_iff bit_exp_iff bit_1_iff)

lemma length_encode_tx49 [simp]: "length (encode_tx49 tx) = 49"
  by (simp add: encode_tx49_def)

lemma copy_bit_of_bool: "copy_bit syms p = of_bool (bit (syms ! (p div 3)) (2 - p mod 3))"
  by (simp add: copy_bit_def and_one_eq bit_iff_odd_drop_bit mod_2_eq_odd)

text \<open>The transmitted frame carries bit \<open>p mod 49\<close> at every on-air position \<open>p\<close>.\<close>

lemma copy_bit_encode: "p < 147 \<Longrightarrow> copy_bit (encode_tx49 tx) p = of_bool (bit tx (p mod 49))"
  using bit_encode_symbol [of "p mod 3" tx "p div 3"]
  by (simp add: copy_bit_of_bool encode_tx49_def)

lemma count_ones_eq:
  "count_ones syms b = copy_bit syms b + copy_bit syms (b + 49) + copy_bit syms (b + 98)"
  by (simp add: count_ones_def upt_rec)

lemma unat_count_ones:
  "unat (count_ones syms b) =
     of_bool (copy_bit syms b = 1) + of_bool (copy_bit syms (b + 49) = 1) + of_bool (copy_bit syms (b + 98) = 1)"
  by (simp add: count_ones_eq copy_bit_of_bool)

definition unanimous :: "u8 list \<Rightarrow> nat \<Rightarrow> bool" where
  "unanimous syms b \<longleftrightarrow> copy_bit syms b = copy_bit syms (b + 49) \<and> copy_bit syms b = copy_bit syms (b + 98)"

lemma unanimous_count: "count_ones syms b = 0 \<or> unat (count_ones syms b) = 3 \<longleftrightarrow> unanimous syms b"
  by (simp add: count_ones_eq copy_bit_of_bool unanimous_def)

lemma vote_bit_step:
  "b < 64 \<Longrightarrow> bit (fst (vote_bit syms b tv)) i \<longleftrightarrow> bit (fst tv) i \<or> i = b \<and> 2 * unat (count_ones syms b) > 3"
  "snd (vote_bit syms b tv) = snd tv + of_bool (unanimous syms b)"
  using unanimous_count [of syms b]
  by (auto simp: vote_bit_def Let_def bit_or_iff bit_exp_iff split: prod.splits)

lemma bit_vote_fold:
  assumes "\<And>b. b \<in> set bs \<Longrightarrow> b < 64"
  shows "bit (fst (fold (vote_bit syms) bs tv)) i \<longleftrightarrow>
      bit (fst tv) i \<or> i \<in> set bs \<and> 2 * unat (count_ones syms i) > 3"
    and "snd (fold (vote_bit syms) bs tv) = snd tv + of_nat (length (filter (unanimous syms) bs))"
  using assms
proof (induction bs arbitrary: tv)
  case Nil
  { case 1 then show ?case by simp }
  { case 2 then show ?case by simp }
next
  case (Cons b bs)
  { case 1
    then show ?case using Cons.IH(1) by (auto simp: vote_bit_step) }
  { case 2
    then show ?case using Cons.IH(2) by (simp add: vote_bit_step) }
qed

lemma majority_vote_bit:
  "bit (fst (majority_vote syms)) i \<longleftrightarrow> i < 48 \<and> 2 * unat (count_ones syms i) > 3"
  using bit_vote_fold(1) [of "[0..<48]" syms "(0, 0)" i]
  by (simp add: majority_vote_def del: upt_rec_numeral)

lemma majority_vote_unanimous:
  "snd (majority_vote syms) = of_nat (length (filter (unanimous syms) [0..<48]))"
  using bit_vote_fold(2) [of "[0..<48]" syms "(0, 0)"]
  by (simp add: majority_vote_def del: upt_rec_numeral)

text \<open>At most one of the three copies of the bit is corrupted.\<close>

definition one_copy_corrupted :: "u64 \<Rightarrow> u8 list \<Rightarrow> nat \<Rightarrow> bool" where
  "one_copy_corrupted tx syms b \<longleftrightarrow>
     (\<exists>p \<in> {b, b + 49, b + 98}. \<forall>q \<in> {b, b + 49, b + 98} - {p}. copy_bit syms q = copy_bit (encode_tx49 tx) q)"

lemma on_air_mod:
  fixes b :: nat
  assumes "b < 49"
  shows "(b + 49) mod 49 = b" "(b + 98) mod 49 = b"
  using assms by (simp_all add: mod_if)

lemma majority_copy:
  assumes "one_copy_corrupted tx syms b" "b < 48"
  shows "2 * unat (count_ones syms b) > 3 \<longleftrightarrow> bit tx b"
proof -
  have c: "copy_bit (encode_tx49 tx) b = of_bool (bit tx b)"
    "copy_bit (encode_tx49 tx) (b + 49) = of_bool (bit tx b)"
    "copy_bit (encode_tx49 tx) (b + 98) = of_bool (bit tx b)"
    using assms(2) by (simp_all add: copy_bit_encode on_air_mod)
  have "of_bool x = (0 :: u8) \<or> of_bool x = (1 :: u8)" for x by simp
  then have "copy_bit syms p = 0 \<or> copy_bit syms p = 1" for p by (simp add: copy_bit_of_bool)
  note v = this [of b] this [of "b + 49"] this [of "b + 98"]
  show ?thesis
    using assms(1) v unfolding one_copy_corrupted_def unat_count_ones
    by (cases "bit tx b") (auto simp: c)
qed

lemma majority_vote_recovers:
  assumes "\<And>b. b < 48 \<Longrightarrow> one_copy_corrupted tx syms b" "\<And>i. bit tx i \<Longrightarrow> i < 48"
  shows "fst (majority_vote syms) = tx"
  by (rule bit_eqI) (use assms(2) in \<open>auto simp: majority_vote_bit majority_copy [OF assms(1)]\<close>)

text \<open>
  The majority voter: a transmitted word comes out unchanged whenever of the three copies of
  each bit at most one arrives wrong; the unanimous votes count the bits whose three copies agree,
  48 of them on a clean frame.
\<close>

theorem majority_vote_masks:
  assumes "tx AND mask 48 = tx" "\<forall>b < 48. one_copy_corrupted tx syms b"
  shows "fst (majority_vote syms) = tx \<and>
    snd (majority_vote syms) = of_nat (length (filter (unanimous syms) [0..<48])) \<and>
    snd (majority_vote (encode_tx49 tx)) = 48"
proof -
  have "bit tx i \<Longrightarrow> i < 48" for i using assms(1) by (metis bit_mask_word)
  then have "fst (majority_vote syms) = tx" using assms(2) by (intro majority_vote_recovers) auto
  moreover have "filter (unanimous (encode_tx49 tx)) [0..<48] = [0..<48]"
    by (rule filter_True) (auto simp: unanimous_def copy_bit_encode on_air_mod)
  ultimately show ?thesis using majority_vote_unanimous [of "encode_tx49 tx"]
    by (simp add: majority_vote_unanimous del: upt_rec_numeral)
qed

lemma copies_of_frame: "one_copy_corrupted tx (encode_tx49 tx) b"
  by (auto simp: one_copy_corrupted_def)

theorem majority_vote_masks_witness:
  "fst (majority_vote (encode_tx49 0x5A5A5A5A5A5A)) = 0x5A5A5A5A5A5A \<and>
   snd (majority_vote (encode_tx49 0x5A5A5A5A5A5A)) = 48"
  using majority_vote_masks [of "0x5A5A5A5A5A5A" "encode_tx49 0x5A5A5A5A5A5A"] copies_of_frame
  by (auto simp: mask_eq_decr_exp)

section \<open>From word to word\<close>

lemma ale_word_encode_masked: "ale_word_encode w AND mask 48 = ale_word_encode w"
  by (rule bit_eqI) (auto simp: ale_word_encode_def Let_def interleave_word_def bit_field)

lemma deinterleave_encoded:
  assumes "word_type w \<noteq> UNKNOWN"
    and "fst (half_errors noise) \<le> unat (mode_value mode)" "snd (half_errors noise) \<le> unat (mode_value mode)"
  shows "deinterleave_word (ale_word_encode w XOR noise) mode =
    (push_bit 21 (ucast (preamble_value (word_type w))) OR (raw_payload w AND 0x1FFFFF),
     \<lparr>flag = (if half_errors noise = (0, 0) then DECODE_OK else DECODE_CORRECTED),
       errors_corrected = of_nat (fst (half_errors noise) + snd (half_errors noise))\<rparr>)"
  unfolding ale_word_encode_def Let_def
  by (rule pipeline_recovers [OF received24_join [OF assms(1)] assms(2,3)])

lemma decoder_decode_voted:
  assumes "word_type w \<noteq> UNKNOWN" "raw_payload w AND 0x1FFFFF = raw_payload w"
    and "decode_ascii (raw_payload w) (word_type w) = (True, cs)"
    and "fst (majority_vote syms) = ale_word_encode w XOR noise"
    and "fst (half_errors noise) \<le> unat (mode_value mode)" "snd (half_errors noise) \<le> unat (mode_value mode)"
  shows "decoder_decode syms out mode =
    (True, out\<lparr>word_type := word_type w, raw_payload := raw_payload w, address := cs, valid := True,
         timestamp_ms := 0, golay_uncorrectable := False, unanimous_votes := snd (majority_vote syms),
         fec_errors := of_nat (fst (half_errors noise) + snd (half_errors noise))\<rparr>,
     \<lparr>flag = (if half_errors noise = (0, 0) then DECODE_OK else DECODE_CORRECTED),
       errors_corrected = of_nat (fst (half_errors noise) + snd (half_errors noise))\<rparr>,
     snd (majority_vote syms))"
proof -
  obtain votes where m: "majority_vote syms = (ale_word_encode w XOR noise, votes)"
    using assms(4) by (metis prod.collapse)
  show ?thesis
    using assms(2,3) extract_preamble_join [OF assms(1), of "raw_payload w"]
      extract_payload_join [of "ucast (preamble_value (word_type w))" "raw_payload w"]
    by (simp add: decoder_decode_def m deinterleave_encoded [OF assms(1,5,6)] parse_from_bits_def Let_def)
qed

text \<open>
  The decoder inverts the encoder: for a word whose characters its type allows, if after the
  vote the halves of the transmitted word carry no more errors than the correction mode allows, the
  decoder reports success and the word's own type, payload and characters, with the number of
  corrected errors and of unanimous votes.
\<close>

theorem decoder_decode_encoded:
  assumes "word_type w \<noteq> UNKNOWN" "raw_payload w AND 0x1FFFFF = raw_payload w"
    and "decode_ascii (raw_payload w) (word_type w) = (True, cs)"
    and "half_errors (fst (majority_vote syms) XOR ale_word_encode w) = (ea, eb)"
    and "ea \<le> unat (mode_value mode)" "eb \<le> unat (mode_value mode)"
  shows "decoder_decode syms out mode =
    (True, out\<lparr>word_type := word_type w, raw_payload := raw_payload w, address := cs, valid := True,
         timestamp_ms := 0, golay_uncorrectable := False, unanimous_votes := snd (majority_vote syms),
         fec_errors := of_nat (ea + eb)\<rparr>,
     \<lparr>flag = (if ea + eb = 0 then DECODE_OK else DECODE_CORRECTED), errors_corrected = of_nat (ea + eb)\<rparr>,
     snd (majority_vote syms))"
proof -
  have "fst (majority_vote syms) = ale_word_encode w XOR (fst (majority_vote syms) XOR ale_word_encode w)"
    by (simp add: xor.left_commute xor.commute)
  from decoder_decode_voted [OF assms(1-3) this] assms(4-6) show ?thesis by simp
qed

definition sample_word :: ale_word where
  "sample_word = ALEWord\<lparr>word_type := TO, address := ''SAM'' @ [NUL], raw_payload := encode_ascii ''SAM'' TO, valid := True\<rparr>"

lemma sample_word:
  "word_type sample_word = TO" "raw_payload sample_word AND 0x1FFFFF = raw_payload sample_word"
  "decode_ascii (raw_payload sample_word) (word_type sample_word) = (True, ''SAM'' @ [NUL])"
proof -
  have v: "list_all (valid_char TO) ''SAM''"
    by (simp add: valid_char_def uses_basic38_def is_valid_basic38_char_iff)
  show "word_type sample_word = TO" by (simp add: sample_word_def)
  show "raw_payload sample_word AND 0x1FFFFF = raw_payload sample_word"
    "decode_ascii (raw_payload sample_word) (word_type sample_word) = (True, ''SAM'' @ [NUL])"
    using encode_ascii_masked(1) [OF v] decode_encode_ascii [OF v] by (simp_all add: sample_word_def)
qed

lemma noise_masked: "(0x215 :: u64) AND mask 48 = 0x215"
  by (simp add: mask_eq_decr_exp)

theorem decoder_decode_encoded_witness:
  "fst (decoder_decode (encode_tx49 (ale_word_encode sample_word XOR 0x215)) ALEWord Mode3_4) \<and>
   address (fst (snd (decoder_decode (encode_tx49 (ale_word_encode sample_word XOR 0x215)) ALEWord Mode3_4))) = ''SAM'' @ [NUL]"
proof -
  have "ale_word_encode sample_word XOR 0x215 = (ale_word_encode sample_word XOR 0x215) AND mask 48"
    by (metis (no_types, lifting) ale_word_encode_masked bit.conj_xor_distrib2 noise_masked)
  then have "fst (majority_vote (encode_tx49 (ale_word_encode sample_word XOR 0x215))) = ale_word_encode sample_word XOR 0x215"
    by (intro majority_vote_recovers copies_of_frame) (metis bit_mask_word)
  moreover have "half_errors 0x215 = (3, 1)" by code_simp
  ultimately have "half_errors (fst (majority_vote (encode_tx49 (ale_word_encode sample_word XOR 0x215))) XOR ale_word_encode sample_word) = (3, 1)"
    by (simp add: xor.left_commute xor.commute)
  from decoder_decode_encoded [OF _ sample_word(2,3) this, of Mode3_4 ALEWord] show ?thesis
    by (simp add: sample_word(1))
qed

text \<open>Outside a window of sixteen symbols the frame arrives as it was sent.\<close>

definition burst_at :: "nat \<Rightarrow> u8 list \<Rightarrow> u8 list \<Rightarrow> bool" where
  "burst_at k sent got \<longleftrightarrow> (\<forall>j < 49. j < k \<or> k + 16 \<le> j \<longrightarrow> got ! j = sent ! j)"

lemma burst_one_copy:
  assumes "burst_at k (encode_tx49 tx) syms" "b < 48"
  shows "one_copy_corrupted tx syms b"
proof -
  have same: "copy_bit syms p = copy_bit (encode_tx49 tx) p" if "p < 147" "p < 3 * k \<or> 3 * k + 48 \<le> p" for p
  proof -
    have "p div 3 < 49" "p div 3 < k \<or> k + 16 \<le> p div 3" using that by auto
    then have "syms ! (p div 3) = encode_tx49 tx ! (p div 3)" using assms(1) by (auto simp: burst_at_def)
    then show ?thesis by (simp add: copy_bit_of_bool)
  qed
  consider "3 * k \<le> b \<and> b < 3 * k + 48" | "3 * k \<le> b + 49 \<and> b + 49 < 3 * k + 48"
    | "b < 3 * k \<or> 3 * k + 48 \<le> b" "b + 49 < 3 * k \<or> 3 * k + 48 \<le> b + 49"
    by linarith
  then show ?thesis
  proof cases
    case 1
    then show ?thesis unfolding one_copy_corrupted_def
      using assms(2) by (intro bexI [of _ b]) (auto intro!: same)
  next
    case 2
    then show ?thesis unfolding one_copy_corrupted_def
      using assms(2) by (intro bexI [of _ "b + 49"]) (auto intro!: same)
  next
    case 3
    then show ?thesis unfolding one_copy_corrupted_def
      using assms(2) by (intro bexI [of _ "b + 98"]) (auto intro!: same)
  qed
qed

text \<open>
  C3. Burst protection of the triple redundancy: a frame of which any sixteen consecutive symbols
  arrive as arbitrary values still decodes to the word sent, in every correction mode and without
  any work for the Golay decoder.
\<close>

theorem decoder_survives_burst:
  assumes "word_type w \<noteq> UNKNOWN" "raw_payload w AND 0x1FFFFF = raw_payload w"
    and "decode_ascii (raw_payload w) (word_type w) = (True, cs)"
    and "burst_at k (encoder_encode w) syms"
  shows "decoder_decode syms out mode =
    (True, out\<lparr>word_type := word_type w, raw_payload := raw_payload w, address := cs, valid := True,
         timestamp_ms := 0, golay_uncorrectable := False, unanimous_votes := snd (majority_vote syms),
         fec_errors := 0\<rparr>,
     \<lparr>flag = DECODE_OK, errors_corrected = 0\<rparr>, snd (majority_vote syms))"
proof -
  have "fst (majority_vote syms) = ale_word_encode w"
    using assms(4) unfolding encoder_encode_def
    by (intro majority_vote_recovers burst_one_copy) (auto, metis ale_word_encode_masked bit_mask_word)
  moreover have "half_errors 0 = (0, 0)" by code_simp
  ultimately show ?thesis using decoder_decode_voted [OF assms(1-3), of syms 0] by simp
qed

theorem decoder_survives_burst_witness:
  "fst (decoder_decode (take 20 (encoder_encode sample_word) @ replicate 16 7 @ drop 36 (encoder_encode sample_word))
     ALEWord Mode0_7)"
proof -
  have "length (encoder_encode sample_word) = 49" by (simp add: encoder_encode_def)
  then have "burst_at 20 (encoder_encode sample_word)
      (take 20 (encoder_encode sample_word) @ replicate 16 7 @ drop 36 (encoder_encode sample_word))"
    by (auto simp: burst_at_def nth_append)
  from decoder_survives_burst [OF _ sample_word(2,3) this, of ALEWord Mode0_7] show ?thesis
    by (simp add: sample_word(1))
qed

end
