(* ===== verification/Ale_Timing.thy ===== *)
theory Ale_Timing
  imports Complex_Main Prelude
begin

text \<open>
  \<open>include/Protocol/Control/ale_timing.h\<close>: the protocol times the state machine uses, in milliseconds.
  The \<open>double\<close> constants are exact rationals (multiples of one word, 392/3 ms); the casts to
  \<open>uint32_t\<close> truncate. The computed budgets are 32-bit and wrap.
\<close>

section \<open>Constants\<close>

definition to_u32 :: "rat \<Rightarrow> u32" where
  "to_u32 x = word_of_int \<lfloor>x\<rfloor>"

definition TTONE_MS :: rat where "TTONE_MS = 8"
definition T_SYMBOLS_PER_WORD :: rat where "T_SYMBOLS_PER_WORD = 49 / 3"
definition TW_MS :: rat where "TW_MS = T_SYMBOLS_PER_WORD * TTONE_MS"
definition TRW_MS :: u32 where "TRW_MS = 392"
definition Tlww_ms :: u32 where "Tlww_ms = TRW_MS"
definition Tdrw_double :: rat where "Tdrw_double = 2 * 392"
definition TD5_MS :: rat where "TD5_MS = 200"
definition Tt_slow_double :: rat where "Tt_slow_double = 8 * TW_MS"
definition Twr_slow_double :: rat where "Twr_slow_double = 7 * TW_MS"
definition Twrt_slow_double :: rat where "Twrt_slow_double = Twr_slow_double + Tt_slow_double"
definition Twt_ale_ms :: u32 where "Twt_ale_ms = 2 * TRW_MS"
definition TT_BLIND_MS :: rat where "TT_BLIND_MS = 8 * TW_MS"
definition TT_NEXT_TRY_MS :: u32 where "TT_NEXT_TRY_MS = 20000"
definition Twa_ms :: u32 where "Twa_ms = 30000"
definition LINK_TIMEOUT_MS :: u32 where "LINK_TIMEOUT_MS = 120000"
definition IDLE_WARNING_LEAD_MS :: u32 where "IDLE_WARNING_LEAD_MS = 30000"
definition TX_DRAIN_TIMEOUT_MS :: u32 where "TX_DRAIN_TIMEOUT_MS = 10000"
definition Twr_slow_int :: u32 where "Twr_slow_int = to_u32 (1 / 2 + Twr_slow_double)"
definition Twt_shared_ms :: u32 where "Twt_shared_ms = 2000"
definition Tt_ms :: u32 where "Tt_ms = to_u32 (TT_BLIND_MS + 1 / 2)"
definition Tdrw_ms :: u32 where "Tdrw_ms = 2 * TRW_MS"
definition Tm_max_ms :: u32 where "Tm_max_ms = 30 * TRW_MS"
definition Ts_max_ms :: u32 where "Ts_max_ms = to_u32 50000"
definition MAX_SCANNING_CALL_ERRORS :: u8 where "MAX_SCANNING_CALL_ERRORS = 3"

lemmas time_defs = TTONE_MS_def T_SYMBOLS_PER_WORD_def TW_MS_def Tdrw_double_def Tt_slow_double_def
  Twr_slow_double_def Twrt_slow_double_def TT_BLIND_MS_def to_u32_def

lemma times [simp]:
  "TRW_MS = 392" "Tlww_ms = 392" "Twt_ale_ms = 784" "TT_NEXT_TRY_MS = 20000" "Twa_ms = 30000"
  "LINK_TIMEOUT_MS = 120000" "IDLE_WARNING_LEAD_MS = 30000" "TX_DRAIN_TIMEOUT_MS = 10000"
  "Twr_slow_int = 915" "Twt_shared_ms = 2000" "Tt_ms = 1045" "Tdrw_ms = 784" "Tm_max_ms = 11760"
  "Ts_max_ms = 50000" "MAX_SCANNING_CALL_ERRORS = 3" "to_u32 Tdrw_double = 784"
  "to_u32 (1 / 2 + Twrt_slow_double) = 1960"
proof -
  have f: "\<lfloor>6407 / 6 :: rat\<rfloor> = 1067" "\<lfloor>5491 / 6 :: rat\<rfloor> = 915" "\<lfloor>6275 / 6 :: rat\<rfloor> = 1045"
    "\<lfloor>3921 / 2 :: rat\<rfloor> = 1960"
    by (rule floor_unique; simp)+
  show "TRW_MS = 392" "Tlww_ms = 392" "Twt_ale_ms = 784" "TT_NEXT_TRY_MS = 20000" "Twa_ms = 30000"
    "LINK_TIMEOUT_MS = 120000" "IDLE_WARNING_LEAD_MS = 30000" "TX_DRAIN_TIMEOUT_MS = 10000"
    "Twr_slow_int = 915" "Twt_shared_ms = 2000" "Tt_ms = 1045" "Tdrw_ms = 784" "Tm_max_ms = 11760"
    "Ts_max_ms = 50000" "MAX_SCANNING_CALL_ERRORS = 3" "to_u32 Tdrw_double = 784"
    "to_u32 (1 / 2 + Twrt_slow_double) = 1960"
    using f
    by (simp_all add: TRW_MS_def Tlww_ms_def Twt_ale_ms_def TT_NEXT_TRY_MS_def Twa_ms_def LINK_TIMEOUT_MS_def
        IDLE_WARNING_LEAD_MS_def TX_DRAIN_TIMEOUT_MS_def Twr_slow_int_def Twt_shared_ms_def Tt_ms_def
        Tdrw_ms_def Tm_max_ms_def Ts_max_ms_def MAX_SCANNING_CALL_ERRORS_def time_defs)
qed

section \<open>Budgets\<close>

definition calc_twce_ms :: "u32 \<Rightarrow> u32" where
  "calc_twce_ms n_channels = 2 * n_channels * to_u32 Tdrw_double"

record calling_budget =
  n_channels :: u32
  budget_scan_channels :: u32
  leading_seq_words :: u32
  conclusion_words :: u32
  message_words :: u32

definition calc_calling_timeout_ms :: "calling_budget \<Rightarrow> u32" where
  "calc_calling_timeout_ms p =
     (let tsc = budget_scan_channels p * 2 * TRW_MS;
          tlc = leading_seq_words p * TRW_MS;
          tx = conclusion_words p * TRW_MS;
          msg = message_words p * TRW_MS;
          listen = to_u32 (1 / 2 + Twrt_slow_double) + to_u32 Tdrw_double + 5 * TRW_MS + Tlww_ms;
          per_ch = Twt_ale_ms + to_u32 (TT_BLIND_MS + 1 / 2) + tsc + tlc + msg + tx + listen;
          tack = tlc + tx
      in per_ch * n_channels p + tack + 2000)"

definition tss_word_count :: "u32 \<Rightarrow> u32" where
  "tss_word_count addr_word_count =
     (if addr_word_count = 0 then 0
      else let block_ms = addr_word_count * TRW_MS;
               repetitions = (Ts_max_ms + block_ms - 1) div block_ms
           in repetitions * addr_word_count)"

definition trs_word_count :: "u32 \<Rightarrow> u32" where
  "trs_word_count addr_word_count = 2 * addr_word_count"

record timing_parameters =
  param_Twa_ms :: u32
  param_Tt_ms :: u32

definition TimingParameters :: timing_parameters where
  "TimingParameters = \<lparr>param_Twa_ms = Twa_ms, param_Tt_ms = Tt_ms\<rparr>"

lemma calc_calling_timeout_ms_eq:
  "calc_calling_timeout_ms p =
     (6925 + 392 * (2 * budget_scan_channels p + leading_seq_words p + message_words p + conclusion_words p)) *
       n_channels p + 392 * (leading_seq_words p + conclusion_words p) + 2000"
proof -
  have "to_u32 (TT_BLIND_MS + 1 / 2) = 1045" by (rule times(11) [unfolded Tt_ms_def])
  moreover have "to_u32 (Twrt_slow_double + 1 / 2) = 1960" by (subst add.commute) (rule times)
  ultimately show ?thesis by (simp add: calc_calling_timeout_ms_def Let_def algebra_simps)
qed

text \<open>
  The number of words of a scanning sound: whole repetitions of the address whose duration reaches
  the longest scan period of 50 s and exceeds it by less than one repetition.
\<close>

theorem tss_word_count_covers:
  assumes "0 < unat n" "unat n \<le> 5"
  shows "unat n dvd unat (tss_word_count n) \<and> 50000 \<le> 392 * unat (tss_word_count n) \<and>
    392 * unat (tss_word_count n) < 50000 + 392 * unat n"
proof -
  have "unat n \<in> {1, 2, 3, 4, 5}" using assms by auto
  then have "n \<in> {1, 2, 3, 4, 5}" by (auto simp: word_unat_eq_iff)
  then show ?thesis by (auto simp: tss_word_count_def Let_def)
qed

theorem tss_word_count_covers_witness:
  "unat (3 :: u32) dvd unat (tss_word_count 3) \<and> 50000 \<le> 392 * unat (tss_word_count 3) \<and>
   392 * unat (tss_word_count 3) < 50000 + 392 * unat (3 :: u32)"
  by (rule tss_word_count_covers) simp_all

end
