(* ===== verification/Channel_Manager.thy ===== *)
theory Channel_Manager
  imports Ale_Timing
begin

text \<open>
  \<open>include/Protocol/Control/ale_channel_types.h\<close>, \<open>src/Protocol/Control/ale_channel_manager.cpp\<close> and
  \<open>ale_channel_selector.cpp\<close>: channels, the scan list with its current index and dwell timer, and the
  selection policies. An operation that calls the channel callback returns the manager together with the
  list of channels the callback was called with. The LQA scores are rationals (the code's floats hold
  small integers). The channel store and the LQA store are parameters of the selector.
\<close>

section \<open>Channels\<close>

record channel =
  chan_id :: string
  rx_frequency_hz :: u32
  tx_frequency_hz :: u32
  rx_mode :: string
  tx_mode :: string
  label :: string
  chan_enabled :: bool
  rx_only :: bool
  tx_only :: bool
  voice_use :: bool
  data_use :: bool
  inhibit_calling :: bool
  inhibit_sounding :: bool
  inhibit_reporting :: bool
  ale_only :: bool
  secure :: bool
  power_pct :: u8
  antenna :: u8
  sounding_interval_ms :: u32
  next_sound_ms :: u32
  lqa_score :: rat
  last_scan_time_ms :: u32
  call_count :: u32

definition Channel :: channel where
  "Channel = \<lparr>chan_id = '''', rx_frequency_hz = 0, tx_frequency_hz = 0, rx_mode = ''USB'', tx_mode = ''USB'',
     label = '''', chan_enabled = True, rx_only = False, tx_only = False, voice_use = True, data_use = True,
     inhibit_calling = False, inhibit_sounding = False, inhibit_reporting = False, ale_only = False,
     secure = False, power_pct = 100, antenna = 1, sounding_interval_ms = 0, next_sound_ms = 0,
     lqa_score = 0, last_scan_time_ms = 0, call_count = 0\<rparr>"

definition simplex_channel :: "u32 \<Rightarrow> string \<Rightarrow> channel" where
  "simplex_channel rx_hz mode = Channel\<lparr>rx_frequency_hz := rx_hz, rx_mode := mode, tx_mode := mode\<rparr>"

definition effective_tx_hz :: "channel \<Rightarrow> u32" where
  "effective_tx_hz c = (if tx_frequency_hz c \<noteq> 0 then tx_frequency_hz c else rx_frequency_hz c)"

record scan_config =
  scan_list :: "channel list"
  dwell_time_ms :: u32
  channel_index :: u32
  scan_enabled :: bool

definition ScanConfig :: scan_config where
  "ScanConfig = \<lparr>scan_list = [], dwell_time_ms = to_u32 TD5_MS, channel_index = 0, scan_enabled = False\<rparr>"

section \<open>The channel manager\<close>

record channel_manager =
  scan :: scan_config
  last_hop_ms :: u32
  scan_started :: bool
  override_active :: bool
  override_ch :: channel

definition ChannelManager :: channel_manager where
  "ChannelManager = \<lparr>scan = ScanConfig, last_hop_ms = 0, scan_started = False, override_active = False,
     override_ch = Channel\<rparr>"

definition configure :: "scan_config \<Rightarrow> channel_manager \<Rightarrow> channel_manager" where
  "configure config m = m\<lparr>scan := config, scan_started := False\<rparr>"

definition add_channel :: "channel \<Rightarrow> channel_manager \<Rightarrow> channel_manager" where
  "add_channel ch m = m\<lparr>scan := (scan m)\<lparr>scan_list := scan_list (scan m) @ [ch]\<rparr>\<rparr>"

definition current :: "channel_manager \<Rightarrow> channel option" where
  "current m =
     (if override_active m then Some (override_ch m)
      else if scan_list (scan m) = [] then None
      else if unat (channel_index (scan m)) \<ge> length (scan_list (scan m)) then None
      else Some (scan_list (scan m) ! unat (channel_index (scan m))))"

definition set_override :: "channel \<Rightarrow> channel_manager \<Rightarrow> channel_manager \<times> channel list" where
  "set_override ch m = (m\<lparr>override_active := True, override_ch := ch\<rparr>, [ch])"

definition clear_override :: "channel_manager \<Rightarrow> channel_manager" where
  "clear_override m = m\<lparr>override_active := False\<rparr>"

fun best_of :: "channel \<Rightarrow> channel list \<Rightarrow> channel" where
  "best_of best [] = best"
| "best_of best (ch # chs) = best_of (if lqa_score ch > lqa_score best then ch else best) chs"

definition select_best :: "channel_manager \<Rightarrow> channel option" where
  "select_best m =
     (case scan_list (scan m) of [] \<Rightarrow> None | ch # chs \<Rightarrow> Some (best_of ch (ch # chs)))"

definition channel_count :: "channel_manager \<Rightarrow> nat" where
  "channel_count m = length (scan_list (scan m))"

definition apply_channel :: "u32 \<Rightarrow> u32 \<Rightarrow> channel_manager \<Rightarrow> channel_manager \<times> channel list" where
  "apply_channel index now m =
     (if unat index \<ge> length (scan_list (scan m)) then (m, [])
      else let ch = (scan_list (scan m) ! unat index)\<lparr>last_scan_time_ms := now\<rparr>
           in (m\<lparr>scan := (scan m)\<lparr>channel_index := index, scan_list := (scan_list (scan m))[unat index := ch]\<rparr>\<rparr>,
               [ch]))"

definition hop_next :: "u32 \<Rightarrow> channel_manager \<Rightarrow> bool \<times> channel_manager \<times> channel list" where
  "hop_next now m =
     (if scan_list (scan m) = [] then (False, m, [])
      else let nxt = of_nat (unat (channel_index (scan m) + 1) mod length (scan_list (scan m)));
               (m, out) = apply_channel nxt now m
           in (True, m\<lparr>last_hop_ms := now\<rparr>, out))"

definition start_scan :: "u32 \<Rightarrow> channel_manager \<Rightarrow> channel_manager \<times> channel list" where
  "start_scan now m =
     (if scan_list (scan m) = [] then (m\<lparr>scan := (scan m)\<lparr>channel_index := 0\<rparr>, last_hop_ms := now\<rparr>, [])
      else if \<not> scan_started m
      then apply_channel 0 now (m\<lparr>scan_started := True, last_hop_ms := now\<rparr>)
      else let (_, m, out) = hop_next now m in (m, out))"

definition check_dwell_timeout :: "u32 \<Rightarrow> channel_manager \<Rightarrow> bool" where
  "check_dwell_timeout now m = (now - last_hop_ms m \<ge> dwell_time_ms (scan m))"

definition anchor_dwell :: "u32 \<Rightarrow> channel_manager \<Rightarrow> channel_manager" where
  "anchor_dwell now m = m\<lparr>last_hop_ms := now\<rparr>"

definition update_lqa_score :: "u32 \<Rightarrow> rat \<Rightarrow> channel_manager \<Rightarrow> channel_manager" where
  "update_lqa_score idx score m =
     (if unat idx < length (scan_list (scan m))
      then m\<lparr>scan := (scan m)\<lparr>scan_list :=
             (scan_list (scan m))[unat idx := (scan_list (scan m) ! unat idx)\<lparr>lqa_score := score\<rparr>]\<rparr>\<rparr>
      else m)"

definition hop_calling :: "channel \<Rightarrow> channel list" where
  "hop_calling ch = [ch]"

section \<open>The channel selector\<close>

datatype selection_policy = BEST_LQA | ROUND_ROBIN | FIXED

record channel_selector =
  policy :: selection_policy
  fixed_freq :: u32
  rr_index :: u64

definition ChannelSelector :: channel_selector where
  "ChannelSelector = \<lparr>policy = BEST_LQA, fixed_freq = 0, rr_index = 0\<rparr>"

definition select_best_lqa :: "(u32 list \<Rightarrow> u32) \<Rightarrow> channel list \<Rightarrow> u32" where
  "select_best_lqa best_channel candidates =
     (let freqs = map rx_frequency_hz candidates; best = best_channel freqs
      in if best \<noteq> 0 then best else hd freqs)"

definition select_round_robin :: "channel list \<Rightarrow> channel_selector \<Rightarrow> u32 \<times> channel_selector" where
  "select_round_robin candidates s =
     (if candidates = [] then (0, s)
      else (rx_frequency_hz (candidates ! (unat (rr_index s) mod length candidates)),
            s\<lparr>rr_index := rr_index s + 1\<rparr>))"

definition select_for_call ::
  "(u32 list \<Rightarrow> u32) \<Rightarrow> channel list \<Rightarrow> channel_selector \<Rightarrow> u32 \<times> channel_selector" where
  "select_for_call best_channel enabled_channels s =
     (if enabled_channels = [] then (0, s)
      else case policy s of
             BEST_LQA \<Rightarrow> (select_best_lqa best_channel enabled_channels, s)
           | ROUND_ROBIN \<Rightarrow> select_round_robin enabled_channels s
           | FIXED \<Rightarrow> (fixed_freq s, s))"

definition select_for_sounding :: "channel list \<Rightarrow> channel_selector \<Rightarrow> u32 \<times> channel_selector" where
  "select_for_sounding enabled_channels s = select_round_robin enabled_channels s"

record listen_before_transmit =
  listen_ms :: u32
  lbt_enabled :: bool

definition check_clear :: "(u32 \<Rightarrow> bool) \<Rightarrow> u32 \<Rightarrow> listen_before_transmit \<Rightarrow> bool" where
  "check_clear is_clear freq l = (if \<not> lbt_enabled l then True else is_clear freq)"

section \<open>Scanning visits every channel in turn\<close>

fun hops :: "u32 list \<Rightarrow> channel_manager \<Rightarrow> channel_manager \<times> channel list" where
  "hops [] m = (m, [])"
| "hops (t # ts) m =
     (let (_, m, out) = hop_next t m; (m, outs) = hops ts m in (m, out @ outs))"

definition manager_ok :: "channel_manager \<Rightarrow> bool" where
  "manager_ok m \<longleftrightarrow> length (scan_list (scan m)) < 2 ^ 32 \<and>
     (scan_list (scan m) \<noteq> [] \<longrightarrow> unat (channel_index (scan m)) < length (scan_list (scan m)))"

definition frequencies :: "channel_manager \<Rightarrow> u32 list" where
  "frequencies m = map rx_frequency_hz (scan_list (scan m))"

lemma hop_next_step:
  assumes "manager_ok m" "scan_list (scan m) \<noteq> []"
  shows "let (ok, m', out) = hop_next now m;
             i = Suc (unat (channel_index (scan m))) mod length (scan_list (scan m))
         in ok \<and> manager_ok m' \<and> frequencies m' = frequencies m \<and> unat (channel_index (scan m')) = i \<and>
            map rx_frequency_hz out = [frequencies m ! i] \<and> last_hop_ms m' = now"
proof -
  let ?n = "length (scan_list (scan m))" and ?idx = "channel_index (scan m)"
  have n: "0 < ?n" "?n < 2 ^ 32" "unat ?idx < ?n" using assms by (auto simp: manager_ok_def)
  have suc: "unat (?idx + 1) mod ?n = Suc (unat ?idx) mod ?n"
  proof (cases "?idx + 1 = 0")
    case True
    then have "?idx = - 1" by (simp add: eq_neg_iff_add_eq_0)
    then have "unat ?idx = 2 ^ 32 - 1" by (simp add: unsigned_minus_1_eq_mask mask_eq_exp_minus_1)
    with n show ?thesis by simp
  next
    case False
    then show ?thesis by (simp add: unatSuc add.commute)
  qed
  define i where "i = Suc (unat ?idx) mod ?n"
  have i: "i < ?n" using n(1) by (simp add: i_def)
  have u: "unat (of_nat i :: u32) = i" using i n(2) by (simp add: unat_of_nat take_bit_nat_eq_self)
  have map_upd: "map rx_frequency_hz ((scan_list (scan m))[i := (scan_list (scan m) ! i)\<lparr>last_scan_time_ms := now\<rparr>]) =
      map rx_frequency_hz (scan_list (scan m))"
    using i by (intro nth_equalityI) (auto simp: nth_list_update)
  show ?thesis
    using assms i u n map_upd
    by (simp add: hop_next_def apply_channel_def suc Let_def frequencies_def manager_ok_def flip: i_def)
qed

lemma hops_properties:
  assumes "manager_ok m" "scan_list (scan m) \<noteq> []"
  shows "let (m', outs) = hops ts m
         in manager_ok m' \<and> frequencies m' = frequencies m \<and>
            unat (channel_index (scan m')) = (unat (channel_index (scan m)) + length ts) mod length (frequencies m) \<and>
            map rx_frequency_hz outs =
              map (\<lambda>k. frequencies m ! ((unat (channel_index (scan m)) + Suc k) mod length (frequencies m)))
                [0..<length ts]"
  using assms
proof (induction ts arbitrary: m)
  case Nil
  then show ?case by (simp add: manager_ok_def frequencies_def)
next
  case (Cons t ts)
  obtain ok m1 out where h: "hop_next t m = (ok, m1, out)" by (metis prod_cases3)
  define n where "n = length (frequencies m)"
  have n: "n = length (scan_list (scan m))" by (simp add: n_def frequencies_def)
  have 1: "manager_ok m1" "frequencies m1 = frequencies m"
      "unat (channel_index (scan m1)) = Suc (unat (channel_index (scan m))) mod n"
      "map rx_frequency_hz out = [frequencies m ! (Suc (unat (channel_index (scan m))) mod n)]"
    using hop_next_step [OF Cons.prems, of t] h by (simp_all add: n Let_def)
  have "scan_list (scan m1) \<noteq> []" using 1(2) Cons.prems(2) by (auto simp: frequencies_def)
  note IH = Cons.IH [OF 1(1) this]
  obtain m2 outs where hs: "hops ts m1 = (m2, outs)" by fastforce
  have shift: "(unat (channel_index (scan m1)) + k) mod n = (unat (channel_index (scan m)) + Suc k) mod n" for k
    unfolding 1(3) by (simp add: mod_add_left_eq)
  have shift_Suc: "Suc (unat (channel_index (scan m1)) + k) mod n =
      Suc (Suc (unat (channel_index (scan m)) + k)) mod n" for k
    using shift [of "Suc k"] by simp
  show ?case
    using IH 1(1,2,4) shift [of "length ts"] shift_Suc h hs
    by (simp add: n_def [symmetric] map_upt_Suc [of _ "length ts"] del: upt_Suc)
qed

text \<open>
  C35. One scan cycle: as many hops as there are channels tune the radio to every channel of the list
  once, in list order from the one after the current channel, and end on the channel they began on;
  the list itself keeps its frequencies.
\<close>

theorem scan_cycle_visits_all:
  assumes "manager_ok m" "scan_list (scan m) \<noteq> []" "length ts = length (scan_list (scan m))"
  shows "let (m', outs) = hops ts m
         in map rx_frequency_hz outs = rotate (Suc (unat (channel_index (scan m)))) (frequencies m) \<and>
            channel_index (scan m') = channel_index (scan m) \<and> frequencies m' = frequencies m"
proof -
  obtain m' outs where h: "hops ts m = (m', outs)" by fastforce
  have n: "length (frequencies m) = length ts" using assms(3) by (simp add: frequencies_def)
  have i: "unat (channel_index (scan m)) < length ts" using assms by (simp add: manager_ok_def)
  note p = hops_properties [OF assms(1,2), of ts, unfolded h prod.case Let_def]
  have "map rx_frequency_hz outs = rotate (Suc (unat (channel_index (scan m)))) (frequencies m)"
    using p n by (intro nth_equalityI) (auto simp: nth_rotate add.commute simp del: rotate_Suc)
  moreover have "unat (channel_index (scan m')) = unat (channel_index (scan m))"
    using p n i by simp
  ultimately show ?thesis using p h by (simp add: word_unat_eq_iff)
qed

definition sample_manager :: channel_manager where
  "sample_manager = add_channel (simplex_channel 7102000 ''USB'')
     (add_channel (simplex_channel 3596000 ''USB'') ChannelManager)"

theorem scan_cycle_visits_all_witness:
  "let (m', outs) = hops [200, 400] sample_manager
   in map rx_frequency_hz outs = rotate (Suc (unat (channel_index (scan sample_manager)))) (frequencies sample_manager) \<and>
      channel_index (scan m') = channel_index (scan sample_manager) \<and> frequencies m' = frequencies sample_manager"
  by (rule scan_cycle_visits_all)
    (simp_all add: sample_manager_def add_channel_def ChannelManager_def ScanConfig_def manager_ok_def)

lemma best_of_max:
  "best_of best chs \<in> set (best # chs) \<and> (\<forall>ch\<in>set (best # chs). lqa_score ch \<le> lqa_score (best_of best chs))"
  by (induction best chs rule: best_of.induct) (auto split: if_splits)

text \<open>
  The best channel of a scan list is one of its channels and none has a higher link quality score;
  the list has a best channel unless it is empty.
\<close>

theorem select_best_maximal:
  "case select_best m of
     None \<Rightarrow> scan_list (scan m) = []
   | Some best \<Rightarrow> best \<in> set (scan_list (scan m)) \<and> (\<forall>ch\<in>set (scan_list (scan m)). lqa_score ch \<le> lqa_score best)"
proof (cases "scan_list (scan m)")
  case (Cons ch chs)
  then show ?thesis using best_of_max [of ch "ch # chs"] by (simp add: select_best_def)
qed (simp add: select_best_def)

theorem select_best_maximal_witness:
  "case select_best sample_manager of
     None \<Rightarrow> scan_list (scan sample_manager) = []
   | Some best \<Rightarrow> best \<in> set (scan_list (scan sample_manager)) \<and>
       (\<forall>ch\<in>set (scan_list (scan sample_manager)). lqa_score ch \<le> lqa_score best)"
  by (rule select_best_maximal)

end
