(* ===== verification/Address_Book.thy ===== *)
theory Address_Book
  imports Ale_Word
begin

text \<open>
  \<open>include/Stores/address_book.h\<close> and \<open>src/Stores/address_book.cpp\<close>: the own address, the lists of
  known stations and nets (kept in insertion order, searched by key) and wildcard matching. The
  interface \<open>keyed_store\<close> states what a client of the station list relies on.
\<close>

section \<open>State and operations\<close>

record address_book =
  self_address :: string
  stations :: "(string \<times> string) list"
  nets :: "(string \<times> string) list"

definition AddressBook :: address_book where
  "AddressBook = \<lparr>self_address = '''', stations = [], nets = []\<rparr>"

definition set_self_address :: "string \<Rightarrow> address_book \<Rightarrow> bool \<times> address_book" where
  "set_self_address addr b =
     (if length addr < 3 \<or> length addr > 15 then (False, b)
      else if \<not> list_all is_valid_basic38_char addr then (False, b)
      else (True, b\<lparr>self_address := addr\<rparr>))"

fun has_key :: "string \<Rightarrow> (string \<times> string) list \<Rightarrow> bool" where
  "has_key k [] = False"
| "has_key k (p # ps) = (if fst p = k then True else has_key k ps)"

definition add_station :: "string \<Rightarrow> string \<Rightarrow> address_book \<Rightarrow> address_book" where
  "add_station addr name b =
     (if has_key addr (stations b) then b else b\<lparr>stations := stations b @ [(addr, name)]\<rparr>)"

fun update_entry :: "string \<Rightarrow> string \<Rightarrow> (string \<times> string) list \<Rightarrow> (string \<times> string) list" where
  "update_entry k v [] = [(k, v)]"
| "update_entry k v (p # ps) = (if fst p = k then (fst p, v) # ps else p # update_entry k v ps)"

definition update_station :: "string \<Rightarrow> string \<Rightarrow> address_book \<Rightarrow> address_book" where
  "update_station addr name b = b\<lparr>stations := update_entry addr name (stations b)\<rparr>"

definition remove_station :: "string \<Rightarrow> address_book \<Rightarrow> address_book" where
  "remove_station addr b = b\<lparr>stations := filter (\<lambda>p. fst p \<noteq> addr) (stations b)\<rparr>"

definition clear_stations :: "address_book \<Rightarrow> address_book" where
  "clear_stations b = b\<lparr>stations := []\<rparr>"

definition add_net :: "string \<Rightarrow> string \<Rightarrow> address_book \<Rightarrow> address_book" where
  "add_net addr description b =
     (if has_key addr (nets b) then b else b\<lparr>nets := nets b @ [(addr, description)]\<rparr>)"

definition is_self :: "address_book \<Rightarrow> string \<Rightarrow> bool" where
  "is_self b addr = (addr = self_address b)"

definition is_known_station :: "address_book \<Rightarrow> string \<Rightarrow> bool" where
  "is_known_station b addr = has_key addr (stations b)"

definition is_known_net :: "address_book \<Rightarrow> string \<Rightarrow> bool" where
  "is_known_net b addr = has_key addr (nets b)"

definition is_alphanumeric :: "char \<Rightarrow> bool" where
  "is_alphanumeric c =
     (let n = (of_char c :: nat) in (65 \<le> n \<and> n \<le> 90) \<or> (48 \<le> n \<and> n \<le> 57))"

fun match_from :: "string \<Rightarrow> string \<Rightarrow> bool" where
  "match_from (p # ps) (c # cs) =
     (if p = CHR ''?'' then (if \<not> is_alphanumeric c then False else match_from ps cs)
      else if p \<noteq> c then False else match_from ps cs)"
| "match_from _ _ = True"

definition match_wildcard :: "string \<Rightarrow> string \<Rightarrow> bool" where
  "match_wildcard pattern addr =
     (if length pattern \<noteq> length addr then False else match_from pattern addr)"

section \<open>The interface of a keyed store\<close>

locale keyed_store =
  fixes find_in :: "'s \<Rightarrow> 'k \<Rightarrow> 'v option"
    and put :: "'k \<Rightarrow> 'v \<Rightarrow> 's \<Rightarrow> 's"
    and drop_key :: "'k \<Rightarrow> 's \<Rightarrow> 's"
  assumes find_put: "find_in (put k v s) = (find_in s)(k \<mapsto> v)"
    and find_drop: "find_in (drop_key k s) = (find_in s)(k := None)"
begin

lemma put_put: "find_in (put k v' (put k v s)) = find_in (put k v' s)"
  by (simp add: find_put)

lemma put_other: "k \<noteq> k' \<Longrightarrow> find_in (put k v (put k' v' s)) = find_in (put k' v' (put k v s))"
  by (simp add: find_put fun_upd_twist)

lemma drop_put: "find_in (drop_key k (put k v s)) = find_in (drop_key k s)"
  by (simp add: find_put find_drop)

lemma keys_put_drop: "dom (find_in (drop_key k (put k' v s))) = insert k' (dom (find_in s)) - {k}"
  by (auto simp: find_put find_drop)

end

lemma has_key_iff: "has_key k ps \<longleftrightarrow> k \<in> fst ` set ps"
  by (induction ps) auto

lemma map_of_update_entry: "map_of (update_entry k v ps) = (map_of ps)(k \<mapsto> v)"
  by (induction ps) (auto simp: fun_eq_iff)

lemma keys_update_entry: "map fst (update_entry k v ps) = map fst ps @ (if has_key k ps then [] else [k])"
  by (induction ps) auto

lemma map_of_filter_key: "map_of (filter (\<lambda>p. fst p \<noteq> k) ps) = (map_of ps)(k := None)"
  by (induction ps) (auto simp: fun_eq_iff)

definition find_station :: "address_book \<Rightarrow> string \<Rightarrow> string option" where
  "find_station b = map_of (stations b)"

interpretation station_store: keyed_store find_station update_station remove_station
proof
  show "find_station (update_station k v b) = (find_station b)(k \<mapsto> v)" for k v b
    by (simp add: find_station_def update_station_def map_of_update_entry)
  show "find_station (remove_station k b) = (find_station b)(k := None)" for k b
    by (simp add: find_station_def remove_station_def map_of_filter_key)
qed

lemma find_add_station:
  "find_station (add_station a n b) =
     (if a \<in> dom (find_station b) then find_station b else (find_station b)(a \<mapsto> n))"
proof (cases "a \<in> fst ` set (stations b)")
  case True
  then show ?thesis
    by (simp add: find_station_def add_station_def has_key_iff dom_map_of_conv_image_fst)
next
  case False
  then have "map_of (stations b) a = None" by (simp add: map_of_eq_None_iff)
  with False show ?thesis
    by (auto simp: find_station_def add_station_def has_key_iff dom_map_of_conv_image_fst map_add_def
        fun_eq_iff split: option.splits)
qed

section \<open>Properties\<close>

text \<open>Every key is listed once.\<close>

definition book_ok :: "address_book \<Rightarrow> bool" where
  "book_ok b \<longleftrightarrow> distinct (map fst (stations b)) \<and> distinct (map fst (nets b))"

lemma book_ok_AddressBook [simp]: "book_ok AddressBook"
  by (simp add: book_ok_def AddressBook_def)

lemma book_ok_steps:
  assumes "book_ok b"
  shows "book_ok (add_station a n b)" "book_ok (update_station a n b)" "book_ok (remove_station a b)"
    "book_ok (clear_stations b)" "book_ok (add_net a n b)" "book_ok (snd (set_self_address a b))"
  using assms
  by (auto simp: book_ok_def add_station_def update_station_def remove_station_def clear_stations_def
      add_net_def set_self_address_def keys_update_entry has_key_iff distinct_map_filter)

text \<open>
  The station list refines a finite map from addresses to names: \<open>update_station\<close> is the map
  update, \<open>add_station\<close> inserts an unknown address and leaves a known one alone,
  \<open>remove_station\<close> deletes, \<open>clear_stations\<close> empties, \<open>is_known_station\<close> tests the domain; removing
  after updating forgets the update, and each operation keeps every key listed once.
\<close>

theorem address_book_refines_map:
  assumes "book_ok b"
  shows "find_station (update_station a n b) = (find_station b)(a \<mapsto> n) \<and>
    find_station (add_station a n b) =
      (if is_known_station b a then find_station b else (find_station b)(a \<mapsto> n)) \<and>
    find_station (remove_station a (update_station a n b)) = (find_station b)(a := None) \<and>
    find_station (clear_stations b) = Map.empty \<and>
    (is_known_station b a \<longleftrightarrow> a \<in> dom (find_station b)) \<and>
    book_ok (add_station a n b) \<and> book_ok (update_station a n b) \<and> book_ok (remove_station a b) \<and>
    book_ok (clear_stations b) \<and> book_ok (add_net a n b) \<and> book_ok (snd (set_self_address a b))"
proof -
  have known: "is_known_station b a \<longleftrightarrow> a \<in> dom (find_station b)"
    by (simp add: is_known_station_def has_key_iff find_station_def dom_map_of_conv_image_fst)
  have drop: "find_station (remove_station a (update_station a n b)) = (find_station b)(a := None)"
    by (simp add: station_store.find_drop station_store.find_put)
  have clear: "find_station (clear_stations b) = Map.empty"
    by (simp add: find_station_def clear_stations_def)
  show ?thesis
    unfolding drop clear known
    by (intro conjI station_store.find_put find_add_station book_ok_steps [OF assms] refl)
qed

theorem address_book_refines_map_witness:
  "find_station (remove_station ''SAM'' (update_station ''SAM'' ''S'' AddressBook)) =
     (find_station AddressBook)(''SAM'' := None) \<and>
   book_ok (add_station ''SAM'' ''S'' AddressBook)"
  using address_book_refines_map [OF book_ok_AddressBook, of "''SAM''" "''S''"] by blast

lemma card_chars: "card {c. n \<le> (of_char c :: nat) \<and> (of_char c :: nat) \<le> m} = m + 1 - n" if "m < 256"
proof -
  have "{c. n \<le> (of_char c :: nat) \<and> of_char c \<le> m} = char_of ` {n..m}"
  proof (intro equalityI subsetI)
    fix c :: char
    assume "c \<in> {c. n \<le> (of_char c :: nat) \<and> of_char c \<le> m}"
    then show "c \<in> char_of ` {n..m}" by (intro image_eqI [of _ _ "of_char c"]) simp_all
  qed (use that in auto)
  moreover have "inj_on char_of {n..m}"
    using that by (intro inj_onI) (metis atLeastAtMost_iff le_less_trans mod_less of_char_of)
  ultimately show ?thesis by (simp add: card_image)
qed

lemma card_alphanumeric: "card {c. is_alphanumeric c} = 36"
proof -
  have "{c. is_alphanumeric c} =
      {c. 65 \<le> (of_char c :: nat) \<and> (of_char c :: nat) \<le> 90} \<union> {c. 48 \<le> (of_char c :: nat) \<and> (of_char c :: nat) \<le> 57}"
    by (auto simp: is_alphanumeric_def Let_def)
  moreover have "card ({c. 65 \<le> (of_char c :: nat) \<and> (of_char c :: nat) \<le> 90} \<union>
      {c. 48 \<le> (of_char c :: nat) \<and> (of_char c :: nat) \<le> 57}) = 26 + 10"
    by (subst card_Un_disjoint) (auto simp: card_chars intro: finite)
  ultimately show ?thesis by simp
qed

text \<open>
  A wildcard pattern covers exactly the addresses of its length that agree with it outside the
  question marks and have one of the 36 letters and digits at each of them: 36 to the number of
  question marks addresses in all.
\<close>

theorem wildcard_covers:
  "card {a. match_wildcard p a} = 36 ^ count_list p (CHR ''?'')"
proof (induction p)
  case Nil
  have "{a. match_wildcard [] a} = {[]}" by (auto simp: match_wildcard_def)
  then show ?case by simp
next
  case (Cons x p)
  let ?cs = "if x = CHR ''?'' then {c. is_alphanumeric c} else {x}"
  have "{a. match_wildcard (x # p) a} = (\<lambda>(c, a). c # a) ` (?cs \<times> {a. match_wildcard p a})"
  proof (intro equalityI subsetI)
    fix a
    assume "a \<in> {a. match_wildcard (x # p) a}"
    then show "a \<in> (\<lambda>(c, a). c # a) ` (?cs \<times> {a. match_wildcard p a})"
      by (cases a) (auto simp: match_wildcard_def split: if_splits)
  qed (auto simp: match_wildcard_def split: if_splits)
  moreover have "inj_on (\<lambda>(c, a). c # a) (?cs \<times> {a. match_wildcard p a})"
    by (rule inj_onI) auto
  ultimately have "card {a. match_wildcard (x # p) a} = card ?cs * card {a. match_wildcard p a}"
    by (simp only: card_image card_cartesian_product)
  then show ?case using Cons.IH by (simp add: card_alphanumeric)
qed

end
