(* ===== verification/Address_Encoder.thy ===== *)
theory Address_Encoder
  imports Ale_Word
begin

text \<open>
  \<open>src/Word/address_encoder.cpp\<close>: an address as a sequence of words, three characters each, the
  last padded with the utility symbol \<open>@\<close>, the first under the anchor type of the caller and the
  others alternating DATA and REP; and several addresses as one interleaved sequence.
\<close>

definition EXT :: "preamble_type list" where
  "EXT = [DATA, REP, DATA, REP]"

definition pad_chunk :: "string \<Rightarrow> string" where
  "pad_chunk c = c @ replicate (3 - length c) (CHR ''@'')"

text \<open>The loop from position \<open>i\<close> to \<open>len\<close> in steps of three.\<close>

function chunk_loop :: "string \<Rightarrow> nat \<Rightarrow> nat \<Rightarrow> string list" where
  "chunk_loop addr len i =
     (if i < len
      then pad_chunk (take (min 3 (len - i)) (drop i addr)) # chunk_loop addr len (i + 3)
      else [])"
  by pat_completeness auto
termination by (relation "measure (\<lambda>(addr, len, i). len - i)") auto

declare chunk_loop.simps [simp del]

definition chunk :: "string \<Rightarrow> string list" where
  "chunk addr =
     (let len = min (length addr) 15;
          chunks = chunk_loop addr len 0
      in if chunks = [] then [''@@@''] else chunks)"

definition chunk_word :: "preamble_type \<Rightarrow> string \<Rightarrow> ale_word" where
  "chunk_word type chunk3 = make_word type chunk3"

definition encode_address :: "string \<Rightarrow> preamble_type \<Rightarrow> ale_word list" where
  "encode_address addr first_word_type =
     (let chunks = chunk addr
      in map (\<lambda>i. chunk_word (if i = 0 then first_word_type else EXT ! (i - 1)) (chunks ! i))
           [0..<length chunks])"

definition encode_first :: "string \<Rightarrow> preamble_type \<Rightarrow> ale_word" where
  "encode_first addr first_word_type = chunk_word first_word_type (hd (chunk addr))"

text \<open>The state of the two loops of \<open>encode_group\<close>: the words so far and \<open>last_non_rep\<close>.\<close>

definition group_chunk ::
  "preamble_type \<Rightarrow> nat \<Rightarrow> string list \<Rightarrow> nat \<Rightarrow> ale_word list \<times> preamble_type \<Rightarrow> ale_word list \<times> preamble_type" where
  "group_chunk first_word_type a chunks i = (\<lambda>(result, last_non_rep).
     let t = (if i = 0
              then if a = 0 then first_word_type
                   else if last_non_rep = TO then REP
                   else first_word_type
              else EXT ! (i - 1))
     in (result @ [chunk_word t (chunks ! i)], if t \<noteq> REP then t else last_non_rep))"

definition group_address ::
  "preamble_type \<Rightarrow> string list \<Rightarrow> nat \<Rightarrow> ale_word list \<times> preamble_type \<Rightarrow> ale_word list \<times> preamble_type" where
  "group_address first_word_type addrs a s =
     (let chunks = chunk (addrs ! a)
      in fold (group_chunk first_word_type a chunks) [0..<length chunks] s)"

definition encode_group :: "string list \<Rightarrow> preamble_type \<Rightarrow> ale_word list" where
  "encode_group addrs first_word_type =
     (if addrs = [] then []
      else fst (fold (group_address first_word_type addrs) [0..<length addrs] ([], UNKNOWN)))"

section \<open>Chunks\<close>

text \<open>The chunks of a string, structurally.\<close>

fun triples :: "string \<Rightarrow> string list" where
  "triples [] = []"
| "triples [a] = [[a, CHR ''@'', CHR ''@'']]"
| "triples [a, b] = [[a, b, CHR ''@'']]"
| "triples (a # b # c # s) = [a, b, c] # triples s"

lemma chunk_loop_triples:
  "len \<le> length addr \<Longrightarrow> chunk_loop addr len i = triples (drop i (take len addr))"
proof (induction addr len i rule: chunk_loop.induct)
  case (1 addr len i)
  show ?case
  proof (cases "i < len")
    case False
    then show ?thesis by (simp add: chunk_loop.simps)
  next
    case True
    define s where "s = drop i (take len addr)"
    have l: "length s = len - i" using "1.prems" by (simp add: s_def)
    have t: "take (min 3 (len - i)) (drop i addr) = take 3 s"
      by (simp add: s_def drop_take min.commute)
    have d: "drop (i + 3) (take len addr) = drop 3 s"
      by (simp add: s_def add.commute)
    have "triples s = pad_chunk (take 3 s) # triples (drop 3 s)" if "s \<noteq> []"
      using that by (cases s rule: triples.cases) (simp_all add: pad_chunk_def numeral_2_eq_2)
    moreover have "s \<noteq> []" using True l by auto
    ultimately show ?thesis
      using "1.IH" [OF True "1.prems"] True unfolding d t [symmetric] s_def [symmetric]
      by (subst chunk_loop.simps) simp
  qed
qed

lemma chunk_triples:
  "chunk addr = (if addr = [] then [''@@@''] else triples (take 15 addr))"
proof -
  have "take (min (length addr) 15) addr = take 15 addr" by (simp add: min_def)
  moreover have "triples s = [] \<longleftrightarrow> s = []" for s by (cases s rule: triples.cases) simp_all
  ultimately show ?thesis
    by (simp add: chunk_def Let_def chunk_loop_triples)
qed

lemma length_triples: "length (triples s) = (length s + 2) div 3"
  by (induction s rule: triples.induct) auto

lemma length_chunk: "1 \<le> length (chunk addr) \<and> length (chunk addr) \<le> 5"
proof (cases "addr = []")
  case True
  then show ?thesis by (simp add: chunk_triples)
next
  case False
  define n where "n = length (take 15 addr)"
  have "1 \<le> n" "n \<le> 15" using False by (cases addr, auto simp: n_def)
  then have "1 \<le> (n + 2) div 3" "(n + 2) div 3 \<le> 5" by linarith+
  moreover have "length (chunk addr) = (n + 2) div 3"
    using False by (simp add: chunk_triples length_triples n_def)
  ultimately show ?thesis by (simp only:)
qed

lemma triples_length: "c \<in> set (triples s) \<Longrightarrow> length c = 3"
  by (induction s rule: triples.induct) auto

lemma chunk_length: "c \<in> set (chunk addr) \<Longrightarrow> length c = 3"
  by (auto simp: chunk_triples triples_length split: if_splits)

lemma triples_chars: "c \<in> set (triples s) \<Longrightarrow> x \<in> set c \<Longrightarrow> x \<in> set s \<or> x = CHR ''@''"
  by (induction s rule: triples.induct) auto

section \<open>Addresses the standard allows\<close>

definition valid_address :: "string \<Rightarrow> bool" where
  "valid_address addr \<longleftrightarrow> addr \<noteq> [] \<and> length addr \<le> 15 \<and> list_all is_valid_basic38_char addr \<and> CHR ''@'' \<notin> set addr"

lemma at_basic38: "is_valid_basic38_char (CHR ''@'')"
  by (simp add: is_valid_basic38_char_iff)

lemma valid_char_any: "is_valid_basic38_char c \<Longrightarrow> valid_char t c"
  by (simp add: valid_char_def basic38_expanded64)

lemma chunk_valid:
  assumes "valid_address addr" "c \<in> set (chunk addr)"
  shows "list_all (valid_char t) c"
proof -
  have "c \<in> set (triples addr)" using assms by (auto simp: chunk_triples valid_address_def)
  then have "x \<in> set c \<Longrightarrow> is_valid_basic38_char x" for x
    using triples_chars [of c addr x] assms(1) at_basic38 by (auto simp: valid_address_def list_all_iff)
  then show ?thesis by (auto simp: list_all_iff valid_char_any)
qed

lemma make_word_valid:
  "t \<noteq> UNKNOWN \<Longrightarrow> length cs = 3 \<Longrightarrow> list_all (valid_char t) cs \<Longrightarrow>
   make_word t cs = ALEWord\<lparr>word_type := t, address := cs @ [NUL], raw_payload := encode_ascii cs t, valid := True\<rparr>"
  using make_word_eq by simp

lemma EXT_not_UNKNOWN: "i < 4 \<Longrightarrow> EXT ! i \<noteq> UNKNOWN"
  using nth_mem [of i EXT] by (auto simp: EXT_def)

lemma chunk_word_valid:
  assumes "valid_address addr" "c \<in> set (chunk addr)" "t \<noteq> UNKNOWN"
  shows "chunk_word t c = ALEWord\<lparr>word_type := t, address := c @ [NUL], raw_payload := encode_ascii c t, valid := True\<rparr>"
  unfolding chunk_word_def
  using assms by (intro make_word_valid) (auto intro: chunk_length chunk_valid)

end
