(* ===== verification/Frame_Validator.thy ===== *)
theory Frame_Validator
  imports Address_Encoder
begin

text \<open>
  \<open>src/Protocol/Message/frame_validator.cpp\<close>: the conformance checks on the word sequence of a frame,
  each loop of the source as a recursion on the words with its early returns, and the reconstruction
  of the called addresses, the inverse of \<open>Address_Encoder\<close>.
\<close>

section \<open>Checks\<close>

definition tis_twas_mutually_exclusive :: "ale_word list \<Rightarrow> bool" where
  "tis_twas_mutually_exclusive words =
     (let (has_tis, has_twas) =
        fold (\<lambda>w (has_tis, has_twas).
            (if word_type w = TIS then True else has_tis, if word_type w = TWAS then True else has_twas))
          words (False, False)
      in \<not> (has_tis \<and> has_twas))"

definition from_count_valid :: "ale_word list \<Rightarrow> bool" where
  "from_count_valid words =
     (fold (\<lambda>w count. if word_type w = FROM then count + 1 else count) words (0 :: int) \<le> 1)"

definition extension :: "ale_word \<Rightarrow> bool" where
  "extension w \<longleftrightarrow> word_type w = DATA \<or> word_type w = REP"

fun from_precedes_cmd_only :: "ale_word list \<Rightarrow> bool" where
  "from_precedes_cmd_only [] = True"
| "from_precedes_cmd_only (w # ws) =
     (if word_type w \<noteq> FROM then from_precedes_cmd_only ws
      else case dropWhile extension ws of
             [] \<Rightarrow> False
           | x # _ \<Rightarrow> if word_type x \<noteq> CMD then False else from_precedes_cmd_only ws)"

fun thru_scan :: "bool \<Rightarrow> ale_word list \<Rightarrow> bool" where
  "thru_scan past_scanning [] = True"
| "thru_scan past_scanning (w # ws) =
     (if word_type w \<in> {TO, TIS, TWAS, FROM, CMD} then thru_scan True ws
      else if word_type w = THRU then (if past_scanning then False else thru_scan past_scanning ws)
      else thru_scan past_scanning ws)"

definition thru_in_scanning_section_only :: "ale_word list \<Rightarrow> bool" where
  "thru_in_scanning_section_only words = thru_scan False words"

fun alternate_scan :: "bool \<Rightarrow> ale_word list \<Rightarrow> bool" where
  "alternate_scan expect_thru [] = expect_thru"
| "alternate_scan expect_thru (w # ws) =
     (if word_type w \<noteq> THRU \<and> word_type w \<noteq> REP then alternate_scan expect_thru ws
      else if expect_thru \<and> word_type w \<noteq> THRU then False
      else if \<not> expect_thru \<and> word_type w \<noteq> REP then False
      else alternate_scan (\<not> expect_thru) ws)"

definition thru_rep_alternates :: "ale_word list \<Rightarrow> bool" where
  "thru_rep_alternates scanning_words = alternate_scan True scanning_words"

fun target_scan :: "string list \<Rightarrow> ale_word list \<Rightarrow> bool" where
  "target_scan seen [] = True"
| "target_scan seen (w # ws) =
     (if word_type w \<noteq> THRU then target_scan seen ws
      else let addr = take 3 (address w)
           in if addr \<in> set seen then target_scan seen ws
              else if length seen \<ge> 5 then False
              else target_scan (seen @ [addr]) ws)"

definition group_call_target_count_valid :: "ale_word list \<Rightarrow> bool" where
  "group_call_target_count_valid scanning_words = target_scan [] scanning_words"

fun cmd_scan :: "bool \<Rightarrow> ale_word list \<Rightarrow> bool" where
  "cmd_scan address_seen [] = True"
| "cmd_scan address_seen (w # ws) =
     (if word_type w \<in> {TO, FROM, TIS, TWAS} then cmd_scan True ws
      else if word_type w = CMD then (if \<not> address_seen then False else cmd_scan address_seen ws)
      else cmd_scan address_seen ws)"

definition cmd_not_before_address_section :: "ale_word list \<Rightarrow> bool" where
  "cmd_not_before_address_section words = cmd_scan False words"

definition cmd_has_call_and_conclusion :: "ale_word list \<Rightarrow> bool" where
  "cmd_has_call_and_conclusion words =
     (let call_words = takeWhile (\<lambda>w. word_type w \<noteq> CMD) words;
          rest = dropWhile (\<lambda>w. word_type w \<noteq> CMD) words
      in if rest = [] then True
         else if \<not> list_ex (\<lambda>w. word_type w \<in> {TO, FROM, TIS, TWAS}) call_words then False
         else list_ex (\<lambda>w. word_type w = TIS \<or> word_type w = TWAS) (tl rest))"

fun message_scan :: "bool \<Rightarrow> ale_word list \<Rightarrow> bool" where
  "message_scan in_message_section [] = True"
| "message_scan in_message_section (w # ws) =
     (if word_type w = CMD then message_scan True ws
      else if in_message_section \<and> (word_type w = THRU \<or> word_type w = UNKNOWN) then False
      else message_scan in_message_section ws)"

definition message_sections_begin_with_cmd :: "ale_word list \<Rightarrow> bool" where
  "message_sections_begin_with_cmd words = message_scan False words"

fun first_cmd_scan :: "bool \<Rightarrow> ale_word list \<Rightarrow> bool" where
  "first_cmd_scan past_first_cmd [] = True"
| "first_cmd_scan past_first_cmd (w # ws) =
     (if word_type w = CMD then first_cmd_scan True ws
      else if past_first_cmd \<and> word_type w \<in> {TO, FROM, TIS, THRU} then False
      else first_cmd_scan past_first_cmd ws)"

definition first_cmd_begins_message_section :: "ale_word list \<Rightarrow> bool" where
  "first_cmd_begins_message_section words = first_cmd_scan False words"

text \<open>The loops over neighbouring words: \<open>ok\<close> of every pair \<open>words[i-1]\<close>, \<open>words[i]\<close>.\<close>

fun neighbours :: "(preamble_type \<Rightarrow> preamble_type \<Rightarrow> bool) \<Rightarrow> ale_word list \<Rightarrow> bool" where
  "neighbours ok (v # w # ws) = (if ok (word_type v) (word_type w) then neighbours ok (w # ws) else False)"
| "neighbours ok _ = True"

definition rep_not_preceded_by_self_tis_twas :: "ale_word list \<Rightarrow> bool" where
  "rep_not_preceded_by_self_tis_twas = neighbours (\<lambda>p t. \<not> (t = REP \<and> (p = REP \<or> p = TIS \<or> p = TWAS)))"

definition no_consecutive_same_preamble :: "ale_word list \<Rightarrow> bool" where
  "no_consecutive_same_preamble = neighbours (\<lambda>p t. \<not> t = p)"

definition rep_not_used_in_multiple_sender_situation :: "ale_word list \<Rightarrow> bool" where
  "rep_not_used_in_multiple_sender_situation words = True"

definition data_not_after_data :: "ale_word list \<Rightarrow> bool" where
  "data_not_after_data = neighbours (\<lambda>p t. \<not> (t = DATA \<and> p = DATA))"

fun section_scan :: "nat \<Rightarrow> ale_word list \<Rightarrow> bool" where
  "section_scan current [] = (current \<le> 5)"
| "section_scan current (w # ws) =
     (if word_type w \<in> {TO, TIS, TWAS, FROM, THRU}
      then if current > 5 then False else section_scan 1 ws
      else if word_type w = DATA \<or> word_type w = REP
      then if current + 1 > 5 then False else section_scan (current + 1) ws
      else if word_type w = CMD
      then if current > 5 then False else section_scan 0 ws
      else section_scan current ws)"

definition address_section_word_count_valid :: "ale_word list \<Rightarrow> bool" where
  "address_section_word_count_valid words = section_scan 0 words"

section \<open>Reconstruction\<close>

text \<open>A C string ends at its first null character.\<close>

definition c_string :: "string \<Rightarrow> string" where
  "c_string s = takeWhile (\<lambda>c. c \<noteq> NUL) s"

definition strip_padding :: "string \<Rightarrow> string" where
  "strip_padding addr = rev (dropWhile (\<lambda>c. c = CHR ''@'') (rev (c_string addr)))"

definition reconstruct_word ::
  "ale_word \<Rightarrow> string list \<times> string \<times> preamble_type \<Rightarrow> string list \<times> string \<times> preamble_type" where
  "reconstruct_word w = (\<lambda>(addresses, current, last_non_rep).
     let s = strip_padding (address w)
     in case word_type w of
          TO \<Rightarrow> (if current \<noteq> [] then addresses @ [current] else addresses, s, TO)
        | DATA \<Rightarrow> (addresses, current @ s, DATA)
        | REP \<Rightarrow> if last_non_rep = TO then (addresses @ [current], s, last_non_rep)
                 else (addresses, current @ s, last_non_rep)
        | _ \<Rightarrow> (addresses, current, last_non_rep))"

definition reconstruct_to_addresses :: "ale_word list \<Rightarrow> string list" where
  "reconstruct_to_addresses words =
     (let (addresses, current, _) = fold reconstruct_word words ([], [], UNKNOWN)
      in if current \<noteq> [] then addresses @ [current] else addresses)"

section \<open>Reconstruction inverts the encoder\<close>

lemma dropWhile_replicate_append: "P a \<Longrightarrow> dropWhile P (replicate k a @ ys) = dropWhile P ys"
  by (induction k) auto

lemma strip_padding_chunk:
  assumes "valid_address addr" "c \<in> set (chunk addr)"
  shows "strip_padding (c @ [NUL]) = takeWhile (\<lambda>x. x \<noteq> CHR ''@'') c"
proof -
  have "c \<in> set (triples addr)" using assms by (auto simp: chunk_triples valid_address_def)
  moreover have "CHR ''@'' \<notin> set addr" using assms(1) by (simp add: valid_address_def)
  ultimately have t: "\<exists>k. c = takeWhile (\<lambda>x. x \<noteq> CHR ''@'') c @ replicate k (CHR ''@'')"
  proof (induction addr rule: triples.induct)
    case (2 a)
    then show ?case by (auto intro!: exI [of _ 2] simp: numeral_2_eq_2)
  next
    case (3 a b)
    then show ?case by (auto intro!: exI [of _ 1])
  next
    case (4 x y z s)
    from "4.prems" consider "c = [x, y, z]" | "c \<in> set (triples s)" by auto
    then show ?case
    proof cases
      case 1
      with "4.prems" show ?thesis by (auto intro!: exI [of _ 0])
    next
      case 2
      with "4.IH" "4.prems" show ?thesis by simp
    qed
  qed simp
  have "NUL \<notin> set c"
    using chunk_valid [OF assms, of TO] valid_char_not_NUL [of TO] by (auto simp: list_all_iff)
  then have c: "c_string (c @ [NUL]) = c"
    unfolding c_string_def by (subst takeWhile_append2) auto
  obtain k where k: "c = takeWhile (\<lambda>x. x \<noteq> CHR ''@'') c @ replicate k (CHR ''@'')" using t by blast
  have "dropWhile (\<lambda>x. x = CHR ''@'') (rev c) = rev (takeWhile (\<lambda>x. x \<noteq> CHR ''@'') c)"
  proof (subst k)
    have "x \<in> set (takeWhile (\<lambda>x. x \<noteq> CHR ''@'') c) \<Longrightarrow> x \<noteq> CHR ''@''" for x
      by (auto dest: set_takeWhileD)
    then have "dropWhile (\<lambda>x. x = CHR ''@'') (rev (takeWhile (\<lambda>x. x \<noteq> CHR ''@'') c)) = rev (takeWhile (\<lambda>x. x \<noteq> CHR ''@'') c)"
      by (intro dropWhile_id) auto
    then show "dropWhile (\<lambda>x. x = CHR ''@'') (rev (takeWhile (\<lambda>x. x \<noteq> CHR ''@'') c @ replicate k (CHR ''@''))) =
        rev (takeWhile (\<lambda>x. x \<noteq> CHR ''@'') c)"
      by (simp add: dropWhile_replicate_append)
  qed
  then show ?thesis by (simp add: strip_padding_def c)
qed

lemma concat_chunks:
  assumes "valid_address addr"
  shows "concat (map (takeWhile (\<lambda>x. x \<noteq> CHR ''@'')) (chunk addr)) = addr"
proof -
  have "CHR ''@'' \<notin> set addr \<Longrightarrow> concat (map (takeWhile (\<lambda>x. x \<noteq> CHR ''@'')) (triples addr)) = addr"
    by (induction addr rule: triples.induct) auto
  then show ?thesis using assms by (simp add: chunk_triples valid_address_def)
qed

lemma map_upt_Suc: "map f [0..<Suc n] = f 0 # map (\<lambda>i. f (Suc i)) [0..<n]"
  by (simp add: upt_conv_Cons del: upt_Suc flip: map_Suc_upt)

lemma length_5_cases:
  assumes "1 \<le> length xs" "length xs \<le> 5"
  obtains (1) a where "xs = [a]" | (2) a b where "xs = [a, b]" | (3) a b c where "xs = [a, b, c]"
    | (4) a b c d where "xs = [a, b, c, d]" | (5) a b c d e where "xs = [a, b, c, d, e]"
proof -
  obtain a as where a: "xs = a # as" using assms(1) by (cases xs) auto
  show thesis
  proof (cases as)
    case Nil
    with a 1 show ?thesis by simp
  next
    case b: (Cons b bs)
    show ?thesis
    proof (cases bs)
      case Nil
      with a b 2 show ?thesis by simp
    next
      case c: (Cons c cs)
      show ?thesis
      proof (cases cs)
        case Nil
        with a b c 3 show ?thesis by simp
      next
        case d: (Cons d ds)
        with assms a b c 4 5 show ?thesis by (cases ds) auto
      qed
    qed
  qed
qed

text \<open>The value of \<open>last_non_rep\<close> after the words of an address.\<close>

definition after_address :: "preamble_type \<Rightarrow> string \<Rightarrow> preamble_type \<Rightarrow> preamble_type" where
  "after_address t addr lnr = (if 2 \<le> length (chunk addr) then DATA else if t \<noteq> REP then t else lnr)"

lemma length_encode_address [simp]: "length (encode_address addr t) = length (chunk addr)"
  by (simp add: encode_address_def Let_def)

lemma encode_address_chunks:
  "encode_address addr t =
     chunk_word t (hd (chunk addr)) # map2 chunk_word (take (length (chunk addr) - 1) EXT) (tl (chunk addr))"
proof -
  have l: "1 \<le> length (chunk addr)" "length (chunk addr) \<le> 5" using length_chunk by blast+
  show ?thesis
    by (rule length_5_cases [OF l]) (simp_all add: encode_address_def map_upt_Suc EXT_def upt_rec)
qed

lemma group_address_eq:
  assumes "a < length addrs"
  shows "group_address TO addrs a (result, lnr) =
    (let t = (if a = 0 \<or> lnr \<noteq> TO then TO else REP)
     in (result @ encode_address (addrs ! a) t, after_address t (addrs ! a) lnr))"
proof -
  have l: "1 \<le> length (chunk (addrs ! a))" "length (chunk (addrs ! a)) \<le> 5" using length_chunk by blast+
  show ?thesis
    by (rule length_5_cases [OF l])
      (simp_all add: group_address_def group_chunk_def encode_address_chunks after_address_def upt_rec EXT_def)
qed

lemma chunk_word_fields:
  assumes "valid_address addr" "c \<in> set (chunk addr)" "t \<noteq> UNKNOWN"
  shows "word_type (chunk_word t c) = t"
    "strip_padding (address (chunk_word t c)) = takeWhile (\<lambda>x. x \<noteq> CHR ''@'') c"
  using chunk_word_valid [OF assms] strip_padding_chunk [OF assms(1,2)] by simp_all

lemma reconstruct_address:
  assumes "valid_address addr" "t = TO \<or> t = REP \<and> lnr = TO \<and> current \<noteq> []"
  shows "fold reconstruct_word (encode_address addr t) (addresses, current, lnr) =
    (if current \<noteq> [] then addresses @ [current] else addresses, addr, after_address t addr lnr)"
proof -
  have l: "1 \<le> length (chunk addr)" "length (chunk addr) \<le> 5" using length_chunk by blast+
  have t: "t \<noteq> UNKNOWN" using assms(2) by auto
  note f = chunk_word_fields [OF assms(1)]
  show ?thesis
    by (rule length_5_cases [OF l]; use assms(2) t concat_chunks [OF assms(1)] in
        \<open>auto simp: encode_address_chunks EXT_def f reconstruct_word_def after_address_def Let_def\<close>)
qed

lemma reconstruct_group_prefix:
  assumes "list_all valid_address addrs" "k \<le> length addrs"
  shows "\<exists>ws lnr. fold (group_address TO addrs) [0..<k] ([], UNKNOWN) = (ws, lnr) \<and>
    fold reconstruct_word ws ([], [], UNKNOWN) =
      (take (k - 1) addrs, if k = 0 then [] else addrs ! (k - 1), if k = 0 then UNKNOWN else lnr)"
  using assms(2)
proof (induction k)
  case 0
  then show ?case by simp
next
  case (Suc k)
  then obtain ws lnr where f: "fold (group_address TO addrs) [0..<k] ([], UNKNOWN) = (ws, lnr)"
    and r: "fold reconstruct_word ws ([], [], UNKNOWN) =
      (take (k - 1) addrs, if k = 0 then [] else addrs ! (k - 1), if k = 0 then UNKNOWN else lnr)"
    by auto
  define t where "t = (if k = 0 \<or> lnr \<noteq> TO then TO else REP)"
  have v: "valid_address (addrs ! k)" "k \<noteq> 0 \<Longrightarrow> addrs ! (k - 1) \<noteq> []"
    using assms(1) Suc.prems by (auto simp: list_all_length valid_address_def)
  have "fold (group_address TO addrs) [0..<Suc k] ([], UNKNOWN) =
      (ws @ encode_address (addrs ! k) t, after_address t (addrs ! k) lnr)"
    using Suc.prems by (simp add: f group_address_eq t_def Let_def)
  moreover have "fold reconstruct_word (ws @ encode_address (addrs ! k) t) ([], [], UNKNOWN) =
      (take k addrs, addrs ! k, after_address t (addrs ! k) lnr)"
  proof (cases "k = 0")
    case True
    then show ?thesis
      using reconstruct_address [OF v(1), of TO UNKNOWN "[]" "[]"] r by (simp add: t_def after_address_def)
  next
    case False
    have "take k addrs = take (k - 1) addrs @ [addrs ! (k - 1)]"
      using False Suc.prems take_Suc_conv_app_nth [of "k - 1" addrs] by simp
    then show ?thesis
      using reconstruct_address [OF v(1), of t lnr "addrs ! (k - 1)" "take (k - 1) addrs"] r False v(2)
      by (auto simp: t_def)
  qed
  ultimately show ?case by simp
qed

lemma reconstruct_group:
  assumes "list_all valid_address addrs"
  shows "reconstruct_to_addresses (encode_group addrs TO) = addrs"
proof (cases "addrs = []")
  case True
  then show ?thesis by (simp add: encode_group_def reconstruct_to_addresses_def)
next
  case False
  obtain ws lnr where "fold (group_address TO addrs) [0..<length addrs] ([], UNKNOWN) = (ws, lnr)"
    and "fold reconstruct_word ws ([], [], UNKNOWN) = (take (length addrs - 1) addrs, addrs ! (length addrs - 1), lnr)"
    using reconstruct_group_prefix [OF assms, of "length addrs"] False by auto
  moreover have "addrs ! (length addrs - 1) \<noteq> []"
    using assms False by (auto simp: list_all_length valid_address_def)
  moreover have "take (length addrs - 1) addrs @ [addrs ! (length addrs - 1)] = addrs"
    using False take_Suc_conv_app_nth [of "length addrs - 1" addrs] by simp
  ultimately show ?thesis using False
    by (simp add: encode_group_def reconstruct_to_addresses_def)
qed

text \<open>
  C29. The receiver reconstructs from the words of a group call exactly the addresses that were
  encoded, in order, for any list of addresses of up to fifteen characters from the basic set
  without the padding symbol: continuation words, padding and the markers of a new recipient are
  unambiguous.
\<close>

theorem reconstruct_encode_group:
  assumes "list_all valid_address addrs"
  shows "reconstruct_to_addresses (encode_group addrs TO) = addrs"
  using assms by (rule reconstruct_group)

theorem reconstruct_encode_group_witness:
  "reconstruct_to_addresses (encode_group [''BOB'', ''SAMUEL'', ''W1'', ''CALLSIGNX7''] TO) = [''BOB'', ''SAMUEL'', ''W1'', ''CALLSIGNX7'']"
  by (rule reconstruct_encode_group) (simp add: valid_address_def is_valid_basic38_char_iff)

text \<open>
  The words of one address: one to five of them, under the anchor type and then DATA and REP in
  turn, which every check of a frame's address section accepts.
\<close>

theorem encode_address_valid:
  assumes "valid_address addr" "t \<in> {TO, TIS, TWAS, FROM, THRU}"
  shows "map word_type (encode_address addr t) = take ((length addr + 2) div 3) [t, DATA, REP, DATA, REP] \<and>
    list_all valid (encode_address addr t) \<and>
    address_section_word_count_valid (encode_address addr t) \<and>
    data_not_after_data (encode_address addr t) \<and>
    rep_not_preceded_by_self_tis_twas (encode_address addr t) \<and>
    no_consecutive_same_preamble (encode_address addr t)"
proof -
  have l: "1 \<le> length (chunk addr)" "length (chunk addr) \<le> 5" using length_chunk by blast+
  have t: "t \<noteq> UNKNOWN" "t \<noteq> DATA" "t \<noteq> REP" using assms(2) by auto
  have n: "(length addr + 2) div 3 = length (chunk addr)"
    using assms(1) by (simp add: chunk_triples length_triples valid_address_def)
  note f = chunk_word_fields(1) [OF assms(1)] and w = chunk_word_valid [OF assms(1)]
  show ?thesis
    unfolding n
    by (rule length_5_cases [OF l]; use assms(2) t in
        \<open>auto simp: encode_address_chunks EXT_def f w address_section_word_count_valid_def data_not_after_data_def
          rep_not_preceded_by_self_tis_twas_def no_consecutive_same_preamble_def\<close>)
qed

theorem encode_address_valid_witness:
  "map word_type (encode_address ''CALLSIGNX7'' TIS) = [TIS, DATA, REP, DATA]"
  using encode_address_valid [of "''CALLSIGNX7''" TIS]
  by (simp add: valid_address_def is_valid_basic38_char_iff)

end
