(* ===== verification/Lqa_Report.thy ===== *)
theory Lqa_Report
  imports Ale_Word
begin

text \<open>
  \<open>src/LQA/lqa_report.cpp\<close>: link quality reports as a bit stream over 21-bit payloads of DATA words,
  the header and request words, and the decoder that collects the payloads. The packer and the
  unpacker are inverse, and the decoder completes exactly on the last payload.
\<close>

unbundle bit_operations_syntax

record lqa_report =
  frequency_hz :: u32
  age :: u8
  mp :: u8
  sinad :: u8
  ber :: u8

definition LQAReport :: lqa_report where
  "LQAReport = \<lparr>frequency_hz = 0, age = 7, mp = 7, sinad = 31, ber = 31\<rparr>"

section \<open>Encoder\<close>

definition encode_report_cmd :: "u8 \<Rightarrow> u32" where
  "encode_report_cmd report_count =
     push_bit 14 0x72 OR push_bit 12 0 OR push_bit 11 0 OR push_bit 8 5 OR (ucast report_count AND 0xFF)"

definition encode_report_request :: "u8 \<Rightarrow> u32" where
  "encode_report_request max_age_code =
     push_bit 14 0x72 OR push_bit 12 2 OR push_bit 9 (ucast max_age_code AND 0x7)"

definition report_bits :: "lqa_report \<Rightarrow> bool list" where
  "report_bits r =
     (let freq_des = frequency_hz r div 100
      in msb_bits 20 freq_des @ msb_bits 3 (age r) @ msb_bits 3 (mp r) @ msb_bits 5 (sinad r) @ msb_bits 5 (ber r))"

definition pad_21 :: "bool list \<Rightarrow> bool list" where
  "pad_21 bits = bits @ replicate ((21 - length bits mod 21) mod 21) False"

function slice_21 :: "bool list \<Rightarrow> u32 list" where
  "slice_21 bits =
     (if bits = [] then [] else foldl shift_in 0 (take 21 bits) # slice_21 (drop 21 bits))"
  by pat_completeness auto
termination by (relation "measure length") auto

declare slice_21.simps [simp del]

definition pack_reports :: "lqa_report list \<Rightarrow> u32 list" where
  "pack_reports reports =
     (if reports = [] then [] else slice_21 (pad_21 (concat (map report_bits reports))))"

section \<open>Decoder\<close>

text \<open>One report from the front of the bit stream.\<close>

definition read_report :: "bool list \<Rightarrow> lqa_report" where
  "read_report bits =
     (let freq_des = foldl shift_in (0 :: u32) (take 20 bits)
      in \<lparr>frequency_hz = freq_des * 100,
          age = foldl shift_in 0 (take 3 (drop 20 bits)),
          mp = foldl shift_in 0 (take 3 (drop 23 bits)),
          sinad = foldl shift_in 0 (take 5 (drop 26 bits)),
          ber = foldl shift_in 0 (take 5 (drop 31 bits))\<rparr>)"

fun unpack_loop :: "nat \<Rightarrow> bool list \<Rightarrow> lqa_report list" where
  "unpack_loop 0 bits = []"
| "unpack_loop (Suc n) bits =
     (if 35 < length bits then read_report bits # unpack_loop n (drop 36 bits) else [])"

definition unpack :: "u32 list \<Rightarrow> u8 \<Rightarrow> lqa_report list" where
  "unpack payloads count = unpack_loop (unat count) (concat (map (msb_bits 21) payloads))"

definition unpack_reports :: "u32 list \<Rightarrow> u8 \<Rightarrow> lqa_report list" where
  "unpack_reports payloads count = unpack payloads count"

record report_decoder =
  active :: bool
  expected_count :: u8
  bits_needed :: u32
  bits_collected :: u32
  payloads :: "u32 list"
  reports :: "lqa_report list"

definition decoder_reset :: "report_decoder \<Rightarrow> report_decoder" where
  "decoder_reset d = d\<lparr>active := False, expected_count := 0, bits_needed := 0, bits_collected := 0,
     payloads := [], reports := []\<rparr>"

definition decoder_start :: "u32 \<Rightarrow> report_decoder \<Rightarrow> report_decoder" where
  "decoder_start header_raw d =
     (let d = decoder_reset d;
          d = d\<lparr>expected_count := ucast (header_raw AND 0xFF)\<rparr>
      in if expected_count d = 0 then d
         else d\<lparr>bits_needed := ucast (expected_count d) * 36, active := True\<rparr>)"

definition decoder_feed :: "u32 \<Rightarrow> report_decoder \<Rightarrow> bool \<times> report_decoder" where
  "decoder_feed data_raw d =
     (if \<not> active d then (False, d)
      else let d = d\<lparr>payloads := payloads d @ [data_raw AND 0x1FFFFF], bits_collected := bits_collected d + 21\<rparr>
           in if bits_collected d \<ge> bits_needed d
              then (True, d\<lparr>reports := unpack (payloads d) (expected_count d), active := False\<rparr>)
              else (False, d))"

text \<open>Feeding a list of payloads until one completes the set: whether it did, the number of
  payloads consumed, and the state.\<close>

fun feed_all :: "u32 list \<Rightarrow> report_decoder \<Rightarrow> bool \<times> nat \<times> report_decoder" where
  "feed_all [] d = (False, 0, d)"
| "feed_all (p # ps) d =
     (let (complete, d') = decoder_feed p d
      in if complete then (True, 1, d')
         else let (c, n, d'') = feed_all ps d' in (c, Suc n, d''))"

section \<open>Round trip of the bit stream\<close>

lemma length_report_bits [simp]: "length (report_bits r) = 36"
  by (simp add: report_bits_def Let_def)

definition encodable :: "lqa_report \<Rightarrow> bool" where
  "encodable r \<longleftrightarrow> unat (frequency_hz r) mod 100 = 0 \<and> unat (frequency_hz r) div 100 < 2 ^ 20 \<and>
     unat (age r) < 8 \<and> unat (mp r) < 8 \<and> unat (sinad r) < 32 \<and> unat (ber r) < 32"

lemma read_report_bits:
  assumes "encodable r"
  shows "read_report (report_bits r @ rest) = r"
proof -
  have "unat (frequency_hz r div 100) < 2 ^ 20"
    using assms by (simp add: encodable_def unat_div)
  then have f: "foldl shift_in 0 (msb_bits 20 (frequency_hz r div 100)) = frequency_hz r div 100"
    by (rule foldl_shift_in_ucast)
  have "frequency_hz r mod 100 = 0"
    using assms by (simp add: encodable_def word_unat_eq_iff unat_mod)
  then have m: "frequency_hz r div 100 * 100 = frequency_hz r"
    by (metis add.right_neutral mult.commute word_mod_div_equality mult_div_mod_eq)
  show ?thesis
    using assms f m
    by (cases r) (simp add: read_report_def report_bits_def Let_def encodable_def foldl_shift_in_ucast)
qed

lemma unpack_loop_concat:
  assumes "list_all encodable rs"
  shows "unpack_loop (length rs) (concat (map report_bits rs) @ rest) = rs"
  using assms by (induction rs) (simp_all add: read_report_bits)

lemma slice_step:
  assumes "21 dvd length bits" "bits \<noteq> []"
  shows "21 \<le> length bits" "21 dvd length (drop 21 bits)"
  using assms by (auto simp: dvd_imp_le dvd_diff_nat)

lemma slice_21_properties:
  "21 dvd length bits \<Longrightarrow>
     concat (map (msb_bits 21) (slice_21 bits)) = bits \<and> length (slice_21 bits) = length bits div 21 \<and>
     list_all (\<lambda>p. p AND 0x1FFFFF = p) (slice_21 bits)"
proof (induction bits rule: slice_21.induct)
  case (1 bits)
  show ?case
  proof (cases "bits = []")
    case True
    then show ?thesis by (simp add: slice_21.simps)
  next
    case False
    note l = slice_step [OF "1.prems" False]
    have "msb_bits 21 (foldl shift_in (0 :: u32) (take 21 bits)) = take 21 bits"
      using msb_bits_foldl_shift_in [of "take 21 bits", where 'a = 32] l by (simp add: min_absorb2)
    moreover have "foldl shift_in (0 :: u32) (take 21 bits) AND 0x1FFFFF = foldl shift_in 0 (take 21 bits)"
      using l(1) by (intro bit_eqI) (auto simp: mask_21 bit_mask_word foldl_shift_in_bit)
    moreover have "Suc ((length bits - 21) div 21) = length bits div 21"
      using l(1) by (simp add: le_div_geq)
    ultimately show ?thesis using False "1.IH" [OF False l(2)] by (subst (1 2 3) slice_21.simps) simp
  qed
qed

lemma length_pad_21: "length (pad_21 bits) = (length bits + 20) div 21 * 21"
proof -
  define q r where "q = length bits div 21" and "r = length bits mod 21"
  have l: "length bits = 21 * q + r" "r < 21" by (simp_all add: q_def r_def)
  have "length (pad_21 bits) = 21 * q + r + (21 - r) mod 21"
    by (simp add: pad_21_def l(1) r_def [symmetric] flip: l(1))
  also have "\<dots> = (21 * q + r + 20) div 21 * 21"
  proof (cases "r = 0")
    case True
    then show ?thesis by simp
  next
    case False
    then have "(21 * q + r + 20) div 21 = q + 1" using l(2) by linarith
    moreover have "(21 - r) mod 21 = 21 - r" using False l(2) by simp
    ultimately show ?thesis using l(2) by simp
  qed
  finally show ?thesis by (simp add: l(1))
qed

lemma pack_reports_properties:
  fixes rs :: "lqa_report list"
  shows "length (pack_reports rs) = (36 * length rs + 20) div 21"
    "list_all (\<lambda>p. p AND 0x1FFFFF = p) (pack_reports rs)"
    "concat (map (msb_bits 21) (pack_reports rs)) = pad_21 (concat (map report_bits rs))"
proof -
  have l: "length (concat (map report_bits rs)) = 36 * length rs" by (induction rs) auto
  have "21 dvd length (pad_21 (concat (map report_bits rs)))" by (simp add: length_pad_21)
  note p = slice_21_properties [OF this]
  show "length (pack_reports rs) = (36 * length rs + 20) div 21"
    using p by (cases "rs = []") (simp_all only: pack_reports_def length_pad_21 l, simp_all)
  show "list_all (\<lambda>p. p AND 0x1FFFFF = p) (pack_reports rs)"
    using p by (simp add: pack_reports_def)
  show "concat (map (msb_bits 21) (pack_reports rs)) = pad_21 (concat (map report_bits rs))"
    using p by (simp add: pack_reports_def pad_21_def)
qed

lemma unpack_pack:
  assumes "list_all encodable rs" "length rs \<le> 255"
  shows "unpack (pack_reports rs) (of_nat (length rs)) = rs"
proof -
  have "unat (of_nat (length rs) :: u8) = length rs"
    using assms(2) by (simp add: unat_of_nat take_bit_nat_eq_self)
  then show ?thesis
    using unpack_loop_concat [OF assms(1)] by (simp add: unpack_def pack_reports_properties pad_21_def)
qed

section \<open>The decoder collects the payloads\<close>

lemma feed_all_collects:
  assumes "active d" "unat (bits_collected d) = 21 * length (payloads d)"
    and "list_all (\<lambda>p. p AND 0x1FFFFF = p) ps" "ps \<noteq> []"
    and "21 * (length (payloads d) + length ps) < unat (bits_needed d) + 21"
    and "unat (bits_needed d) \<le> 21 * (length (payloads d) + length ps)"
    and "unat (bits_needed d) < 2 ^ 31"
  shows "\<exists>c. feed_all ps d = (True, length ps,
    d\<lparr>payloads := payloads d @ ps, bits_collected := c,
      reports := unpack (payloads d @ ps) (expected_count d), active := False\<rparr>)"
  using assms
proof (induction ps arbitrary: d)
  case Nil
  then show ?case by simp
next
  case (Cons p ps)
  have c: "unat (bits_collected d + 21) = 21 * length (payloads d) + 21"
    using Cons.prems by (simp add: unat_word_ariths)
  show ?case
  proof (cases "ps = []")
    case True
    then have "bits_needed d \<le> bits_collected d + 21"
      using Cons.prems c by (simp add: word_le_nat_alt)
    then show ?thesis
      using True Cons.prems by (auto simp: decoder_feed_def Let_def)
  next
    case False
    then obtain q qs where "ps = q # qs" by (cases ps) auto
    then have "\<not> bits_needed d \<le> bits_collected d + 21"
      using Cons.prems c by (simp add: word_le_nat_alt)
    then have f: "decoder_feed p d = (False, d\<lparr>payloads := payloads d @ [p], bits_collected := bits_collected d + 21\<rparr>)"
      using Cons.prems by (simp add: decoder_feed_def Let_def)
    show ?thesis
      using Cons.IH [of "d\<lparr>payloads := payloads d @ [p], bits_collected := bits_collected d + 21\<rparr>"] False Cons.prems c
      by (auto simp: f)
  qed
qed

lemma report_count_field: "ucast (encode_report_cmd n AND 0xFF) = n"
proof -
  have m: "(0xFF :: u32) = mask 8" by (simp add: mask_eq_decr_exp)
  have "encode_report_cmd n = push_bit 8 0x1C85 OR (ucast n AND mask 8)"
    by (simp add: encode_report_cmd_def m [symmetric] flip: or.assoc)
  then show ?thesis
    unfolding m
    by (intro bit_eqI)
      (simp only: bit_ucast_iff bit_and_iff bit_or_iff bit_mask_iff bit_push_bit_iff, auto)
qed

text \<open>
  Link quality reports survive the trip over DATA words: the packer makes the least number of
  21-bit payloads that hold 36 bits a report, and the decoder, started by the header word that
  carries the count, completes exactly at the last of them with the reports that were packed.
\<close>

theorem report_exchange:
  assumes "list_all encodable rs" "rs \<noteq> []" "length rs \<le> 255"
  shows "length (pack_reports rs) = (36 * length rs + 20) div 21 \<and>
    (\<exists>d'. feed_all (pack_reports rs) (decoder_start (encode_report_cmd (of_nat (length rs))) d) =
        (True, length (pack_reports rs), d') \<and> reports d' = rs \<and> \<not> active d')"
proof -
  let ?d = "decoder_start (encode_report_cmd (of_nat (length rs))) d"
  have n: "unat (of_nat (length rs) :: u8) = length rs"
    using assms(3) by (simp add: unat_of_nat take_bit_nat_eq_self)
  moreover have nz: "(of_nat (length rs) :: u8) \<noteq> 0"
    using n assms(2) by (metis length_0_conv unat_0)
  moreover have "unat (ucast (of_nat (length rs) :: u8) * 36 :: u32) = 36 * length rs"
    using n assms(3) by (simp add: unat_word_ariths unsigned_ucast_eq take_bit_nat_eq_self)
  ultimately have d: "active ?d" "payloads ?d = []" "bits_collected ?d = 0"
    "unat (bits_needed ?d) = 36 * length rs" "expected_count ?d = of_nat (length rs)"
    by (simp_all add: decoder_start_def decoder_reset_def Let_def report_count_field)
  have l: "length (pack_reports rs) = (36 * length rs + 20) div 21"
    by (rule pack_reports_properties)
  have "21 * ((36 * length rs + 20) div 21) < 36 * length rs + 21"
    "36 * length rs \<le> 21 * ((36 * length rs + 20) div 21)" by linarith+
  moreover have "pack_reports rs \<noteq> []"
    using l assms(2) by (cases rs) auto
  ultimately obtain c where "feed_all (pack_reports rs) ?d = (True, length (pack_reports rs),
    ?d\<lparr>payloads := pack_reports rs, bits_collected := c,
      reports := unpack (pack_reports rs) (of_nat (length rs)), active := False\<rparr>)"
    using feed_all_collects [of ?d "pack_reports rs"] d l assms(3) pack_reports_properties(2) [of rs]
    by auto
  then show ?thesis using l unpack_pack [OF assms(1,3)] by auto
qed

definition sample_report :: lqa_report where
  "sample_report = \<lparr>frequency_hz = 7102000, age = 2, mp = 1, sinad = 17, ber = 30\<rparr>"

definition idle_decoder :: report_decoder where
  "idle_decoder = \<lparr>active = False, expected_count = 0, bits_needed = 0, bits_collected = 0, payloads = [], reports = []\<rparr>"

theorem report_exchange_witness:
  "\<exists>d'. feed_all (pack_reports [sample_report, LQAReport]) (decoder_start (encode_report_cmd 2) idle_decoder) =
     (True, 4, d') \<and> reports d' = [sample_report, LQAReport]"
proof -
  have "list_all encodable [sample_report, LQAReport]"
    by (simp add: sample_report_def LQAReport_def encodable_def)
  from report_exchange [OF this, of idle_decoder] show ?thesis by auto
qed

section \<open>Reports and the character check of DATA words\<close>

lemma hd_pack_reports:
  "hd (pack_reports (r # rs)) = foldl shift_in 0 (take 21 (report_bits r))"
proof -
  let ?bits = "pad_21 (concat (map report_bits (r # rs)))"
  have "?bits \<noteq> []" "take 21 ?bits = take 21 (report_bits r)"
    by (simp_all add: pad_21_def) (metis length_report_bits list.size(3) zero_neq_numeral)
  then show ?thesis by (subst pack_reports_def, subst slice_21.simps) simp
qed

lemma first_payload_char:
  "drop_bit 14 (hd (pack_reports (r # rs))) AND mask 7 = drop_bit 13 (frequency_hz r div 100) AND mask 7"
proof (rule bit_eqI)
  fix n
  have "take 21 (report_bits r) ! (6 - n) = bit (frequency_hz r div 100) (13 + n)" if "n < 7"
  proof -
    have "6 - n < 20" "19 - (6 - n) = 13 + n" using that by auto
    then show ?thesis
      by (simp add: report_bits_def Let_def nth_append msb_bits_def rev_map rev_nth drop_bit_and_1)
  qed
  then show "bit (drop_bit 14 (hd (pack_reports (r # rs))) AND mask 7) n =
      bit (drop_bit 13 (frequency_hz r div 100) AND mask 7) n"
    by (auto simp: hd_pack_reports bit_mask_word bit_drop_bit_eq foldl_shift_in_bit rev_nth)
qed

text \<open>
  A packed payload is binary: on every frequency below 26214.4 kHz the character check of the word
  parser refuses the first DATA word of a report, since its leading seven bits are below the first
  character of the expanded set, so the word is received as an invalid one.
\<close>

theorem report_payload_refused:
  assumes "unat (frequency_hz r) < 26214400"
  shows "\<not> fst (decode_ascii (hd (pack_reports (r # rs))) DATA)"
proof -
  have "unat (drop_bit 13 (frequency_hz r div 100)) < 32"
    using assms by (simp add: unat_drop_bit_eq drop_bit_eq_div unat_div)
  then have "unat (drop_bit 14 (hd (pack_reports (r # rs))) AND mask 7) < 32"
    unfolding first_payload_char by (simp add: unat_and_mask)
  then have "\<not> is_valid_expanded64_char (payload_char (hd (pack_reports (r # rs))) 14)"
    by (simp add: payload_char_def mask_7 is_valid_expanded64_char_iff)
  then show ?thesis by (simp add: decode_ascii_def Let_def valid_char_def uses_basic38_def)
qed

theorem report_payload_refused_witness:
  "\<not> fst (decode_ascii (hd (pack_reports [sample_report])) DATA)"
  by (rule report_payload_refused) (simp add: sample_report_def)

end
