(* ===== verification/Ale_Sequence.thy ===== *)
theory Ale_Sequence
  imports Frame_Validator Lqa_Report
begin

text \<open>
  \<open>src/Word/ale_sequence.cpp\<close>: the word sequences of the protocol sections and response frames. An
  \<open>ALESequence\<close> is the list of its words. The frames built for one station are lists of address
  blocks, which the checks of \<open>Frame_Validator\<close> accept.
\<close>

unbundle bit_operations_syntax

section \<open>Builder\<close>

definition sequence_encode :: "ale_word list \<Rightarrow> u64 list" where
  "sequence_encode words = map ale_word_encode words"

definition sent_twice :: "ale_word list \<Rightarrow> ale_word list" where
  "sent_twice words = words @ words"

definition addressed_then_conclusion ::
  "string \<Rightarrow> preamble_type \<Rightarrow> string \<Rightarrow> preamble_type \<Rightarrow> ale_word list" where
  "addressed_then_conclusion addressed_addr addressed_type self_addr conclusion_type =
     sent_twice (encode_address addressed_addr addressed_type) @ encode_address self_addr conclusion_type"

definition scanning_call :: "string \<Rightarrow> u32 \<Rightarrow> ale_word list" where
  "scanning_call dest scan_channels =
     (if scan_channels = 0 then []
      else let first = encode_first dest TO; count = scan_channels * 2
           in replicate (unat count) first)"

fun collect_first :: "string list \<Rightarrow> string list \<Rightarrow> string list" where
  "collect_first unique_first [] = unique_first"
| "collect_first unique_first (m # ms) =
     (let fw = c_string (address (encode_first m TO));
          unique_first = (if fw \<in> set unique_first then unique_first else unique_first @ [fw])
      in if length unique_first = 5 then unique_first else collect_first unique_first ms)"

definition scanning_call_group :: "string list \<Rightarrow> u32 \<Rightarrow> ale_word list" where
  "scanning_call_group members scan_channels =
     (if scan_channels = 0 \<or> members = [] then []
      else let unique_first = collect_first [] members
           in if length unique_first = 1 then scanning_call (hd unique_first) scan_channels
              else let total = scan_channels * 2; u = length unique_first
                   in map (\<lambda>i. encode_first (unique_first ! (i mod u)) (if i mod 2 = 0 then THRU else REP))
                        [0..<unat total])"

definition leading_call :: "string \<Rightarrow> ale_word list" where
  "leading_call dest = sent_twice (encode_address dest TO)"

definition leading_call_group :: "string list \<Rightarrow> ale_word list" where
  "leading_call_group members = sent_twice (encode_group members TO)"

definition conclusion :: "string \<Rightarrow> bool \<Rightarrow> ale_word list" where
  "conclusion self is_reject = encode_address self (if is_reject then TWAS else TIS)"

definition from_id :: "string \<Rightarrow> ale_word list" where
  "from_id self = encode_address self FROM"

definition response :: "string \<Rightarrow> string \<Rightarrow> bool \<Rightarrow> ale_word list" where
  "response caller_addr self_addr is_reject =
     (if is_reject then encode_address self_addr TWAS
      else addressed_then_conclusion caller_addr TO self_addr TIS)"

definition ack_frame :: "string \<Rightarrow> string \<Rightarrow> bool \<Rightarrow> ale_word list" where
  "ack_frame peer_addr self_addr no_link =
     (let conclusion_type = (if no_link then TWAS else TIS)
      in addressed_then_conclusion peer_addr TO self_addr conclusion_type)"

definition termination_frame :: "string \<Rightarrow> string \<Rightarrow> ale_word list" where
  "termination_frame peer_addr self_addr =
     (if peer_addr = [] then encode_address self_addr TWAS
      else addressed_then_conclusion peer_addr TO self_addr TWAS)"

definition cmd_word :: "char \<Rightarrow> u32 \<Rightarrow> ale_word" where
  "cmd_word c raw = ALEWord\<lparr>word_type := CMD, raw_payload := raw, address := [c, CHR '' '', CHR '' '', NUL], valid := True\<rparr>"

definition lqa_cmd :: "u32 \<Rightarrow> ale_word list" where
  "lqa_cmd raw_payload24 = [cmd_word (CHR ''a'') (raw_payload24 AND 0x1FFFFF)]"

definition noise_cmd :: "u8 \<Rightarrow> u8 \<Rightarrow> ale_word list" where
  "noise_cmd max_db mean_db =
     (let raw = push_bit 14 0x6E OR push_bit 7 (ucast max_db AND 0x7F) OR (ucast mean_db AND 0x7F)
      in [cmd_word (CHR ''n'') raw])"

definition lqa_report_sequence :: "lqa_report list \<Rightarrow> ale_word list" where
  "lqa_report_sequence rs =
     (if rs = [] then []
      else cmd_word (CHR ''r'') (encode_report_cmd (of_nat (length rs))) #
           map (\<lambda>payload. ALEWord\<lparr>word_type := DATA, raw_payload := payload, valid := True\<rparr>) (pack_reports rs))"

section \<open>Frames as lists of address blocks\<close>

definition blocks :: "(string \<times> preamble_type) list \<Rightarrow> ale_word list" where
  "blocks bs = concat (map (\<lambda>(addr, t). encode_address addr t) bs)"

definition anchors :: "preamble_type set" where
  "anchors = {TO, TIS, TWAS, FROM, THRU}"

definition block_ok :: "string \<times> preamble_type \<Rightarrow> bool" where
  "block_ok = (\<lambda>(addr, t). valid_address addr \<and> t \<in> anchors)"

lemma blocks_simps [simp]:
  "blocks [] = []" "blocks ((addr, t) # bs) = encode_address addr t @ blocks bs"
  "blocks (bs @ cs) = blocks bs @ blocks cs"
  by (simp_all add: blocks_def)

lemma take_5_cases:
  assumes "1 \<le> n" "n \<le> 5"
  shows "take n [t, a, b, c, d] \<in> {[t], [t, a], [t, a, b], [t, a, b, c], [t, a, b, c, d]}"
proof -
  have "n \<in> {1, 2, 3, 4, 5}" using assms by auto
  then show ?thesis by auto
qed

lemma block_types:
  assumes "block_ok (addr, t)"
  obtains "map word_type (encode_address addr t) = [t]"
  | "map word_type (encode_address addr t) = [t, DATA]"
  | "map word_type (encode_address addr t) = [t, DATA, REP]"
  | "map word_type (encode_address addr t) = [t, DATA, REP, DATA]"
  | "map word_type (encode_address addr t) = [t, DATA, REP, DATA, REP]"
proof -
  have l: "1 \<le> length (chunk addr)" "length (chunk addr) \<le> 5" using length_chunk by blast+
  have t: "valid_address addr" "t \<noteq> UNKNOWN" using assms by (auto simp: block_ok_def anchors_def)
  have "map word_type (encode_address addr t) = take (length (chunk addr)) [t, DATA, REP, DATA, REP]"
    by (rule length_5_cases [OF l])
      (use t in \<open>simp_all add: encode_address_chunks EXT_def chunk_word_fields(1)\<close>)
  then show thesis using take_5_cases [OF l, of t DATA REP DATA REP] that by auto
qed

lemma block_typesE:
  assumes "block_ok (addr, t)"
  obtains w where "encode_address addr t = [w]" "word_type w = t"
  | w v where "encode_address addr t = [w, v]" "word_type w = t" "word_type v = DATA"
  | w v u where "encode_address addr t = [w, v, u]" "word_type w = t" "word_type v = DATA" "word_type u = REP"
  | w v u x where "encode_address addr t = [w, v, u, x]" "word_type w = t" "word_type v = DATA"
      "word_type u = REP" "word_type x = DATA"
  | w v u x y where "encode_address addr t = [w, v, u, x, y]" "word_type w = t" "word_type v = DATA"
      "word_type u = REP" "word_type x = DATA" "word_type y = REP"
  using assms by (rule block_types) (auto simp: map_eq_Cons_conv)

lemma section_scan_block:
  assumes "block_ok (addr, t)" "c \<le> 5"
  shows "section_scan c (encode_address addr t @ rest) = section_scan (length (encode_address addr t)) rest"
proof -
  have "t \<in> {TO, TIS, TWAS, FROM, THRU}" using assms(1) by (auto simp: block_ok_def anchors_def)
  then have "section_scan c (w # ws) = section_scan 1 ws" if "word_type w = t" for w ws
    using assms(2) that by auto
  then show ?thesis
    using assms(1) by (elim block_typesE) (simp_all del: length_encode_address)
qed

lemma section_scan_blocks:
  "list_all block_ok bs \<Longrightarrow> c \<le> 5 \<Longrightarrow> section_scan c (blocks bs)"
proof (induction bs arbitrary: c)
  case Nil
  then show ?case by simp
next
  case (Cons b bs)
  obtain addr t where b: "b = (addr, t)" by (cases b)
  show ?case
    using section_scan_block [of addr t c "blocks bs"] Cons b length_chunk [of addr] by auto
qed

lemma neighbours_Cons:
  "neighbours ok (v # xs) \<longleftrightarrow>
     (xs = [] \<or> ok (word_type v) (word_type (hd xs))) \<and> neighbours ok xs"
  by (cases xs) auto

lemma neighbours_append:
  assumes "neighbours ok xs" "neighbours ok ys"
    and "xs \<noteq> [] \<Longrightarrow> ys \<noteq> [] \<Longrightarrow> ok (word_type (last xs)) (word_type (hd ys))"
  shows "neighbours ok (xs @ ys)"
  using assms
proof (induction xs)
  case (Cons v xs)
  then show ?case by (cases "xs = []"; cases "ys = []") (simp_all add: neighbours_Cons)
qed simp

lemma block_first:
  assumes "block_ok (addr, t)"
  shows "encode_address addr t \<noteq> []" "word_type (hd (encode_address addr t)) = t"
  using assms by (auto elim: block_typesE)

lemma neighbours_blocks:
  assumes "list_all block_ok bs" "\<And>p t. t \<in> anchors \<Longrightarrow> ok p t"
    and "\<And>t. t \<in> anchors \<Longrightarrow> ok t DATA" "ok DATA REP" "ok REP DATA"
  shows "neighbours ok (blocks bs)"
  using assms(1)
proof (induction bs)
  case Nil
  then show ?case by simp
next
  case (Cons b bs)
  obtain addr t where b: "b = (addr, t)" by (cases b)
  have t: "block_ok (addr, t)" "t \<in> anchors" using Cons.prems b by (auto simp: block_ok_def)
  have "neighbours ok (encode_address addr t)"
    using t assms(3-5) by (elim block_typesE) auto
  moreover have "blocks bs \<noteq> [] \<Longrightarrow> word_type (hd (blocks bs)) \<in> anchors"
    using Cons.prems block_first by (cases bs) (auto simp: block_ok_def)
  ultimately show ?case
    using Cons assms(2) b by (auto intro!: neighbours_append)
qed

lemma block_set_types:
  "block_ok (addr, t) \<Longrightarrow> word_type ` set (encode_address addr t) \<subseteq> {t, DATA, REP}"
  by (auto elim!: block_typesE)

lemma blocks_set_types:
  "list_all block_ok bs \<Longrightarrow> word_type ` set (blocks bs) \<subseteq> snd ` set bs \<union> {DATA, REP}"
proof (induction bs)
  case (Cons b bs)
  then show ?case using block_set_types [of "fst b" "snd b"] by (cases b) auto
qed simp

lemma blocks_valid: "list_all block_ok bs \<Longrightarrow> list_all valid (blocks bs)"
proof (induction bs)
  case (Cons b bs)
  obtain addr t where b: "b = (addr, t)" by (cases b)
  have "valid_address addr" "t \<noteq> UNKNOWN" using Cons.prems b by (auto simp: block_ok_def anchors_def)
  moreover have "1 \<le> length (chunk addr)" "length (chunk addr) \<le> 5" using length_chunk by blast+
  ultimately have "list_all valid (encode_address addr t)"
    by (elim length_5_cases) (simp_all add: encode_address_chunks EXT_def chunk_word_valid)
  with Cons b show ?case by simp
qed simp

section \<open>The checks on word types alone\<close>

lemma tis_twas_fold:
  "fold (\<lambda>w (a, b). (if word_type w = TIS then True else a, if word_type w = TWAS then True else b)) ws (a, b) =
     (a \<or> TIS \<in> word_type ` set ws, b \<or> TWAS \<in> word_type ` set ws)"
  by (induction ws arbitrary: a b) auto

lemma tis_twas_iff:
  "tis_twas_mutually_exclusive ws \<longleftrightarrow> \<not> (TIS \<in> word_type ` set ws \<and> TWAS \<in> word_type ` set ws)"
  by (simp add: tis_twas_mutually_exclusive_def tis_twas_fold)

lemma from_count_none: "FROM \<notin> word_type ` set ws \<Longrightarrow> from_count_valid ws"
proof -
  have "FROM \<notin> word_type ` set ws \<Longrightarrow>
      fold (\<lambda>w count. if word_type w = FROM then count + 1 else count) ws (n :: int) = n" for n
    by (induction ws arbitrary: n) auto
  then show "FROM \<notin> word_type ` set ws \<Longrightarrow> from_count_valid ws" by (simp add: from_count_valid_def)
qed

lemma from_precedes_none: "FROM \<notin> word_type ` set ws \<Longrightarrow> from_precedes_cmd_only ws"
  by (induction ws) auto

lemma thru_scan_none: "THRU \<notin> word_type ` set ws \<Longrightarrow> thru_scan p ws"
  by (induction ws arbitrary: p) auto

definition accepted :: "ale_word list \<Rightarrow> bool" where
  "accepted ws \<longleftrightarrow> list_all valid ws \<and> address_section_word_count_valid ws \<and> data_not_after_data ws \<and>
     rep_not_preceded_by_self_tis_twas ws \<and> thru_in_scanning_section_only ws \<and>
     tis_twas_mutually_exclusive ws \<and> from_count_valid ws \<and> from_precedes_cmd_only ws"

lemma accepted_blocks:
  assumes "list_all block_ok bs" "snd ` set bs \<subseteq> {TO, e}" "e = TIS \<or> e = TWAS"
  shows "accepted (blocks bs)"
proof -
  have n: "THRU \<notin> word_type ` set (blocks bs)" "FROM \<notin> word_type ` set (blocks bs)"
    "\<not> (TIS \<in> word_type ` set (blocks bs) \<and> TWAS \<in> word_type ` set (blocks bs))"
    using blocks_set_types [OF assms(1)] assms(2,3) by auto
  moreover have "data_not_after_data (blocks bs)" "rep_not_preceded_by_self_tis_twas (blocks bs)"
    unfolding data_not_after_data_def rep_not_preceded_by_self_tis_twas_def
    by (rule neighbours_blocks [OF assms(1)]; auto simp: anchors_def)+
  ultimately show ?thesis
    using section_scan_blocks [OF assms(1), of 0] blocks_valid [OF assms(1)]
    by (simp add: accepted_def address_section_word_count_valid_def thru_in_scanning_section_only_def
        thru_scan_none from_count_none from_precedes_none tis_twas_iff)
qed

section \<open>Individual calls\<close>

lemma chunk_take_3: "addr \<noteq> [] \<Longrightarrow> chunk (take 3 addr) = [hd (chunk addr)]"
  by (cases addr rule: triples.cases) (simp_all add: chunk_triples)

lemma encode_first_block: "addr \<noteq> [] \<Longrightarrow> encode_address (take 3 addr) t = [encode_first addr t]"
  by (simp add: encode_address_def chunk_take_3 encode_first_def)

lemma valid_address_take: "valid_address addr \<Longrightarrow> valid_address (take 3 addr)"
  by (cases addr) (auto simp: valid_address_def list_all_iff dest: in_set_takeD)

lemma scan_count: "unat (c :: u32) < 2 ^ 31 \<Longrightarrow> unat (c * 2) = 2 * unat c"
  by (simp add: unat_word_ariths)

lemma scanning_call_blocks:
  assumes "dest \<noteq> []" "unat c < 2 ^ 31"
  shows "scanning_call dest c = blocks (replicate (2 * unat c) (take 3 dest, TO))"
proof -
  have "blocks (replicate n (take 3 dest, TO)) = replicate n (encode_first dest TO)" for n
    by (induction n) (simp_all add: encode_first_block [OF assms(1)])
  then show ?thesis using assms(2) by (auto simp: scanning_call_def Let_def scan_count)
qed

text \<open>
  The call frame to one station: the scanning section repeats the first word of the address for
  twice the number of scanned channels, the leading call carries the whole address twice, and the
  frame with its conclusion passes every check of the frame validator on address sections,
  extension words, THRU, FROM and the exclusion of TIS and TWAS; so do the response, the
  acknowledgement and the termination frames.
\<close>

theorem call_frames_accepted:
  assumes "valid_address dest" "valid_address self" "unat channels < 2 ^ 31"
  shows "scanning_call dest channels = replicate (2 * unat channels) (encode_first dest TO) \<and>
    reconstruct_to_addresses (leading_call dest) = [dest, dest] \<and>
    accepted (scanning_call dest channels @ leading_call dest @ conclusion self is_reject) \<and>
    accepted (response dest self is_reject) \<and>
    accepted (ack_frame dest self no_link) \<and>
    accepted (termination_frame dest self)"
proof -
  have d: "dest \<noteq> []" using assms(1) by (simp add: valid_address_def)
  have ok: "block_ok (dest, TO)" "block_ok (take 3 dest, TO)" "block_ok (self, TIS)" "block_ok (self, TWAS)"
    using assms valid_address_take by (auto simp: block_ok_def anchors_def)
  have "scanning_call dest channels = replicate (2 * unat channels) (encode_first dest TO)"
    using assms(3) by (auto simp: scanning_call_def Let_def scan_count)
  moreover have "reconstruct_to_addresses (leading_call dest) = [dest, dest]"
    using reconstruct_address [OF assms(1), of TO UNKNOWN "[]" "[]"]
      reconstruct_address [OF assms(1), of TO "after_address TO dest UNKNOWN" dest "[]"] d
    by (simp add: leading_call_def sent_twice_def reconstruct_to_addresses_def)
  moreover have "accepted (scanning_call dest channels @ leading_call dest @ conclusion self is_reject)"
  proof -
    let ?e = "if is_reject then TWAS else TIS"
    let ?bs = "replicate (2 * unat channels) (take 3 dest, TO) @ [(dest, TO), (dest, TO)] @ [(self, ?e)]"
    have "list_all block_ok ?bs" "snd ` set ?bs \<subseteq> {TO, ?e}" using ok by (auto simp: list_all_iff)
    then have "accepted (blocks ?bs)" by (rule accepted_blocks) simp
    then show ?thesis
      by (simp add: scanning_call_blocks [OF d assms(3)] leading_call_def sent_twice_def conclusion_def)
  qed
  moreover have "accepted (response dest self is_reject)"
    using accepted_blocks [of "[(self, TWAS)]" TWAS] accepted_blocks [of "[(dest, TO), (dest, TO), (self, TIS)]" TIS] ok
    by (auto simp: response_def addressed_then_conclusion_def sent_twice_def)
  moreover have "accepted (ack_frame dest self no_link)"
    using accepted_blocks [of "[(dest, TO), (dest, TO), (self, TWAS)]" TWAS]
      accepted_blocks [of "[(dest, TO), (dest, TO), (self, TIS)]" TIS] ok
    by (auto simp: ack_frame_def addressed_then_conclusion_def sent_twice_def)
  moreover have "accepted (termination_frame dest self)"
    using accepted_blocks [of "[(dest, TO), (dest, TO), (self, TWAS)]" TWAS] ok d
    by (auto simp: termination_frame_def addressed_then_conclusion_def sent_twice_def)
  ultimately show ?thesis by blast
qed

theorem call_frames_accepted_witness:
  "scanning_call ''SAMUEL'' 3 = replicate 6 (encode_first ''SAMUEL'' TO) \<and>
   accepted (scanning_call ''SAMUEL'' 3 @ leading_call ''SAMUEL'' @ conclusion ''BOB'' False)"
proof -
  have v: "valid_address ''SAMUEL''" "valid_address ''BOB''"
    by (simp_all add: valid_address_def is_valid_basic38_char_iff)
  from call_frames_accepted [OF this, of 3 False False] show ?thesis by auto
qed

section \<open>Group calls\<close>

text \<open>A first word as the scanning section carries it: a full chunk.\<close>

definition full_chunk :: "string \<Rightarrow> bool" where
  "full_chunk c \<longleftrightarrow> length c = 3 \<and> list_all is_valid_basic38_char c"

lemma chunk_full: "valid_address addr \<Longrightarrow> c \<in> set (chunk addr) \<Longrightarrow> full_chunk c"
proof -
  assume a: "valid_address addr" "c \<in> set (chunk addr)"
  then have "list_all (valid_char TO) c" by (rule chunk_valid)
  then show "full_chunk c" using chunk_length [OF a(2)]
    by (simp add: full_chunk_def valid_char_def uses_basic38_def cong: list.pred_cong)
qed

lemma full_chunk_word:
  assumes "full_chunk c" "t \<noteq> UNKNOWN"
  shows "encode_first c t = ALEWord\<lparr>word_type := t, address := c @ [NUL], raw_payload := encode_ascii c t, valid := True\<rparr>"
proof -
  have "length c = 3" using assms by (simp add: full_chunk_def)
  then obtain x y z where "c = [x, y, z]"
    by (metis (no_types) length_0_conv length_Suc_conv numeral_3_eq_3)
  then have "chunk c = [c]" by (simp add: chunk_triples)
  then show ?thesis
    using assms by (simp add: encode_first_def chunk_word_def full_chunk_def list_all_iff valid_char_any make_word_valid)
qed

lemma first_word_string:
  assumes "valid_address m"
  shows "c_string (address (encode_first m TO)) = hd (chunk m) \<and> full_chunk (hd (chunk m))"
proof -
  have c: "hd (chunk m) \<in> set (chunk m)" using length_chunk [of m] by (cases "chunk m") auto
  have "NUL \<notin> set (hd (chunk m))"
    using chunk_valid [OF assms c, of TO] valid_char_not_NUL [of TO] by (auto simp: list_all_iff)
  then have "c_string (hd (chunk m) @ [NUL]) = hd (chunk m)"
    unfolding c_string_def by (subst takeWhile_append2) auto
  moreover have "address (encode_first m TO) = hd (chunk m) @ [NUL]"
    unfolding encode_first_def by (subst chunk_word_valid [OF assms c]) simp_all
  ultimately show ?thesis using chunk_full [OF assms c] by simp
qed

lemma collect_first_properties:
  assumes "list_all valid_address ms" "list_all full_chunk acc" "distinct acc" "length acc < 5"
  shows "list_all full_chunk (collect_first acc ms) \<and> distinct (collect_first acc ms) \<and>
    length acc \<le> length (collect_first acc ms) \<and> length (collect_first acc ms) \<le> 5 \<and>
    set (collect_first acc ms) \<subseteq> set acc \<union> (\<lambda>m. hd (chunk m)) ` set ms \<and>
    (ms \<noteq> [] \<longrightarrow> collect_first acc ms \<noteq> [])"
  using assms
proof (induction acc ms rule: collect_first.induct)
  case (1 acc)
  then show ?case by simp
next
  case (2 acc m ms)
  define fw where "fw = hd (chunk m)"
  have f: "c_string (address (encode_first m TO)) = fw" "full_chunk fw"
    using first_word_string [of m] "2.prems"(1) by (auto simp: fw_def)
  define acc' where "acc' = (if fw \<in> set acc then acc else acc @ [fw])"
  have a: "list_all full_chunk acc'" "distinct acc'" "length acc \<le> length acc'" "length acc' \<le> 5" "acc' \<noteq> []"
    "set acc' \<subseteq> set acc \<union> {fw}"
    using "2.prems" f(2) by (auto simp: acc'_def)
  have step: "collect_first acc (m # ms) = (if length acc' = 5 then acc' else collect_first acc' ms)"
    by (simp add: f(1) acc'_def Let_def)
  show ?case
  proof (cases "length acc' = 5")
    case True
    then show ?thesis using a unfolding step by (auto simp: fw_def)
  next
    case False
    then have "list_all full_chunk (collect_first acc' ms) \<and> distinct (collect_first acc' ms) \<and>
        length acc' \<le> length (collect_first acc' ms) \<and> length (collect_first acc' ms) \<le> 5 \<and>
        set (collect_first acc' ms) \<subseteq> set acc' \<union> (\<lambda>m. hd (chunk m)) ` set ms"
      using "2.IH" [OF f(1) [symmetric] acc'_def] "2.prems" a by simp
    then show ?thesis using a False unfolding step by (auto simp: fw_def)
  qed
qed

lemma alternate_scan_pairs:
  "even (length ws) \<Longrightarrow> (\<And>i. i < length ws \<Longrightarrow> word_type (ws ! i) = (if even i then THRU else REP)) \<Longrightarrow>
   alternate_scan True ws"
proof (induction ws rule: induct_list012)
  case (3 v w ws)
  have "word_type v = THRU" "word_type w = REP" using "3.prems"(2) [of 0] "3.prems"(2) [of 1] by auto
  moreover have "word_type (ws ! i) = (if even i then THRU else REP)" if "i < length ws" for i
    using "3.prems"(2) [of "Suc (Suc i)"] that by simp
  then have "alternate_scan True ws" using "3.prems"(1) by (intro "3.IH"(1)) auto
  ultimately show ?case by simp
qed auto

lemma target_scan_bounded:
  assumes "distinct seen" "set seen \<union> (\<lambda>w. take 3 (address w)) ` set ws \<subseteq> U" "finite U" "card U \<le> 5"
  shows "target_scan seen ws"
  using assms(1,2)
proof (induction ws arbitrary: seen)
  case Nil
  then show ?case by simp
next
  case (Cons w ws)
  let ?a = "take 3 (address w)"
  show ?case
  proof (cases "word_type w = THRU \<and> ?a \<notin> set seen")
    case True
    have "insert ?a (set seen) \<subseteq> U" using Cons.prems by auto
    then have "card (insert ?a (set seen)) \<le> 5"
      by (rule order_trans [OF card_mono [OF assms(3)] assms(4)])
    then have "length seen < 5" using True Cons.prems(1) by (simp add: distinct_card)
    have d: "distinct (seen @ [?a])" using True Cons.prems(1) by simp
    have s: "set (seen @ [?a]) \<union> (\<lambda>w. take 3 (address w)) ` set ws \<subseteq> U" using Cons.prems(2) by simp
    have "target_scan (seen @ [?a]) ws" by (rule Cons.IH [OF d s])
    with \<open>length seen < 5\<close> show ?thesis using True by (simp add: Let_def)
  next
    case False
    have "set seen \<union> (\<lambda>w. take 3 (address w)) ` set ws \<subseteq> U" using Cons.prems(2) by simp
    then have "target_scan seen ws" by (rule Cons.IH [OF Cons.prems(1)])
    with False show ?thesis by (auto simp: Let_def)
  qed
qed

text \<open>
  The scanning section of a group call: as long as an individual one, made of at most five
  different first words of the members, in THRU and REP pairs (plain TO words when only one first word
  is left), which the validator's group checks accept.
\<close>

theorem scanning_group_accepted:
  assumes "list_all valid_address members" "members \<noteq> []" "unat channels < 2 ^ 31"
  shows "length (scanning_call_group members channels) = 2 * unat channels \<and>
    set (map (\<lambda>w. take 3 (address w)) (scanning_call_group members channels)) \<subseteq> set (map (\<lambda>m. hd (chunk m)) members) \<and>
    thru_rep_alternates (scanning_call_group members channels) \<and>
    group_call_target_count_valid (scanning_call_group members channels) \<and>
    list_all valid (scanning_call_group members channels)"
proof -
  let ?ws = "scanning_call_group members channels"
  define u where "u = collect_first [] members"
  have u: "list_all full_chunk u" "distinct u" "length u \<le> 5" "u \<noteq> []" "set u \<subseteq> (\<lambda>m. hd (chunk m)) ` set members"
    using collect_first_properties [of members "[]"] assms(1,2) by (auto simp: u_def)
  have n: "unat (channels * 2) = 2 * unat channels" using assms(3) by (rule scan_count)
  define g where "g = (\<lambda>i :: nat. if length u = 1 then TO else if even i then THRU else REP)"
  have words: "?ws = map (\<lambda>i. encode_first (u ! (i mod length u)) (g i)) [0..<2 * unat channels]"
  proof (cases "channels = 0")
    case True
    then show ?thesis by (simp add: scanning_call_group_def)
  next
    case False
    show ?thesis
    proof (cases "length u = 1")
      case True
      then have "hd u = u ! 0" using u(4) by (simp add: hd_conv_nth)
      then show ?thesis
        using True False assms(2) n
        by (simp add: scanning_call_group_def u_def [symmetric] scanning_call_def g_def map_replicate_const)
    next
      case len: False
      then show ?thesis
        using False assms(2) n
        by (simp add: scanning_call_group_def u_def [symmetric] g_def Let_def even_iff_mod_2_eq_zero)
    qed
  qed
  have c: "u ! (i mod length u) \<in> set u" "full_chunk (u ! (i mod length u))" for i
    using u(1,4) by (auto simp: list_all_length)
  have f: "encode_first (u ! (i mod length u)) (g i) =
      ALEWord\<lparr>word_type := g i, address := u ! (i mod length u) @ [NUL],
        raw_payload := encode_ascii (u ! (i mod length u)) (g i), valid := True\<rparr>" for i
    by (rule full_chunk_word [OF c(2)]) (simp add: g_def)
  have l: "length (u ! (i mod length u)) = 3" for i using c(2) [of i] by (simp add: full_chunk_def)
  have addrs: "(\<lambda>w. take 3 (address w)) ` set ?ws \<subseteq> set u"
    using c(1) l by (auto simp: words f)
  have "thru_rep_alternates ?ws"
  proof (cases "length u = 1")
    case True
    have "\<forall>w \<in> set ws. word_type w \<noteq> THRU \<and> word_type w \<noteq> REP \<Longrightarrow> alternate_scan True ws" for ws
      by (induction ws) auto
    moreover have "\<forall>w \<in> set ?ws. word_type w = TO" unfolding words
      using True u(1,4) by (auto simp: g_def full_chunk_word list_all_length)
    ultimately show ?thesis by (simp add: thru_rep_alternates_def)
  next
    case False
    then show ?thesis unfolding thru_rep_alternates_def
      by (intro alternate_scan_pairs) (simp_all add: words g_def full_chunk_word c(2))
  qed
  moreover have "group_call_target_count_valid ?ws"
    unfolding group_call_target_count_valid_def
    by (rule target_scan_bounded [where U = "set u"]) (use addrs u in \<open>auto simp: distinct_card\<close>)
  moreover have "list_all valid ?ws" by (auto simp: words f list_all_iff)
  ultimately show ?thesis using addrs u(5) by (simp add: words) blast
qed

theorem scanning_group_accepted_witness:
  "length (scanning_call_group [''BOB'', ''EDGAR'', ''SAM''] 3) = 6 \<and>
   thru_rep_alternates (scanning_call_group [''BOB'', ''EDGAR'', ''SAM''] 3)"
proof -
  have "list_all valid_address [''BOB'', ''EDGAR'', ''SAM'']"
    by (simp add: valid_address_def is_valid_basic38_char_iff)
  from scanning_group_accepted [OF this, of 3] show ?thesis by auto
qed

text \<open>
  Three members with addresses of one word each make the leading group call repeat REP directly
  after REP, which the frame validator (AC-WORD-010-6) refuses, although the receiver reconstructs the
  addresses.
\<close>

theorem group_call_rep_after_rep:
  assumes "list_all valid_address [a, b, c]" "length a \<le> 3" "length b \<le> 3" "length c \<le> 3"
  shows "map word_type (encode_group [a, b, c] TO) = [TO, REP, REP] \<and>
    \<not> rep_not_preceded_by_self_tis_twas (leading_call_group [a, b, c]) \<and>
    reconstruct_to_addresses (encode_group [a, b, c] TO) = [a, b, c]"
proof -
  have one: "length (chunk x) = 1" "encode_address x t = [chunk_word t (hd (chunk x))]"
    "t \<noteq> UNKNOWN \<Longrightarrow> word_type (chunk_word t (hd (chunk x))) = t"
    if "valid_address x" "length x \<le> 3" for x t
  proof -
    show l: "length (chunk x) = 1"
      using that by (cases x rule: triples.cases) (auto simp: valid_address_def chunk_triples)
    then obtain y where y: "chunk x = [y]" by (metis One_nat_def length_0_conv length_Suc_conv)
    then show "encode_address x t = [chunk_word t (hd (chunk x))]" by (simp add: encode_address_def)
    show "t \<noteq> UNKNOWN \<Longrightarrow> word_type (chunk_word t (hd (chunk x))) = t"
      using chunk_word_fields(1) [OF that(1), of y t] y by simp
  qed
  have "map word_type (encode_group [a, b, c] TO) = [TO, REP, REP]"
    using assms
    by (simp add: encode_group_def upt_rec group_address_eq Let_def after_address_def one)
  moreover from this obtain x y z where "encode_group [a, b, c] TO = [x, y, z]"
    "word_type x = TO" "word_type y = REP" "word_type z = REP"
    by (auto simp: map_eq_Cons_conv)
  ultimately show ?thesis
    using reconstruct_group [OF assms(1)]
    by (simp add: leading_call_group_def sent_twice_def rep_not_preceded_by_self_tis_twas_def)
qed

theorem group_call_rep_after_rep_witness:
  "\<not> rep_not_preceded_by_self_tis_twas (leading_call_group [''BOB'', ''SAM'', ''TOM''])"
  using group_call_rep_after_rep [of "''BOB''" "''SAM''" "''TOM''"]
  by (simp add: valid_address_def is_valid_basic38_char_iff)

end
