(* ===== verification/Orderwire.thy ===== *)
theory Orderwire
  imports Address_Encoder
begin

text \<open>
  \<open>src/Protocol/Message/ale_orderwire_protocols.cpp\<close>: the AMD, DTM and DBM encoders. The three
  encoders share one loop over triplets of the input (\<open>triplet_loop\<close>); they differ in how a character
  is cleaned, what pads the last triplet and how a word is built from its position and its triplet.
\<close>

unbundle bit_operations_syntax

section \<open>The loop over triplets\<close>

definition triplet :: "('a \<Rightarrow> 'a) \<Rightarrow> 'a \<Rightarrow> 'a list \<Rightarrow> nat \<Rightarrow> nat \<Rightarrow> 'a list" where
  "triplet clean pad xs n i = map (\<lambda>j. if i + j < n then clean (xs ! (i + j)) else pad) [0, 1, 2]"

function triplet_loop ::
  "(nat \<Rightarrow> 'a list \<Rightarrow> ale_word) \<Rightarrow> ('a \<Rightarrow> 'a) \<Rightarrow> 'a \<Rightarrow> 'a list \<Rightarrow> nat \<Rightarrow> nat \<Rightarrow> ale_word list \<Rightarrow> ale_word list" where
  "triplet_loop word clean pad xs n i ws =
     (if i < n
      then triplet_loop word clean pad xs n (i + 3) (ws @ [word (length ws) (triplet clean pad xs n i)])
      else ws)"
  by pat_completeness auto
termination
  by (relation "measure (\<lambda>(word, clean, pad, xs, n, i, ws). n - i)") auto

declare triplet_loop.simps [simp del]

definition alternating :: "nat \<Rightarrow> preamble_type" where
  "alternating sz = (if sz mod 2 = 1 then DATA else REP)"

definition text_char :: "char \<Rightarrow> char" where
  "text_char ch = (if 0x20 \<le> (of_char ch :: nat) \<and> (of_char ch :: nat) \<le> 0x5F then ch else CHR ''?'')"

section \<open>Automatic message display\<close>

definition make_cmd_amd_word :: "string \<Rightarrow> ale_word" where
  "make_cmd_amd_word chars =
     (let payload = encode_ascii chars DATA
      in if payload = 0xFFFFFFFF then ALEWord
         else ALEWord\<lparr>word_type := CMD, raw_payload := payload,
                address := [chars ! 0, chars ! 1, chars ! 2, NUL], valid := True\<rparr>)"

definition amd_word :: "nat \<Rightarrow> string \<Rightarrow> ale_word" where
  "amd_word sz c = (if sz = 0 then make_cmd_amd_word c else make_word (alternating sz) c)"

definition encode_amd :: "string \<Rightarrow> ale_word list" where
  "encode_amd txt =
     (let n = min (length txt) 90
      in if n = 0 then [] else triplet_loop amd_word text_char (CHR '' '') txt n 0 [])"

section \<open>Data text message\<close>

definition crc_bit :: "u16 \<Rightarrow> u16" where
  "crc_bit crc = (if crc AND 0x8000 \<noteq> 0 then push_bit 1 crc XOR 0x1021 else push_bit 1 crc)"

definition crc_byte :: "u8 \<Rightarrow> u16 \<Rightarrow> u16" where
  "crc_byte b crc = (crc_bit ^^ 8) (crc XOR push_bit 8 (ucast b))"

definition compute_dtm_crc :: "string \<Rightarrow> nat \<Rightarrow> u16" where
  "compute_dtm_crc data len = fold (\<lambda>ch. crc_byte (of_char ch)) (take len data) 0xFFFF"

definition dtm_word :: "nat \<Rightarrow> string \<Rightarrow> ale_word" where
  "dtm_word sz c = make_word (alternating sz) c"

definition crc_chars :: "u16 \<Rightarrow> string" where
  "crc_chars crc =
     [char_of (0x20 + unat (crc AND 0x3F)),
      char_of (0x20 + unat (drop_bit 6 crc AND 0x3F)),
      char_of (0x20 + unat (drop_bit 12 crc AND 0x0F))]"

definition encode_dtm :: "string \<Rightarrow> bool \<Rightarrow> ale_word list" where
  "encode_dtm txt crc_enabled =
     (let n = min (length txt) 90;
          ws = triplet_loop dtm_word text_char (CHR '' '') txt n 0 [make_word CMD ''DTM'']
      in if crc_enabled
         then ws @ [make_word (alternating (length ws)) (crc_chars (compute_dtm_crc txt n))]
         else ws)"

section \<open>Data block message\<close>

definition make_dbm_data_word :: "preamble_type \<Rightarrow> u8 list \<Rightarrow> ale_word" where
  "make_dbm_data_word pt bytes =
     (let b0 = ucast (bytes ! 0) AND 0x7F; b1 = ucast (bytes ! 1) AND 0x7F; b2 = ucast (bytes ! 2) AND 0x7F
      in ALEWord\<lparr>word_type := pt, raw_payload := push_bit 14 b0 OR push_bit 7 b1 OR b2,
           address := [char_of (unat b0), char_of (unat b1), char_of (unat b2), NUL], valid := True\<rparr>)"

definition compute_dbm_crc :: "u8 list \<Rightarrow> u16" where
  "compute_dbm_crc data = fold crc_byte data 0xFFFF"

definition dbm_word :: "nat \<Rightarrow> u8 list \<Rightarrow> ale_word" where
  "dbm_word sz c = make_dbm_data_word (alternating sz) c"

definition encode_dbm :: "u8 list \<Rightarrow> bool \<Rightarrow> ale_word list" where
  "encode_dbm data crc_enabled =
     (let ws = triplet_loop dbm_word (\<lambda>b. b) 0 data (length data) 0 [make_word CMD ''DBM'']
      in if crc_enabled
         then ws @ [make_dbm_data_word (alternating (length ws))
                [ucast (drop_bit 8 (compute_dbm_crc data)), ucast (compute_dbm_crc data AND 0xFF), 0]]
         else ws)"

section \<open>The loop and its triplets\<close>

lemma triplet_loop_map:
  "triplet_loop word clean pad xs n i ws =
     ws @ map (\<lambda>k. word (length ws + k) (triplet clean pad xs n (i + 3 * k))) [0..<(n - i + 2) div 3]"
proof (induction word clean pad xs n i ws rule: triplet_loop.induct)
  case (1 word clean pad xs n i ws)
  show ?case
  proof (cases "i < n")
    case True
    then have m: "(n - i + 2) div 3 = Suc ((n - (i + 3) + 2) div 3)" by arith
    have "triplet_loop word clean pad xs n i ws =
        triplet_loop word clean pad xs n (i + 3) (ws @ [word (length ws) (triplet clean pad xs n i)])"
      using True by (simp add: triplet_loop.simps [of word clean pad xs n i ws])
    also have "\<dots> = ws @ word (length ws) (triplet clean pad xs n i) #
        map (\<lambda>k. word (length ws + Suc k) (triplet clean pad xs n (i + 3 * Suc k)))
          [0..<(n - (i + 3) + 2) div 3]"
      by (subst "1.IH" [OF True]) (simp add: algebra_simps)
    also have "\<dots> = ws @ map (\<lambda>k. word (length ws + k) (triplet clean pad xs n (i + 3 * k)))
        [0..<(n - i + 2) div 3]"
      unfolding m map_upt_Suc by simp
    finally show ?thesis .
  next
    case False
    then show ?thesis by (simp add: triplet_loop.simps [of word clean pad xs n i ws])
  qed
qed

lemma concat_triples_upt: "concat (map (\<lambda>k. map g [3 * k, 3 * k + 1, 3 * k + 2]) [0..<m]) = map g [0..<3 * m]"
  by (induction m) (simp_all add: algebra_simps numeral_eq_Suc)

lemma concat_triplets:
  assumes "n \<le> length xs"
  shows "concat (map (\<lambda>k. triplet clean pad xs n (3 * k)) [0..<(n + 2) div 3]) =
    map clean (take n xs) @ replicate (3 * ((n + 2) div 3) - n) pad"
proof -
  let ?m = "(n + 2) div 3"
  have split: "[0..<3 * ?m] = [0..<n] @ [n..<3 * ?m]"
    using upt_add_eq_append [of 0 n "3 * ?m - n"] by (simp add: le_add_diff_inverse)
  have "concat (map (\<lambda>k. triplet clean pad xs n (3 * k)) [0..<?m]) =
      map (\<lambda>k. if k < n then clean (xs ! k) else pad) [0..<3 * ?m]"
    unfolding concat_triples_upt [symmetric] by (simp only: triplet_def list.map add_0_right)
  also have "\<dots> = map (\<lambda>k. clean (xs ! k)) [0..<n] @ replicate (3 * ?m - n) pad"
  proof -
    have "map (\<lambda>k. if k < n then clean (xs ! k) else pad) [n..<3 * ?m] = map (\<lambda>_. pad) [n..<3 * ?m]"
      by (intro map_cong) auto
    then show ?thesis unfolding split by (simp add: map_replicate_const)
  qed
  also have "map (\<lambda>k. clean (xs ! k)) [0..<n] = map clean (take n xs)"
    using assms by (intro nth_equalityI) simp_all
  finally show ?thesis .
qed

lemma length_triplet [simp]: "length (triplet clean pad xs n i) = 3"
  by (simp add: triplet_def)

section \<open>What the words carry\<close>

lemma text_char_valid: "valid_char DATA (text_char c)" "valid_char REP (text_char c)"
  by (simp_all add: text_char_def valid_char_def uses_basic38_def is_valid_expanded64_char_iff)

lemma decode_cmd_encode:
  assumes "list_all (valid_char DATA) [a, b, c]"
  shows "decode_ascii (encode_ascii [a, b, c] DATA) CMD = (True, [a, b, c, NUL])"
proof -
  have "decode_ascii (encode_ascii [a, b, c] DATA) DATA = (True, [a, b, c, NUL])"
    using assms by (rule decode_encode_ascii)
  then show ?thesis by (simp add: decode_ascii_def Let_def split: if_splits)
qed

text \<open>The characters a receiver reads from the payload of a word, and from a whole message.\<close>

definition received_chars :: "ale_word \<Rightarrow> string" where
  "received_chars w = take 3 (snd (decode_ascii (raw_payload w) (word_type w)))"

definition received_text :: "ale_word list \<Rightarrow> string" where
  "received_text ws = concat (map received_chars ws)"

lemma three_chars: "length cs = 3 \<Longrightarrow> \<exists>a b c. cs = [a, b, c]"
  by (metis (no_types) length_0_conv length_Suc_conv numeral_3_eq_3)

lemma text_word:
  assumes "length cs = 3" "list_all (valid_char DATA) cs"
  shows "word_type (make_word (alternating k) cs) = alternating k \<and> valid (make_word (alternating k) cs) \<and>
    received_chars (make_word (alternating k) cs) = cs"
proof -
  obtain a b c where cs: "cs = [a, b, c]" using three_chars [OF assms(1)] by blast
  have v: "list_all (valid_char (alternating k)) cs"
    using assms(2) by (simp add: alternating_def valid_char_def uses_basic38_def)
  moreover have "alternating k \<noteq> UNKNOWN" by (simp add: alternating_def)
  ultimately show ?thesis
    using decode_encode_ascii [of "alternating k" a b c]
    by (simp add: make_word_eq received_chars_def cs)
qed

lemma cmd_amd_word:
  assumes "length cs = 3" "list_all (valid_char DATA) cs"
  shows "word_type (make_cmd_amd_word cs) = CMD \<and> valid (make_cmd_amd_word cs) \<and>
    received_chars (make_cmd_amd_word cs) = cs"
proof -
  obtain a b c where cs: "cs = [a, b, c]" using three_chars [OF assms(1)] by blast
  then show ?thesis
    using assms(2) encode_ascii_masked(2) [of DATA a b c] decode_cmd_encode [of a b c]
    by (simp add: make_cmd_amd_word_def received_chars_def)
qed

lemma triplet_text_valid: "list_all (valid_char DATA) (triplet text_char (CHR '' '') txt n i)"
proof -
  have "valid_char DATA (CHR '' '')"
    by (simp add: valid_char_def uses_basic38_def is_valid_expanded64_char_iff)
  then show ?thesis by (simp add: triplet_def text_char_valid)
qed

lemma amd_word_properties:
  "word_type (amd_word k (triplet text_char (CHR '' '') txt n i)) = (if k = 0 then CMD else alternating k) \<and>
   valid (amd_word k (triplet text_char (CHR '' '') txt n i)) \<and>
   received_chars (amd_word k (triplet text_char (CHR '' '') txt n i)) = triplet text_char (CHR '' '') txt n i"
  unfolding amd_word_def by (simp add: cmd_amd_word text_word triplet_text_valid)

lemma encode_amd_map:
  "encode_amd txt =
     map (\<lambda>k. amd_word k (triplet text_char (CHR '' '') txt (min (length txt) 90) (3 * k)))
       [0..<(min (length txt) 90 + 2) div 3]"
  by (auto simp: encode_amd_def triplet_loop_map Let_def)

text \<open>
  Automatic message display: at most 30 words, one per three characters; the first is a command
  word and the others alternate between DATA and REP; all are valid, and the characters a receiver
  decodes from their payloads are the first 90 characters of the text (every character outside the
  Expanded 64 set as a question mark), padded with blanks to full words.
\<close>

theorem encode_amd_received:
  "length (encode_amd txt) = (min (length txt) 90 + 2) div 3 \<and> length (encode_amd txt) \<le> 30 \<and>
   map word_type (encode_amd txt) =
     map (\<lambda>k. if k = 0 then CMD else alternating k) [0..<length (encode_amd txt)] \<and>
   list_all valid (encode_amd txt) \<and>
   received_text (encode_amd txt) =
     map text_char (take 90 txt) @ replicate (3 * length (encode_amd txt) - min (length txt) 90) (CHR '' '')"
proof -
  have "(min (length txt) 90 + 2) div 3 \<le> 30" by arith
  moreover have r: "received_text (encode_amd txt) =
      concat (map (\<lambda>k. triplet text_char (CHR '' '') txt (min (length txt) 90) (3 * k))
        [0..<(min (length txt) 90 + 2) div 3])"
    by (simp add: received_text_def encode_amd_map amd_word_properties comp_def)
  moreover have "received_text (encode_amd txt) = map text_char (take 90 txt) @
      replicate (3 * ((min (length txt) 90 + 2) div 3) - min (length txt) 90) (CHR '' '')"
    unfolding r by (subst concat_triplets) (simp_all add: min_def)
  ultimately show ?thesis
    by (simp add: encode_amd_map amd_word_properties list_all_iff)
qed

definition crc_of_chars :: "string \<Rightarrow> u16" where
  "crc_of_chars cs =
     of_nat (of_char (cs ! 0) - 0x20) OR push_bit 6 (of_nat (of_char (cs ! 1) - 0x20)) OR
     push_bit 12 (of_nat (of_char (cs ! 2) - 0x20))"

lemma crc_of_crc_chars: "crc_of_chars (crc_chars crc) = crc"
proof -
  have m: "unat (crc AND 0x3F) < 64" "unat (drop_bit 6 crc AND 0x3F) < 64" "unat (drop_bit 12 crc AND 0x0F) < 16"
    using unat_and_mask_less [of crc 6] unat_and_mask_less [of "drop_bit 6 crc" 6]
      unat_and_mask_less [of "drop_bit 12 crc" 4]
    by (simp_all add: mask_eq_decr_exp)
  have "crc = (crc AND mask 6) OR push_bit 6 (drop_bit 6 crc AND mask 6) OR push_bit 12 (drop_bit 12 crc AND mask 4)"
  proof (rule bit_word_eqI)
    fix n
    show "bit crc n = bit ((crc AND mask 6) OR push_bit 6 (drop_bit 6 crc AND mask 6) OR
        push_bit 12 (drop_bit 12 crc AND mask 4)) n"
      by (cases "n < 6"; cases "n < 12")
        (auto simp: bit_or_iff bit_and_iff bit_mask_iff bit_push_bit_iff bit_drop_bit_eq
          dest: bit_imp_le_length)
  qed
  moreover have "crc_of_chars (crc_chars crc) =
      (crc AND 0x3F) OR push_bit 6 (drop_bit 6 crc AND 0x3F) OR push_bit 12 (drop_bit 12 crc AND 0x0F)"
    using m by (simp add: crc_of_chars_def crc_chars_def)
  ultimately show ?thesis by (simp add: mask_eq_decr_exp)
qed

lemma crc_chars_valid: "list_all (valid_char DATA) (crc_chars crc)" "length (crc_chars crc) = 3"
proof -
  have m: "unat (crc AND 0x3F) < 64" "unat (drop_bit 6 crc AND 0x3F) < 64" "unat (drop_bit 12 crc AND 0x0F) < 16"
    using unat_and_mask_less [of crc 6] unat_and_mask_less [of "drop_bit 6 crc" 6]
      unat_and_mask_less [of "drop_bit 12 crc" 4]
    by (simp_all add: mask_eq_decr_exp)
  then show "list_all (valid_char DATA) (crc_chars crc)"
    by (simp add: crc_chars_def valid_char_def uses_basic38_def is_valid_expanded64_char_iff)
qed (simp add: crc_chars_def)

text \<open>
  Data text message with checksum: at most 32 words, a command word first; the last word is valid and
  the receiver recovers from its three characters the 16-bit checksum over the text as it was given.
\<close>

theorem encode_dtm_checksum:
  "length (encode_dtm txt True) = (min (length txt) 90 + 2) div 3 + 2 \<and>
   word_type (hd (encode_dtm txt True)) = CMD \<and> valid (last (encode_dtm txt True)) \<and>
   crc_of_chars (received_chars (last (encode_dtm txt True))) = compute_dtm_crc txt (min (length txt) 90)"
proof -
  have "make_word CMD ''DTM'' = ALEWord\<lparr>word_type := CMD, address := ''DTM'' @ [NUL],
      raw_payload := encode_ascii ''DTM'' CMD, valid := True\<rparr>"
    by (simp add: make_word_eq valid_char_def uses_basic38_def is_valid_basic38_char_iff)
  then show ?thesis
    by (simp add: encode_dtm_def triplet_loop_map Let_def text_word crc_chars_valid crc_of_crc_chars)
qed

lemma dbm_word_masked:
  assumes "length bytes = 3"
  shows "make_dbm_data_word pt (map (\<lambda>b. b AND 0x7F) bytes) = make_dbm_data_word pt bytes"
proof -
  have "(ucast (b AND 0x7F) :: u32) AND 0x7F = ucast b AND 0x7F" for b :: u8
    by (rule bit_eqI) (auto simp: mask_7 bit_and_iff bit_mask_iff bit_ucast_iff)
  then have "ucast (map (\<lambda>b. b AND 0x7F) bytes ! j) AND 0x7F = (ucast (bytes ! j) AND 0x7F :: u32)" if "j < 3" for j
    using that assms by (simp only: nth_map)
  then show ?thesis unfolding make_dbm_data_word_def by simp
qed

lemma eight_times: "(f ^^ 8) x = f (f (f (f (f (f (f (f x)))))))"
  by (simp add: numeral_eq_Suc)

text \<open>
  Data block messages are not transparent: blocks that differ only in the top bits of their bytes
  are sent as the same words, although the checksum tells them apart.
\<close>

theorem encode_dbm_drops_top_bits:
  "encode_dbm (map (\<lambda>b. b AND 0x7F) data) False = encode_dbm data False \<and>
   compute_dbm_crc [0x80] \<noteq> compute_dbm_crc [0x00]"
proof
  have "make_dbm_data_word pt (triplet (\<lambda>b. b) 0 (map (\<lambda>b. b AND 0x7F) data) (length data) i) =
      make_dbm_data_word pt (triplet (\<lambda>b. b) 0 data (length data) i)" for pt i
  proof -
    have "triplet (\<lambda>b. b) 0 (map (\<lambda>b. b AND 0x7F) data) (length data) i =
        map (\<lambda>b. b AND 0x7F) (triplet (\<lambda>b. b) 0 data (length data) i)"
      by (simp add: triplet_def)
    then show ?thesis by (simp only: dbm_word_masked length_triplet)
  qed
  then show "encode_dbm (map (\<lambda>b. b AND 0x7F) data) False = encode_dbm data False"
    by (simp add: encode_dbm_def triplet_loop_map dbm_word_def)
  show "compute_dbm_crc [0x80] \<noteq> compute_dbm_crc [0x00]"
    by (simp add: compute_dbm_crc_def crc_byte_def crc_bit_def eight_times)
qed

end
