(* ===== verification/Ale_Message.thy ===== *)
theory Ale_Message
  imports Ale_Sequence Orderwire
begin

text \<open>
  \<open>src/Protocol/Message/ale_message.cpp\<close>: the assembler that collects received words into a message,
  and the call type detector. A \<open>std::vector\<close> is a list, the output parameter of \<open>get_message\<close> is an
  option. \<open>trim_ale_address\<close> is the helper of \<open>include/Word/address_encoder.h\<close>.
\<close>

section \<open>Messages\<close>

datatype call_type =
  INDIVIDUAL | NET | GROUP | ALL_CALL | SOUNDING_CALL | AMD | INDIVIDUAL_ACK | NET_ACK | UNKNOWN_CALL

record ale_message =
  msg_call_type :: call_type
  to_addresses :: "string list"
  from_address :: string
  data_content :: "string list"
  msg_words :: "ale_word list"
  start_time_ms :: u32
  duration_ms :: u32
  msg_complete :: bool

definition ALEMessage :: ale_message where
  "ALEMessage = \<lparr>msg_call_type = UNKNOWN_CALL, to_addresses = [], from_address = '''', data_content = [],
     msg_words = [], start_time_ms = 0, duration_ms = 0, msg_complete = False\<rparr>"

fun rstrip :: "(char \<Rightarrow> bool) \<Rightarrow> string \<Rightarrow> string" where
  "rstrip p s = rev (dropWhile p (rev s))"

definition trim_ale_address :: "string \<Rightarrow> string" where
  "trim_ale_address raw = rstrip (\<lambda>c. c = CHR '' '' \<or> c = CHR ''@'') (take 3 raw)"

section \<open>The call type detector\<close>

definition has_type :: "preamble_type \<Rightarrow> ale_word list \<Rightarrow> bool" where
  "has_type t ws = list_ex (\<lambda>w. word_type w = t) ws"

definition is_individual_call :: "ale_word list \<Rightarrow> bool" where
  "is_individual_call ws =
     (has_type TO ws \<and> (has_type TIS ws \<or> has_type FROM ws) \<and> \<not> has_type TWAS ws)"

definition is_net_call :: "ale_word list \<Rightarrow> bool" where
  "is_net_call ws = False"

definition is_sounding :: "ale_word list \<Rightarrow> bool" where
  "is_sounding ws =
     (has_type TIS ws \<and> \<not> has_type TO ws \<and> \<not> has_type FROM ws \<and> \<not> has_type TWAS ws)"

definition is_amd :: "ale_word list \<Rightarrow> bool" where
  "is_amd ws = (has_type TO ws \<and> (has_type TIS ws \<or> has_type FROM ws) \<and> has_type CMD ws)"

definition detect :: "ale_word list \<Rightarrow> call_type" where
  "detect ws =
     (if ws = [] then UNKNOWN_CALL
      else if is_sounding ws then SOUNDING_CALL
      else if is_amd ws then AMD
      else if is_individual_call ws then INDIVIDUAL
      else UNKNOWN_CALL)"

section \<open>The assembler\<close>

record message_assembler =
  current_words :: "ale_word list"
  current_message :: ale_message
  active :: bool
  asm_last_word_time_ms :: u32
  word_timeout_ms :: u32

definition MessageAssembler :: message_assembler where
  "MessageAssembler = \<lparr>current_words = [], current_message = ALEMessage, active = False,
     asm_last_word_time_ms = 0, word_timeout_ms = 5000\<rparr>"

definition assembler_reset :: "message_assembler \<Rightarrow> message_assembler" where
  "assembler_reset m =
     m\<lparr>current_words := [], current_message := ALEMessage, active := False, asm_last_word_time_ms := 0\<rparr>"

definition is_sequence_complete :: "ale_word list \<Rightarrow> bool" where
  "is_sequence_complete ws =
     (if ws = [] then False else list_ex (\<lambda>w. word_type w = TIS \<or> word_type w = TWAS) ws)"

text \<open>The lambda \<open>add_dest\<close>: a longer address replaces its prefix, a prefix is not added.\<close>

fun add_dest_loop :: "string \<Rightarrow> string list \<Rightarrow> string list" where
  "add_dest_loop a [] = [a]"
| "add_dest_loop a (ex # exs) =
     (if length ex \<le> length a \<and> take (length ex) a = ex then a # exs
      else if length a < length ex \<and> take (length a) ex = a then ex # exs
      else ex # add_dest_loop a exs)"

definition add_dest :: "string \<Rightarrow> ale_message \<Rightarrow> ale_message" where
  "add_dest a msg = (if a = [] then msg else msg\<lparr>to_addresses := add_dest_loop a (to_addresses msg)\<rparr>)"

datatype address_ctx = NO_CTX | DEST | SRC

record extraction =
  ctx :: address_ctx
  current_addr :: string
  orphan_data :: string
  past_any_preamble :: bool
  out_msg :: ale_message

definition finalize_current :: "extraction \<Rightarrow> extraction" where
  "finalize_current e =
     (let e = (if ctx e = DEST then e\<lparr>out_msg := add_dest (current_addr e) (out_msg e)\<rparr>
               else if ctx e = SRC \<and> current_addr e \<noteq> []
               then e\<lparr>out_msg := (out_msg e)\<lparr>from_address := current_addr e\<rparr>\<rparr>
               else e)
      in e\<lparr>current_addr := []\<rparr>)"

definition extract_word :: "ale_word \<Rightarrow> extraction \<Rightarrow> extraction" where
  "extract_word w e =
     (case word_type w of
        TO \<Rightarrow> (finalize_current e)\<lparr>current_addr := trim_ale_address (address w), ctx := DEST,
                past_any_preamble := True\<rparr>
      | TWAS \<Rightarrow> (finalize_current e)\<lparr>current_addr := trim_ale_address (address w), ctx := DEST,
                past_any_preamble := True\<rparr>
      | FROM \<Rightarrow> (finalize_current e)\<lparr>current_addr := trim_ale_address (address w) @ orphan_data e,
                orphan_data := [], ctx := SRC, past_any_preamble := True\<rparr>
      | TIS \<Rightarrow> (finalize_current e)\<lparr>current_addr := trim_ale_address (address w) @ orphan_data e,
                orphan_data := [], ctx := SRC, past_any_preamble := True\<rparr>
      | DATA \<Rightarrow> (if ctx e = NO_CTX \<and> \<not> past_any_preamble e
                then e\<lparr>orphan_data := orphan_data e @ trim_ale_address (address w)\<rparr>
                else if ctx e \<noteq> NO_CTX then e\<lparr>current_addr := current_addr e @ trim_ale_address (address w)\<rparr>
                else e)
      | REP \<Rightarrow> (if ctx e = NO_CTX \<and> \<not> past_any_preamble e
                then e\<lparr>orphan_data := orphan_data e @ trim_ale_address (address w)\<rparr>
                else if ctx e \<noteq> NO_CTX then e\<lparr>current_addr := current_addr e @ trim_ale_address (address w)\<rparr>
                else e)
      | CMD \<Rightarrow> (finalize_current e)\<lparr>ctx := NO_CTX\<rparr>
      | _ \<Rightarrow> e)"

definition extract_addresses :: "ale_word list \<Rightarrow> ale_message \<Rightarrow> ale_message" where
  "extract_addresses ws msg =
     out_msg (finalize_current (fold extract_word ws
       \<lparr>ctx = NO_CTX, current_addr = [], orphan_data = [], past_any_preamble = False, out_msg = msg\<rparr>))"

definition word_data :: "ale_word \<Rightarrow> string" where
  "word_data w = rstrip (\<lambda>c. c = CHR '' '') (take 3 (address w))"

definition push_data :: "string \<Rightarrow> ale_message \<Rightarrow> ale_message" where
  "push_data d msg = (if d \<noteq> [] then msg\<lparr>data_content := data_content msg @ [d]\<rparr> else msg)"

fun extract_data_loop :: "bool \<Rightarrow> ale_word list \<Rightarrow> ale_message \<Rightarrow> ale_message" where
  "extract_data_loop collecting [] msg = msg"
| "extract_data_loop collecting (w # ws) msg =
     (if word_type w = CMD then extract_data_loop True ws (push_data (word_data w) msg)
      else if (word_type w = DATA \<or> word_type w = REP) \<and> collecting
      then extract_data_loop collecting ws (push_data (word_data w) msg)
      else extract_data_loop collecting ws msg)"

definition extract_data :: "ale_word list \<Rightarrow> ale_message \<Rightarrow> ale_message" where
  "extract_data ws msg = extract_data_loop False ws msg"

definition check_timeout :: "u32 \<Rightarrow> message_assembler \<Rightarrow> bool" where
  "check_timeout now m =
     (if now < asm_last_word_time_ms m then False
      else now - asm_last_word_time_ms m > word_timeout_ms m)"

definition add_word :: "ale_word \<Rightarrow> message_assembler \<Rightarrow> bool \<times> message_assembler" where
  "add_word w m =
     (if \<not> valid w then (False, m)
      else
        let now = timestamp_ms w;
            m = (if active m \<and> check_timeout now m then assembler_reset m else m);
            m = (if \<not> active m
                 then m\<lparr>current_message := (current_message m)\<lparr>start_time_ms := now\<rparr>, active := True\<rparr> else m);
            m = m\<lparr>current_words := current_words m @ [w], asm_last_word_time_ms := now\<rparr>
        in if is_sequence_complete (current_words m)
           then
             let msg = (current_message m)\<lparr>msg_words := current_words m,
                         duration_ms := now - start_time_ms (current_message m),
                         msg_call_type := detect (current_words m), msg_complete := True\<rparr>;
                 msg = extract_data (current_words m) (extract_addresses (current_words m) msg)
             in (True, m\<lparr>current_message := msg\<rparr>)
           else (False, m))"

definition get_message :: "message_assembler \<Rightarrow> ale_message option \<times> message_assembler" where
  "get_message m =
     (if \<not> msg_complete (current_message m) then (None, m)
      else (Some (current_message m), assembler_reset m))"

text \<open>The way the call processor drives the assembler when a frame callback is installed.\<close>

definition assemble :: "ale_word \<Rightarrow> message_assembler \<Rightarrow> ale_message option \<times> message_assembler" where
  "assemble w m = (let (done_flag, m) = add_word w m in if done_flag then get_message m else (None, m))"

fun assemble_all :: "ale_word list \<Rightarrow> message_assembler \<Rightarrow> ale_message list \<times> message_assembler" where
  "assemble_all [] m = ([], m)"
| "assemble_all (w # ws) m =
     (let (r, m) = assemble w m; (rs, m) = assemble_all ws m
      in (case r of None \<Rightarrow> rs | Some x \<Rightarrow> x # rs, m))"

section \<open>What the assembler delivers\<close>

definition concludes :: "ale_word \<Rightarrow> bool" where
  "concludes w \<longleftrightarrow> word_type w = TIS \<or> word_type w = TWAS"

text \<open>Words that arrive in order, without a pause longer than the assembler's timeout.\<close>

definition timely :: "u32 \<Rightarrow> ale_word list \<Rightarrow> bool" where
  "timely limit ws =
     successively (\<lambda>v w. timestamp_ms v \<le> timestamp_ms w \<and> timestamp_ms w - timestamp_ms v \<le> limit) ws"

text \<open>The assembler while it collects \<open>ws\<close>, and the message it makes of \<open>ws\<close>.\<close>

definition collecting :: "ale_word list \<Rightarrow> message_assembler \<Rightarrow> bool" where
  "collecting ws m \<longleftrightarrow> current_words m = ws \<and> (active m \<longleftrightarrow> ws \<noteq> []) \<and>
     (ws \<noteq> [] \<longrightarrow> asm_last_word_time_ms m = timestamp_ms (last ws)) \<and>
     current_message m = ALEMessage\<lparr>start_time_ms := if ws = [] then 0 else timestamp_ms (hd ws)\<rparr>"

definition finished :: "ale_word list \<Rightarrow> ale_message" where
  "finished ws = extract_data ws (extract_addresses ws
     (ALEMessage\<lparr>msg_words := ws, start_time_ms := timestamp_ms (hd ws),
        duration_ms := timestamp_ms (last ws) - timestamp_ms (hd ws),
        msg_call_type := detect ws, msg_complete := True\<rparr>))"

lemma push_data_complete [simp]: "msg_complete (push_data d msg) = msg_complete msg"
  by (simp add: push_data_def)

lemma extract_data_complete [simp]: "msg_complete (extract_data_loop b ws msg) = msg_complete msg"
  by (induction b ws msg rule: extract_data_loop.induct) simp_all

lemma extract_data_fields [simp]:
  "from_address (extract_data_loop b ws msg) = from_address msg"
  "to_addresses (extract_data_loop b ws msg) = to_addresses msg"
  by (induction b ws msg rule: extract_data_loop.induct) (simp_all add: push_data_def)

lemma finalize_complete [simp]: "msg_complete (out_msg (finalize_current e)) = msg_complete (out_msg e)"
  by (simp add: finalize_current_def Let_def add_dest_def)

lemma extract_word_complete [simp]: "msg_complete (out_msg (extract_word w e)) = msg_complete (out_msg e)"
  by (simp add: extract_word_def split: preamble_type.split)

lemma fold_extract_complete [simp]: "msg_complete (out_msg (fold extract_word ws e)) = msg_complete (out_msg e)"
  by (induction ws arbitrary: e) simp_all

lemma finished_complete [simp]: "msg_complete (finished ws)"
  by (simp add: finished_def extract_data_def extract_addresses_def)

lemma collecting_reset: "collecting [] (assembler_reset m)"
  by (simp add: collecting_def assembler_reset_def ALEMessage_def)

lemma timeout_reset [simp]: "word_timeout_ms (assembler_reset m) = word_timeout_ms m"
  by (simp add: assembler_reset_def)

lemma timely_snoc:
  "timely l (ws @ [w]) \<longleftrightarrow> timely l ws \<and>
     (ws \<noteq> [] \<longrightarrow> timestamp_ms (last ws) \<le> timestamp_ms w \<and> timestamp_ms w - timestamp_ms (last ws) \<le> l)"
  by (auto simp: timely_def successively_append_iff)

lemma complete_iff: "is_sequence_complete ws \<longleftrightarrow> list_ex concludes ws"
  by (cases ws) (simp_all add: is_sequence_complete_def concludes_def [abs_def])

lemma collecting_step:
  assumes "collecting ws m" "valid w" "timely (word_timeout_ms m) (ws @ [w])" "\<not> list_ex concludes ws"
  shows "\<not> concludes w \<Longrightarrow>
      \<exists>m'. assemble w m = (None, m') \<and> collecting (ws @ [w]) m' \<and> word_timeout_ms m' = word_timeout_ms m"
    and "concludes w \<Longrightarrow>
      \<exists>m'. assemble w m = (Some (finished (ws @ [w])), m') \<and> collecting [] m' \<and> word_timeout_ms m' = word_timeout_ms m"
proof -
  have fresh: "\<not> (active m \<and> check_timeout (timestamp_ms w) m)"
    using assms(1,3) by (auto simp: collecting_def timely_snoc check_timeout_def not_less)
  define m0 where "m0 = (if \<not> active m
    then m\<lparr>current_message := (current_message m)\<lparr>start_time_ms := timestamp_ms w\<rparr>, active := True\<rparr> else m)
      \<lparr>current_words := ws @ [w], asm_last_word_time_ms := timestamp_ms w\<rparr>"
  have m0: "collecting (ws @ [w]) m0" "word_timeout_ms m0 = word_timeout_ms m"
    using assms(1) by (auto simp: collecting_def m0_def ALEMessage_def)
  have cw: "current_words m0 = ws @ [w]" by (simp add: m0_def)
  have add: "add_word w m =
      (if concludes w then (True, m0\<lparr>current_message := finished (ws @ [w])\<rparr>) else (False, m0))"
    using assms fresh m0(1)
    by (auto simp: add_word_def Let_def m0_def collecting_def complete_iff finished_def ALEMessage_def)
  show "\<not> concludes w \<Longrightarrow>
      \<exists>m'. assemble w m = (None, m') \<and> collecting (ws @ [w]) m' \<and> word_timeout_ms m' = word_timeout_ms m"
    using m0 by (simp add: assemble_def add)
  show "concludes w \<Longrightarrow>
      \<exists>m'. assemble w m = (Some (finished (ws @ [w])), m') \<and> collecting [] m' \<and> word_timeout_ms m' = word_timeout_ms m"
    using m0 by (simp add: assemble_def add get_message_def collecting_reset)
qed

lemma assemble_all_append:
  "assemble_all (xs @ ys) m =
     (let (rs, m) = assemble_all xs m; (rs', m) = assemble_all ys m in (rs @ rs', m))"
  by (induction xs arbitrary: m) (auto simp: Let_def split: prod.splits option.splits)

lemma collecting_words:
  assumes "collecting ws m" "list_all valid xs" "timely (word_timeout_ms m) (ws @ xs)"
    "\<not> list_ex concludes ws" "\<not> list_ex concludes xs"
  shows "\<exists>m'. assemble_all xs m = ([], m') \<and> collecting (ws @ xs) m' \<and> word_timeout_ms m' = word_timeout_ms m"
  using assms
proof (induction xs arbitrary: ws m)
  case (Cons x xs)
  have "timely (word_timeout_ms m) (ws @ [x])"
    using Cons.prems(3) by (cases xs) (auto simp: timely_def successively_append_iff)
  then obtain m1 where m1: "assemble x m = (None, m1)" "collecting (ws @ [x]) m1" "word_timeout_ms m1 = word_timeout_ms m"
    using collecting_step(1) [of ws m x] Cons.prems by auto
  then obtain m2 where "assemble_all xs m1 = ([], m2)" "collecting ((ws @ [x]) @ xs) m2"
      "word_timeout_ms m2 = word_timeout_ms m1"
    using Cons.IH [of "ws @ [x]" m1] Cons.prems by auto
  with m1 show ?case by simp
qed simp

lemma collecting_frame:
  assumes "collecting ws m" "list_all valid (xs @ [w])" "timely (word_timeout_ms m) (ws @ xs @ [w])"
    "\<not> list_ex concludes ws" "\<not> list_ex concludes xs" "concludes w"
  shows "\<exists>m'. assemble_all (xs @ [w]) m = ([finished (ws @ xs @ [w])], m') \<and> collecting [] m' \<and>
    word_timeout_ms m' = word_timeout_ms m"
proof -
  have "timely (word_timeout_ms m) (ws @ xs)"
    using assms(3) timely_snoc [of _ "ws @ xs" w] by simp
  then obtain m1 where m1: "assemble_all xs m = ([], m1)" "collecting (ws @ xs) m1"
      "word_timeout_ms m1 = word_timeout_ms m"
    using collecting_words [of ws m xs] assms by auto
  then obtain m2 where "assemble w m1 = (Some (finished ((ws @ xs) @ [w])), m2)" "collecting [] m2"
      "word_timeout_ms m2 = word_timeout_ms m"
    using collecting_step(2) [of "ws @ xs" m1 w] assms by auto
  with m1 show ?thesis by (simp add: assemble_all_append)
qed

text \<open>
  C34. An assembler that has started nothing delivers exactly one message for a run of valid words
  that ends in its first TIS or TWAS and has no pause beyond the timeout: the message made of all its
  words, of the type the detector gives them, with the time from first to last word; afterwards it is
  empty again.
\<close>

theorem assembler_delivers_frame:
  assumes "collecting [] m" "list_all valid (xs @ [w])" "timely (word_timeout_ms m) (xs @ [w])"
    "\<not> list_ex concludes xs" "concludes w"
  shows "\<exists>m'. assemble_all (xs @ [w]) m = ([finished (xs @ [w])], m') \<and> collecting [] m' \<and>
    word_timeout_ms m' = word_timeout_ms m"
  using collecting_frame [of "[]" m xs w] assms by simp

lemma collecting_initial: "collecting [] MessageAssembler"
  by (simp add: collecting_def MessageAssembler_def ALEMessage_def)

theorem assembler_delivers_frame_witness:
  "\<exists>m'. assemble_all ([make_word TO ''SAM''] @ [make_word TIS ''JOE'']) MessageAssembler =
     ([finished ([make_word TO ''SAM''] @ [make_word TIS ''JOE''])], m') \<and> collecting [] m' \<and>
     word_timeout_ms m' = word_timeout_ms MessageAssembler"
  by (rule assembler_delivers_frame)
    (simp_all add: collecting_initial make_word_eq valid_char_def uses_basic38_def
      is_valid_basic38_char_iff timely_def concludes_def ALEWord_def)

section \<open>Addresses in assembled messages\<close>

definition untimed :: "ale_word \<Rightarrow> ale_word" where
  "untimed w = w\<lparr>timestamp_ms := 0\<rparr>"

lemma extract_untimed: "extract_word (untimed w) = extract_word w"
  by (rule ext) (simp add: extract_word_def untimed_def split: preamble_type.split)

lemma fold_extract_untimed: "fold extract_word (map untimed ws) = fold extract_word ws"
  by (induction ws) (simp_all add: extract_untimed)

lemma untimed_simps [simp]: "valid (untimed w) = valid w" "concludes (untimed w) = concludes w"
  by (simp_all add: untimed_def concludes_def)

lemma trim_chunk:
  assumes "valid_address a" "c \<in> set (chunk a)" "t \<noteq> UNKNOWN"
  shows "trim_ale_address (address (chunk_word t c)) = takeWhile (\<lambda>x. x \<noteq> CHR ''@'') c"
proof -
  have v: "list_all is_valid_basic38_char c" using chunk_full [OF assms(1,2)] by (simp add: full_chunk_def)
  have n: "CHR '' '' \<notin> set c" "NUL \<notin> set c"
    using v by (auto simp: list_all_iff is_valid_basic38_char_iff dest: bspec)
  have "c_string (c @ [NUL]) = c" using n(2) unfolding c_string_def by (subst takeWhile_append2) auto
  moreover have "dropWhile (\<lambda>x. x = CHR '' '' \<or> x = CHR ''@'') (rev c) = dropWhile (\<lambda>x. x = CHR ''@'') (rev c)"
    using n(1) by (intro dropWhile_cong) auto
  moreover have "take 3 (c @ [NUL]) = c" using chunk_length [OF assms(2)] by simp
  ultimately show ?thesis
    using strip_padding_chunk [OF assms(1,2)] chunk_word_valid [OF assms]
    by (simp add: trim_ale_address_def strip_padding_def)
qed

lemma first_chunk:
  assumes "valid_address a"
  shows "takeWhile (\<lambda>x. x \<noteq> CHR ''@'') (hd (chunk a)) = take 3 a"
    and "concat (map (takeWhile (\<lambda>x. x \<noteq> CHR ''@'')) (tl (chunk a))) = drop 3 a"
proof -
  have c: "chunk a = triples a" using assms by (simp add: chunk_triples valid_address_def)
  have n: "CHR ''@'' \<notin> set a" "a \<noteq> []" using assms by (simp_all add: valid_address_def)
  show h: "takeWhile (\<lambda>x. x \<noteq> CHR ''@'') (hd (chunk a)) = take 3 a"
    unfolding c using n by (cases a rule: triples.cases) auto
  have "chunk a = hd (chunk a) # tl (chunk a)" using n unfolding c by (cases a rule: triples.cases) auto
  then have "a = take 3 a @ concat (map (takeWhile (\<lambda>x. x \<noteq> CHR ''@'')) (tl (chunk a)))"
    using concat_chunks [OF assms] h by (metis concat.simps(2) list.map(2))
  then show "concat (map (takeWhile (\<lambda>x. x \<noteq> CHR ''@'')) (tl (chunk a))) = drop 3 a"
    by (metis append_take_drop_id same_append_eq)
qed

lemma extract_to:
  assumes "valid_address a"
  shows "fold extract_word (encode_address a TO) e =
    (finalize_current e)\<lparr>current_addr := a, ctx := DEST, past_any_preamble := True\<rparr>"
proof -
  have l: "1 \<le> length (chunk a)" "length (chunk a) \<le> 5" using length_chunk by blast+
  note f = chunk_word_fields(1) [OF assms] trim_chunk [OF assms]
  show ?thesis
    by (rule length_5_cases [OF l]; use concat_chunks [OF assms] in
        \<open>simp add: encode_address_chunks EXT_def f extract_word_def\<close>)
qed

lemma extract_orphans:
  assumes "valid_address a" "ctx e = NO_CTX" "\<not> past_any_preamble e"
  shows "fold extract_word (tl (encode_address a t)) e = e\<lparr>orphan_data := orphan_data e @ drop 3 a\<rparr>"
proof -
  have l: "1 \<le> length (chunk a)" "length (chunk a) \<le> 5" using length_chunk by blast+
  note f = chunk_word_fields(1) [OF assms(1)] trim_chunk [OF assms(1)]
  show ?thesis
    by (rule length_5_cases [OF l]; use first_chunk(2) [OF assms(1), symmetric] assms(2,3) in
        \<open>simp add: encode_address_chunks EXT_def f extract_word_def\<close>)
qed

lemma extract_tis:
  assumes "valid_address a"
  shows "extract_word (hd (encode_address a TIS)) e =
    (finalize_current e)\<lparr>current_addr := take 3 a @ orphan_data e, orphan_data := [], ctx := SRC,
       past_any_preamble := True\<rparr>"
proof -
  have c: "hd (chunk a) \<in> set (chunk a)" using length_chunk [of a] by (cases "chunk a") auto
  show ?thesis
    using chunk_word_fields(1) [OF assms c, of TIS] trim_chunk [OF assms c, of TIS] first_chunk(1) [OF assms]
    by (simp add: encode_address_chunks extract_word_def)
qed

lemma finalize_fields [simp]:
  "orphan_data (finalize_current e) = orphan_data e" "current_addr (finalize_current e) = []"
  "ctx (finalize_current e) = ctx e" "past_any_preamble (finalize_current e) = past_any_preamble e"
  by (simp_all add: finalize_current_def Let_def)

text \<open>The source address of a call frame that follows left-over words of another station.\<close>

lemma finished_from:
  assumes "valid_address to" "valid_address self" "valid_address old"
    and "map untimed ws = map untimed left @ map untimed (leading_call to) @ [untimed (hd (conclusion self False))]"
    and "map untimed left = map untimed (tl (conclusion old False)) \<or> left = []"
  shows "from_address (finished ws) = take 3 self @ (if left = [] then [] else drop 3 old)"
proof -
  define e where "e msg =
    \<lparr>ctx = NO_CTX, current_addr = [], orphan_data = [], past_any_preamble = False, out_msg = msg\<rparr>" for msg
  have left: "fold extract_word left (e msg) = (e msg)\<lparr>orphan_data := if left = [] then [] else drop 3 old\<rparr>" for msg
    using assms(5) extract_orphans [OF assms(3), of "e msg" TIS] fold_extract_untimed [of left]
      fold_extract_untimed [of "tl (conclusion old False)"]
    by (auto simp: conclusion_def e_def)
  have "fold extract_word ws = fold extract_word (left @ leading_call to @ [hd (conclusion self False)])"
    using fold_extract_untimed [of ws] assms(4)
      fold_extract_untimed [of "left @ leading_call to @ [hd (conclusion self False)]"] by simp
  moreover have "take 3 self \<noteq> []" using assms(2) by (simp add: valid_address_def)
  ultimately show ?thesis
    by (simp add: finished_def extract_data_def extract_addresses_def left e_def [symmetric] leading_call_def sent_twice_def
        conclusion_def extract_to [OF assms(1)] extract_tis [OF assms(2)] finalize_current_def [of "x\<lparr>ctx := SRC\<rparr>" for x])
      (simp add: finalize_current_def Let_def e_def)
qed

lemma address_words:
  assumes "valid_address a" "t \<noteq> UNKNOWN"
  shows "list_all valid (encode_address a t)" "\<not> list_ex concludes (tl (encode_address a t))"
    "\<not> list_ex concludes (leading_call a)" "list_all valid (leading_call a)"
    "word_type (hd (encode_address a t)) = t" "encode_address a t \<noteq> []"
proof -
  have l: "1 \<le> length (chunk a)" "length (chunk a) \<le> 5" using length_chunk by blast+
  note w = chunk_word_valid [OF assms(1)]
  show "list_all valid (encode_address a t)" "\<not> list_ex concludes (tl (encode_address a t))"
    "\<not> list_ex concludes (leading_call a)" "list_all valid (leading_call a)"
    "word_type (hd (encode_address a t)) = t" "encode_address a t \<noteq> []"
    by (rule length_5_cases [OF l];
        use assms(2) in \<open>simp add: encode_address_chunks EXT_def w concludes_def leading_call_def sent_twice_def\<close>)+
qed

lemma list_ex_concludes_untimed: "list_ex concludes (map untimed ws) = list_ex concludes ws"
  by (simp add: list_ex_iff)

lemma list_all_valid_untimed: "list_all valid (map untimed ws) = list_all valid ws"
  by (simp add: list_all_iff)

lemma timely_append: "timely l (xs @ ys) \<Longrightarrow> timely l xs \<and> timely l ys"
  by (auto simp: timely_def successively_append_iff)

lemma timely_infix: "timely l (xs @ ys @ zs) \<Longrightarrow> timely l ys"
  using timely_append by blast

lemma assemble_all_seq:
  "assemble_all xs m = (rs, m1) \<Longrightarrow> assemble_all ys m1 = (rs', m2) \<Longrightarrow>
   assemble_all (xs @ ys) m = (rs @ rs', m2)"
  by (simp add: assemble_all_append)

lemma map_untimed_split:
  assumes "map untimed ws = map untimed (xs @ ys)"
  obtains us vs where "ws = us @ vs" "map untimed us = map untimed xs" "map untimed vs = map untimed ys"
  using assms by (auto simp: map_eq_append_conv)

lemma truncated_frame:
  assumes "valid_address to" "valid_address self" "valid_address old"
    and "collecting left m" "timely (word_timeout_ms m) (left @ frame @ [w])"
    and "map untimed left = map untimed (tl (conclusion old False)) \<or> left = []"
    and "map untimed frame = map untimed (leading_call to)" "untimed w = untimed (hd (conclusion self False))"
  shows "\<exists>msg m'. assemble_all (frame @ [w]) m = ([msg], m') \<and> collecting [] m' \<and>
    word_timeout_ms m' = word_timeout_ms m \<and>
    from_address msg = take 3 self @ (if left = [] then [] else drop 3 old)"
proof -
  have TIS: "TIS \<noteq> UNKNOWN" by simp
  note aw = address_words [OF assms(2) TIS]
  have "list_all valid frame" "\<not> list_ex concludes frame"
    using address_words(3,4) [OF assms(1) TIS] assms(7)
    by (metis list_all_valid_untimed) (metis address_words(3) [OF assms(1) TIS] assms(7) list_ex_concludes_untimed)
  moreover have "valid w" "concludes w"
  proof -
    have "valid (hd (conclusion self False))" "concludes (hd (conclusion self False))"
      using aw by (cases "encode_address self TIS"; simp add: conclusion_def concludes_def)+
    then show "valid w" "concludes w" using assms(8) by (metis untimed_simps)+
  qed
  moreover have "\<not> list_ex concludes left"
    using assms(6) address_words(2) [OF assms(3) TIS]
    by (cases "left = []") (simp, metis conclusion_def list_ex_concludes_untimed)
  ultimately obtain m' where "assemble_all (frame @ [w]) m = ([finished (left @ frame @ [w])], m')"
      "collecting [] m'" "word_timeout_ms m' = word_timeout_ms m"
    using collecting_frame [OF assms(4) _ assms(5)] by auto
  moreover have "from_address (finished (left @ frame @ [w])) = take 3 self @ (if left = [] then [] else drop 3 old)"
    using assms(6,7,8) by (intro finished_from [OF assms(1-3)]) auto
  ultimately show ?thesis by blast
qed

lemma left_over:
  assumes "valid_address self" "collecting [] m" "timely (word_timeout_ms m) left"
    and "map untimed left = map untimed (tl (conclusion self False))"
  shows "\<exists>m'. assemble_all left m = ([], m') \<and> collecting left m' \<and> word_timeout_ms m' = word_timeout_ms m"
proof -
  have TIS: "TIS \<noteq> UNKNOWN" by simp
  have "list_all valid (tl (encode_address self TIS))"
    using address_words(1) [OF assms(1) TIS] by (cases "encode_address self TIS") auto
  then have "list_all valid left"
    using assms(4) by (metis conclusion_def list_all_valid_untimed)
  moreover have "\<not> list_ex concludes left"
    using assms(4) address_words(2) [OF assms(1) TIS]
    by (metis conclusion_def list_ex_concludes_untimed)
  ultimately show ?thesis using collecting_words [OF assms(2), of left] assms(3) by simp
qed

text \<open>
  The assembler closes a message at the first word of the conclusion: of a caller whose address
  takes more than one word the message has the first three characters only, and the rest of the
  address, kept as data without a preamble, is appended to the caller of the next message if it begins
  within the timeout - a station that has nothing to do with it.
\<close>

theorem assembler_truncates_caller:
  assumes "list_all valid_address [to1, self1, to2, self2]" "3 < length self1"
    and "collecting [] m" "timely (word_timeout_ms m) ws"
    and "map untimed ws = map untimed
      (leading_call to1 @ conclusion self1 False @ leading_call to2 @ conclusion self2 False)"
  shows "\<exists>msg1 msg2 m'. assemble_all ws m = ([msg1, msg2], m') \<and> from_address msg1 = take 3 self1 \<and>
    from_address msg2 = take 3 self2 @ drop 3 self1"
proof -
  have v: "valid_address to1" "valid_address self1" "valid_address to2" "valid_address self2"
    using assms(1) by simp_all
  have c: "conclusion s False = hd (conclusion s False) # tl (conclusion s False)" if "valid_address s" for s
    using address_words(6) [OF that, of TIS] by (simp add: conclusion_def)
  have "map untimed ws = map untimed (leading_call to1 @ ([hd (conclusion self1 False)] @
      (tl (conclusion self1 False) @ (leading_call to2 @ ([hd (conclusion self2 False)] @ tl (conclusion self2 False))))))"
    using assms(5) c [OF v(2)] c [OF v(4)] by (metis append_Cons append_Nil)
  then obtain f1 w1 l1 f2 w2 l2 where ws: "ws = f1 @ [w1] @ l1 @ f2 @ [w2] @ l2"
      "map untimed f1 = map untimed (leading_call to1)" "untimed w1 = untimed (hd (conclusion self1 False))"
      "map untimed l1 = map untimed (tl (conclusion self1 False))"
      "map untimed f2 = map untimed (leading_call to2)" "untimed w2 = untimed (hd (conclusion self2 False))"
      "map untimed l2 = map untimed (tl (conclusion self2 False))"
    by (elim map_untimed_split) (auto simp: map_eq_Cons_conv)
  have t: "timely (word_timeout_ms m) (f1 @ [w1])" "timely (word_timeout_ms m) l1"
      "timely (word_timeout_ms m) (l1 @ f2 @ [w2])" "timely (word_timeout_ms m) l2"
    using assms(4) timely_infix [of _ "[]" "f1 @ [w1]" "l1 @ f2 @ [w2] @ l2"]
      timely_infix [of _ "f1 @ [w1]" l1 "f2 @ [w2] @ l2"]
      timely_infix [of _ "f1 @ [w1]" "l1 @ f2 @ [w2]" l2]
      timely_infix [of _ "f1 @ [w1] @ l1 @ f2 @ [w2]" l2 "[]"]
    unfolding ws(1) by simp_all
  obtain msg1 m1 where 1: "assemble_all (f1 @ [w1]) m = ([msg1], m1)" "collecting [] m1"
      "word_timeout_ms m1 = word_timeout_ms m" "from_address msg1 = take 3 self1"
    using truncated_frame [OF v(1,2,2) assms(3), of f1 w1] t(1) ws(2,3) by auto
  obtain m2 where 2: "assemble_all l1 m1 = ([], m2)" "collecting l1 m2" "word_timeout_ms m2 = word_timeout_ms m"
    using left_over [OF v(2) 1(2)] t(2) ws(4) 1(3) by auto
  have "length (conclusion self1 False) - 1 \<noteq> 0"
    using v(2) assms(2) by (simp add: conclusion_def chunk_triples length_triples valid_address_def)
  then have "tl (conclusion self1 False) \<noteq> []" by (metis length_tl list.size(3))
  then have "l1 \<noteq> []" using ws(4) by auto
  then obtain msg2 m3 where 3: "assemble_all (f2 @ [w2]) m2 = ([msg2], m3)" "collecting [] m3"
      "word_timeout_ms m3 = word_timeout_ms m" "from_address msg2 = take 3 self2 @ drop 3 self1"
    using truncated_frame [OF v(3,4,2) 2(2), of f2 w2] t(3) ws(4,5,6) 2(3) by auto
  obtain m4 where 4: "assemble_all l2 m3 = ([], m4)"
    using left_over [OF v(4) 3(2)] t(4) ws(7) 3(3) by auto
  have "assemble_all (l1 @ ((f2 @ [w2]) @ l2)) m1 = ([msg2], m4)"
    using assemble_all_seq [OF 2(1) assemble_all_seq [OF 3(1) 4]] by simp
  then have "assemble_all ((f1 @ [w1]) @ (l1 @ ((f2 @ [w2]) @ l2))) m = ([msg1, msg2], m4)"
    using assemble_all_seq [OF 1(1)] by simp
  then show ?thesis using 1(4) 3(4) by (simp add: ws(1))
qed

lemma timely_same: "list_all (\<lambda>w. timestamp_ms w = t) ws \<Longrightarrow> timely l ws"
  unfolding timely_def by (induction ws rule: induct_list012) auto

lemma address_timestamp:
  assumes "valid_address a" "t \<noteq> UNKNOWN"
  shows "list_all (\<lambda>w. timestamp_ms w = 0) (encode_address a t)"
proof -
  have l: "1 \<le> length (chunk a)" "length (chunk a) \<le> 5" using length_chunk by blast+
  show ?thesis
    by (rule length_5_cases [OF l]; use assms(2) in
        \<open>simp add: encode_address_chunks EXT_def chunk_word_valid [OF assms(1)] ALEWord_def\<close>)
qed

theorem assembler_truncates_caller_witness:
  "\<exists>msg1 msg2 m'. assemble_all (leading_call ''SAM'' @ conclusion ''DC7SU'' False @ leading_call ''SAM'' @
     conclusion ''JOE'' False) MessageAssembler = ([msg1, msg2], m') \<and> from_address msg1 = ''DC7'' \<and>
     from_address msg2 = ''JOESU''"
proof -
  have v: "list_all valid_address [''SAM'', ''DC7SU'', ''SAM'', ''JOE'']"
    by (simp add: valid_address_def is_valid_basic38_char_iff)
  have "timely (word_timeout_ms MessageAssembler)
      (leading_call ''SAM'' @ conclusion ''DC7SU'' False @ leading_call ''SAM'' @ conclusion ''JOE'' False)"
    using v by (intro timely_same [of 0]) (simp add: leading_call_def sent_twice_def conclusion_def address_timestamp)
  then show ?thesis
    using assembler_truncates_caller [OF v _ collecting_initial] by simp
qed

end
