(* ===== verification/Sm_State.thy ===== *)
theory Sm_State
  imports Channel_Manager Address_Book Ale_Message
begin

text \<open>
  The state of the link state machine, \<open>include/Protocol/Control/ale_state_machine.h\<close>: its
  enumerations and its members as one record in the order of the class. The callbacks of the class are
  the field \<open>outs\<close>: the trace of calls made so far, oldest first. The two polled queries (channel busy,
  hop ready) are the environment argument of \<open>update\<close>. Not modelled: the debug trace callback, the
  thread check, and the members of the manual-accept gate that nothing reads any more.
\<close>

section \<open>Enumerations\<close>

datatype ale_state = IDLE | SCANNING | CALLING | HANDSHAKE | LINKED | SOUNDING | ERROR_STATE

datatype ale_event =
  START_SCAN | STOP_SCAN | CALL_REQUEST | CALL_DETECTED | HANDSHAKE_COMPLETE | LINK_TIMEOUT
| LINK_TERMINATED | AMD_DECLINED_LINK | SOUNDING_REQUEST | SOUNDING_COMPLETE | ERROR_OCCURRED

datatype operator_event =
  CALL_REJECTED | NO_CHANNELS_LEFT | LINK_ESTABLISHED | EMERGENCY_ACTIVE | AMD_SENT_NO_LINK
| AMD_RECEIVED_NO_LINK | AMD_DELIVERED | AMD_NOT_DELIVERED | AMD_RETRY

datatype calling_phase =
  CP_LBT | CP_TUNING | CP_SCANNING_CALL | CP_GROUP_SCANNING_CALL | CP_LEADING_CALL | CP_MESSAGE
| CP_CONCLUSION | CP_LISTENING | CP_SENDING_ACK

datatype scanning_phase = HOPPING | SCAN_PAUSE

datatype sounding_phase = SP_LBT | SP_TRANSMITTING | SP_LISTENING

datatype handshake_phase =
  HP_WAIT_CYCLE_END | HP_AWAIT_ACCEPT | HP_SLOT_WAIT | HP_CHANNEL_CHECK | HP_SENDING_RESPONSE | HP_WAIT_ACK

datatype linked_amd_phase = LA_NONE | LA_LISTENING | LA_SENDING_ACK | LA_RESPONDING | LA_WAIT_ACK

datatype pending_type = PM_NONE | PM_AMD

record pending_message =
  pm_type :: pending_type
  pm_content :: string
  link_after_send :: bool

definition PendingMessage :: pending_message where
  "PendingMessage = \<lparr>pm_type = PM_NONE, pm_content = '''', link_after_send = False\<rparr>"

section \<open>Observable calls\<close>

record metrics_sample =
  ms_snr_db :: rat
  ms_sinad_db :: rat
  ms_fec_errors_corrected :: u32
  ms_decode_success :: bool
  ms_timestamp_ms :: u32
  ms_non_unanimous_count :: u8
  ms_golay_uncorrectable :: bool

datatype sm_output =
  State_Change ale_state ale_state
| Transmit ale_word
| Rx_Enabled bool
| Operator operator_event
| Channel_Change channel
| Idle_Warning u32
| Frame_Assembled ale_message
| Lqa_Sample metrics_sample u32 string

text \<open>What the polled queries answer: the channel is busy; the radio may hop.\<close>

record sm_env =
  channel_busy :: bool
  hop_ready :: bool

section \<open>The state machine's members\<close>

record ale_sm =
  current_state :: ale_state
  previous_state :: ale_state
  pre_link_state :: ale_state
  chan_mgr :: channel_manager
  book :: address_book
  active_call_to :: string
  active_call_from :: string
  link_start_time_ms :: u32
  last_word_time_ms :: u32
  assembler :: message_assembler
  linked_terminating :: bool
  tx_drain_start_ms :: u32
  tx_drain_deadline_ms :: u32
  idle_warning_sent :: bool
  last_seen_word_time_ms :: u32
  phase_calling :: calling_phase
  active_call_is_net :: bool
  first_call_tx_ms :: u32
  call_cycle_count :: u32
  call_cycles_in_phase :: u32
  words_pending :: u32
  listening_start_ms :: u32
  active_call_is_group :: bool
  scanning_seq :: "ale_word list"
  leading_seq :: "ale_word list"
  conclusion_seq :: "ale_word list"
  group_scan_seq :: "ale_word list"
  lbt_start_ms :: u32
  tune_start_ms :: u32
  calling_channel_index :: u32
  calling_channels :: "channel list"
  response_to_detected :: bool
  response_rx_start_ms :: u32
  tlww_start_ms :: u32
  collecting_remote_conclusion :: bool
  to_address :: string
  phase_handshake :: handshake_phase
  slot_number :: u32
  tswt_ms :: u32
  slot_wait_start_ms :: u32
  twce_ms :: u32
  twce_start_ms :: u32
  hs_tlww_start_ms :: u32
  hs_conclusion_rcvd :: bool
  hs_conclusion_is_twas :: bool
  caller_address :: string
  hs_words_in_phase :: u32
  hs_ack_start_ms :: u32
  hs_ack_to_ms :: u32
  hs_ack_tis_rcvd :: bool
  contiguous_errors :: u8
  hs_lbt_start_ms :: u32
  hs_message_start_ms :: u32
  pending_reject :: bool
  allcall_silent :: bool
  emergency_active :: bool
  pending_msg :: pending_message
  active_msg :: pending_message
  active_amd_from_seq :: "ale_word list"
  active_amd_words :: "ale_word list"
  pending_lqa_cmd_raw :: u32
  pending_lqa_cmd_set :: bool
  active_lqa_cmd_seq :: "ale_word list"
  pending_lqa_report_seq :: "ale_word list"
  pending_lqa_report_set :: bool
  active_lqa_report_seq :: "ale_word list"
  pending_noise_cmd_raw :: u32
  pending_noise_cmd_set :: bool
  pending_orderwire_words :: "ale_word list"
  orderwire_pending :: bool
  orderwire_transmitting :: bool
  orderwire_double_burst :: bool
  phase_linked_amd :: linked_amd_phase
  linked_amd_burst :: "ale_word list"
  linked_amd_peer :: string
  linked_amd_attempts_left :: u32
  linked_amd_listen_start_ms :: u32
  linked_amd_resp_detected :: bool
  linked_amd_resp_tlww_ms :: u32
  linked_amd_ack_start_ms :: u32
  linked_amd_ack_to_detected :: bool
  linked_amd_ack_tis_rcvd :: bool
  linked_amd_ack_tlww_ms :: u32
  linked_amd_retry_pending :: bool
  linked_amd_retry_after_ms :: u32
  linked_twas_addr :: string
  linked_twas_last_ms :: u32
  phase_scanning :: scanning_phase
  scan_pause_settle_ms :: u32
  prev_hop_ready :: bool
  phase_sounding :: sounding_phase
  sounding_lbt_start_ms :: u32
  sounding_listening_start_ms :: u32
  sounding_sweep_chs :: "channel list"
  sounding_sweep_idx :: nat
  sounding_sweep_active :: bool
  sounding_use_twas :: bool
  allcall_broadcasting :: bool
  target_scan_channels :: u32
  timing :: timing_parameters
  state_entry_time_ms :: u32
  current_time_ms :: u32
  lqa_metrics_set :: bool
  frame_assembled_cb_set :: bool
  idle_warning_cb_set :: bool
  lbt_override :: bool
  lbt_shared :: bool
  outs :: "sm_output list"

definition ALEStateMachine :: ale_sm where
  "ALEStateMachine = \<lparr>current_state = IDLE,
     previous_state = IDLE,
     pre_link_state = IDLE,
     chan_mgr = ChannelManager,
     book = AddressBook,
     active_call_to = '''',
     active_call_from = '''',
     link_start_time_ms = 0,
     last_word_time_ms = 0,
     assembler = MessageAssembler,
     linked_terminating = False,
     tx_drain_start_ms = 0,
     tx_drain_deadline_ms = TX_DRAIN_TIMEOUT_MS,
     idle_warning_sent = False,
     last_seen_word_time_ms = 0,
     phase_calling = CP_LBT,
     active_call_is_net = False,
     first_call_tx_ms = 0,
     call_cycle_count = 0,
     call_cycles_in_phase = 0,
     words_pending = 0,
     listening_start_ms = 0,
     active_call_is_group = False,
     scanning_seq = [],
     leading_seq = [],
     conclusion_seq = [],
     group_scan_seq = [],
     lbt_start_ms = 0,
     tune_start_ms = 0,
     calling_channel_index = 0,
     calling_channels = [],
     response_to_detected = False,
     response_rx_start_ms = 0,
     tlww_start_ms = 0,
     collecting_remote_conclusion = False,
     to_address = '''',
     phase_handshake = HP_WAIT_CYCLE_END,
     slot_number = 0,
     tswt_ms = 0,
     slot_wait_start_ms = 0,
     twce_ms = 0,
     twce_start_ms = 0,
     hs_tlww_start_ms = 0,
     hs_conclusion_rcvd = False,
     hs_conclusion_is_twas = False,
     caller_address = '''',
     hs_words_in_phase = 0,
     hs_ack_start_ms = 0,
     hs_ack_to_ms = 0,
     hs_ack_tis_rcvd = False,
     contiguous_errors = 0,
     hs_lbt_start_ms = 0,
     hs_message_start_ms = 0,
     pending_reject = False,
     allcall_silent = False,
     emergency_active = False,
     pending_msg = PendingMessage,
     active_msg = PendingMessage,
     active_amd_from_seq = [],
     active_amd_words = [],
     pending_lqa_cmd_raw = 0,
     pending_lqa_cmd_set = False,
     active_lqa_cmd_seq = [],
     pending_lqa_report_seq = [],
     pending_lqa_report_set = False,
     active_lqa_report_seq = [],
     pending_noise_cmd_raw = 0,
     pending_noise_cmd_set = False,
     pending_orderwire_words = [],
     orderwire_pending = False,
     orderwire_transmitting = False,
     orderwire_double_burst = True,
     phase_linked_amd = LA_NONE,
     linked_amd_burst = [],
     linked_amd_peer = '''',
     linked_amd_attempts_left = 0,
     linked_amd_listen_start_ms = 0,
     linked_amd_resp_detected = False,
     linked_amd_resp_tlww_ms = 0,
     linked_amd_ack_start_ms = 0,
     linked_amd_ack_to_detected = False,
     linked_amd_ack_tis_rcvd = False,
     linked_amd_ack_tlww_ms = 0,
     linked_amd_retry_pending = False,
     linked_amd_retry_after_ms = 0,
     linked_twas_addr = '''',
     linked_twas_last_ms = 0,
     phase_scanning = HOPPING,
     scan_pause_settle_ms = 0,
     prev_hop_ready = True,
     phase_sounding = SP_LBT,
     sounding_lbt_start_ms = 0,
     sounding_listening_start_ms = 0,
     sounding_sweep_chs = [],
     sounding_sweep_idx = 0,
     sounding_sweep_active = False,
     sounding_use_twas = False,
     allcall_broadcasting = False,
     target_scan_channels = 1,
     timing = TimingParameters,
     state_entry_time_ms = 0,
     current_time_ms = 0,
     lqa_metrics_set = False,
     frame_assembled_cb_set = False,
     idle_warning_cb_set = False,
     lbt_override = False,
     lbt_shared = False,
     outs = []\<rparr>"

definition emit :: "sm_output \<Rightarrow> ale_sm \<Rightarrow> ale_sm" where
  "emit x s = s\<lparr>outs := outs s @ [x]\<rparr>"

definition emit_channels :: "channel list \<Rightarrow> ale_sm \<Rightarrow> ale_sm" where
  "emit_channels chs s = s\<lparr>outs := outs s @ map Channel_Change chs\<rparr>"

section \<open>Names\<close>

definition STATE_NAMES :: "string list" where
  "STATE_NAMES = [''IDLE'', ''SCANNING'', ''CALLING'', ''HANDSHAKE'', ''LINKED'', ''SOUNDING'', ''ERROR'']"

fun state_index :: "ale_state \<Rightarrow> nat" where
  "state_index IDLE = 0"
| "state_index SCANNING = 1"
| "state_index CALLING = 2"
| "state_index HANDSHAKE = 3"
| "state_index LINKED = 4"
| "state_index SOUNDING = 5"
| "state_index ERROR_STATE = 6"

definition state_name :: "ale_state \<Rightarrow> string" where
  "state_name st = STATE_NAMES ! (if state_index st > 6 then 6 else state_index st)"

section \<open>Helpers of the class\<close>

definition lbt_channel_busy :: "sm_env \<Rightarrow> ale_sm \<Rightarrow> bool" where
  "lbt_channel_busy env s = (\<not> lbt_override s \<and> channel_busy env)"

definition effective_twt_ms :: "ale_sm \<Rightarrow> u32" where
  "effective_twt_ms s = (if lbt_shared s \<and> Twt_shared_ms > Twt_ale_ms then Twt_shared_ms else Twt_ale_ms)"

definition listening_response_wait_ms :: u32 where
  "listening_response_wait_ms = to_u32 (1 / 2 + Twrt_slow_double) + to_u32 Tdrw_double + (Tdrw_ms - Tlww_ms)"

definition wait_ack_start_wait_ms :: u32 where
  "wait_ack_start_wait_ms = Twr_slow_int + to_u32 Tdrw_double + (Tdrw_ms - Tlww_ms)"

lemma wait_values [simp]: "listening_response_wait_ms = 3136" "wait_ack_start_wait_ms = 2091"
  by (simp_all add: listening_response_wait_ms_def wait_ack_start_wait_ms_def)

end
