(* ===== verification/Sm_Step.thy ===== *)
theory Sm_Step
  imports Sm_State
begin

text \<open>
  \<open>src/Protocol/Control/ale_state_machine.cpp\<close>, transitions and transmission: \<open>process_event\<close> with
  \<open>transition_to\<close>, \<open>enter_state\<close> and \<open>exit_state\<close>, the transmission of words and the builders of
  the frames. A function that returns \<open>bool\<close> gives a pair. A callback does not call back into the
  state machine.
\<close>

section \<open>Entering and leaving a state\<close>

definition end_linked_amd :: "ale_sm \<Rightarrow> ale_sm" where
  "end_linked_amd s = s\<lparr>phase_linked_amd := LA_NONE, linked_amd_listen_start_ms := 0,
     linked_amd_resp_detected := False, linked_amd_resp_tlww_ms := 0, linked_amd_ack_to_detected := False,
     linked_amd_ack_tis_rcvd := False, linked_amd_ack_tlww_ms := 0, linked_amd_retry_pending := False,
     linked_amd_retry_after_ms := 0\<rparr>"

definition enter_IDLE :: "ale_sm \<Rightarrow> ale_sm" where
  "enter_IDLE s = emit (Rx_Enabled True)
     (s\<lparr>chan_mgr := clear_override (chan_mgr s), allcall_silent := False\<rparr>)"

definition enter_SCANNING :: "ale_sm \<Rightarrow> ale_sm" where
  "enter_SCANNING s =
     (let s = s\<lparr>phase_scanning := HOPPING, scan_pause_settle_ms := 0, prev_hop_ready := True,
                chan_mgr := clear_override (chan_mgr s)\<rparr>;
          (m, out) = start_scan (current_time_ms s) (chan_mgr s)
      in emit (Rx_Enabled True) ((emit_channels out (s\<lparr>chan_mgr := m\<rparr>))\<lparr>allcall_silent := False\<rparr>))"

definition enter_CALLING :: "ale_sm \<Rightarrow> ale_sm" where
  "enter_CALLING s =
     (let s = s\<lparr>pre_link_state := previous_state s, link_start_time_ms := current_time_ms s,
                first_call_tx_ms := 0, lbt_start_ms := current_time_ms s, tune_start_ms := 0,
                call_cycle_count := 0, call_cycles_in_phase := 0, listening_start_ms := 0,
                response_to_detected := False, response_rx_start_ms := 0, tlww_start_ms := 0,
                collecting_remote_conclusion := False, to_address := ''''\<rparr>;
          s = (if calling_channels s \<noteq> []
               then emit_channels (hop_calling (calling_channels s ! unat (calling_channel_index s))) s
               else s)
      in emit (Rx_Enabled True) (s\<lparr>phase_calling := CP_LBT\<rparr>))"

definition enter_HANDSHAKE :: "ale_sm \<Rightarrow> ale_sm" where
  "enter_HANDSHAKE s =
     (let s = s\<lparr>pre_link_state := previous_state s, slot_wait_start_ms := 0,
                link_start_time_ms := current_time_ms s, twce_start_ms := current_time_ms s,
                hs_tlww_start_ms := 0, hs_conclusion_rcvd := False, hs_conclusion_is_twas := False,
                caller_address := '''', hs_words_in_phase := 0, hs_ack_start_ms := 0, hs_ack_to_ms := 0,
                hs_ack_tis_rcvd := False, contiguous_errors := 0, hs_lbt_start_ms := 0,
                hs_message_start_ms := 0, pending_reject := False, phase_handshake := HP_WAIT_CYCLE_END,
                twce_ms := calc_twce_ms (of_nat (max 1 (channel_count (chan_mgr s))))\<rparr>
      in emit (Rx_Enabled True) s)"

definition enter_LINKED :: "ale_sm \<Rightarrow> ale_sm" where
  "enter_LINKED s =
     (let s = s\<lparr>link_start_time_ms := current_time_ms s, last_word_time_ms := current_time_ms s,
                linked_terminating := False, linked_twas_addr := '''', linked_twas_last_ms := 0,
                tx_drain_start_ms := 0, allcall_silent := False, idle_warning_sent := False,
                last_seen_word_time_ms := current_time_ms s\<rparr>;
          s = (if active_call_is_group s \<and> to_address s \<noteq> [] then s\<lparr>active_call_to := to_address s\<rparr> else s);
          s = (if \<not> active_call_is_group s \<and> caller_address s \<noteq> []
               then s\<lparr>active_call_to := caller_address s\<rparr> else s)
      in emit (Rx_Enabled True) s)"

definition enter_SOUNDING :: "ale_sm \<Rightarrow> ale_sm" where
  "enter_SOUNDING s = emit (Rx_Enabled True)
     (s\<lparr>phase_sounding := SP_LBT, sounding_lbt_start_ms := current_time_ms s, sounding_listening_start_ms := 0\<rparr>)"

definition enter_state :: "ale_state \<Rightarrow> ale_sm \<Rightarrow> ale_sm" where
  "enter_state new_state s =
     (let s = s\<lparr>words_pending := 0, tx_drain_start_ms := 0, tx_drain_deadline_ms := TX_DRAIN_TIMEOUT_MS\<rparr>;
          s = end_linked_amd s
      in case new_state of
           IDLE \<Rightarrow> enter_IDLE s
         | SCANNING \<Rightarrow> enter_SCANNING s
         | CALLING \<Rightarrow> enter_CALLING s
         | HANDSHAKE \<Rightarrow> enter_HANDSHAKE s
         | LINKED \<Rightarrow> enter_LINKED s
         | SOUNDING \<Rightarrow> enter_SOUNDING s
         | ERROR_STATE \<Rightarrow> emit (Rx_Enabled True) s)"

definition exit_state :: "ale_state \<Rightarrow> ale_sm \<Rightarrow> ale_sm" where
  "exit_state old_state s =
     (case old_state of
        LINKED \<Rightarrow> s\<lparr>active_call_to := '''', active_call_from := ''''\<rparr>
      | _ \<Rightarrow> s)"

definition transition_to :: "ale_state \<Rightarrow> ale_sm \<Rightarrow> bool \<times> ale_sm" where
  "transition_to new_state s =
     (if current_state s = new_state then (False, s)
      else
        let s = exit_state (current_state s) s;
            s = s\<lparr>previous_state := current_state s\<rparr>;
            s = s\<lparr>current_state := new_state, state_entry_time_ms := current_time_ms s\<rparr>;
            s = enter_state new_state s
        in (True, emit (State_Change (previous_state s) (current_state s)) s))"

section \<open>Events\<close>

definition end_sweep :: "ale_sm \<Rightarrow> ale_sm" where
  "end_sweep s = s\<lparr>sounding_sweep_active := False, sounding_sweep_chs := [], sounding_sweep_idx := 0\<rparr>"

definition sounding_complete :: "ale_sm \<Rightarrow> bool \<times> ale_sm" where
  "sounding_complete s =
     (if sounding_sweep_active s
      then
        let s = s\<lparr>sounding_sweep_idx := sounding_sweep_idx s + 1\<rparr>
        in if sounding_sweep_idx s < length (sounding_sweep_chs s)
           then
             let (m, out) = set_override (sounding_sweep_chs s ! sounding_sweep_idx s) (chan_mgr s);
                 s = emit_channels out (s\<lparr>chan_mgr := m\<rparr>);
                 s = s\<lparr>phase_sounding := SP_LBT, sounding_lbt_start_ms := current_time_ms s\<rparr>
             in (True, emit (Rx_Enabled True) s)
           else let s = end_sweep s in transition_to (previous_state s) s
      else transition_to (previous_state s) s)"

text \<open>The transitions of each state; \<open>None\<close> where the switch breaks without one.\<close>

definition state_event :: "ale_event \<Rightarrow> ale_sm \<Rightarrow> (bool \<times> ale_sm) option" where
  "state_event event s =
     (case current_state s of
        IDLE \<Rightarrow>
          (if event = START_SCAN then Some (transition_to SCANNING s)
           else if event = CALL_REQUEST then Some (transition_to CALLING s)
           else if event = CALL_DETECTED then Some (transition_to HANDSHAKE s)
           else if event = SOUNDING_REQUEST then Some (transition_to SOUNDING s)
           else None)
      | SCANNING \<Rightarrow>
          (if event = STOP_SCAN then Some (transition_to IDLE s)
           else if event = CALL_DETECTED then Some (transition_to HANDSHAKE s)
           else if event = CALL_REQUEST then Some (transition_to CALLING s)
           else if event = SOUNDING_REQUEST then Some (transition_to SOUNDING s)
           else None)
      | CALLING \<Rightarrow>
          (if event = HANDSHAKE_COMPLETE then Some (transition_to LINKED s)
           else if event = LINK_TIMEOUT then Some (transition_to (pre_link_state s) s)
           else if event = AMD_DECLINED_LINK then Some (transition_to (pre_link_state s) s)
           else None)
      | HANDSHAKE \<Rightarrow>
          (if event = HANDSHAKE_COMPLETE then Some (transition_to LINKED s)
           else if event = LINK_TIMEOUT then Some (transition_to (pre_link_state s) s)
           else if event = AMD_DECLINED_LINK then Some (transition_to (pre_link_state s) s)
           else None)
      | LINKED \<Rightarrow>
          (if event = LINK_TERMINATED \<or> event = LINK_TIMEOUT then Some (transition_to (pre_link_state s) s)
           else None)
      | SOUNDING \<Rightarrow>
          (if event = SOUNDING_COMPLETE then Some (sounding_complete s)
           else if event = CALL_DETECTED then Some (transition_to HANDSHAKE (end_sweep s))
           else None)
      | ERROR_STATE \<Rightarrow>
          (if event = START_SCAN then Some (transition_to SCANNING s) else Some (transition_to IDLE s)))"

definition process_event :: "ale_event \<Rightarrow> ale_sm \<Rightarrow> bool \<times> ale_sm" where
  "process_event event s =
     (case state_event event s of
        Some r \<Rightarrow> r
      | None \<Rightarrow> if event = ERROR_OCCURRED then transition_to ERROR_STATE s else (False, s))"

abbreviation fire :: "ale_event \<Rightarrow> ale_sm \<Rightarrow> ale_sm" where
  "fire event s \<equiv> snd (process_event event s)"

section \<open>Transmission\<close>

definition transmit_word :: "ale_word \<Rightarrow> ale_sm \<Rightarrow> ale_sm" where
  "transmit_word word s =
     (let w = word\<lparr>timestamp_ms := current_time_ms s\<rparr>
      in emit (Transmit w) (s\<lparr>words_pending := words_pending s + 1\<rparr>))"

definition transmit_words :: "ale_word list \<Rightarrow> ale_sm \<Rightarrow> ale_sm" where
  "transmit_words ws s = fold transmit_word ws s"

definition self_addr :: "ale_sm \<Rightarrow> string" where
  "self_addr s = self_address (book s)"

definition scaled_drain_deadline :: "ale_sm \<Rightarrow> u32" where
  "scaled_drain_deadline s = max TX_DRAIN_TIMEOUT_MS (words_pending s * TRW_MS + 2 * TRW_MS)"

definition arm_drain :: "u32 \<Rightarrow> ale_sm \<Rightarrow> ale_sm" where
  "arm_drain deadline s = s\<lparr>tx_drain_start_ms := current_time_ms s, tx_drain_deadline_ms := deadline\<rparr>"

definition enqueue_call_sequence :: "ale_sm \<Rightarrow> ale_sm" where
  "enqueue_call_sequence s =
     (let s = transmit_words (scanning_seq s) s;
          s = transmit_words (leading_seq s) s;
          s = transmit_words (active_amd_from_seq s) s;
          s = transmit_words (active_lqa_cmd_seq s) s;
          s = transmit_words (active_lqa_report_seq s) s;
          s = transmit_words (active_amd_words s) s
      in transmit_words (conclusion_seq s) s)"

definition no_link :: "ale_sm \<Rightarrow> bool" where
  "no_link s = (pm_type (active_msg s) = PM_AMD \<and> \<not> link_after_send (active_msg s))"

definition build_ack_words :: "ale_sm \<Rightarrow> ale_sm" where
  "build_ack_words s =
     (let s = transmit_words (ack_frame (to_address s) (self_addr s) (no_link s)) s
      in if words_pending s > 0 then arm_drain TX_DRAIN_TIMEOUT_MS s else s)"

text \<open>Where the conclusion of a frame begins: its first TIS or TWAS word.\<close>

fun conclusion_start :: "nat \<Rightarrow> ale_word list \<Rightarrow> nat" where
  "conclusion_start i [] = i"
| "conclusion_start i (w # ws) =
     (if word_type w = TIS \<or> word_type w = TWAS then i else conclusion_start (Suc i) ws)"

definition build_response_words :: "ale_sm \<Rightarrow> ale_sm" where
  "build_response_words s =
     (let lqa_seq = (if pending_lqa_cmd_set s then lqa_cmd (pending_lqa_cmd_raw s) else []);
          s = (if pending_lqa_cmd_set s then s\<lparr>pending_lqa_cmd_set := False\<rparr> else s);
          report_seq = (if pending_lqa_report_set s then pending_lqa_report_seq s else []);
          s = (if pending_lqa_report_set s then s\<lparr>pending_lqa_report_set := False\<rparr> else s);
          s = (if pending_reject s \<or> (lqa_seq = [] \<and> report_seq = [])
               then transmit_words (response (caller_address s) (self_addr s) (pending_reject s)) s
               else
                 let bw = response (caller_address s) (self_addr s) False;
                     conc_start = conclusion_start 0 bw
                 in transmit_words (take conc_start bw @ lqa_seq @ report_seq @ drop conc_start bw) s)
      in if words_pending s > 0 then arm_drain (scaled_drain_deadline s) s else s)"

section \<open>The next calling channel\<close>

definition try_next_calling_channel :: "ale_sm \<Rightarrow> ale_sm" where
  "try_next_calling_channel s =
     (let s = s\<lparr>calling_channel_index := calling_channel_index s + 1\<rparr>
      in if calling_channels s \<noteq> [] \<and> unat (calling_channel_index s) < length (calling_channels s)
         then
           let s = emit_channels (hop_calling (calling_channels s ! unat (calling_channel_index s))) s
           in s\<lparr>phase_calling := CP_LBT, lbt_start_ms := current_time_ms s, tune_start_ms := 0,
                first_call_tx_ms := 0, call_cycle_count := 0, call_cycles_in_phase := 0,
                words_pending := 0, listening_start_ms := 0, response_to_detected := False,
                response_rx_start_ms := 0, tlww_start_ms := 0, to_address := '''',
                state_entry_time_ms := current_time_ms s\<rparr>
         else fire LINK_TIMEOUT (emit (Operator NO_CHANNELS_LEFT) s))"

end
