(* ===== verification/Sm_Update.thy ===== *)
theory Sm_Update
  imports Sm_Step
begin

text \<open>
  \<open>src/Protocol/Control/ale_state_machine.cpp\<close>, the passage of time: \<open>update\<close> with the timeouts and
  the handler of each state. All time differences are unsigned 32-bit differences.
\<close>

section \<open>Timeouts\<close>

definition compute_calling_timeout_ms :: "ale_sm \<Rightarrow> u32" where
  "compute_calling_timeout_ms s = calc_calling_timeout_ms
     \<lparr>n_channels = (if calling_channels s = [] then 1 else of_nat (length (calling_channels s))),
      budget_scan_channels = target_scan_channels s,
      leading_seq_words = of_nat (length (leading_seq s)),
      conclusion_words = of_nat (length (conclusion_seq s)),
      message_words = of_nat (length (active_amd_from_seq s) + length (active_lqa_cmd_seq s) +
        length (active_lqa_report_seq s) + length (active_amd_words s))\<rparr>"

definition check_link_timeout :: "ale_sm \<Rightarrow> bool" where
  "check_link_timeout s =
     (case current_state s of
        CALLING \<Rightarrow> current_time_ms s - state_entry_time_ms s > compute_calling_timeout_ms s
      | HANDSHAKE \<Rightarrow> current_time_ms s - state_entry_time_ms s > param_Twa_ms (timing s)
      | LINKED \<Rightarrow> current_time_ms s - last_word_time_ms s > max (param_Twa_ms (timing s)) LINK_TIMEOUT_MS
      | _ \<Rightarrow> False)"

section \<open>Scanning\<close>

definition handle_scanning :: "sm_env \<Rightarrow> ale_sm \<Rightarrow> ale_sm" where
  "handle_scanning env s =
     (if phase_scanning s = SCAN_PAUSE
      then if current_time_ms s - scan_pause_settle_ms s \<ge> Tdrw_ms
           then let (_, m, out) = hop_next (current_time_ms s) (chan_mgr s)
                in (emit_channels out (s\<lparr>chan_mgr := m\<rparr>))\<lparr>phase_scanning := HOPPING\<rparr>
           else s
      else
        let ready = hop_ready env;
            s = (if ready \<and> \<not> prev_hop_ready s
                 then s\<lparr>chan_mgr := anchor_dwell (current_time_ms s) (chan_mgr s)\<rparr> else s);
            s = s\<lparr>prev_hop_ready := ready\<rparr>
        in if check_dwell_timeout (current_time_ms s) (chan_mgr s) \<and> ready
           then let (_, m, out) = hop_next (current_time_ms s) (chan_mgr s)
                in emit_channels out (s\<lparr>chan_mgr := m\<rparr>)
           else s)"

section \<open>Calling\<close>

definition calling_lbt :: "sm_env \<Rightarrow> ale_sm \<Rightarrow> ale_sm" where
  "calling_lbt env s =
     (if lbt_channel_busy env s then try_next_calling_channel s
      else if current_time_ms s - lbt_start_ms s \<ge> effective_twt_ms s
      then emit (Rx_Enabled False) (s\<lparr>phase_calling := CP_TUNING, tune_start_ms := current_time_ms s\<rparr>)
      else s)"

definition calling_tuning :: "ale_sm \<Rightarrow> ale_sm" where
  "calling_tuning s =
     (if current_time_ms s - tune_start_ms s \<ge> param_Tt_ms (timing s)
      then
        let s = s\<lparr>first_call_tx_ms := current_time_ms s, call_cycles_in_phase := 0\<rparr>;
            s = (if active_call_is_group s \<and> target_scan_channels s > 0
                 then s\<lparr>phase_calling := CP_GROUP_SCANNING_CALL\<rparr>
                 else if target_scan_channels s > 0 then s\<lparr>phase_calling := CP_SCANNING_CALL\<rparr>
                 else s\<lparr>phase_calling := CP_LEADING_CALL\<rparr>)
        in enqueue_call_sequence s
      else s)"

definition calling_listening :: "ale_sm \<Rightarrow> ale_sm" where
  "calling_listening s =
     (if \<not> response_to_detected s
      then if current_time_ms s - listening_start_ms s \<ge> listening_response_wait_ms
           then try_next_calling_channel s else s
      else if tlww_start_ms s = 0
      then if current_time_ms s - last_word_time_ms s \<ge> 5 * TRW_MS
           then try_next_calling_channel s else s
      else if current_time_ms s - tlww_start_ms s \<ge> Tdrw_ms
      then emit (Rx_Enabled False)
             (s\<lparr>phase_calling := CP_SENDING_ACK, call_cycles_in_phase := 0, collecting_remote_conclusion := False\<rparr>)
      else s)"

definition calling_sending_ack :: "ale_sm \<Rightarrow> ale_sm" where
  "calling_sending_ack s =
     (if words_pending s > 0
      then if tx_drain_start_ms s \<noteq> 0 \<and> current_time_ms s - tx_drain_start_ms s \<ge> tx_drain_deadline_ms s
           then fire LINK_TIMEOUT (s\<lparr>tx_drain_start_ms := 0\<rparr>)
           else s
      else if call_cycles_in_phase s = 0 then build_ack_words s else s)"

definition handle_calling :: "sm_env \<Rightarrow> ale_sm \<Rightarrow> ale_sm" where
  "handle_calling env s =
     (case phase_calling s of
        CP_LBT \<Rightarrow> calling_lbt env s
      | CP_TUNING \<Rightarrow> calling_tuning s
      | CP_LISTENING \<Rightarrow> calling_listening s
      | CP_SENDING_ACK \<Rightarrow> calling_sending_ack s
      | _ \<Rightarrow> s)"

section \<open>Handshake\<close>

definition handshake_wait_cycle_end :: "ale_sm \<Rightarrow> ale_sm" where
  "handshake_wait_cycle_end s =
     (if \<not> hs_conclusion_rcvd s \<and> current_time_ms s - last_word_time_ms s \<ge> twce_ms s
      then fire LINK_TIMEOUT s
      else if \<not> hs_conclusion_rcvd s \<and> hs_message_start_ms s > 0 \<and>
              current_time_ms s - hs_message_start_ms s \<ge> Tm_max_ms
      then fire LINK_TIMEOUT s
      else if hs_conclusion_rcvd s \<and> hs_tlww_start_ms s > 0 \<and>
              current_time_ms s - hs_tlww_start_ms s \<ge> Tdrw_ms
      then if hs_conclusion_is_twas s then fire LINK_TIMEOUT s
           else if allcall_silent s
           then fire HANDSHAKE_COMPLETE
                  (emit (Operator LINK_ESTABLISHED) (s\<lparr>active_call_to := caller_address s\<rparr>))
           else s\<lparr>phase_handshake := HP_SLOT_WAIT, slot_wait_start_ms := current_time_ms s\<rparr>
      else s)"

definition handshake_slot_wait :: "ale_sm \<Rightarrow> ale_sm" where
  "handshake_slot_wait s =
     (if current_time_ms s - slot_wait_start_ms s \<ge> tswt_ms s
      then s\<lparr>phase_handshake := HP_CHANNEL_CHECK, hs_lbt_start_ms := current_time_ms s\<rparr>
      else s)"

definition handshake_channel_check :: "sm_env \<Rightarrow> ale_sm \<Rightarrow> ale_sm" where
  "handshake_channel_check env s =
     (if lbt_channel_busy env s then fire LINK_TIMEOUT s
      else if current_time_ms s - hs_lbt_start_ms s \<ge> Tdrw_ms
      then build_response_words
             ((emit (Rx_Enabled False) s)\<lparr>phase_handshake := HP_SENDING_RESPONSE, hs_words_in_phase := 0\<rparr>)
      else s)"

definition handshake_sending_response :: "ale_sm \<Rightarrow> ale_sm" where
  "handshake_sending_response s =
     (if tx_drain_start_ms s \<noteq> 0 \<and> current_time_ms s - tx_drain_start_ms s \<ge> tx_drain_deadline_ms s
      then fire LINK_TIMEOUT (s\<lparr>tx_drain_start_ms := 0\<rparr>)
      else s)"

definition handshake_wait_ack :: "ale_sm \<Rightarrow> ale_sm" where
  "handshake_wait_ack s =
     (if hs_ack_to_ms s = 0 \<and> current_time_ms s - hs_ack_start_ms s \<ge> wait_ack_start_wait_ms
      then fire LINK_TIMEOUT s
      else if hs_ack_to_ms s \<noteq> 0 \<and> \<not> hs_ack_tis_rcvd s \<and>
              current_time_ms s - last_word_time_ms s \<ge> 5 * TRW_MS
      then fire LINK_TIMEOUT s
      else if hs_ack_tis_rcvd s \<and> hs_tlww_start_ms s > 0 \<and>
              current_time_ms s - hs_tlww_start_ms s \<ge> Tdrw_ms
      then fire HANDSHAKE_COMPLETE (emit (Operator LINK_ESTABLISHED) s)
      else s)"

definition handle_handshake :: "sm_env \<Rightarrow> ale_sm \<Rightarrow> ale_sm" where
  "handle_handshake env s =
     (case phase_handshake s of
        HP_WAIT_CYCLE_END \<Rightarrow> handshake_wait_cycle_end s
      | HP_AWAIT_ACCEPT \<Rightarrow> s\<lparr>phase_handshake := HP_SLOT_WAIT, slot_wait_start_ms := current_time_ms s\<rparr>
      | HP_SLOT_WAIT \<Rightarrow> handshake_slot_wait s
      | HP_CHANNEL_CHECK \<Rightarrow> handshake_channel_check env s
      | HP_SENDING_RESPONSE \<Rightarrow> handshake_sending_response s
      | HP_WAIT_ACK \<Rightarrow> handshake_wait_ack s)"

section \<open>Linked: confirmation of a displayed message\<close>

definition linked_amd_retry_or_fail :: "ale_sm \<Rightarrow> ale_sm" where
  "linked_amd_retry_or_fail s =
     (if linked_amd_attempts_left s > 1
      then emit (Operator AMD_RETRY)
             (s\<lparr>linked_amd_attempts_left := linked_amd_attempts_left s - 1,
                linked_amd_listen_start_ms := 0, linked_amd_resp_detected := False,
                linked_amd_resp_tlww_ms := 0, linked_amd_retry_pending := True,
                linked_amd_retry_after_ms := current_time_ms s + TT_NEXT_TRY_MS,
                last_word_time_ms := current_time_ms s\<rparr>)
      else emit (Operator AMD_NOT_DELIVERED)
             (s\<lparr>phase_linked_amd := LA_NONE, linked_amd_listen_start_ms := 0\<rparr>))"

definition handle_linked_amd_listening :: "ale_sm \<Rightarrow> ale_sm" where
  "handle_linked_amd_listening s =
     (if \<not> linked_amd_resp_detected s
      then if current_time_ms s - linked_amd_listen_start_ms s \<ge> listening_response_wait_ms
           then linked_amd_retry_or_fail s else s
      else if linked_amd_resp_tlww_ms s = 0
      then if current_time_ms s - last_word_time_ms s \<ge> 5 * TRW_MS
           then linked_amd_retry_or_fail s else s
      else if current_time_ms s - linked_amd_resp_tlww_ms s \<ge> Tdrw_ms
      then s\<lparr>phase_linked_amd := LA_SENDING_ACK, linked_amd_listen_start_ms := 0,
             pending_orderwire_words := leading_call (linked_amd_peer s), orderwire_double_burst := False,
             orderwire_pending := True, last_word_time_ms := current_time_ms s\<rparr>
      else s)"

definition handle_linked_amd_wait_ack :: "ale_sm \<Rightarrow> ale_sm" where
  "handle_linked_amd_wait_ack s =
     (if \<not> linked_amd_ack_to_detected s
      then if current_time_ms s - linked_amd_ack_start_ms s \<ge> wait_ack_start_wait_ms
           then s\<lparr>phase_linked_amd := LA_NONE\<rparr> else s
      else if \<not> linked_amd_ack_tis_rcvd s
      then if current_time_ms s - last_word_time_ms s \<ge> 5 * TRW_MS
           then s\<lparr>phase_linked_amd := LA_NONE\<rparr> else s
      else if linked_amd_ack_tlww_ms s \<noteq> 0 \<and> current_time_ms s - linked_amd_ack_tlww_ms s \<ge> Tdrw_ms
      then s\<lparr>phase_linked_amd := LA_NONE\<rparr>
      else s)"

section \<open>Linked\<close>

definition linked_drain_timeout :: "ale_sm \<Rightarrow> ale_sm" where
  "linked_drain_timeout s =
     (if linked_terminating s
      then fire LINK_TERMINATED
             (emit (Rx_Enabled True) (s\<lparr>linked_terminating := False, tx_drain_start_ms := 0\<rparr>))
      else emit (Rx_Enabled True) (s\<lparr>orderwire_transmitting := False, tx_drain_start_ms := 0\<rparr>))"

definition orderwire_words :: "ale_sm \<Rightarrow> ale_word list" where
  "orderwire_words s =
     (let tx = pending_orderwire_words s @ conclusion (self_addr s) False
      in if orderwire_double_burst s then tx @ tx else tx)"

definition send_orderwire :: "ale_sm \<Rightarrow> ale_sm" where
  "send_orderwire s =
     (let s = emit (Rx_Enabled False) (s\<lparr>orderwire_pending := False, orderwire_transmitting := True\<rparr>);
          s = transmit_words (orderwire_words s) s
      in if words_pending s > 0 then arm_drain (scaled_drain_deadline s) s else s)"

definition linked_amd_retry :: "ale_sm \<Rightarrow> ale_sm" where
  "linked_amd_retry s =
     (if current_time_ms s \<ge> linked_amd_retry_after_ms s
      then s\<lparr>linked_amd_retry_pending := False, pending_orderwire_words := linked_amd_burst s,
             orderwire_double_burst := False, orderwire_pending := True,
             last_word_time_ms := current_time_ms s\<rparr>
      else s)"

definition warn_lead_ms :: "ale_sm \<Rightarrow> u32" where
  "warn_lead_ms s = min IDLE_WARNING_LEAD_MS (param_Twa_ms (timing s) div 2)"

definition linked_idle_warning :: "ale_sm \<Rightarrow> ale_sm" where
  "linked_idle_warning s =
     (let s = (if last_word_time_ms s \<noteq> last_seen_word_time_ms s
               then s\<lparr>last_seen_word_time_ms := last_word_time_ms s, idle_warning_sent := False\<rparr> else s)
      in if \<not> linked_terminating s \<and> \<not> idle_warning_sent s \<and> idle_warning_cb_set s
         then
           let idle_ms = current_time_ms s - last_word_time_ms s;
               twa = param_Twa_ms (timing s);
               lead_ms = warn_lead_ms s;
               warn_at = (if twa > lead_ms then twa - lead_ms else 0)
           in if idle_ms \<ge> warn_at
              then emit (Idle_Warning (if twa > idle_ms then (twa - idle_ms) div 1000 else 0))
                     (s\<lparr>idle_warning_sent := True\<rparr>)
              else s
         else s)"

definition linked_twa :: "ale_sm \<Rightarrow> ale_sm" where
  "linked_twa s =
     (if current_time_ms s - last_word_time_ms s \<ge> param_Twa_ms (timing s)
      then
        let s = s\<lparr>linked_terminating := True\<rparr>;
            s = (if active_call_to s \<noteq> [] \<and> self_addr s \<noteq> []
                 then transmit_words (termination_frame (active_call_to s) (self_addr s)) s else s)
        in fire LINK_TIMEOUT s
      else s)"

definition handle_linked :: "ale_sm \<Rightarrow> ale_sm" where
  "handle_linked s =
     (if (linked_terminating s \<or> orderwire_transmitting s) \<and> tx_drain_start_ms s \<noteq> 0 \<and>
         current_time_ms s - tx_drain_start_ms s \<ge> tx_drain_deadline_ms s
      then linked_drain_timeout s
      else if linked_terminating s then s
      else
        let settled = (linked_twas_addr s \<noteq> [] \<and> current_time_ms s - linked_twas_last_ms s \<ge> Tdrw_ms)
        in if settled \<and> linked_twas_addr s = active_call_to s
           then fire LINK_TERMINATED (s\<lparr>linked_twas_addr := ''''\<rparr>)
           else
             let s = (if settled then s\<lparr>linked_twas_addr := ''''\<rparr> else s)
             in if orderwire_transmitting s then s
                else if orderwire_pending s then send_orderwire s
                else if linked_amd_retry_pending s then linked_amd_retry s
                else if phase_linked_amd s = LA_LISTENING \<and> linked_amd_listen_start_ms s \<noteq> 0
                then handle_linked_amd_listening s
                else if phase_linked_amd s = LA_WAIT_ACK then handle_linked_amd_wait_ack s
                else linked_twa (linked_idle_warning s))"

section \<open>Sounding\<close>

definition noise_word :: "u32 \<Rightarrow> ale_word" where
  "noise_word raw = cmd_word (CHR ''n'') (raw AND 0x1FFFFF)"

definition sounding_words :: "ale_sm \<Rightarrow> ale_word list" where
  "sounding_words s =
     (let n = unat (target_scan_channels s);
          reps = (if n > 0 then n + 2 else 2);
          cw = conclusion (self_addr s) (sounding_use_twas s)
      in concat (replicate reps cw) @
         (if pending_noise_cmd_set s then [noise_word (pending_noise_cmd_raw s)] else []))"

definition sounding_lbt :: "sm_env \<Rightarrow> ale_sm \<Rightarrow> ale_sm" where
  "sounding_lbt env s =
     (if lbt_channel_busy env s then fire SOUNDING_COMPLETE s
      else if current_time_ms s - sounding_lbt_start_ms s \<ge> effective_twt_ms s
      then
        let s = s\<lparr>phase_sounding := SP_TRANSMITTING\<rparr>
        in if self_addr s \<noteq> []
           then let s = emit (Rx_Enabled False) s;
                    tx = sounding_words s
                in transmit_words tx (s\<lparr>pending_noise_cmd_set := False\<rparr>)
           else fire SOUNDING_COMPLETE s
      else s)"

definition handle_sounding :: "sm_env \<Rightarrow> ale_sm \<Rightarrow> ale_sm" where
  "handle_sounding env s =
     (if phase_sounding s = SP_LBT then sounding_lbt env s
      else
        let s = (if phase_sounding s = SP_TRANSMITTING \<and> words_pending s = 0
                 then emit (Rx_Enabled True)
                        (s\<lparr>phase_sounding := SP_LISTENING, sounding_listening_start_ms := current_time_ms s\<rparr>)
                 else s)
        in if phase_sounding s = SP_TRANSMITTING then s
           else if current_time_ms s - sounding_listening_start_ms s > TRW_MS then fire SOUNDING_COMPLETE s
           else s)"

section \<open>One tick\<close>

definition handle_state :: "sm_env \<Rightarrow> ale_sm \<Rightarrow> ale_sm" where
  "handle_state env s =
     (case current_state s of
        SCANNING \<Rightarrow> handle_scanning env s
      | CALLING \<Rightarrow> handle_calling env s
      | HANDSHAKE \<Rightarrow> handle_handshake env s
      | LINKED \<Rightarrow> handle_linked s
      | SOUNDING \<Rightarrow> handle_sounding env s
      | _ \<Rightarrow> s)"

definition update :: "sm_env \<Rightarrow> u32 \<Rightarrow> ale_sm \<Rightarrow> ale_sm" where
  "update env now_ms s =
     (if now_ms - current_time_ms s \<ge> 0x80000000 then s
      else
        let s = s\<lparr>current_time_ms := now_ms\<rparr>
        in if check_link_timeout s then fire LINK_TIMEOUT s
           else if allcall_broadcasting s \<and> tx_drain_start_ms s \<noteq> 0 \<and>
                   current_time_ms s - tx_drain_start_ms s \<ge> tx_drain_deadline_ms s
           then emit (Rx_Enabled True)
                  (s\<lparr>allcall_broadcasting := False, tx_drain_start_ms := 0, words_pending := 0\<rparr>)
           else handle_state env s)"

end
