(* ===== verification/Sm_Api.thy ===== *)
theory Sm_Api
  imports Sm_Update
begin

text \<open>
  \<open>src/Protocol/Control/ale_state_machine.cpp\<close> and the inline members of the header: what the
  controller calls (calls, soundings, broadcasts, termination, orderwire messages, settings) and
  \<open>on_word_complete\<close>, which the audio layer calls once for each word rendered.
\<close>

section \<open>Calls\<close>

definition has_amd :: "ale_sm \<Rightarrow> bool" where
  "has_amd s = (pm_type (active_msg s) = PM_AMD \<and> pm_content (active_msg s) \<noteq> [])"

text \<open>The part that individual and group calls share: the pending message and reports are taken.\<close>

definition snapshot_pending :: "ale_sm \<Rightarrow> ale_sm" where
  "snapshot_pending s =
     (let s = s\<lparr>active_msg := pending_msg s, pending_msg := PendingMessage\<rparr>;
          s = s\<lparr>active_amd_from_seq := if has_amd s then from_id (self_addr s) else [],
                active_amd_words := if has_amd s then encode_amd (pm_content (active_msg s)) else []\<rparr>;
          s = s\<lparr>active_lqa_cmd_seq := if pending_lqa_cmd_set s then lqa_cmd (pending_lqa_cmd_raw s) else [],
                pending_lqa_cmd_set := False\<rparr>
      in s\<lparr>active_lqa_report_seq := if pending_lqa_report_set s then pending_lqa_report_seq s else [],
           pending_lqa_report_set := False\<rparr>)"

definition available :: "ale_sm \<Rightarrow> bool" where
  "available s = (current_state s = IDLE \<or> current_state s = SCANNING)"

definition initiate_call :: "string \<Rightarrow> ale_sm \<Rightarrow> bool \<times> ale_sm" where
  "initiate_call target s =
     (if \<not> available s then (False, s)
      else
        let s = s\<lparr>active_call_to := target, active_call_from := self_addr s, active_call_is_net := False,
                  active_call_is_group := False, calling_channel_index := 0\<rparr>;
            s = s\<lparr>scanning_seq := scanning_call target (target_scan_channels s),
                  leading_seq := leading_call target,
                  conclusion_seq := conclusion (self_addr s) False\<rparr>
        in process_event CALL_REQUEST (snapshot_pending s))"

definition initiate_net_call :: "string \<Rightarrow> ale_sm \<Rightarrow> bool \<times> ale_sm" where
  "initiate_net_call net_address s =
     (if \<not> available s then (False, s)
      else
        let s = s\<lparr>active_call_to := net_address, active_call_from := self_addr s, active_call_is_net := True,
                  active_call_is_group := False, calling_channel_index := 0\<rparr>;
            s = s\<lparr>scanning_seq := scanning_call net_address (target_scan_channels s),
                  leading_seq := leading_call net_address,
                  conclusion_seq := conclusion (self_addr s) False\<rparr>
        in process_event CALL_REQUEST s)"

definition initiate_group_call :: "string list \<Rightarrow> ale_sm \<Rightarrow> bool \<times> ale_sm" where
  "initiate_group_call members s =
     (if \<not> available s then (False, s)
      else if members = [] then (False, s)
      else
        let s = s\<lparr>active_call_to := hd members, active_call_from := self_addr s, active_call_is_net := False,
                  active_call_is_group := True, calling_channel_index := 0\<rparr>;
            s = s\<lparr>group_scan_seq := scanning_call_group members (target_scan_channels s),
                  leading_seq := leading_call_group members,
                  conclusion_seq := conclusion (self_addr s) False\<rparr>;
            s = s\<lparr>scanning_seq := group_scan_seq s\<rparr>
        in process_event CALL_REQUEST (snapshot_pending s))"

definition respond_to_call :: "ale_sm \<Rightarrow> bool \<times> ale_sm" where
  "respond_to_call s =
     (if current_state s \<noteq> HANDSHAKE then (False, s)
      else if phase_handshake s \<noteq> HP_WAIT_ACK then (False, s)
      else if caller_address s = [] then (False, s)
      else (True, fire HANDSHAKE_COMPLETE s))"

definition reject_call :: "ale_sm \<Rightarrow> bool \<times> ale_sm" where
  "reject_call s = (False, s)"

definition accept_call :: "ale_sm \<Rightarrow> bool \<times> ale_sm" where
  "accept_call s = (False, s)"

section \<open>Soundings and broadcasts\<close>

definition send_sounding :: "ale_sm \<Rightarrow> bool \<times> ale_sm" where
  "send_sounding s = (if \<not> available s then (False, s) else process_event SOUNDING_REQUEST s)"

definition send_sounding_sweep :: "channel list \<Rightarrow> ale_sm \<Rightarrow> bool \<times> ale_sm" where
  "send_sounding_sweep channels s =
     (if \<not> available s then (False, s)
      else if allcall_broadcasting s then (False, s)
      else if channels = [] then (False, s)
      else
        let s = s\<lparr>sounding_sweep_chs := channels, sounding_sweep_idx := 0, sounding_sweep_active := True\<rparr>;
            (m, out) = set_override (hd channels) (chan_mgr s)
        in process_event SOUNDING_REQUEST (emit_channels out (s\<lparr>chan_mgr := m\<rparr>)))"

definition allcall_words :: "string \<Rightarrow> ale_word list \<Rightarrow> bool \<Rightarrow> ale_sm \<Rightarrow> ale_word list" where
  "allcall_words self amd link_after s =
     scanning_call ''@?@'' (target_scan_channels s) @ leading_call ''@?@'' @ from_id self @ amd @
     conclusion self (\<not> link_after)"

definition send_allcall_broadcast :: "string \<Rightarrow> string \<Rightarrow> bool \<Rightarrow> ale_sm \<Rightarrow> bool \<times> ale_sm" where
  "send_allcall_broadcast self txt link_after s =
     (if \<not> available s then (False, s)
      else if allcall_broadcasting s then (False, s)
      else if self = [] then (False, s)
      else let amd = encode_amd txt
           in if amd = [] then (False, s)
              else
                let s = emit (Rx_Enabled False) (s\<lparr>allcall_broadcasting := True\<rparr>);
                    s = transmit_words (allcall_words self amd link_after s) s
                in (True, if words_pending s > 0 then arm_drain (scaled_drain_deadline s) s else s))"

section \<open>Termination\<close>

definition terminate_link :: "ale_sm \<Rightarrow> ale_sm" where
  "terminate_link s =
     (if current_state s \<noteq> LINKED then s
      else
        let s = s\<lparr>linked_terminating := True\<rparr>;
            s = transmit_words (termination_frame (active_call_to s) (self_addr s)) s;
            s = emit (Rx_Enabled False) s
        in if words_pending s = 0 then fire LINK_TERMINATED (s\<lparr>linked_terminating := False\<rparr>)
           else arm_drain TX_DRAIN_TIMEOUT_MS s)"

definition emergency_manual_control :: "ale_sm \<Rightarrow> ale_sm" where
  "emergency_manual_control s =
     (let s = emit (Operator EMERGENCY_ACTIVE) (s\<lparr>emergency_active := True\<rparr>);
          s = (if current_state s = LINKED \<and> \<not> linked_terminating s \<and> active_call_to s \<noteq> [] \<and> self_addr s \<noteq> []
               then transmit_words (termination_frame (active_call_to s) (self_addr s)) (s\<lparr>linked_terminating := True\<rparr>)
               else s)
      in snd (transition_to IDLE s))"

section \<open>Messages over an established link\<close>

definition trigger_linked_orderwire :: "ale_word list \<Rightarrow> bool \<Rightarrow> ale_sm \<Rightarrow> ale_sm" where
  "trigger_linked_orderwire words double_burst s =
     (if current_state s \<noteq> LINKED \<or> linked_terminating s then s
      else s\<lparr>pending_orderwire_words := words, orderwire_double_burst := double_burst,
             orderwire_pending := True, last_word_time_ms := current_time_ms s\<rparr>)"

definition send_linked_amd :: "ale_word list \<Rightarrow> string \<Rightarrow> u32 \<Rightarrow> ale_sm \<Rightarrow> ale_sm" where
  "send_linked_amd content_words peer max_attempts s =
     (if current_state s \<noteq> LINKED \<or> linked_terminating s then s
      else s\<lparr>linked_amd_burst := content_words, linked_amd_peer := peer,
             linked_amd_attempts_left := max 1 max_attempts, phase_linked_amd := LA_LISTENING,
             linked_amd_listen_start_ms := 0, linked_amd_resp_detected := False, linked_amd_resp_tlww_ms := 0,
             pending_orderwire_words := content_words, orderwire_double_burst := False,
             orderwire_pending := True, last_word_time_ms := current_time_ms s\<rparr>)"

definition respond_to_linked_amd :: "string \<Rightarrow> ale_word list \<Rightarrow> ale_sm \<Rightarrow> ale_sm" where
  "respond_to_linked_amd sender extra_cmd_words s =
     (if current_state s \<noteq> LINKED \<or> linked_terminating s then s
      else if sender = [] then s
      else s\<lparr>linked_amd_peer := sender, phase_linked_amd := LA_RESPONDING,
             pending_orderwire_words := leading_call sender @ extra_cmd_words, orderwire_double_burst := False,
             orderwire_pending := True, last_word_time_ms := current_time_ms s\<rparr>)"

definition on_link_activity :: "ale_sm \<Rightarrow> ale_sm" where
  "on_link_activity s = (if current_state s = LINKED then s\<lparr>last_word_time_ms := current_time_ms s\<rparr> else s)"

definition reset_link_idle_timer :: "ale_sm \<Rightarrow> ale_sm" where
  "reset_link_idle_timer s =
     (if current_state s \<noteq> LINKED then s
      else s\<lparr>last_word_time_ms := current_time_ms s, idle_warning_sent := False,
             last_seen_word_time_ms := current_time_ms s\<rparr>)"

section \<open>A word has been rendered\<close>

definition dec_pending :: "ale_sm \<Rightarrow> ale_sm" where
  "dec_pending s = (if words_pending s > 0 then s\<lparr>words_pending := words_pending s - 1\<rparr> else s)"

definition linked_amd_handoff :: "ale_sm \<Rightarrow> ale_sm" where
  "linked_amd_handoff s =
     (case phase_linked_amd s of
        LA_LISTENING \<Rightarrow>
          s\<lparr>linked_amd_listen_start_ms := current_time_ms s, linked_amd_resp_detected := False,
            linked_amd_resp_tlww_ms := 0, last_word_time_ms := current_time_ms s\<rparr>
      | LA_RESPONDING \<Rightarrow>
          s\<lparr>phase_linked_amd := LA_WAIT_ACK, linked_amd_ack_start_ms := current_time_ms s,
            linked_amd_ack_to_detected := False, linked_amd_ack_tis_rcvd := False,
            linked_amd_ack_tlww_ms := 0, last_word_time_ms := current_time_ms s\<rparr>
      | LA_SENDING_ACK \<Rightarrow> emit (Operator AMD_DELIVERED) (s\<lparr>phase_linked_amd := LA_NONE\<rparr>)
      | _ \<Rightarrow> s)"

definition tlc_slots :: "ale_sm \<Rightarrow> u32" where
  "tlc_slots s = of_nat (length (leading_seq s)) + of_nat (length (active_amd_from_seq s)) +
     of_nat (length (active_lqa_cmd_seq s)) + of_nat (length (active_lqa_report_seq s)) +
     of_nat (length (active_amd_words s))"

definition sending_ack_complete :: "ale_sm \<Rightarrow> ale_sm" where
  "sending_ack_complete s =
     (if words_pending s = 0
      then if no_link s then fire AMD_DECLINED_LINK (emit (Operator AMD_SENT_NO_LINK) s)
           else fire HANDSHAKE_COMPLETE (emit (Operator LINK_ESTABLISHED) s)
      else s)"

definition calling_word_complete :: "ale_sm \<Rightarrow> ale_sm" where
  "calling_word_complete s =
     (if words_pending s = 0 then s
      else
        let s = s\<lparr>words_pending := words_pending s - 1, call_cycle_count := call_cycle_count s + 1,
                  call_cycles_in_phase := call_cycles_in_phase s + 1\<rparr>
        in case phase_calling s of
             CP_SCANNING_CALL \<Rightarrow>
               (if call_cycles_in_phase s \<ge> target_scan_channels s * 2
                then s\<lparr>phase_calling := CP_LEADING_CALL, call_cycles_in_phase := 0\<rparr> else s)
           | CP_GROUP_SCANNING_CALL \<Rightarrow>
               (if call_cycles_in_phase s \<ge> of_nat (length (group_scan_seq s))
                then s\<lparr>phase_calling := CP_LEADING_CALL, call_cycles_in_phase := 0\<rparr> else s)
           | CP_LEADING_CALL \<Rightarrow>
               (if call_cycles_in_phase s \<ge> tlc_slots s
                then s\<lparr>phase_calling := CP_CONCLUSION, call_cycles_in_phase := 0\<rparr> else s)
           | CP_CONCLUSION \<Rightarrow>
               (if call_cycles_in_phase s \<ge> of_nat (length (conclusion_seq s))
                then emit (Rx_Enabled True)
                       (s\<lparr>phase_calling := CP_LISTENING, listening_start_ms := current_time_ms s,
                          call_cycles_in_phase := 0\<rparr>)
                else s)
           | CP_SENDING_ACK \<Rightarrow> sending_ack_complete s
           | _ \<Rightarrow> s)"

definition response_word_complete :: "ale_sm \<Rightarrow> ale_sm" where
  "response_word_complete s =
     (if words_pending s = 0 then s
      else
        let s = s\<lparr>words_pending := words_pending s - 1, hs_words_in_phase := hs_words_in_phase s + 1\<rparr>
        in if words_pending s = 0
           then if pending_reject s then fire LINK_TIMEOUT (s\<lparr>pending_reject := False\<rparr>)
                else emit (Rx_Enabled True)
                       (s\<lparr>phase_handshake := HP_WAIT_ACK, hs_ack_start_ms := current_time_ms s,
                          hs_ack_to_ms := 0, hs_tlww_start_ms := 0, hs_ack_tis_rcvd := False\<rparr>)
           else s)"

definition on_word_complete :: "ale_sm \<Rightarrow> ale_sm" where
  "on_word_complete s =
     (if current_state s = LINKED \<and> linked_terminating s
      then
        let s = dec_pending s
        in if words_pending s = 0
           then fire LINK_TERMINATED (s\<lparr>linked_terminating := False, tx_drain_start_ms := 0\<rparr>)
           else s
      else if current_state s = LINKED \<and> orderwire_transmitting s
      then
        let s = dec_pending s
        in if words_pending s = 0
           then linked_amd_handoff
                  (emit (Rx_Enabled True) (s\<lparr>orderwire_transmitting := False, tx_drain_start_ms := 0\<rparr>))
           else s
      else if current_state s = SOUNDING
      then
        let s = dec_pending s
        in if words_pending s = 0 \<and> phase_sounding s = SP_TRANSMITTING
           then emit (Rx_Enabled True)
                  (s\<lparr>phase_sounding := SP_LISTENING, sounding_listening_start_ms := current_time_ms s\<rparr>)
           else s
      else if allcall_broadcasting s
      then
        let s = dec_pending s
        in if words_pending s = 0
           then emit (Rx_Enabled True) (s\<lparr>allcall_broadcasting := False, tx_drain_start_ms := 0\<rparr>)
           else s
      else if current_state s = CALLING then calling_word_complete s
      else if current_state s = HANDSHAKE \<and> phase_handshake s = HP_SENDING_RESPONSE
      then response_word_complete s
      else s)"

section \<open>Settings\<close>

definition extend_peer_wait_window :: "u32 \<Rightarrow> ale_sm \<Rightarrow> ale_sm" where
  "extend_peer_wait_window delay s =
     (if delay = 0 then s
      else
        let s = (if phase_calling s = CP_LISTENING \<and> \<not> response_to_detected s
                 then s\<lparr>listening_start_ms := listening_start_ms s + delay\<rparr> else s);
            s = (if phase_handshake s = HP_WAIT_ACK \<and> hs_ack_to_ms s = 0
                 then s\<lparr>hs_ack_start_ms := hs_ack_start_ms s + delay\<rparr> else s)
        in if phase_sounding s = SP_LISTENING
           then s\<lparr>sounding_listening_start_ms := sounding_listening_start_ms s + delay\<rparr> else s)"

definition set_slot_number :: "u32 \<Rightarrow> u32 \<Rightarrow> ale_sm \<Rightarrow> ale_sm" where
  "set_slot_number slot wait_ms s = s\<lparr>slot_number := slot, tswt_ms := wait_ms\<rparr>"

definition set_calling_channels :: "channel list \<Rightarrow> ale_sm \<Rightarrow> ale_sm" where
  "set_calling_channels channels s = s\<lparr>calling_channels := channels, calling_channel_index := 0\<rparr>"

definition set_pending_message :: "pending_message \<Rightarrow> ale_sm \<Rightarrow> ale_sm" where
  "set_pending_message msg s = s\<lparr>pending_msg := msg\<rparr>"

definition set_pending_lqa_cmd :: "u32 \<Rightarrow> ale_sm \<Rightarrow> ale_sm" where
  "set_pending_lqa_cmd raw24 s = s\<lparr>pending_lqa_cmd_raw := raw24, pending_lqa_cmd_set := True\<rparr>"

definition set_pending_lqa_report_seq :: "ale_word list \<Rightarrow> ale_sm \<Rightarrow> ale_sm" where
  "set_pending_lqa_report_seq ws s = s\<lparr>pending_lqa_report_seq := ws, pending_lqa_report_set := True\<rparr>"

definition set_pending_noise_cmd :: "u32 \<Rightarrow> ale_sm \<Rightarrow> ale_sm" where
  "set_pending_noise_cmd raw24 s = s\<lparr>pending_noise_cmd_raw := raw24, pending_noise_cmd_set := True\<rparr>"

definition configure_scan :: "scan_config \<Rightarrow> ale_sm \<Rightarrow> ale_sm" where
  "configure_scan config s = s\<lparr>chan_mgr := configure config (chan_mgr s)\<rparr>"

definition add_scan_channel :: "channel \<Rightarrow> ale_sm \<Rightarrow> ale_sm" where
  "add_scan_channel ch s = s\<lparr>chan_mgr := add_channel ch (chan_mgr s)\<rparr>"

definition sm_set_self_address :: "string \<Rightarrow> ale_sm \<Rightarrow> ale_sm" where
  "sm_set_self_address addr s = s\<lparr>book := snd (set_self_address addr (book s))\<rparr>"

definition set_target_scan_channels :: "u32 \<Rightarrow> ale_sm \<Rightarrow> ale_sm" where
  "set_target_scan_channels n s = s\<lparr>target_scan_channels := n\<rparr>"

definition set_timing_parameters :: "timing_parameters \<Rightarrow> ale_sm \<Rightarrow> ale_sm" where
  "set_timing_parameters p s = s\<lparr>timing := p\<rparr>"

definition begin_scan_pause :: "u32 \<Rightarrow> ale_sm \<Rightarrow> ale_sm" where
  "begin_scan_pause t s =
     (if current_state s \<noteq> SCANNING then s
      else if phase_scanning s = HOPPING
      then s\<lparr>phase_scanning := SCAN_PAUSE, scan_pause_settle_ms := t\<rparr> else s)"

end
