(* ===== verification/Sm_Transitions.thy ===== *)
theory Sm_Transitions
  imports Sm_Api
begin

text \<open>
  Events of the state machine: what a transition leaves unchanged, the refinement of
  \<open>process_event\<close> to a table over the current, the previous and the return state, and what the table
  says about calls that arrive during a sounding.
\<close>

section \<open>Fields a transition sets and keeps\<close>

lemmas enter_defs = enter_state_def enter_IDLE_def enter_SCANNING_def enter_CALLING_def enter_HANDSHAKE_def
  enter_LINKED_def enter_SOUNDING_def end_linked_amd_def emit_def emit_channels_def Let_def

lemma outs_emit [simp]: "outs (emit x s) = outs s @ [x]"
  by (simp add: emit_def)

lemma emit_simps [simp]:
  "current_state (emit x s) = current_state s" "previous_state (emit x s) = previous_state s"
  "pre_link_state (emit x s) = pre_link_state s" "current_time_ms (emit x s) = current_time_ms s"
  "words_pending (emit x s) = words_pending s" "timing (emit x s) = timing s"
  "phase_linked_amd (emit x s) = phase_linked_amd s"
  "linked_amd_retry_pending (emit x s) = linked_amd_retry_pending s"
  "linked_amd_attempts_left (emit x s) = linked_amd_attempts_left s"
  "orderwire_pending (emit x s) = orderwire_pending s"
  "orderwire_transmitting (emit x s) = orderwire_transmitting s"
  "sounding_sweep_active (emit x s) = sounding_sweep_active s"
  by (simp_all add: emit_def)

lemma enter_simps [simp]:
  "current_state (enter_state n s) = current_state s"
  "previous_state (enter_state n s) = previous_state s"
  "current_time_ms (enter_state n s) = current_time_ms s"
  "words_pending (enter_state n s) = 0"
  "phase_linked_amd (enter_state n s) = LA_NONE"
  "linked_amd_retry_pending (enter_state n s) = False"
  "linked_amd_attempts_left (enter_state n s) = linked_amd_attempts_left s"
  "timing (enter_state n s) = timing s"
  "orderwire_pending (enter_state n s) = orderwire_pending s"
  "orderwire_transmitting (enter_state n s) = orderwire_transmitting s"
  "sounding_sweep_active (enter_state n s) = sounding_sweep_active s"
  by (simp_all add: enter_defs split: ale_state.split prod.split)

lemma pre_link_enter [simp]:
  "pre_link_state (enter_state n s) =
     (if n = CALLING \<or> n = HANDSHAKE then previous_state s else pre_link_state s)"
  by (cases n) (simp_all add: enter_defs split: prod.split)

lemma rx_after_enter [simp]: "last (outs (enter_state n s)) = Rx_Enabled True"
  by (cases n) (simp_all add: enter_defs split: prod.split)

lemma exit_simps [simp]:
  "current_state (exit_state n s) = current_state s" "previous_state (exit_state n s) = previous_state s"
  "pre_link_state (exit_state n s) = pre_link_state s" "current_time_ms (exit_state n s) = current_time_ms s"
  "outs (exit_state n s) = outs s" "caller_address (exit_state n s) = caller_address s"
  "linked_amd_attempts_left (exit_state n s) = linked_amd_attempts_left s"
  "timing (exit_state n s) = timing s"
  "orderwire_pending (exit_state n s) = orderwire_pending s"
  "orderwire_transmitting (exit_state n s) = orderwire_transmitting s"
  "sounding_sweep_active (exit_state n s) = sounding_sweep_active s"
  "active_call_is_group (exit_state n s) = active_call_is_group s"
  "active_call_to (exit_state n s) = (if n = LINKED then '''' else active_call_to s)"
  by (simp_all add: exit_state_def split: ale_state.split)

text \<open>The calls a transition makes never transmit a word.\<close>

definition is_transmit :: "sm_output \<Rightarrow> bool" where
  "is_transmit x \<longleftrightarrow> (\<exists>w. x = Transmit w)"

definition sent_words :: "ale_sm \<Rightarrow> sm_output list" where
  "sent_words s = filter is_transmit (outs s)"

lemma is_transmit_simps [simp]:
  "is_transmit (Transmit w)" "\<not> is_transmit (Rx_Enabled b)" "\<not> is_transmit (State_Change a c)"
  "\<not> is_transmit (Operator ev)" "\<not> is_transmit (Channel_Change ch)" "\<not> is_transmit (Idle_Warning n)"
  "\<not> is_transmit (Frame_Assembled m)" "\<not> is_transmit (Lqa_Sample q f addr)"
  by (simp_all add: is_transmit_def)

lemma filter_channels [simp]: "filter is_transmit (map Channel_Change chs) = []"
  by (induction chs) simp_all

lemma sent_words_emit [simp]: "sent_words (emit x s) = sent_words s @ (if is_transmit x then [x] else [])"
  by (simp add: sent_words_def)

lemma sent_words_enter [simp]: "sent_words (enter_state n s) = sent_words s"
  by (cases n; simp add: sent_words_def enter_defs Let_def split: prod.splits)

lemma sent_words_exit [simp]: "sent_words (exit_state n s) = sent_words s"
  by (simp add: sent_words_def)

lemma sent_words_record [simp]:
  "sent_words (s\<lparr>current_state := n\<rparr>) = sent_words s"
  "sent_words (s\<lparr>previous_state := n\<rparr>) = sent_words s"
  "sent_words (s\<lparr>state_entry_time_ms := t\<rparr>) = sent_words s"
  by (simp_all add: sent_words_def)

lemma transition_simps [simp]:
  "current_state (snd (transition_to n s)) = n"
  "current_time_ms (snd (transition_to n s)) = current_time_ms s"
  "previous_state (snd (transition_to n s)) =
     (if current_state s = n then previous_state s else current_state s)"
  "pre_link_state (snd (transition_to n s)) =
     (if current_state s \<noteq> n \<and> (n = CALLING \<or> n = HANDSHAKE) then current_state s else pre_link_state s)"
  "timing (snd (transition_to n s)) = timing s"
  "orderwire_pending (snd (transition_to n s)) = orderwire_pending s"
  "orderwire_transmitting (snd (transition_to n s)) = orderwire_transmitting s"
  "sounding_sweep_active (snd (transition_to n s)) = sounding_sweep_active s"
  "linked_amd_attempts_left (snd (transition_to n s)) = linked_amd_attempts_left s"
  "sent_words (snd (transition_to n s)) = sent_words s"
  by (auto simp: transition_to_def Let_def)

section \<open>The transition table\<close>

text \<open>The current state, the state before it, and the state a finished or failed link returns to.\<close>

type_synonym link_position = "ale_state \<times> ale_state \<times> ale_state"

fun goto :: "ale_state \<Rightarrow> link_position \<Rightarrow> link_position" where
  "goto n (c, p, l) =
     (if c = n then (c, p, l) else (n, c, if n = CALLING \<or> n = HANDSHAKE then c else l))"

fun next_position :: "bool \<Rightarrow> ale_event \<Rightarrow> link_position \<Rightarrow> link_position" where
  "next_position sweep START_SCAN (c, p, l) = (if c = IDLE \<or> c = ERROR_STATE then goto SCANNING (c, p, l) else (c, p, l))"
| "next_position sweep STOP_SCAN (c, p, l) = (if c = SCANNING \<or> c = ERROR_STATE then goto IDLE (c, p, l) else (c, p, l))"
| "next_position sweep CALL_REQUEST (c, p, l) =
     (if c = IDLE \<or> c = SCANNING then goto CALLING (c, p, l) else if c = ERROR_STATE then goto IDLE (c, p, l) else (c, p, l))"
| "next_position sweep CALL_DETECTED (c, p, l) =
     (if c = IDLE \<or> c = SCANNING \<or> c = SOUNDING then goto HANDSHAKE (c, p, l)
      else if c = ERROR_STATE then goto IDLE (c, p, l) else (c, p, l))"
| "next_position sweep HANDSHAKE_COMPLETE (c, p, l) =
     (if c = CALLING \<or> c = HANDSHAKE then goto LINKED (c, p, l)
      else if c = ERROR_STATE then goto IDLE (c, p, l) else (c, p, l))"
| "next_position sweep LINK_TIMEOUT (c, p, l) =
     (if c = CALLING \<or> c = HANDSHAKE \<or> c = LINKED then goto l (c, p, l)
      else if c = ERROR_STATE then goto IDLE (c, p, l) else (c, p, l))"
| "next_position sweep LINK_TERMINATED (c, p, l) =
     (if c = LINKED then goto l (c, p, l) else if c = ERROR_STATE then goto IDLE (c, p, l) else (c, p, l))"
| "next_position sweep AMD_DECLINED_LINK (c, p, l) =
     (if c = CALLING \<or> c = HANDSHAKE then goto l (c, p, l)
      else if c = ERROR_STATE then goto IDLE (c, p, l) else (c, p, l))"
| "next_position sweep SOUNDING_REQUEST (c, p, l) =
     (if c = IDLE \<or> c = SCANNING then goto SOUNDING (c, p, l)
      else if c = ERROR_STATE then goto IDLE (c, p, l) else (c, p, l))"
| "next_position sweep SOUNDING_COMPLETE (c, p, l) =
     (if c = SOUNDING then if sweep then (c, p, l) else goto p (c, p, l)
      else if c = ERROR_STATE then goto IDLE (c, p, l) else (c, p, l))"
| "next_position sweep ERROR_OCCURRED (c, p, l) =
     (if c = ERROR_STATE then goto IDLE (c, p, l) else goto ERROR_STATE (c, p, l))"

definition position :: "ale_sm \<Rightarrow> link_position" where
  "position s = (current_state s, previous_state s, pre_link_state s)"

text \<open>A sounding sweep has a channel left.\<close>

definition sweep_continues :: "ale_sm \<Rightarrow> bool" where
  "sweep_continues s \<longleftrightarrow> sounding_sweep_active s \<and> sounding_sweep_idx s + 1 < length (sounding_sweep_chs s)"

lemma position_transition: "position (snd (transition_to n s)) = goto n (position s)"
  by (simp add: position_def)

lemma end_sweep_simps [simp]:
  "position (end_sweep s) = position s" "current_state (end_sweep s) = current_state s"
  "previous_state (end_sweep s) = previous_state s"
  by (simp_all add: position_def end_sweep_def)

lemma position_sounding_complete:
  "position (snd (sounding_complete s)) = (if sweep_continues s then position s else goto (previous_state s) (position s))"
proof (cases "sounding_sweep_active s")
  case False
  then show ?thesis by (simp add: sounding_complete_def sweep_continues_def position_transition)
next
  case True
  show ?thesis
  proof (cases "sweep_continues s")
    case c: True
    then show ?thesis using True
      by (simp add: sounding_complete_def sweep_continues_def Let_def set_override_def emit_channels_def position_def)
  next
    case False
    then show ?thesis using True
      by (simp add: sounding_complete_def sweep_continues_def Let_def position_transition)
        (simp add: position_def)
  qed
qed

lemma fire_position: "position (fire e s) = next_position (sweep_continues s) e (position s)"
proof -
  have p: "position s = (current_state s, previous_state s, pre_link_state s)" by (simp add: position_def)
  show ?thesis
    by (cases "current_state s"; cases e)
      (simp_all add: process_event_def state_event_def position_transition position_sounding_complete p)
qed

text \<open>
  C4. Event processing refines a table over three states - the current one, the previous one and the
  return state of a link: with any event and any state of the machine's other members the triple after
  \<open>process_event\<close> is the table's. In particular a state ignores the events it does not name,
  an error leads to ERROR from every other state, any event leaves ERROR (for SCANNING when a scan is to start, else
  for IDLE), and a link, a failed call and a failed handshake
  all return to the state they were entered from.
\<close>

theorem process_event_refines_table:
  "position (snd (process_event e s)) = next_position (sweep_continues s) e (position s)"
  by (rule fire_position)


section \<open>A call during a sounding\<close>

text \<open>What a call that interrupts a sounding leads to: both the way back and the way before are in here.\<close>

fun trapped :: "link_position \<Rightarrow> bool" where
  "trapped (c, p, l) \<longleftrightarrow>
     c \<in> {HANDSHAKE, LINKED, SOUNDING} \<and> p \<in> {HANDSHAKE, LINKED, SOUNDING} \<and> l = SOUNDING"

lemma trapped_next: "trapped x \<Longrightarrow> e \<noteq> ERROR_OCCURRED \<Longrightarrow> trapped (next_position sweep e x)"
  by (cases x; cases e) auto

lemma trapped_current: "trapped (position s) \<Longrightarrow> current_state s \<in> {HANDSHAKE, LINKED, SOUNDING}"
  by (simp add: position_def)

lemma trapped_run:
  "trapped (position s) \<Longrightarrow> ERROR_OCCURRED \<notin> set es \<Longrightarrow> trapped (position (fold fire es s))"
proof (induction es arbitrary: s)
  case (Cons e es)
  then have "e \<noteq> ERROR_OCCURRED" by auto
  with Cons.prems have "trapped (position (fire e s))" by (simp add: fire_position trapped_next)
  with Cons show ?case by simp
qed simp

text \<open>
  C37. A station that detects a call while it sounds does not find back: whatever events follow - the
  link may time out or be terminated, soundings may complete - the machine goes round in HANDSHAKE,
  LINKED and SOUNDING and reaches neither IDLE nor SCANNING unless an error is raised.
\<close>

theorem call_during_sounding_never_scans:
  assumes "current_state s = SOUNDING" "ERROR_OCCURRED \<notin> set es"
  shows "current_state (fold fire es (fire CALL_DETECTED s)) \<in> {HANDSHAKE, LINKED, SOUNDING}"
proof -
  have "trapped (position (fire CALL_DETECTED s))"
    using assms(1) unfolding fire_position by (simp add: position_def)
  then show ?thesis
    using assms(2) by (intro trapped_current trapped_run)
qed

definition sounding_station :: ale_sm where
  "sounding_station = fire SOUNDING_REQUEST (fire START_SCAN ALEStateMachine)"

theorem call_during_sounding_never_scans_witness:
  "current_state (fold fire [LINK_TIMEOUT, SOUNDING_COMPLETE, LINK_TIMEOUT, STOP_SCAN]
     (fire CALL_DETECTED sounding_station)) \<in> {HANDSHAKE, LINKED, SOUNDING}"
proof (rule call_during_sounding_never_scans)
  have "position (fire START_SCAN ALEStateMachine) = (SCANNING, IDLE, IDLE)"
    by (simp add: fire_position) (simp add: position_def ALEStateMachine_def)
  then show "current_state sounding_station = SOUNDING"
    using fire_position [of SOUNDING_REQUEST "fire START_SCAN ALEStateMachine"]
    by (simp add: sounding_station_def position_def)
qed simp

end
