(* ===== verification/Call_Processor.thy ===== *)
theory Call_Processor
  imports Sm_Update
begin

text \<open>
  \<open>src/Protocol/Control/ale_call_processor.cpp\<close>: the classification of a received word, the reaction
  of each state to it, the link quality update and the frame assembler. The ratio of unanimous votes
  is an exact rational where the code divides floats.
\<close>

section \<open>Classification\<close>

datatype role_type = ROLE_NONE | TO_SELF | TIS_CALLER | DATA_EXTENSION | TWAS_WORD | CHANNEL_BUSY | ALLCALL

record word_role =
  role_type :: role_type
  role_address :: string

definition WordRole :: word_role where
  "WordRole = \<lparr>role_type = ROLE_NONE, role_address = ''''\<rparr>"

definition is_allcall_address :: "string \<Rightarrow> string \<Rightarrow> bool" where
  "is_allcall_address addr self =
     (if length addr < 2 \<or> addr ! 0 \<noteq> CHR ''@'' \<or> addr ! 1 = CHR ''@'' then False
      else if addr ! 1 = CHR ''?'' then True
      else self \<noteq> [] \<and> last self = addr ! 1)"

definition lbt_active :: "ale_sm \<Rightarrow> bool" where
  "lbt_active s =
     (current_state s = HANDSHAKE \<and> phase_handshake s = HP_CHANNEL_CHECK \<or>
      current_state s = SOUNDING \<and> phase_sounding s = SP_LBT)"

definition collecting_address :: "ale_sm \<Rightarrow> bool" where
  "collecting_address s =
     (current_state s = CALLING \<and> collecting_remote_conclusion s \<or>
      current_state s = HANDSHAKE \<and> (hs_conclusion_rcvd s \<or> hs_ack_tis_rcvd s) \<or>
      current_state s = LINKED \<and> linked_twas_addr s \<noteq> [])"

definition classify :: "ale_sm \<Rightarrow> ale_word \<Rightarrow> word_role" where
  "classify s w =
     (let addr = trim_ale_address (address w);
          self = self_addr s
      in if lbt_active s then WordRole\<lparr>role_type := CHANNEL_BUSY\<rparr>
         else if collecting_address s \<and> (word_type w = DATA \<or> word_type w = REP)
         then \<lparr>role_type = DATA_EXTENSION, role_address = addr\<rparr>
         else if word_type w = TO \<and> is_allcall_address addr self
         then \<lparr>role_type = ALLCALL, role_address = addr\<rparr>
         else if word_type w = TO \<and> addr \<noteq> [] \<and> length self \<ge> length addr \<and> take (length addr) self = addr
         then \<lparr>role_type = TO_SELF, role_address = addr\<rparr>
         else if word_type w = TIS
         then
           let expected = (if current_state s = HANDSHAKE then take 3 (caller_address s) else [])
           in if expected = [] \<or> addr = expected then \<lparr>role_type = TIS_CALLER, role_address = addr\<rparr>
              else WordRole
         else if word_type w = TWAS then \<lparr>role_type = TWAS_WORD, role_address = addr\<rparr>
         else WordRole)"

section \<open>Invalid words\<close>

definition on_invalid_word :: "ale_sm \<Rightarrow> ale_sm" where
  "on_invalid_word s =
     (if current_state s = SOUNDING \<and> phase_sounding s = SP_LBT then fire SOUNDING_COMPLETE s
      else if current_state s \<noteq> HANDSHAKE then s
      else if phase_handshake s = HP_WAIT_CYCLE_END
      then
        let s = s\<lparr>contiguous_errors := contiguous_errors s + 1\<rparr>
        in if contiguous_errors s > MAX_SCANNING_CALL_ERRORS then fire LINK_TIMEOUT s else s
      else if phase_handshake s = HP_CHANNEL_CHECK then fire LINK_TIMEOUT s
      else s)"

section \<open>Reactions\<close>

definition detect_incoming_call :: "word_role \<Rightarrow> ale_sm \<Rightarrow> ale_sm" where
  "detect_incoming_call r s =
     (if role_type r = TO_SELF then fire CALL_DETECTED (s\<lparr>active_call_to := role_address r\<rparr>)
      else if role_type r = ALLCALL then fire CALL_DETECTED (s\<lparr>allcall_silent := True\<rparr>)
      else s)"

definition react_idle :: "word_role \<Rightarrow> ale_sm \<Rightarrow> ale_sm" where
  "react_idle r s = detect_incoming_call r s"

definition react_scanning :: "word_role \<Rightarrow> ale_sm \<Rightarrow> ale_sm" where
  "react_scanning r s =
     (let s = detect_incoming_call r s
      in if current_state s \<noteq> SCANNING then s
         else s\<lparr>phase_scanning := SCAN_PAUSE, scan_pause_settle_ms := current_time_ms s\<rparr>)"

definition react_calling :: "word_role \<Rightarrow> ale_sm \<Rightarrow> ale_sm" where
  "react_calling r s =
     (if phase_calling s \<noteq> CP_LISTENING then s
      else case role_type r of
             TO_SELF \<Rightarrow>
               (if \<not> response_to_detected s
                then s\<lparr>response_to_detected := True, response_rx_start_ms := current_time_ms s\<rparr> else s)
           | TIS_CALLER \<Rightarrow>
               (if response_to_detected s \<and> tlww_start_ms s = 0
                then s\<lparr>to_address := role_address r, active_call_from := role_address r,
                       tlww_start_ms := current_time_ms s, collecting_remote_conclusion := True\<rparr>
                else s)
           | DATA_EXTENSION \<Rightarrow>
               (if collecting_remote_conclusion s
                then s\<lparr>to_address := to_address s @ role_address r,
                       active_call_from := to_address s @ role_address r,
                       tlww_start_ms := current_time_ms s\<rparr>
                else s)
           | TWAS_WORD \<Rightarrow> fire LINK_TIMEOUT (emit (Operator CALL_REJECTED) s)
           | _ \<Rightarrow> s)"

definition react_wait_cycle_end :: "word_role \<Rightarrow> ale_word \<Rightarrow> ale_sm \<Rightarrow> ale_sm" where
  "react_wait_cycle_end r w s =
     (case role_type r of
        TIS_CALLER \<Rightarrow>
          (if \<not> hs_conclusion_rcvd s
           then s\<lparr>caller_address := role_address r, active_call_from := role_address r,
                  hs_conclusion_rcvd := True, hs_tlww_start_ms := current_time_ms s\<rparr>
           else s)
      | DATA_EXTENSION \<Rightarrow>
          s\<lparr>caller_address := caller_address s @ role_address r,
            active_call_from := caller_address s @ role_address r,
            hs_tlww_start_ms := current_time_ms s\<rparr>
      | TWAS_WORD \<Rightarrow>
          (if \<not> hs_conclusion_rcvd s
           then s\<lparr>caller_address := role_address r, active_call_from := role_address r,
                  hs_conclusion_rcvd := True, hs_conclusion_is_twas := True,
                  hs_tlww_start_ms := current_time_ms s\<rparr>
           else s)
      | ROLE_NONE \<Rightarrow>
          (if \<not> hs_conclusion_rcvd s \<and> (word_type w = DATA \<or> word_type w = REP) \<and> hs_message_start_ms s = 0
           then s\<lparr>hs_message_start_ms := current_time_ms s\<rparr> else s)
      | _ \<Rightarrow> s)"

definition react_wait_ack :: "word_role \<Rightarrow> ale_sm \<Rightarrow> ale_sm" where
  "react_wait_ack r s =
     (case role_type r of
        TO_SELF \<Rightarrow> (if hs_ack_to_ms s = 0 then s\<lparr>hs_ack_to_ms := current_time_ms s\<rparr> else s)
      | TIS_CALLER \<Rightarrow>
          (if \<not> hs_ack_tis_rcvd s
           then s\<lparr>hs_ack_tis_rcvd := True, hs_tlww_start_ms := current_time_ms s\<rparr> else s)
      | DATA_EXTENSION \<Rightarrow>
          (let s = (if hs_ack_to_ms s = 0 then s\<lparr>hs_ack_to_ms := current_time_ms s\<rparr> else s)
           in s\<lparr>hs_tlww_start_ms := current_time_ms s\<rparr>)
      | TWAS_WORD \<Rightarrow> fire AMD_DECLINED_LINK (emit (Operator AMD_RECEIVED_NO_LINK) s)
      | _ \<Rightarrow> s)"

definition react_handshake :: "word_role \<Rightarrow> ale_word \<Rightarrow> ale_sm \<Rightarrow> ale_sm" where
  "react_handshake r w s =
     (if role_type r = CHANNEL_BUSY then fire LINK_TIMEOUT s
      else if phase_handshake s = HP_WAIT_CYCLE_END then react_wait_cycle_end r w s
      else if phase_handshake s = HP_WAIT_ACK then react_wait_ack r s
      else s)"

definition react_linked_amd_confirm :: "word_role \<Rightarrow> ale_sm \<Rightarrow> ale_sm" where
  "react_linked_amd_confirm r s =
     (case phase_linked_amd s of
        LA_LISTENING \<Rightarrow>
          (case role_type r of
             TO_SELF \<Rightarrow> s\<lparr>linked_amd_resp_detected := True\<rparr>
           | TIS_CALLER \<Rightarrow>
               (if linked_amd_resp_detected s \<and> linked_amd_resp_tlww_ms s = 0
                then s\<lparr>linked_amd_resp_tlww_ms := current_time_ms s\<rparr> else s)
           | DATA_EXTENSION \<Rightarrow>
               (if linked_amd_resp_tlww_ms s \<noteq> 0 then s\<lparr>linked_amd_resp_tlww_ms := current_time_ms s\<rparr> else s)
           | _ \<Rightarrow> s)
      | LA_WAIT_ACK \<Rightarrow>
          (case role_type r of
             TO_SELF \<Rightarrow> s\<lparr>linked_amd_ack_to_detected := True\<rparr>
           | TIS_CALLER \<Rightarrow>
               (if \<not> linked_amd_ack_tis_rcvd s
                then s\<lparr>linked_amd_ack_tis_rcvd := True, linked_amd_ack_tlww_ms := current_time_ms s\<rparr> else s)
           | DATA_EXTENSION \<Rightarrow>
               (if linked_amd_ack_tis_rcvd s then s\<lparr>linked_amd_ack_tlww_ms := current_time_ms s\<rparr> else s)
           | _ \<Rightarrow> s)
      | _ \<Rightarrow> s)"

definition react_linked :: "word_role \<Rightarrow> ale_sm \<Rightarrow> ale_sm" where
  "react_linked r s =
     (if role_type r = TWAS_WORD
      then
        if role_address r \<noteq> [] \<and> length (active_call_to s) \<ge> length (role_address r) \<and>
           take (length (role_address r)) (active_call_to s) = role_address r
        then s\<lparr>linked_twas_addr := role_address r, linked_twas_last_ms := current_time_ms s\<rparr>
        else s\<lparr>linked_twas_addr := ''''\<rparr>
      else if role_type r = DATA_EXTENSION \<and> linked_twas_addr s \<noteq> []
      then
        if current_time_ms s - linked_twas_last_ms s \<le> 2 * TRW_MS
        then s\<lparr>linked_twas_addr := linked_twas_addr s @ role_address r, linked_twas_last_ms := current_time_ms s\<rparr>
        else s
      else react_linked_amd_confirm r s)"

definition react_sounding :: "word_role \<Rightarrow> ale_sm \<Rightarrow> ale_sm" where
  "react_sounding r s =
     (if role_type r = CHANNEL_BUSY then fire SOUNDING_COMPLETE s
      else if phase_sounding s = SP_LISTENING then detect_incoming_call r s
      else s)"

section \<open>Link quality\<close>

record link_quality =
  lq_snr_db :: rat
  lq_sinad_db :: rat
  lq_fec_errors :: u32
  lq_timestamp_ms :: u32
  lq_non_unanimous_count :: u8
  lq_golay_uncorrectable :: bool

definition MAX_GOLAY_ERRORS :: u32 where
  "MAX_GOLAY_ERRORS = 3"

definition lqa_sample :: "link_quality \<Rightarrow> metrics_sample" where
  "lqa_sample lq = \<lparr>ms_snr_db = lq_snr_db lq, ms_sinad_db = lq_sinad_db lq,
     ms_fec_errors_corrected = lq_fec_errors lq, ms_decode_success = (lq_fec_errors lq \<le> MAX_GOLAY_ERRORS),
     ms_timestamp_ms = lq_timestamp_ms lq, ms_non_unanimous_count = lq_non_unanimous_count lq,
     ms_golay_uncorrectable = lq_golay_uncorrectable lq\<rparr>"

definition update_lqa :: "link_quality \<Rightarrow> ale_sm \<Rightarrow> ale_sm" where
  "update_lqa lq s =
     (let s = (if lqa_metrics_set s \<and> active_call_from s \<noteq> [] \<and>
                  (current_state s = HANDSHAKE \<or> current_state s = LINKED)
               then emit (Lqa_Sample (lqa_sample lq)
                      (case current (chan_mgr s) of Some ch \<Rightarrow> rx_frequency_hz ch | None \<Rightarrow> 0)
                      (active_call_from s)) s
               else s);
          score = 30 - of_nat (unat (lq_fec_errors lq)) * 3;
          score = max 0 (min 30 score)
      in s\<lparr>chan_mgr := update_lqa_score (channel_index (scan (chan_mgr s))) score (chan_mgr s)\<rparr>)"

definition word_quality :: "ale_word \<Rightarrow> ale_sm \<Rightarrow> link_quality" where
  "word_quality w s = \<lparr>lq_snr_db = of_nat (unat (unanimous_votes w)) / 48 * 31, lq_sinad_db = sinad_db w,
     lq_fec_errors = ucast (fec_errors w), lq_timestamp_ms = current_time_ms s,
     lq_non_unanimous_count =
       (if golay_uncorrectable w then 48
        else if unanimous_votes w \<le> 48 then 48 - unanimous_votes w else 0),
     lq_golay_uncorrectable = golay_uncorrectable w\<rparr>"

section \<open>A received word\<close>

definition react :: "word_role \<Rightarrow> ale_word \<Rightarrow> ale_sm \<Rightarrow> ale_sm" where
  "react r w s =
     (case current_state s of
        IDLE \<Rightarrow> react_idle r s
      | SCANNING \<Rightarrow> react_scanning r s
      | CALLING \<Rightarrow> react_calling r s
      | HANDSHAKE \<Rightarrow> react_handshake r w s
      | LINKED \<Rightarrow> react_linked r s
      | SOUNDING \<Rightarrow> react_sounding r s
      | _ \<Rightarrow> s)"

definition feed_assembler :: "ale_word \<Rightarrow> ale_sm \<Rightarrow> ale_sm" where
  "feed_assembler w s =
     (let (done_flag, m) = add_word w (assembler s);
          s = s\<lparr>assembler := m\<rparr>
      in if done_flag \<and> frame_assembled_cb_set s
         then case get_message m of
                (Some msg, m) \<Rightarrow> emit (Frame_Assembled msg) (s\<lparr>assembler := m\<rparr>)
              | (None, m) \<Rightarrow> s\<lparr>assembler := m\<rparr>
         else s)"

definition process_received_word :: "ale_word \<Rightarrow> ale_sm \<Rightarrow> ale_sm" where
  "process_received_word w s =
     (if \<not> valid w then on_invalid_word s
      else
        let s = s\<lparr>contiguous_errors := 0, last_word_time_ms := current_time_ms s\<rparr>;
            s = update_lqa (word_quality w s) s;
            r = classify s w;
            s = react r w s
        in feed_assembler w s)"

end
