(* ===== verification/Sm_Machine.thy ===== *)
theory Sm_Machine
  imports Sm_Transitions Call_Processor
begin

text \<open>
  The link state machine as one transition system: every call another part of the program makes of it
  is an operation, \<open>sm_step\<close> performs it, and the invariants hold in every state the operations reach.
  The reported state changes form a path of the state graph, the return state of a link is one a link
  is entered from, and the confirmation of a displayed message only runs on a link.
\<close>

section \<open>Operations\<close>

datatype sm_op =
  Event ale_event | Tick sm_env u32 | Received ale_word | Word_Complete
| Call string | Net_Call string | Group_Call "string list" | Respond
| Sound | Sweep "channel list" | Broadcast string string bool
| Terminate | Emergency
| Orderwire_Words "ale_word list" bool | Linked_Amd "ale_word list" string u32
| Answer_Amd string "ale_word list" | Link_Activity | Reset_Idle
| Extend_Window u32 | Slot u32 u32 | Calling_Channels "channel list" | Pending_Message pending_message
| Pending_Lqa u32 | Pending_Report "ale_word list" | Pending_Noise u32
| Configure_Scan scan_config | Add_Channel channel | Self_Address string | Target_Channels u32
| Timing timing_parameters | Scan_Pause_At u32

fun sm_step :: "ale_sm \<Rightarrow> sm_op \<Rightarrow> ale_sm" where
  "sm_step s (Event e) = fire e s"
| "sm_step s (Tick env t) = update env t s"
| "sm_step s (Received w) = process_received_word w s"
| "sm_step s Word_Complete = on_word_complete s"
| "sm_step s (Call a) = snd (initiate_call a s)"
| "sm_step s (Net_Call a) = snd (initiate_net_call a s)"
| "sm_step s (Group_Call ms) = snd (initiate_group_call ms s)"
| "sm_step s Respond = snd (respond_to_call s)"
| "sm_step s Sound = snd (send_sounding s)"
| "sm_step s (Sweep chs) = snd (send_sounding_sweep chs s)"
| "sm_step s (Broadcast self txt l) = snd (send_allcall_broadcast self txt l s)"
| "sm_step s Terminate = terminate_link s"
| "sm_step s Emergency = emergency_manual_control s"
| "sm_step s (Orderwire_Words ws d) = trigger_linked_orderwire ws d s"
| "sm_step s (Linked_Amd ws p n) = send_linked_amd ws p n s"
| "sm_step s (Answer_Amd a ws) = respond_to_linked_amd a ws s"
| "sm_step s Link_Activity = on_link_activity s"
| "sm_step s Reset_Idle = reset_link_idle_timer s"
| "sm_step s (Extend_Window d) = extend_peer_wait_window d s"
| "sm_step s (Slot n t) = set_slot_number n t s"
| "sm_step s (Calling_Channels chs) = set_calling_channels chs s"
| "sm_step s (Pending_Message m) = set_pending_message m s"
| "sm_step s (Pending_Lqa r) = set_pending_lqa_cmd r s"
| "sm_step s (Pending_Report ws) = set_pending_lqa_report_seq ws s"
| "sm_step s (Pending_Noise r) = set_pending_noise_cmd r s"
| "sm_step s (Configure_Scan c) = configure_scan c s"
| "sm_step s (Add_Channel ch) = add_scan_channel ch s"
| "sm_step s (Self_Address a) = sm_set_self_address a s"
| "sm_step s (Target_Channels n) = set_target_scan_channels n s"
| "sm_step s (Timing p) = set_timing_parameters p s"
| "sm_step s (Scan_Pause_At t) = begin_scan_pause t s"

section \<open>What an operation may change\<close>

text \<open>The state changes a trace reports, and the retries of displayed messages.\<close>

fun reported :: "sm_output list \<Rightarrow> (ale_state \<times> ale_state) list" where
  "reported [] = []"
| "reported (State_Change a b # xs) = (a, b) # reported xs"
| "reported (_ # xs) = reported xs"

lemma reported_append [simp]: "reported (xs @ ys) = reported xs @ reported ys"
  by (induction xs rule: reported.induct) simp_all

lemma reported_channels [simp]: "reported (map Channel_Change chs) = []"
  by (induction chs) simp_all

definition retries :: "ale_sm \<Rightarrow> nat" where
  "retries s = count_list (outs s) (Operator AMD_RETRY)"

lemma count_channels [simp]: "count_list (map Channel_Change chs) (Operator ev) = 0"
  by (induction chs) simp_all

text \<open>
  The core: position, reported changes, and the sum of the retries made and the attempts left. An
  operation moves the core by an event or not at all, and touches the confirmation of a displayed
  message only on a link.
\<close>

type_synonym sm_core = "link_position \<times> (ale_state \<times> ale_state) list \<times> nat \<times> bool"

definition core :: "ale_sm \<Rightarrow> sm_core" where
  "core s = (position s, reported (outs s), retries s + unat (linked_amd_attempts_left s),
     linked_amd_attempts_left s \<noteq> 0)"

definition amd :: "ale_sm \<Rightarrow> linked_amd_phase \<times> bool" where
  "amd s = (phase_linked_amd s, linked_amd_retry_pending s)"

lemmas view_defs = core_def amd_def position_def retries_def

definition keeps :: "ale_sm \<Rightarrow> ale_sm \<Rightarrow> bool" where
  "keeps s t \<longleftrightarrow> core t = core s \<and> (current_state s = LINKED \<or> amd t = amd s)"

definition moves :: "ale_sm \<Rightarrow> ale_sm \<Rightarrow> bool" where
  "moves s t \<longleftrightarrow>
     keeps s t \<or> (\<exists>e u. keeps s u \<and> core t = core (fire e u) \<and> amd t = amd (fire e u))"

lemma core_state: "core t = core s \<Longrightarrow> current_state t = current_state s"
  by (simp add: core_def position_def)

lemma keeps_refl [simp, intro]: "keeps s s"
  by (simp add: keeps_def)

lemma keeps_trans [trans]: "keeps s t \<Longrightarrow> keeps t u \<Longrightarrow> keeps s u"
  by (auto simp: keeps_def dest: core_state)

lemma keepsI: "core t = core s \<Longrightarrow> amd t = amd s \<Longrightarrow> keeps s t"
  by (simp add: keeps_def)

lemma keeps_linked: "core t = core s \<Longrightarrow> current_state s = LINKED \<Longrightarrow> keeps s t"
  by (simp add: keeps_def)

lemma moves_keeps [intro]: "keeps s t \<Longrightarrow> moves s t"
  by (simp add: moves_def)

lemma moves_fire [intro]: "keeps s u \<Longrightarrow> moves s (fire e u)"
  by (auto simp: moves_def)

lemma moves_pre: "keeps s t \<Longrightarrow> moves t u \<Longrightarrow> moves s u"
  by (auto simp: moves_def intro: keeps_trans)

lemma moves_post: "moves s t \<Longrightarrow> core u = core t \<Longrightarrow> amd u = amd t \<Longrightarrow> moves s u"
  by (auto simp: moves_def keeps_def)

section \<open>Outputs and transmission\<close>

fun plain :: "sm_output \<Rightarrow> bool" where
  "plain (State_Change a b) = False"
| "plain (Operator ev) = (ev \<noteq> AMD_RETRY)"
| "plain _ = True"

lemma view_emit [simp]: "plain x \<Longrightarrow> core (emit x s) = core s" "amd (emit x s) = amd s"
  by (cases x; simp add: view_defs emit_def)+

lemma view_emit_channels [simp]: "core (emit_channels chs s) = core s" "amd (emit_channels chs s) = amd s"
  by (simp_all add: view_defs emit_channels_def)

definition stamped :: "u32 \<Rightarrow> ale_word \<Rightarrow> sm_output" where
  "stamped t w = Transmit (w\<lparr>timestamp_ms := t\<rparr>)"

lemma transmit_words_eq:
  "transmit_words ws s =
     s\<lparr>outs := outs s @ map (stamped (current_time_ms s)) ws, words_pending := words_pending s + of_nat (length ws)\<rparr>"
proof (induction ws arbitrary: s)
  case Nil
  show ?case by (simp add: transmit_words_def)
next
  case (Cons w ws)
  have "transmit_words (w # ws) s = transmit_words ws (transmit_word w s)" by (simp add: transmit_words_def)
  then show ?case by (simp add: Cons transmit_word_def emit_def stamped_def Let_def add.assoc)
qed

lemma reported_stamped [simp]: "reported (map (stamped t) ws) = []"
  by (induction ws) (simp_all add: stamped_def)

lemma count_stamped [simp]: "count_list (map (stamped t) ws) (Operator ev) = 0"
  by (induction ws) (simp_all add: stamped_def)

lemma view_transmit_words [simp]: "core (transmit_words ws s) = core s" "amd (transmit_words ws s) = amd s"
  by (simp_all add: view_defs transmit_words_eq)

lemma view_arm_drain [simp]: "core (arm_drain d s) = core s" "amd (arm_drain d s) = amd s"
  by (simp_all add: view_defs arm_drain_def)

lemmas effect_defs = emit_def emit_channels_def transmit_words_eq arm_drain_def

lemma view_enqueue [simp]: "core (enqueue_call_sequence s) = core s" "amd (enqueue_call_sequence s) = amd s"
  by (simp_all add: enqueue_call_sequence_def Let_def)

lemma view_ack [simp]: "core (build_ack_words s) = core s" "amd (build_ack_words s) = amd s"
  by (simp_all add: build_ack_words_def Let_def)

lemma view_record [simp]:
  "core (s\<lparr>pending_lqa_cmd_set := b\<rparr>) = core s" "amd (s\<lparr>pending_lqa_cmd_set := b\<rparr>) = amd s"
  "core (s\<lparr>pending_lqa_report_set := b\<rparr>) = core s" "amd (s\<lparr>pending_lqa_report_set := b\<rparr>) = amd s"
  by (simp_all add: view_defs)

lemma view_response [simp]: "core (build_response_words s) = core s" "amd (build_response_words s) = amd s"
  by (simp_all add: build_response_words_def Let_def)


lemma moves_simps:
  "core t = core s \<Longrightarrow> amd t = amd s \<Longrightarrow> moves s t"
  "core u = core s \<Longrightarrow> amd u = amd s \<Longrightarrow> moves s (fire e u)"
  "core u = core s \<Longrightarrow> amd u = amd s \<Longrightarrow> moves s (enqueue_call_sequence u)"
  "core u = core s \<Longrightarrow> amd u = amd s \<Longrightarrow> moves s (build_ack_words u)"
  "core u = core s \<Longrightarrow> amd u = amd s \<Longrightarrow> moves s (build_response_words u)"
  by (auto intro!: moves_fire) (simp_all add: moves_keeps keeps_def)

section \<open>The passage of time\<close>

lemmas move_defs = moves_simps view_defs effect_defs Let_def

lemma moves_scanning: "moves s (handle_scanning env s)"
  by (simp add: handle_scanning_def move_defs split: prod.split)

lemma moves_next_channel: "moves s (try_next_calling_channel s)"
  by (simp add: try_next_calling_channel_def move_defs)

lemma moves_calling: "moves s (handle_calling env s)"
proof -
  have "moves s (calling_lbt env s)"
    by (simp add: calling_lbt_def moves_next_channel) (simp add: move_defs)
  moreover have "moves s (calling_tuning s)"
    by (simp add: calling_tuning_def move_defs)
  moreover have "moves s (calling_listening s)"
    by (simp add: calling_listening_def moves_next_channel) (simp add: move_defs)
  moreover have "moves s (calling_sending_ack s)"
    by (simp add: calling_sending_ack_def moves_simps) (simp add: move_defs)
  ultimately show ?thesis
    by (simp add: handle_calling_def moves_keeps split: calling_phase.split)
qed

lemma moves_handshake: "moves s (handle_handshake env s)"
proof -
  have "moves s (handshake_wait_cycle_end s)"
    by (simp add: handshake_wait_cycle_end_def move_defs)
  moreover have "moves s (handshake_slot_wait s)"
    by (simp add: handshake_slot_wait_def move_defs)
  moreover have "moves s (handshake_channel_check env s)"
    by (simp add: handshake_channel_check_def move_defs)
  moreover have "moves s (handshake_sending_response s)"
    by (simp add: handshake_sending_response_def move_defs)
  moreover have "moves s (handshake_wait_ack s)"
    by (simp add: handshake_wait_ack_def move_defs)
  ultimately show ?thesis
    by (simp add: handle_handshake_def moves_simps view_defs split: handshake_phase.split)
qed

lemma moves_sounding: "moves s (handle_sounding env s)"
proof -
  have "moves s (sounding_lbt env s)"
    by (simp add: sounding_lbt_def move_defs)
  then show ?thesis
    by (simp add: handle_sounding_def) (simp add: move_defs)
qed


text \<open>On a link, where the confirmation of a displayed message runs.\<close>

lemma moves_linked_simps:
  "current_state s = LINKED \<Longrightarrow> core t = core s \<Longrightarrow> moves s t"
  "current_state s = LINKED \<Longrightarrow> core u = core s \<Longrightarrow> moves s (fire e u)"
  by (auto intro: moves_keeps [OF keeps_linked] moves_fire [OF keeps_linked])

lemma unat_pred: "1 < a \<Longrightarrow> Suc (unat (a - 1)) = unat a"
  for a :: u32
  using unat_gt_0 [of a] by (simp add: unat_minus_one word_less_nat_alt)

lemma core_retry_or_fail [simp]: "core (linked_amd_retry_or_fail s) = core s"
  by (auto simp: linked_amd_retry_or_fail_def core_def position_def retries_def unat_pred)

lemma core_listening [simp]: "core (handle_linked_amd_listening s) = core s"
  by (simp add: handle_linked_amd_listening_def) (simp add: core_def position_def retries_def)

lemma core_linked_handlers [simp]:
  "core (handle_linked_amd_wait_ack s) = core s"
  "core (send_orderwire s) = core s" "core (linked_amd_retry s) = core s"
  "core (linked_idle_warning s) = core s"
  by (simp_all add: handle_linked_amd_wait_ack_def send_orderwire_def
      linked_amd_retry_def linked_idle_warning_def core_def position_def retries_def effect_defs Let_def)

lemma moves_linked:
  assumes "current_state s = LINKED"
  shows "moves s (handle_linked s)"
proof -
  have twa: "moves s (linked_twa t)" if "core t = core s" for t
    using assms that by (simp add: linked_twa_def moves_linked_simps core_def position_def retries_def effect_defs Let_def)
  have drain: "moves s (linked_drain_timeout s)"
    using assms by (simp add: linked_drain_timeout_def moves_linked_simps core_def position_def retries_def effect_defs)
  have reset: "core (s\<lparr>linked_twas_addr := a\<rparr>) = core s" for a
    by (simp add: core_def position_def retries_def)
  show ?thesis
    by (simp add: handle_linked_def Let_def drain twa reset assms moves_linked_simps)
qed

lemma moves_tick: "moves s (update env t s)"
proof -
  have time: "keeps s (s\<lparr>current_time_ms := t\<rparr>)" by (simp add: keeps_def view_defs)
  have "moves (s\<lparr>current_time_ms := t\<rparr>) (handle_state env (s\<lparr>current_time_ms := t\<rparr>))"
    by (simp add: handle_state_def moves_scanning moves_calling moves_handshake moves_linked moves_sounding
        moves_keeps split: ale_state.split)
  then have "moves s (handle_state env (s\<lparr>current_time_ms := t\<rparr>))" by (rule moves_pre [OF time])
  then show ?thesis
    by (simp add: update_def move_defs)
qed


section \<open>Received words\<close>

lemma moves_detect: "core u = core s \<Longrightarrow> amd u = amd s \<Longrightarrow> moves s (detect_incoming_call r u)"
  by (simp add: detect_incoming_call_def move_defs)

lemma view_update_lqa [simp]: "core (update_lqa lq s) = core s" "amd (update_lqa lq s) = amd s"
  by (simp_all add: update_lqa_def view_defs effect_defs Let_def)

lemma view_assembler [simp]: "core (feed_assembler w s) = core s" "amd (feed_assembler w s) = amd s"
  by (simp_all add: feed_assembler_def view_defs effect_defs Let_def split: prod.split option.split)

lemma moves_react_scanning: "moves s (react_scanning r s)"
proof -
  have "moves s (detect_incoming_call r s)" by (simp add: moves_detect)
  moreover have "moves s (t\<lparr>phase_scanning := SCAN_PAUSE, scan_pause_settle_ms := current_time_ms t\<rparr>)"
    if "moves s t" for t
    using that by (rule moves_post) (simp_all add: view_defs)
  ultimately show ?thesis by (simp add: react_scanning_def Let_def)
qed

lemma moves_react_calling: "moves s (react_calling r s)"
  by (cases "role_type r") (simp_all add: react_calling_def move_defs)

lemma moves_react_handshake: "moves s (react_handshake r w s)"
proof -
  have "moves s (react_wait_cycle_end r w s)"
    by (cases "role_type r") (simp_all add: react_wait_cycle_end_def move_defs)
  moreover have "moves s (react_wait_ack r s)"
    by (cases "role_type r") (simp_all add: react_wait_ack_def move_defs)
  ultimately show ?thesis
    by (simp add: react_handshake_def moves_simps moves_keeps)
qed

lemma core_amd_confirm [simp]: "core (react_linked_amd_confirm r s) = core s"
  by (simp add: react_linked_amd_confirm_def core_def position_def retries_def
      split: linked_amd_phase.split role_type.split)

lemma core_react_linked [simp]: "core (react_linked r s) = core s"
  by (simp add: react_linked_def) (simp add: core_def position_def retries_def)

lemma moves_react: "moves s (react r w s)"
  by (simp add: react_def react_idle_def react_sounding_def moves_react_scanning moves_react_calling
      moves_react_handshake moves_detect moves_linked_simps moves_simps moves_keeps split: ale_state.split)

lemma moves_invalid: "moves s (on_invalid_word s)"
  by (simp add: on_invalid_word_def move_defs)

lemma moves_received: "moves s (process_received_word w s)"
proof (cases "valid w")
  case False
  then show ?thesis by (simp add: process_received_word_def moves_invalid)
next
  case True
  let ?s = "s\<lparr>contiguous_errors := 0, last_word_time_ms := current_time_ms s\<rparr>"
  let ?t = "update_lqa (word_quality w ?s) ?s"
  have "keeps s ?t" by (rule keepsI) (simp_all, simp_all add: view_defs)
  then have "moves s (react (classify ?t w) w ?t)" by (rule moves_pre [OF _ moves_react])
  then have "moves s (feed_assembler w (react (classify ?t w) w ?t))" by (rule moves_post) simp_all
  with True show ?thesis by (simp add: process_received_word_def Let_def)
qed

section \<open>Calls of the controller and rendered words\<close>

lemma snapshot_view [simp]: "core (snapshot_pending s) = core s" "amd (snapshot_pending s) = amd s"
  by (simp_all add: snapshot_pending_def view_defs Let_def)

lemma moves_snapshot: "core u = core s \<Longrightarrow> amd u = amd s \<Longrightarrow> moves s (fire e (snapshot_pending u))"
  by (rule moves_simps) simp_all

lemma moves_calls:
  "moves s (snd (initiate_call a s))" "moves s (snd (initiate_net_call a s))"
  "moves s (snd (initiate_group_call ms s))" "moves s (snd (respond_to_call s))"
  by (simp_all add: initiate_call_def initiate_net_call_def initiate_group_call_def respond_to_call_def
      moves_snapshot move_defs)

lemma moves_soundings:
  "moves s (snd (send_sounding s))" "moves s (snd (send_sounding_sweep chs s))"
  "moves s (snd (send_allcall_broadcast self txt l s))"
  by (simp_all add: send_sounding_def send_sounding_sweep_def send_allcall_broadcast_def move_defs split: prod.split)

lemma moves_link_operations:
  "moves s (terminate_link s)" "moves s (trigger_linked_orderwire ws d s)"
  "moves s (respond_to_linked_amd a ws s)" "moves s (on_link_activity s)"
  "moves s (reset_link_idle_timer s)" "moves s (extend_peer_wait_window delay s)"
  by (simp_all add: terminate_link_def trigger_linked_orderwire_def respond_to_linked_amd_def on_link_activity_def
      reset_link_idle_timer_def extend_peer_wait_window_def moves_linked_simps move_defs)

lemma moves_word_complete: "moves s (on_word_complete s)"
proof -
  have ack: "moves s (sending_ack_complete u)" if "core u = core s" "amd u = amd s" for u
    using that by (simp add: sending_ack_complete_def moves_simps)
  have "moves s (calling_word_complete s)"
    by (cases "phase_calling s"; simp add: calling_word_complete_def Let_def ack moves_simps; simp add: move_defs ack)
  moreover have "moves s (response_word_complete s)"
    by (simp add: response_word_complete_def move_defs)
  moreover have "moves s (linked_amd_handoff u)" if "current_state s = LINKED" "core u = core s" for u
    using that by (simp add: linked_amd_handoff_def moves_linked_simps core_def position_def retries_def emit_def
        split: linked_amd_phase.split)
  ultimately show ?thesis
    by (simp add: on_word_complete_def dec_pending_def Let_def) (simp add: move_defs)
qed

lemma moves_settings:
  "moves s (set_slot_number n t s)" "moves s (set_calling_channels chs s)" "moves s (set_pending_message m s)"
  "moves s (set_pending_lqa_cmd r s)" "moves s (set_pending_lqa_report_seq ws s)"
  "moves s (set_pending_noise_cmd r s)" "moves s (configure_scan c s)" "moves s (add_scan_channel ch s)"
  "moves s (sm_set_self_address a s)" "moves s (set_target_scan_channels n' s)"
  "moves s (set_timing_parameters p s)" "moves s (begin_scan_pause t' s)"
  by (simp_all add: set_slot_number_def set_calling_channels_def set_pending_message_def set_pending_lqa_cmd_def
      set_pending_lqa_report_seq_def set_pending_noise_cmd_def configure_scan_def add_scan_channel_def
      sm_set_self_address_def set_target_scan_channels_def set_timing_parameters_def begin_scan_pause_def
      moves_simps view_defs)


section \<open>Events and the state graph\<close>

text \<open>The transitions that are possible, by their reason.\<close>

inductive edge :: "ale_state \<Rightarrow> ale_state \<Rightarrow> bool" where
  begin_scan: "c = IDLE \<or> c = ERROR_STATE \<Longrightarrow> edge c SCANNING"
| begin_call: "c = IDLE \<or> c = SCANNING \<Longrightarrow> edge c CALLING"
| begin_sounding: "c = IDLE \<or> c = SCANNING \<Longrightarrow> edge c SOUNDING"
| call_heard: "c = IDLE \<or> c = SCANNING \<or> c = SOUNDING \<Longrightarrow> edge c HANDSHAKE"
| link_made: "c = CALLING \<or> c = HANDSHAKE \<Longrightarrow> edge c LINKED"
| back_to_scan: "c = CALLING \<or> c = HANDSHAKE \<or> c = LINKED \<or> c = SOUNDING \<Longrightarrow> edge c SCANNING"
| back_to_sounding: "c = HANDSHAKE \<or> c = LINKED \<Longrightarrow> edge c SOUNDING"
| back_to_link: "edge SOUNDING LINKED"
| to_idle: "c \<noteq> IDLE \<Longrightarrow> edge c IDLE"
| failure: "c \<noteq> ERROR_STATE \<Longrightarrow> edge c ERROR_STATE"

inductive_simps edge_simps [simp]:
  "edge IDLE n" "edge SCANNING n" "edge CALLING n" "edge HANDSHAKE n" "edge LINKED n" "edge SOUNDING n"
  "edge ERROR_STATE n"

inductive path :: "ale_state \<Rightarrow> (ale_state \<times> ale_state) list \<Rightarrow> ale_state \<Rightarrow> bool" where
  path_nil: "path a [] a"
| path_snoc: "path a r b \<Longrightarrow> edge b c \<Longrightarrow> path a (r @ [(b, c)]) c"

inductive_cases path_snocE: "path a (r @ [x]) c"

text \<open>Where a link or a sounding returns to.\<close>

fun return_ok :: "link_position \<Rightarrow> bool" where
  "return_ok (c, p, l) \<longleftrightarrow>
     l \<in> {IDLE, SCANNING, SOUNDING} \<and> (c = CALLING \<longrightarrow> l \<noteq> SOUNDING) \<and>
     (c = SOUNDING \<longrightarrow> p \<in> {IDLE, SCANNING, HANDSHAKE, LINKED})"

lemma return_ok_next: "return_ok x \<Longrightarrow> return_ok (next_position sweep e x)"
  by (cases x; cases e) (auto split: if_splits)

lemma edge_next:
  "return_ok x \<Longrightarrow> fst (next_position sweep e x) = fst x \<or> edge (fst x) (fst (next_position sweep e x))"
proof (cases x)
  case (fields c p l)
  assume "return_ok x"
  then show ?thesis
    unfolding fields by (cases e; cases c) auto
qed

lemma reported_enter [simp]: "reported (outs (enter_state n s)) = reported (outs s)"
  by (cases n) (simp_all add: enter_defs split: prod.split)

lemma count_enter [simp]:
  "count_list (outs (enter_state n s)) (Operator AMD_RETRY) = count_list (outs s) (Operator AMD_RETRY)"
  by (cases n) (simp_all add: enter_defs split: prod.split)

lemma amd_exit [simp]:
  "phase_linked_amd (exit_state n s) = phase_linked_amd s"
  "linked_amd_retry_pending (exit_state n s) = linked_amd_retry_pending s"
  by (simp_all add: exit_state_def split: ale_state.split)

text \<open>A transition in this view: the trace grows by the change, and a confirmation in progress ends.\<close>

definition changed :: "ale_sm \<Rightarrow> ale_sm \<Rightarrow> bool" where
  "changed s t \<longleftrightarrow>
     reported (outs t) = reported (outs s) @
       (if current_state t = current_state s then [] else [(current_state s, current_state t)]) \<and>
     amd t = (if current_state t = current_state s then amd s else (LA_NONE, False)) \<and>
     retries t = retries s \<and> linked_amd_attempts_left t = linked_amd_attempts_left s"

lemma changed_refl [simp]: "changed s s"
  by (simp add: changed_def)

lemma changed_transition: "changed s (snd (transition_to n s))"
  by (simp add: changed_def transition_to_def Let_def amd_def retries_def)

lemma changed_end_sweep: "changed s (snd (transition_to n (end_sweep s)))"
  by (simp add: changed_def transition_to_def Let_def amd_def retries_def end_sweep_def)

lemma changed_sounding_complete: "changed s (snd (sounding_complete s))"
proof -
  have "changed s (snd (transition_to n (end_sweep (s\<lparr>sounding_sweep_idx := i\<rparr>))))" for n i
    by (simp add: changed_def transition_to_def Let_def amd_def retries_def end_sweep_def)
  then show ?thesis
    by (simp add: sounding_complete_def Let_def changed_transition split: prod.split)
      (simp add: changed_def amd_def retries_def effect_defs)
qed

lemma changed_fire: "changed s (fire e s)"
  by (cases "current_state s"; cases e)
    (simp_all add: process_event_def state_event_def changed_transition changed_end_sweep changed_sounding_complete)


section \<open>The invariant of the machine\<close>

definition sm_inv :: "ale_sm \<Rightarrow> bool" where
  "sm_inv s \<longleftrightarrow> return_ok (position s) \<and> path IDLE (reported (outs s)) (current_state s) \<and>
     (current_state s \<noteq> LINKED \<longrightarrow> amd s = (LA_NONE, False))"

lemma sm_inv_view: "core t = core s \<Longrightarrow> amd t = amd s \<Longrightarrow> sm_inv t = sm_inv s"
  by (auto simp: sm_inv_def core_def position_def)

lemma sm_inv_keeps: "keeps s t \<Longrightarrow> sm_inv s \<Longrightarrow> sm_inv t"
  by (auto simp: keeps_def sm_inv_def core_def position_def)

lemma sm_inv_changed:
  assumes "changed s t" "sm_inv s" "return_ok (position t)"
    and "current_state t = current_state s \<or> edge (current_state s) (current_state t)"
  shows "sm_inv t"
  using assms by (auto simp: sm_inv_def changed_def intro: path_snoc split: if_splits)

lemma fst_position [simp]: "fst (position s) = current_state s"
  by (simp add: position_def)

lemma sm_inv_fire:
  assumes "sm_inv s"
  shows "sm_inv (fire e s)"
proof (rule sm_inv_changed [OF changed_fire assms])
  have ok: "return_ok (position s)" using assms by (simp add: sm_inv_def)
  then show "return_ok (position (fire e s))" by (simp add: fire_position return_ok_next)
  show "current_state (fire e s) = current_state s \<or> edge (current_state s) (current_state (fire e s))"
    using edge_next [OF ok, of "sweep_continues s" e] by (simp add: fire_position [symmetric])
qed

lemma sm_inv_moves:
  assumes "moves s t" "sm_inv s"
  shows "sm_inv t"
proof -
  have "keeps s t \<or> (\<exists>e u. keeps s u \<and> core t = core (fire e u) \<and> amd t = amd (fire e u))"
    using assms(1) by (simp add: moves_def)
  then show ?thesis
    by (metis assms(2) sm_inv_fire sm_inv_keeps sm_inv_view)
qed

lemma keeps_emergency:
  "\<exists>u. keeps s u \<and> emergency_manual_control s = snd (transition_to IDLE u)"
  by (simp add: emergency_manual_control_def Let_def)
    (intro conjI impI exI [of _ "transmit_words _ _"] exI [of _ "emit _ _"];
     (simp only: simp_thms)?; rule keepsI; simp add: view_defs effect_defs)

lemma sm_inv_emergency:
  assumes "sm_inv s"
  shows "sm_inv (emergency_manual_control s)"
proof -
  obtain u where u: "keeps s u" "emergency_manual_control s = snd (transition_to IDLE u)"
    using keeps_emergency by blast
  have inv: "sm_inv u" using sm_inv_keeps [OF u(1) assms] .
  have "sm_inv (snd (transition_to IDLE u))"
    by (rule sm_inv_changed [OF changed_transition inv])
      (use inv in \<open>cases "current_state u"; simp add: position_transition sm_inv_def; simp add: position_def\<close>)+
  then show ?thesis by (simp add: u(2))
qed

lemma sm_inv_send_amd: "sm_inv s \<Longrightarrow> sm_inv (send_linked_amd ws p n s)"
  by (auto simp: send_linked_amd_def sm_inv_def position_def)

lemmas sm_moves = moves_tick moves_received moves_word_complete moves_calls moves_soundings
  moves_link_operations moves_settings

fun sends_amd :: "sm_op \<Rightarrow> bool" where
  "sends_amd (Linked_Amd ws p n) = True"
| "sends_amd _ = False"

lemma moves_step:
  assumes "op \<noteq> Emergency" "\<not> sends_amd op"
  shows "moves s (sm_step s op)"
  using assms by (cases op) (simp_all add: sm_moves moves_simps)

lemma sm_inv_step: "sm_inv s \<Longrightarrow> sm_inv (sm_step s op)"
  using sm_inv_moves [OF moves_step [of op s]]
  by (cases op) (simp_all add: sm_inv_emergency sm_inv_send_amd)

interpretation sm: event_machine sm_step sm_inv
  by unfold_locales (rule sm_inv_step)

lemma sm_inv_initial: "sm_inv ALEStateMachine"
  by (simp add: sm_inv_def ALEStateMachine_def position_def amd_def path_nil)

abbreviation run :: "sm_op list \<Rightarrow> ale_sm" where
  "run ops \<equiv> foldl sm_step ALEStateMachine ops"

lemmas sm_inv_run = sm.run_inv [OF sm_inv_initial]

text \<open>
  C30. Whatever is called in whatever order, the state changes the machine reports connect: they form a
  path of the state graph from IDLE to the state the machine is in.
\<close>

theorem reported_changes_form_path:
  "path IDLE (reported (outs (run ops))) (current_state (run ops))"
  using sm_inv_run [of ops] by (simp add: sm_inv_def)

text \<open>
  C5. Return states: a link goes back to IDLE, to SCANNING or - after a call heard while sounding - to
  SOUNDING, an unanswered call always to IDLE or SCANNING, and the confirmation of a displayed message
  with its retry timer never outlives the link.
\<close>

theorem return_state_invariant:
  "pre_link_state (run ops) \<in> {IDLE, SCANNING, SOUNDING} \<and>
   (current_state (run ops) = CALLING \<longrightarrow> pre_link_state (run ops) \<in> {IDLE, SCANNING}) \<and>
   (current_state (run ops) \<noteq> LINKED \<longrightarrow>
      phase_linked_amd (run ops) = LA_NONE \<and> \<not> linked_amd_retry_pending (run ops))"
  using sm_inv_run [of ops] by (auto simp: sm_inv_def position_def amd_def)

theorem return_state_invariant_witness:
  "pre_link_state (run [Event CALL_REQUEST]) \<in> {IDLE, SCANNING}"
proof -
  have "current_state (run [Event CALL_REQUEST]) = CALLING"
    using fire_position [of CALL_REQUEST ALEStateMachine] by (simp add: position_def ALEStateMachine_def)
  then show ?thesis using return_state_invariant [of "[Event CALL_REQUEST]"] by blast
qed

section \<open>Retries of a displayed message\<close>

definition budget :: "ale_sm \<Rightarrow> nat \<times> bool" where
  "budget s = snd (snd (core s))"

lemma budget_changed: "changed s t \<Longrightarrow> budget t = budget s"
  by (simp add: budget_def core_def changed_def)

lemma budget_moves:
  assumes "moves s t"
  shows "budget t = budget s"
proof -
  have "core t = core s \<or> (\<exists>e u. core u = core s \<and> core t = core (fire e u))"
    using assms by (auto simp: moves_def keeps_def)
  then show ?thesis
    using budget_changed [OF changed_fire] by (metis budget_def)
qed

lemma budget_step:
  assumes "\<not> sends_amd op"
  shows "budget (sm_step s op) = budget s"
proof (cases "op = Emergency")
  case True
  obtain u where "keeps s u" "emergency_manual_control s = snd (transition_to IDLE u)"
    using keeps_emergency by blast
  with True show ?thesis
    using budget_changed [OF changed_transition [of u IDLE]] by (simp add: keeps_def budget_def)
next
  case False
  then show ?thesis using assms by (intro budget_moves moves_step)
qed

lemma budget_run: "\<forall>op\<in>set ops. \<not> sends_amd op \<Longrightarrow> budget (foldl sm_step s ops) = budget s"
proof (induction ops arbitrary: s)
  case (Cons op ops)
  then have "budget (sm_step s op) = budget s" by (intro budget_step) auto
  with Cons show ?case by simp
qed simp

text \<open>
  C33. Retries end: after a displayed message is sent with \<open>n\<close> attempts, every sequence of operations
  without another one contains at most \<open>max 1 n - 1\<close> retries, and retries made and attempts left always
  add up.
\<close>

theorem amd_retries_bounded:
  assumes "current_state s = LINKED" "\<not> linked_terminating s" "\<forall>op\<in>set ops. \<not> sends_amd op"
  shows "let t = foldl sm_step (send_linked_amd ws p n s) ops
         in retries t + unat (linked_amd_attempts_left t) = retries s + max 1 (unat n) \<and>
            retries t < retries s + max 1 (unat n)"
proof -
  have "budget (foldl sm_step (send_linked_amd ws p n s) ops) = (retries s + unat (max 1 n), True)"
    unfolding budget_run [OF assms(3)]
    using assms(1,2) by (simp add: budget_def core_def send_linked_amd_def retries_def max_def)
      (metis word_le_0_iff zero_neq_one)
  moreover have "unat (max 1 n) = max 1 (unat n)"
    by (simp add: max_def word_le_nat_alt)
  ultimately show ?thesis
    by (simp add: budget_def core_def Let_def unat_gt_0 [symmetric])
qed

definition linked_station :: ale_sm where
  "linked_station = fire HANDSHAKE_COMPLETE (fire CALL_DETECTED ALEStateMachine)"

lemma linked_station: "current_state linked_station = LINKED" "\<not> linked_terminating linked_station"
  by (simp_all add: linked_station_def process_event_def state_event_def transition_to_def exit_state_def enter_defs
      ALEStateMachine_def)

theorem amd_retries_bounded_witness:
  "let t = foldl sm_step (send_linked_amd [] ''ABC'' 3 linked_station) [Reset_Idle, Word_Complete]
   in retries t + unat (linked_amd_attempts_left t) = retries linked_station + max 1 (unat (3 :: u32)) \<and>
      retries t < retries linked_station + max 1 (unat (3 :: u32))"
  by (rule amd_retries_bounded) (simp_all add: linked_station)

end
