(* ===== verification/Sm_Link.thy ===== *)
theory Sm_Link
  imports Sm_Machine
begin

text \<open>
  Links of the state machine: which station a link is bound to, how an idle link ends, what of one link
  reaches the next.
\<close>

section \<open>What an event keeps\<close>

text \<open>The members no transition writes: messages to be sent over a link, addresses, times.\<close>

definition baggage where
  "baggage s = (book s, timing s, current_time_ms s, orderwire_pending s, orderwire_transmitting s,
     pending_orderwire_words s, orderwire_double_burst s, sent_words s)"

lemma baggage_record [simp]:
  "baggage (s\<lparr>current_state := n\<rparr>) = baggage s" "baggage (s\<lparr>previous_state := n\<rparr>) = baggage s"
  "baggage (s\<lparr>state_entry_time_ms := t\<rparr>) = baggage s" "baggage (s\<lparr>sounding_sweep_idx := i\<rparr>) = baggage s"
  by (simp_all add: baggage_def sent_words_def)

lemma baggage_emit [simp]: "\<not> is_transmit x \<Longrightarrow> baggage (emit x s) = baggage s"
  by (simp add: baggage_def sent_words_def emit_def)

lemma baggage_enter [simp]: "baggage (enter_state n s) = baggage s"
  by (cases n) (simp_all add: baggage_def sent_words_def enter_defs split: prod.split)

lemma baggage_exit [simp]: "baggage (exit_state n s) = baggage s"
  by (simp add: baggage_def sent_words_def exit_state_def split: ale_state.split)

lemma baggage_end_sweep [simp]: "baggage (end_sweep s) = baggage s"
  by (simp add: baggage_def sent_words_def end_sweep_def)

lemma baggage_transition [simp]: "baggage (snd (transition_to n s)) = baggage s"
  by (simp add: transition_to_def Let_def)

lemma baggage_sounding_complete [simp]: "baggage (snd (sounding_complete s)) = baggage s"
  by (simp add: sounding_complete_def Let_def split: prod.split)
    (simp add: baggage_def sent_words_def effect_defs)

lemma baggage_fire [simp]: "baggage (fire e s) = baggage s"
  by (cases "current_state s"; cases e) (simp_all add: process_event_def state_event_def)

lemma baggage_run [simp]: "baggage (fold fire es s) = baggage s"
  by (induction es arbitrary: s) simp_all

lemma sent_words_fire [simp]: "sent_words (fire e s) = sent_words s"
  using baggage_fire [of e s] by (simp add: baggage_def)

lemma sent_words_fields [simp]:
  "sent_words (s\<lparr>linked_terminating := b\<rparr>) = sent_words s" "sent_words (s\<lparr>tx_drain_start_ms := t\<rparr>) = sent_words s"
  "sent_words (s\<lparr>tx_drain_deadline_ms := t\<rparr>) = sent_words s" "sent_words (s\<lparr>current_time_ms := t\<rparr>) = sent_words s"
  "sent_words (s\<lparr>orderwire_pending := b\<rparr>) = sent_words s" "sent_words (s\<lparr>orderwire_transmitting := b\<rparr>) = sent_words s"
  "sent_words (s\<lparr>words_pending := n\<rparr>) = sent_words s" "sent_words (s\<lparr>phase_calling := cp\<rparr>) = sent_words s"
  "sent_words (s\<lparr>phase_handshake := hp\<rparr>) = sent_words s" "sent_words (s\<lparr>phase_sounding := sp\<rparr>) = sent_words s"
  "sent_words (s\<lparr>call_cycle_count := n\<rparr>) = sent_words s" "sent_words (s\<lparr>call_cycles_in_phase := n\<rparr>) = sent_words s"
  "sent_words (s\<lparr>words_pending := n, call_cycle_count := n', call_cycles_in_phase := n''\<rparr>) = sent_words s"
  by (simp_all add: sent_words_def)

lemma sent_words_transmit:
  "sent_words (transmit_words ws s) = sent_words s @ map (stamped (current_time_ms s)) ws"
proof -
  have "filter is_transmit (map (stamped t) ws) = map (stamped t) ws" for t
    by (induction ws) (simp_all add: stamped_def)
  then show ?thesis by (simp add: transmit_words_eq sent_words_def)
qed

section \<open>Entering a link\<close>

definition link_peer :: "ale_sm \<Rightarrow> string" where
  "link_peer s =
     (if active_call_is_group s
      then if to_address s \<noteq> [] then to_address s else active_call_to s
      else if caller_address s \<noteq> [] then caller_address s else active_call_to s)"

lemma fire_handshake_complete:
  assumes "current_state s = CALLING \<or> current_state s = HANDSHAKE"
  shows "fire HANDSHAKE_COMPLETE s = snd (transition_to LINKED s)"
  using assms by (auto simp: process_event_def state_event_def)

lemma enter_link:
  assumes "current_state s = CALLING \<or> current_state s = HANDSHAKE"
  shows "current_state (fire HANDSHAKE_COMPLETE s) = LINKED"
    and "active_call_to (fire HANDSHAKE_COMPLETE s) = link_peer s"
    and "\<not> linked_terminating (fire HANDSHAKE_COMPLETE s)"
    and "linked_twas_addr (fire HANDSHAKE_COMPLETE s) = []"
    and "tx_drain_start_ms (fire HANDSHAKE_COMPLETE s) = 0"
    and "last_word_time_ms (fire HANDSHAKE_COMPLETE s) = current_time_ms s"
    and "words_pending (fire HANDSHAKE_COMPLETE s) = 0"
  using assms
  by (auto simp: fire_handshake_complete transition_to_def exit_state_def enter_defs link_peer_def)

text \<open>
  C39. A link we call for is bound to the wrong station when an earlier call reached us: the address of
  that earlier caller is still stored, so when the last word of our acknowledgement has gone out the
  machine is LINKED and the peer it will terminate the link with is the earlier caller, whatever
  station was called and answered.
\<close>

theorem call_links_stale_peer:
  assumes "current_state s = CALLING" "phase_calling s = CP_SENDING_ACK" "words_pending s = 1"
    and "\<not> active_call_is_group s" "\<not> no_link s" "\<not> allcall_broadcasting s"
    and "caller_address s \<noteq> []" "self_addr s \<noteq> []"
  shows "current_state (on_word_complete s) = LINKED \<and>
    active_call_to (on_word_complete s) = caller_address s \<and>
    sent_words (terminate_link (on_word_complete s)) =
      sent_words s @ map (stamped (current_time_ms s)) (termination_frame (caller_address s) (self_addr s))"
proof -
  let ?u = "emit (Operator LINK_ESTABLISHED) (s\<lparr>words_pending := 0,
    call_cycle_count := call_cycle_count s + 1, call_cycles_in_phase := call_cycles_in_phase s + 1\<rparr>)"
  have u: "on_word_complete s = fire HANDSHAKE_COMPLETE ?u"
    using assms by (auto simp: on_word_complete_def calling_word_complete_def sending_ack_complete_def no_link_def Let_def)
  have c: "current_state ?u = CALLING \<or> current_state ?u = HANDSHAKE" using assms(1) by simp
  note link = enter_link [OF c]
  have peer: "link_peer ?u = caller_address s" using assms by (simp add: link_peer_def emit_def)
  have bag: "baggage (fire HANDSHAKE_COMPLETE ?u) = baggage s"
    by (simp, simp add: baggage_def sent_words_def)
  have self: "self_addr (fire HANDSHAKE_COMPLETE ?u) = self_addr s"
    "current_time_ms (fire HANDSHAKE_COMPLETE ?u) = current_time_ms s"
    using bag by (simp_all add: baggage_def self_addr_def)
  have "sent_words (terminate_link v) =
      sent_words v @ map (stamped (current_time_ms v)) (termination_frame (active_call_to v) (self_addr v))"
    if "current_state v = LINKED" for v
    using that unfolding terminate_link_def
    by (simp add: Let_def sent_words_transmit arm_drain_def self_addr_def)
  with link self bag show ?thesis
    unfolding u by (simp add: peer)
qed


text \<open>A station that was called once and is now the caller.\<close>

definition second_call :: ale_sm where
  "second_call = (fire CALL_REQUEST ALEStateMachine)
     \<lparr>caller_address := ''BOB'', book := (AddressBook\<lparr>self_address := ''SAM''\<rparr>),
      phase_calling := CP_SENDING_ACK, words_pending := 1, active_call_to := ''JOE'', to_address := ''JOE''\<rparr>"

lemma second_call [simp]:
  "current_state second_call = CALLING" "active_call_is_group second_call = False"
  "no_link second_call = False" "allcall_broadcasting second_call = False"
  by (simp_all add: second_call_def process_event_def state_event_def transition_to_def exit_state_def enter_defs
      ALEStateMachine_def no_link_def PendingMessage_def)

theorem call_links_stale_peer_witness:
  "active_call_to second_call = ''JOE'' \<and> active_call_to (on_word_complete second_call) = ''BOB''"
  using call_links_stale_peer [of second_call]
  by (simp, simp add: second_call_def self_addr_def)

section \<open>An idle link\<close>

text \<open>Nothing is being sent, waited for or collected on the link.\<close>

definition quiet_link :: "ale_sm \<Rightarrow> bool" where
  "quiet_link s \<longleftrightarrow> current_state s = LINKED \<and> \<not> linked_terminating s \<and> \<not> orderwire_transmitting s \<and>
     \<not> orderwire_pending s \<and> \<not> linked_amd_retry_pending s \<and> phase_linked_amd s = LA_NONE \<and>
     linked_twas_addr s = [] \<and> \<not> allcall_broadcasting s"

lemma fire_link_timeout:
  "current_state s = LINKED \<Longrightarrow> current_state (fire LINK_TIMEOUT s) = pre_link_state s"
  by (simp add: process_event_def state_event_def)

lemma idle_warning_keeps [simp]:
  "current_state (linked_idle_warning s) = current_state s" "last_word_time_ms (linked_idle_warning s) = last_word_time_ms s"
  "current_time_ms (linked_idle_warning s) = current_time_ms s" "timing (linked_idle_warning s) = timing s"
  "active_call_to (linked_idle_warning s) = active_call_to s" "book (linked_idle_warning s) = book s"
  "pre_link_state (linked_idle_warning s) = pre_link_state s"
  "sent_words (linked_idle_warning s) = sent_words s"
  by (simp_all add: linked_idle_warning_def sent_words_def emit_def Let_def)

lemma quiet_tick:
  assumes "quiet_link s" "t - current_time_ms s < 0x80000000"
  shows "update env t s =
    (if t - last_word_time_ms s > max (param_Twa_ms (timing s)) 120000
     then fire LINK_TIMEOUT (s\<lparr>current_time_ms := t\<rparr>)
     else linked_twa (linked_idle_warning (s\<lparr>current_time_ms := t\<rparr>)))"
  using assms
  by (simp add: update_def check_link_timeout_def handle_state_def handle_linked_def quiet_link_def Let_def not_le)

text \<open>
  How an idle link ends, for an inactivity limit of two minutes or more (the default of the user
  interface is six): the termination frame goes to the peer only from a tick that falls on the very
  millisecond the limit is reached. Any later tick is taken by the generic timeout, which comes first:
  the link is left and nothing is sent, so the peer stays linked.
\<close>

theorem idle_link_end:
  assumes "quiet_link s" "120000 \<le> param_Twa_ms (timing s)" "t - current_time_ms s < 0x80000000"
    and "active_call_to s \<noteq> []" "self_addr s \<noteq> []"
  defines "idle \<equiv> t - last_word_time_ms s"
  shows "sent_words (update env t s) = sent_words s @
      (if idle = param_Twa_ms (timing s)
       then map (stamped t) (termination_frame (active_call_to s) (self_addr s)) else []) \<and>
    current_state (update env t s) = (if idle \<ge> param_Twa_ms (timing s) then pre_link_state s else LINKED)"
proof -
  let ?u = "linked_idle_warning (s\<lparr>current_time_ms := t\<rparr>)"
  have c: "current_state s = LINKED" using assms(1) by (simp add: quiet_link_def)
  have m: "max (param_Twa_ms (timing s)) 120000 = param_Twa_ms (timing s)"
    using assms(2) by (simp add: max_def)
  have self: "self_addr ?u = self_addr s" by (simp add: self_addr_def)
  have twa: "linked_twa ?u = (if idle \<ge> param_Twa_ms (timing s)
      then fire LINK_TIMEOUT (transmit_words (termination_frame (active_call_to s) (self_addr s)) (?u\<lparr>linked_terminating := True\<rparr>))
      else ?u)"
    using assms(4,5) self by (simp add: linked_twa_def idle_def self_addr_def)
  have end_state: "current_state (fire LINK_TIMEOUT (transmit_words ws (?u\<lparr>linked_terminating := True\<rparr>))) = pre_link_state s" for ws
    using c by (simp add: fire_link_timeout transmit_words_eq)
  show ?thesis
    unfolding quiet_tick [OF assms(1,3)] m idle_def [symmetric] twa
    using c by (auto simp: sent_words_transmit end_state fire_link_timeout)
qed

definition clear_channel :: sm_env where
  "clear_channel = \<lparr>channel_busy = False, hop_ready = True\<rparr>"

definition idle_station :: ale_sm where
  "idle_station = linked_station\<lparr>book := (AddressBook\<lparr>self_address := ''SAM''\<rparr>), active_call_to := ''JOE'',
     timing := (TimingParameters\<lparr>param_Twa_ms := 360000\<rparr>)\<rparr>"

lemma quiet_idle_station: "quiet_link idle_station" "pre_link_state idle_station = IDLE"
  "last_word_time_ms idle_station = 0" "current_time_ms idle_station = 0"
  by (simp_all add: quiet_link_def idle_station_def linked_station_def process_event_def state_event_def
      transition_to_def exit_state_def enter_defs ALEStateMachine_def)

theorem idle_link_end_witness:
  "sent_words (update clear_channel 360001 idle_station) = sent_words idle_station \<and>
   current_state (update clear_channel 360001 idle_station) = IDLE"
  using idle_link_end [of idle_station 360001 clear_channel] quiet_idle_station
  by (simp, simp add: idle_station_def self_addr_def)

section \<open>What one link leaves for the next\<close>

lemma fresh_link_tick:
  assumes "current_state s = LINKED" "\<not> linked_terminating s" "linked_twas_addr s = []" "tx_drain_start_ms s = 0"
    and "last_word_time_ms s = current_time_ms s" "t - current_time_ms s \<le> 120000"
    and "orderwire_pending s" "\<not> orderwire_transmitting s"
  shows "update env t s = send_orderwire (s\<lparr>current_time_ms := t\<rparr>)"
proof -
  have "\<not> 0x80000000 \<le> t - current_time_ms s" using assms(6) by (simp add: not_le) (erule order_le_less_trans, simp)
  moreover have "\<not> max (param_Twa_ms (timing s)) 120000 < t - current_time_ms s"
    using assms(6) by (simp add: not_less max.coboundedI2)
  ultimately show ?thesis
    using assms by (auto simp: update_def check_link_timeout_def handle_state_def handle_linked_def Let_def)
qed

text \<open>
  A message queued on a link and not yet sent when the link ends is not dropped: through any events
  in between it waits for the next link and is the first thing the machine sends there - to a station
  it was not meant for.
\<close>

theorem queued_message_leaks:
  assumes "orderwire_pending s" "\<not> orderwire_transmitting s"
    and "current_state (fold fire es s) \<in> {CALLING, HANDSHAKE}" "t - current_time_ms s \<le> 120000"
  defines "u \<equiv> fire HANDSHAKE_COMPLETE (fold fire es s)"
  shows "current_state u = LINKED \<and>
    sent_words (update env t u) = sent_words s @ map (stamped t) (orderwire_words s)"
proof -
  have c: "current_state (fold fire es s) = CALLING \<or> current_state (fold fire es s) = HANDSHAKE"
    using assms(3) by auto
  note link = enter_link [OF c, folded u_def]
  have bag: "baggage u = baggage s" by (simp add: u_def)
  then have same: "current_time_ms u = current_time_ms s" "orderwire_pending u" "\<not> orderwire_transmitting u"
    "sent_words u = sent_words s" "orderwire_words (u\<lparr>current_time_ms := t\<rparr>) = orderwire_words s"
    using assms(1,2) by (simp_all add: baggage_def orderwire_words_def self_addr_def)
  have "current_time_ms (fold fire es s) = current_time_ms s"
    using baggage_run [of es s] by (simp add: baggage_def)
  then have "update env t u = send_orderwire (u\<lparr>current_time_ms := t\<rparr>)"
    using link same assms(4) by (intro fresh_link_tick) simp_all
  moreover have "sent_words (send_orderwire v) = sent_words v @ map (stamped (current_time_ms v)) (orderwire_words v)" for v
  proof -
    have "orderwire_words (emit x (v\<lparr>orderwire_pending := False, orderwire_transmitting := True\<rparr>)) = orderwire_words v" for x
      by (simp add: orderwire_words_def self_addr_def emit_def Let_def)
    then show ?thesis
      by (simp add: send_orderwire_def arm_drain_def Let_def sent_words_transmit)
  qed
  ultimately show ?thesis using link(1) same by simp
qed

definition queued_station :: ale_sm where
  "queued_station = trigger_linked_orderwire (encode_amd ''HELLO'') False linked_station"

theorem queued_message_leaks_witness:
  "sent_words (update clear_channel 1000 (fire HANDSHAKE_COMPLETE (fold fire [LINK_TERMINATED, CALL_DETECTED] queued_station))) =
   sent_words queued_station @ map (stamped 1000) (orderwire_words queued_station)"
proof -
  have q: "orderwire_pending queued_station" "\<not> orderwire_transmitting queued_station"
    "current_time_ms queued_station = 0" "position queued_station = (LINKED, HANDSHAKE, IDLE)"
    by (simp_all add: queued_station_def trigger_linked_orderwire_def position_def linked_station_def process_event_def
        state_event_def transition_to_def exit_state_def enter_defs ALEStateMachine_def)
  then have "position (fold fire [LINK_TERMINATED, CALL_DETECTED] queued_station) = (HANDSHAKE, IDLE, IDLE)"
    by (simp add: fire_position)
  then have "current_state (fold fire [LINK_TERMINATED, CALL_DETECTED] queued_station) \<in> {CALLING, HANDSHAKE}"
    by (simp add: position_def)
  with q show ?thesis
    using queued_message_leaks [of queued_station "[LINK_TERMINATED, CALL_DETECTED]" 1000 clear_channel] by simp
qed

end
