(* ===== verification/Sm_Reception.thy ===== *)
theory Sm_Reception
  imports Sm_Link
begin

text \<open>
  A transmitting and a receiving station together: what the state machine of the receiver makes of the
  words the encoder of the transmitter produces for an address, with time passing between the words.
\<close>

section \<open>Hearing words\<close>

text \<open>One word heard at a time: the receiver's clock advances, then the word arrives.\<close>

definition hear :: "sm_env \<Rightarrow> ale_sm \<Rightarrow> u32 \<times> ale_word \<Rightarrow> ale_sm" where
  "hear env s = (\<lambda>(t, w). process_received_word w (update env t s))"

text \<open>Words follow each other before the time of two words has passed.\<close>

fun paced :: "u32 \<Rightarrow> u32 list \<Rightarrow> bool" where
  "paced l [] = True"
| "paced l (t # ts) = (t - l < 784 \<and> paced t ts)"

text \<open>The part of the state that matters for the reception of an address.\<close>

definition rx_view where
  "rx_view s = ((current_state s, phase_handshake s, hs_conclusion_rcvd s, hs_conclusion_is_twas s, caller_address s),
     (hs_tlww_start_ms s, current_time_ms s, state_entry_time_ms s, timing s, last_word_time_ms s),
     (allcall_broadcasting s, allcall_silent s, book s, active_call_to s, pre_link_state s),
     (linked_twas_addr s, linked_twas_last_ms s, phase_linked_amd s, linked_terminating s,
      orderwire_transmitting s, orderwire_pending s, linked_amd_retry_pending s))"

lemma rx_update_lqa [simp]: "rx_view (update_lqa q s) = rx_view s"
  by (simp add: rx_view_def update_lqa_def emit_def Let_def)

lemma rx_assembler [simp]: "rx_view (feed_assembler w s) = rx_view s"
  by (simp add: rx_view_def feed_assembler_def emit_def Let_def split: prod.split option.split)

lemma rx_view_eq:
  assumes "rx_view t = rx_view s"
  shows "current_state t = current_state s" "phase_handshake t = phase_handshake s"
    "hs_conclusion_rcvd t = hs_conclusion_rcvd s" "hs_conclusion_is_twas t = hs_conclusion_is_twas s"
    "caller_address t = caller_address s" "hs_tlww_start_ms t = hs_tlww_start_ms s"
    "current_time_ms t = current_time_ms s" "state_entry_time_ms t = state_entry_time_ms s"
    "timing t = timing s" "allcall_broadcasting t = allcall_broadcasting s" "allcall_silent t = allcall_silent s"
    "book t = book s" "last_word_time_ms t = last_word_time_ms s" "active_call_to t = active_call_to s"
    "pre_link_state t = pre_link_state s" "linked_twas_addr t = linked_twas_addr s"
    "linked_twas_last_ms t = linked_twas_last_ms s" "phase_linked_amd t = phase_linked_amd s"
    "linked_terminating t = linked_terminating s" "orderwire_transmitting t = orderwire_transmitting s"
    "orderwire_pending t = orderwire_pending s" "linked_amd_retry_pending t = linked_amd_retry_pending s"
  using assms by (simp_all add: rx_view_def)

lemmas lqa_fields [simp] = rx_view_eq [OF rx_update_lqa]
lemmas assembler_fields [simp] = rx_view_eq [OF rx_assembler]

section \<open>The caller of a handshake\<close>

definition waiting :: "string \<Rightarrow> ale_sm \<Rightarrow> bool" where
  "waiting c s \<longleftrightarrow> current_state s = HANDSHAKE \<and> phase_handshake s = HP_WAIT_CYCLE_END \<and> hs_conclusion_rcvd s \<and>
     \<not> hs_conclusion_is_twas s \<and> caller_address s = c \<and> hs_tlww_start_ms s = current_time_ms s \<and>
     \<not> allcall_broadcasting s \<and> \<not> allcall_silent s"

definition in_time :: "ale_sm \<Rightarrow> u32 \<Rightarrow> bool" where
  "in_time s t \<longleftrightarrow> t - state_entry_time_ms s \<le> param_Twa_ms (timing s)"

lemma small_gap: "d < 784 \<Longrightarrow> \<not> 0x80000000 \<le> (d :: u32)" "d < 784 \<Longrightarrow> \<not> 784 \<le> (d :: u32)"
  by (simp_all add: not_le) (erule order.strict_trans, simp)

lemma waiting_tick:
  assumes "waiting c s" "t - current_time_ms s < 784" "in_time s t"
  shows "update env t s = s\<lparr>current_time_ms := t\<rparr>"
  using assms small_gap [OF assms(2)]
  by (auto simp: waiting_def in_time_def update_def check_link_timeout_def handle_state_def handle_handshake_def
      handshake_wait_cycle_end_def Let_def)

text \<open>The state in which the reaction to a valid word runs.\<close>

definition before_reaction :: "ale_word \<Rightarrow> ale_sm \<Rightarrow> ale_sm" where
  "before_reaction w s =
     (let s = s\<lparr>contiguous_errors := 0, last_word_time_ms := current_time_ms s\<rparr>
      in update_lqa (word_quality w s) s)"

lemma received_valid:
  "valid w \<Longrightarrow> process_received_word w s =
     feed_assembler w (react (classify (before_reaction w s) w) w (before_reaction w s))"
  by (simp add: process_received_word_def before_reaction_def Let_def)

lemma rx_before_reaction: "rx_view (before_reaction w s) = rx_view (s\<lparr>last_word_time_ms := current_time_ms s\<rparr>)"
  unfolding before_reaction_def Let_def rx_update_lqa by (simp add: rx_view_def)

lemmas before_reaction_fields [simp] = rx_view_eq [OF rx_before_reaction]

lemma waiting_hear:
  assumes "waiting c s" "t - current_time_ms s < 784" "in_time s t"
    and "valid w" "word_type w = DATA \<or> word_type w = REP"
  shows "waiting (c @ trim_ale_address (address w)) (hear env s (t, w)) \<and>
    current_time_ms (hear env s (t, w)) = t \<and> in_time (hear env s (t, w)) = in_time s"
proof -
  let ?t = "s\<lparr>current_time_ms := t\<rparr>"
  have cl: "classify (before_reaction w ?t) w = \<lparr>role_type = DATA_EXTENSION, role_address = trim_ale_address (address w)\<rparr>"
    using assms(1,5) by (auto simp: classify_def lbt_active_def collecting_address_def waiting_def)
  have h: "hear env s (t, w) = feed_assembler w (react (classify (before_reaction w ?t) w) w (before_reaction w ?t))"
    unfolding hear_def by (simp add: waiting_tick [OF assms(1-3)] received_valid [OF assms(4)])
  show ?thesis
    using assms(1) unfolding h cl
    by (simp add: waiting_def in_time_def fun_eq_iff react_def react_handshake_def react_wait_cycle_end_def)
qed

lemma waiting_hear_all:
  assumes "waiting c s" "paced (current_time_ms s) ts" "\<forall>t\<in>set ts. in_time s t" "length ts = length ws"
    and "list_all valid ws" "list_all (\<lambda>w. word_type w = DATA \<or> word_type w = REP) ws"
  shows "waiting (c @ concat (map (\<lambda>w. trim_ale_address (address w)) ws)) (foldl (hear env) s (zip ts ws)) \<and>
    current_time_ms (foldl (hear env) s (zip ts ws)) = last (current_time_ms s # ts) \<and>
    in_time (foldl (hear env) s (zip ts ws)) = in_time s"
  using assms
proof (induction ts arbitrary: c s ws)
  case Nil
  then show ?case by simp
next
  case (Cons t ts)
  then obtain w ws' where ws: "ws = w # ws'" by (cases ws) auto
  from Cons.prems have "waiting (c @ trim_ale_address (address w)) (hear env s (t, w)) \<and>
      current_time_ms (hear env s (t, w)) = t \<and> in_time (hear env s (t, w)) = in_time s"
    by (intro waiting_hear) (simp_all add: ws)
  with Cons.prems Cons.IH [of "c @ trim_ale_address (address w)" "hear env s (t, w)" ws'] show ?case
    by (simp add: ws)
qed


text \<open>The words of an address as the receiver reads them.\<close>

lemma address_read:
  assumes "valid_address a" "t \<noteq> UNKNOWN"
  obtains w ws where "encode_address a t = w # ws" "valid w" "word_type w = t"
    "trim_ale_address (address w) = take 3 a" "list_all valid ws"
    "list_all (\<lambda>w. word_type w = DATA \<or> word_type w = REP) ws"
    "concat (map (\<lambda>w. trim_ale_address (address w)) ws) = drop 3 a"
proof (rule that)
  have l: "1 \<le> length (chunk a)" "length (chunk a) \<le> 5" using length_chunk by blast+
  then have c: "hd (chunk a) \<in> set (chunk a)" by (cases "chunk a") auto
  note f = chunk_word_fields(1) [OF assms(1)] trim_chunk [OF assms(1)] chunk_word_valid [OF assms(1)]
  let ?ws = "map2 chunk_word (take (length (chunk a) - 1) EXT) (tl (chunk a))"
  show "encode_address a t = chunk_word t (hd (chunk a)) # ?ws" by (rule encode_address_chunks)
  show "valid (chunk_word t (hd (chunk a)))" "word_type (chunk_word t (hd (chunk a))) = t"
    "trim_ale_address (address (chunk_word t (hd (chunk a)))) = take 3 a"
    using f(1,2) [OF c assms(2)] first_chunk(1) [OF assms(1)] f(3) [OF c assms(2)] by simp_all
  show "list_all valid ?ws" "list_all (\<lambda>w. word_type w = DATA \<or> word_type w = REP) ?ws"
    by (rule length_5_cases [OF l]; simp add: EXT_def f)+
  show "concat (map (\<lambda>w. trim_ale_address (address w)) ?ws) = drop 3 a"
    unfolding first_chunk(2) [OF assms(1), symmetric]
    by (rule length_5_cases [OF l]; simp add: EXT_def f(2))
qed

text \<open>A handshake that has not heard the caller yet.\<close>

definition handshake_open :: "ale_sm \<Rightarrow> bool" where
  "handshake_open s \<longleftrightarrow> current_state s = HANDSHAKE \<and> phase_handshake s = HP_WAIT_CYCLE_END \<and>
     \<not> hs_conclusion_rcvd s \<and> \<not> hs_conclusion_is_twas s \<and> caller_address s = [] \<and> hs_message_start_ms s = 0 \<and>
     \<not> allcall_broadcasting s \<and> \<not> allcall_silent s"

lemma open_hear:
  assumes "handshake_open s" "t - current_time_ms s < 784" "t - last_word_time_ms s < twce_ms s" "in_time s t"
    and "valid w" "word_type w = TIS"
  shows "waiting (trim_ale_address (address w)) (hear env s (t, w)) \<and>
    current_time_ms (hear env s (t, w)) = t \<and> in_time (hear env s (t, w)) = in_time s"
proof -
  let ?t = "s\<lparr>current_time_ms := t\<rparr>"
  have u: "update env t s = ?t"
    using assms(1,3,4) small_gap [OF assms(2)]
    by (auto simp: handshake_open_def in_time_def update_def check_link_timeout_def handle_state_def
        handle_handshake_def handshake_wait_cycle_end_def Let_def)
  have cl: "classify (before_reaction w ?t) w = \<lparr>role_type = TIS_CALLER, role_address = trim_ale_address (address w)\<rparr>"
    using assms(1,6) by (auto simp: classify_def lbt_active_def collecting_address_def handshake_open_def)
  have h: "hear env s (t, w) = feed_assembler w (react (classify (before_reaction w ?t) w) w (before_reaction w ?t))"
    unfolding hear_def by (simp add: u received_valid [OF assms(5)])
  show ?thesis
    using assms(1) unfolding h cl
    by (simp add: waiting_def handshake_open_def in_time_def fun_eq_iff react_def react_handshake_def react_wait_cycle_end_def)
qed

lemma waiting_settles:
  assumes "waiting c s" "0 < current_time_ms s" "784 \<le> t - current_time_ms s" "t - current_time_ms s < 0x80000000"
    and "in_time s t"
  shows "phase_handshake (update env t s) = HP_SLOT_WAIT \<and> caller_address (update env t s) = c \<and>
    current_state (update env t s) = HANDSHAKE"
  using assms by (auto simp: waiting_def in_time_def update_def check_link_timeout_def handle_state_def
      handle_handshake_def handshake_wait_cycle_end_def Let_def)

text \<open>
  C15. The caller's address arrives whole: a station that has detected a call and hears the words of
  the caller's conclusion, each within the time of two words of the one before, has - whatever the
  length of the address - the caller's full address when the channel has been silent for two words, and
  goes on to wait for its response slot.
\<close>

theorem caller_address_collected:
  assumes "valid_address a" "handshake_open s" "length (t # ts) = length (conclusion a False)"
    and "paced (current_time_ms s) (t # ts)" "t - last_word_time_ms s < twce_ms s"
    and "\<forall>x\<in>set (t # ts @ [t']). x - state_entry_time_ms s \<le> param_Twa_ms (timing s)"
    and "0 < last (t # ts)" "784 \<le> t' - last (t # ts)" "t' - last (t # ts) < 0x80000000"
  shows "let u = update env t' (foldl (hear env) s (zip (t # ts) (conclusion a False)))
         in phase_handshake u = HP_SLOT_WAIT \<and> caller_address u = a"
proof -
  define u where "u = foldl (hear env) s (zip (t # ts) (conclusion a False))"
  have tis: "TIS \<noteq> UNKNOWN" by simp
  obtain w ws where w: "encode_address a TIS = w # ws" "valid w" "word_type w = TIS"
    "trim_ale_address (address w) = take 3 a" "list_all valid ws"
    "list_all (\<lambda>w. word_type w = DATA \<or> word_type w = REP) ws"
    "concat (map (\<lambda>w. trim_ale_address (address w)) ws) = drop 3 a"
    by (rule address_read [OF assms(1) tis])
  have c: "conclusion a False = w # ws" using w(1) by (simp add: conclusion_def)
  let ?s = "hear env s (t, w)"
  have first: "waiting (take 3 a) ?s" "current_time_ms ?s = t" "in_time ?s = in_time s"
    using open_hear [OF assms(2), of t w env] assms(4-6) w(2-4) by (simp_all add: in_time_def)
  have u: "u = foldl (hear env) ?s (zip ts ws)" by (simp add: u_def c)
  have "waiting (take 3 a @ concat (map (\<lambda>w. trim_ale_address (address w)) ws)) u \<and>
      current_time_ms u = last (current_time_ms ?s # ts) \<and> in_time u = in_time ?s"
    unfolding u using assms(3,4,6) first w(5,6)
    by (intro waiting_hear_all) (simp_all add: c in_time_def)
  with first w(7) have "waiting a u" "current_time_ms u = last (t # ts)" "in_time u = in_time s" by simp_all
  then show ?thesis
    using waiting_settles [of a u t' env] assms(6-9) by (simp add: in_time_def u_def [symmetric])
qed

definition called_station :: ale_sm where
  "called_station = fire CALL_DETECTED ALEStateMachine"

lemma called_station:
  "handshake_open called_station" "current_time_ms called_station = 0" "last_word_time_ms called_station = 0"
  "state_entry_time_ms called_station = 0" "timing called_station = TimingParameters"
  "twce_ms called_station = calc_twce_ms 1"
  by (simp_all add: called_station_def handshake_open_def process_event_def state_event_def transition_to_def
      exit_state_def enter_defs ALEStateMachine_def ChannelManager_def channel_count_def ScanConfig_def)


theorem caller_address_collected_witness:
  "let u = update clear_channel 2000 (foldl (hear clear_channel) called_station
     (zip [100, 492, 884] (conclusion ''CALLER7'' False)))
   in phase_handshake u = HP_SLOT_WAIT \<and> caller_address u = ''CALLER7''"
proof -
  have "valid_address ''CALLER7''"
    by (simp add: valid_address_def is_valid_basic38_char_iff)
  moreover have "length (conclusion ''CALLER7'' False) = 3"
    by (simp add: conclusion_def chunk_triples)
  ultimately show ?thesis
    by (intro caller_address_collected)
      (simp_all add: called_station calc_twce_ms_def TimingParameters_def)
qed

section \<open>The end of a link\<close>

text \<open>A quiet link but for a conclusion of which the address \<open>a\<close> has been heard.\<close>

definition hearing_end :: "string \<Rightarrow> ale_sm \<Rightarrow> bool" where
  "hearing_end a s \<longleftrightarrow> quiet_link (s\<lparr>linked_twas_addr := []\<rparr>) \<and> linked_twas_addr s = a"

text \<open>What neither time nor words change.\<close>

definition link_view where
  "link_view s = (timing s, active_call_to s, pre_link_state s)"

lemma idle_warning_quiet:
  "hearing_end a (linked_idle_warning s) = hearing_end a s" "linked_twas_last_ms (linked_idle_warning s) = linked_twas_last_ms s"
  by (simp_all add: hearing_end_def quiet_link_def linked_idle_warning_def emit_def Let_def)

text \<open>A tick within the time of two words of the last one heard, on a link that is not idle for too long.\<close>

lemma hearing_tick:
  assumes "hearing_end a s" "a \<noteq> [] \<longrightarrow> t - linked_twas_last_ms s < 784"
    and "t - current_time_ms s < 0x80000000" "t - last_word_time_ms s < param_Twa_ms (timing s)"
  shows "hearing_end a (update env t s) \<and> link_view (update env t s) = link_view s \<and> current_time_ms (update env t s) = t \<and>
    linked_twas_last_ms (update env t s) = linked_twas_last_ms s"
proof -
  let ?u = "linked_idle_warning (s\<lparr>current_time_ms := t\<rparr>)"
  have n: "\<not> max (param_Twa_ms (timing s)) 120000 < t - last_word_time_ms s" "\<not> 0x80000000 \<le> t - current_time_ms s"
    "\<not> param_Twa_ms (timing s) \<le> t - last_word_time_ms s" "a \<noteq> [] \<longrightarrow> \<not> 784 \<le> t - linked_twas_last_ms s"
    using assms(2-4) by (auto simp: not_less not_le max.coboundedI1 order.strict_implies_order)
  then have "update env t s = ?u"
    using assms(1) by (auto simp: hearing_end_def quiet_link_def update_def check_link_timeout_def handle_state_def handle_linked_def
        linked_twa_def Let_def)
  moreover have "hearing_end a (s\<lparr>current_time_ms := t\<rparr>)" using assms(1) by (simp add: hearing_end_def quiet_link_def)
  ultimately show ?thesis by (simp add: idle_warning_quiet link_view_def)
qed

lemma hearing_twas:
  assumes "hearing_end a s" "valid w" "word_type w = TWAS" "trim_ale_address (address w) \<noteq> []"
  defines "r \<equiv> trim_ale_address (address w)" and "u \<equiv> process_received_word w s"
  shows "hearing_end (if length r \<le> length (active_call_to s) \<and> take (length r) (active_call_to s) = r then r else []) u \<and>
    link_view u = link_view s \<and> current_time_ms u = current_time_ms s \<and> last_word_time_ms u = current_time_ms s \<and>
    (linked_twas_addr u \<noteq> [] \<longrightarrow> linked_twas_last_ms u = current_time_ms s)"
proof -
  have cl: "classify (before_reaction w s) w = \<lparr>role_type = TWAS_WORD, role_address = r\<rparr>"
    using assms(1,3) by (auto simp: classify_def lbt_active_def r_def hearing_end_def quiet_link_def)
  show ?thesis
    using assms(1,4) unfolding u_def received_valid [OF assms(2)] cl
    by (simp add: hearing_end_def quiet_link_def link_view_def react_def react_linked_def r_def)
qed

lemma hearing_extension:
  assumes "hearing_end a s" "valid w" "word_type w = DATA \<or> word_type w = REP"
    and "a \<noteq> [] \<longrightarrow> current_time_ms s - linked_twas_last_ms s < 784"
  defines "u \<equiv> process_received_word w s"
  shows "hearing_end (if a = [] then [] else a @ trim_ale_address (address w)) u \<and>
    link_view u = link_view s \<and> current_time_ms u = current_time_ms s \<and> last_word_time_ms u = current_time_ms s \<and>
    (linked_twas_addr u \<noteq> [] \<longrightarrow> linked_twas_last_ms u = current_time_ms s)"
proof -
  have cl: "classify (before_reaction w s) w =
      (if a \<noteq> [] then \<lparr>role_type = DATA_EXTENSION, role_address = trim_ale_address (address w)\<rparr> else WordRole)"
    using assms(1,3) by (auto simp: classify_def lbt_active_def collecting_address_def hearing_end_def quiet_link_def)
  have "a \<noteq> [] \<longrightarrow> current_time_ms s - linked_twas_last_ms s \<le> 784" using assms(4) by auto
  then show ?thesis
    using assms(1) unfolding u_def received_valid [OF assms(2)] cl
    by (simp add: hearing_end_def quiet_link_def link_view_def react_def react_linked_def react_linked_amd_confirm_def
        WordRole_def)
qed

text \<open>In the midst of a conclusion: a word has just been heard.\<close>

definition mid_end :: "string \<Rightarrow> ale_sm \<Rightarrow> bool" where
  "mid_end a s \<longleftrightarrow> hearing_end a s \<and> last_word_time_ms s = current_time_ms s \<and>
     (a \<noteq> [] \<longrightarrow> linked_twas_last_ms s = current_time_ms s) \<and> 784 \<le> param_Twa_ms (timing s)"

lemma mid_end_hear:
  assumes "mid_end a s" "t - current_time_ms s < 784" "valid w" "word_type w = DATA \<or> word_type w = REP"
  shows "mid_end (if a = [] then [] else a @ trim_ale_address (address w)) (hear env s (t, w)) \<and>
    link_view (hear env s (t, w)) = link_view s \<and> current_time_ms (hear env s (t, w)) = t"
proof -
  have s: "hearing_end a s" "last_word_time_ms s = current_time_ms s" "a \<noteq> [] \<longrightarrow> linked_twas_last_ms s = current_time_ms s"
    "784 \<le> param_Twa_ms (timing s)" using assms(1) by (simp_all add: mid_end_def)
  have "t - current_time_ms s < 0x80000000" "t - last_word_time_ms s < param_Twa_ms (timing s)"
    using small_gap [OF assms(2)] assms(2) s(2,4) by (simp_all add: not_le)
  then have tick: "hearing_end a (update env t s)" "link_view (update env t s) = link_view s" "current_time_ms (update env t s) = t"
    "linked_twas_last_ms (update env t s) = linked_twas_last_ms s"
    using hearing_tick [OF s(1), of t env] s(3) assms(2) by auto
  have "a \<noteq> [] \<longrightarrow> current_time_ms (update env t s) - linked_twas_last_ms (update env t s) < 784"
    using tick(3,4) s(3) assms(2) by simp
  from hearing_extension [OF tick(1) assms(3,4) this] show ?thesis
    using tick(2,3) s(4) by (auto simp: hear_def mid_end_def link_view_def hearing_end_def)
qed

lemma mid_end_hear_all:
  fixes env :: sm_env
  assumes "mid_end a s" "paced (current_time_ms s) ts" "length ts = length ws" "list_all valid ws"
    and "list_all (\<lambda>w. word_type w = DATA \<or> word_type w = REP) ws"
  defines "u \<equiv> foldl (hear env) s (zip ts ws)"
  shows "mid_end (if a = [] then [] else a @ concat (map (\<lambda>w. trim_ale_address (address w)) ws)) u \<and>
    link_view u = link_view s \<and> current_time_ms u = last (current_time_ms s # ts)"
  using assms(1-5) unfolding u_def
proof (induction ts arbitrary: a s ws)
  case (Cons t ts)
  then obtain w ws' where ws: "ws = w # ws'" by (cases ws) auto
  have "mid_end (if a = [] then [] else a @ trim_ale_address (address w)) (hear env s (t, w))"
    "link_view (hear env s (t, w)) = link_view s" "current_time_ms (hear env s (t, w)) = t"
    using mid_end_hear [OF Cons.prems(1), of t w env] Cons.prems(2,4,5) ws by simp_all
  with Cons.prems Cons.IH [OF this(1), of ws'] show ?case by (cases "a = []") (simp_all add: ws)
qed auto

lemma mid_end_settles:
  assumes "mid_end a s" "784 \<le> t - current_time_ms s" "t - current_time_ms s < 0x80000000" "t - current_time_ms s < param_Twa_ms (timing s)"
    and "active_call_to s \<noteq> []"
  shows "current_state (update env t s) = (if a = active_call_to s then pre_link_state s else LINKED)"
proof -
  have q: "quiet_link (s\<lparr>linked_twas_addr := []\<rparr>)" "linked_twas_addr s = a" "last_word_time_ms s = current_time_ms s"
    "a \<noteq> [] \<longrightarrow> linked_twas_last_ms s = current_time_ms s"
    using assms(1) by (simp_all add: hearing_end_def mid_end_def)
  have n: "\<not> max (param_Twa_ms (timing s)) 120000 < t - current_time_ms s" "\<not> 0x80000000 \<le> t - current_time_ms s"
    "\<not> param_Twa_ms (timing s) \<le> t - current_time_ms s"
    using assms(3,4) by (auto simp: not_less not_le max.coboundedI1 order.strict_implies_order)
  have w: "current_state (linked_twa (linked_idle_warning v)) = LINKED"
    if "current_state v = LINKED" "last_word_time_ms v = current_time_ms s" "current_time_ms v = t" "timing v = timing s" for v
    using that n(3) by (simp add: linked_twa_def)
  show ?thesis
    using q assms(2,5) n
    by (auto simp: quiet_link_def update_def check_link_timeout_def handle_state_def handle_linked_def fire_link_timeout
        process_event_def state_event_def w Let_def)
qed

text \<open>
  C16. A link ends when the peer says so and only then: a quiet link on which a termination is heard -
  the conclusion of any station's address with TWAS, its words at any times less than two words apart - is left, after
  two words of silence, if and only if the whole address is the peer's; an address that merely begins like the peer's
  does not end it. The first word comes before the link has been idle for too long, and the limit on idleness is more
  than the silence.
\<close>

theorem link_ends_by_peer:
  assumes "quiet_link s" "valid_address q" "active_call_to s \<noteq> []" "length (t # ts) = length (conclusion q True)"
    and "t - current_time_ms s < 0x80000000" "t - last_word_time_ms s < param_Twa_ms (timing s)" "paced t ts"
    and "784 \<le> t' - last (t # ts)" "t' - last (t # ts) < 0x80000000" "t' - last (t # ts) < param_Twa_ms (timing s)"
  shows "current_state (update env t' (foldl (hear env) s (zip (t # ts) (conclusion q True)))) =
    (if q = active_call_to s then pre_link_state s else LINKED)"
proof -
  have twas: "TWAS \<noteq> UNKNOWN" by simp
  obtain w ws where w: "encode_address q TWAS = w # ws" "valid w" "word_type w = TWAS"
    "trim_ale_address (address w) = take 3 q" "list_all valid ws"
    "list_all (\<lambda>w. word_type w = DATA \<or> word_type w = REP) ws"
    "concat (map (\<lambda>w. trim_ale_address (address w)) ws) = drop 3 q"
    by (rule address_read [OF assms(2) twas])
  have c: "conclusion q True = w # ws" using w(1) by (simp add: conclusion_def)
  let ?r = "take 3 q" and ?s = "hear env s (t, w)" and ?v = "update env t s"
  let ?match = "length ?r \<le> length (active_call_to s) \<and> take (length ?r) (active_call_to s) = ?r"
  define u where "u = foldl (hear env) ?s (zip ts ws)"
  have ne: "?r \<noteq> []" using assms(2) by (simp add: valid_address_def)
  have "hearing_end [] s" using assms(1) by (simp add: hearing_end_def quiet_link_def)
  then have v: "hearing_end [] ?v" "link_view ?v = link_view s" "current_time_ms ?v = t"
    using hearing_tick [of "[]" s t env] assms(5,6) by simp_all
  then have call: "active_call_to ?v = active_call_to s" by (simp add: link_view_def)
  have twa: "784 \<le> param_Twa_ms (timing s)" using assms(8,10) by simp
  have first: "mid_end (if ?match then ?r else []) ?s" "link_view ?s = link_view s" "current_time_ms ?s = t"
    using hearing_twas [OF v(1) w(2,3)] ne v(2,3) twa unfolding w(4) call
    by (auto simp: hear_def mid_end_def link_view_def hearing_end_def)
  have "mid_end (if ?match then q else []) u \<and> link_view u = link_view s \<and> current_time_ms u = last (t # ts)"
  proof -
    have "paced (current_time_ms ?s) ts" "length ts = length ws" using first(3) assms(4,7) by (simp_all add: c)
    note all = mid_end_hear_all [OF first(1) this w(5,6), of env, folded u_def]
    moreover have "(if (if ?match then ?r else []) = [] then [] else (if ?match then ?r else []) @ drop 3 q) = (if ?match then q else [])"
      using ne by simp
    ultimately show ?thesis using first(2,3) by (simp only: w(7) last.simps)
  qed
  moreover have "(if ?match then q else []) = active_call_to s \<longleftrightarrow> q = active_call_to s"
    using assms(3) by (auto simp: min_def)
  moreover have "foldl (hear env) s (zip (t # ts) (conclusion q True)) = u" by (simp add: c u_def)
  ultimately show ?thesis
    using assms(3,8-10) mid_end_settles [of "if ?match then q else []" u t' env]
    by (cases "q = active_call_to s") (simp_all add: link_view_def)
qed

theorem link_ends_by_peer_witness:
  "current_state (update clear_channel 2400 (foldl (hear clear_channel) idle_station (zip [900] (conclusion ''JOE'' True)))) = IDLE \<and>
   current_state (update clear_channel 2400 (foldl (hear clear_channel) idle_station (zip [900, 1600] (conclusion ''JOEY'' True)))) = LINKED"
proof -
  have v: "valid_address ''JOE''" "valid_address ''JOEY''"
    by (simp_all add: valid_address_def is_valid_basic38_char_iff)
  have l: "length [900] = length (conclusion ''JOE'' True)" "length [900, 1600] = length (conclusion ''JOEY'' True)"
    by (simp_all add: conclusion_def chunk_triples)
  have i: "active_call_to idle_station = ''JOE''" "param_Twa_ms (timing idle_station) = 360000"
    by (simp_all add: idle_station_def)
  show ?thesis
    using link_ends_by_peer [OF quiet_idle_station(1) v(1) _ l(1), of 2400 clear_channel]
      link_ends_by_peer [OF quiet_idle_station(1) v(2) _ l(2), of 2400 clear_channel]
    by (simp add: quiet_idle_station i)
qed

end
