(* ===== verification/Sm_Transmit.thy ===== *)
theory Sm_Transmit
  imports Sm_Link
begin

text \<open>
  When the state machine transmits, and how it follows the transmission of a call word by word.
\<close>

section \<open>Listening before transmitting\<close>

lemma sent_fire [simp]: "filter is_transmit (outs (fire e s)) = filter is_transmit (outs s)"
  using sent_words_fire [of e s] by (simp add: sent_words_def)

lemmas sent_defs = sent_words_def emit_def emit_channels_def Let_def

lemma sent_scanning [simp]: "sent_words (handle_scanning env s) = sent_words s"
  by (simp add: handle_scanning_def sent_defs split: prod.split)

lemma sent_next_channel [simp]: "sent_words (try_next_calling_channel s) = sent_words s"
  by (simp add: try_next_calling_channel_def sent_defs)

lemma sent_calling:
  "sent_words (handle_calling env s) \<noteq> sent_words s \<Longrightarrow>
     phase_calling s = CP_TUNING \<and> param_Tt_ms (timing s) \<le> current_time_ms s - tune_start_ms s \<or>
     phase_calling s = CP_SENDING_ACK \<and> words_pending s = 0"
proof (erule contrapos_np)
  assume a: "\<not> (phase_calling s = CP_TUNING \<and> param_Tt_ms (timing s) \<le> current_time_ms s - tune_start_ms s \<or>
     phase_calling s = CP_SENDING_ACK \<and> words_pending s = 0)"
  have "sent_words (calling_lbt env s) = sent_words s"
    by (simp add: calling_lbt_def) (simp add: sent_defs)
  moreover have "sent_words (calling_listening s) = sent_words s"
    by (simp add: calling_listening_def) (simp add: sent_defs)
  moreover have "phase_calling s = CP_SENDING_ACK \<Longrightarrow> sent_words (calling_sending_ack s) = sent_words s"
    using a by (simp add: calling_sending_ack_def word_neq_0_conv sent_defs)
  moreover have "phase_calling s = CP_TUNING \<Longrightarrow> calling_tuning s = s"
    using a by (simp add: calling_tuning_def)
  ultimately show "sent_words (handle_calling env s) = sent_words s"
    by (simp add: handle_calling_def split: calling_phase.split)
qed

lemma sent_handshake:
  "sent_words (handle_handshake env s) \<noteq> sent_words s \<Longrightarrow>
     phase_handshake s = HP_CHANNEL_CHECK \<and> \<not> lbt_channel_busy env s \<and> 784 \<le> current_time_ms s - hs_lbt_start_ms s"
proof (erule contrapos_np)
  assume a: "\<not> (phase_handshake s = HP_CHANNEL_CHECK \<and> \<not> lbt_channel_busy env s \<and>
    784 \<le> current_time_ms s - hs_lbt_start_ms s)"
  have "sent_words (handshake_wait_cycle_end s) = sent_words s"
    by (simp add: handshake_wait_cycle_end_def sent_defs)
  moreover have "sent_words (handshake_slot_wait s) = sent_words s"
    by (simp add: handshake_slot_wait_def sent_defs)
  moreover have "phase_handshake s = HP_CHANNEL_CHECK \<Longrightarrow> sent_words (handshake_channel_check env s) = sent_words s"
    using a by (auto simp: handshake_channel_check_def)
  moreover have "sent_words (handshake_sending_response s) = sent_words s"
    by (simp add: handshake_sending_response_def sent_defs)
  moreover have "sent_words (handshake_wait_ack s) = sent_words s"
    by (simp add: handshake_wait_ack_def sent_defs)
  ultimately show "sent_words (handle_handshake env s) = sent_words s"
    by (simp add: handle_handshake_def sent_words_def split: handshake_phase.split)
qed

lemma sent_sounding:
  "sent_words (handle_sounding env s) \<noteq> sent_words s \<Longrightarrow>
     phase_sounding s = SP_LBT \<and> \<not> lbt_channel_busy env s \<and> effective_twt_ms s \<le> current_time_ms s - sounding_lbt_start_ms s"
proof (erule contrapos_np)
  assume a: "\<not> (phase_sounding s = SP_LBT \<and> \<not> lbt_channel_busy env s \<and>
    effective_twt_ms s \<le> current_time_ms s - sounding_lbt_start_ms s)"
  have "phase_sounding s = SP_LBT \<Longrightarrow> sent_words (sounding_lbt env s) = sent_words s"
    using a by (auto simp: sounding_lbt_def)
  then show "sent_words (handle_sounding env s) = sent_words s"
    by (simp add: handle_sounding_def) (simp add: sent_defs)
qed

text \<open>When a tick may transmit.\<close>

fun may_transmit :: "sm_env \<Rightarrow> ale_sm \<Rightarrow> ale_state \<Rightarrow> bool" where
  "may_transmit env s CALLING \<longleftrightarrow>
     phase_calling s = CP_TUNING \<and> param_Tt_ms (timing s) \<le> current_time_ms s - tune_start_ms s \<or>
     phase_calling s = CP_SENDING_ACK \<and> words_pending s = 0"
| "may_transmit env s HANDSHAKE \<longleftrightarrow>
     phase_handshake s = HP_CHANNEL_CHECK \<and> \<not> lbt_channel_busy env s \<and> 784 \<le> current_time_ms s - hs_lbt_start_ms s"
| "may_transmit env s SOUNDING \<longleftrightarrow>
     phase_sounding s = SP_LBT \<and> \<not> lbt_channel_busy env s \<and> effective_twt_ms s \<le> current_time_ms s - sounding_lbt_start_ms s"
| "may_transmit env s LINKED \<longleftrightarrow> True"
| "may_transmit env s _ \<longleftrightarrow> False"

lemma sent_update:
  "sent_words (update env t s) \<noteq> sent_words s \<Longrightarrow> may_transmit env (s\<lparr>current_time_ms := t\<rparr>) (current_state s)"
proof -
  let ?s = "s\<lparr>current_time_ms := t\<rparr>"
  assume "sent_words (update env t s) \<noteq> sent_words s"
  then have "sent_words (handle_state env ?s) \<noteq> sent_words ?s"
    by (auto simp: update_def sent_defs split: if_splits)
  then show ?thesis
    using sent_calling [of env ?s] sent_handshake [of env ?s] sent_sounding [of env ?s]
    by (cases "current_state s") (simp_all add: handle_state_def)
qed

lemma sent_reaction [simp]: "sent_words (react r w s) = sent_words s"
proof -
  have d: "sent_words (detect_incoming_call r u) = sent_words u" for u
    by (simp add: detect_incoming_call_def sent_defs)
  have "sent_words (react_scanning r s) = sent_words s"
    using d [of s] by (simp add: react_scanning_def Let_def) (simp add: sent_words_def)
  moreover have "sent_words (react_calling r s) = sent_words s"
    by (cases "role_type r") (simp_all add: react_calling_def sent_defs)
  moreover have "sent_words (react_wait_cycle_end r w s) = sent_words s"
    by (cases "role_type r") (simp_all add: react_wait_cycle_end_def sent_defs)
  moreover have "sent_words (react_wait_ack r s) = sent_words s"
    by (cases "role_type r") (simp_all add: react_wait_ack_def sent_defs)
  moreover have "sent_words (react_linked_amd_confirm r s) = sent_words s"
    by (simp add: react_linked_amd_confirm_def sent_words_def split: linked_amd_phase.split role_type.split)
  then have "sent_words (react_linked r s) = sent_words s"
    by (simp add: react_linked_def) (simp add: sent_words_def)
  ultimately show ?thesis
    by (simp add: react_def react_idle_def react_handshake_def react_sounding_def d split: ale_state.split)
qed

lemma sent_update_lqa [simp]: "sent_words (update_lqa q s) = sent_words s"
  by (simp add: update_lqa_def sent_defs)

lemma sent_assembler [simp]: "sent_words (feed_assembler w s) = sent_words s"
  by (simp add: feed_assembler_def sent_defs split: prod.split option.split)

lemma sent_received: "sent_words (process_received_word w s) = sent_words s"
proof (cases "valid w")
  case False
  then show ?thesis by (simp add: process_received_word_def on_invalid_word_def sent_defs)
next
  case True
  then show ?thesis by (simp add: process_received_word_def Let_def) (simp add: sent_words_def)
qed

lemma sent_word_complete: "sent_words (on_word_complete s) = sent_words s"
proof -
  have "sent_words (sending_ack_complete u) = sent_words u" for u
    by (simp add: sending_ack_complete_def sent_defs)
  then have "sent_words (calling_word_complete s) = sent_words s"
    by (cases "phase_calling s"; simp add: calling_word_complete_def Let_def; simp add: sent_defs)
  moreover have "sent_words (response_word_complete s) = sent_words s"
    by (simp add: response_word_complete_def sent_defs)
  moreover have "sent_words (linked_amd_handoff u) = sent_words u" for u
    by (simp add: linked_amd_handoff_def sent_words_def emit_def split: linked_amd_phase.split)
  ultimately show ?thesis
    by (simp add: on_word_complete_def dec_pending_def Let_def) (simp add: sent_defs)
qed

text \<open>
  C6. The machine does not key the transmitter out of turn. The arrival of a word and the end of one
  never transmit; a tick transmits on a link, at the end of the tuning time and to acknowledge a
  response - and otherwise only after listening: a response needs two words' time of a clear channel,
  a sounding the full listening time, and a channel that is busy at that tick always prevents it.
\<close>

theorem transmits_only_in_turn:
  "sent_words (process_received_word w s) = sent_words s \<and> sent_words (on_word_complete s) = sent_words s \<and>
   (sent_words (update env t s) = sent_words s \<or> may_transmit env (s\<lparr>current_time_ms := t\<rparr>) (current_state s))"
  using sent_update sent_received sent_word_complete by blast

section \<open>Following a call\<close>

text \<open>The number of words after which a phase of the call ends.\<close>

fun phase_words :: "ale_sm \<Rightarrow> calling_phase \<Rightarrow> u32" where
  "phase_words s CP_SCANNING_CALL = target_scan_channels s * 2"
| "phase_words s CP_GROUP_SCANNING_CALL = of_nat (length (group_scan_seq s))"
| "phase_words s CP_LEADING_CALL = tlc_slots s"
| "phase_words s CP_CONCLUSION = of_nat (length (conclusion_seq s))"
| "phase_words s _ = 0"

definition transmitting_phase :: "calling_phase \<Rightarrow> bool" where
  "transmitting_phase p \<longleftrightarrow> p \<in> {CP_SCANNING_CALL, CP_GROUP_SCANNING_CALL, CP_LEADING_CALL, CP_CONCLUSION}"

text \<open>A call being transmitted, after \<open>k\<close> words of its phase.\<close>

definition advanced :: "nat \<Rightarrow> ale_sm \<Rightarrow> ale_sm" where
  "advanced k s = s\<lparr>words_pending := words_pending s - of_nat k, call_cycle_count := call_cycle_count s + of_nat k,
     call_cycles_in_phase := call_cycles_in_phase s + of_nat k\<rparr>"

definition next_phase :: "ale_sm \<Rightarrow> ale_sm" where
  "next_phase s =
     (if phase_calling s = CP_CONCLUSION
      then emit (Rx_Enabled True)
             (s\<lparr>phase_calling := CP_LISTENING, listening_start_ms := current_time_ms s, call_cycles_in_phase := 0\<rparr>)
      else if phase_calling s = CP_LEADING_CALL then s\<lparr>phase_calling := CP_CONCLUSION, call_cycles_in_phase := 0\<rparr>
      else s\<lparr>phase_calling := CP_LEADING_CALL, call_cycles_in_phase := 0\<rparr>)"

definition on_air :: "ale_sm \<Rightarrow> bool" where
  "on_air s \<longleftrightarrow> current_state s = CALLING \<and> \<not> allcall_broadcasting s \<and> transmitting_phase (phase_calling s)"

lemma on_air_complete:
  assumes "on_air s" "words_pending s \<noteq> 0"
  shows "on_word_complete s =
    (if phase_words s (phase_calling s) \<le> call_cycles_in_phase s + 1 then next_phase (advanced 1 s) else advanced 1 s)"
proof -
  have c: "on_word_complete s = calling_word_complete s"
    using assms(1) by (simp add: on_air_def on_word_complete_def)
  show ?thesis
    using assms unfolding c on_air_def transmitting_phase_def
    by (elim conjE insertE emptyE)
      (simp_all add: calling_word_complete_def advanced_def next_phase_def tlc_slots_def Let_def)
qed

lemma advanced_simps [simp]:
  "advanced 0 s = s" "advanced k (advanced l s) = advanced (l + k) s" "on_air (advanced k s) = on_air s"
  "phase_calling (advanced k s) = phase_calling s" "phase_words (advanced k s) p = phase_words s p"
  "words_pending (advanced k s) = words_pending s - of_nat k"
  "call_cycles_in_phase (advanced k s) = call_cycles_in_phase s + of_nat k" "outs (advanced k s) = outs s"
  by (simp_all add: advanced_def on_air_def) (cases p; simp add: advanced_def tlc_slots_def)

lemma u32_of_nat: "k < 2 ^ 32 \<Longrightarrow> unat (of_nat k :: u32) = k"
  by (simp add: unsigned_of_nat take_bit_nat_eq_self)

lemma on_air_words:
  assumes "on_air s" "call_cycles_in_phase s = 0" "phase_words s (phase_calling s) = of_nat n"
    and "0 < n" "n < 2 ^ 32" "n \<le> unat (words_pending s)"
  shows "k < n \<Longrightarrow> (on_word_complete ^^ k) s = advanced k s"
    and "(on_word_complete ^^ n) s = next_phase (advanced n s)"
proof -
  have step: "on_word_complete (advanced k s) = (if n \<le> Suc k then next_phase (advanced (Suc k) s) else advanced (Suc k) s)"
    if "k < n" for k
  proof -
    have "unat (of_nat k :: u32) = k" "unat (of_nat (Suc k) :: u32) = Suc k" "unat (of_nat n :: u32) = n"
      using that assms(5) by (intro u32_of_nat; simp)+
    then have "words_pending s - of_nat k \<noteq> 0" "of_nat n \<le> (of_nat k + 1 :: u32) \<longleftrightarrow> n \<le> Suc k"
      using that assms(6) by (auto simp: word_le_nat_alt add.commute)
    then show ?thesis
      using assms(1,2,3) by (simp add: on_air_complete)
  qed
  show k: "(on_word_complete ^^ k) s = advanced k s" if "k < n" for k
    using that by (induction k) (simp_all add: step)
  obtain m where m: "n = Suc m" using assms(4) by (cases n) auto
  show "(on_word_complete ^^ n) s = next_phase (advanced n s)"
    using k [of m] step [of m] by (simp add: m)
qed

text \<open>The words of a call frame.\<close>

definition frame_words :: "ale_sm \<Rightarrow> ale_word list" where
  "frame_words s = scanning_seq s @ leading_seq s @ active_amd_from_seq s @ active_lqa_cmd_seq s @
     active_lqa_report_seq s @ active_amd_words s @ conclusion_seq s"

definition message_length :: "ale_sm \<Rightarrow> nat" where
  "message_length s = length (leading_seq s @ active_amd_from_seq s @ active_lqa_cmd_seq s @ active_lqa_report_seq s @
     active_amd_words s)"

text \<open>A call about to be transmitted: the sections are as the calls build them.\<close>

definition ready_to_call :: "ale_sm \<Rightarrow> bool" where
  "ready_to_call s \<longleftrightarrow> current_state s = CALLING \<and> phase_calling s = CP_TUNING \<and> words_pending s = 0 \<and>
     \<not> allcall_broadcasting s \<and> 0 < target_scan_channels s \<and>
     (if active_call_is_group s then group_scan_seq s = scanning_seq s
      else of_nat (length (scanning_seq s)) = target_scan_channels s * 2) \<and>
     scanning_seq s \<noteq> [] \<and> leading_seq s \<noteq> [] \<and> conclusion_seq s \<noteq> [] \<and> length (frame_words s) < 2 ^ 32"

definition begin_call :: "ale_sm \<Rightarrow> ale_sm" where
  "begin_call s = s\<lparr>first_call_tx_ms := current_time_ms s, call_cycles_in_phase := 0,
     phase_calling := if active_call_is_group s then CP_GROUP_SCANNING_CALL else CP_SCANNING_CALL,
     outs := outs s @ map (stamped (current_time_ms s)) (frame_words s),
     words_pending := of_nat (length (frame_words s))\<rparr>"

lemma tuning_done:
  assumes "ready_to_call s" "param_Tt_ms (timing s) \<le> current_time_ms s - tune_start_ms s"
  shows "handle_calling env s = begin_call s"
  using assms
  by (simp add: ready_to_call_def handle_calling_def calling_tuning_def enqueue_call_sequence_def transmit_words_eq
      begin_call_def frame_words_def Let_def add.assoc)

lemma next_phase_simps [simp]:
  "phase_words (next_phase s) p = phase_words s p" "words_pending (next_phase s) = words_pending s"
  "call_cycles_in_phase (next_phase s) = 0" "current_state (next_phase s) = current_state s"
  "allcall_broadcasting (next_phase s) = allcall_broadcasting s"
  "phase_calling (next_phase s) =
     (if phase_calling s = CP_CONCLUSION then CP_LISTENING
      else if phase_calling s = CP_LEADING_CALL then CP_CONCLUSION else CP_LEADING_CALL)"
  "outs (next_phase s) = outs s @ (if phase_calling s = CP_CONCLUSION then [Rx_Enabled True] else [])"
  by (simp_all add: next_phase_def emit_def) (cases p; simp add: next_phase_def emit_def tlc_slots_def)

text \<open>One phase of the call on the air, from its first word.\<close>

lemma on_air_phase:
  assumes "on_air s" "call_cycles_in_phase s = 0" "phase_words s (phase_calling s) = of_nat n"
    and "0 < n" "n < 2 ^ 32" "n \<le> unat (words_pending s)"
  defines "u \<equiv> (on_word_complete ^^ n) s"
  shows "\<forall>k<n. transmitting_phase (phase_calling ((on_word_complete ^^ k) s)) \<and> outs ((on_word_complete ^^ k) s) = outs s"
    and "phase_calling u = phase_calling (next_phase s)" "call_cycles_in_phase u = 0"
    and "words_pending u = words_pending s - of_nat n" "phase_words u p = phase_words s p"
    and "outs u = outs (next_phase s)"
    and "phase_calling s \<noteq> CP_CONCLUSION \<Longrightarrow> on_air u"
proof -
  note w = on_air_words [OF assms(1-6)]
  show "\<forall>k<n. transmitting_phase (phase_calling ((on_word_complete ^^ k) s)) \<and> outs ((on_word_complete ^^ k) s) = outs s"
    using assms(1) by (simp add: w(1) on_air_def)
  show "phase_calling u = phase_calling (next_phase s)" "call_cycles_in_phase u = 0"
    "words_pending u = words_pending s - of_nat n" "phase_words u p = phase_words s p" "outs u = outs (next_phase s)"
    by (simp_all add: u_def w(2))
  show "phase_calling s \<noteq> CP_CONCLUSION \<Longrightarrow> on_air u"
    using assms(1) by (simp add: u_def w(2) on_air_def transmitting_phase_def) (simp add: advanced_def)
qed

lemma unat_after: "n \<le> m \<Longrightarrow> m < 2 ^ 32 \<Longrightarrow> unat (of_nat m - of_nat n :: u32) = m - n"
  by (metis le_trans diff_le_self of_nat_diff u32_of_nat order.strict_trans1)

text \<open>
  C17. A call is followed exactly: when the tuning time is over the whole frame - scanning call, leading
  call, message sections and conclusion - goes to the transmitter at once, and the receiver stays muted
  through the completion of each of its words but the last, with which the machine begins to listen and
  no word is left pending. So no word of a frame of any length is lost count of, nor does listening
  start while the frame is still on the air.
\<close>

theorem call_followed_to_the_last_word:
  fixes s :: ale_sm and env :: sm_env
  assumes "ready_to_call s" "param_Tt_ms (timing s) \<le> current_time_ms s - tune_start_ms s"
  defines "u \<equiv> handle_calling env s" and "n \<equiv> length (frame_words s)"
  shows "outs u = outs s @ map (stamped (current_time_ms s)) (frame_words s) \<and>
    (\<forall>k<n. transmitting_phase (phase_calling ((on_word_complete ^^ k) u)) \<and> outs ((on_word_complete ^^ k) u) = outs u) \<and>
    phase_calling ((on_word_complete ^^ n) u) = CP_LISTENING \<and> words_pending ((on_word_complete ^^ n) u) = 0 \<and>
    outs ((on_word_complete ^^ n) u) = outs u @ [Rx_Enabled True]"
proof -
  have u: "u = begin_call s" unfolding u_def by (rule tuning_done [OF assms(1,2)])
  define a b c where "a = length (scanning_seq s)" and "b = message_length s" and "c = length (conclusion_seq s)"
  have n: "n = a + b + c" by (simp add: n_def a_def b_def c_def frame_words_def message_length_def)
  have pos: "0 < a" "0 < b" "0 < c" and n32: "n < 2 ^ 32"
    using assms(1) by (auto simp: ready_to_call_def a_def b_def c_def n_def message_length_def)
  have small: "a < 2 ^ 32" "b < 2 ^ 32" "c < 2 ^ 32" "a + b < 2 ^ 32" using n32 n by simp_all
  have pending: "words_pending u = of_nat n" by (simp add: u begin_call_def n_def)
  have words: "phase_words u (phase_calling u) = of_nat a" "phase_words u CP_LEADING_CALL = of_nat b"
    "phase_words u CP_CONCLUSION = of_nat c"
    using assms(1) by (simp_all add: u begin_call_def ready_to_call_def a_def b_def c_def tlc_slots_def message_length_def)
  have air: "on_air u" "call_cycles_in_phase u = 0" "phase_calling u \<noteq> CP_CONCLUSION" "phase_calling u \<noteq> CP_LEADING_CALL"
    using assms(1) by (simp_all add: u begin_call_def on_air_def transmitting_phase_def ready_to_call_def)
  have "unat (words_pending u) = n" unfolding pending by (rule u32_of_nat [OF n32])
  then have le: "a \<le> unat (words_pending u)" using n by linarith
  note p1 = on_air_phase [OF air(1,2) words(1) pos(1) small(1) le]
  define v where "v = (on_word_complete ^^ a) u"
  have v: "on_air v" "call_cycles_in_phase v = 0" "phase_calling v = CP_LEADING_CALL"
    "phase_words v (phase_calling v) = of_nat b" "words_pending v = of_nat n - of_nat a" "outs v = outs u"
    using p1(2-7) air(3,4) words pending by (simp_all add: v_def del: phase_words.simps)
  have "unat (words_pending v) = n - a" unfolding v(5) by (rule unat_after [OF _ n32]) (simp add: n)
  then have le: "b \<le> unat (words_pending v)" using n by linarith
  note p2 = on_air_phase [OF v(1,2,4) pos(2) small(2) le]
  define w where "w = (on_word_complete ^^ b) v"
  have w: "on_air w" "call_cycles_in_phase w = 0" "phase_calling w = CP_CONCLUSION"
    "phase_words w (phase_calling w) = of_nat c" "words_pending w = of_nat n - of_nat (a + b)" "outs w = outs u"
    using p2(2-7) p1(5) words v by (simp_all add: w_def v_def diff_diff_eq del: phase_words.simps)
  have "unat (words_pending w) = n - (a + b)" unfolding w(5) by (rule unat_after [OF _ n32]) (simp add: n)
  then have le: "c \<le> unat (words_pending w)" using n by linarith
  note p3 = on_air_phase [OF w(1,2,4) pos(3) small(3) le]
  have split: "(on_word_complete ^^ (a + k)) u = (on_word_complete ^^ k) v"
    "(on_word_complete ^^ (a + b + k)) u = (on_word_complete ^^ k) w" for k
    by (simp_all add: v_def w_def funpow_add add.commute [of a] add.commute [of _ k])
  have "transmitting_phase (phase_calling ((on_word_complete ^^ k) u)) \<and> outs ((on_word_complete ^^ k) u) = outs u"
    if kn: "k < n" for k
  proof -
    consider "k < a" | "a \<le> k" "k < a + b" | "a + b \<le> k" "k < a + b + c" using kn n by linarith
    then show ?thesis
    proof cases
      case 1
      then show ?thesis using p1(1) by blast
    next
      case 2
      then show ?thesis using p2(1) split(1) [of "k - a"] v(6) by simp
    next
      case 3
      then show ?thesis using p3(1) split(2) [of "k - (a + b)"] w(6) by simp
    qed
  qed
  moreover have "(on_word_complete ^^ n) u = (on_word_complete ^^ c) w" using split(2) [of c] by (simp add: n)
  moreover have "outs u = outs s @ map (stamped (current_time_ms s)) (frame_words s)" by (simp add: u begin_call_def)
  ultimately show ?thesis
    using p3(2,4,6) w(3,5,6) by (simp add: n)
qed

definition calling_station :: ale_sm where
  "calling_station = (snd (initiate_call ''JOE'' (ALEStateMachine\<lparr>book := AddressBook\<lparr>self_address := ''SAM''\<rparr>\<rparr>)))
     \<lparr>phase_calling := CP_TUNING\<rparr>"

lemma ready_calling_station:
  "ready_to_call calling_station" "tune_start_ms calling_station = 0" "current_time_ms calling_station = 0"
  "timing calling_station = TimingParameters"
  by (simp_all add: calling_station_def initiate_call_def snapshot_pending_def has_amd_def available_def self_addr_def
      process_event_def state_event_def transition_to_def exit_state_def enter_defs ALEStateMachine_def PendingMessage_def
      ready_to_call_def frame_words_def scanning_call_def leading_call_def conclusion_def sent_twice_def chunk_triples
      Let_def) (simp add: encode_address_chunks)

theorem call_followed_to_the_last_word_witness:
  "let s = calling_station\<lparr>current_time_ms := 2000\<rparr>; n = length (frame_words s)
   in phase_calling ((on_word_complete ^^ n) (handle_calling clear_channel s)) = CP_LISTENING"
proof -
  have "ready_to_call (calling_station\<lparr>current_time_ms := 2000\<rparr>)"
    using ready_calling_station(1) by (simp add: ready_to_call_def frame_words_def)
  then show ?thesis
    using call_followed_to_the_last_word [of "calling_station\<lparr>current_time_ms := 2000\<rparr>" clear_channel]
    by (simp add: ready_calling_station TimingParameters_def Let_def)
qed

end
