(* ===== verification/Crc.thy ===== *)
theory Crc
  imports Prelude
begin

text \<open>
  Cyclic redundancy checks as the sources compute them - a register shifted bit by bit, a byte entering
  at its top - and as the textbook defines them: the remainder of the message, with \<open>n\<close> zeros after it,
  by the generator polynomial, found by long division of bit lists. Shared by the FS-1052 frames
  (32 bits), the AQC checks (8 and 16 bits) and the data text message (16 bits).
\<close>

unbundle bit_operations_syntax

section \<open>The register\<close>

definition crc_step :: "'a::len word \<Rightarrow> 'a word \<Rightarrow> 'a word" where
  "crc_step poly r = (if bit r (LENGTH('a) - 1) then push_bit 1 r XOR poly else push_bit 1 r)"

definition top_bit :: "bool \<Rightarrow> 'a::len word" where
  "top_bit b = (if b then push_bit (LENGTH('a) - 1) 1 else 0)"

text \<open>One message bit enters at the top.\<close>

definition serial_step :: "'a::len word \<Rightarrow> bool \<Rightarrow> 'a word \<Rightarrow> 'a word" where
  "serial_step poly b r = crc_step poly (r XOR top_bit b)"

lemma bit_top_bit: "bit (top_bit b :: 'a::len word) n \<longleftrightarrow> b \<and> n = LENGTH('a) - 1"
  by (auto simp: top_bit_def bit_exp_iff push_bit_of_1 possible_bit_def)

lemma crc_step_xor: "crc_step poly (a XOR b) = crc_step poly a XOR crc_step poly b"
  by (intro bit_word_eqI) (auto simp: crc_step_def bit_simps)

text \<open>Eight steps after the byte has entered are eight serial steps.\<close>

lemma crc_steps_serial:
  fixes v r :: "'a::len word"
  assumes "k \<le> LENGTH('a)" "\<And>i. bit v i \<Longrightarrow> LENGTH('a) - k \<le> i"
  shows "(crc_step poly ^^ k) (r XOR v) = fold (serial_step poly) (map (bit v) (rev [LENGTH('a) - k..<LENGTH('a)])) r"
  using assms
proof (induction k arbitrary: v r)
  case 0
  then have "v = 0" by (intro bit_word_eqI) force
  then show ?case by simp
next
  case (Suc k)
  let ?n = "LENGTH('a)"
  let ?b = "bit v (?n - 1)"
  let ?low = "v AND NOT (top_bit True)"
  have split: "r XOR v = (r XOR top_bit ?b) XOR ?low"
    by (intro bit_word_eqI) (auto simp: bit_xor_iff bit_and_iff bit_not_iff bit_top_bit)
  have low: "crc_step poly ?low = push_bit 1 ?low"
    by (simp add: crc_step_def bit_and_iff bit_not_iff bit_top_bit)
  define p where "p = push_bit 1 ?low"
  have push: "bit p i \<longleftrightarrow> i < ?n \<and> 1 \<le> i \<and> bit v (i - 1)" for i
    unfolding p_def
    by (simp only: bit_push_bit_iff bit_and_iff bit_not_iff bit_top_bit) (auto dest: bit_imp_le_length)
  have "(crc_step poly ^^ Suc k) (r XOR v) = (crc_step poly ^^ k) (serial_step poly ?b r XOR p)"
    by (simp only: funpow_Suc_right o_apply split crc_step_xor low p_def serial_step_def)
  also have "\<dots> = fold (serial_step poly) (map (bit p) (rev [?n - k..<?n])) (serial_step poly ?b r)"
      proof (intro Suc.IH)
    fix i assume "bit p i"
    then have "1 \<le> i" "bit v (i - 1)" by (simp_all add: push)
    then show "?n - k \<le> i" using Suc.prems(2) [of "i - 1"] by linarith
  qed (use Suc.prems(1) in simp)
  also have "map (bit p) (rev [?n - k..<?n]) = map (bit v) (rev [?n - Suc k..<?n - 1])"
  proof (rule nth_equalityI)
    show "length (map (bit p) (rev [?n - k..<?n])) = length (map (bit v) (rev [?n - Suc k..<?n - 1]))"
      using Suc.prems(1) by simp
    fix i assume "i < length (map (bit p) (rev [?n - k..<?n]))"
    then have i: "i < k" using Suc.prems(1) by simp
    then have "rev [?n - k..<?n] ! i = ?n - 1 - i" "rev [?n - Suc k..<?n - 1] ! i = ?n - 2 - i"
      using Suc.prems(1) by (simp_all add: rev_nth)
    then show "map (bit p) (rev [?n - k..<?n]) ! i = map (bit v) (rev [?n - Suc k..<?n - 1]) ! i"
      using i Suc.prems(1) by (simp add: push numeral_2_eq_2) linarith
  qed
  finally have "(crc_step poly ^^ Suc k) (r XOR v) =
      fold (serial_step poly) (map (bit v) (rev [?n - Suc k..<?n - 1])) (serial_step poly ?b r)" .
  moreover have "[?n - Suc k..<?n] = [?n - Suc k..<?n - 1] @ [?n - 1]"
    using Suc.prems(1) by (cases ?n) simp_all
  ultimately show ?case by simp
qed

definition byte_bits :: "byte \<Rightarrow> bool list" where
  "byte_bits b = map (bit b) (rev [0..<8])"

lemma crc_byte_serial:
  fixes r :: "'a::len word"
  assumes "8 \<le> LENGTH('a)"
  shows "(crc_step poly ^^ 8) (r XOR push_bit (LENGTH('a) - 8) (ucast (b :: byte))) =
    fold (serial_step poly) (byte_bits b) r"
proof -
  let ?v = "push_bit (LENGTH('a) - 8) (ucast b) :: 'a word"
  have bit: "bit ?v i \<longleftrightarrow> i < LENGTH('a) \<and> LENGTH('a) - 8 \<le> i \<and> bit b (i - (LENGTH('a) - 8))" for i
    by (auto simp: bit_push_bit_iff bit_ucast_iff dest: bit_imp_le_length)
  have "map (bit ?v) (rev [LENGTH('a) - 8..<LENGTH('a)]) = byte_bits b"
    unfolding byte_bits_def
    by (rule nth_equalityI) (use assms in \<open>auto simp: rev_nth bit\<close>)
  then show ?thesis using crc_steps_serial [of 8 ?v poly r] assms bit by simp
qed

section \<open>Long division\<close>

text \<open>Exclusive or of a list into the front of another.\<close>

fun xor_front :: "bool list \<Rightarrow> bool list \<Rightarrow> bool list" where
  "xor_front xs [] = xs"
| "xor_front [] ys = []"
| "xor_front (x # xs) (y # ys) = (x \<noteq> y) # xor_front xs ys"

lemma length_xor_front [simp]: "length (xor_front xs ys) = length xs"
  by (induction xs ys rule: xor_front.induct) simp_all

text \<open>
  The remainder of a dividend, highest coefficient first, by the polynomial with leading coefficient 1
  and the other coefficients \<open>g\<close>.
\<close>

fun remainder :: "bool list \<Rightarrow> bool list \<Rightarrow> bool list" where
  "remainder g [] = []"
| "remainder g (x # xs) =
     (if length xs < length g then x # xs
      else remainder g (if x then xor_front xs g else xs))"

lemma xor_front_nth: "i < length xs \<Longrightarrow> xor_front xs ys ! i = (xs ! i \<noteq> (i < length ys \<and> ys ! i))"
  by (induction xs ys arbitrary: i rule: xor_front.induct) (auto simp: nth_Cons split: nat.splits)

lemma msb_bits_bit: "msb_bits n w = map (\<lambda>i. bit w (n - 1 - i)) [0..<n]"
  by (rule nth_equalityI) (simp_all add: msb_bits_def drop_bit_and_1 rev_nth)

lemma serial_step_bits:
  "msb_bits LENGTH('a) (serial_step poly b r) =
    (let rest = tl (msb_bits LENGTH('a) r) @ [False]
     in if b \<noteq> bit r (LENGTH('a) - 1) then xor_front rest (msb_bits LENGTH('a) poly) else rest)"
  for r :: "'a::len word"
proof (rule nth_equalityI)
  show "length (msb_bits LENGTH('a) (serial_step poly b r)) = length (let rest = tl (msb_bits LENGTH('a) r) @ [False]
     in if b \<noteq> bit r (LENGTH('a) - 1) then xor_front rest (msb_bits LENGTH('a) poly) else rest)"
    by (simp add: Let_def)
  fix i assume "i < length (msb_bits LENGTH('a) (serial_step poly b r))"
  then have i: "i < LENGTH('a)" by simp
  let ?x = "r XOR top_bit b"
  have "bit (serial_step poly b r) j \<longleftrightarrow> (j < LENGTH('a) \<and> 1 \<le> j \<and> bit ?x (j - 1)) \<noteq> (bit ?x (LENGTH('a) - 1) \<and> bit poly j)" for j
    by (cases "bit ?x (LENGTH('a) - 1)")
      (simp_all only: serial_step_def crc_step_def if_True if_False bit_xor_iff [of "push_bit 1 ?x"] bit_push_bit_iff,
       auto dest: bit_imp_le_length)
  note ser = this
  have top: "bit ?x (LENGTH('a) - 1) \<longleftrightarrow> b \<noteq> bit r (LENGTH('a) - 1)"
    unfolding bit_xor_iff bit_top_bit by blast
  have "bit (serial_step poly b r) (LENGTH('a) - 1 - i) \<longleftrightarrow>
      (Suc i < LENGTH('a) \<and> bit r (LENGTH('a) - 1 - Suc i)) \<noteq> ((b \<noteq> bit r (LENGTH('a) - 1)) \<and> bit poly (LENGTH('a) - 1 - i))"
  proof (cases "Suc i < LENGTH('a)")
    case True
    then have e: "LENGTH('a) - 1 - i < LENGTH('a)" "1 \<le> LENGTH('a) - 1 - i"
      "LENGTH('a) - 1 - i - 1 = LENGTH('a) - 1 - Suc i" by linarith+
    have "bit ?x (LENGTH('a) - 1 - Suc i) \<longleftrightarrow> bit r (LENGTH('a) - 1 - Suc i)"
      unfolding bit_xor_iff bit_top_bit using True by auto
    then show ?thesis by (simp only: ser top e True simp_thms)
  next
    case False
    then have "\<not> 1 \<le> LENGTH('a) - 1 - i" using i by linarith
    then show ?thesis by (simp only: ser top False simp_thms)
  qed
  moreover have "(tl (msb_bits LENGTH('a) r) @ [False]) ! i \<longleftrightarrow> Suc i < LENGTH('a) \<and> bit r (LENGTH('a) - 1 - Suc i)"
    using i by (auto simp: msb_bits_bit nth_append nth_tl)
  ultimately show "msb_bits LENGTH('a) (serial_step poly b r) ! i = (let rest = tl (msb_bits LENGTH('a) r) @ [False]
     in if b \<noteq> bit r (LENGTH('a) - 1) then xor_front rest (msb_bits LENGTH('a) poly) else rest) ! i"
    using i by (simp add: Let_def xor_front_nth msb_bits_bit)
qed

lemma serial_remainder:
  fixes r :: "'a::len word"
  shows "remainder (msb_bits LENGTH('a) poly) (xor_front (bs @ replicate LENGTH('a) False) (msb_bits LENGTH('a) r)) =
    msb_bits LENGTH('a) (fold (serial_step poly) bs r)"
proof (induction bs arbitrary: r)
  case Nil
  have "xor_front (replicate LENGTH('a) False) (msb_bits LENGTH('a) r) = msb_bits LENGTH('a) r"
    by (rule nth_equalityI) (simp_all add: xor_front_nth)
  moreover have "remainder g xs = xs" if "length xs \<le> length g" for g xs
    using that by (cases xs) auto
  ultimately show ?case by simp
next
  case (Cons b bs)
  let ?n = "LENGTH('a)"
  let ?d = "bs @ replicate ?n False"
  have hd: "msb_bits ?n r = bit r (?n - 1) # tl (msb_bits ?n r)"
    by (cases "msb_bits ?n r") (use msb_bits_bit [of ?n r] in \<open>auto simp: upt_conv_Cons\<close>)
  have "remainder (msb_bits ?n poly) (xor_front (b # ?d) (msb_bits ?n r)) =
      remainder (msb_bits ?n poly) (let xs = xor_front ?d (tl (msb_bits ?n r))
        in if b \<noteq> bit r (?n - 1) then xor_front xs (msb_bits ?n poly) else xs)"
    by (subst hd) simp
  also have "(let xs = xor_front ?d (tl (msb_bits ?n r))
        in if b \<noteq> bit r (?n - 1) then xor_front xs (msb_bits ?n poly) else xs) =
      xor_front ?d (msb_bits ?n (serial_step poly b r))"
    unfolding serial_step_bits Let_def
    by (rule nth_equalityI) (auto simp: xor_front_nth nth_append nth_tl)
  finally show ?case by (simp add: Cons.IH)
qed

text \<open>The register after a whole message is the remainder, the initial value added into its front.\<close>

lemma crc_is_remainder:
  fixes init :: "'a::len word"
  assumes "8 \<le> LENGTH('a)"
    and "\<And>b r. update b r = (crc_step poly ^^ 8) (r XOR push_bit (LENGTH('a) - 8) (ucast (b :: byte)))"
  shows "msb_bits LENGTH('a) (fold update data init) =
    remainder (msb_bits LENGTH('a) poly)
      (xor_front (concat (map byte_bits data) @ replicate LENGTH('a) False) (msb_bits LENGTH('a) init))"
proof -
  have "fold update data init = fold (serial_step poly) (concat (map byte_bits data)) init" for init
    by (induction data arbitrary: init) (simp_all add: assms(2) crc_byte_serial [OF assms(1)])
  then show ?thesis by (simp add: serial_remainder)
qed

end
