(* ===== verification/Fs1052_Frame.thy ===== *)
theory Fs1052_Frame
  imports Crc
begin

text \<open>
  \<open>include/FS1052/fs1052_protocol.h\<close> and \<open>src/FS1052/frame_format.cpp\<close>: the frames of the FED-STD-1052
  data link protocol, their checksum, formatter and parser. A buffer is the list of its bytes; an
  enumeration with an underlying \<open>uint8_t\<close> may hold a value it does not name, the constructor
  \<open>Unnamed_\<dots>\<close>. A parser gives one of three outcomes: the frame is refused, it is parsed, or the code
  reads beyond the end of the buffer.
\<close>

section \<open>Constants and enumerations\<close>

definition PROTOCOL_VERSION :: u8 where "PROTOCOL_VERSION = 0"
definition MAX_DATA_BLOCK_LENGTH :: u16 where "MAX_DATA_BLOCK_LENGTH = 1023"
definition ACK_MAP_SIZE :: nat where "ACK_MAP_SIZE = 32"

datatype arq_mode = VARIABLE_ARQ | BROADCAST | CIRCUIT | FIXED_ARQ
datatype link_state = LS_CALLING | CALL_ACK | LINK_UP | DROPPING | Unnamed_Link u8
datatype frame_type = NO_FRAME | T1_CONTROL | T2_CONTROL | T3_CONTROL | T4_CONTROL | DATA_FRAME
datatype address_mode = SHORT_2_BYTE | LONG_18_BYTE
datatype ack_nak_type = NULL_ACK | DATA_ACK | DATA_ACK_REQ | HERALD_ACK
datatype data_rate = BPS_75 | BPS_150 | BPS_300 | BPS_600 | BPS_1200 | BPS_2400 | BPS_4800 | SAME
datatype data_rate_format = ABSOLUTE | RELATIVE
datatype interleaver_length = SHORT | LONG | Unnamed_Interleaver u8
datatype negotiation_mode = CHANGES_ONLY | EVERY_TIME

fun arq_code :: "arq_mode \<Rightarrow> u8" where
  "arq_code VARIABLE_ARQ = 0" | "arq_code BROADCAST = 1" | "arq_code CIRCUIT = 2" | "arq_code FIXED_ARQ = 3"

definition arq_of :: "u8 \<Rightarrow> arq_mode" where
  "arq_of c = (if c = 0 then VARIABLE_ARQ else if c = 1 then BROADCAST else if c = 2 then CIRCUIT else FIXED_ARQ)"

fun link_code :: "link_state \<Rightarrow> u8" where
  "link_code LS_CALLING = 0" | "link_code CALL_ACK = 1" | "link_code LINK_UP = 2" | "link_code DROPPING = 3"
| "link_code (Unnamed_Link c) = c"

definition link_of :: "u8 \<Rightarrow> link_state" where
  "link_of c = (if c = 0 then LS_CALLING else if c = 1 then CALL_ACK else if c = 2 then LINK_UP
     else if c = 3 then DROPPING else Unnamed_Link c)"

fun address_code :: "address_mode \<Rightarrow> u8" where
  "address_code SHORT_2_BYTE = 0" | "address_code LONG_18_BYTE = 1"

definition address_of :: "u8 \<Rightarrow> address_mode" where
  "address_of c = (if c = 0 then SHORT_2_BYTE else LONG_18_BYTE)"

fun ack_code :: "ack_nak_type \<Rightarrow> u8" where
  "ack_code NULL_ACK = 0" | "ack_code DATA_ACK = 1" | "ack_code DATA_ACK_REQ = 2" | "ack_code HERALD_ACK = 3"

definition ack_of :: "u8 \<Rightarrow> ack_nak_type" where
  "ack_of c = (if c = 0 then NULL_ACK else if c = 1 then DATA_ACK else if c = 2 then DATA_ACK_REQ else HERALD_ACK)"

fun rate_code :: "data_rate \<Rightarrow> u8" where
  "rate_code BPS_75 = 0" | "rate_code BPS_150 = 1" | "rate_code BPS_300 = 2" | "rate_code BPS_600 = 3"
| "rate_code BPS_1200 = 4" | "rate_code BPS_2400 = 5" | "rate_code BPS_4800 = 6" | "rate_code SAME = 7"

fun format_code :: "data_rate_format \<Rightarrow> u8" where
  "format_code ABSOLUTE = 0" | "format_code RELATIVE = 1"

definition format_of :: "u8 \<Rightarrow> data_rate_format" where
  "format_of c = (if c = 0 then ABSOLUTE else RELATIVE)"

fun interleaver_code :: "interleaver_length \<Rightarrow> u8" where
  "interleaver_code SHORT = 0" | "interleaver_code LONG = 1" | "interleaver_code (Unnamed_Interleaver c) = c"

definition interleaver_of :: "u8 \<Rightarrow> interleaver_length" where
  "interleaver_of c = (if c = 0 then SHORT else if c = 1 then LONG else Unnamed_Interleaver c)"

fun neg_code :: "negotiation_mode \<Rightarrow> u8" where
  "neg_code CHANGES_ONLY = 0" | "neg_code EVERY_TIME = 1"

definition neg_of :: "u8 \<Rightarrow> negotiation_mode" where
  "neg_of c = (if c = 0 then CHANGES_ONLY else EVERY_TIME)"

section \<open>Frames\<close>

record control_frame =
  protocol_version :: u8
  cf_arq_mode :: arq_mode
  neg_mode :: negotiation_mode
  cf_address_mode :: address_mode
  cf_frame_type :: frame_type
  src_address_length :: u8
  src_address :: "byte list"
  des_address_length :: u8
  des_address :: "byte list"
  cf_link_state :: link_state
  link_timeout :: u16
  cf_ack_nak_type :: ack_nak_type
  bit_map :: "byte list"
  flow_control :: bool
  herald_present :: bool
  cf_data_rate_format :: data_rate_format
  cf_data_rate :: u8
  cf_interleaver_length :: interleaver_length
  bytes_in_data_frames :: u16
  frames_in_next_series :: u8
  message_present :: bool
  tx_msg_size :: u32
  tx_msg_id :: u16
  tx_con_id :: u16
  tx_msg_priority :: u8
  tx_msg_next_byte_pos :: u32
  rx_msg_next_byte_pos :: u32
  extension_function_present :: bool
  function_bits_0 :: u32
  function_bits_1 :: u32
  cf_crc32 :: u32

definition ControlFrame :: control_frame where
  "ControlFrame = \<lparr>protocol_version = PROTOCOL_VERSION, cf_arq_mode = VARIABLE_ARQ, neg_mode = CHANGES_ONLY,
     cf_address_mode = SHORT_2_BYTE, cf_frame_type = NO_FRAME,
     src_address_length = 0, src_address = replicate 18 0, des_address_length = 0, des_address = replicate 18 0,
     cf_link_state = LS_CALLING, link_timeout = 0, cf_ack_nak_type = NULL_ACK, bit_map = replicate 32 0,
     flow_control = False, herald_present = False, cf_data_rate_format = ABSOLUTE,
     cf_data_rate = rate_code BPS_2400, cf_interleaver_length = LONG, bytes_in_data_frames = 0,
     frames_in_next_series = 0, message_present = False, tx_msg_size = 0, tx_msg_id = 0, tx_con_id = 0,
     tx_msg_priority = 0, tx_msg_next_byte_pos = 0, rx_msg_next_byte_pos = 0,
     extension_function_present = False, function_bits_0 = 0, function_bits_1 = 0, cf_crc32 = 0\<rparr>"

record data_frame =
  df_data_rate_format :: data_rate_format
  df_data_rate :: u8
  df_interleaver_length :: interleaver_length
  sequence_number :: u8
  msg_byte_offset :: u32
  data_length :: u16
  frame_data :: "byte list"
  df_crc32 :: u32

definition DataFrame :: data_frame where
  "DataFrame = \<lparr>df_data_rate_format = ABSOLUTE, df_data_rate = rate_code BPS_2400, df_interleaver_length = LONG,
     sequence_number = 0, msg_byte_offset = 0, data_length = 0, frame_data = replicate 1023 0, df_crc32 = 0\<rparr>"

section \<open>Checksum\<close>

definition CRC32_POLYNOMIAL :: u32 where
  "CRC32_POLYNOMIAL = 0x04C11DB7"

definition crc32_shift :: "u32 \<Rightarrow> u32" where
  "crc32_shift crc =
     (if crc AND 0x80000000 \<noteq> 0 then push_bit 1 crc XOR CRC32_POLYNOMIAL else push_bit 1 crc)"

definition crc32_byte :: "byte \<Rightarrow> u32 \<Rightarrow> u32" where
  "crc32_byte b crc = (crc32_shift ^^ 8) (crc XOR push_bit 24 (ucast b))"

definition calculate_crc32 :: "byte list \<Rightarrow> u32" where
  "calculate_crc32 bs = NOT (fold crc32_byte bs 0xFFFFFFFF)"

text \<open>Big-endian fields.\<close>

definition be32 :: "u32 \<Rightarrow> byte list" where
  "be32 x = [ucast (drop_bit 24 x), ucast (drop_bit 16 x), ucast (drop_bit 8 x), ucast x]"

definition be16 :: "u16 \<Rightarrow> byte list" where
  "be16 x = [ucast (drop_bit 8 x), ucast x]"

definition append_crc32 :: "byte list \<Rightarrow> byte list" where
  "append_crc32 buffer = buffer @ be32 (calculate_crc32 buffer)"

section \<open>Formatting\<close>

definition short_address :: "u8 \<Rightarrow> byte list \<Rightarrow> byte list" where
  "short_address len addr =
     [if len \<ge> 1 then addr ! (unat len - 1) else 0, if len \<ge> 2 then addr ! (unat len - 2) else 0]"

definition address_fields :: "control_frame \<Rightarrow> byte list" where
  "address_fields f =
     (if cf_address_mode f = SHORT_2_BYTE
      then short_address (src_address_length f) (src_address f) @ short_address (des_address_length f) (des_address f)
      else take 18 (src_address f) @ take 18 (des_address f))"

definition control_header :: "control_frame \<Rightarrow> byte" where
  "control_header f = 0x01 OR 0x02 OR push_bit 2 (protocol_version f AND 0x03) OR
     push_bit 4 (arq_code (cf_arq_mode f) AND 0x03) OR push_bit 6 (neg_code (neg_mode f) AND 0x01) OR
     push_bit 7 (address_code (cf_address_mode f) AND 0x01)"

definition bitmap_fields :: "control_frame \<Rightarrow> byte list" where
  "bitmap_fields f =
     (if (cf_frame_type f = T2_CONTROL \<or> cf_frame_type f = T3_CONTROL \<or> cf_frame_type f = T4_CONTROL) \<and>
         cf_ack_nak_type f = DATA_ACK \<and> cf_address_mode f = SHORT_2_BYTE
      then let m = take ACK_MAP_SIZE (bit_map f)
           in if flow_control f then m[ACK_MAP_SIZE - 1 := m ! (ACK_MAP_SIZE - 1) OR 0x80] else m
      else [])"

definition herald_fields :: "control_frame \<Rightarrow> byte list" where
  "herald_fields f =
     (if herald_present f
      then [push_bit 7 (format_code (cf_data_rate_format f)) OR (cf_data_rate f AND 0x07),
            interleaver_code (cf_interleaver_length f)] @ be16 (bytes_in_data_frames f) @ [frames_in_next_series f]
      else [])"

definition message_fields :: "control_frame \<Rightarrow> byte list" where
  "message_fields f =
     (if message_present f
      then be32 (tx_msg_size f) @ be16 (tx_msg_id f) @ be16 (tx_con_id f) @ [tx_msg_priority f] @
           be32 (tx_msg_next_byte_pos f) @ be32 (rx_msg_next_byte_pos f)
      else [])"

definition extension_fields :: "control_frame \<Rightarrow> byte list" where
  "extension_fields f =
     (if extension_function_present f then be32 (function_bits_0 f) @ be32 (function_bits_1 f) else [])"

definition control_body :: "control_frame \<Rightarrow> byte list" where
  "control_body f = [control_header f] @ address_fields f @
     [link_code (cf_link_state f)] @ be16 (link_timeout f) @ [ack_code (cf_ack_nak_type f) AND 0x03] @
     bitmap_fields f @ herald_fields f @ message_fields f @ extension_fields f"

definition format_control_frame :: "control_frame \<Rightarrow> nat \<Rightarrow> byte list option" where
  "format_control_frame f buffer_size =
     (if buffer_size < 256 then None else Some (append_crc32 (control_body f)))"

definition data_body :: "data_frame \<Rightarrow> byte list" where
  "data_body f = [0x01 OR push_bit 7 (format_code (df_data_rate_format f)) OR push_bit 4 (df_data_rate f AND 0x07),
     interleaver_code (df_interleaver_length f), sequence_number f] @ be32 (msg_byte_offset f) @
     be16 (data_length f) @ take (unat (data_length f)) (frame_data f)"

definition format_data_frame :: "data_frame \<Rightarrow> nat \<Rightarrow> byte list option" where
  "format_data_frame f buffer_size =
     (if buffer_size < unat (data_length f) + 20 then None else Some (append_crc32 (data_body f)))"

section \<open>Parsing\<close>

datatype 'a outcome = Refused | Overrun | Parsed 'a

definition detect_frame_type :: "byte list \<Rightarrow> frame_type" where
  "detect_frame_type buffer = (if buffer ! 0 AND 0x02 \<noteq> 0 then T1_CONTROL else DATA_FRAME)"

definition from_be32 :: "byte list \<Rightarrow> nat \<Rightarrow> u32" where
  "from_be32 b i = push_bit 24 (ucast (b ! i)) OR push_bit 16 (ucast (b ! (i + 1))) OR
     push_bit 8 (ucast (b ! (i + 2))) OR ucast (b ! (i + 3))"

definition from_be16 :: "byte list \<Rightarrow> nat \<Rightarrow> u16" where
  "from_be16 b i = push_bit 8 (ucast (b ! i)) OR ucast (b ! (i + 1))"

definition validate_crc32 :: "byte list \<Rightarrow> bool" where
  "validate_crc32 buffer =
     (if length buffer < 4 then False
      else calculate_crc32 (take (length buffer - 4) buffer) = from_be32 buffer (length buffer - 4))"

definition parse_link_fields :: "byte list \<Rightarrow> nat \<Rightarrow> control_frame \<Rightarrow> control_frame outcome" where
  "parse_link_fields b i f =
     (if i + 3 > length b - 4 then Refused
      else
        let f = f\<lparr>cf_link_state := link_of (b ! i), link_timeout := from_be16 b (i + 1)\<rparr>;
            i = i + 3
        in if i \<ge> length b - 4 then Refused
           else
             let f = f\<lparr>cf_ack_nak_type := ack_of (b ! i AND 0x03)\<rparr>;
                 i = i + 1;
                 f = (if i + ACK_MAP_SIZE \<le> length b - 4 \<and> cf_address_mode f = SHORT_2_BYTE
                      then f\<lparr>bit_map := take ACK_MAP_SIZE (drop i b),
                             flow_control := (b ! (i + ACK_MAP_SIZE - 1) AND 0x80 \<noteq> 0)\<rparr>
                      else f)
             in Parsed (f\<lparr>herald_present := False, message_present := False, extension_function_present := False\<rparr>))"

definition parse_control_frame :: "byte list \<Rightarrow> control_frame \<Rightarrow> control_frame outcome" where
  "parse_control_frame b f =
     (if length b < 10 then Refused
      else if \<not> validate_crc32 b then Refused
      else
        let f = f\<lparr>protocol_version := drop_bit 2 (b ! 0) AND 0x03, cf_arq_mode := arq_of (drop_bit 4 (b ! 0) AND 0x03),
                  neg_mode := neg_of (drop_bit 6 (b ! 0) AND 0x01),
                  cf_address_mode := address_of (drop_bit 7 (b ! 0) AND 0x01)\<rparr>
        in if cf_address_mode f = SHORT_2_BYTE
           then parse_link_fields b 5
                  (f\<lparr>src_address_length := 2, src_address := (src_address f)[1 := b ! 1, 0 := b ! 2],
                     des_address_length := 2, des_address := (des_address f)[1 := b ! 3, 0 := b ! 4]\<rparr>)
           else if length b < 37 then Overrun
           else parse_link_fields b 37
                  (f\<lparr>src_address_length := 18, src_address := take 18 (drop 1 b),
                     des_address_length := 18, des_address := take 18 (drop 19 b)\<rparr>))"

definition parse_data_frame :: "byte list \<Rightarrow> data_frame \<Rightarrow> data_frame outcome" where
  "parse_data_frame b f =
     (if length b < 13 then Refused
      else if \<not> validate_crc32 b then Refused
      else
        let f = f\<lparr>df_data_rate_format := format_of (drop_bit 7 (b ! 0) AND 0x01),
                  df_data_rate := drop_bit 4 (b ! 0) AND 0x07, df_interleaver_length := interleaver_of (b ! 1),
                  sequence_number := b ! 2, msg_byte_offset := from_be32 b 3, data_length := from_be16 b 7\<rparr>
        in if data_length f > MAX_DATA_BLOCK_LENGTH \<or> 9 + unat (data_length f) + 4 \<noteq> length b then Refused
           else Parsed (f\<lparr>frame_data := take (unat (data_length f)) (drop 9 b) @
                  drop (unat (data_length f)) (frame_data f)\<rparr>))"

section \<open>Names and rates\<close>

fun arq_mode_name :: "arq_mode \<Rightarrow> string" where
  "arq_mode_name VARIABLE_ARQ = ''Variable ARQ''" | "arq_mode_name BROADCAST = ''Broadcast''"
| "arq_mode_name CIRCUIT = ''Circuit''" | "arq_mode_name FIXED_ARQ = ''Fixed ARQ''"

fun data_rate_name :: "data_rate \<Rightarrow> string" where
  "data_rate_name BPS_75 = ''75 bps''" | "data_rate_name BPS_150 = ''150 bps''"
| "data_rate_name BPS_300 = ''300 bps''" | "data_rate_name BPS_600 = ''600 bps''"
| "data_rate_name BPS_1200 = ''1200 bps''" | "data_rate_name BPS_2400 = ''2400 bps''"
| "data_rate_name BPS_4800 = ''4800 bps''" | "data_rate_name SAME = ''Same''"

fun data_rate_to_bps :: "data_rate \<Rightarrow> u16" where
  "data_rate_to_bps BPS_75 = 75" | "data_rate_to_bps BPS_150 = 150" | "data_rate_to_bps BPS_300 = 300"
| "data_rate_to_bps BPS_600 = 600" | "data_rate_to_bps BPS_1200 = 1200" | "data_rate_to_bps BPS_2400 = 2400"
| "data_rate_to_bps BPS_4800 = 4800" | "data_rate_to_bps SAME = 0"

definition bps_to_data_rate :: "u16 \<Rightarrow> data_rate" where
  "bps_to_data_rate bps =
     (if bps \<le> 75 then BPS_75 else if bps \<le> 150 then BPS_150 else if bps \<le> 300 then BPS_300
      else if bps \<le> 600 then BPS_600 else if bps \<le> 1200 then BPS_1200 else if bps \<le> 2400 then BPS_2400
      else BPS_4800)"

section \<open>The checksum is linear\<close>

lemma top_bit: "x AND 0x80000000 \<noteq> 0 \<longleftrightarrow> bit x 31" for x :: u32
proof -
  have m: "(0x80000000 :: u32) = 2 ^ 31" by simp
  show ?thesis unfolding m and_exp_eq_0_iff_not_bit by simp
qed

lemma crc32_shift_bit: "crc32_shift x = (if bit x 31 then push_bit 1 x XOR CRC32_POLYNOMIAL else push_bit 1 x)"
  by (simp only: crc32_shift_def top_bit)

lemma crc32_shift_linear: "crc32_shift (a XOR b) = crc32_shift a XOR crc32_shift b"
  by (simp add: crc32_shift_bit push_bit_xor bit_xor_iff xor.assoc xor.left_commute xor.commute)

lemma shifts_linear: "(crc32_shift ^^ n) (a XOR b) = (crc32_shift ^^ n) a XOR (crc32_shift ^^ n) b"
  by (induction n) (simp_all add: crc32_shift_linear)

lemma crc32_shift_0 [simp]: "crc32_shift 0 = 0"
  by (simp add: crc32_shift_bit)

lemma shifts_0 [simp]: "(crc32_shift ^^ n) 0 = 0"
  by (induction n) simp_all

lemma polynomial_odd: "bit CRC32_POLYNOMIAL 0"
  by (simp add: CRC32_POLYNOMIAL_def bit_0)

lemma crc32_shift_eq_0: "crc32_shift x = 0 \<longleftrightarrow> x = 0"
proof
  assume z: "crc32_shift x = 0"
  have b: "\<not> bit x 31"
  proof
    assume t: "bit x 31"
    then have "push_bit 1 x XOR CRC32_POLYNOMIAL = 0" using z by (simp only: crc32_shift_bit if_True)
    then have "bit (push_bit 1 x XOR CRC32_POLYNOMIAL) 0 = bit (0 :: u32) 0" by (rule arg_cong)
    then show False using polynomial_odd unfolding bit_xor_iff bit_push_bit_iff by simp
  qed
  then have p: "push_bit 1 x = 0" using z by (simp only: crc32_shift_bit if_False)
  have "\<not> bit x n" if "n < 32" for n
  proof (cases "n = 31")
    case True
    then show ?thesis using b by simp
  next
    case False
    then have "bit (push_bit 1 x) (Suc n) = bit x n" using that unfolding bit_push_bit_iff by simp
    then show ?thesis unfolding p by simp
  qed
  then show "x = 0" by (auto intro!: bit_word_eqI)
qed simp

lemma shifts_eq_0: "(crc32_shift ^^ n) x = 0 \<longleftrightarrow> x = 0"
  by (induction n) (simp_all add: crc32_shift_eq_0)

lemma shifts_inject: "(crc32_shift ^^ n) a = (crc32_shift ^^ n) b \<longleftrightarrow> a = b"
proof
  assume "(crc32_shift ^^ n) a = (crc32_shift ^^ n) b"
  then have "(crc32_shift ^^ n) (a XOR b) = 0" by (simp add: shifts_linear)
  then have "a XOR b = 0" by (simp only: shifts_eq_0)
  then show "a = b" by (metis xor.left_neutral xor.assoc xor_self_eq)
qed simp

text \<open>Shifting in from below while the top is clear.\<close>

lemma shifts_low: "(\<And>i. 32 - n \<le> i \<Longrightarrow> \<not> bit w i) \<Longrightarrow> n \<le> 32 \<Longrightarrow> (crc32_shift ^^ n) w = push_bit n w"
proof (induction n)
  case (Suc n)
  have "(crc32_shift ^^ n) w = push_bit n w" using Suc by simp
  moreover have "\<not> bit (push_bit n w) 31"
    using Suc.prems(1) [of "31 - n"] Suc.prems(2) by (auto simp: bit_push_bit_iff)
  ultimately show ?case
    unfolding funpow.simps comp_apply by (simp only: crc32_shift_bit if_False push_bit_push_bit) simp
qed simp

lemma byte_low: "(crc32_shift ^^ 8) (push_bit k (ucast (b :: byte))) = push_bit (k + 8) (ucast b)" if "k + 16 \<le> 32" for k
proof -
  have "\<not> bit (push_bit k (ucast b :: u32)) i" if "24 \<le> i" for i
    using that \<open>k + 16 \<le> 32\<close> by (auto simp: bit_simps dest: bit_imp_le_length)
  then show ?thesis using shifts_low [of 8 "push_bit k (ucast b)"] by (simp add: push_bit_push_bit add.commute)
qed

lemma crc32_byte_alt: "crc32_byte b crc = (crc32_shift ^^ 8) (crc XOR push_bit 24 (ucast b))"
  by (rule crc32_byte_def)

text \<open>Four bytes at once.\<close>

definition quad :: "byte \<Rightarrow> byte \<Rightarrow> byte \<Rightarrow> byte \<Rightarrow> u32" where
  "quad a b c d = push_bit 24 (ucast a) XOR push_bit 16 (ucast b) XOR push_bit 8 (ucast c) XOR ucast d"

lemma crc32_quad: "fold crc32_byte [a, b, c, d] s = (crc32_shift ^^ 32) (s XOR quad a b c d)"
proof -
  let ?f = "crc32_shift ^^ 8"
  have low: "push_bit 24 (ucast x :: u32) = ?f (push_bit 16 (ucast x))" "push_bit 16 (ucast x :: u32) = ?f (push_bit 8 (ucast x))"
    "push_bit 8 (ucast x :: u32) = ?f (ucast x)" for x :: byte
    using byte_low [of 16 x] byte_low [of 8 x] byte_low [of 0 x] by simp_all
  have comp: "(crc32_shift ^^ 32) x = ?f (?f (?f (?f x)))" for x
    by (simp flip: funpow_add [THEN fun_cong, unfolded comp_def])
  have "fold crc32_byte [a, b, c, d] s =
      ?f (?f (?f (?f (s XOR push_bit 24 (ucast a)) XOR ?f (push_bit 16 (ucast b))) XOR ?f (?f (push_bit 8 (ucast c)))) XOR
        ?f (?f (?f (ucast d))))"
    by (simp only: fold.simps comp_apply id_apply crc32_byte_def low)
  then show ?thesis
    by (simp only: comp quad_def shifts_linear [symmetric] xor.assoc)
qed

lemma word_xor_eq_0: "a XOR b = 0 \<longleftrightarrow> a = b" for a b :: "'a::len word"
  by (metis xor.assoc xor.left_neutral xor.right_neutral xor_self_eq)

lemma xor_ones: "a XOR b = 0xFFFFFFFF \<longleftrightarrow> NOT a = b" for a b :: u32
proof -
  have ones: "(0xFFFFFFFF :: u32) = - 1" by simp
  have "NOT a = a XOR - 1" by (rule bit_word_eqI) (simp add: bit_simps)
  moreover have "a XOR (a XOR c) = c" for c
    by (simp only: xor.assoc [symmetric] xor_self_eq xor.left_neutral)
  ultimately show ?thesis unfolding ones by metis
qed

lemma crc32_byte_linear: "crc32_byte (a XOR b) (s XOR t) = crc32_byte a s XOR crc32_byte b t"
proof -
  have "push_bit 24 (ucast (a XOR b) :: u32) = push_bit 24 (ucast a) XOR push_bit 24 (ucast b)"
    by (simp add: unsigned_xor_eq push_bit_xor)
  then show ?thesis
    by (simp add: crc32_byte_def shifts_linear [symmetric] xor.assoc xor.left_commute)
qed

lemma crc32_fold_linear:
  "length xs = length ys \<Longrightarrow>
   fold crc32_byte (map2 (XOR) xs ys) (s XOR t) = fold crc32_byte xs s XOR fold crc32_byte ys t"
  by (induction xs ys arbitrary: s t rule: list_induct2) (simp_all add: crc32_byte_linear)

lemma crc32_zeros: "(crc32_byte 0 ^^ n) s = 0 \<longleftrightarrow> s = 0"
  by (induction n arbitrary: s) (simp_all add: crc32_byte_def shifts_eq_0)

section \<open>Big-endian fields\<close>

lemma bit_quad:
  "bit (quad a b c d) n = (if n < 8 then bit d n else if n < 16 then bit c (n - 8)
     else if n < 24 then bit b (n - 16) else n < 32 \<and> bit a (n - 24))"
  unfolding quad_def by (auto simp: bit_simps dest: bit_imp_le_length)

lemma from_be32_quad: "from_be32 b i = quad (b ! i) (b ! (i + 1)) (b ! (i + 2)) (b ! (i + 3))"
  unfolding from_be32_def quad_def
  by (rule bit_word_eqI) (auto simp: bit_simps dest: bit_imp_le_length)

lemma quad_be32: "quad (ucast (drop_bit 24 x)) (ucast (drop_bit 16 x)) (ucast (drop_bit 8 x)) (ucast x) = (x :: u32)"
proof (rule bit_word_eqI)
  fix n assume "n < LENGTH(32)"
  then show "bit (quad (ucast (drop_bit 24 x)) (ucast (drop_bit 16 x)) (ucast (drop_bit 8 x)) (ucast x)) n = bit x n"
    unfolding bit_quad by (auto simp: bit_simps)
qed

lemma quad_eq_0: "quad a b c d = 0 \<longleftrightarrow> a = 0 \<and> b = 0 \<and> c = 0 \<and> d = 0"
proof
  assume z: "quad a b c d = 0"
  have "\<not> bit a n" "\<not> bit b n" "\<not> bit c n" "\<not> bit d n" if "n < 8" for n
    using bit_quad [of a b c d "n + 24"] bit_quad [of a b c d "n + 16"] bit_quad [of a b c d "n + 8"]
      bit_quad [of a b c d n] that z by auto
  then show "a = 0 \<and> b = 0 \<and> c = 0 \<and> d = 0" by (auto intro!: bit_word_eqI)
qed (simp add: quad_def)

lemma length_be [simp]: "length (be32 x) = 4" "length (be16 y) = 2"
  by (simp_all add: be32_def be16_def)

lemma from_be32_append [simp]: "from_be32 (xs @ be32 x @ ys) (length xs) = x"
  by (simp add: from_be32_quad) (simp add: be32_def nth_append quad_be32)

lemma from_be16_append [simp]: "from_be16 (xs @ be16 y @ ys) (length xs) = y"
  unfolding from_be16_def be16_def
  by (rule bit_word_eqI) (auto simp: bit_simps nth_append dest: bit_imp_le_length)

section \<open>Validation\<close>

text \<open>What the checksum register holds after a frame with its own checksum.\<close>

definition residue :: u32 where
  "residue = (crc32_shift ^^ 32) 0xFFFFFFFF"

lemma validate_residue:
  assumes "4 \<le> length b"
  shows "validate_crc32 b \<longleftrightarrow> fold crc32_byte b 0xFFFFFFFF = residue"
proof -
  let ?n = "length b - 4" and ?s = "fold crc32_byte (take (length b - 4) b) 0xFFFFFFFF"
  let ?q = "quad (b ! ?n) (b ! (?n + 1)) (b ! (?n + 2)) (b ! (?n + 3))"
  obtain n where n: "length b = n + 4" using assms by (metis le_Suc_ex add.commute)
  have "drop ?n b = [b ! ?n, b ! (?n + 1), b ! (?n + 2), b ! (?n + 3)]"
    unfolding n by (rule nth_equalityI) (auto simp: n less_Suc_eq numeral_eq_Suc)
  then have "fold crc32_byte b 0xFFFFFFFF = (crc32_shift ^^ 32) (?s XOR ?q)"
    using crc32_quad [of "b ! ?n" "b ! (?n + 1)" "b ! (?n + 2)" "b ! (?n + 3)" ?s]
    by (metis append_take_drop_id fold_append comp_apply)
  then have "fold crc32_byte b 0xFFFFFFFF = residue \<longleftrightarrow> ?s XOR ?q = 0xFFFFFFFF"
    by (simp add: residue_def shifts_inject)
  also have "\<dots> \<longleftrightarrow> NOT ?s = ?q" by (rule xor_ones)
  finally show ?thesis
    using assms by (simp add: validate_crc32_def calculate_crc32_def from_be32_quad)
qed

lemma validate_append [simp]: "validate_crc32 (append_crc32 b)"
  using from_be32_append [of b "calculate_crc32 b" "[]"]
  by (simp add: validate_crc32_def append_crc32_def)

text \<open>
  The checksum detects bursts: a frame with a valid checksum that is changed in any way within four
  consecutive bytes - payload, checksum or across their border - is refused.
\<close>

theorem crc32_detects_burst:
  assumes "validate_crc32 b" "length b' = length b" "i + 4 \<le> length b" "b' \<noteq> b"
    and "\<forall>j. j < i \<or> i + 4 \<le> j \<longrightarrow> b' ! j = b ! j"
  shows "\<not> validate_crc32 b'"
proof
  assume v: "validate_crc32 b'"
  let ?x = "\<lambda>k. b ! (i + k) XOR b' ! (i + k)"
  have l: "4 \<le> length b" using assms(3) by simp
  have e: "map2 (XOR) b b' = replicate i 0 @ [?x 0, ?x 1, ?x 2, ?x 3] @ replicate (length b - i - 4) 0"
  proof (rule nth_equalityI)
    show "length (map2 (XOR) b b') = length (replicate i (0 :: byte) @ [?x 0, ?x 1, ?x 2, ?x 3] @ replicate (length b - i - 4) 0)"
      using assms(2,3) by simp
    fix j assume "j < length (map2 (XOR) b b')"
    then have j: "j < length b" using assms(2) by simp
    consider "j < i" | "j = i" | "j = i + 1" | "j = i + 2" | "j = i + 3" | "i + 4 \<le> j" by linarith
    then show "map2 (XOR) b b' ! j = (replicate i 0 @ [?x 0, ?x 1, ?x 2, ?x 3] @ replicate (length b - i - 4) 0) ! j"
      by cases (use j assms(2,5) in \<open>simp_all add: nth_append\<close>)
  qed
  have "fold crc32_byte (map2 (XOR) b b') (0xFFFFFFFF XOR 0xFFFFFFFF) = residue XOR residue"
    using assms(1,2) v l by (subst crc32_fold_linear) (simp_all add: validate_residue)
  then have "fold crc32_byte (map2 (XOR) b b') 0 = 0" by simp
  moreover have "(crc32_byte 0 ^^ i) 0 = 0" by (simp add: crc32_zeros)
  ultimately have "fold crc32_byte [?x 0, ?x 1, ?x 2, ?x 3] 0 = 0"
    unfolding e by (simp add: crc32_zeros)
  then have "quad (?x 0) (?x 1) (?x 2) (?x 3) = 0"
    unfolding crc32_quad by (simp add: shifts_eq_0)
  then have z: "b ! (i + k) = b' ! (i + k)" if "k < 4" for k
    using that unfolding quad_eq_0 by (auto simp: less_Suc_eq numeral_eq_Suc word_xor_eq_0)
  have "b' = b"
  proof (rule nth_equalityI)
    show "length b' = length b" by (rule assms(2))
    fix j
    show "b' ! j = b ! j"
    proof (cases "j < i \<or> i + 4 \<le> j")
      case True
      then show ?thesis using assms(5) by blast
    next
      case False
      then have "j = i + (j - i)" "j - i < 4" by auto
      then show ?thesis using z [of "j - i"] by simp
    qed
  qed
  with assms(4) show False by simp
qed

theorem crc32_detects_burst_witness:
  "\<not> validate_crc32 ((append_crc32 [1, 2, 3, 4, 5]) [0 := 7, 2 := 9])"
proof (rule crc32_detects_burst [of "append_crc32 [1, 2, 3, 4, 5]" _ 0])
  show "(append_crc32 [1, 2, 3, 4, 5]) [0 := 7, 2 := 9] \<noteq> append_crc32 [1, 2, 3, 4, 5]"
    by (simp add: append_crc32_def)
  show "validate_crc32 (append_crc32 [1, 2, 3, 4, 5])" by (rule validate_append)
qed (simp_all add: append_crc32_def)

section \<open>Data frames\<close>

lemma mask_1: "(1 :: byte) = mask 1" "(7 :: byte) = mask 3" "(3 :: byte) = mask 2"
  by (simp_all add: mask_eq_decr_exp)

lemma data_header:
  "drop_bit 7 (1 OR push_bit 7 c OR push_bit 4 (r AND 7)) AND 1 = c AND (1 :: byte)"
  "drop_bit 4 (1 OR push_bit 7 c OR push_bit 4 (r AND 7)) AND 7 = r AND (7 :: byte)"
  unfolding mask_1
  by (rule bit_word_eqI, auto simp: bit_simps)+

lemma format_of_code [simp]: "format_of (format_code x AND 1) = x"
  by (cases x) (simp_all add: format_of_def)

text \<open>
  Data frames survive formatting and parsing: the parser accepts what the formatter writes and finds
  every field of the frame and its data in it, whatever the frame it is given to fill in; the bytes of
  the data array beyond the length it leaves as they are.
\<close>

theorem data_frame_roundtrip:
  assumes "data_length f \<le> 1023" "length (frame_data f) = 1023" "df_data_rate f < 8"
    and "interleaver_of (interleaver_code (df_interleaver_length f)) = df_interleaver_length f"
    and "unat (data_length f) + 20 \<le> n"
  shows "\<exists>b. format_data_frame f n = Some b \<and>
    parse_data_frame b f0 = Parsed (f\<lparr>frame_data := take (unat (data_length f)) (frame_data f) @
      drop (unat (data_length f)) (frame_data f0), df_crc32 := df_crc32 f0\<rparr>)"
proof -
  define d where "d = take (unat (data_length f)) (frame_data f)"
  define h where "h = 0x01 OR push_bit 7 (format_code (df_data_rate_format f)) OR push_bit 4 (df_data_rate f AND 0x07)"
  define c where "c = be32 (calculate_crc32 (data_body f))"
  let ?p = "[h, interleaver_code (df_interleaver_length f), sequence_number f]"
  let ?b = "?p @ be32 (msg_byte_offset f) @ be16 (data_length f) @ d @ c"
  have body: "data_body f = ?p @ be32 (msg_byte_offset f) @ be16 (data_length f) @ d"
    by (simp add: data_body_def h_def d_def)
  then have b: "append_crc32 (data_body f) = ?b" by (simp add: append_crc32_def c_def)
  have len: "length d = unat (data_length f)" "length c = 4"
    using assms(1,2) by (simp_all add: d_def c_def word_le_nat_alt)
  have valid: "validate_crc32 ?b" unfolding b [symmetric] by simp
  have h: "drop_bit 7 h AND 1 = format_code (df_data_rate_format f) AND 1" "drop_bit 4 h AND 7 = df_data_rate f AND 7"
    unfolding h_def by (rule data_header)+
  have "df_data_rate f AND mask 3 = df_data_rate f" using assms(3) by (intro less_mask_eq) simp
  then have rate: "df_data_rate f AND 7 = df_data_rate f" by (simp only: mask_1)
  have off: "from_be32 ?b 3 = msg_byte_offset f"
    using from_be32_append [of ?p "msg_byte_offset f" "be16 (data_length f) @ d @ c"] by (simp add: eval_nat_numeral)
  have dl: "from_be16 ?b 7 = data_length f"
    using from_be16_append [of "?p @ be32 (msg_byte_offset f)" "data_length f" "d @ c"] by (simp add: eval_nat_numeral)
  have first: "?b ! 0 = h" "?b ! 1 = interleaver_code (df_interleaver_length f)" "?b ! 2 = sequence_number f" by simp_all
  have data: "take (unat (data_length f)) (drop 9 ?b) = d"
    using len(1) by (simp add: drop_append)
  have lb: "length ?b = 13 + unat (data_length f)" using len by simp
  have "parse_data_frame ?b f0 = Parsed (f\<lparr>frame_data := d @ drop (unat (data_length f)) (frame_data f0), df_crc32 := df_crc32 f0\<rparr>)"
    unfolding parse_data_frame_def first off dl
    using valid lb data assms(1,4) h rate
    by (simp add: MAX_DATA_BLOCK_LENGTH_def Let_def del: append_Cons)
  then show ?thesis
    using assms(5) unfolding format_data_frame_def b d_def by auto
qed

definition sample_data_frame :: data_frame where
  "sample_data_frame = DataFrame\<lparr>df_interleaver_length := SHORT, sequence_number := 7, msg_byte_offset := 7161,
     data_length := 3, frame_data := [1, 2, 3] @ replicate 1020 0\<rparr>"

theorem data_frame_roundtrip_witness:
  "\<exists>b g. format_data_frame sample_data_frame 1200 = Some b \<and> parse_data_frame b DataFrame = Parsed g \<and>
     take 3 (frame_data g) = [1, 2, 3] \<and> sequence_number g = 7"
  using data_frame_roundtrip [of sample_data_frame 1200 DataFrame]
  by (auto simp: sample_data_frame_def DataFrame_def interleaver_of_def)

section \<open>Control frames\<close>

lemma data_ack_bytes:
  "control_body (ControlFrame\<lparr>cf_ack_nak_type := DATA_ACK, bit_map := m\<rparr>) = [3, 0, 0, 0, 0, 0, 0, 0, 1]"
  by (simp add: control_body_def control_header_def address_fields_def short_address_def bitmap_fields_def
      herald_fields_def message_fields_def extension_fields_def ControlFrame_def PROTOCOL_VERSION_def be16_def)

lemma data_ack_parsed:
  "\<exists>g. parse_control_frame (append_crc32 [3, 0, 0, 0, 0, 0, 0, 0, 1]) f = Parsed g \<and>
     cf_ack_nak_type g = DATA_ACK \<and> bit_map g = bit_map f"
proof -
  let ?b = "append_crc32 [3, 0, 0, 0, 0, 0, 0, 0, 1]"
  have b: "length ?b = 13" "?b ! 0 = 3" "?b ! 8 = 1" by (simp_all add: append_crc32_def)
  have a: "address_of 0 = SHORT_2_BYTE" "ack_of 1 = DATA_ACK"
    by (simp_all add: address_of_def ack_of_def)
  show ?thesis
    by (simp add: parse_control_frame_def parse_link_fields_def b a ACK_MAP_SIZE_def Let_def)
qed

text \<open>
  A short buffer makes the parser read beyond its end: every frame of 10 to 36 bytes with a valid
  checksum whose first byte announces 18-byte addresses passes the length and checksum tests, and the
  address fields are then copied from behind the buffer.
\<close>

theorem control_frame_overrun:
  assumes "10 \<le> length b" "length b < 37" "validate_crc32 b" "drop_bit 7 (b ! 0) AND 1 \<noteq> 0"
  shows "parse_control_frame b f = Overrun"
  using assms by (simp add: parse_control_frame_def address_of_def Let_def)

theorem control_frame_overrun_witness:
  "parse_control_frame (append_crc32 [0x83, 0, 0, 0, 0, 0]) ControlFrame = Overrun"
proof (rule control_frame_overrun)
  show "drop_bit 7 (append_crc32 [0x83, 0, 0, 0, 0, 0] ! 0) AND 1 \<noteq> 0"
    by (simp add: append_crc32_def)
qed (simp_all, simp_all add: append_crc32_def)

section \<open>The check is a remainder\<close>

text \<open>
  C28. The CRC-32 of the frames, computed byte by byte with a shifted register, is the one of the textbook:
  the inverted remainder of the message polynomial times \<open>x ^ 32\<close>, its first 32 coefficients inverted, by
  the generator polynomial, as long division finds it.
\<close>

theorem calculate_crc32_remainder:
  "msb_bits 32 (calculate_crc32 data) =
    map Not (remainder (msb_bits 32 CRC32_POLYNOMIAL)
      (xor_front (concat (map byte_bits data) @ replicate 32 False) (replicate 32 True)))"
proof -
  have "crc32_shift = crc_step CRC32_POLYNOMIAL"
  proof
    fix r :: u32
    have "(0x80000000 :: u32) = push_bit 31 1" by simp
    then have "r AND 0x80000000 \<noteq> 0 \<longleftrightarrow> bit r 31" by (simp only: push_bit_of_1 and_exp_eq_0_iff_not_bit) simp
    then show "crc32_shift r = crc_step CRC32_POLYNOMIAL r" by (simp add: crc32_shift_def crc_step_def)
  qed
  then have "msb_bits LENGTH(32) (fold crc32_byte data 0xFFFFFFFF) =
    remainder (msb_bits LENGTH(32) CRC32_POLYNOMIAL)
      (xor_front (concat (map byte_bits data) @ replicate LENGTH(32) False) (msb_bits LENGTH(32) (0xFFFFFFFF :: u32)))"
    by (intro crc_is_remainder) (simp_all add: crc32_byte_def)
  moreover have "msb_bits 32 (0xFFFFFFFF :: u32) = replicate 32 True" by code_simp
  moreover have "msb_bits 32 (NOT w) = map Not (msb_bits 32 w)" for w :: u32
    by (rule nth_equalityI) (auto simp: msb_bits_bit bit_not_iff less_diff_conv2)
  ultimately show ?thesis by (simp add: calculate_crc32_def)
qed

end
