(* ===== verification/Fs1052_Arq.thy ===== *)
theory Fs1052_Arq
  imports Fs1052_Frame
begin

text \<open>
  \<open>include/FS1052/fs1052_arq.h\<close> and \<open>src/FS1052/fs1052_arq.cpp\<close>: the Variable ARQ state machine - segmentation
  of a message into blocks, transmission in windows, acknowledgement, retransmission and reassembly.
  The three callbacks are the trace \<open>arq_outs\<close>; they do not call back. A call either returns the new
  state, or never returns, or reads or writes outside a buffer: the type \<open>run\<close>. A block carries its
  \<open>length\<close> bytes; the rest of its array is never read.
\<close>

section \<open>States, events, blocks\<close>

datatype arq_state = ARQ_IDLE | TX_DATA | WAIT_ACK | RX_DATA | SEND_ACK | RETRANSMIT | ARQ_ERROR

datatype arq_event =
  START_TX | DATA_READY | FRAME_SENT | ACK_RECEIVED | NAK_RECEIVED | TIMEOUT | START_RX | FRAME_RECEIVED
| TRANSFER_COMPLETE | ERROR_EVENT | RESET

record data_block =
  block_sequence :: u8
  offset :: u32
  block_length :: u16
  block_data :: "byte list"
  acknowledged :: bool
  retransmit_count :: u8
  block_timestamp :: u32

record arq_stats =
  blocks_sent :: u32
  blocks_received :: u32
  blocks_retransmitted :: u32
  acks_sent :: u32
  acks_received :: u32
  naks_received :: u32
  timeouts :: u32
  crc_errors :: u32
  sequence_errors :: u32

definition no_stats :: arq_stats where
  "no_stats = \<lparr>blocks_sent = 0, blocks_received = 0, blocks_retransmitted = 0, acks_sent = 0, acks_received = 0,
     naks_received = 0, timeouts = 0, crc_errors = 0, sequence_errors = 0\<rparr>"

datatype arq_output = Sent_Frame "byte list" | Arq_Change arq_state arq_state | Arq_Error string

record arq =
  m_state :: arq_state
  m_prev_state :: arq_state
  tx_callback_set :: bool
  m_tx_blocks :: "data_block list"
  m_retransmit_queue :: "u8 list"
  m_next_tx_sequence :: u8
  m_window_base :: u8
  m_window_size :: u8
  m_rx_buffer :: "byte list"
  m_rx_bitmap :: "bool list"
  m_expected_sequence :: u8
  m_rx_msg_length :: u32
  m_last_tx_time :: u32
  m_ack_timeout :: u32
  m_wait_start_time :: u32
  m_data_rate :: data_rate
  m_max_retransmits :: u8
  m_stats :: arq_stats
  arq_outs :: "arq_output list"

definition VariableARQ :: arq where
  "VariableARQ = \<lparr>m_state = ARQ_IDLE, m_prev_state = ARQ_IDLE, tx_callback_set = False, m_tx_blocks = [],
     m_retransmit_queue = [], m_next_tx_sequence = 0, m_window_base = 0, m_window_size = 16, m_rx_buffer = [],
     m_rx_bitmap = replicate 256 False, m_expected_sequence = 0, m_rx_msg_length = 0, m_last_tx_time = 0,
     m_ack_timeout = 5000, m_wait_start_time = 0, m_data_rate = BPS_2400, m_max_retransmits = 3,
     m_stats = no_stats, arq_outs = []\<rparr>"

datatype 'a run = Returns 'a | Hangs | Out_Of_Bounds

fun run_bind :: "'a run \<Rightarrow> ('a \<Rightarrow> 'b run) \<Rightarrow> 'b run" where
  "run_bind (Returns x) f = f x"
| "run_bind Hangs f = Hangs"
| "run_bind Out_Of_Bounds f = Out_Of_Bounds"

section \<open>Helpers\<close>

definition arq_emit :: "arq_output \<Rightarrow> arq \<Rightarrow> arq" where
  "arq_emit x s = s\<lparr>arq_outs := arq_outs s @ [x]\<rparr>"

definition count_stat :: "(arq_stats \<Rightarrow> arq_stats) \<Rightarrow> arq \<Rightarrow> arq" where
  "count_stat f s = s\<lparr>m_stats := f (m_stats s)\<rparr>"

definition arq_transition :: "arq_state \<Rightarrow> arq \<Rightarrow> arq" where
  "arq_transition new_state s =
     (if new_state \<noteq> m_state s
      then arq_emit (Arq_Change (m_state s) new_state) (s\<lparr>m_prev_state := m_state s, m_state := new_state\<rparr>)
      else s)"

definition find_block :: "u8 \<Rightarrow> arq \<Rightarrow> data_block option" where
  "find_block q s = find (\<lambda>b. block_sequence b = q) (m_tx_blocks s)"

text \<open>A change through the pointer \<open>find_block\<close> gives: the first block of the sequence number.\<close>

fun update_first :: "u8 \<Rightarrow> (data_block \<Rightarrow> data_block) \<Rightarrow> data_block list \<Rightarrow> data_block list" where
  "update_first q f [] = []"
| "update_first q f (b # bs) = (if block_sequence b = q then f b # bs else b # update_first q f bs)"

definition update_block :: "u8 \<Rightarrow> (data_block \<Rightarrow> data_block) \<Rightarrow> arq \<Rightarrow> arq" where
  "update_block q f s = s\<lparr>m_tx_blocks := update_first q f (m_tx_blocks s)\<rparr>"

definition all_blocks_acked :: "arq \<Rightarrow> bool" where
  "all_blocks_acked s = list_all acknowledged (m_tx_blocks s)"

definition mark_block_acked :: "u8 \<Rightarrow> arq \<Rightarrow> arq" where
  "mark_block_acked q s = update_block q (\<lambda>b. b\<lparr>acknowledged := True\<rparr>) s"

definition block_frame :: "data_rate \<Rightarrow> data_block \<Rightarrow> data_frame" where
  "block_frame r b = DataFrame\<lparr>df_data_rate_format := ABSOLUTE, df_data_rate := rate_code r,
     df_interleaver_length := SHORT, sequence_number := block_sequence b, msg_byte_offset := offset b,
     data_length := block_length b,
     frame_data := block_data b @ drop (unat (block_length b)) (frame_data DataFrame)\<rparr>"

definition send_block :: "u8 \<Rightarrow> arq \<Rightarrow> arq" where
  "send_block q s =
     (case find_block q s of
        None \<Rightarrow> s
      | Some b \<Rightarrow>
          if \<not> tx_callback_set s then s
          else case format_data_frame (block_frame (m_data_rate s) b) 1200 of
                 Some bytes \<Rightarrow>
                   count_stat (\<lambda>st. st\<lparr>blocks_sent := blocks_sent st + 1\<rparr>)
                     (update_block q (\<lambda>b. b\<lparr>block_timestamp := m_last_tx_time s\<rparr>) (arq_emit (Sent_Frame bytes) s))
               | None \<Rightarrow> s)"

section \<open>Segmentation\<close>

function create_loop :: "byte list \<Rightarrow> u32 \<Rightarrow> u32 \<Rightarrow> u8 \<Rightarrow> data_block list" where
  "create_loop data len off seq =
     (if off < len
      then let n = min 1023 (len - off)
           in \<lparr>block_sequence = seq, offset = off, block_length = ucast n,
               block_data = take (unat n) (drop (unat off) data), acknowledged = False, retransmit_count = 0,
               block_timestamp = 0\<rparr> # create_loop data len (off + n) (seq + 1)
      else [])"
  by pat_completeness auto
termination
proof (relation "measure (\<lambda>(data, len, off, seq). unat (len - off))")
  fix data :: "byte list" and len off n :: u32 and seq :: u8
  assume a: "off < len" "n = min 1023 (len - off)"
  have p: "0 < len - off" using a(1) by (auto simp: word_gt_0)
  have "n \<le> len - off" "0 < n" using a(2) p by (simp_all add: min_def split: if_splits)
  then have "unat (len - off - n) < unat (len - off)"
    using p by (simp add: unat_sub word_less_nat_alt)
  then show "((data, len, off + n, seq + 1), data, len, off, seq) \<in> measure (\<lambda>(data, len, off, seq). unat (len - off))"
    by (simp add: diff_diff_eq)
qed simp

declare create_loop.simps [simp del]

definition create_blocks :: "byte list \<Rightarrow> arq \<Rightarrow> arq" where
  "create_blocks data s = s\<lparr>m_tx_blocks := create_loop data (of_nat (length data)) 0 0, m_next_tx_sequence := 0,
     m_window_base := 0\<rparr>"

section \<open>The state machine\<close>

definition handle_tx_complete :: "arq \<Rightarrow> arq" where
  "handle_tx_complete s = arq_transition ARQ_IDLE s"

text \<open>\<open>FRAME_SENT\<close> raises \<open>TRANSFER_COMPLETE\<close> in the same state, TX_DATA.\<close>

definition handle_tx_data :: "arq_event \<Rightarrow> arq \<Rightarrow> arq" where
  "handle_tx_data event s =
     (case event of
        FRAME_SENT \<Rightarrow>
          (if all_blocks_acked s then handle_tx_complete s
           else let s = arq_transition WAIT_ACK s in s\<lparr>m_wait_start_time := m_last_tx_time s\<rparr>)
      | TRANSFER_COMPLETE \<Rightarrow> handle_tx_complete s
      | ERROR_EVENT \<Rightarrow> arq_transition ARQ_ERROR s
      | _ \<Rightarrow> s)"

definition handle_send_ack :: "arq_event \<Rightarrow> arq \<Rightarrow> arq" where
  "handle_send_ack event s = (if event = FRAME_SENT then arq_transition RX_DATA s else s)"

text \<open>The states in which \<open>FRAME_SENT\<close> does something.\<close>

definition frame_sent :: "arq \<Rightarrow> arq" where
  "frame_sent s =
     (if m_state s = TX_DATA then handle_tx_data FRAME_SENT s
      else if m_state s = SEND_ACK then handle_send_ack FRAME_SENT s
      else s)"

definition next_sequence :: "arq \<Rightarrow> arq" where
  "next_sequence s = s\<lparr>m_next_tx_sequence := m_next_tx_sequence s + 1\<rparr>"

text \<open>The loop of \<open>send_next_blocks\<close> with its counter; \<open>None\<close> if it never ends.\<close>

partial_function (option) send_loop :: "nat \<Rightarrow> arq \<Rightarrow> (nat \<times> arq) option" where
  "send_loop sent s =
     (if sent < unat (m_window_size s) \<and> unat (m_next_tx_sequence s) < length (m_tx_blocks s)
      then case find_block (m_next_tx_sequence s) s of
             Some b \<Rightarrow>
               (if \<not> acknowledged b
                then send_loop (sent + 1) (next_sequence (send_block (m_next_tx_sequence s) s))
                else send_loop sent (next_sequence s))
           | None \<Rightarrow> send_loop sent (next_sequence s)
      else Some (sent, s))"

definition send_next_blocks :: "arq \<Rightarrow> arq run" where
  "send_next_blocks s =
     (case send_loop 0 s of
        None \<Rightarrow> Hangs
      | Some (sent, s) \<Rightarrow> Returns (if sent > 0 then frame_sent s else s))"

definition handle_idle :: "arq_event \<Rightarrow> arq \<Rightarrow> arq run" where
  "handle_idle event s =
     (case event of
        START_TX \<Rightarrow>
          (if m_tx_blocks s \<noteq> [] then send_next_blocks (arq_transition TX_DATA s) else Returns s)
      | START_RX \<Rightarrow> Returns (arq_transition RX_DATA s)
      | _ \<Rightarrow> Returns s)"

definition handle_wait_ack :: "arq_event \<Rightarrow> arq \<Rightarrow> arq run" where
  "handle_wait_ack event s =
     (case event of
        ACK_RECEIVED \<Rightarrow>
          (if all_blocks_acked s then Returns (arq_transition ARQ_IDLE s)
           else if m_retransmit_queue s \<noteq> [] then Returns (arq_transition RETRANSMIT s)
           else send_next_blocks (arq_transition TX_DATA s))
      | NAK_RECEIVED \<Rightarrow>
          Returns (arq_transition RETRANSMIT (count_stat (\<lambda>st. st\<lparr>naks_received := naks_received st + 1\<rparr>) s))
      | TIMEOUT \<Rightarrow>
          Returns (arq_transition RETRANSMIT (count_stat (\<lambda>st. st\<lparr>timeouts := timeouts st + 1\<rparr>) s))
      | ERROR_EVENT \<Rightarrow> Returns (arq_transition ARQ_ERROR s)
      | _ \<Rightarrow> Returns s)"

definition handle_rx_data :: "arq_event \<Rightarrow> arq \<Rightarrow> arq" where
  "handle_rx_data event s =
     (case event of
        FRAME_RECEIVED \<Rightarrow> arq_transition SEND_ACK s
      | TRANSFER_COMPLETE \<Rightarrow> arq_transition ARQ_IDLE s
      | ERROR_EVENT \<Rightarrow> arq_transition ARQ_ERROR s
      | _ \<Rightarrow> s)"

text \<open>The loop over the retransmit queue: the flag says that it ended early with an error.\<close>

fun retransmit_loop :: "u8 list \<Rightarrow> arq \<Rightarrow> bool \<times> arq" where
  "retransmit_loop [] s = (False, s\<lparr>m_retransmit_queue := []\<rparr>)"
| "retransmit_loop (q # qs) s =
     (case find_block q s of
        Some b \<Rightarrow>
          (if \<not> acknowledged b
           then if retransmit_count b \<ge> m_max_retransmits s
                then (True, arq_transition ARQ_ERROR
                       (arq_emit (Arq_Error ''Max retransmissions exceeded'') (s\<lparr>m_retransmit_queue := qs\<rparr>)))
                else retransmit_loop qs
                       (count_stat (\<lambda>st. st\<lparr>blocks_retransmitted := blocks_retransmitted st + 1\<rparr>)
                         (update_block q (\<lambda>b. b\<lparr>retransmit_count := retransmit_count b + 1\<rparr>) (send_block q s)))
           else retransmit_loop qs s)
      | None \<Rightarrow> retransmit_loop qs s)"

definition handle_retransmit :: "arq_event \<Rightarrow> arq \<Rightarrow> arq" where
  "handle_retransmit event s =
     (if event = DATA_READY
      then case retransmit_loop (m_retransmit_queue s) s of
             (True, s) \<Rightarrow> s
           | (False, s) \<Rightarrow> (arq_transition WAIT_ACK s)\<lparr>m_wait_start_time := m_last_tx_time s\<rparr>
      else s)"

definition arq_reset :: "arq \<Rightarrow> arq" where
  "arq_reset s = (arq_transition ARQ_IDLE s)
     \<lparr>m_tx_blocks := [], m_retransmit_queue := [], m_rx_buffer := [], m_next_tx_sequence := 0, m_window_base := 0,
      m_expected_sequence := 0, m_rx_bitmap := replicate 256 False, m_stats := no_stats\<rparr>"

definition arq_process_event :: "arq_event \<Rightarrow> arq \<Rightarrow> arq run" where
  "arq_process_event event s =
     (case m_state s of
        ARQ_IDLE \<Rightarrow> handle_idle event s
      | TX_DATA \<Rightarrow> Returns (handle_tx_data event s)
      | WAIT_ACK \<Rightarrow> handle_wait_ack event s
      | RX_DATA \<Rightarrow> Returns (handle_rx_data event s)
      | SEND_ACK \<Rightarrow> Returns (handle_send_ack event s)
      | RETRANSMIT \<Rightarrow> Returns (handle_retransmit event s)
      | ARQ_ERROR \<Rightarrow> Returns (if event = RESET then arq_reset s else s))"

section \<open>Calls\<close>

definition start_transmission :: "byte list \<Rightarrow> arq \<Rightarrow> bool \<times> arq run" where
  "start_transmission data s =
     (if m_state s \<noteq> ARQ_IDLE
      then (False, Returns (arq_emit (Arq_Error ''Cannot start transmission: not in IDLE state'') s))
      else if \<not> tx_callback_set s
      then (False, Returns (arq_emit (Arq_Error ''No TX callback configured'') s))
      else (True, arq_process_event START_TX (create_blocks data s)))"

definition ack_bitmap :: "bool list \<Rightarrow> byte list" where
  "ack_bitmap m = map (\<lambda>i. fold (\<lambda>j acc. if m ! (8 * i + j) then acc OR push_bit j 1 else acc) [0..<8] 0) [0..<32]"

definition ack_control_frame :: "arq \<Rightarrow> control_frame" where
  "ack_control_frame s = ControlFrame\<lparr>protocol_version := PROTOCOL_VERSION, cf_arq_mode := VARIABLE_ARQ,
     cf_ack_nak_type := DATA_ACK, bit_map := ack_bitmap (m_rx_bitmap s)\<rparr>"

definition send_ack :: "arq \<Rightarrow> arq run" where
  "send_ack s =
     (if \<not> tx_callback_set s then Returns s
      else case format_control_frame (ack_control_frame s) 256 of
             Some bytes \<Rightarrow>
               arq_process_event FRAME_SENT
                 (count_stat (\<lambda>st. st\<lparr>acks_sent := acks_sent st + 1\<rparr>) (arq_emit (Sent_Frame bytes) s))
           | None \<Rightarrow> Returns s)"

definition send_nak :: "u8 \<Rightarrow> arq \<Rightarrow> arq" where
  "send_nak q s = s\<lparr>m_retransmit_queue := m_retransmit_queue s @ [q]\<rparr>"

definition acked_in :: "byte list \<Rightarrow> nat \<Rightarrow> bool" where
  "acked_in m i \<longleftrightarrow> m ! (i div 8) AND push_bit (i mod 8) 1 \<noteq> 0"

definition process_ack :: "control_frame \<Rightarrow> arq \<Rightarrow> arq" where
  "process_ack f s =
     (if cf_ack_nak_type f \<noteq> DATA_ACK then s
      else fold (\<lambda>i s. if acked_in (bit_map f) i then mark_block_acked (of_nat i) s else s) [0..<256] s)"

definition store_data :: "u32 \<Rightarrow> byte list \<Rightarrow> byte list \<Rightarrow> byte list run" where
  "store_data off d buf =
     (let wanted = unat (off + of_nat (length d));
          buf = (if wanted > length buf then buf @ replicate (wanted - length buf) 0 else buf)
      in if unat off + length d \<le> length buf
         then Returns (take (unat off) buf @ d @ drop (unat off + length d) buf)
         else Out_Of_Bounds)"

definition all_received :: "arq \<Rightarrow> bool" where
  "all_received s \<longleftrightarrow>
     list_all (\<lambda>i. m_rx_bitmap s ! i \<or> \<not> i < unat (m_next_tx_sequence s)) [0..<256]"

definition process_data_frame :: "data_frame \<Rightarrow> arq \<Rightarrow> arq run" where
  "process_data_frame f s =
     (if m_rx_bitmap s ! unat (sequence_number f) then Returns s
      else
        let s = s\<lparr>m_rx_bitmap := (m_rx_bitmap s)[unat (sequence_number f) := True]\<rparr>
        in run_bind (store_data (msg_byte_offset f) (take (unat (data_length f)) (frame_data f)) (m_rx_buffer s))
             (\<lambda>buf. let s = s\<lparr>m_rx_buffer := buf\<rparr>
                    in if all_received s then arq_process_event TRANSFER_COMPLETE s else Returns s))"

definition handle_received_frame :: "byte list \<Rightarrow> arq \<Rightarrow> arq run" where
  "handle_received_frame frame s =
     (if length frame < 1 then Returns s
      else if detect_frame_type frame = DATA_FRAME
      then case parse_data_frame frame DataFrame of
             Parsed df \<Rightarrow>
               run_bind (process_data_frame df s)
                 (\<lambda>s. arq_process_event FRAME_RECEIVED
                        (count_stat (\<lambda>st. st\<lparr>blocks_received := blocks_received st + 1\<rparr>) s))
           | Refused \<Rightarrow> Returns (count_stat (\<lambda>st. st\<lparr>crc_errors := crc_errors st + 1\<rparr>) s)
           | Overrun \<Rightarrow> Out_Of_Bounds
      else case parse_control_frame frame ControlFrame of
             Parsed cf \<Rightarrow>
               arq_process_event ACK_RECEIVED
                 (count_stat (\<lambda>st. st\<lparr>acks_received := acks_received st + 1\<rparr>) (process_ack cf s))
           | Refused \<Rightarrow> Returns s
           | Overrun \<Rightarrow> Out_Of_Bounds)"

definition check_timeouts :: "u32 \<Rightarrow> arq \<Rightarrow> arq run" where
  "check_timeouts t s =
     (if t - m_wait_start_time s > m_ack_timeout s
      then arq_process_event TIMEOUT
             (fold (\<lambda>b. send_nak (block_sequence b)) (filter (\<lambda>b. \<not> acknowledged b) (m_tx_blocks s)) s)
      else Returns s)"

definition arq_update :: "u32 \<Rightarrow> arq \<Rightarrow> arq run" where
  "arq_update t s =
     (let s = s\<lparr>m_last_tx_time := t\<rparr>
      in if m_state s = WAIT_ACK then check_timeouts t s else Returns s)"

definition is_transfer_complete :: "arq \<Rightarrow> bool" where
  "is_transfer_complete s =
     (if m_state s = ARQ_IDLE \<and> m_tx_blocks s \<noteq> [] then all_blocks_acked s else m_state s = ARQ_IDLE)"

definition arq_init :: "bool \<Rightarrow> arq \<Rightarrow> arq" where
  "arq_init cb s = s\<lparr>tx_callback_set := cb\<rparr>"

definition set_ack_timeout :: "u32 \<Rightarrow> arq \<Rightarrow> arq" where
  "set_ack_timeout t s = s\<lparr>m_ack_timeout := t\<rparr>"

definition set_max_retransmissions :: "u8 \<Rightarrow> arq \<Rightarrow> arq" where
  "set_max_retransmissions n s = s\<lparr>m_max_retransmits := n\<rparr>"

definition set_window_size :: "u8 \<Rightarrow> arq \<Rightarrow> arq" where
  "set_window_size n s = s\<lparr>m_window_size := n\<rparr>"

definition set_data_rate :: "data_rate \<Rightarrow> arq \<Rightarrow> arq" where
  "set_data_rate r s = s\<lparr>m_data_rate := r\<rparr>"

fun arq_state_name :: "arq_state \<Rightarrow> string" where
  "arq_state_name ARQ_IDLE = ''IDLE''" | "arq_state_name TX_DATA = ''TX_DATA''"
| "arq_state_name WAIT_ACK = ''WAIT_ACK''" | "arq_state_name RX_DATA = ''RX_DATA''"
| "arq_state_name SEND_ACK = ''SEND_ACK''" | "arq_state_name RETRANSMIT = ''RETRANSMIT''"
| "arq_state_name ARQ_ERROR = ''ERROR''"

fun arq_event_name :: "arq_event \<Rightarrow> string" where
  "arq_event_name START_TX = ''START_TX''" | "arq_event_name DATA_READY = ''DATA_READY''"
| "arq_event_name FRAME_SENT = ''FRAME_SENT''" | "arq_event_name ACK_RECEIVED = ''ACK_RECEIVED''"
| "arq_event_name NAK_RECEIVED = ''NAK_RECEIVED''" | "arq_event_name TIMEOUT = ''TIMEOUT''"
| "arq_event_name START_RX = ''START_RX''" | "arq_event_name FRAME_RECEIVED = ''FRAME_RECEIVED''"
| "arq_event_name TRANSFER_COMPLETE = ''TRANSFER_COMPLETE''" | "arq_event_name ERROR_EVENT = ''ERROR_EVENT''"
| "arq_event_name RESET = ''RESET''"

end
