(* ===== verification/Fs1052_Transfer.thy ===== *)
theory Fs1052_Transfer
  imports Fs1052_Arq
begin

text \<open>
  What a transfer with the Variable ARQ achieves: the blocks of a message reassemble in any order; and
  where it fails: acknowledgements, messages of more than 256 blocks, offsets that wrap.
\<close>

section \<open>Blocks of a message\<close>

definition segment :: "byte list \<Rightarrow> nat \<Rightarrow> byte list" where
  "segment data i = take 1023 (drop (1023 * i) data)"

definition block_count :: "byte list \<Rightarrow> nat" where
  "block_count data = (length data + 1022) div 1023"

definition message_block :: "byte list \<Rightarrow> nat \<Rightarrow> data_block" where
  "message_block data i = \<lparr>block_sequence = of_nat i, offset = of_nat (1023 * i),
     block_length = of_nat (length (segment data i)), block_data = segment data i, acknowledged = False,
     retransmit_count = 0, block_timestamp = 0\<rparr>"

lemma u32_nat: "k < 2 ^ 32 \<Longrightarrow> unat (of_nat k :: u32) = k"
  by (simp add: unsigned_of_nat take_bit_nat_eq_self)

lemma block_count_iff: "i < block_count data \<longleftrightarrow> 1023 * i < length data"
  unfolding block_count_def by linarith

lemma create_loop_blocks:
  assumes "length data < 2 ^ 32"
  shows "create_loop data (of_nat (length data)) (of_nat (min (1023 * k) (length data))) (of_nat k) =
    map (message_block data) [k..<block_count data]"
proof (induction "block_count data - k" arbitrary: k)
  case 0
  then have "length data \<le> 1023 * k" using block_count_iff [of k data] by linarith
  with 0 show ?case by (subst create_loop.simps) simp
next
  case (Suc m)
  then have k: "1023 * k < length data" using block_count_iff [of k data] by linarith
  let ?L = "length data" and ?n = "length (segment data k)"
  have n: "?n = min 1023 (?L - 1023 * k)" by (simp add: segment_def)
  have u: "unat (of_nat (1023 * k) :: u32) = 1023 * k" "unat (of_nat ?L :: u32) = ?L"
    using k assms by (intro u32_nat; linarith)+
  have lt: "(of_nat (1023 * k) :: u32) < of_nat ?L" unfolding word_less_nat_alt u by (rule k)
  have diff: "of_nat ?L - of_nat (1023 * k) = (of_nat (?L - 1023 * k) :: u32)"
    using k by (simp add: of_nat_diff)
  have ud: "unat (of_nat (?L - 1023 * k) :: u32) = ?L - 1023 * k" using assms by (intro u32_nat) linarith
  have step: "min 1023 (of_nat ?L - of_nat (1023 * k)) = (of_nat ?n :: u32)"
    unfolding diff n by (simp add: min_def word_le_nat_alt ud)
  have un: "unat (of_nat ?n :: u32) = ?n" using n by (intro u32_nat) simp
  have next_off: "of_nat (1023 * k) + of_nat ?n = (of_nat (min (1023 * Suc k) ?L) :: u32)"
    unfolding of_nat_add [symmetric] n using k by (intro arg_cong [of _ _ of_nat]) (auto simp: min_def)
  have len: "(ucast (of_nat ?n :: u32) :: u16) = of_nat ?n"
    by (simp add: unsigned_of_nat) (simp add: n take_bit_nat_eq_self)
  have data: "take ?n (drop (1023 * k) data) = segment data k" by (simp add: segment_def min_def)
  have mk: "min (1023 * k) ?L = 1023 * k" using k by simp
  have ih: "create_loop data (of_nat ?L) (of_nat (min (1023 * Suc k) ?L)) (of_nat (Suc k)) =
      map (message_block data) [Suc k..<block_count data]"
    using Suc by (intro Suc.hyps(1)) linarith
  have upt: "[k..<block_count data] = k # [Suc k..<block_count data]"
    using k block_count_iff by (simp add: upt_conv_Cons)
  have sq: "(of_nat k :: u8) + 1 = of_nat (Suc k)" by simp
  show ?case
    unfolding mk upt
    by (subst create_loop.simps)
      (simp only: lt if_True Let_def step un next_off ih len data u list.map message_block_def sq)
qed

lemma create_blocks_eq:
  assumes "length data < 2 ^ 32"
  shows "m_tx_blocks (create_blocks data s) = map (message_block data) [0..<block_count data]"
  using create_loop_blocks [OF assms, of 0] by (simp add: create_blocks_def)

section \<open>Blocks on the air\<close>

text \<open>The bytes that go out for a block.\<close>

definition block_bytes :: "data_rate \<Rightarrow> data_block \<Rightarrow> byte list" where
  "block_bytes r b = append_crc32 (data_body (block_frame r b))"

lemma rate_code_small: "rate_code r < 8"
  by (cases r) simp_all

lemma segment_length: "length (segment data i) \<le> 1023"
  by (simp add: segment_def)

lemma message_block_length: "unat (block_length (message_block data i)) = length (segment data i)"
proof -
  have "length (segment data i) < 2 ^ 16" using segment_length [of data i] by simp
  then show ?thesis by (simp add: message_block_def unsigned_of_nat take_bit_nat_eq_self)
qed

lemma block_frame_fields [simp]:
  "sequence_number (block_frame r (message_block data i)) = of_nat i"
  "msg_byte_offset (block_frame r (message_block data i)) = of_nat (1023 * i)"
  "data_length (block_frame r (message_block data i)) = block_length (message_block data i)"
  "frame_data (block_frame r (message_block data i)) =
     segment data i @ replicate (1023 - length (segment data i)) 0"
  "df_crc32 (block_frame r b) = 0" "df_data_rate (block_frame r b) = rate_code r"
  "df_interleaver_length (block_frame r b) = SHORT"
  by (simp_all add: block_frame_def DataFrame_def message_block_length) (simp_all add: message_block_def)

lemma send_message_block:
  assumes "find_block q s = Some b" "b = message_block data i" "tx_callback_set s"
  shows "arq_outs (send_block q s) = arq_outs s @ [Sent_Frame (block_bytes (m_data_rate s) b)]"
  using assms segment_length [of data i]
  by (simp add: send_block_def format_data_frame_def message_block_length block_bytes_def count_stat_def
      update_block_def arq_emit_def)

lemma block_bytes_parsed:
  "parse_data_frame (block_bytes r (message_block data i)) DataFrame = Parsed (block_frame r (message_block data i))"
proof -
  let ?f = "block_frame r (message_block data i)"
  have len: "unat (data_length ?f) = length (segment data i)" by (simp add: message_block_length)
  have "data_length ?f \<le> 1023"
    using segment_length [of data i] by (simp add: word_le_nat_alt message_block_length del: block_frame_fields(1,2,4,5))
  then have "\<exists>b. format_data_frame ?f 1200 = Some b \<and>
      parse_data_frame b DataFrame = Parsed (?f\<lparr>frame_data := take (unat (data_length ?f)) (frame_data ?f) @
        drop (unat (data_length ?f)) (frame_data DataFrame), df_crc32 := df_crc32 DataFrame\<rparr>)"
    using segment_length [of data i]
    by (intro data_frame_roundtrip) (simp_all add: rate_code_small message_block_length interleaver_of_def)
  moreover have "take (unat (data_length ?f)) (frame_data ?f) @ drop (unat (data_length ?f)) (frame_data DataFrame) = frame_data ?f"
    unfolding len by (simp add: DataFrame_def)
  moreover have "df_crc32 DataFrame = df_crc32 ?f" by (simp add: DataFrame_def)
  moreover have "format_data_frame ?f 1200 = Some (block_bytes r (message_block data i))"
    using segment_length [of data i] by (simp add: format_data_frame_def block_bytes_def message_block_length)
  ultimately show ?thesis by simp
qed

lemma data_header_bit: "(1 OR push_bit 7 c OR push_bit 4 (r AND 7)) AND 2 = (0 :: byte)"
proof -
  have "(2 :: byte) = push_bit 1 1" by simp
  then show ?thesis unfolding mask_1 by (intro bit_word_eqI) (auto simp: bit_simps)
qed

lemma block_bytes_data: "detect_frame_type (block_bytes r b) = DATA_FRAME" "block_bytes r b \<noteq> []"
proof -
  let ?f = "block_frame r b"
  have "block_bytes r b ! 0 = 1 OR push_bit 7 (format_code (df_data_rate_format ?f)) OR push_bit 4 (df_data_rate ?f AND 7)"
    unfolding block_bytes_def append_crc32_def data_body_def by (simp only: append_Cons nth_Cons_0)
  then have "block_bytes r b ! 0 AND 2 = 0" by (simp only: data_header_bit)
  then show "detect_frame_type (block_bytes r b) = DATA_FRAME" by (simp add: detect_frame_type_def)
  show "block_bytes r b \<noteq> []" by (simp add: block_bytes_def append_crc32_def data_body_def)
qed

section \<open>Reassembly\<close>

fun receive_all :: "byte list list \<Rightarrow> arq \<Rightarrow> arq run" where
  "receive_all [] s = Returns s"
| "receive_all (f # fs) s = run_bind (handle_received_frame f s) (receive_all fs)"

text \<open>Events that end or continue a reception keep what has been received.\<close>

lemma event_keeps_received:
  assumes "e = TRANSFER_COMPLETE \<or> e = FRAME_RECEIVED"
  shows "\<exists>u. arq_process_event e s = Returns u \<and> m_rx_buffer u = m_rx_buffer s \<and> m_rx_bitmap u = m_rx_bitmap s"
  using assms
  by (cases "m_state s")
    (auto simp: arq_process_event_def handle_idle_def handle_tx_data_def handle_tx_complete_def handle_wait_ack_def
      handle_rx_data_def handle_send_ack_def handle_retransmit_def arq_transition_def arq_emit_def)

text \<open>The segments of the set \<open>S\<close> have arrived.\<close>

definition holds_segments :: "byte list \<Rightarrow> nat set \<Rightarrow> arq \<Rightarrow> bool" where
  "holds_segments data S s \<longleftrightarrow>
     length (m_rx_bitmap s) = 256 \<and> (\<forall>i<256. m_rx_bitmap s ! i \<longleftrightarrow> i \<in> S) \<and>
     length (m_rx_buffer s) \<le> length data \<and>
     (\<forall>i\<in>S. \<forall>j<length (segment data i).
        1023 * i + j < length (m_rx_buffer s) \<and> m_rx_buffer s ! (1023 * i + j) = data ! (1023 * i + j))"

lemma segment_nth: "j < length (segment data i) \<Longrightarrow> segment data i ! j = data ! (1023 * i + j)"
  by (auto simp: segment_def)

lemma store_segment:
  assumes "1023 * i < length data" "length data \<le> 261888" "length buf \<le> length data"
  shows "\<exists>buf'. store_data (of_nat (1023 * i)) (segment data i) buf = Returns buf' \<and>
    length buf' \<le> length data \<and> length buf \<le> length buf' \<and> 1023 * i + length (segment data i) \<le> length buf' \<and>
    (\<forall>j<length (segment data i). buf' ! (1023 * i + j) = data ! (1023 * i + j)) \<and>
    (\<forall>k<length buf. k < 1023 * i \<or> 1023 * i + length (segment data i) \<le> k \<longrightarrow> buf' ! k = buf ! k)"
proof -
  let ?o = "1023 * i" and ?d = "segment data i"
  have e: "?o + length ?d \<le> length data" using assms(1) by (simp add: segment_def)
  have u: "unat (of_nat ?o :: u32) = ?o" "unat (of_nat ?o + of_nat (length ?d) :: u32) = ?o + length ?d"
    unfolding of_nat_add [symmetric] using e assms(2) by (intro u32_nat; simp)+
  define b where "b = (if ?o + length ?d > length buf then buf @ replicate (?o + length ?d - length buf) 0 else buf)"
  have b: "length b = max (length buf) (?o + length ?d)" by (simp add: b_def)
  have s: "store_data (of_nat ?o) ?d buf = Returns (take ?o b @ ?d @ drop (?o + length ?d) b)"
    unfolding store_data_def Let_def u b_def [symmetric] using b by simp
  have old: "b ! k = buf ! k" if "k < length buf" for k using that by (simp add: b_def nth_append)
  show ?thesis
    unfolding s using b e assms(3) by (auto simp: nth_append segment_nth old min_def)
qed

lemma receive_segment:
  assumes "holds_segments data S s" "i < block_count data" "length data \<le> 261888" "S \<subseteq> {..<block_count data}"
  shows "\<exists>u. handle_received_frame (block_bytes r (message_block data i)) s = Returns u \<and>
    holds_segments data (insert i S) u"
proof -
  have i: "1023 * i < length data" "i < 256" using assms(2,3) by (simp_all add: block_count_iff block_count_def)
  let ?f = "block_frame r (message_block data i)"
  have q: "unat (of_nat i :: u8) = i" using i(2) by (simp add: unsigned_of_nat take_bit_nat_eq_self)
  have d: "take (unat (data_length ?f)) (frame_data ?f) = segment data i" by (simp add: message_block_length)
  have "\<exists>u. process_data_frame ?f s = Returns u \<and> holds_segments data (insert i S) u"
  proof (cases "i \<in> S")
    case True
    then have "m_rx_bitmap s ! i" using assms(1) i(2) by (simp add: holds_segments_def)
    then show ?thesis using True assms(1) by (simp add: process_data_frame_def q insert_absorb)
  next
    case False
    then have n: "\<not> m_rx_bitmap s ! i" using assms(1) i(2) by (simp add: holds_segments_def)
    have lb: "length (m_rx_buffer s) \<le> length data" using assms(1) by (simp add: holds_segments_def)
    from store_segment [OF i(1) assms(3) lb] obtain buf where
      st: "store_data (of_nat (1023 * i)) (segment data i) (m_rx_buffer s) = Returns buf"
      and buf: "length buf \<le> length data" "length (m_rx_buffer s) \<le> length buf"
        "1023 * i + length (segment data i) \<le> length buf"
        "\<forall>j<length (segment data i). buf ! (1023 * i + j) = data ! (1023 * i + j)"
        "\<forall>k<length (m_rx_buffer s). k < 1023 * i \<or> 1023 * i + length (segment data i) \<le> k \<longrightarrow> buf ! k = m_rx_buffer s ! k"
      by blast
    let ?t = "s\<lparr>m_rx_bitmap := (m_rx_bitmap s)[i := True], m_rx_buffer := buf\<rparr>"
    have "buf ! (1023 * k + j) = data ! (1023 * k + j)"
      if "k \<in> S" "j < length (segment data k)" for k j
    proof -
      have "1023 * k + j < 1023 * i \<or> 1023 * i + length (segment data i) \<le> 1023 * k + j"
      proof (cases "k < i")
        case True
        then show ?thesis using that segment_length [of data k] by linarith
      next
        case k: False
        have "k \<noteq> i" using that False by auto
        with k have "i < k" by simp
        then show ?thesis using segment_length [of data i] by linarith
      qed
      then show ?thesis using buf(5) that assms(1) by (auto simp: holds_segments_def)
    qed
    moreover have "1023 * k + j < length buf" if "k \<in> S" "j < length (segment data k)" for k j
      using that assms(1) buf(2) unfolding holds_segments_def by (meson order.strict_trans2)
    moreover have "1023 * i + j < length buf" if "j < length (segment data i)" for j
      using that buf(3) by linarith
    moreover have "(m_rx_bitmap s)[i := True] ! k \<longleftrightarrow> k \<in> insert i S" if "k < 256" for k
      using that assms(1) by (cases "k = i") (simp_all add: holds_segments_def)
    ultimately have t: "holds_segments data (insert i S) ?t"
      using assms(1) buf(1,4) by (simp add: holds_segments_def)
    have p: "process_data_frame ?f s = (if all_received ?t then arq_process_event TRANSFER_COMPLETE ?t else Returns ?t)"
      unfolding process_data_frame_def d by (simp add: n q st Let_def del: of_nat_mult)
    obtain u where "process_data_frame ?f s = Returns u" "m_rx_buffer u = m_rx_buffer ?t" "m_rx_bitmap u = m_rx_bitmap ?t"
      unfolding p using event_keeps_received [of TRANSFER_COMPLETE ?t] by (cases "all_received ?t") auto
    then show ?thesis using t by (auto simp: holds_segments_def)
  qed
  then obtain u where u: "process_data_frame ?f s = Returns u" "holds_segments data (insert i S) u" by blast
  obtain v where "arq_process_event FRAME_RECEIVED (count_stat (\<lambda>st. st\<lparr>blocks_received := blocks_received st + 1\<rparr>) u) = Returns v"
    "m_rx_buffer v = m_rx_buffer u" "m_rx_bitmap v = m_rx_bitmap u"
    using event_keeps_received [of FRAME_RECEIVED "count_stat (\<lambda>st. st\<lparr>blocks_received := blocks_received st + 1\<rparr>) u"]
    by (auto simp: count_stat_def)
  then show ?thesis
    using u block_bytes_data [of r "message_block data i"]
    by (simp add: handle_received_frame_def block_bytes_parsed holds_segments_def)
qed

lemma receive_segments:
  assumes "holds_segments data S s" "set ord \<subseteq> {..<block_count data}" "length data \<le> 261888" "S \<subseteq> {..<block_count data}"
  shows "\<exists>u. receive_all (map (\<lambda>i. block_bytes r (message_block data i)) ord) s = Returns u \<and>
    holds_segments data (S \<union> set ord) u"
  using assms
proof (induction ord arbitrary: S s)
  case Nil
  then show ?case by simp
next
  case (Cons i ord)
  then obtain u where u: "handle_received_frame (block_bytes r (message_block data i)) s = Returns u"
    "holds_segments data (insert i S) u"
    using receive_segment [of data S s i r] by auto
  have "insert i S \<subseteq> {..<block_count data}" using Cons.prems by simp
  with u Cons.IH [OF u(2)] Cons.prems show ?case by (simp add: insert_commute)
qed

lemma all_segments:
  assumes "holds_segments data {..<block_count data} s"
  shows "m_rx_buffer s = data"
proof (rule nth_equalityI)
  have seg: "k < length (m_rx_buffer s) \<and> m_rx_buffer s ! k = data ! k" if "k < length data" for k
  proof -
    have "k div 1023 < block_count data" using that by (simp add: block_count_iff)
    moreover have "k mod 1023 < length (segment data (k div 1023))"
      using that by (simp add: segment_def less_diff_conv)
    ultimately have "1023 * (k div 1023) + k mod 1023 < length (m_rx_buffer s) \<and>
        m_rx_buffer s ! (1023 * (k div 1023) + k mod 1023) = data ! (1023 * (k div 1023) + k mod 1023)"
      using assms unfolding holds_segments_def by blast
    then show ?thesis by simp
  qed
  show "length (m_rx_buffer s) = length data"
  proof (cases "data = []")
    case True
    then show ?thesis using assms by (simp add: holds_segments_def)
  next
    case False
    then have "length data \<le> length (m_rx_buffer s)" using seg [of "length data - 1"] by (cases data) auto
    moreover have "length (m_rx_buffer s) \<le> length data" using assms by (simp add: holds_segments_def)
    ultimately show ?thesis by simp
  qed
  then show "m_rx_buffer s ! k = data ! k" if "k < length (m_rx_buffer s)" for k
    using seg that by simp
qed

text \<open>
  Segmentation and reassembly: the frames a sender makes of the blocks of a message of up to 256 blocks
  give a fresh receiver exactly the message, in whatever order they arrive and however often each is
  repeated, as long as every one arrives; at any data rate and in whatever state the receiver is.
\<close>

theorem reassembly_in_any_order:
  assumes "length data \<le> 261888" "bs = m_tx_blocks (create_blocks data s)" "set ord = {..<length bs}"
    and "m_rx_buffer r = []" "m_rx_bitmap r = replicate 256 False"
  shows "\<exists>u. receive_all (map (\<lambda>i. block_bytes rate (bs ! i)) ord) r = Returns u \<and> m_rx_buffer u = data"
proof -
  have bs: "bs = map (message_block data) [0..<block_count data]"
    unfolding assms(2) using assms(1) by (intro create_blocks_eq) simp
  have "holds_segments data {} r" using assms(4,5) by (simp add: holds_segments_def)
  moreover have "set ord \<subseteq> {..<block_count data}" using assms(3) by (simp add: bs)
  ultimately obtain u where u: "receive_all (map (\<lambda>i. block_bytes rate (message_block data i)) ord) r = Returns u"
    "holds_segments data (set ord) u"
    using receive_segments [of data "{}" r ord rate] assms(1) by auto
  have "map (\<lambda>i. block_bytes rate (bs ! i)) ord = map (\<lambda>i. block_bytes rate (message_block data i)) ord"
    using assms(3) by (intro map_cong) (auto simp: bs)
  moreover have "m_rx_buffer u = data" using u(2) assms(3) by (intro all_segments) (simp add: bs)
  ultimately show ?thesis using u(1) by (intro exI [of _ u]) (simp only: simp_thms)
qed

theorem reassembly_in_any_order_witness:
  "\<exists>u. receive_all (map (\<lambda>i. block_bytes BPS_600 (m_tx_blocks (create_blocks (replicate 2000 7) VariableARQ) ! i)) [1, 0, 1])
     VariableARQ = Returns u \<and> m_rx_buffer u = replicate 2000 7"
proof (rule reassembly_in_any_order)
  show "set [1, 0, 1] = {..<length (m_tx_blocks (create_blocks (replicate 2000 7) VariableARQ))}"
    by (auto simp: create_blocks_eq block_count_def)
qed (simp_all add: VariableARQ_def)

section \<open>An offset that wraps\<close>

text \<open>
  A received data frame can write outside the receive buffer: when its offset and length add up beyond
  32 bits the buffer is not enlarged, and the data is copied to the offset behind its end.
\<close>

theorem data_frame_out_of_bounds:
  assumes "data_length f \<le> 1023" "length (frame_data f) = 1023" "df_data_rate f < 8"
    and "interleaver_of (interleaver_code (df_interleaver_length f)) = df_interleaver_length f"
    and "2 ^ 32 \<le> unat (msg_byte_offset f) + unat (data_length f)"
    and "unat (msg_byte_offset f + ucast (data_length f)) \<le> length (m_rx_buffer s)"
    and "length (m_rx_buffer s) \<le> unat (msg_byte_offset f)" "\<not> m_rx_bitmap s ! unat (sequence_number f)"
  shows "handle_received_frame (append_crc32 (data_body f)) s = Out_Of_Bounds"
proof -
  let ?b = "append_crc32 (data_body f)" and ?d = "take (unat (data_length f)) (frame_data f)"
  have ld: "length ?d = unat (data_length f)" using assms(1,2) by (simp add: word_le_nat_alt)
  have bits: "?b ! 0 = 1 OR push_bit 7 (format_code (df_data_rate_format f)) OR push_bit 4 (df_data_rate f AND 7)"
    unfolding append_crc32_def data_body_def by (simp only: append_Cons nth_Cons_0)
  then have "?b ! 0 AND 2 = 0" by (simp only: data_header_bit)
  then have ty: "detect_frame_type ?b = DATA_FRAME" "\<not> length ?b < 1"
    by (simp_all add: detect_frame_type_def append_crc32_def data_body_def)
  obtain g where g: "parse_data_frame ?b DataFrame = Parsed g" "sequence_number g = sequence_number f"
    "msg_byte_offset g = msg_byte_offset f" "data_length g = data_length f"
    "take (unat (data_length f)) (frame_data g) = ?d"
    using data_frame_roundtrip [OF assms(1-4) order_refl, of DataFrame] ld
    by (auto simp: format_data_frame_def)
  have "unat (msg_byte_offset f) < 2 ^ LENGTH(32)" by (rule unsigned_less)
  then have "0 < unat (data_length f)" using assms(5) by simp
  moreover have "(of_nat (length ?d) :: u32) = ucast (data_length f)" unfolding ld by simp
  ultimately have "store_data (msg_byte_offset f) ?d (m_rx_buffer s) = Out_Of_Bounds"
    using assms(6,7) ld unfolding store_data_def Let_def by simp
  then have "process_data_frame g s = Out_Of_Bounds"
    using assms(8) by (simp add: process_data_frame_def g Let_def)
  with g(1) ty show ?thesis by (simp add: handle_received_frame_def)
qed

definition wrapping_frame :: data_frame where
  "wrapping_frame = DataFrame\<lparr>sequence_number := 1, msg_byte_offset := 0xFFFFFFFF, data_length := 2\<rparr>"

theorem data_frame_out_of_bounds_witness:
  "handle_received_frame (append_crc32 (data_body wrapping_frame)) (VariableARQ\<lparr>m_rx_buffer := [0, 0, 0]\<rparr>) = Out_Of_Bounds"
  by (rule data_frame_out_of_bounds) (simp_all add: wrapping_frame_def DataFrame_def VariableARQ_def interleaver_of_def)

section \<open>Numbered blocks\<close>

definition numbered :: "data_block list \<Rightarrow> bool" where
  "numbered bs \<longleftrightarrow> (\<forall>i<length bs. block_sequence (bs ! i) = of_nat i)"

lemma numbered_Cons_find:
  "(\<And>i. i < length bs \<Longrightarrow> block_sequence (bs ! i) = of_nat (k + i)) \<Longrightarrow> k \<le> q \<Longrightarrow> q < 256 \<Longrightarrow>
    find (\<lambda>b. block_sequence b = of_nat q) bs = (if q - k < length bs then Some (bs ! (q - k)) else None) \<and>
    update_first (of_nat q) f bs = bs[q - k := f (bs ! (q - k))]"
proof (induction bs arbitrary: k)
  case Nil
  then show ?case by simp
next
  case (Cons b bs)
  have b: "block_sequence b = of_nat k" using Cons.prems(1) [of 0] by simp
  show ?case
  proof (cases "k = q")
    case True
    then show ?thesis using b by simp
  next
    case False
    have "(of_nat k :: u8) \<noteq> of_nat q"
      using False Cons.prems(2,3) by (simp add: word_unat_eq_iff unsigned_of_nat take_bit_nat_eq_self)
    moreover have "block_sequence (bs ! i) = of_nat (Suc k + i)" if "i < length bs" for i
      using Cons.prems(1) [of "Suc i"] that by simp
    moreover obtain m where "q - k = Suc m" "q - Suc k = m" using False Cons.prems(2) by (cases "q - k") auto
    ultimately show ?thesis using Cons.IH [of "Suc k"] b False Cons.prems(2,3) by auto
  qed
qed

lemma numbered_find:
  assumes "numbered (m_tx_blocks s)" "q < 256"
  shows "find_block (of_nat q) s = (if q < length (m_tx_blocks s) then Some (m_tx_blocks s ! q) else None)"
    and "update_block (of_nat q) f s = s\<lparr>m_tx_blocks := (m_tx_blocks s)[q := f (m_tx_blocks s ! q)]\<rparr>"
  using numbered_Cons_find [of "m_tx_blocks s" 0 q f] assms
  by (simp_all add: numbered_def find_block_def update_block_def)

lemma process_ack_blocks:
  assumes "numbered (m_tx_blocks s)" "cf_ack_nak_type f = DATA_ACK"
  shows "\<exists>bs. process_ack f s = s\<lparr>m_tx_blocks := bs\<rparr> \<and> length bs = length (m_tx_blocks s) \<and>
    (\<forall>i<length bs. bs ! i = (if i < 256 \<and> acked_in (bit_map f) i then (m_tx_blocks s ! i)\<lparr>acknowledged := True\<rparr>
       else m_tx_blocks s ! i))"
proof -
  let ?step = "\<lambda>i s. if acked_in (bit_map f) i then mark_block_acked (of_nat i) s else s"
  have "\<exists>bs. fold ?step [0..<k] s = s\<lparr>m_tx_blocks := bs\<rparr> \<and> length bs = length (m_tx_blocks s) \<and>
    (\<forall>i<length bs. bs ! i = (if i < k \<and> acked_in (bit_map f) i then (m_tx_blocks s ! i)\<lparr>acknowledged := True\<rparr>
       else m_tx_blocks s ! i))" if "k \<le> 256" for k
    using that
  proof (induction k)
    case 0
    then show ?case by (intro exI [of _ "m_tx_blocks s"]) simp
  next
    case (Suc k)
    then obtain bs where bs: "fold ?step [0..<k] s = s\<lparr>m_tx_blocks := bs\<rparr>" "length bs = length (m_tx_blocks s)"
      "\<forall>i<length bs. bs ! i = (if i < k \<and> acked_in (bit_map f) i then (m_tx_blocks s ! i)\<lparr>acknowledged := True\<rparr>
         else m_tx_blocks s ! i)" by auto
    have num: "numbered bs" using bs(2,3) assms(1) by (auto simp: numbered_def)
    have "mark_block_acked (of_nat k) (s\<lparr>m_tx_blocks := bs\<rparr>) =
        s\<lparr>m_tx_blocks := bs[k := (bs ! k)\<lparr>acknowledged := True\<rparr>]\<rparr>"
      using numbered_find(2) [of "s\<lparr>m_tx_blocks := bs\<rparr>" k] num Suc.prems by (simp add: mark_block_acked_def)
    then have step: "fold ?step [0..<Suc k] s =
        s\<lparr>m_tx_blocks := if acked_in (bit_map f) k then bs[k := (bs ! k)\<lparr>acknowledged := True\<rparr>] else bs\<rparr>"
      by (simp add: bs(1))
    show ?case
    proof (intro exI conjI, rule step)
      let ?b = "if acked_in (bit_map f) k then bs[k := (bs ! k)\<lparr>acknowledged := True\<rparr>] else bs"
      show "length ?b = length (m_tx_blocks s)" by (simp add: bs(2))
      show "\<forall>i<length ?b. ?b ! i = (if i < Suc k \<and> acked_in (bit_map f) i then (m_tx_blocks s ! i)\<lparr>acknowledged := True\<rparr>
          else m_tx_blocks s ! i)"
        using bs(2,3) by (cases "k < length bs") (auto simp: nth_list_update less_Suc_eq)
    qed
  qed
  from this [of 256] show ?thesis using assms(2) by (simp add: process_ack_def)
qed

section \<open>More than 256 blocks\<close>

lemma send_loop_never_ends:
  assumes "256 \<le> length (m_tx_blocks s)" "unat (m_window_size s) > k"
    and "\<forall>q. \<exists>b. find_block q s = Some b \<and> acknowledged b"
  shows "send_loop k s = None"
proof (rule ccontr)
  assume "send_loop k s \<noteq> None"
  then obtain y where y: "send_loop k s = Some y" by blast
  have "\<not> (256 \<le> length (m_tx_blocks s) \<and> unat (m_window_size s) > k \<and>
      (\<forall>q. \<exists>b. find_block q s = Some b \<and> acknowledged b))"
  proof (rule send_loop.raw_induct [where P = "\<lambda>k s y. \<not> (256 \<le> length (m_tx_blocks s) \<and> unat (m_window_size s) > k \<and>
      (\<forall>q. \<exists>b. find_block q s = Some b \<and> acknowledged b))", OF _ y], rule notI)
    fix rec k s y
    assume ih: "\<And>k s y. rec k s = Some y \<Longrightarrow> \<not> (256 \<le> length (m_tx_blocks s) \<and> unat (m_window_size s) > k \<and>
        (\<forall>q. \<exists>b. find_block q s = Some b \<and> acknowledged b))"
      and r: "(if k < unat (m_window_size s) \<and> unat (m_next_tx_sequence s) < length (m_tx_blocks s)
        then case find_block (m_next_tx_sequence s) s of None \<Rightarrow> rec k (next_sequence s)
          | Some b \<Rightarrow> if \<not> acknowledged b then rec (k + 1) (next_sequence (send_block (m_next_tx_sequence s) s))
             else rec k (next_sequence s)
        else Some (k, s)) = Some y"
      and a: "256 \<le> length (m_tx_blocks s) \<and> unat (m_window_size s) > k \<and>
        (\<forall>q. \<exists>b. find_block q s = Some b \<and> acknowledged b)"
    have "unat (m_next_tx_sequence s) < 2 ^ LENGTH(8)" by (rule unsigned_less)
    then have lt: "unat (m_next_tx_sequence s) < length (m_tx_blocks s)" using a by simp
    obtain b where b: "find_block (m_next_tx_sequence s) s = Some b" "acknowledged b" using a by blast
    have "rec k (next_sequence s) = Some y" using r a lt b by simp
    moreover have "m_tx_blocks (next_sequence s) = m_tx_blocks s" "m_window_size (next_sequence s) = m_window_size s"
      "find_block q (next_sequence s) = find_block q s" for q
      by (simp_all add: next_sequence_def find_block_def)
    ultimately show False using ih [of k "next_sequence s" y] a by simp
  qed
  then show False using assms by blast
qed

text \<open>
  A message of more than 256 blocks makes the sender hang: when the acknowledgement of its first 256
  blocks arrives, the loop that looks for the next blocks to send goes round through the 256 sequence
  numbers and never returns.
\<close>

theorem long_message_hangs:
  assumes "261888 < length data" "length data < 2 ^ 32"
    and "map block_sequence (m_tx_blocks s) = map block_sequence (m_tx_blocks (create_blocks data t))"
    and "\<not> acknowledged (m_tx_blocks s ! 256)" "m_state s = WAIT_ACK" "m_retransmit_queue s = []"
    and "m_window_size s \<noteq> 0" "frame \<noteq> []" "detect_frame_type frame \<noteq> DATA_FRAME"
    and "parse_control_frame frame ControlFrame = Parsed cf" "cf_ack_nak_type cf = DATA_ACK"
    and "bit_map cf = replicate 32 255"
  shows "handle_received_frame frame s = Hangs"
proof -
  have seqs: "map block_sequence (m_tx_blocks s) = map of_nat [0..<block_count data]"
    unfolding assms(3) create_blocks_eq [OF assms(2)] by (simp add: message_block_def)
  have n: "256 < block_count data" using assms(1) by (simp add: block_count_iff)
  have len: "length (m_tx_blocks s) = block_count data" using arg_cong [OF seqs, of length] by simp
  have num: "numbered (m_tx_blocks s)"
    unfolding numbered_def
  proof (intro allI impI)
    fix i assume i: "i < length (m_tx_blocks s)"
    then have "map block_sequence (m_tx_blocks s) ! i = of_nat i" unfolding seqs by (simp add: len)
    then show "block_sequence (m_tx_blocks s ! i) = of_nat i" using i by simp
  qed
  from process_ack_blocks [OF num assms(11)] obtain bs where
    bs: "process_ack cf s = s\<lparr>m_tx_blocks := bs\<rparr>" "length bs = length (m_tx_blocks s)"
      "\<forall>i<length bs. bs ! i = (if i < 256 \<and> acked_in (bit_map cf) i then (m_tx_blocks s ! i)\<lparr>acknowledged := True\<rparr>
        else m_tx_blocks s ! i)"
    by blast
  have set: "acked_in (bit_map cf) i" if "i < 256" for i
  proof -
    have "(255 :: u8) = mask 8" by (simp add: mask_eq_exp_minus_1)
    then have "bit (255 :: u8) (i mod 8)" by (simp only: bit_mask_iff) simp
    then show ?thesis using that by (simp add: acked_in_def assms(12) push_bit_of_1 and_exp_eq_0_iff_not_bit)
  qed
  let ?u = "arq_transition TX_DATA (count_stat (\<lambda>st. st\<lparr>acks_received := acks_received st + 1\<rparr>) (s\<lparr>m_tx_blocks := bs\<rparr>))"
  have u: "m_tx_blocks ?u = bs" "m_window_size ?u = m_window_size s"
    by (simp_all add: arq_transition_def arq_emit_def count_stat_def)
  have numb: "numbered bs" using bs(2,3) num by (auto simp: numbered_def)
  have "find_block q ?u = Some (bs ! unat q) \<and> acknowledged (bs ! unat q)" for q :: u8
  proof -
    have q: "unat q < 256" using unsigned_less [of q] by simp
    with numbered_find(1) [of ?u "unat q"] numb u(1) n len bs(2,3) set show ?thesis by simp
  qed
  then have "send_loop 0 ?u = None"
    using n len bs(2) assms(7) by (intro send_loop_never_ends) (auto simp: u unat_gt_0)
  moreover have "\<not> all_blocks_acked (count_stat (\<lambda>st. st\<lparr>acks_received := acks_received st + 1\<rparr>) (s\<lparr>m_tx_blocks := bs\<rparr>))"
    using n len bs(2,3) assms(4) unfolding all_blocks_acked_def list_all_length
    by (intro notI) (auto simp: count_stat_def dest!: spec [of _ 256])
  ultimately show ?thesis
    using assms(5,6,8-10) bs(1)
    by (simp add: handle_received_frame_def arq_process_event_def handle_wait_ack_def send_next_blocks_def)
      (simp add: count_stat_def handle_wait_ack_def send_next_blocks_def)
qed

text \<open>An acknowledgement that does carry the bitmap.\<close>

definition map_ack :: "byte list \<Rightarrow> byte list" where
  "map_ack m = append_crc32 ([3, 0, 0, 0, 0, 0, 0, 0, 1] @ m)"

lemma map_ack_parsed:
  assumes "length m = 32"
  shows "\<exists>cf. parse_control_frame (map_ack m) ControlFrame = Parsed cf \<and> cf_ack_nak_type cf = DATA_ACK \<and> bit_map cf = m"
    and "map_ack m \<noteq> []" "detect_frame_type (map_ack m) \<noteq> DATA_FRAME"
proof -
  have b: "length (map_ack m) = 45" "map_ack m ! 0 = 3" "map_ack m ! 8 = 1" "take 32 (drop 9 (map_ack m)) = m"
    using assms by (simp_all add: map_ack_def append_crc32_def)
  have v: "validate_crc32 (map_ack m)" by (simp add: map_ack_def)
  have a: "address_of 0 = SHORT_2_BYTE" "ack_of 1 = DATA_ACK"
    by (simp_all add: address_of_def ack_of_def)
  show "\<exists>cf. parse_control_frame (map_ack m) ControlFrame = Parsed cf \<and> cf_ack_nak_type cf = DATA_ACK \<and> bit_map cf = m"
    by (simp add: parse_control_frame_def parse_link_fields_def b v a ACK_MAP_SIZE_def Let_def)
  show "map_ack m \<noteq> []" "detect_frame_type (map_ack m) \<noteq> DATA_FRAME"
    using b by (auto simp: detect_frame_type_def)
qed

theorem long_message_hangs_witness:
  "handle_received_frame (map_ack (replicate 32 255))
     ((create_blocks (replicate 300000 0) VariableARQ)\<lparr>m_state := WAIT_ACK\<rparr>) = Hangs"
proof -
  let ?d = "replicate 300000 0 :: byte list"
  obtain cf where cf: "parse_control_frame (map_ack (replicate 32 255)) ControlFrame = Parsed cf"
    "cf_ack_nak_type cf = DATA_ACK" "bit_map cf = replicate 32 255"
    using map_ack_parsed(1) [of "replicate 32 255"] by auto
  have "m_tx_blocks (create_blocks ?d VariableARQ) ! 256 = message_block ?d 256"
    by (subst create_blocks_eq) (simp_all add: block_count_def)
  then show ?thesis
    by (intro long_message_hangs [OF _ _ _ _ _ _ _ _ _ cf, of ?d _ VariableARQ])
      (simp_all add: map_ack_parsed message_block_def, simp_all add: create_blocks_def VariableARQ_def)
qed

section \<open>Sending in windows\<close>

text \<open>The block as it was created.\<close>

definition message_of :: "data_block \<Rightarrow> data_block" where
  "message_of b = b\<lparr>acknowledged := False, retransmit_count := 0, block_timestamp := 0\<rparr>"

definition sending :: "byte list \<Rightarrow> nat \<Rightarrow> arq \<Rightarrow> bool" where
  "sending data a s \<longleftrightarrow> tx_callback_set s \<and> m_next_tx_sequence s = of_nat a \<and>
     map message_of (m_tx_blocks s) = map (message_block data) [0..<block_count data]"

lemma message_of_simps [simp]:
  "block_sequence (message_of b) = block_sequence b" "block_length (message_of b) = block_length b"
  "block_frame r (message_of b) = block_frame r b" "block_bytes r (message_of b) = block_bytes r b"
  "message_of (b\<lparr>block_timestamp := t\<rparr>) = message_of b" "message_of (b\<lparr>acknowledged := x\<rparr>) = message_of b"
  "message_of (message_block data i) = message_block data i"
  by (simp_all add: message_of_def block_bytes_def block_frame_def message_block_def)

lemma sending_blocks:
  assumes "sending data a s"
  shows "length (m_tx_blocks s) = block_count data" "numbered (m_tx_blocks s)"
    and "i < block_count data \<Longrightarrow> message_of (m_tx_blocks s ! i) = message_block data i"
proof -
  have m: "map message_of (m_tx_blocks s) = map (message_block data) [0..<block_count data]"
    using assms by (simp add: sending_def)
  show len: "length (m_tx_blocks s) = block_count data" using arg_cong [OF m, of length] by simp
  show nth: "message_of (m_tx_blocks s ! i) = message_block data i" if "i < block_count data" for i
    using arg_cong [OF m, of "\<lambda>xs. xs ! i"] that len by simp
  show "numbered (m_tx_blocks s)"
    unfolding numbered_def len
  proof (intro allI impI)
    fix i assume "i < block_count data"
    from arg_cong [OF nth [OF this], of block_sequence] show "block_sequence (m_tx_blocks s ! i) = of_nat i"
      by (simp add: message_block_def)
  qed
qed

lemma send_numbered_block:
  assumes "sending data a s" "i < block_count data" "block_count data \<le> 256"
  shows "\<exists>st. send_block (of_nat i) s = s\<lparr>arq_outs := arq_outs s @ [Sent_Frame (block_bytes (m_data_rate s) (message_block data i))],
    m_tx_blocks := (m_tx_blocks s)[i := (m_tx_blocks s ! i)\<lparr>block_timestamp := m_last_tx_time s\<rparr>], m_stats := st\<rparr>"
proof -
  note b = sending_blocks [OF assms(1)]
  have f: "find_block (of_nat i) s = Some (m_tx_blocks s ! i)"
    using numbered_find(1) [OF b(2), of i] assms(2,3) b(1) by simp
  have fr: "block_frame (m_data_rate s) (m_tx_blocks s ! i) = block_frame (m_data_rate s) (message_block data i)"
    using b(3) [OF assms(2)] by (metis message_of_simps(3))
  have fmt: "format_data_frame (block_frame (m_data_rate s) (m_tx_blocks s ! i)) 1200 =
      Some (block_bytes (m_data_rate s) (message_block data i))"
    unfolding fr using segment_length [of data i] by (simp add: format_data_frame_def block_bytes_def message_block_length)
  have u: "update_block (of_nat i) g (arq_emit x s) =
      (arq_emit x s)\<lparr>m_tx_blocks := (m_tx_blocks s)[i := g (m_tx_blocks s ! i)]\<rparr>" for g x
    using numbered_find(2) [of "arq_emit x s" i g] b(1,2) assms(2,3) by (simp add: arq_emit_def)
  show ?thesis
    using assms(1)
    by (simp add: send_block_def f fmt u sending_def) (simp add: arq_emit_def count_stat_def, rule exI, rule refl)
qed

lemma send_window:
  assumes "sending data a s" "block_count data \<le> 255" "a \<le> block_count data" "k \<le> unat (m_window_size s)"
    and "\<forall>i<block_count data. a \<le> i \<longrightarrow> \<not> acknowledged (m_tx_blocks s ! i)"
    and "c = min (block_count data) (a + (unat (m_window_size s) - k))"
  shows "\<exists>bs st. send_loop k s = Some (k + (c - a), s\<lparr>m_tx_blocks := bs, m_next_tx_sequence := of_nat c,
      arq_outs := arq_outs s @ map (\<lambda>i. Sent_Frame (block_bytes (m_data_rate s) (message_block data i))) [a..<c],
      m_stats := st\<rparr>) \<and>
    map message_of bs = map message_of (m_tx_blocks s) \<and> map acknowledged bs = map acknowledged (m_tx_blocks s)"
  using assms
proof (induction "c - a" arbitrary: a k s)
  case 0
  note b = sending_blocks [OF 0(2)]
  have "unat (m_next_tx_sequence s) = a"
    using 0 by (simp add: sending_def unsigned_of_nat take_bit_nat_eq_self)
  moreover have "c = a" "a = block_count data \<or> k = unat (m_window_size s)" using 0 by (auto simp: min_def split: if_splits)
  moreover have "m_next_tx_sequence s = of_nat a" using 0 by (simp add: sending_def)
  ultimately show ?case
    using b(1) by (intro exI [of _ "m_tx_blocks s"] exI [of _ "m_stats s"]) (subst send_loop.simps; auto)
next
  case (Suc d)
  note b = sending_blocks [OF Suc(3)]
  have a: "a < block_count data" "k < unat (m_window_size s)" using Suc by (auto simp: min_def split: if_splits)
  have nx: "m_next_tx_sequence s = of_nat a" using Suc(3) by (simp add: sending_def)
  have un: "unat (of_nat a :: u8) = a" using a Suc(4) by (simp add: unsigned_of_nat take_bit_nat_eq_self)
  have f: "find_block (of_nat a) s = Some (m_tx_blocks s ! a)"
    using numbered_find(1) [OF b(2), of a] a Suc(4) b(1) by simp
  have na: "\<not> acknowledged (m_tx_blocks s ! a)" using Suc(7) a by simp
  obtain st where st: "send_block (of_nat a) s = s\<lparr>arq_outs := arq_outs s @ [Sent_Frame (block_bytes (m_data_rate s) (message_block data a))],
    m_tx_blocks := (m_tx_blocks s)[a := (m_tx_blocks s ! a)\<lparr>block_timestamp := m_last_tx_time s\<rparr>], m_stats := st\<rparr>"
    using send_numbered_block [OF Suc(3) a(1)] Suc(4) by auto
  let ?s = "next_sequence (send_block (of_nat a) s)"
  have step: "send_loop k s = send_loop (k + 1) ?s"
    using a b(1) f na by (subst send_loop.simps) (simp add: nx un)
  have m: "map message_of (m_tx_blocks ?s) = map message_of (m_tx_blocks s)"
    "map acknowledged (m_tx_blocks ?s) = map acknowledged (m_tx_blocks s)"
    using a b(1) unfolding next_sequence_def st
    by (simp_all add: map_update) (metis list_update_id nth_map)+
  have len: "length (m_tx_blocks ?s) = length (m_tx_blocks s)" using arg_cong [OF m(1), of length] by simp
  have same: "acknowledged (m_tx_blocks ?s ! i) = acknowledged (m_tx_blocks s ! i)" if "i < block_count data" for i
    using arg_cong [OF m(2), of "\<lambda>xs. xs ! i"] that len b(1) by simp
  have w: "m_window_size ?s = m_window_size s" "m_data_rate ?s = m_data_rate s" unfolding next_sequence_def st by simp_all
  have s': "sending data (Suc a) ?s"
    using Suc(3) m(1) unfolding sending_def by (simp add: next_sequence_def st)
  have "\<exists>bs st. send_loop (k + 1) ?s = Some (k + 1 + (c - Suc a), ?s\<lparr>m_tx_blocks := bs, m_next_tx_sequence := of_nat c,
      arq_outs := arq_outs ?s @ map (\<lambda>i. Sent_Frame (block_bytes (m_data_rate ?s) (message_block data i))) [Suc a..<c],
      m_stats := st\<rparr>) \<and>
    map message_of bs = map message_of (m_tx_blocks ?s) \<and> map acknowledged bs = map acknowledged (m_tx_blocks ?s)"
    by (rule Suc(1)) (use Suc(2) s' Suc(4) a same Suc(7,8) w in \<open>auto simp: min_def split: if_splits\<close>)
  then obtain bs st' where rest: "send_loop (k + 1) ?s = Some (k + 1 + (c - Suc a), ?s\<lparr>m_tx_blocks := bs, m_next_tx_sequence := of_nat c,
      arq_outs := arq_outs ?s @ map (\<lambda>i. Sent_Frame (block_bytes (m_data_rate s) (message_block data i))) [Suc a..<c],
      m_stats := st'\<rparr>)" "map message_of bs = map message_of (m_tx_blocks ?s)"
    "map acknowledged bs = map acknowledged (m_tx_blocks ?s)" unfolding w by blast
  have ac: "a < c" using Suc(2) by simp
  then have upt: "[a..<c] = a # [Suc a..<c]" by (simp add: upt_conv_Cons)
  have k: "k + 1 + (c - Suc a) = k + (c - a)" using ac by simp
  show ?case
  proof (intro exI conjI)
    show "send_loop k s = Some (k + (c - a), s\<lparr>m_tx_blocks := bs, m_next_tx_sequence := of_nat c,
        arq_outs := arq_outs s @ map (\<lambda>i. Sent_Frame (block_bytes (m_data_rate s) (message_block data i))) [a..<c],
        m_stats := st'\<rparr>)"
      unfolding step rest(1) upt k by (simp add: next_sequence_def st)
  qed (simp_all only: rest(2,3) m)
qed

text \<open>The frames sent, oldest first.\<close>

fun sent_frames :: "arq_output list \<Rightarrow> byte list list" where
  "sent_frames [] = []"
| "sent_frames (Sent_Frame b # os) = b # sent_frames os"
| "sent_frames (_ # os) = sent_frames os"

lemma sent_frames_append [simp]: "sent_frames (xs @ ys) = sent_frames xs @ sent_frames ys"
  by (induction xs rule: sent_frames.induct) simp_all

lemma sent_frames_map [simp]: "sent_frames (map (\<lambda>i. Sent_Frame (f i)) is) = map f is"
  by (induction "is") simp_all

text \<open>A frame that acknowledges exactly the first \<open>a\<close> blocks.\<close>

definition acknowledges :: "byte list \<Rightarrow> nat \<Rightarrow> bool" where
  "acknowledges frame a \<longleftrightarrow> frame \<noteq> [] \<and> detect_frame_type frame \<noteq> DATA_FRAME \<and>
     (case parse_control_frame frame ControlFrame of
        Parsed cf \<Rightarrow> cf_ack_nak_type cf = DATA_ACK \<and> (\<forall>i<256. acked_in (bit_map cf) i \<longleftrightarrow> i < a)
      | _ \<Rightarrow> False)"

text \<open>One acknowledgement per window of \<open>w\<close> blocks, of all blocks sent so far.\<close>

fun acks_from :: "nat \<Rightarrow> nat \<Rightarrow> nat \<Rightarrow> byte list list \<Rightarrow> bool" where
  "acks_from w n a [] \<longleftrightarrow> False"
| "acks_from w n a (f # fs) \<longleftrightarrow> acknowledges f a \<and> (if n \<le> a then fs = [] else acks_from w n (min n (a + w)) fs)"

text \<open>The sender waits for the acknowledgement of the first \<open>a\<close> blocks, some of which it may have had.\<close>

definition waiting :: "byte list \<Rightarrow> nat \<Rightarrow> arq \<Rightarrow> bool" where
  "waiting data a s \<longleftrightarrow> sending data a s \<and> m_state s = WAIT_ACK \<and> m_retransmit_queue s = [] \<and>
     (\<forall>i<block_count data. acknowledged (m_tx_blocks s ! i) \<longrightarrow> i < a)"

abbreviation block_frames :: "byte list \<Rightarrow> data_rate \<Rightarrow> nat \<Rightarrow> nat \<Rightarrow> byte list list" where
  "block_frames data r a c \<equiv> map (\<lambda>i. block_bytes r (message_block data i)) [a..<c]"

text \<open>Sending a window from TX_DATA leaves the sender waiting.\<close>

lemma window_sent:
  assumes "sending data a s" "block_count data \<le> 255" "a < block_count data" "m_window_size s \<noteq> 0"
    and "\<forall>i<block_count data. acknowledged (m_tx_blocks s ! i) \<longrightarrow> i < a"
    and "m_state s = TX_DATA" "m_retransmit_queue s = []"
    and "c = min (block_count data) (a + unat (m_window_size s))"
  shows "\<exists>u. send_next_blocks s = Returns u \<and> waiting data c u \<and>
    sent_frames (arq_outs u) = sent_frames (arq_outs s) @ block_frames data (m_data_rate s) a c \<and>
    m_window_size u = m_window_size s \<and> m_data_rate u = m_data_rate s"
proof -
  have w: "0 < unat (m_window_size s)" using assms(4) by (simp add: unat_gt_0)
  have "\<exists>bs st. send_loop 0 s = Some (0 + (c - a), s\<lparr>m_tx_blocks := bs, m_next_tx_sequence := of_nat c,
      arq_outs := arq_outs s @ map (\<lambda>i. Sent_Frame (block_bytes (m_data_rate s) (message_block data i))) [a..<c],
      m_stats := st\<rparr>) \<and>
    map message_of bs = map message_of (m_tx_blocks s) \<and> map acknowledged bs = map acknowledged (m_tx_blocks s)"
    using assms by (intro send_window) auto
  then obtain bs st where sl: "send_loop 0 s = Some (c - a, s\<lparr>m_tx_blocks := bs, m_next_tx_sequence := of_nat c,
      arq_outs := arq_outs s @ map (\<lambda>i. Sent_Frame (block_bytes (m_data_rate s) (message_block data i))) [a..<c],
      m_stats := st\<rparr>)"
    "map message_of bs = map message_of (m_tx_blocks s)" "map acknowledged bs = map acknowledged (m_tx_blocks s)"
    by auto
  note b = sending_blocks [OF assms(1)]
  have len: "length bs = block_count data" using arg_cong [OF sl(2), of length] b(1) by simp
  have ack: "acknowledged (bs ! i) = acknowledged (m_tx_blocks s ! i)" if "i < block_count data" for i
    using arg_cong [OF sl(3), of "\<lambda>xs. xs ! i"] that len b(1) by simp
  have "\<not> list_all acknowledged bs"
    using ack [OF assms(3)] assms(3,5) len by (auto simp: list_all_length)
  then have na: "\<not> all_blocks_acked (s\<lparr>m_tx_blocks := bs, m_next_tx_sequence := of_nat c,
      arq_outs := arq_outs s @ map (\<lambda>i. Sent_Frame (block_bytes (m_data_rate s) (message_block data i))) [a..<c],
      m_stats := st\<rparr>)"
    by (simp add: all_blocks_acked_def)
  have c: "a < c" using assms(3,8) w by simp
  show ?thesis
    using assms(1,5,6,7) c sl(2) len ack c
    by (auto simp: send_next_blocks_def sl(1) frame_sent_def handle_tx_data_def na waiting_def sending_def Let_def
        arq_transition_def arq_emit_def)
qed

lemma ack_next_window:
  assumes "waiting data a s" "block_count data \<le> 255" "a \<le> block_count data" "m_window_size s \<noteq> 0"
    and "acknowledges frame a" "c = min (block_count data) (a + unat (m_window_size s))" "0 < block_count data"
  shows "\<exists>u. handle_received_frame frame s = Returns u \<and> m_window_size u = m_window_size s \<and>
    m_data_rate u = m_data_rate s \<and>
    (if block_count data \<le> a
     then is_transfer_complete u \<and> m_state u = ARQ_IDLE \<and> sent_frames (arq_outs u) = sent_frames (arq_outs s)
     else waiting data c u \<and>
       sent_frames (arq_outs u) = sent_frames (arq_outs s) @ block_frames data (m_data_rate s) a c)"
proof -
  have sd: "sending data a s" using assms(1) by (simp add: waiting_def)
  note b = sending_blocks [OF sd]
  obtain cf where cf: "frame \<noteq> []" "detect_frame_type frame \<noteq> DATA_FRAME"
    "parse_control_frame frame ControlFrame = Parsed cf" "cf_ack_nak_type cf = DATA_ACK"
    "\<forall>i<256. acked_in (bit_map cf) i \<longleftrightarrow> i < a"
    using assms(5) by (auto simp: acknowledges_def split: outcome.splits)
  from process_ack_blocks [OF b(2) cf(4)] obtain bs where
    bs: "process_ack cf s = s\<lparr>m_tx_blocks := bs\<rparr>" "length bs = length (m_tx_blocks s)"
      "\<forall>i<length bs. bs ! i = (if i < 256 \<and> acked_in (bit_map cf) i then (m_tx_blocks s ! i)\<lparr>acknowledged := True\<rparr>
        else m_tx_blocks s ! i)"
    by blast
  have ack: "acknowledged (bs ! i) \<longleftrightarrow> i < a" if "i < block_count data" for i
    using that bs(2,3) b(1) cf(5) assms(1,2) by (auto simp: waiting_def)
  have msg: "map message_of bs = map message_of (m_tx_blocks s)"
    using bs(2,3) by (intro nth_equalityI) auto
  let ?t = "count_stat (\<lambda>st. st\<lparr>acks_received := acks_received st + 1\<rparr>) (s\<lparr>m_tx_blocks := bs\<rparr>)"
  have h: "handle_received_frame frame s = handle_wait_ack ACK_RECEIVED ?t"
    using cf assms(1) by (simp add: handle_received_frame_def bs(1) arq_process_event_def waiting_def) (simp add: count_stat_def)
  have all: "all_blocks_acked ?t \<longleftrightarrow> block_count data \<le> a"
  proof -
    have "(\<forall>i<block_count data. acknowledged (bs ! i)) \<longleftrightarrow> block_count data \<le> a"
      using ack by (metis less_irrefl less_le_trans not_le)
    then show ?thesis using bs(2) b(1) by (simp add: all_blocks_acked_def count_stat_def list_all_length)
  qed
  show ?thesis
  proof (cases "block_count data \<le> a")
    case True
    have ne: "bs \<noteq> []" using bs(2) b(1) assms(7) by auto
    show ?thesis
      using True all assms(1) ne
      by (simp add: h handle_wait_ack_def waiting_def is_transfer_complete_def)
        (simp add: count_stat_def arq_transition_def arq_emit_def all_blocks_acked_def)
  next
    case False
    let ?u = "arq_transition TX_DATA ?t"
    have u: "sending data a ?u" "m_window_size ?u = m_window_size s" "m_data_rate ?u = m_data_rate s"
      "m_state ?u = TX_DATA" "m_retransmit_queue ?u = []" "m_tx_blocks ?u = bs"
      "sent_frames (arq_outs ?u) = sent_frames (arq_outs s)"
      using sd assms(1) msg
      by (simp_all add: sending_def waiting_def arq_transition_def arq_emit_def count_stat_def)
    have "\<exists>v. send_next_blocks ?u = Returns v \<and> waiting data c v \<and>
        sent_frames (arq_outs v) = sent_frames (arq_outs ?u) @ block_frames data (m_data_rate ?u) a c \<and>
        m_window_size v = m_window_size ?u \<and> m_data_rate v = m_data_rate ?u"
      by (rule window_sent [OF u(1) assms(2)]) (use False assms(4,6) u ack in auto)
    moreover have "handle_wait_ack ACK_RECEIVED ?t = send_next_blocks ?u"
      using False all assms(1) by (simp add: handle_wait_ack_def waiting_def) (simp add: count_stat_def)
    ultimately show ?thesis using False u(2,3,7) by (auto simp: h)
  qed
qed

lemma upt_split: "a \<le> b \<Longrightarrow> b \<le> c \<Longrightarrow> [a..<c] = [a..<b] @ [b..<c]"
  using upt_add_eq_append [of a b "c - b"] by simp

lemma acks_finish:
  assumes "waiting data a s" "block_count data \<le> 255" "a \<le> block_count data" "unat (m_window_size s) = w"
    and "0 < w" "0 < block_count data" "acks_from w (block_count data) a fs"
  shows "\<exists>u. receive_all fs s = Returns u \<and> is_transfer_complete u \<and>
    sent_frames (arq_outs u) = sent_frames (arq_outs s) @ block_frames data (m_data_rate s) a (block_count data)"
  using assms(1,3,4,7)
proof (induction fs arbitrary: a s)
  case Nil
  then show ?case by simp
next
  case (Cons f fs)
  let ?c = "min (block_count data) (a + w)"
  have "m_window_size s \<noteq> 0" using Cons.prems(3) assms(5) by auto
  then obtain u where u: "handle_received_frame f s = Returns u" "m_window_size u = m_window_size s"
    "m_data_rate u = m_data_rate s"
    "if block_count data \<le> a
     then is_transfer_complete u \<and> m_state u = ARQ_IDLE \<and> sent_frames (arq_outs u) = sent_frames (arq_outs s)
     else waiting data ?c u \<and>
       sent_frames (arq_outs u) = sent_frames (arq_outs s) @ block_frames data (m_data_rate s) a ?c"
    using ack_next_window [OF Cons.prems(1) assms(2) Cons.prems(2), of f ?c] Cons.prems(3,4) assms(6) by auto
  show ?case
  proof (cases "block_count data \<le> a")
    case True
    then show ?thesis using u Cons.prems(4) by simp
  next
    case False
    then have v: "waiting data ?c u" "sent_frames (arq_outs u) = sent_frames (arq_outs s) @ block_frames data (m_data_rate s) a ?c"
      "acks_from w (block_count data) ?c fs"
      using u(4) Cons.prems(4) by simp_all
    have "[a..<block_count data] = [a..<?c] @ [?c..<block_count data]"
      using False by (intro upt_split) auto
    then show ?thesis
      using Cons.IH [OF v(1) _ _ v(3)] u(1-3) Cons.prems(3) v(2) by auto
  qed
qed

text \<open>
  C13. A whole transfer: a message of at most 255 blocks is sent window by window, each acknowledgement of
  everything sent so far letting the next window out, until the last one completes the transfer; the
  frames sent on the way, put into a fresh receiver, give it exactly the message.
\<close>

theorem transfer_delivers_message:
  assumes "0 < length data" "length data \<le> 260865" "m_state s = ARQ_IDLE" "tx_callback_set s"
    and "m_retransmit_queue s = []" "arq_outs s = []" "w = unat (m_window_size s)" "0 < w"
    and "acks_from w (block_count data) (min (block_count data) w) acks"
    and "m_rx_buffer r = []" "m_rx_bitmap r = replicate 256 False"
  shows "\<exists>u v. run_bind (snd (start_transmission data s)) (receive_all acks) = Returns u \<and> is_transfer_complete u \<and>
    receive_all (sent_frames (arq_outs u)) r = Returns v \<and> m_rx_buffer v = data"
proof -
  have n: "0 < block_count data" "block_count data \<le> 255"
    using assms(1,2) by (simp add: block_count_iff) (use assms(2) in \<open>simp add: block_count_def\<close>)
  have blocks: "m_tx_blocks (create_blocks data s) = map (message_block data) [0..<block_count data]"
    using assms(2) by (intro create_blocks_eq) simp
  let ?t = "arq_transition TX_DATA (create_blocks data s)"
  have bl: "m_tx_blocks ?t = map (message_block data) [0..<block_count data]"
    using blocks by (simp add: arq_transition_def arq_emit_def)
  have t: "sending data 0 ?t" "m_window_size ?t = m_window_size s" "m_state ?t = TX_DATA" "m_retransmit_queue ?t = []"
    "sent_frames (arq_outs ?t) = []" "m_data_rate ?t = m_data_rate s"
    using assms(3-6) bl
    by (simp_all add: sending_def arq_transition_def arq_emit_def create_blocks_def comp_def cong: map_cong)
  have ack: "\<forall>i<block_count data. acknowledged (m_tx_blocks ?t ! i) \<longrightarrow> i < 0"
    unfolding bl by (simp add: message_block_def)
  have "\<exists>v. send_next_blocks ?t = Returns v \<and> waiting data (min (block_count data) w) v \<and>
      sent_frames (arq_outs v) = sent_frames (arq_outs ?t) @ block_frames data (m_data_rate ?t) 0 (min (block_count data) w) \<and>
      m_window_size v = m_window_size ?t \<and> m_data_rate v = m_data_rate ?t"
    by (rule window_sent [OF t(1) n(2,1) _ ack t(3,4)]) (use assms(7,8) in \<open>auto simp: t(2)\<close>)
  then obtain v where v: "send_next_blocks ?t = Returns v" "waiting data (min (block_count data) w) v"
    "sent_frames (arq_outs v) = block_frames data (m_data_rate s) 0 (min (block_count data) w)"
    "m_window_size v = m_window_size s" "m_data_rate v = m_data_rate s"
    unfolding t by auto
  have "snd (start_transmission data s) = send_next_blocks ?t"
    using assms(3,4) n blocks by (simp add: start_transmission_def arq_process_event_def handle_idle_def)
      (simp add: create_blocks_def handle_idle_def)
  moreover obtain u where u: "receive_all acks v = Returns u" "is_transfer_complete u"
    "sent_frames (arq_outs u) = sent_frames (arq_outs v) @
       block_frames data (m_data_rate v) (min (block_count data) w) (block_count data)"
    using acks_finish [OF v(2) n(2) _ _ assms(8) n(1) assms(9)] v(4) assms(7) by auto
  moreover have "sent_frames (arq_outs u) = map (\<lambda>i. block_bytes (m_data_rate s) (message_block data i)) [0..<block_count data]"
    unfolding u(3) v(3,5) map_append [symmetric]
    by (intro arg_cong [of _ _ "map _"] upt_split [symmetric]) auto
  moreover have "holds_segments data {} r" using assms(10,11) by (simp add: holds_segments_def)
  then obtain x where "receive_all (map (\<lambda>i. block_bytes (m_data_rate s) (message_block data i)) [0..<block_count data]) r = Returns x"
    "holds_segments data {..<block_count data} x"
    using receive_segments [of data "{}" r "[0..<block_count data]" "m_data_rate s"] assms(2)
    by (auto simp: atLeast0LessThan)
  ultimately show ?thesis using v(1) all_segments by auto
qed

text \<open>The first two blocks, acknowledged.\<close>

lemma two_blocks_acknowledged: "acknowledges (map_ack (3 # replicate 31 0)) 2"
proof -
  let ?m = "3 # replicate 31 0 :: byte list"
  obtain cf where cf: "parse_control_frame (map_ack ?m) ControlFrame = Parsed cf"
    "cf_ack_nak_type cf = DATA_ACK" "bit_map cf = ?m"
    using map_ack_parsed(1) [of ?m] by auto
  have "acked_in ?m i \<longleftrightarrow> i < 2" if "i < 256" for i
  proof (cases "i < 8")
    case True
    then have "i = 0 \<or> i = 1 \<or> i = 2 \<or> i = 3 \<or> i = 4 \<or> i = 5 \<or> i = 6 \<or> i = 7" by linarith
    then show ?thesis by (auto simp: acked_in_def)
  next
    case False
    then have "0 < i div 8" "i div 8 - 1 < 31" using that by auto
    then show ?thesis using False by (simp add: acked_in_def nth_Cons')
  qed
  then show ?thesis using cf by (simp add: acknowledges_def map_ack_parsed)
qed

theorem transfer_delivers_message_witness:
  "\<exists>u v. run_bind (snd (start_transmission (replicate 2000 7) (arq_init True VariableARQ)))
      (receive_all [map_ack (3 # replicate 31 0)]) = Returns u \<and> is_transfer_complete u \<and>
    receive_all (sent_frames (arq_outs u)) VariableARQ = Returns v \<and> m_rx_buffer v = replicate 2000 7"
  by (rule transfer_delivers_message [where w = 16])
    (simp_all add: arq_init_def VariableARQ_def block_count_def two_blocks_acknowledged)

section \<open>The acknowledgements this code sends\<close>

definition own_ack :: "byte list" where
  "own_ack = append_crc32 [3, 0, 0, 0, 0, 0, 0, 0, 1]"

text \<open>Whatever has been received, \<open>send_ack\<close> sends the same 13 bytes, without the bitmap.\<close>

lemma send_ack_sends: "send_ack s = (if tx_callback_set s
    then arq_process_event FRAME_SENT (count_stat (\<lambda>st. st\<lparr>acks_sent := acks_sent st + 1\<rparr>) (arq_emit (Sent_Frame own_ack) s))
    else Returns s)"
proof -
  have "ack_control_frame s = ControlFrame\<lparr>cf_ack_nak_type := DATA_ACK, bit_map := ack_bitmap (m_rx_bitmap s)\<rparr>"
    by (simp add: ack_control_frame_def ControlFrame_def)
  then show ?thesis by (simp add: send_ack_def format_control_frame_def data_ack_bytes own_ack_def)
qed

lemma own_ack_heard:
  "handle_received_frame own_ack s = arq_process_event ACK_RECEIVED (count_stat (\<lambda>st. st\<lparr>acks_received := acks_received st + 1\<rparr>) s)"
proof -
  obtain g where g: "parse_control_frame own_ack ControlFrame = Parsed g"
    "cf_ack_nak_type g = DATA_ACK" "bit_map g = bit_map ControlFrame"
    using data_ack_parsed [of ControlFrame] by (auto simp: own_ack_def)
  have none: "\<not> acked_in (bit_map g) i" if "i < 256" for i
    using that by (simp add: acked_in_def g(3) ControlFrame_def)
  have fold_id: "fold (\<lambda>i s. if acked_in (bit_map g) i then mark_block_acked (of_nat i) s else s) is s = s"
    if "\<forall>i\<in>set is. i < 256" for "is"
    using that none by (induction "is") simp_all
  have "process_ack g s = s"
    unfolding process_ack_def using g(2) by (simp add: fold_id)
  moreover have "own_ack \<noteq> []" "detect_frame_type own_ack \<noteq> DATA_FRAME"
    by (auto simp: own_ack_def detect_frame_type_def append_crc32_def)
  ultimately show ?thesis by (simp add: handle_received_frame_def g(1))
qed

datatype arq_input = Tick u32 | Heard "byte list"

fun arq_run :: "arq_input list \<Rightarrow> arq \<Rightarrow> arq run" where
  "arq_run [] s = Returns s"
| "arq_run (Tick t # is) s = run_bind (arq_update t s) (arq_run is)"
| "arq_run (Heard f # is) s = run_bind (handle_received_frame f s) (arq_run is)"

lemma tx_data_deaf:
  assumes "m_state s = TX_DATA" "\<forall>i\<in>set is. i = Heard own_ack \<or> (\<exists>t. i = Tick t)"
  shows "\<exists>u. arq_run is s = Returns u \<and> m_state u = TX_DATA \<and> arq_outs u = arq_outs s"
  using assms
proof (induction "is" arbitrary: s)
  case Nil
  then show ?case by simp
next
  case (Cons i "is")
  show ?case
  proof (cases "i = Heard own_ack")
    case True
    let ?s = "count_stat (\<lambda>st. st\<lparr>acks_received := acks_received st + 1\<rparr>) s"
    have "m_state ?s = TX_DATA" "arq_outs ?s = arq_outs s" using Cons.prems(1) by (simp_all add: count_stat_def)
    then show ?thesis
      using True Cons.IH [of ?s] Cons.prems by (simp add: own_ack_heard arq_process_event_def handle_tx_data_def)
  next
    case False
    then obtain t where "i = Tick t" using Cons.prems(2) by auto
    then show ?thesis using Cons.IH [of "s\<lparr>m_last_tx_time := t\<rparr>"] Cons.prems by (simp add: arq_update_def)
  qed
qed

text \<open>
  The acknowledgements that \<open>send_ack\<close> would send never complete a transfer: they carry no bitmap, so
  nothing is acknowledged, and a sender with all its blocks on the air goes back to TX_DATA, sends
  nothing, and stays there whatever ticks and further acknowledgements come.
\<close>

theorem own_ack_deadlock:
  assumes "send_ack r = Returns r'" "sent_frames (arq_outs r') = sent_frames (arq_outs r) @ [ack]"
    and "m_state s = WAIT_ACK" "m_retransmit_queue s = []" "\<not> all_blocks_acked s"
    and "length (m_tx_blocks s) \<le> unat (m_next_tx_sequence s)"
    and "\<forall>i\<in>set is. i = Heard ack \<or> (\<exists>t. i = Tick t)"
  shows "\<exists>u. arq_run (Heard ack # is) s = Returns u \<and> m_state u = TX_DATA \<and>
    arq_outs u = arq_outs s @ [Arq_Change WAIT_ACK TX_DATA]"
proof -
  have fs: "sent_frames (arq_outs (handle_send_ack FRAME_SENT x)) = sent_frames (arq_outs x)"
    "sent_frames (arq_outs (handle_tx_data FRAME_SENT x)) = sent_frames (arq_outs x)" for x
    by (simp_all add: handle_send_ack_def handle_tx_data_def handle_tx_complete_def arq_transition_def arq_emit_def Let_def)
  have "tx_callback_set r" using assms(1,2) by (auto simp: send_ack_sends split: if_splits)
  then have "sent_frames (arq_outs r') = sent_frames (arq_outs r) @ [own_ack]"
    using assms(1)
    by (auto simp: send_ack_sends arq_process_event_def handle_idle_def handle_wait_ack_def handle_rx_data_def
        handle_retransmit_def fs split: arq_state.splits) (auto simp: count_stat_def arq_emit_def)
  then have ack: "ack = own_ack" using assms(2) by simp
  let ?t = "arq_transition TX_DATA (count_stat (\<lambda>st. st\<lparr>acks_received := acks_received st + 1\<rparr>) s)"
  have t: "m_state ?t = TX_DATA" "arq_outs ?t = arq_outs s @ [Arq_Change WAIT_ACK TX_DATA]"
    "m_tx_blocks ?t = m_tx_blocks s" "m_next_tx_sequence ?t = m_next_tx_sequence s"
    using assms(3) by (simp_all add: arq_transition_def arq_emit_def count_stat_def)
  have "send_loop 0 ?t = Some (0, ?t)" using assms(6) t by (subst send_loop.simps) simp
  moreover have "\<not> all_blocks_acked (count_stat f s)" for f using assms(5) by (simp add: all_blocks_acked_def count_stat_def)
  ultimately have "handle_received_frame ack s = Returns ?t"
    using assms(3,4) by (simp add: ack own_ack_heard arq_process_event_def handle_wait_ack_def send_next_blocks_def)
      (simp add: count_stat_def handle_wait_ack_def send_next_blocks_def)
  then show ?thesis using tx_data_deaf [of ?t "is"] t(1,2) assms(7) ack by simp
qed

theorem own_ack_deadlock_witness:
  "\<exists>u. arq_run [Heard own_ack, Tick 5000, Tick 60000]
      ((create_blocks [1, 2, 3] VariableARQ)\<lparr>m_state := WAIT_ACK, m_next_tx_sequence := 1\<rparr>) = Returns u \<and>
    m_state u = TX_DATA \<and> arq_outs u = [Arq_Change WAIT_ACK TX_DATA]"
proof -
  let ?s = "(create_blocks [1, 2, 3] VariableARQ)\<lparr>m_state := WAIT_ACK, m_next_tx_sequence := 1\<rparr>"
  let ?r = "VariableARQ\<lparr>m_state := SEND_ACK, tx_callback_set := True\<rparr>"
  have b: "m_tx_blocks ?s = [message_block [1, 2, 3] 0]"
    using create_blocks_eq [of "[1, 2, 3]" VariableARQ] by (simp add: block_count_def)
  obtain r' where "send_ack ?r = Returns r'" "sent_frames (arq_outs r') = sent_frames (arq_outs ?r) @ [own_ack]"
    by (simp add: send_ack_sends arq_process_event_def arq_emit_def count_stat_def VariableARQ_def handle_send_ack_def arq_transition_def)
  from own_ack_deadlock [OF this, of ?s "[Tick 5000, Tick 60000]"] show ?thesis
    using b by (simp add: all_blocks_acked_def message_block_def) (simp add: create_blocks_def VariableARQ_def)
qed

section \<open>The receiver is silent\<close>

text \<open>A station with nothing of its own to send, in one of the receiving states.\<close>

definition receiving :: "arq \<Rightarrow> bool" where
  "receiving s \<longleftrightarrow> m_tx_blocks s = [] \<and> (m_state s = ARQ_IDLE \<or> m_state s = RX_DATA \<or> m_state s = SEND_ACK)"

lemma receiving_event:
  assumes "receiving s" "e = TRANSFER_COMPLETE \<or> e = FRAME_RECEIVED \<or> e = ACK_RECEIVED"
  shows "\<exists>u. arq_process_event e s = Returns u \<and> receiving u \<and> sent_frames (arq_outs u) = sent_frames (arq_outs s)"
  using assms
  by (auto simp: receiving_def arq_process_event_def handle_idle_def handle_rx_data_def handle_send_ack_def
      arq_transition_def arq_emit_def)

lemma run_bind_returns:
  "run_bind x f = Returns u \<longleftrightarrow> (\<exists>y. x = Returns y \<and> f y = Returns u)"
  by (cases x) simp_all

lemma process_ack_receiving: "receiving s \<Longrightarrow> process_ack f s = s"
proof -
  assume r: "receiving s"
  then have m: "mark_block_acked q s = s" for q
    by (simp add: receiving_def mark_block_acked_def update_block_def)
  have "fold (\<lambda>i s. if acked_in (bit_map f) i then mark_block_acked (of_nat i) s else s) is s = s" for "is"
    by (induction "is") (simp_all add: m)
  then show ?thesis by (simp add: process_ack_def)
qed

lemma receiving_data_frame:
  assumes "receiving s" "process_data_frame f s = Returns u"
  shows "receiving u \<and> sent_frames (arq_outs u) = sent_frames (arq_outs s)"
proof (cases "m_rx_bitmap s ! unat (sequence_number f)")
  case True
  then show ?thesis using assms by (simp add: process_data_frame_def)
next
  case False
  then obtain buf where u: "(let s = s\<lparr>m_rx_bitmap := (m_rx_bitmap s)[unat (sequence_number f) := True], m_rx_buffer := buf\<rparr>
      in if all_received s then arq_process_event TRANSFER_COMPLETE s else Returns s) = Returns u"
    using assms(2) by (auto simp: process_data_frame_def run_bind_returns Let_def)
  let ?s = "s\<lparr>m_rx_bitmap := (m_rx_bitmap s)[unat (sequence_number f) := True], m_rx_buffer := buf\<rparr>"
  have r: "receiving ?s" "sent_frames (arq_outs ?s) = sent_frames (arq_outs s)"
    using assms(1) by (simp_all add: receiving_def)
  show ?thesis
    using u r receiving_event [OF r(1), of TRANSFER_COMPLETE] unfolding Let_def by (auto split: if_splits)
qed

lemma receiving_count: "receiving (count_stat f s) = receiving s" "arq_outs (count_stat f s) = arq_outs s"
  by (simp_all add: receiving_def count_stat_def)

lemma receiving_frame:
  assumes "receiving s" "handle_received_frame f s = Returns u"
  shows "receiving u \<and> sent_frames (arq_outs u) = sent_frames (arq_outs s)"
proof -
  have e: "\<exists>v. arq_process_event e (count_stat g t) = Returns v \<and> receiving v \<and> sent_frames (arq_outs v) = sent_frames (arq_outs t)"
    if "receiving t" "e = FRAME_RECEIVED \<or> e = ACK_RECEIVED" for e g t
    using receiving_event [of "count_stat g t" e] that by (auto simp: receiving_count)
  show ?thesis
  proof (cases "f = [] \<or> detect_frame_type f \<noteq> DATA_FRAME")
    case True
    then show ?thesis
      using assms e [OF assms(1), of ACK_RECEIVED "\<lambda>st. st\<lparr>acks_received := acks_received st + 1\<rparr>"]
      by (auto simp: handle_received_frame_def process_ack_receiving split: outcome.splits if_splits)
  next
    case False
    show ?thesis
    proof (cases "parse_data_frame f DataFrame")
      case Refused
      then show ?thesis using False assms by (auto simp: handle_received_frame_def receiving_count)
    next
      case Overrun
      then show ?thesis using False assms by (simp add: handle_received_frame_def)
    next
      case (Parsed df)
      then obtain t where t: "process_data_frame df s = Returns t"
        "arq_process_event FRAME_RECEIVED (count_stat (\<lambda>st. st\<lparr>blocks_received := blocks_received st + 1\<rparr>) t) = Returns u"
        using False assms(2) by (auto simp: handle_received_frame_def run_bind_returns)
      show ?thesis
        using receiving_data_frame [OF assms(1) t(1)] t(2)
          e [of t FRAME_RECEIVED "\<lambda>st. st\<lparr>blocks_received := blocks_received st + 1\<rparr>"] by auto
    qed
  qed
qed

text \<open>
  A receiver never acknowledges anything: whatever frames it hears and however much time passes, a
  station with no message of its own transmits no frame at all; \<open>send_ack\<close> is not called by any handler,
  not even on the way through the state SEND_ACK.
\<close>

theorem receiver_never_acknowledges:
  assumes "m_tx_blocks s = []" "m_state s = RX_DATA" "arq_run is s = Returns u"
  shows "sent_frames (arq_outs u) = sent_frames (arq_outs s)"
proof -
  have "receiving s" using assms(1,2) by (simp add: receiving_def)
  then show ?thesis using assms(3)
  proof (induction "is" arbitrary: s)
    case Nil
    then show ?case by simp
  next
    case (Cons i "is")
    then obtain t where t: "arq_run is t = Returns u"
      "(case i of Tick x \<Rightarrow> arq_update x s | Heard f \<Rightarrow> handle_received_frame f s) = Returns t"
      by (cases i) (auto simp: run_bind_returns)
    have "receiving t \<and> sent_frames (arq_outs t) = sent_frames (arq_outs s)"
    proof (cases i)
      case (Tick x)
      then show ?thesis using t(2) Cons.prems(1) by (auto simp: arq_update_def Let_def receiving_def)
    next
      case (Heard f)
      then show ?thesis using t(2) Cons.prems(1) receiving_frame by simp
    qed
    then show ?case using Cons.IH t(1) by metis
  qed
qed

theorem receiver_never_acknowledges_witness:
  "\<exists>u. arq_run [Heard (block_bytes BPS_600 (message_block [1, 2, 3] 0))] (VariableARQ\<lparr>m_state := RX_DATA\<rparr>) = Returns u \<and>
    sent_frames (arq_outs u) = []"
proof -
  let ?s = "VariableARQ\<lparr>m_state := RX_DATA\<rparr>"
  have "holds_segments [1, 2, 3] {} ?s" by (simp add: holds_segments_def VariableARQ_def)
  then obtain u where u: "arq_run [Heard (block_bytes BPS_600 (message_block [1, 2, 3] 0))] ?s = Returns u"
    using receive_segment [of "[1, 2, 3]" "{}" ?s 0 BPS_600] by (auto simp: block_count_def)
  have "sent_frames (arq_outs u) = sent_frames (arq_outs ?s)"
    by (rule receiver_never_acknowledges [OF _ _ u]) (simp_all add: VariableARQ_def)
  with u show ?thesis by (simp add: VariableARQ_def)
qed

end
