(* ===== verification/Aqc.thy ===== *)
theory Aqc
  imports Frame_Validator Crc
begin

text \<open>
  \<open>include/Protocol/AQC/aqc_protocol.h\<close> and \<open>src/Protocol/AQC/aqc_parser.cpp\<close>: the compact AQC words, the
  data elements, the parsers of the four AQC messages, the checks and the response slots. A parser
  returns its result and its output parameter, written as far as it got. The words of a message are
  a list; an address is read as a C string, up to its NUL.
\<close>

section \<open>Compact words\<close>

record aqc_word =
  aqc_raw :: u16

definition type_flag :: "aqc_word \<Rightarrow> bool" where
  "type_flag w \<longleftrightarrow> drop_bit 15 (aqc_raw w) AND 1 \<noteq> 0"

definition char1 :: "aqc_word \<Rightarrow> u8" where "char1 w = ucast (drop_bit 10 (aqc_raw w) AND 0x1F)"
definition char2 :: "aqc_word \<Rightarrow> u8" where "char2 w = ucast (drop_bit 5 (aqc_raw w) AND 0x1F)"
definition char3 :: "aqc_word \<Rightarrow> u8" where "char3 w = ucast (aqc_raw w AND 0x1F)"

definition aqc_encode :: "bool \<Rightarrow> u8 \<Rightarrow> u8 \<Rightarrow> u8 \<Rightarrow> aqc_word" where
  "aqc_encode control c1 c2 c3 =
     \<lparr>aqc_raw = push_bit 15 (if control then 1 else 0) OR push_bit 10 (ucast (c1 AND 0x1F)) OR
            push_bit 5 (ucast (c2 AND 0x1F)) OR ucast (c3 AND 0x1F)\<rparr>"

definition char_to_aqc32 :: "char \<Rightarrow> u8" where
  "char_to_aqc32 ch =
     (if 65 \<le> (of_char ch :: nat) \<and> (of_char ch :: nat) \<le> 90 then of_nat (of_char ch - 65)
      else if 48 \<le> (of_char ch :: nat) \<and> (of_char ch :: nat) \<le> 53 then of_nat (26 + (of_char ch - 48))
      else 0xFF)"

definition aqc32_to_char :: "u8 \<Rightarrow> char" where
  "aqc32_to_char code =
     (if code \<le> 25 then char_of (65 + unat code) else if code \<le> 31 then char_of (48 + (unat code - 26)) else NUL)"

definition from_chars :: "bool \<Rightarrow> char \<Rightarrow> char \<Rightarrow> char \<Rightarrow> aqc_word option" where
  "from_chars control c1 c2 c3 =
     (if char_to_aqc32 c1 = 0xFF \<or> char_to_aqc32 c2 = 0xFF \<or> char_to_aqc32 c3 = 0xFF then None
      else Some (aqc_encode control (char_to_aqc32 c1) (char_to_aqc32 c2) (char_to_aqc32 c3)))"

definition to_chars :: "aqc_word \<Rightarrow> bool \<times> char \<times> char \<times> char" where
  "to_chars w =
     (let c1 = aqc32_to_char (char1 w); c2 = aqc32_to_char (char2 w); c3 = aqc32_to_char (char3 w)
      in (c1 \<noteq> NUL \<and> c2 \<noteq> NUL \<and> c3 \<noteq> NUL, c1, c2, c3))"

section \<open>Frame differentiation\<close>

definition is_aqc_word :: "u16 \<Rightarrow> bool" where
  "is_aqc_word r \<longleftrightarrow> drop_bit 15 r AND 1 \<noteq> 0"

definition payload_has_aqc_fixed_bit :: "u32 \<Rightarrow> bool" where
  "payload_has_aqc_fixed_bit payload \<longleftrightarrow> drop_bit 15 payload AND 1 \<noteq> 0"

definition is_base_ale_frame :: "ale_word \<Rightarrow> bool" where
  "is_base_ale_frame w \<longleftrightarrow> \<not> payload_has_aqc_fixed_bit (raw_payload w)"

definition is_aqc_format :: "ale_word \<Rightarrow> bool" where
  "is_aqc_format w \<longleftrightarrow> payload_has_aqc_fixed_bit (raw_payload w)"

section \<open>Data elements\<close>

datatype traffic_class =
  CLEAR_VOICE | DIGITAL_VOICE | HFD_VOICE | TC_RESERVED_3 | SECURE_DIGITAL_VOICE | TC_RESERVED_5
| TC_RESERVED_6 | TC_RESERVED_7 | ALE_MSG | PSK_MSG | TONE_39_MSG | HF_EMAIL | KY100_ACTIVE | TC_RESERVED_13
| TC_RESERVED_14 | TC_RESERVED_15

definition traffic_classes :: "traffic_class list" where
  "traffic_classes = [CLEAR_VOICE, DIGITAL_VOICE, HFD_VOICE, TC_RESERVED_3, SECURE_DIGITAL_VOICE, TC_RESERVED_5,
     TC_RESERVED_6, TC_RESERVED_7, ALE_MSG, PSK_MSG, TONE_39_MSG, HF_EMAIL, KY100_ACTIVE, TC_RESERVED_13,
     TC_RESERVED_14, TC_RESERVED_15]"

datatype transaction_code =
  XC_RESERVED_0 | MS_141A | ACK_LAST | NAK_LAST | TERMINATE | OP_ACKNAK | AQC_CMD | XC_RESERVED_7

definition transaction_codes :: "transaction_code list" where
  "transaction_codes = [XC_RESERVED_0, MS_141A, ACK_LAST, NAK_LAST, TERMINATE, OP_ACKNAK, AQC_CMD, XC_RESERVED_7]"

datatype crc_status = NOT_APPLICABLE | CRC_OK | CRC_ERROR

record data_elements =
  de1 :: u8
  de2 :: u8
  de3 :: traffic_class
  de4 :: u8
  de5 :: u8
  de6 :: u8
  de7 :: u8
  de8 :: u8
  de9 :: transaction_code

definition DataElements :: data_elements where
  "DataElements = \<lparr>de1 = 0, de2 = 0, de3 = CLEAR_VOICE, de4 = 0, de5 = 0, de6 = 0, de7 = 0, de8 = 0,
     de9 = XC_RESERVED_0\<rparr>"

definition extract_data_elements :: "u32 \<Rightarrow> data_elements" where
  "extract_data_elements payload =
     \<lparr>de1 = ucast (drop_bit 15 payload AND 0x07), de2 = ucast (payload AND 0x07),
      de3 = traffic_classes ! unat (drop_bit 3 payload AND 0x0F), de4 = ucast (drop_bit 7 payload AND 0x1F),
      de5 = 0, de6 = 0, de7 = 0, de8 = ucast (drop_bit 18 payload AND 0x07),
      de9 = transaction_codes ! unat (drop_bit 12 payload AND 0x07)\<rparr>"

section \<open>Messages\<close>

record call_probe =
  cp_to_address :: string
  cp_term_address :: string
  cp_de :: data_elements
  cp_timestamp_ms :: u32

record call_handshake =
  ch_to_address :: string
  ch_from_address :: string
  ch_de :: data_elements
  ch_crc_status :: crc_status
  ch_ack_this_flag :: bool
  ch_slot_position :: u8
  ch_timestamp_ms :: u32

record inlink =
  il_to_address :: string
  il_term_address :: string
  il_de :: data_elements
  il_crc_status :: crc_status
  il_ack_this_flag :: bool
  il_net_address_flag :: bool
  il_slot_position :: u8
  il_timestamp_ms :: u32

record aqc_orderwire =
  ow_message :: string
  ow_crc_status :: crc_status
  ow_calculated_crc :: u16
  ow_timestamp_ms :: u32

definition AQCCallProbe :: call_probe where
  "AQCCallProbe = \<lparr>cp_to_address = [], cp_term_address = [], cp_de = DataElements, cp_timestamp_ms = 0\<rparr>"

definition AQCCallHandshake :: call_handshake where
  "AQCCallHandshake = \<lparr>ch_to_address = [], ch_from_address = [], ch_de = DataElements,
     ch_crc_status = NOT_APPLICABLE, ch_ack_this_flag = False, ch_slot_position = 0, ch_timestamp_ms = 0\<rparr>"

definition AQCInlink :: inlink where
  "AQCInlink = \<lparr>il_to_address = [], il_term_address = [], il_de = DataElements, il_crc_status = NOT_APPLICABLE,
     il_ack_this_flag = False, il_net_address_flag = False, il_slot_position = 0, il_timestamp_ms = 0\<rparr>"

definition AQCOrderwire :: aqc_orderwire where
  "AQCOrderwire = \<lparr>ow_message = [], ow_crc_status = NOT_APPLICABLE, ow_calculated_crc = 0, ow_timestamp_ms = 0\<rparr>"

definition is_terminator :: "ale_word \<Rightarrow> bool" where
  "is_terminator w \<longleftrightarrow> word_type w = FROM \<or> word_type w = TIS"

definition parse_call_probe :: "ale_word list \<Rightarrow> call_probe \<Rightarrow> bool \<times> call_probe" where
  "parse_call_probe words probe =
     (if length words < 2 then (False, probe)
      else if word_type (words ! 0) = TO \<or> word_type (words ! 0) = TWAS then
        let probe = probe\<lparr>cp_to_address := c_string (address (words ! 0))\<rparr>;
            probe = (if is_aqc_format (words ! 0)
                     then probe\<lparr>cp_de := extract_data_elements (raw_payload (words ! 0))\<rparr> else probe)
        in if is_terminator (words ! 1)
           then (True, probe\<lparr>cp_term_address := c_string (address (words ! 1)),
                             cp_timestamp_ms := timestamp_ms (words ! 0)\<rparr>)
           else (False, probe)
      else (False, probe))"

definition parse_call_handshake :: "ale_word list \<Rightarrow> call_handshake \<Rightarrow> bool \<times> call_handshake" where
  "parse_call_handshake words h =
     (if length words < 2 then (False, h)
      else if word_type (words ! 0) = TO then
        let h = h\<lparr>ch_to_address := c_string (address (words ! 0))\<rparr>
        in if is_terminator (words ! 1) then
             let h = h\<lparr>ch_from_address := c_string (address (words ! 1))\<rparr>;
                 h = (if is_aqc_format (words ! 1)
                      then let de = extract_data_elements (raw_payload (words ! 1))
                           in h\<lparr>ch_de := de, ch_slot_position := de2 de, ch_ack_this_flag := (de9 de = ACK_LAST)\<rparr>
                      else h);
                 h = (if length words \<ge> 3 \<and> word_type (words ! 2) = CMD
                      then h\<lparr>ch_crc_status := NOT_APPLICABLE\<rparr> else h)
             in (True, h\<lparr>ch_timestamp_ms := timestamp_ms (words ! 0)\<rparr>)
           else (False, h)
      else (False, h))"

definition parse_inlink :: "ale_word list \<Rightarrow> inlink \<Rightarrow> bool \<times> inlink" where
  "parse_inlink words l =
     (if length words < 2 then (False, l)
      else if word_type (words ! 0) = TO \<or> word_type (words ! 0) = TWAS then
        let l = l\<lparr>il_to_address := c_string (address (words ! 0)),
                  il_net_address_flag := (word_type (words ! 0) = TWAS)\<rparr>;
            l = (if is_aqc_format (words ! 0)
                 then let de = extract_data_elements (raw_payload (words ! 0))
                      in l\<lparr>il_de := de, il_slot_position := de2 de, il_ack_this_flag := (de9 de = ACK_LAST)\<rparr>
                 else l)
        in if is_terminator (words ! 1) then
             let l = l\<lparr>il_term_address := c_string (address (words ! 1))\<rparr>;
                 l = (if length words \<ge> 3 \<and> word_type (words ! 2) = CMD
                      then l\<lparr>il_crc_status := NOT_APPLICABLE\<rparr> else l)
             in (True, l\<lparr>il_timestamp_ms := timestamp_ms (words ! 0)\<rparr>)
           else (False, l)
      else (False, l))"

text \<open>The loop over the words: the text so far and the output.\<close>

definition orderwire_word :: "ale_word \<Rightarrow> string \<times> aqc_orderwire \<Rightarrow> string \<times> aqc_orderwire" where
  "orderwire_word w st =
     (case st of (message, o') \<Rightarrow>
        if word_type w = DATA then (message @ take 3 (address w), o')
        else if word_type w = CMD
        then (message, o'\<lparr>ow_calculated_crc := ucast (raw_payload w AND 0xFFFF), ow_crc_status := NOT_APPLICABLE\<rparr>)
        else (message, o'))"

definition trim_back :: "string \<Rightarrow> string" where
  "trim_back s = rev (dropWhile (\<lambda>c. c = CHR '' '' \<or> c = NUL) (rev s))"

definition parse_orderwire :: "ale_word list \<Rightarrow> aqc_orderwire \<Rightarrow> bool \<times> aqc_orderwire" where
  "parse_orderwire words o' =
     (if length words < 1 then (False, o')
      else case fold orderwire_word words ([], o') of (message, o'') \<Rightarrow>
        let message = trim_back message
        in (message \<noteq> [], o''\<lparr>ow_message := message, ow_timestamp_ms := timestamp_ms (words ! 0)\<rparr>))"

section \<open>Names\<close>

definition TRAFFIC_CLASS_NAMES :: "string list" where
  "TRAFFIC_CLASS_NAMES = [''CLEAR_VOICE'', ''DIGITAL_VOICE'', ''HFD_VOICE'', ''RESERVED_3'', ''SECURE_DIGITAL_VOICE'',
     ''RESERVED_5'', ''RESERVED_6'', ''RESERVED_7'', ''ALE_MSG'', ''PSK_MSG'', ''TONE_39_MSG'', ''HF_EMAIL'',
     ''KY100_ACTIVE'', ''RESERVED_13'', ''RESERVED_14'', ''RESERVED_15'']"

definition TRANSACTION_CODE_NAMES :: "string list" where
  "TRANSACTION_CODE_NAMES = [''RESERVED_0'', ''MS_141A'', ''ACK_LAST'', ''NAK_LAST'', ''TERMINATE'', ''OP_ACKNAK'',
     ''AQC_CMD'', ''RESERVED_7'']"

definition traffic_class_name :: "traffic_class \<Rightarrow> string" where
  "traffic_class_name tc = the (map_of (zip traffic_classes TRAFFIC_CLASS_NAMES) tc)"

definition transaction_code_name :: "transaction_code \<Rightarrow> string" where
  "transaction_code_name code = the (map_of (zip transaction_codes TRANSACTION_CODE_NAMES) code)"

section \<open>Checks\<close>

definition crc8_shift :: "u8 \<Rightarrow> u8" where
  "crc8_shift crc = (if crc AND 0x80 \<noteq> 0 then push_bit 1 crc XOR 0x07 else push_bit 1 crc)"

definition calculate_crc8 :: "byte list \<Rightarrow> u8" where
  "calculate_crc8 data = fold (\<lambda>b crc. (crc8_shift ^^ 8) (crc XOR b)) data 0"

definition crc16_shift :: "u16 \<Rightarrow> u16" where
  "crc16_shift crc = (if crc AND 0x8000 \<noteq> 0 then push_bit 1 crc XOR 0x1021 else push_bit 1 crc)"

definition crc16_byte :: "byte \<Rightarrow> u16 \<Rightarrow> u16" where
  "crc16_byte b crc = (crc16_shift ^^ 8) (crc XOR push_bit 8 (ucast b))"

definition calculate_crc16 :: "byte list \<Rightarrow> u16" where
  "calculate_crc16 data = fold crc16_byte data 0xFFFF"

definition validate_crc8 :: "byte list \<Rightarrow> bool" where
  "validate_crc8 data =
     (if length data < 1 then False else data ! (length data - 1) = calculate_crc8 (take (length data - 1) data))"

definition validate_crc16 :: "byte list \<Rightarrow> bool" where
  "validate_crc16 data =
     (if length data < 2 then False
      else push_bit 8 (ucast (data ! (length data - 2))) OR ucast (data ! (length data - 1)) =
        calculate_crc16 (take (length data - 2) data))"

section \<open>Slots\<close>

definition DWELL_TD5_MS :: u32 where "DWELL_TD5_MS = 200"
definition DWELL_TD2_MS :: u32 where "DWELL_TD2_MS = 500"
definition SLOT_DURATION_MS :: u32 where "SLOT_DURATION_MS = DWELL_TD5_MS"
definition NUM_SLOTS :: u8 where "NUM_SLOTS = 8"

definition calculate_slot_time_dwell :: "u8 \<Rightarrow> u32 \<Rightarrow> u32 \<Rightarrow> u32" where
  "calculate_slot_time_dwell slot base dwell =
     (let slot = (if slot \<ge> NUM_SLOTS then NUM_SLOTS - 1 else slot);
          effective = (if dwell > 0 then dwell else SLOT_DURATION_MS)
      in base + ucast slot * effective)"

definition calculate_slot_time :: "u8 \<Rightarrow> u32 \<Rightarrow> u32" where
  "calculate_slot_time slot base = calculate_slot_time_dwell slot base SLOT_DURATION_MS"

definition is_valid_dwell_rate :: "u32 \<Rightarrow> bool" where
  "is_valid_dwell_rate dwell \<longleftrightarrow> dwell = DWELL_TD5_MS \<or> dwell = DWELL_TD2_MS"

text \<open>Characters are signed: the conversion to 32 bits extends the sign.\<close>

definition assign_slot :: "string \<Rightarrow> u8" where
  "assign_slot addr = ucast (fold (\<lambda>ch h. h + scast (of_char ch :: u8)) addr (0 :: u32) mod ucast NUM_SLOTS)"

section \<open>The checks are remainders\<close>

lemma crc16_byte_step:
  "crc16_byte b r = (crc_step 0x1021 ^^ 8) (r XOR push_bit (LENGTH(16) - 8) (ucast b))"
proof -
  have "crc16_shift = crc_step 0x1021"
  proof
    fix r :: u16
    have "(0x8000 :: u16) = push_bit 15 1" by simp
    then have "r AND 0x8000 \<noteq> 0 \<longleftrightarrow> bit r 15" by (simp only: push_bit_of_1 and_exp_eq_0_iff_not_bit) simp
    then show "crc16_shift r = crc_step 0x1021 r" by (simp add: crc16_shift_def crc_step_def)
  qed
  then show ?thesis by (simp add: crc16_byte_def)
qed

lemma crc8_byte_step:
  "(crc8_shift ^^ 8) (r XOR b) = (crc_step 0x07 ^^ 8) (r XOR push_bit (LENGTH(8) - 8) (ucast b))"
proof -
  have "crc8_shift = crc_step 0x07"
  proof
    fix r :: u8
    have "(0x80 :: u8) = push_bit 7 1" by simp
    then have "r AND 0x80 \<noteq> 0 \<longleftrightarrow> bit r 7" by (simp only: push_bit_of_1 and_exp_eq_0_iff_not_bit) simp
    then show "crc8_shift r = crc_step 0x07 r" by (simp add: crc8_shift_def crc_step_def)
  qed
  then show ?thesis by simp
qed

lemma calculate_crc8_remainder:
  "msb_bits 8 (calculate_crc8 data) =
    remainder (msb_bits 8 (0x07 :: u8)) (concat (map byte_bits data) @ replicate 8 False)"
proof -
  have "msb_bits LENGTH(8) (fold (\<lambda>b r. (crc8_shift ^^ 8) (r XOR b)) data 0) =
    remainder (msb_bits LENGTH(8) (0x07 :: u8))
      (xor_front (concat (map byte_bits data) @ replicate LENGTH(8) False) (msb_bits LENGTH(8) (0 :: u8)))"
    by (rule crc_is_remainder) (simp_all add: crc8_byte_step)
  moreover have "xor_front xs (msb_bits 8 (0 :: u8)) = xs" for xs
    by (rule nth_equalityI) (auto simp: xor_front_nth msb_bits_def)
  ultimately show ?thesis by (simp add: calculate_crc8_def)
qed

text \<open>
  The 16-bit check is the one of the textbook: its bits are the remainder of the message polynomial
  times \<open>x ^ 16\<close>, the first sixteen bits of the message inverted, by \<open>x ^ 16 + x ^ 12 + x ^ 5 + 1\<close>.
\<close>

theorem calculate_crc16_remainder:
  "msb_bits 16 (calculate_crc16 data) =
    remainder (msb_bits 16 (0x1021 :: u16))
      (xor_front (concat (map byte_bits data) @ replicate 16 False) (replicate 16 True))"
proof -
  have "msb_bits LENGTH(16) (fold crc16_byte data 0xFFFF) =
    remainder (msb_bits LENGTH(16) (0x1021 :: u16))
      (xor_front (concat (map byte_bits data) @ replicate LENGTH(16) False) (msb_bits LENGTH(16) (0xFFFF :: u16)))"
    by (rule crc_is_remainder) (simp_all add: crc16_byte_step)
  moreover have "msb_bits 16 (0xFFFF :: u16) = replicate 16 True" by code_simp
  ultimately show ?thesis by (simp add: calculate_crc16_def)
qed

section \<open>Compact words and triples of characters\<close>

lemma mask_5: "(0x1F :: 'a::len word) = mask 5"
  by (simp add: mask_eq_decr_exp)

lemma u8_nat: "k < 256 \<Longrightarrow> unat (of_nat k :: u8) = k"
  by (simp add: unsigned_of_nat take_bit_nat_eq_self)

lemma char_to_aqc32_inverse:
  assumes "char_to_aqc32 c \<noteq> 0xFF"
  shows "aqc32_to_char (char_to_aqc32 c) = c \<and> char_to_aqc32 c AND 0x1F = char_to_aqc32 c"
proof -
  obtain k where k: "k < 32" "char_to_aqc32 c = of_nat k" "of_char c = (if k \<le> 25 then 65 + k else 48 + (k - 26))"
  proof (cases "65 \<le> (of_char c :: nat) \<and> (of_char c :: nat) \<le> 90")
    case True
    then show ?thesis by (intro that [of "of_char c - 65"]) (auto simp: char_to_aqc32_def)
  next
    case False
    then show ?thesis using assms
      by (intro that [of "26 + (of_char c - 48)"]) (auto simp: char_to_aqc32_def split: if_splits)
  qed
  have u: "unat (of_nat k :: u8) = k" using k(1) by (simp add: u8_nat)
  have "char_of (of_char c :: nat) = c" by simp
  then have "aqc32_to_char (of_nat k) = c"
    using k by (auto simp: aqc32_to_char_def word_le_nat_alt u split: if_splits)
  moreover have "(of_nat k :: u8) AND mask 5 = of_nat k"
    using k(1) by (simp add: word_unat_eq_iff unat_and_mask u)
  ultimately show ?thesis by (simp only: k(2) mask_5)
qed

lemma aqc32_to_char_inverse:
  assumes "code AND 0x1F = code"
  shows "char_to_aqc32 (aqc32_to_char code) = code \<and> code \<noteq> 0xFF \<and> aqc32_to_char code \<noteq> NUL"
proof -
  have "unat (code AND mask 5) < 2 ^ 5" by (rule unat_and_mask_less)
  then have u: "unat code < 32" using assms by (simp add: mask_5)
  define n where "n = (if unat code \<le> 25 then 65 + unat code else 48 + (unat code - 26))"
  have c: "aqc32_to_char code = char_of n"
    using u by (simp add: aqc32_to_char_def word_le_nat_alt n_def)
  have o: "of_char (char_of n :: char) = n" using u by (simp add: n_def)
  have "char_to_aqc32 (char_of n) = code"
    unfolding char_to_aqc32_def o using u by (auto simp: n_def)
  moreover have "char_of n \<noteq> NUL"
  proof
    assume "char_of n = NUL"
    then have "of_char (char_of n :: char) = (of_char NUL :: nat)" by (simp only:)
    then show False unfolding o by (simp add: n_def split: if_splits)
  qed
  moreover have "code \<noteq> 0xFF" using u by auto
  ultimately show ?thesis by (simp add: c)
qed

lemma aqc_encode_fields:
  "char1 (aqc_encode f a b c) = a AND 0x1F" "char2 (aqc_encode f a b c) = b AND 0x1F"
  "char3 (aqc_encode f a b c) = c AND 0x1F" "type_flag (aqc_encode f a b c) = f"
proof -
  define x :: u16 where "x = (if f then 1 else 0)"
  have x: "bit x n \<longleftrightarrow> f \<and> n = 0" for n by (simp add: x_def bit_1_iff)
  note bits = bit_ucast_iff bit_and_iff bit_drop_bit_eq bit_or_iff bit_push_bit_iff bit_mask_iff x
  show "char1 (aqc_encode f a b c) = a AND 0x1F"
    unfolding char1_def aqc_encode_def mask_5 aqc_word.select_convs x_def [symmetric]
    by (rule bit_word_eqI) (auto simp: bits)
  show "char2 (aqc_encode f a b c) = b AND 0x1F"
    unfolding char2_def aqc_encode_def mask_5 aqc_word.select_convs x_def [symmetric]
    by (rule bit_word_eqI) (auto simp: bits)
  show "char3 (aqc_encode f a b c) = c AND 0x1F"
    unfolding char3_def aqc_encode_def mask_5 aqc_word.select_convs x_def [symmetric]
    by (rule bit_word_eqI) (auto simp: bits)
  show "type_flag (aqc_encode f a b c) = f"
    unfolding type_flag_def aqc_encode_def drop_bit_and_1 mask_5 aqc_word.select_convs x_def [symmetric]
    by (simp add: bits)
qed

lemma aqc_encode_of_fields: "aqc_encode (type_flag w) (char1 w) (char2 w) (char3 w) = w"
proof -
  define x :: u16 where "x = (if type_flag w then 1 else 0)"
  have x: "bit x n \<longleftrightarrow> bit (aqc_raw w) 15 \<and> n = 0" for n
    by (simp add: x_def type_flag_def drop_bit_and_1 bit_1_iff)
  have "aqc_raw (aqc_encode (type_flag w) (char1 w) (char2 w) (char3 w)) = aqc_raw w"
  proof (rule bit_word_eqI)
    fix n assume n: "n < LENGTH(16)"
    note bits = bit_ucast_iff bit_and_iff bit_drop_bit_eq bit_or_iff bit_push_bit_iff bit_mask_iff x o_apply
    consider "n < 5" | "5 \<le> n" "n < 10" | "10 \<le> n" "n < 15" | "n = 15" using n by fastforce
    then show "bit (aqc_raw (aqc_encode (type_flag w) (char1 w) (char2 w) (char3 w))) n = bit (aqc_raw w) n"
      unfolding aqc_encode_def char1_def char2_def char3_def mask_5 aqc_word.select_convs x_def [symmetric] bits
      by cases (use n in \<open>simp_all add: less_diff_conv2\<close>)
  qed
  then show ?thesis by (cases w) (simp add: aqc_encode_def)
qed

lemma from_chars_iff:
  "from_chars control a b c = Some w \<longleftrightarrow> to_chars w = (True, a, b, c) \<and> type_flag w = control"
proof
  assume f: "from_chars control a b c = Some w"
  then have w: "w = aqc_encode control (char_to_aqc32 a) (char_to_aqc32 b) (char_to_aqc32 c)"
    and v: "char_to_aqc32 a \<noteq> 0xFF" "char_to_aqc32 b \<noteq> 0xFF" "char_to_aqc32 c \<noteq> 0xFF"
    by (auto simp: from_chars_def split: if_splits)
  have "a \<noteq> NUL" "b \<noteq> NUL" "c \<noteq> NUL" using v by (auto simp: char_to_aqc32_def)
  then show "to_chars w = (True, a, b, c) \<and> type_flag w = control"
    using v [THEN char_to_aqc32_inverse] by (simp add: w to_chars_def aqc_encode_fields)
next
  assume t: "to_chars w = (True, a, b, c) \<and> type_flag w = control"
  have m: "x AND 0x1F AND 0x1F = x AND 0x1F" for x :: u8 by (simp add: and.assoc)
  have "char1 w AND 0x1F = char1 w" "char2 w AND 0x1F = char2 w" "char3 w AND 0x1F = char3 w"
    unfolding char1_def char2_def char3_def mask_5
    by (rule bit_word_eqI, auto simp: bit_ucast_iff bit_and_iff bit_mask_iff)+
  with t show "from_chars control a b c = Some w"
    using aqc_encode_of_fields [of w] by (auto simp: to_chars_def from_chars_def Let_def dest!: aqc32_to_char_inverse)
qed

text \<open>The AQC-32 characters in the order of their codes.\<close>

definition AQC32_CHARS :: string where
  "AQC32_CHARS = ''ABCDEFGHIJKLMNOPQRSTUVWXYZ012345''"

lemma aqc32_alphabet:
  assumes "n < 32"
  shows "aqc32_to_char (of_nat n) = AQC32_CHARS ! n"
proof -
  have "\<forall>k\<in>set [0..<32]. aqc32_to_char (of_nat k) = AQC32_CHARS ! k" by code_simp
  then show ?thesis using assms by simp
qed

lemma aqc32_code: "char_to_aqc32 c \<noteq> 0xFF \<longleftrightarrow> c \<in> set AQC32_CHARS"
proof
  assume c: "char_to_aqc32 c \<noteq> 0xFF"
  let ?k = "unat (char_to_aqc32 c)"
  note inv = char_to_aqc32_inverse [OF c]
  have "unat (char_to_aqc32 c AND mask 5) < 2 ^ 5" by (rule unat_and_mask_less)
  then have k: "?k < 32" using inv by (simp add: mask_5)
  have "aqc32_to_char (of_nat ?k) = c" using inv by simp
  then have "AQC32_CHARS ! ?k = c" using aqc32_alphabet [OF k] by simp
  moreover have "?k < length AQC32_CHARS" using k by (simp add: AQC32_CHARS_def)
  ultimately show "c \<in> set AQC32_CHARS" by (metis nth_mem)
next
  have "\<forall>c\<in>set AQC32_CHARS. char_to_aqc32 c \<noteq> 0xFF" by code_simp
  then show "c \<in> set AQC32_CHARS \<Longrightarrow> char_to_aqc32 c \<noteq> 0xFF" by blast
qed

lemma aqc_fields:
  "unat (char1 w) = unat (aqc_raw w) div 1024 mod 32" "unat (char2 w) = unat (aqc_raw w) div 32 mod 32"
  "unat (char3 w) = unat (aqc_raw w) mod 32"
proof -
  have u: "unat (ucast (x AND mask 5) :: u8) = unat x mod 32" for x :: u16
  proof -
    have "unat (x AND mask 5) < 2 ^ 5" by (rule unat_and_mask_less)
    then have "unat (ucast (x AND mask 5) :: u8) = unat (x AND mask 5)"
      by (simp add: unsigned_ucast_eq take_bit_nat_eq_self)
    then show ?thesis by (simp add: unat_and_mask)
  qed
  show "unat (char1 w) = unat (aqc_raw w) div 1024 mod 32" "unat (char2 w) = unat (aqc_raw w) div 32 mod 32"
    "unat (char3 w) = unat (aqc_raw w) mod 32"
    unfolding char1_def char2_def char3_def mask_5 u by (simp_all add: drop_bit_eq_div unat_div)
qed

lemma to_chars_alphabet:
  "to_chars w = (True, AQC32_CHARS ! (unat (aqc_raw w) div 1024 mod 32), AQC32_CHARS ! (unat (aqc_raw w) div 32 mod 32),
     AQC32_CHARS ! (unat (aqc_raw w) mod 32))"
proof -
  have c: "aqc32_to_char x = AQC32_CHARS ! unat x" if "unat x < 32" for x
    using aqc32_alphabet [OF that] by simp
  have "\<forall>c\<in>set AQC32_CHARS. c \<noteq> NUL" by (simp add: AQC32_CHARS_def)
  moreover have "length AQC32_CHARS = 32" by (simp add: AQC32_CHARS_def)
  ultimately have ne: "AQC32_CHARS ! n \<noteq> NUL" if "n < 32" for n using that by simp
  show ?thesis
    by (simp add: to_chars_def Let_def c aqc_fields ne)
qed

text \<open>
  C36. Compact words and triples of AQC-32 characters with a type flag are the same thing. Every 16-bit word reads back
  as three characters, those its three fields of five bits number among the letters and the digits 0 to 5; three
  characters make a word exactly when all of them are among these; and the word they make is the one that reads back
  as them.
\<close>

theorem aqc_words_are_triples:
  "to_chars w = (True, AQC32_CHARS ! (unat (aqc_raw w) div 1024 mod 32), AQC32_CHARS ! (unat (aqc_raw w) div 32 mod 32),
     AQC32_CHARS ! (unat (aqc_raw w) mod 32)) \<and>
   (from_chars control a b c \<noteq> None \<longleftrightarrow> {a, b, c} \<subseteq> set AQC32_CHARS) \<and>
   (from_chars control a b c = Some w \<longleftrightarrow> to_chars w = (True, a, b, c) \<and> type_flag w = control)"
proof (intro conjI)
  show "from_chars control a b c \<noteq> None \<longleftrightarrow> {a, b, c} \<subseteq> set AQC32_CHARS"
    by (simp add: from_chars_def aqc32_code [symmetric])
qed (rule to_chars_alphabet, rule from_chars_iff)

section \<open>Plain words taken for AQC words\<close>

text \<open>
  The test for the AQC fixed bit looks at a bit that plain words use for their first character: every
  plain address word whose first character has an odd second bit (B, C, F, G, J, ...) is taken for an AQC
  control word, and its characters for data elements.
\<close>

theorem plain_word_taken_for_aqc:
  assumes "t \<noteq> UNKNOWN" "valid (make_word t [a, b, c])"
  shows "is_aqc_format (make_word t [a, b, c]) \<longleftrightarrow> bit (of_char a :: u8) 1"
proof -
  note t = assms(1)
  have v: "list_all (valid_char t) [a, b, c]"
    using assms(2) make_word_eq [OF t, of "[a, b, c]"] by (auto simp: ALEWord_def split: if_splits)
  have p: "raw_payload (make_word t [a, b, c]) =
      (push_bit 14 (of_char a AND mask 7) OR push_bit 7 (of_char b AND mask 7) OR (of_char c AND mask 7)) AND mask 21"
    using v make_word_eq [OF t, of "[a, b, c]"] by (simp add: encode_ascii_def mask_7 mask_21)
  have "bit (raw_payload (make_word t [a, b, c])) 15 \<longleftrightarrow> bit (of_char a :: u32) 1"
    unfolding p by (simp add: bit_and_iff bit_or_iff bit_push_bit_iff bit_mask_iff)
  also have "\<dots> \<longleftrightarrow> bit (of_char a :: u8) 1"
    by (cases a) (simp add: of_char_def bit_horner_sum_bit_word_iff)
  finally show ?thesis by (simp add: is_aqc_format_def payload_has_aqc_fixed_bit_def drop_bit_and_1)
qed

theorem plain_word_taken_for_aqc_witness:
  "is_aqc_format (make_word TO ''BOB'') \<longleftrightarrow> bit (of_char (CHR ''B'') :: u8) 1"
  by (rule plain_word_taken_for_aqc)
    (simp_all add: make_word_eq valid_char_def uses_basic38_def is_valid_basic38_char_iff)

end
