(* ===== verification/Freq_Select.thy ===== *)
theory Freq_Select
  imports Channel_Manager Sm_State Decimal
begin

text \<open>
  Enhanced frequency selection: the words of a CMD 'f' sequence
  (\<open>src/Protocol/Control/ale_freq_select.cpp\<close>) and the negotiation of a better channel on a link
  (\<open>src/App/freq_select_manager.cpp\<close>). The manager asks the state machine and the channel ranking, and
  acts through callbacks: the answers are a record \<open>efs_env\<close>, the actions the trace \<open>efs_outs\<close>.
  Scores are rationals.
\<close>

section \<open>Words\<close>

definition encode_freq_data_word :: "u32 \<Rightarrow> u32" where
  "encode_freq_data_word freq_hz =
     (let khz = freq_hz div 1000
      in push_bit 16 ((khz div 10000) mod 10) OR push_bit 12 ((khz div 1000) mod 10) OR
         push_bit 8 ((khz div 100) mod 10) OR push_bit 4 ((khz div 10) mod 10) OR khz mod 10)"

definition decode_freq_data_word :: "u32 \<Rightarrow> u32" where
  "decode_freq_data_word raw21 =
     (let khz = (drop_bit 16 raw21 AND 0xF) * 10000 + (drop_bit 12 raw21 AND 0xF) * 1000 +
                (drop_bit 8 raw21 AND 0xF) * 100 + (drop_bit 4 raw21 AND 0xF) * 10 + (raw21 AND 0xF)
      in khz * 1000)"

definition encode_freq_select_cmd_word :: u32 where
  "encode_freq_select_cmd_word = push_bit 14 0x66"

definition build_freq_select_sequence :: "u32 \<Rightarrow> ale_word list" where
  "build_freq_select_sequence freq_hz =
     [ALEWord\<lparr>word_type := CMD, raw_payload := encode_freq_select_cmd_word,
        address := [CHR ''f'', CHR '' '', CHR '' '', NUL], valid := True\<rparr>,
      ALEWord\<lparr>word_type := DATA, raw_payload := encode_freq_data_word freq_hz, valid := True\<rparr>]"

definition cmd_char_code :: "ale_word \<Rightarrow> u8" where
  "cmd_char_code w = ucast (drop_bit 14 (raw_payload w) AND 0x7F)"

section \<open>The manager\<close>

datatype efs_phase = EFS_IDLE | PROPOSED | EXECUTING

datatype efs_output = Efs_Status string | Relink string | Terminate_Link | Linked_Orderwire "ale_word list"

record efs =
  phase :: efs_phase
  proposed_hz :: u32
  efs_timeout_ms :: u32
  cooldown_ms :: u32
  efs_peer :: string
  pending_cmd_rx :: bool
  efs_outs :: "efs_output list"

record efs_env =
  sm_state :: ale_state
  sm_to_address :: string
  sm_caller_address :: string
  sm_channel :: "channel option"
  ranked :: "string \<Rightarrow> (u32 \<times> rat) list"
  self_addr :: string
  efs_is_self :: "string \<Rightarrow> bool"

definition FreqSelectManager :: efs where
  "FreqSelectManager = \<lparr>phase = EFS_IDLE, proposed_hz = 0, efs_timeout_ms = 0, cooldown_ms = 0, efs_peer = [],
     pending_cmd_rx = False, efs_outs = []\<rparr>"

definition efs_emit :: "efs_output \<Rightarrow> efs \<Rightarrow> efs" where
  "efs_emit x s = s\<lparr>efs_outs := efs_outs s @ [x]\<rparr>"

text \<open>A dash, in UTF-8.\<close>

definition em_dash :: string where
  "em_dash = [CHR 0xE2, CHR 0x80, CHR 0x94]"

definition current_peer :: "efs_env \<Rightarrow> string" where
  "current_peer env = (if sm_to_address env \<noteq> [] then sm_to_address env else sm_caller_address env)"

definition show_khz :: "u32 \<Rightarrow> string" where
  "show_khz hz = show_nat (unat (hz div 1000))"

text \<open>The conversion of a score to \<open>int\<close> cuts the fraction off.\<close>

definition show_score :: "rat \<Rightarrow> string" where
  "show_score r = show_int (if 0 \<le> r then floor r else ceiling r)"

definition send_orderwire_efs :: "u32 \<Rightarrow> efs \<Rightarrow> efs" where
  "send_orderwire_efs freq_hz s = efs_emit (Linked_Orderwire (build_freq_select_sequence freq_hz)) s"

text \<open>The score of the first entry of a frequency, and of the last one; zero without any.\<close>

definition first_score :: "u32 \<Rightarrow> (u32 \<times> rat) list \<Rightarrow> rat" where
  "first_score hz rs = (case find (\<lambda>(f, _). f = hz) rs of Some (_, sc) \<Rightarrow> sc | None \<Rightarrow> 0)"

definition last_score :: "u32 \<Rightarrow> (u32 \<times> rat) list \<Rightarrow> rat" where
  "last_score hz rs = fold (\<lambda>(f, sc) acc. if f = hz then sc else acc) rs 0"

definition efs_evaluate :: "efs_env \<Rightarrow> u32 \<Rightarrow> u32 \<Rightarrow> rat \<Rightarrow> efs \<Rightarrow> efs" where
  "efs_evaluate env now_ms ber_settle_ms threshold s =
     (if ber_settle_ms = 0 \<or> now_ms - ber_settle_ms < Tdrw_ms * 4 then s
      else if cooldown_ms s > 0 \<and> now_ms < cooldown_ms s then s
      else let peer = current_peer env in
        if peer = [] \<or> efs_is_self env peer then s
        else case sm_channel env of
          None \<Rightarrow> s
        | Some ch \<Rightarrow>
            if rx_frequency_hz ch = 0 then s
            else case ranked env peer of
              [] \<Rightarrow> s
            | (best_hz, best_score) # _ \<Rightarrow>
                let cur_score = first_score (rx_frequency_hz ch) (ranked env peer)
                in if best_hz \<noteq> rx_frequency_hz ch \<and> best_score > cur_score + threshold
                   then send_orderwire_efs best_hz
                          (efs_emit (Efs_Status (''EFS: proposing '' @ show_khz best_hz @ '' kHz to '' @ peer @
                              '' (score '' @ show_score best_score @ '' > cur '' @ show_score cur_score @ '')''))
                            (s\<lparr>efs_peer := peer, proposed_hz := best_hz, phase := PROPOSED,
                               efs_timeout_ms := now_ms + 3000\<rparr>))
                   else s)"

definition efs_tick :: "u32 \<Rightarrow> efs \<Rightarrow> efs" where
  "efs_tick now_ms s =
     (if phase s = PROPOSED \<and> now_ms > efs_timeout_ms s
      then efs_emit (Efs_Status (''EFS: no response from peer '' @ em_dash @ '' staying on current channel'')) (s\<lparr>phase := EFS_IDLE\<rparr>)
      else s)"

definition handle_response :: "u32 \<Rightarrow> u32 \<Rightarrow> efs \<Rightarrow> efs" where
  "handle_response freq_hz now_ms s =
     (if phase s \<noteq> PROPOSED then s
      else if freq_hz > 0 \<and> freq_hz = proposed_hz s
      then efs_emit Terminate_Link (efs_emit (Relink (efs_peer s))
             (efs_emit (Efs_Status (''EFS: peer accepted '' @ show_khz freq_hz @ '' kHz '' @ em_dash @ '' relinking''))
               (s\<lparr>phase := EXECUTING\<rparr>)))
      else if freq_hz = 0
      then efs_emit (Efs_Status (''EFS: rejected by peer '' @ em_dash @ '' staying on current channel''))
             (s\<lparr>phase := EFS_IDLE, cooldown_ms := now_ms + 60000\<rparr>)
      else s)"

text \<open>The collision rule: \<open>None\<close> when we keep our own proposal.\<close>

definition defer_proposal :: "efs_env \<Rightarrow> efs \<Rightarrow> efs option" where
  "defer_proposal env s =
     (if phase s = PROPOSED
      then if string_less (self_addr env) (efs_peer s) then Some (s\<lparr>phase := EFS_IDLE, proposed_hz := 0\<rparr>) else None
      else Some s)"

definition handle_proposal :: "efs_env \<Rightarrow> u32 \<Rightarrow> string \<Rightarrow> rat \<Rightarrow> efs \<Rightarrow> efs" where
  "handle_proposal env freq_hz peer threshold s =
     (if freq_hz = 0 then s
      else case sm_channel env of
        None \<Rightarrow> s
      | Some ch \<Rightarrow>
          if rx_frequency_hz ch = 0 \<or> peer = [] then s
          else case defer_proposal env s of
            None \<Rightarrow> s
          | Some s \<Rightarrow>
              let cur_score = last_score (rx_frequency_hz ch) (ranked env peer);
                  proposed_score = last_score freq_hz (ranked env peer)
              in if proposed_score > cur_score + threshold
                 then send_orderwire_efs freq_hz
                        (efs_emit (Efs_Status (''EFS: accepting proposal for '' @ show_khz freq_hz @ '' kHz'')) s)
                 else send_orderwire_efs 0
                        (efs_emit (Efs_Status (''EFS: rejecting proposal for '' @ show_khz freq_hz @ '' kHz'')) s))"

definition efs_on_word :: "efs_env \<Rightarrow> ale_word \<Rightarrow> u32 \<Rightarrow> rat \<Rightarrow> efs \<Rightarrow> efs" where
  "efs_on_word env w now_ms threshold s =
     (if sm_state env \<noteq> LINKED then s
      else if word_type w = CMD \<and> cmd_char_code w = of_char (CHR ''f'') then s\<lparr>pending_cmd_rx := True\<rparr>
      else if pending_cmd_rx s then
        let s = s\<lparr>pending_cmd_rx := False\<rparr>
        in if word_type w = DATA then
             let freq_hz = decode_freq_data_word (raw_payload w); peer = current_peer env
             in if phase s = PROPOSED then handle_response freq_hz now_ms s
                else if peer \<noteq> [] \<and> \<not> efs_is_self env peer then handle_proposal env freq_hz peer threshold s
                else s
           else s
      else s)"

definition reset_pending_cmd :: "efs \<Rightarrow> efs" where
  "reset_pending_cmd s = s\<lparr>pending_cmd_rx := False\<rparr>"

definition efs_is_idle :: "efs \<Rightarrow> bool" where
  "efs_is_idle s \<longleftrightarrow> phase s = EFS_IDLE"

section \<open>The calls the controller makes\<close>

text \<open>The controller evaluates only when the manager is idle (\<open>ALEController::tick_relink\<close>).\<close>

datatype efs_op =
  Efs_Evaluate efs_env u32 u32 rat | Efs_Tick u32 | Efs_Word efs_env ale_word u32 rat | Efs_Reset_Pending

fun efs_step :: "efs \<Rightarrow> efs_op \<Rightarrow> efs" where
  "efs_step s (Efs_Evaluate env now settle threshold) =
     (if efs_is_idle s then efs_evaluate env now settle threshold s else s)"
| "efs_step s (Efs_Tick now) = efs_tick now s"
| "efs_step s (Efs_Word env w now threshold) = efs_on_word env w now threshold s"
| "efs_step s Efs_Reset_Pending = reset_pending_cmd s"

section \<open>Frequencies on the air\<close>






text \<open>Whatever arrives, the frequency read is a whole number of kilohertz.\<close>

lemma decode_freq_khz: "unat (decode_freq_data_word r) mod 1000 = 0"
proof -
  have b: "unat (x AND 0xF) \<le> 15" for x :: u32
  proof -
    have m: "(0xF :: u32) = mask 4" by (simp add: mask_eq_decr_exp)
    have "unat (x AND mask 4) < 2 ^ 4" by (rule unat_and_mask_less)
    then show ?thesis unfolding m by simp
  qed
  obtain a b' c d e where n: "unat (drop_bit 16 r AND 0xF) = a" "unat (drop_bit 12 r AND 0xF) = b'"
    "unat (drop_bit 8 r AND 0xF) = c" "unat (drop_bit 4 r AND 0xF) = d" "unat (r AND 0xF) = e" by blast
  have le: "a \<le> 15" "b' \<le> 15" "c \<le> 15" "d \<le> 15" "e \<le> 15" using n b by metis+
  have "decode_freq_data_word r = of_nat ((a * 10000 + b' * 1000 + c * 100 + d * 10 + e) * 1000)"
    unfolding decode_freq_data_word_def Let_def n [symmetric]
    by (simp only: of_nat_mult of_nat_add of_nat_numeral of_nat_unat ucast_id)
  moreover have "(a * 10000 + b' * 1000 + c * 100 + d * 10 + e) * 1000 < 2 ^ 32" using le by simp
  ultimately have "unat (decode_freq_data_word r) = (a * 10000 + b' * 1000 + c * 100 + d * 10 + e) * 1000"
    by (simp add: unsigned_of_nat take_bit_nat_eq_self del: of_nat_mult of_nat_add)
  then show ?thesis by simp
qed

section \<open>A negotiation\<close>

fun hear_sequence :: "efs_env \<Rightarrow> u32 \<Rightarrow> rat \<Rightarrow> ale_word list \<Rightarrow> efs \<Rightarrow> efs" where
  "hear_sequence env now threshold [] s = s"
| "hear_sequence env now threshold (w # ws) s = hear_sequence env now threshold ws (efs_on_word env w now threshold s)"

text \<open>What the two words of a sequence do to a station on a link that expects them.\<close>

lemma cmd_f_code: "cmd_char_code (ALEWord\<lparr>word_type := CMD, raw_payload := encode_freq_select_cmd_word,
    address := a, valid := True\<rparr>) = of_char (CHR ''f'')"
  by (simp add: cmd_char_code_def encode_freq_select_cmd_word_def)

lemma hear_frequency:
  assumes "sm_state env = LINKED"
  shows "hear_sequence env now th (build_freq_select_sequence f) s =
    (let s = s\<lparr>pending_cmd_rx := False\<rparr>; hz = decode_freq_data_word (encode_freq_data_word f)
     in if phase s = PROPOSED then handle_response hz now s
        else if current_peer env \<noteq> [] \<and> \<not> efs_is_self env (current_peer env)
        then handle_proposal env hz (current_peer env) th s
        else s)"
  using assms cmd_f_code by (simp add: build_freq_select_sequence_def efs_on_word_def Let_def)



definition negotiation_env :: efs_env where
  "negotiation_env = \<lparr>sm_state = LINKED, sm_to_address = ''BOB'', sm_caller_address = [],
     sm_channel = Some (Channel\<lparr>rx_frequency_hz := 7102000\<rparr>), ranked = (\<lambda>_. [(10145000, 25), (7102000, 12)]),
     self_addr = ''ALICE'', efs_is_self = (\<lambda>_. False)\<rparr>"


section \<open>Where it gets stuck\<close>

lemma executing_step: "phase s = EXECUTING \<Longrightarrow> phase (efs_step s x) = EXECUTING"
  by (cases x)
    (auto simp: efs_is_idle_def efs_tick_def efs_on_word_def Let_def handle_proposal_def defer_proposal_def
      send_orderwire_efs_def efs_emit_def reset_pending_cmd_def split: option.splits)

interpretation efs_stuck: event_machine efs_step "\<lambda>s. phase s = EXECUTING"
  by unfold_locales (rule executing_step)

text \<open>
  The first accepted proposal is the last: nothing ever leaves the phase EXECUTING, so after it, on
  every later link, whatever is called in whatever order, the manager is never idle again and the
  controller evaluates no channel any more.
\<close>

theorem executing_for_ever:
  assumes "phase s = PROPOSED" "0 < proposed_hz s"
  shows "\<not> efs_is_idle (foldl efs_step (handle_response (proposed_hz s) now s) ops)"
proof -
  have "phase (handle_response (proposed_hz s) now s) = EXECUTING"
    using assms by (simp add: handle_response_def efs_emit_def)
  then show ?thesis using efs_stuck.run_inv by (simp add: efs_is_idle_def)
qed

theorem executing_for_ever_witness:
  "\<not> efs_is_idle (foldl efs_step (handle_response 10145000 500
     (FreqSelectManager\<lparr>phase := PROPOSED, proposed_hz := 10145000\<rparr>)) [Efs_Tick 10000, Efs_Reset_Pending])"
  using executing_for_ever [of "FreqSelectManager\<lparr>phase := PROPOSED, proposed_hz := 10145000\<rparr>" 500
      "[Efs_Tick 10000, Efs_Reset_Pending]"]
  by simp

text \<open>
  Proposals of a channel that is not on a whole kilohertz never succeed: the frequency loses its last
  three digits on the air, and the proposer compares the echo with all of them.
\<close>

theorem sub_khz_never_accepted:
  assumes "phase s = PROPOSED" "unat (proposed_hz s) mod 1000 \<noteq> 0" "sm_state env = LINKED"
  shows "phase (hear_sequence env now th (build_freq_select_sequence f) s) \<noteq> EXECUTING"
  using assms decode_freq_khz [of "encode_freq_data_word f"]
  by (auto simp: hear_frequency Let_def handle_response_def efs_emit_def)

theorem sub_khz_never_accepted_witness:
  "phase (hear_sequence negotiation_env 100 3 (build_freq_select_sequence 7102500)
     (FreqSelectManager\<lparr>phase := PROPOSED, proposed_hz := 7102500\<rparr>)) \<noteq> EXECUTING"
  by (rule sub_khz_never_accepted) (simp_all add: negotiation_env_def)

text \<open>Two stations that propose to each other at the same time never come to the collision rule.\<close>

lemma collision_unanswered:
  assumes "phase s = PROPOSED" "sm_state env = LINKED" "decode_freq_data_word (encode_freq_data_word f) \<noteq> 0"
    and "decode_freq_data_word (encode_freq_data_word f) \<noteq> proposed_hz s"
  shows "hear_sequence env now th (build_freq_select_sequence f) s = s\<lparr>pending_cmd_rx := False\<rparr>"
  using assms by (simp add: hear_frequency Let_def handle_response_def)

end
