(* ===== verification/Sounding_Identity.thy ===== *)
theory Sounding_Identity
  imports Ale_Message Ale_Timing Decimal
begin

text \<open>
  \<open>include/App/sounding_identity_accumulator.h\<close> and \<open>src/App/sounding_identity_accumulator.cpp\<close>: the
  identity and the quality of a station heard sounding, put together from the repeats of its
  conclusion. The optional session is an option; the ordered map of a slot is a list with rising keys;
  floats are rationals.
\<close>

section \<open>Sessions\<close>

definition kMaxExtSlots :: nat where "kMaxExtSlots = 4"
definition kTdrwMs :: u32 where "kTdrwMs = Tdrw_ms"

record sounding_result =
  station :: string
  sr_frequency_hz :: u32
  snr_db :: rat
  ber :: rat
  sr_sinad_db :: rat
  twas_conclusion :: bool

record session =
  anchor :: string
  freq_hz :: u32
  twas :: bool
  slot_votes :: "(string \<times> u32) list list"
  next_slot :: nat
  cycle_open :: bool
  snr_sum :: rat
  ber_sum :: rat
  sinad_sum :: rat
  sess_word_count :: u32
  last_word_ms :: u32

definition expected_type_for_slot :: "nat \<Rightarrow> preamble_type" where
  "expected_type_for_slot slot = (if slot mod 2 = 1 then DATA else REP)"

definition fold_linear :: "ale_word \<Rightarrow> session \<Rightarrow> session" where
  "fold_linear w s =
     (let snr = (if valid w then of_nat (unat (unanimous_votes w)) / 48 * 31 else 0);
          errs = (if golay_uncorrectable w then 48 else of_nat (unat (48 - ucast (unanimous_votes w) :: u32)))
      in s\<lparr>snr_sum := snr_sum s + snr, ber_sum := ber_sum s + errs, sinad_sum := sinad_sum s + sinad_db w,
           sess_word_count := sess_word_count s + 1\<rparr>)"

definition open_session :: "ale_word \<Rightarrow> string \<Rightarrow> u32 \<Rightarrow> u32 \<Rightarrow> session" where
  "open_session w content hz now_ms =
     fold_linear w \<lparr>anchor = content, freq_hz = hz, twas = (word_type w = TWAS), slot_votes = replicate kMaxExtSlots [],
       next_slot = 1, cycle_open = True, snr_sum = 0, ber_sum = 0, sinad_sum = 0, sess_word_count = 0,
       last_word_ms = now_ms\<rparr>"

text \<open>\<open>map[key] += v\<close> in an ordered map.\<close>

fun add_votes :: "string \<Rightarrow> u32 \<Rightarrow> (string \<times> u32) list \<Rightarrow> (string \<times> u32) list" where
  "add_votes key v [] = [(key, v)]"
| "add_votes key v ((k, n) # kvs) =
     (if key = k then (k, n + v) # kvs
      else if string_less key k then (key, v) # (k, n) # kvs
      else (k, n) # add_votes key v kvs)"

definition heaviest :: "(string \<times> u32) list \<Rightarrow> string" where
  "heaviest kvs = fst (fold (\<lambda>(k, n) (best, weight). if n > weight then (k, n) else (best, weight)) kvs ([], 0))"

text \<open>The loop over the slots, which ends at the first empty one.\<close>

fun join_slots :: "(string \<times> u32) list list \<Rightarrow> string" where
  "join_slots [] = []"
| "join_slots (kvs # slots) = (if kvs = [] then [] else heaviest kvs @ join_slots slots)"

definition mean :: "rat \<Rightarrow> u32 \<Rightarrow> rat" where
  "mean acc n = (if (of_nat (unat n) :: rat) > 0 then acc / of_nat (unat n) else 0)"

definition build_result :: "session \<Rightarrow> sounding_result" where
  "build_result s =
     \<lparr>station = anchor s @ join_slots (slot_votes s), sr_frequency_hz = freq_hz s,
      snr_db = mean (snr_sum s) (sess_word_count s), ber = mean (ber_sum s) (sess_word_count s),
      sr_sinad_db = mean (sinad_sum s) (sess_word_count s), twas_conclusion = twas s\<rparr>"

section \<open>Operations\<close>

definition is_sounding_conclusion :: "ale_word \<Rightarrow> bool" where
  "is_sounding_conclusion w \<longleftrightarrow> valid w \<and> (word_type w = TIS \<or> word_type w = TWAS)"

definition nonempty_result :: "sounding_result \<Rightarrow> sounding_result option" where
  "nonempty_result r = (if station r = [] then None else Some r)"

definition assign_slot_word :: "ale_word \<Rightarrow> session \<Rightarrow> session" where
  "assign_slot_word w s =
     (if \<not> cycle_open s then s
      else if next_slot s > kMaxExtSlots then s
      else if valid w \<and> word_type w = expected_type_for_slot (next_slot s)
      then let i = next_slot s - 1; content = trim_ale_address (address w)
           in s\<lparr>slot_votes := (slot_votes s)[i := add_votes content (ucast (unanimous_votes w)) (slot_votes s ! i)],
                next_slot := next_slot s + 1\<rparr>
      else s\<lparr>cycle_open := False\<rparr>)"

definition sounding_on_word ::
  "ale_word \<Rightarrow> u32 \<Rightarrow> u32 \<Rightarrow> session option \<Rightarrow> sounding_result option \<times> session option" where
  "sounding_on_word w hz now_ms sess =
     (if is_sounding_conclusion w then
        let content = trim_ale_address (address w)
        in case sess of
             None \<Rightarrow> (None, Some (open_session w content hz now_ms))
           | Some s \<Rightarrow>
               if content = anchor s
               then (None, Some ((fold_linear w (s\<lparr>next_slot := 1, cycle_open := True\<rparr>))\<lparr>last_word_ms := now_ms\<rparr>))
               else (nonempty_result (build_result s), Some (open_session w content hz now_ms))
      else case sess of
             None \<Rightarrow> (None, None)
           | Some s \<Rightarrow> (None, Some (assign_slot_word w ((fold_linear w s)\<lparr>last_word_ms := now_ms\<rparr>))))"

definition sounding_timed_out :: "u32 \<Rightarrow> session option \<Rightarrow> bool" where
  "sounding_timed_out now_ms sess = (case sess of None \<Rightarrow> False | Some s \<Rightarrow> now_ms - last_word_ms s \<ge> kTdrwMs)"

definition sounding_finalize :: "session option \<Rightarrow> sounding_result option \<times> session option" where
  "sounding_finalize sess =
     (case sess of None \<Rightarrow> (None, None) | Some s \<Rightarrow> (nonempty_result (build_result s), None))"

section \<open>Votes of one station\<close>



lemma u8_le: "unat (v :: u8) \<le> 255"
proof -
  have "unat v < 2 ^ LENGTH(8)" by (rule unsigned_less)
  then show ?thesis by simp
qed

lemma u8_up: "unat (ucast (v :: u8) :: u32) = unat v"
  using u8_le [of v] by (simp add: unsigned_ucast_eq take_bit_nat_eq_self)




section \<open>Words of one station\<close>

fun hear_words :: "u32 \<Rightarrow> (ale_word \<times> u32) list \<Rightarrow> session option \<Rightarrow> sounding_result list \<times> session option" where
  "hear_words hz [] s = ([], s)"
| "hear_words hz ((w, t) # ws) s =
     (case sounding_on_word w hz t s of (r, s') \<Rightarrow>
       (case hear_words hz ws s' of (rs, s'') \<Rightarrow> (case r of None \<Rightarrow> rs | Some x \<Rightarrow> x # rs, s'')))"


lemma fold_linear_fields [simp]:
  "anchor (fold_linear w s) = anchor s" "freq_hz (fold_linear w s) = freq_hz s"
  "slot_votes (fold_linear w s) = slot_votes s" "next_slot (fold_linear w s) = next_slot s"
  "cycle_open (fold_linear w s) = cycle_open s"
  by (simp_all add: fold_linear_def Let_def)



section \<open>A sounding heard in repeats\<close>














text \<open>
  Words that are lost altogether, not even heard as invalid, make room for later ones: with the first two
  extension words missing the third takes the first slot, and a station is committed that does not exist.
\<close>

lemma lost_words_spliced:
  assumes "valid t1" "word_type t1 = TIS" "trim_ale_address (address t1) = ''ABC''"
    and "valid t2" "word_type t2 = DATA" "trim_ale_address (address t2) = ''JKL''" "0 < unanimous_votes t2"
  shows "\<exists>s r. hear_words hz [(t1, 0), (t2, 1176)] None = ([], Some s) \<and> fst (sounding_finalize (Some s)) = Some r \<and>
    station r = ''ABCJKL''"
proof -
  have "0 < (ucast (unanimous_votes t2) :: u32)"
    using assms(7) by (simp add: word_less_nat_alt u8_up)
  then show ?thesis
    using assms
    by (simp add: sounding_on_word_def is_sounding_conclusion_def open_session_def assign_slot_word_def kMaxExtSlots_def
        expected_type_for_slot_def numeral_eq_Suc sounding_finalize_def build_result_def nonempty_result_def heaviest_def)
qed

end
