(* ===== verification/Civil.thy ===== *)
theory Civil
  imports Prelude "HOL-Library.Signed_Division"
begin

text \<open>
  Civil dates and days since 1970, as \<open>days_from_civil\<close>, \<open>civil_from_days\<close>, \<open>is_leap_year\<close> and
  \<open>days_in_month\<close> of \<open>src/Protocol/Message/ale_gpr.cpp\<close> compute them. Divisions of signed integers cut
  towards zero; the unsigned intermediate values are shown to stay within the ranges the comments of
  the code give, so that they are plain integers here; the year is converted to 32 bits at the end.
\<close>

definition days_from_civil :: "int \<Rightarrow> int \<Rightarrow> int \<Rightarrow> int" where
  "days_from_civil y m d =
     (let y = y - (if m \<le> 2 then 1 else 0);
          era = (if y \<ge> 0 then y else y - 399) sdiv 400;
          yoe = y - era * 400;
          doy = (153 * (m + (if m > 2 then -3 else 9)) + 2) div 5 + d - 1;
          doe = yoe * 365 + yoe div 4 - yoe div 100 + doy
      in era * 146097 + doe - 719468)"

definition civil_from_days :: "int \<Rightarrow> int \<times> int \<times> int" where
  "civil_from_days z =
     (let z = z + 719468;
          era = (if z \<ge> 0 then z else z - 146096) sdiv 146097;
          doe = z - era * 146097;
          yoe = (doe - doe div 1460 + doe div 36524 - doe div 146096) div 365;
          yi = yoe + era * 400;
          doy = doe - (365 * yoe + yoe div 4 - yoe div 100);
          mp = (5 * doy + 2) div 153;
          d = doy - (153 * mp + 2) div 5 + 1;
          m = mp + (if mp < 10 then 3 else -9)
      in (signed_take_bit 31 (yi + (if m \<le> 2 then 1 else 0)), m, d))"

definition is_leap_year :: "int \<Rightarrow> bool" where
  "is_leap_year y \<longleftrightarrow> y mod 4 = 0 \<and> y mod 100 \<noteq> 0 \<or> y mod 400 = 0"

definition days_in_month :: "int \<Rightarrow> int \<Rightarrow> int" where
  "days_in_month y m =
     (if m < 1 \<or> m > 12 then 0
      else if m = 2 \<and> is_leap_year y then 29
      else [31, 28, 31, 30, 31, 30, 31, 31, 30, 31, 30, 31] ! nat (m - 1))"

section \<open>Divisions\<close>

lemma sdiv_floor:
  fixes z n :: int
  assumes "0 < n" "k = n - 1"
  shows "(if z \<ge> 0 then z else z - k) sdiv n = z div n"
proof (cases "z \<ge> 0")
  case True
  then show ?thesis using assms by (cases "z = 0") (simp_all add: signed_divide_int_def)
next
  case False
  have "(z - (n - 1)) sdiv n = - ((- z + (n - 1)) div n)"
    using False assms(1) by (simp add: signed_divide_int_def)
  also have "(- z + (n - 1)) div n = - (z div n)"
  proof -
    have "- z + (n - 1) = n * (- (z div n)) + (n - 1 - z mod n)"
      by (simp add: algebra_simps minus_mult_div_eq_mod [symmetric])
    moreover have "0 \<le> n - 1 - z mod n" "n - 1 - z mod n < n"
      using assms pos_mod_bound [of n z] pos_mod_sign [of n z] by linarith+
    ultimately show ?thesis by (simp add: div_mult_self4 int_div_pos_eq)
  qed
  finally show ?thesis using False assms(2) by simp
qed

text \<open>Cutting a number up to \<open>k * n\<close> into parts of \<open>n\<close>, the last one with one more.\<close>

lemma parts:
  fixes x n k :: int
  assumes "0 \<le> x" "x \<le> k * n" "0 < n" "0 < k"
  shows "\<exists>c. 0 \<le> c \<and> c \<le> k - 1 \<and> 0 \<le> x - n * c \<and> x - n * c \<le> n \<and> (x - n * c = n \<longrightarrow> x = k * n \<and> c = k - 1)"
proof (cases "x = k * n")
  case True
  then show ?thesis using assms by (intro exI [of _ "k - 1"]) (simp add: algebra_simps)
next
  case False
  have "x div n < k"
  proof (rule ccontr)
    assume "\<not> x div n < k"
    then have "n * k \<le> n * (x div n)" using assms(3) by (intro mult_left_mono) auto
    moreover have "n * (x div n) \<le> x"
      using mult_div_mod_eq [of n x] pos_mod_sign [OF assms(3), of x] by linarith
    moreover have "n * k = k * n" by simp
    ultimately show False using assms(2) False by linarith
  qed
  moreover have "x - n * (x div n) = x mod n" by (simp add: minus_mult_div_eq_mod)
  moreover have "0 \<le> x mod n" "x mod n < n" using assms(3) by simp_all
  moreover have "0 \<le> x div n" using assms by (simp add: pos_imp_zdiv_nonneg_iff)
  ultimately show ?thesis by (intro exI [of _ "x div n"]) simp
qed

text \<open>A day of the era of 400 years: its century, group of four years, year and day.\<close>

lemma era_split:
  fixes doe :: int
  assumes "0 \<le> doe" "doe \<le> 146096"
  obtains c q r doy where "doe = 36524 * c + 1461 * q + 365 * r + doy"
    "0 \<le> c" "c \<le> 3" "0 \<le> q" "q \<le> 24" "0 \<le> r" "r \<le> 3" "0 \<le> doy" "doy \<le> 365"
    "doy = 365 \<longrightarrow> r = 3 \<and> (q < 24 \<or> c = 3)"
proof -
  obtain c where c: "0 \<le> c" "c \<le> 3" "0 \<le> doe - 36524 * c" "doe - 36524 * c \<le> 36524"
    "doe - 36524 * c = 36524 \<longrightarrow> c = 3"
    using parts [of doe 4 36524] assms by auto
  let ?d1 = "doe - 36524 * c"
  obtain q where q: "0 \<le> q" "q \<le> 24" "0 \<le> ?d1 - 1461 * q" "?d1 - 1461 * q \<le> 1461"
    "?d1 - 1461 * q = 1461 \<longrightarrow> ?d1 = 25 * 1461"
    using parts [of ?d1 25 1461] c by auto
  let ?d2 = "?d1 - 1461 * q"
  have d2: "?d2 \<le> 4 * 365" using q c by linarith
  obtain r where r: "0 \<le> r" "r \<le> 3" "0 \<le> ?d2 - 365 * r" "?d2 - 365 * r \<le> 365"
    "?d2 - 365 * r = 365 \<longrightarrow> ?d2 = 4 * 365 \<and> r = 3"
    using parts [of ?d2 4 365] q(3) d2 by auto
  have leap: "?d2 - 365 * r = 365 \<longrightarrow> r = 3 \<and> (q < 24 \<or> c = 3)"
  proof
    assume e: "?d2 - 365 * r = 365"
    then have "r = 3" "?d2 = 1460" using r(5) by auto
    moreover have "q < 24 \<or> c = 3"
    proof (rule disjCI)
      assume "c \<noteq> 3"
      then have "?d1 < 36524" using c(4,5) by linarith
      then show "q < 24" using \<open>?d2 = 1460\<close> q(2) by linarith
    qed
    ultimately show "r = 3 \<and> (q < 24 \<or> c = 3)" by simp
  qed
  show ?thesis
    by (rule that [of c q r "?d2 - 365 * r"]) (use c q r leap in auto)
qed

lemma day_year:
  fixes c q r doy :: int
  assumes "0 \<le> c" "c \<le> 3" "0 \<le> q" "q \<le> 24" "0 \<le> r" "r \<le> 3" "0 \<le> doy" "doy \<le> 365"
    "doy = 365 \<longrightarrow> r = 3 \<and> (q < 24 \<or> c = 3)" and "doe = 36524 * c + 1461 * q + 365 * r + doy"
  shows "(doe - doe div 1460 + doe div 36524 - doe div 146096) div 365 = 100 * c + 4 * q + r"
    and "365 * (100 * c + 4 * q + r) + (100 * c + 4 * q + r) div 4 - (100 * c + 4 * q + r) div 100 = doe - doy"
proof -
  have y: "(100 * c + 4 * q + r) div 4 = 25 * c + q" "(100 * c + 4 * q + r) div 100 = c"
    using assms by (intro int_div_pos_eq [of _ 4 _ r], simp_all)
  show "365 * (100 * c + 4 * q + r) + (100 * c + 4 * q + r) div 4 - (100 * c + 4 * q + r) div 100 = doe - doy"
    unfolding y assms(10) by simp
  define x where "x = 24 * c + q + 365 * r + doy"
  have x: "0 \<le> x" "x < 2 * 1460" using assms by (simp_all add: x_def)
  have "doe = 1460 * (25 * c + q) + x" by (simp add: assms(10) x_def)
  then have d1: "doe div 1460 = 25 * c + q + x div 1460" by simp
  have x1: "x div 1460 = (if x < 1460 then 0 else 1)"
    using x by (auto intro: int_div_pos_eq [of _ _ 1])
  define z where "z = 1461 * q + 365 * r + doy"
  have z: "0 \<le> z" "z \<le> 36524" "z = 36524 \<longrightarrow> c = 3"
  proof -
    show "0 \<le> z" "z \<le> 36524" using assms by (simp_all add: z_def)
    show "z = 36524 \<longrightarrow> c = 3"
    proof
      assume "z = 36524"
      then have "1461 * q + 365 * r + doy = 36524" by (simp add: z_def)
      then have "q = 24 \<and> doy = 365" using assms(4,6,8) by linarith
      then show "c = 3" using assms(9) by simp
    qed
  qed
  have d2: "doe div 36524 - doe div 146096 = c"
  proof (cases "z = 36524")
    case True
    then have "doe = 146096" using z assms(10) by (simp add: z_def)
    then show ?thesis using True z by simp
  next
    case False
    have "doe div 36524 = c"
      using z False assms(10) by (intro int_div_pos_eq [of _ _ _ z]) (simp_all add: z_def)
    moreover have "doe div 146096 = 0"
      using z False assms(1,2,10) by (intro div_pos_pos_trivial) (simp_all add: z_def)
    ultimately show ?thesis by simp
  qed
  have "doe - doe div 1460 + doe div 36524 - doe div 146096 = 365 * (100 * c + 4 * q + r) + (doy - x div 1460)"
    using d1 d2 assms(10) by simp
  moreover have "0 \<le> doy - x div 1460"
  proof (cases "x < 1460")
    case False
    then have "1 \<le> doy" using assms by (simp add: x_def)
    then show ?thesis using x1 False by simp
  qed (use x1 assms in simp)
  moreover have "doy - x div 1460 < 365"
  proof (cases "doy = 365")
    case True
    then have "\<not> x < 1460" using assms by (simp add: x_def)
    then show ?thesis using x1 True by simp
  qed (use x1 assms(8) in simp)
  ultimately show "(doe - doe div 1460 + doe div 36524 - doe div 146096) div 365 = 100 * c + 4 * q + r"
    by (intro int_div_pos_eq) simp_all
qed

section \<open>Dates and day numbers\<close>

definition valid_date :: "int \<Rightarrow> int \<Rightarrow> int \<Rightarrow> bool" where
  "valid_date y m d \<longleftrightarrow> 1 \<le> m \<and> m \<le> 12 \<and> 1 \<le> d \<and> d \<le> days_in_month y m"

lemma months:
  fixes doy :: int
  assumes "0 \<le> doy" "doy \<le> 365"
  defines "mp \<equiv> (5 * doy + 2) div 153"
  shows "0 \<le> mp \<and> mp \<le> 11 \<and> (153 * mp + 2) div 5 \<le> doy \<and> (mp < 11 \<longrightarrow> doy < (153 * (mp + 1) + 2) div 5)"
proof -
  have mp: "0 \<le> mp" "mp \<le> 11" using assms(1,2) unfolding mp_def by (simp, linarith)
  have b: "153 * mp \<le> 5 * doy + 2" "5 * doy + 2 < 153 * mp + 153"
    unfolding mp_def using mult_div_mod_eq [of 153 "5 * doy + 2"] pos_mod_sign [of 153 "5 * doy + 2"]
      pos_mod_bound [of 153 "5 * doy + 2"] by linarith+
  have "(153 * mp + 2) div 5 \<le> doy" using b(1) by linarith
  moreover have "doy < (153 * (mp + 1) + 2) div 5" 
  proof -
    have "5 * (doy + 1) \<le> 153 * (mp + 1) + 2" using b(2) by (simp add: algebra_simps)
    then have "5 * (doy + 1) div 5 \<le> (153 * (mp + 1) + 2) div 5" by (rule zdiv_mono1) simp
    then show ?thesis by simp
  qed
  ultimately show ?thesis using mp by simp
qed

text \<open>The date made of a year of the era, a month counted from March and a day is in the calendar.\<close>

lemma valid_from_march:
  fixes doy :: int
  assumes doy: "0 \<le> doy" "doy \<le> 365"
    and leap: "doy = 365 \<longrightarrow> is_leap_year (yi + 1)"
  defines "mp \<equiv> (5 * doy + 2) div 153"
  defines "m \<equiv> mp + (if mp < 10 then 3 else -9)"
  shows "valid_date (yi + (if m \<le> 2 then 1 else 0)) m (doy - (153 * mp + 2) div 5 + 1)"
proof -
  have b: "0 \<le> mp" "mp \<le> 11" "(153 * mp + 2) div 5 \<le> doy" "mp < 11 \<longrightarrow> doy < (153 * (mp + 1) + 2) div 5"
    using months [OF doy] by (simp_all add: mp_def)
  consider "mp = 0" | "mp = 1" | "mp = 2" | "mp = 3" | "mp = 4" | "mp = 5" | "mp = 6" | "mp = 7"
    | "mp = 8" | "mp = 9" | "mp = 10" | "mp = 11"
  proof -
    have "mp \<in> set [0..11]" using b(1,2) by (simp add: set_upto)
    then have "mp \<in> {0, 1, 2, 3, 4, 5, 6, 7, 8, 9, 10, 11}" by (simp add: upto.simps)
    then show thesis using that by blast
  qed
  then show ?thesis
  proof cases
    case 12
    have "doy \<noteq> 365 \<longrightarrow> doy \<le> 364" using doy by linarith
    then show ?thesis using b(3) doy leap 12 by (auto simp: m_def valid_date_def days_in_month_def)
  qed (use b(3,4) in \<open>simp_all add: m_def valid_date_def days_in_month_def\<close>)
qed

lemma leap_day_year:
  fixes c q era :: int
  assumes "0 \<le> q" "q \<le> 24" "q < 24 \<or> c = 3"
  shows "is_leap_year (100 * c + 4 * q + 3 + era * 400 + 1)"
proof (cases "q = 24")
  case True
  have "100 * c + 4 * q + 3 + era * 400 + 1 = 400 * (era + 1)" using assms True by simp
  then show ?thesis by (simp only: is_leap_year_def) simp
next
  case False
  let ?y = "100 * c + 4 * q + 3 + era * 400 + 1"
  have "?y = 4 * (25 * c + q + 1 + era * 100)" by simp
  then have "?y mod 4 = 0" by (metis mod_mult_self1_is_0)
  moreover have "?y mod 100 = 4 * (q + 1)"
  proof -
    have "?y = 4 * (q + 1) + 100 * (c + era * 4)" by simp
    then have "?y mod 100 = 4 * (q + 1) mod 100" by (metis mod_mult_self2)
    also have "\<dots> = 4 * (q + 1)" using assms False by (intro mod_pos_pos_trivial) simp_all
    finally show ?thesis .
  qed
  ultimately show ?thesis using assms(1) by (simp add: is_leap_year_def)
qed

text \<open>
  The calendar of the position reports: for every day within nearly two million years of 1970 the date
  computed from the day number exists in the Gregorian calendar, and its day number is the one it was
  computed from.
\<close>

theorem civil_from_days_inverse:
  assumes "\<bar>z\<bar> \<le> 700000000" "civil_from_days z = (y, m, d)"
  shows "valid_date y m d \<and> days_from_civil y m d = z"
proof -
  define z' where "z' = z + 719468"
  define era where "era = z' div 146097"
  define doe where "doe = z' mod 146097"
  have doe: "0 \<le> doe" "doe \<le> 146096" "z' = 146097 * era + doe"
    using pos_mod_bound [of 146097 z'] by (simp_all add: doe_def era_def)
  obtain c q r doy where e: "doe = 36524 * c + 1461 * q + 365 * r + doy"
    "0 \<le> c" "c \<le> 3" "0 \<le> q" "q \<le> 24" "0 \<le> r" "r \<le> 3" "0 \<le> doy" "doy \<le> 365"
    "doy = 365 \<longrightarrow> r = 3 \<and> (q < 24 \<or> c = 3)"
    using era_split [OF doe(1,2)] by metis
  define yoe where "yoe = 100 * c + 4 * q + r"
  define mp where "mp = (5 * doy + 2) div 153"
  define yi where "yi = yoe + era * 400"
  have yoe: "0 \<le> yoe" "yoe \<le> 399" using e by (simp_all add: yoe_def)
  note dy = day_year [OF e(2-10) e(1), folded yoe_def]
  have mp: "0 \<le> mp" "mp \<le> 11" "(153 * mp + 2) div 5 \<le> doy" "mp < 11 \<longrightarrow> doy < (153 * (mp + 1) + 2) div 5"
    using months [OF e(8,9)] by (simp_all add: mp_def)
  define m' where "m' = mp + (if mp < 10 then 3 else -9)"
  define d' where "d' = doy - (153 * mp + 2) div 5 + 1"
  have s1: "(if z' \<ge> 0 then z' else z' - 146096) sdiv 146097 = era"
    
    unfolding era_def by (rule sdiv_floor) simp_all
  have s2: "z' - era * 146097 = doe" using doe(3) by simp
  have s3: "doe - (365 * yoe + yoe div 4 - yoe div 100) = doy" using dy(2) by simp
  have "\<bar>yi + (if m' \<le> 2 then 1 else 0)\<bar> < 2 ^ 31"
  proof -
    have "\<bar>146097 * era\<bar> \<le> 701000000" using doe assms(1) by (simp add: z'_def)
    then have "\<bar>era\<bar> \<le> 4800" by linarith
    then have "- 4800 \<le> era" "era \<le> 4800" by (simp_all add: abs_le_iff)
    then have "\<bar>yi\<bar> \<le> 2000000" unfolding yi_def using yoe by (intro abs_leI) linarith+
    then have "- 2000000 \<le> yi" "yi \<le> 2000000" by (simp_all add: abs_le_iff)
    then show ?thesis by (auto simp: abs_less_iff)
  qed
  then have s4: "signed_take_bit 31 (yi + (if m' \<le> 2 then 1 else 0)) = yi + (if m' \<le> 2 then 1 else 0)"
    by (intro signed_take_bit_int_eq_self) simp_all
  have "civil_from_days z = (yi + (if m' \<le> 2 then 1 else 0), m', d')"
    unfolding civil_from_days_def Let_def z'_def [symmetric] s1 s2 dy(1) s3 yi_def [symmetric]
      mp_def [symmetric] m'_def [symmetric] d'_def [symmetric] s4 ..
  then have civil: "y = yi + (if m \<le> 2 then 1 else 0)" "m = m'" "d = d'"
    using assms(2) by auto
  have "valid_date y m d"
    unfolding civil m'_def d'_def mp_def
  proof (rule valid_from_march [OF e(8,9)])
    show "doy = 365 \<longrightarrow> is_leap_year (yi + 1)"
      using leap_day_year [OF e(4,5), of c era] e(10) by (auto simp: yi_def yoe_def)
  qed
  moreover have "days_from_civil y m d = z"
  proof -
    have y: "y - (if m \<le> 2 then 1 else 0) = yi" using civil by simp
    have era: "(if yi \<ge> 0 then yi else yi - 399) sdiv 400 = era"
    proof -
      have "yi div 400 = era" using yoe by (simp add: yi_def)
      then show ?thesis using sdiv_floor [of 400 399 yi] by simp
    qed
    have "m + (if m > 2 then -3 else 9) = mp" using mp by (simp add: civil m'_def)
    moreover have "yi - era * 400 = yoe" by (simp add: yi_def)
    ultimately have "days_from_civil y m d = era * 146097 +
        (yoe * 365 + yoe div 4 - yoe div 100 + ((153 * mp + 2) div 5 + d - 1)) - 719468"
      unfolding days_from_civil_def Let_def y era by simp
    then show ?thesis using dy(2) doe(3) by (simp add: civil d'_def z'_def)
  qed
  ultimately show ?thesis by simp
qed

theorem civil_from_days_inverse_witness:
  "valid_date 2000 2 29 \<and> days_from_civil 2000 2 29 = 11016"
  by (rule civil_from_days_inverse) code_simp+

end
