(* ===== verification/Gpr.thy ===== *)
theory Gpr
  imports Complex_Main "HOL-Library.Char_ord" Civil Decimal
begin

text \<open>
  Geographic position reports (\<open>src/Protocol/Message/ale_gpr.cpp\<close>): the generator, the parser in its
  tolerant and its strict mode, and what a receiver reads from a generated report. A \<open>double\<close> is a
  rational number here, so the rounding of its operations is not modelled; \<open>time_t\<close> is an integer.
\<close>

section \<open>Parser\<close>

record ale_gpr =
  gpr_text :: string
  gpr_object :: string
  gpr_comment :: string
  latitude_raw :: string
  longitude_raw :: string
  altitude_raw :: string
  time_raw :: string
  has_latitude :: bool
  latitude_deg :: rat
  has_longitude :: bool
  longitude_deg :: rat
  has_altitude :: bool
  gpr_altitude :: rat
  altitude_unit :: char
  has_timestamp :: bool
  timestamp_utc :: int
  timezone_code :: char
  valid_gpr_structure :: bool
  valid_position :: bool
  valid_timestamp :: bool
  manual_or_invalid_position :: bool
  gpr_errors :: "string list"

definition empty_gpr :: ale_gpr where
  "empty_gpr = \<lparr> gpr_text = [], gpr_object = [], gpr_comment = [], latitude_raw = [], longitude_raw = [],
     altitude_raw = [], time_raw = [], has_latitude = False, latitude_deg = 0, has_longitude = False,
     longitude_deg = 0, has_altitude = False, gpr_altitude = 0, altitude_unit = CHR 0x00,
     has_timestamp = False, timestamp_utc = 0, timezone_code = CHR 0x00, valid_gpr_structure = False,
     valid_position = False, valid_timestamp = False, manual_or_invalid_position = False, gpr_errors = [] \<rparr>"

definition is_digit_string :: "string \<Rightarrow> nat \<Rightarrow> nat \<Rightarrow> bool" where
  "is_digit_string s a b = list_all is_digit (take (b - a) (drop a s))"

text \<open>The number \<open>std::stod\<close> reads from the digits after a decimal point.\<close>

definition read_fraction :: "string \<Rightarrow> rat" where
  "read_fraction ds = of_nat (read_nat ds) / 10 ^ length ds"

definition parse_latitude :: "string \<Rightarrow> rat option" where
  "parse_latitude s =
     (if length s < 4 \<or> \<not> is_digit_string s 0 2 then None
      else let hemi = s ! 2 in
      if hemi \<noteq> CHR ''N'' \<and> hemi \<noteq> CHR ''S'' then None
      else if \<not> is_digit_string s 3 (length s) then None
      else let degrees = digit_value (s ! 0) * 10 + digit_value (s ! 1) in
      if degrees > 90 then None
      else let v = of_nat degrees + read_fraction (drop 3 s) in
      if v > 90 then None
      else Some (if hemi = CHR ''S'' then - v else v))"

definition parse_longitude :: "string \<Rightarrow> rat option" where
  "parse_longitude s =
     (if length s < 5 \<or> \<not> is_digit_string s 0 3 then None
      else let hemi = s ! 3 in
      if hemi \<noteq> CHR ''E'' \<and> hemi \<noteq> CHR ''W'' then None
      else if \<not> is_digit_string s 4 (length s) then None
      else let degrees = digit_value (s ! 0) * 100 + digit_value (s ! 1) * 10 + digit_value (s ! 2) in
      if degrees > 180 then None
      else let v = of_nat degrees + read_fraction (drop 4 s) in
      if v > 180 then None
      else Some (if hemi = CHR ''W'' then - v else v))"

definition parse_altitude :: "string \<Rightarrow> (rat \<times> char) option" where
  "parse_altitude s =
     (if length s < 2 then None
      else let unit_c = last s in
      if unit_c \<noteq> CHR ''M'' \<and> unit_c \<noteq> CHR ''F'' then None
      else if \<not> is_digit_string s 0 (length s - 1) then None
      else Some (of_nat (read_nat (butlast s)), unit_c))"

definition parse_timestamp :: "string \<Rightarrow> (int \<times> char) option" where
  "parse_timestamp s =
     (if length s \<noteq> 15 \<or> \<not> is_digit_string s 0 8 then None
      else let tz = s ! 8 in
      if tz < CHR ''A'' \<or> tz > CHR ''Z'' then None
      else if \<not> is_digit_string s 9 15 then None
      else let field = (\<lambda>from n. int (read_nat (take n (drop from s))));
               year = field 0 4; month = field 4 2; day = field 6 2;
               hour = field 9 2; minute = field 11 2; second = field 13 2 in
      if month < 1 \<or> month > 12 then None
      else if day < 1 \<or> day > days_in_month year month then None
      else if hour < 0 \<or> hour > 23 then None
      else if minute < 0 \<or> minute > 59 then None
      else if second < 0 \<or> second > 59 then None
      else Some (days_from_civil year month day * 86400 + hour * 3600 + minute * 60 + second, tz))"

definition is_allowed_object_char :: "char \<Rightarrow> bool" where
  "is_allowed_object_char c \<longleftrightarrow>
     CHR ''A'' \<le> c \<and> CHR ''Z'' \<ge> c \<or> CHR ''0'' \<le> c \<and> CHR ''9'' \<ge> c \<or> c = CHR '' '' \<or> c = CHR ''#''"

definition is_gpr :: "string \<Rightarrow> bool" where
  "is_gpr t \<longleftrightarrow> takeWhile (\<lambda>c. c \<noteq> CHR ''*'') t = ''GPR''"

fun split_fields :: "string \<Rightarrow> string list" where
  "split_fields [] = [[]]"
| "split_fields (c # s) =
     (if c = CHR ''*'' then [] # split_fields s
      else case split_fields s of [] \<Rightarrow> [[c]] | f # fs \<Rightarrow> (c # f) # fs)"

definition add_error :: "string \<Rightarrow> ale_gpr \<Rightarrow> ale_gpr" where
  "add_error e g = g\<lparr>gpr_errors := gpr_errors g @ [e]\<rparr>"

definition quoted :: "string \<Rightarrow> string" where
  "quoted s = [CHR 0x22] @ s @ [CHR 0x22]"

text \<open>The checks of the fields, in the order of the code; each gives the report and \<open>strict_ok\<close>.\<close>

definition check_object :: "ale_gpr \<times> bool \<Rightarrow> ale_gpr \<times> bool" where
  "check_object = (\<lambda>(g, ok).
     let (g, ok) =
           (if length (gpr_object g) < 3 \<or> length (gpr_object g) > 15
            then (add_error (''object field length out of range [3,15]: '' @ show_nat (length (gpr_object g))) g, False)
            else (g, ok))
     in if list_all is_allowed_object_char (gpr_object g) then (g, ok)
        else (add_error ''object field contains a disallowed character'' g, False))"

definition check_latitude :: "ale_gpr \<times> bool \<Rightarrow> ale_gpr \<times> bool" where
  "check_latitude = (\<lambda>(g, ok).
     if CHR ''#'' \<in> set (latitude_raw g) then (g\<lparr>manual_or_invalid_position := True\<rparr>, ok)
     else case (if length (latitude_raw g) > 9 then None else parse_latitude (latitude_raw g)) of
       None \<Rightarrow> ((add_error (''invalid latitude field: '' @ quoted (latitude_raw g)) g)
                 \<lparr>manual_or_invalid_position := True\<rparr>, False)
     | Some v \<Rightarrow> (g\<lparr>latitude_deg := v, has_latitude := True\<rparr>, ok))"

definition check_longitude :: "ale_gpr \<times> bool \<Rightarrow> ale_gpr \<times> bool" where
  "check_longitude = (\<lambda>(g, ok).
     if CHR ''#'' \<in> set (longitude_raw g) then (g\<lparr>manual_or_invalid_position := True\<rparr>, ok)
     else case (if length (longitude_raw g) > 10 then None else parse_longitude (longitude_raw g)) of
       None \<Rightarrow> ((add_error (''invalid longitude field: '' @ quoted (longitude_raw g)) g)
                 \<lparr>manual_or_invalid_position := True\<rparr>, False)
     | Some v \<Rightarrow> (g\<lparr>longitude_deg := v, has_longitude := True\<rparr>, ok))"

definition check_altitude :: "ale_gpr \<times> bool \<Rightarrow> ale_gpr \<times> bool" where
  "check_altitude = (\<lambda>(g, ok).
     if CHR ''#'' \<in> set (altitude_raw g) then (g\<lparr>manual_or_invalid_position := True\<rparr>, ok)
     else case (if length (altitude_raw g) > 7 then None else parse_altitude (altitude_raw g)) of
       None \<Rightarrow> ((add_error (''invalid altitude field: '' @ quoted (altitude_raw g)) g)
                 \<lparr>manual_or_invalid_position := True\<rparr>, False)
     | Some (v, u) \<Rightarrow> (g\<lparr>gpr_altitude := v, altitude_unit := u, has_altitude := True\<rparr>, ok))"

definition check_time :: "ale_gpr \<times> bool \<Rightarrow> ale_gpr \<times> bool" where
  "check_time = (\<lambda>(g, ok).
     if CHR ''#'' \<in> set (time_raw g) then (g\<lparr>manual_or_invalid_position := True\<rparr>, ok)
     else case parse_timestamp (time_raw g) of
       None \<Rightarrow> ((add_error (''invalid time field: '' @ quoted (time_raw g)) g)
                 \<lparr>manual_or_invalid_position := True\<rparr>, False)
     | Some (ts, tz) \<Rightarrow>
         (g\<lparr>timestamp_utc := ts, timezone_code := tz, has_timestamp := True, valid_timestamp := True\<rparr>, ok))"

definition check_comment :: "ale_gpr \<times> bool \<Rightarrow> ale_gpr \<times> bool" where
  "check_comment = (\<lambda>(g, ok).
     if length (gpr_comment g) > 25 then (add_error ''comment field exceeds 25 characters'' g, False)
     else (g, ok))"

definition parse_gpr :: "string \<Rightarrow> bool \<Rightarrow> ale_gpr" where
  "parse_gpr t strict =
     (let g = empty_gpr\<lparr>gpr_text := t\<rparr>;
          fields = split_fields t
      in if hd fields \<noteq> ''GPR''
         then add_error (''not an ALE-GPR message (missing '' @ quoted ''GPR'' @ '' prefix)'') g
         else if length fields \<noteq> 7
         then add_error (''invalid ALE-GPR structure: expected 7 fields, got '' @ show_nat (length fields)) g
         else
           let g = g\<lparr>valid_gpr_structure := True, gpr_object := fields ! 1, latitude_raw := fields ! 2,
                     longitude_raw := fields ! 3, altitude_raw := fields ! 4, time_raw := fields ! 5,
                     gpr_comment := fields ! 6\<rparr>;
               (g, ok) = check_longitude (check_latitude (check_object (g, True)));
               g = g\<lparr>valid_position := has_latitude g \<and> has_longitude g\<rparr>;
               (g, ok) = check_comment (check_time (check_altitude (g, ok)))
           in if strict \<and> \<not> ok then g\<lparr>valid_gpr_structure := False\<rparr> else g)"

section \<open>Generator\<close>

definition zero_pad :: "int \<Rightarrow> nat \<Rightarrow> string" where
  "zero_pad i w =
     (let s = show_int i
      in if length s < w then replicate (w - length s) (CHR ''0'') @ s else s)"

definition strip_delimiter :: "string \<Rightarrow> string" where
  "strip_delimiter = map (\<lambda>c. if c = CHR ''*'' then CHR ''#'' else c)"

text \<open>\<open>std::lround\<close>: to the nearest integer, halves away from zero.\<close>

definition lround :: "rat \<Rightarrow> int" where
  "lround x = (if x < 0 then - \<lfloor>- x + 1 / 2\<rfloor> else \<lfloor>x + 1 / 2\<rfloor>)"

definition degrees_field :: "nat \<Rightarrow> char \<Rightarrow> char \<Rightarrow> rat \<Rightarrow> string" where
  "degrees_field w neg pos x =
     (let hemi = (if x < 0 then neg else pos);
          deg_i = \<lfloor>\<bar>x\<bar>\<rfloor>;
          frac_i = lround ((\<bar>x\<bar> - of_int deg_i) * 1000000);
          (frac_i, deg_i) = (if frac_i \<ge> 1000000 then (frac_i - 1000000, deg_i + 1) else (frac_i, deg_i))
      in zero_pad deg_i w @ [hemi] @ zero_pad frac_i 6)"

definition lat_field :: "rat \<Rightarrow> string" where
  "lat_field = degrees_field 2 (CHR ''S'') (CHR ''N'')"

definition lon_field :: "rat \<Rightarrow> string" where
  "lon_field = degrees_field 3 (CHR ''W'') (CHR ''E'')"

definition alt_field :: "bool \<Rightarrow> rat \<Rightarrow> char \<Rightarrow> string" where
  "alt_field has altitude u =
     (let alt_unit = (if u \<noteq> CHR 0x00 then u else CHR ''M'')
      in if has then zero_pad (lround altitude) 6 @ [alt_unit] else ''#'' @ [alt_unit])"

definition time_field :: "int \<Rightarrow> char \<Rightarrow> string" where
  "time_field ts tzc =
     (let days = ts sdiv 86400; rest = ts smod 86400;
          (days, rest) = (if rest < 0 then (days - 1, rest + 86400) else (days, rest));
          (y, mo, d) = civil_from_days days;
          hh = rest div 3600; mm = rest mod 3600 div 60; ss = rest mod 60;
          tz = (if tzc \<noteq> CHR 0x00 then tzc else CHR ''Z'')
      in zero_pad y 4 @ zero_pad mo 2 @ zero_pad d 2 @ [tz] @ zero_pad hh 2 @ zero_pad mm 2 @ zero_pad ss 2)"

definition generate_gpr ::
  "string \<Rightarrow> rat \<Rightarrow> rat \<Rightarrow> bool \<Rightarrow> rat \<Rightarrow> char \<Rightarrow> int \<Rightarrow> char \<Rightarrow> string \<Rightarrow> string" where
  "generate_gpr object lat lon has altitude u ts tzc comment =
     ''GPR*'' @ take 15 (strip_delimiter object) @ ''*'' @ lat_field lat @ ''*'' @ lon_field lon @ ''*'' @
     alt_field has altitude u @ ''*'' @ time_field ts tzc @ ''*'' @ take 25 (strip_delimiter comment)"

section \<open>Fields\<close>

lemma zero_pad:
  assumes "0 \<le> i" "i < 10 ^ w" "0 < w"
  shows "length (zero_pad i w) = w" "list_all is_digit (zero_pad i w)" "read_nat (zero_pad i w) = nat i"
proof -
  have "nat i < 10 ^ w" using assms(1,2) by (simp add: nat_less_iff)
  then have "length (show_nat (nat i)) \<le> w" using length_show_nat [OF assms(3)] by simp
  then show "length (zero_pad i w) = w" using assms(1) by (auto simp: zero_pad_def show_int_def Let_def)
  have "is_digit (CHR ''0'')" by (simp add: is_digit_def)
  then show "list_all is_digit (zero_pad i w)"
    using assms(1) show_nat_digits [of "nat i"]
    by (auto simp: zero_pad_def show_int_def list_all_iff Let_def)
  show "read_nat (zero_pad i w) = nat i" using assms(1) by (auto simp: zero_pad_def show_int_def Let_def)
qed

lemma digits_plain:
  assumes "list_all is_digit s"
  shows "CHR ''*'' \<notin> set s" "CHR ''#'' \<notin> set s"
proof -
  have "\<not> is_digit (CHR ''*'')" "\<not> is_digit (CHR ''#'')" by (simp_all add: is_digit_def)
  then show "CHR ''*'' \<notin> set s" "CHR ''#'' \<notin> set s" using assms by (auto simp: list_all_iff)
qed

lemma read_nat_2: "length s = 2 \<Longrightarrow> digit_value (s ! 0) * 10 + digit_value (s ! 1) = read_nat s"
  by (auto simp: numeral_2_eq_2 length_Suc_conv read_nat_def)

lemma read_nat_3:
  "length s = 3 \<Longrightarrow> digit_value (s ! 0) * 100 + digit_value (s ! 1) * 10 + digit_value (s ! 2) = read_nat s"
  by (auto simp: numeral_3_eq_3 numeral_2_eq_2 length_Suc_conv read_nat_def)

lemma read_fraction_nonneg: "0 \<le> read_fraction s"
  by (simp add: read_fraction_def)

lemma parse_latitude_parts:
  assumes "length ds = 2" "list_all is_digit ds" "list_all is_digit fs" "fs \<noteq> []"
    and "h = CHR ''N'' \<or> h = CHR ''S''" and v: "of_nat (read_nat ds) + read_fraction fs \<le> 90"
  shows "parse_latitude (ds @ [h] @ fs) =
    Some (if h = CHR ''S'' then - (of_nat (read_nat ds) + read_fraction fs) else of_nat (read_nat ds) + read_fraction fs)"
proof -
  have l: "\<not> length (ds @ [h] @ fs) < 4" using assms by (cases fs) simp_all
  have d: "digit_value ((ds @ [h] @ fs) ! 0) * 10 + digit_value ((ds @ [h] @ fs) ! 1) = read_nat ds"
    using read_nat_2 [OF assms(1)] assms(1) by (simp add: nth_append)
  have "of_nat (read_nat ds) \<le> (90 :: rat)" using v read_fraction_nonneg [of fs] by linarith
  then have "\<not> read_nat ds > 90" by (metis leD of_nat_le_iff of_nat_numeral)
  moreover have "is_digit_string (ds @ [h] @ fs) 0 2" "is_digit_string (ds @ [h] @ fs) 3 (length (ds @ [h] @ fs))"
    "(ds @ [h] @ fs) ! 2 = h" "drop 3 (ds @ [h] @ fs) = fs"
    using assms(1-3) by (simp_all add: is_digit_string_def nth_append)
  ultimately show ?thesis
    unfolding parse_latitude_def Let_def d using l v assms(5) by auto
qed

lemma parse_longitude_parts:
  assumes "length ds = 3" "list_all is_digit ds" "list_all is_digit fs" "fs \<noteq> []"
    and "h = CHR ''E'' \<or> h = CHR ''W''" and v: "of_nat (read_nat ds) + read_fraction fs \<le> 180"
  shows "parse_longitude (ds @ [h] @ fs) =
    Some (if h = CHR ''W'' then - (of_nat (read_nat ds) + read_fraction fs) else of_nat (read_nat ds) + read_fraction fs)"
proof -
  have l: "\<not> length (ds @ [h] @ fs) < 5" using assms by (cases fs) simp_all
  have d: "digit_value ((ds @ [h] @ fs) ! 0) * 100 + digit_value ((ds @ [h] @ fs) ! 1) * 10
      + digit_value ((ds @ [h] @ fs) ! 2) = read_nat ds"
    using read_nat_3 [OF assms(1)] assms(1) by (simp add: nth_append)
  have "of_nat (read_nat ds) \<le> (180 :: rat)" using v read_fraction_nonneg [of fs] by linarith
  then have "\<not> read_nat ds > 180" by (metis leD of_nat_le_iff of_nat_numeral)
  moreover have "is_digit_string (ds @ [h] @ fs) 0 3" "is_digit_string (ds @ [h] @ fs) 4 (length (ds @ [h] @ fs))"
    "(ds @ [h] @ fs) ! 3 = h" "drop 4 (ds @ [h] @ fs) = fs"
    using assms(1-3) by (simp_all add: is_digit_string_def nth_append)
  ultimately show ?thesis
    unfolding parse_longitude_def Let_def d using l v assms(5) by auto
qed

text \<open>Degrees and millionths come from one rounding of the millionths, carry included.\<close>

lemma degrees_field_parts:
  fixes x :: rat
  defines "n \<equiv> \<lfloor>\<bar>x\<bar> * 1000000 + 1 / 2\<rfloor>"
  shows "degrees_field w neg pos x =
    zero_pad (n div 1000000) w @ [if x < 0 then neg else pos] @ zero_pad (n mod 1000000) 6"
proof -
  define d where "d = \<lfloor>\<bar>x\<bar>\<rfloor>"
  define f where "f = (\<bar>x\<bar> - of_int d) * 1000000"
  define k where "k = \<lfloor>f + 1 / 2\<rfloor>"
  have f: "0 \<le> f" "f < 1000000" by (simp_all add: f_def d_def, linarith+)
  have "lround f = k" using f by (simp add: lround_def k_def)
  moreover have "0 \<le> k" "k \<le> 1000000" unfolding k_def using f by (simp_all add: le_floor_iff floor_le_iff)
  ultimately have k: "lround f = k" "0 \<le> k" "k \<le> 1000000" by simp_all
  have "\<bar>x\<bar> * 1000000 + 1 / 2 = of_int (d * 1000000) + (f + 1 / 2)" by (simp add: f_def algebra_simps)
  then have "n = d * 1000000 + k" unfolding n_def k_def by (metis floor_add_int add.commute)
  then have "n div 1000000 = (if k \<ge> 1000000 then d + 1 else d)" "n mod 1000000 = (if k \<ge> 1000000 then k - 1000000 else k)"
    using k by auto
  then show ?thesis
    unfolding degrees_field_def Let_def d_def [symmetric] f_def [symmetric] k(1) by simp
qed

text \<open>The degrees in a field, to the nearest millionth, as the receiver reads them.\<close>

lemma degrees_field_value:
  fixes x :: rat
  assumes "\<bar>x\<bar> \<le> of_nat b" "b < 10 ^ w" "0 < w"
  obtains ds fs where "degrees_field w neg pos x = ds @ [if x < 0 then neg else pos] @ fs"
    "length ds = w" "list_all is_digit ds" "length fs = 6" "list_all is_digit fs"
    "of_nat (read_nat ds) + read_fraction fs \<le> of_nat b"
    "of_int (lround (x * 1000000)) / 1000000 =
       (if x < 0 then - (of_nat (read_nat ds) + read_fraction fs) else of_nat (read_nat ds) + read_fraction fs)"
proof -
  define n where "n = \<lfloor>\<bar>x\<bar> * 1000000 + 1 / 2\<rfloor>"
  have n0: "0 \<le> n" by (simp add: n_def le_floor_iff)
  have "\<bar>x\<bar> * 1000000 + 1 / 2 < of_int (int b * 1000000 + 1)" using assms(1) by simp
  then have "n < int b * 1000000 + 1" unfolding n_def by (simp only: floor_less_iff)
  then have n1: "n \<le> int b * 1000000" by simp
  have "n div 1000000 \<le> int b * 1000000 div 1000000" by (rule zdiv_mono1 [OF n1]) simp
  then have q: "0 \<le> n div 1000000" "n div 1000000 \<le> int b" using n0 by (simp_all add: pos_imp_zdiv_nonneg_iff)
  have "int b < 10 ^ w" using assms(2) by (metis of_nat_less_iff of_nat_numeral of_nat_power)
  then have "n div 1000000 < 10 ^ w" using q(2) by linarith
  note z1 = zero_pad [OF q(1) this assms(3)]
  have z2: "length (zero_pad (n mod 1000000) 6) = 6" "list_all is_digit (zero_pad (n mod 1000000) 6)"
    "read_nat (zero_pad (n mod 1000000) 6) = nat (n mod 1000000)"
    using zero_pad [of "n mod 1000000" 6] by simp_all
  have "of_nat (nat (n div 1000000)) + of_nat (nat (n mod 1000000)) / (1000000 :: rat)
      = (of_int (n div 1000000 * 1000000) + of_int (n mod 1000000)) / 1000000"
    using q(1) by (simp add: add_divide_distrib)
  also have "\<dots> = of_int n / 1000000" by (metis div_mult_mod_eq of_int_add)
  finally have v: "of_nat (read_nat (zero_pad (n div 1000000) w)) + read_fraction (zero_pad (n mod 1000000) 6)
      = of_int n / 1000000"
    using z1 z2 by (simp add: read_fraction_def)
  have "of_int n \<le> (of_int (int b * 1000000) :: rat)" using n1 by (simp only: of_int_le_iff)
  then have "of_int n / 1000000 \<le> (of_nat b :: rat)" by simp
  moreover have "lround (x * 1000000) = (if x < 0 then - n else n)" by (simp add: lround_def n_def)
  ultimately show ?thesis
    using that [OF degrees_field_parts [of w neg pos x, folded n_def] z1(1,2) z2(1,2)] v by simp
qed

lemma altitude_read:
  assumes "0 \<le> i" "i \<le> 999999" "u = CHR ''M'' \<or> u = CHR ''F''"
  shows "parse_altitude (zero_pad i 6 @ [u]) = Some (of_int i, u)" "length (zero_pad i 6 @ [u]) = 7"
proof -
  note z = zero_pad [of i 6, simplified, OF assms(1)]
  show "parse_altitude (zero_pad i 6 @ [u]) = Some (of_int i, u)"
    using z assms by (auto simp: parse_altitude_def is_digit_string_def)
  show "length (zero_pad i 6 @ [u]) = 7" using z assms by simp
qed

lemma timestamp_read:
  assumes "0 \<le> y" "y \<le> 9999" "valid_date y m d" "CHR ''A'' \<le> tz" "tz \<le> CHR ''Z''"
    and "0 \<le> hh" "hh \<le> 23" "0 \<le> mm" "mm \<le> 59" "0 \<le> ss" "ss \<le> 59"
  shows "parse_timestamp (zero_pad y 4 @ zero_pad m 2 @ zero_pad d 2 @ [tz] @ zero_pad hh 2 @ zero_pad mm 2 @ zero_pad ss 2)
    = Some (days_from_civil y m d * 86400 + hh * 3600 + mm * 60 + ss, tz)"
proof -
  have "days_in_month y m \<le> 31" using assms(3)
    by (cases "nat (m - 1)"; auto simp: valid_date_def days_in_month_def nth_Cons split: nat.splits)
  then have d: "0 \<le> d" "d \<le> 31" "0 \<le> m" "m \<le> 12" using assms(3) by (simp_all add: valid_date_def)
  note z = zero_pad [of y 4, simplified] zero_pad [of m 2, simplified] zero_pad [of d 2, simplified]
    zero_pad [of hh 2, simplified] zero_pad [of mm 2, simplified] zero_pad [of ss 2, simplified]
  show ?thesis
    using z d assms by (simp add: parse_timestamp_def is_digit_string_def nth_append Let_def valid_date_def not_less)
qed

lemma floor_days:
  fixes ts :: int
  shows "(if ts smod 86400 < 0 then (ts sdiv 86400 - 1, ts smod 86400 + 86400) else (ts sdiv 86400, ts smod 86400))
    = (ts div 86400, ts mod 86400)"
proof (cases "ts \<ge> 0")
  case True
  then have "ts sdiv 86400 = ts div 86400" by (cases "ts = 0") (simp_all add: signed_divide_int_def)
  moreover have "ts smod 86400 = ts mod 86400"
    using True by (cases "ts = 0") (simp_all add: signed_modulo_int_def)
  ultimately show ?thesis by (simp add: not_less)
next
  case False
  define p where "p = - ts"
  have p: "0 < p" "ts = - p" using False by (simp_all add: p_def)
  have "ts sdiv 86400 = - (p div 86400)" using p by (simp add: signed_divide_int_def)
  moreover have "ts smod 86400 = - (p mod 86400)"
    using p(1) unfolding signed_modulo_int_def p(2) by simp
  moreover have "0 \<le> p mod 86400" by simp
  ultimately show ?thesis unfolding p(2) by (auto simp: zdiv_zminus1_eq_if zmod_zminus1_eq_if)
qed

lemma time_field_read:
  assumes "\<bar>ts\<bar> \<le> 10 ^ 13" "civil_from_days (ts div 86400) = (y, m, d)" "0 \<le> y" "y \<le> 9999"
    and "tz = CHR 0x00 \<or> CHR ''A'' \<le> tz \<and> tz \<le> CHR ''Z''"
  shows "parse_timestamp (time_field ts tz) = Some (ts, if tz = CHR 0x00 then CHR ''Z'' else tz)"
    and "CHR ''*'' \<notin> set (time_field ts tz)" "CHR ''#'' \<notin> set (time_field ts tz)"
proof -
  define tz' where "tz' = (if tz \<noteq> CHR 0x00 then tz else CHR ''Z'')"
  have tz: "CHR ''A'' \<le> tz'" "tz' \<le> CHR ''Z''"
    using assms(5) by (auto simp: tz'_def less_eq_char_def)
  define hh mm ss where "hh = ts mod 86400 div 3600" and "mm = ts mod 86400 mod 3600 div 60" and "ss = ts mod 86400 mod 60"
  have "ts mod 86400 div 3600 < 24" by (simp add: div_less_iff_less_mult)
  moreover have "ts mod 86400 mod 3600 div 60 < 60" by (simp add: div_less_iff_less_mult)
  ultimately have r: "0 \<le> hh" "hh \<le> 23" "0 \<le> mm" "mm \<le> 59" "0 \<le> ss" "ss \<le> 59"
    by (simp_all add: hh_def mm_def ss_def pos_imp_zdiv_nonneg_iff)
  have f: "time_field ts tz = zero_pad y 4 @ zero_pad m 2 @ zero_pad d 2 @ [tz'] @ zero_pad hh 2 @ zero_pad mm 2 @ zero_pad ss 2"
    unfolding time_field_def Let_def floor_days prod.case assms(2) hh_def mm_def ss_def tz'_def ..
  have "\<bar>ts div 86400\<bar> \<le> 700000000" using assms(1) by (simp add: abs_le_iff) linarith
  from civil_from_days_inverse [OF this assms(2)]
  have v: "valid_date y m d" "days_from_civil y m d = ts div 86400" by simp_all
  have "ts = ts div 86400 * 86400 + hh * 3600 + mm * 60 + ss" 
  proof -
    define x where "x = ts mod 86400"
    have "ts = ts div 86400 * 86400 + x" by (simp add: x_def)
    moreover have "x = x div 3600 * 3600 + x mod 3600" by simp
    moreover have "x mod 3600 = x mod 3600 div 60 * 60 + x mod 3600 mod 60" by (rule div_mult_mod_eq [symmetric])
    moreover have "x mod 3600 mod 60 = x mod 60" by (rule mod_mod_cancel) simp
    ultimately show ?thesis unfolding hh_def mm_def ss_def x_def [symmetric] by linarith
  qed
  then show "parse_timestamp (time_field ts tz) = Some (ts, if tz = CHR 0x00 then CHR ''Z'' else tz)"
    unfolding f timestamp_read [OF assms(3,4) v(1) tz r] by (simp add: v(2) tz'_def)
  have "days_in_month y m \<le> 31" using v(1)
    by (cases "nat (m - 1)"; auto simp: valid_date_def days_in_month_def nth_Cons split: nat.splits)
  then have d: "0 \<le> d" "d \<le> 31" "0 \<le> m" "m \<le> 12" using v(1) by (simp_all add: valid_date_def)
  note z = zero_pad [of y 4, simplified] zero_pad [of m 2, simplified] zero_pad [of d 2, simplified]
    zero_pad [of hh 2, simplified] zero_pad [of mm 2, simplified] zero_pad [of ss 2, simplified]
  have "tz' \<noteq> CHR ''*''" "tz' \<noteq> CHR ''#''" using tz by (auto simp: less_eq_char_def)
  then show "CHR ''*'' \<notin> set (time_field ts tz)" "CHR ''#'' \<notin> set (time_field ts tz)"
    unfolding f using z(2,5,8,11,14,17) digits_plain d r assms(3,4) by auto
qed

lemma split_plain: "CHR ''*'' \<notin> set f \<Longrightarrow> split_fields f = [f]"
  by (induction f) auto

lemma split_star: "CHR ''*'' \<notin> set f \<Longrightarrow> split_fields (f @ CHR ''*'' # s) = f # split_fields s"
  by (induction f) auto

lemma strip_delimiter_plain [simp]: "CHR ''*'' \<notin> set (take n (strip_delimiter s))"
  by (auto simp: strip_delimiter_def take_map dest: in_set_takeD)

section \<open>What a receiver reads\<close>

lemma split_generated:
  assumes "\<And>f. f \<in> {f1, f2, f3, f4, f5, f6} \<Longrightarrow> CHR ''*'' \<notin> set f"
  shows "split_fields (''GPR*'' @ f1 @ ''*'' @ f2 @ ''*'' @ f3 @ ''*'' @ f4 @ ''*'' @ f5 @ ''*'' @ f6)
    = [''GPR'', f1, f2, f3, f4, f5, f6]"
  using assms split_star [of "''GPR''"] by (simp add: split_star split_plain)

lemma degrees_field_plain:
  assumes "\<bar>x\<bar> \<le> of_nat b" "b < 10 ^ w" "0 < w" "neg \<notin> {CHR ''*'', CHR ''#''}" "pos \<notin> {CHR ''*'', CHR ''#''}"
  shows "CHR ''*'' \<notin> set (degrees_field w neg pos x)" "CHR ''#'' \<notin> set (degrees_field w neg pos x)"
    "length (degrees_field w neg pos x) = w + 7"
proof -
  obtain ds fs where f: "degrees_field w neg pos x = ds @ [if x < 0 then neg else pos] @ fs"
    "length ds = w" "list_all is_digit ds" "length fs = 6" "list_all is_digit fs"
    using degrees_field_value [OF assms(1-3)] by metis
  then show "length (degrees_field w neg pos x) = w + 7" by simp
  show "CHR ''*'' \<notin> set (degrees_field w neg pos x)" "CHR ''#'' \<notin> set (degrees_field w neg pos x)"
    using f(1) digits_plain [OF f(3)] digits_plain [OF f(5)] assms(4,5) by auto
qed

lemma lat_field_read:
  assumes "\<bar>lat\<bar> \<le> 90"
  shows "parse_latitude (lat_field lat) = Some (of_int (lround (lat * 1000000)) / 1000000)"
    and "CHR ''*'' \<notin> set (lat_field lat)" "CHR ''#'' \<notin> set (lat_field lat)" "length (lat_field lat) = 9"
proof -
  have a: "\<bar>lat\<bar> \<le> of_nat 90" using assms by simp
  obtain ds fs where f: "lat_field lat = ds @ [if lat < 0 then CHR ''S'' else CHR ''N''] @ fs"
    "length ds = 2" "list_all is_digit ds" "length fs = 6" "list_all is_digit fs"
    "of_nat (read_nat ds) + read_fraction fs \<le> (of_nat 90 :: rat)"
    "of_int (lround (lat * 1000000)) / 1000000 =
       (if lat < 0 then - (of_nat (read_nat ds) + read_fraction fs) else of_nat (read_nat ds) + read_fraction fs)"
    by (rule degrees_field_value [OF a, where w = 2 and neg = "CHR ''S''" and pos = "CHR ''N''",
        folded lat_field_def, OF _ _ that]) simp_all
  have "fs \<noteq> []" using f(4) by auto
  then show "parse_latitude (lat_field lat) = Some (of_int (lround (lat * 1000000)) / 1000000)"
    unfolding f(1) using parse_latitude_parts [OF f(2,3,5)] f(6,7) by simp
  show "CHR ''*'' \<notin> set (lat_field lat)" "CHR ''#'' \<notin> set (lat_field lat)" "length (lat_field lat) = 9"
    using degrees_field_plain [OF a, of 2] unfolding lat_field_def by simp_all
qed

lemma lon_field_read:
  assumes "\<bar>lon\<bar> \<le> 180"
  shows "parse_longitude (lon_field lon) = Some (of_int (lround (lon * 1000000)) / 1000000)"
    and "CHR ''*'' \<notin> set (lon_field lon)" "CHR ''#'' \<notin> set (lon_field lon)" "length (lon_field lon) = 10"
proof -
  have a: "\<bar>lon\<bar> \<le> of_nat 180" using assms by simp
  obtain ds fs where f: "lon_field lon = ds @ [if lon < 0 then CHR ''W'' else CHR ''E''] @ fs"
    "length ds = 3" "list_all is_digit ds" "length fs = 6" "list_all is_digit fs"
    "of_nat (read_nat ds) + read_fraction fs \<le> (of_nat 180 :: rat)"
    "of_int (lround (lon * 1000000)) / 1000000 =
       (if lon < 0 then - (of_nat (read_nat ds) + read_fraction fs) else of_nat (read_nat ds) + read_fraction fs)"
    by (rule degrees_field_value [OF a, where w = 3 and neg = "CHR ''W''" and pos = "CHR ''E''",
        folded lon_field_def, OF _ _ that]) simp_all
  have "fs \<noteq> []" using f(4) by auto
  then show "parse_longitude (lon_field lon) = Some (of_int (lround (lon * 1000000)) / 1000000)"
    unfolding f(1) using parse_longitude_parts [OF f(2,3,5)] f(6,7) by simp
  show "CHR ''*'' \<notin> set (lon_field lon)" "CHR ''#'' \<notin> set (lon_field lon)" "length (lon_field lon) = 10"
    using degrees_field_plain [OF a, of 3] unfolding lon_field_def by simp_all
qed

text \<open>Seven fields that are each well formed.\<close>

lemma check_object_ok:
  assumes "\<not> length (gpr_object g) < 3" "\<not> length (gpr_object g) > 15"
    "list_all is_allowed_object_char (gpr_object g)"
  shows "check_object (g, ok) = (g, ok)"
  using assms by (simp add: check_object_def)

lemma check_latitude_ok:
  assumes "CHR ''#'' \<notin> set (latitude_raw g)" "\<not> length (latitude_raw g) > 9"
    "parse_latitude (latitude_raw g) = Some la"
  shows "check_latitude (g, ok) = (g\<lparr>latitude_deg := la, has_latitude := True\<rparr>, ok)"
  using assms by (simp add: check_latitude_def)

lemma check_longitude_ok:
  assumes "CHR ''#'' \<notin> set (longitude_raw g)" "\<not> length (longitude_raw g) > 10"
    "parse_longitude (longitude_raw g) = Some lo"
  shows "check_longitude (g, ok) = (g\<lparr>longitude_deg := lo, has_longitude := True\<rparr>, ok)"
  using assms by (simp add: check_longitude_def)

lemma check_time_ok:
  assumes "CHR ''#'' \<notin> set (time_raw g)" "parse_timestamp (time_raw g) = Some (ts, tz)"
  shows "check_time (g, ok) =
    (g\<lparr>timestamp_utc := ts, timezone_code := tz, has_timestamp := True, valid_timestamp := True\<rparr>, ok)"
  using assms by (simp add: check_time_def)

lemma check_comment_ok: "\<not> length (gpr_comment g) > 25 \<Longrightarrow> check_comment (g, ok) = (g, ok)"
  by (simp add: check_comment_def)

lemmas checks_ok = check_object_ok check_latitude_ok check_longitude_ok check_time_ok check_comment_ok

lemma parse_fields:
  assumes fields: "split_fields t = [''GPR'', f1, f2, f3, f4, f5, f6]"
    and obj: "\<not> length f1 < 3" "\<not> length f1 > 15" "list_all is_allowed_object_char f1"
    and lat: "CHR ''#'' \<notin> set f2" "\<not> length f2 > 9" "parse_latitude f2 = Some la"
    and lon: "CHR ''#'' \<notin> set f3" "\<not> length f3 > 10" "parse_longitude f3 = Some lo"
    and alt: "CHR ''#'' \<in> set f4 \<longleftrightarrow> \<not> has" "has \<Longrightarrow> \<not> length f4 > 7" "has \<Longrightarrow> parse_altitude f4 = Some (al, au)"
    and time: "CHR ''#'' \<notin> set f5" "parse_timestamp f5 = Some (ts, tz)"
    and cmt: "\<not> length f6 > 25"
  shows "parse_gpr t strict =
    empty_gpr\<lparr>gpr_text := t, valid_gpr_structure := True, gpr_object := f1, gpr_comment := f6,
      latitude_raw := f2, longitude_raw := f3, altitude_raw := f4, time_raw := f5,
      has_latitude := True, latitude_deg := la, has_longitude := True, longitude_deg := lo, valid_position := True,
      has_altitude := has, gpr_altitude := if has then al else 0, altitude_unit := if has then au else CHR 0x00,
      has_timestamp := True, timestamp_utc := ts, timezone_code := tz,
      valid_timestamp := True, manual_or_invalid_position := \<not> has\<rparr>"
proof -
  have "check_altitude (g, ok) =
      (if has then g\<lparr>gpr_altitude := al, altitude_unit := au, has_altitude := True\<rparr>
       else g\<lparr>manual_or_invalid_position := True\<rparr>, ok)"
    if "altitude_raw g = f4" for g ok
    using alt that by (simp add: check_altitude_def)
  then show ?thesis
    unfolding parse_gpr_def fields using obj lat lon time cmt
    by (cases has) (simp_all add: Let_def empty_gpr_def checks_ok)
qed

lemma parse_fields_bad_altitude:
  assumes fields: "split_fields t = [''GPR'', f1, f2, f3, f4, f5, f6]"
    and obj: "\<not> length f1 < 3" "\<not> length f1 > 15" "list_all is_allowed_object_char f1"
    and lat: "CHR ''#'' \<notin> set f2" "\<not> length f2 > 9" "parse_latitude f2 = Some la"
    and lon: "CHR ''#'' \<notin> set f3" "\<not> length f3 > 10" "parse_longitude f3 = Some lo"
    and alt: "CHR ''#'' \<notin> set f4" "parse_altitude f4 = None"
    and time: "CHR ''#'' \<notin> set f5" "parse_timestamp f5 = Some (ts, tz)"
    and cmt: "\<not> length f6 > 25"
  shows "parse_gpr t strict =
    empty_gpr\<lparr>gpr_text := t, valid_gpr_structure := \<not> strict, gpr_object := f1, gpr_comment := f6,
      latitude_raw := f2, longitude_raw := f3, altitude_raw := f4, time_raw := f5,
      has_latitude := True, latitude_deg := la, has_longitude := True, longitude_deg := lo, valid_position := True,
      has_timestamp := True, timestamp_utc := ts, timezone_code := tz, valid_timestamp := True,
      manual_or_invalid_position := True, gpr_errors := [''invalid altitude field: '' @ quoted f4]\<rparr>"
proof -
  have "check_altitude (g, ok) =
      ((add_error (''invalid altitude field: '' @ quoted f4) g)\<lparr>manual_or_invalid_position := True\<rparr>, False)"
    if "altitude_raw g = f4" for g ok
    using alt that by (simp add: check_altitude_def)
  then show ?thesis
    unfolding parse_gpr_def fields using obj lat lon time cmt
    by (simp add: Let_def empty_gpr_def checks_ok add_error_def)
qed

lemma negative_alt_field:
  assumes "lround alt < 0" "u \<in> {CHR 0x00, CHR ''M'', CHR ''F''}"
  shows "CHR ''*'' \<notin> set (alt_field True alt u)" "CHR ''#'' \<notin> set (alt_field True alt u)"
    "parse_altitude (alt_field True alt u) = None"
proof -
  define v where "v = (if u \<noteq> CHR 0x00 then u else CHR ''M'')"
  have v: "v \<noteq> CHR ''*''" "v \<noteq> CHR ''#''" using assms(2) by (auto simp: v_def)
  have f: "alt_field True alt u = zero_pad (lround alt) 6 @ [v]" by (simp add: alt_field_def v_def)
  define s where "s = show_nat (nat (- lround alt))"
  have s: "CHR ''*'' \<notin> set s" "CHR ''#'' \<notin> set s" using digits_plain [OF show_nat_digits] by (simp_all add: s_def)
  have z: "zero_pad (lround alt) 6 = replicate (6 - Suc (length s)) (CHR ''0'') @ CHR ''-'' # s"
    using assms(1) by (simp add: zero_pad_def show_int_def Let_def s_def)
  show "CHR ''*'' \<notin> set (alt_field True alt u)" "CHR ''#'' \<notin> set (alt_field True alt u)"
    unfolding f z using v s by auto
  have "\<not> is_digit (CHR ''-'')" by (simp add: is_digit_def)
  then have "\<not> list_all is_digit (zero_pad (lround alt) 6)" by (simp add: z)
  then show "parse_altitude (alt_field True alt u) = None"
    unfolding f by (simp add: parse_altitude_def is_digit_string_def)
qed

lemma alt_field_read:
  assumes "u \<in> {CHR 0x00, CHR ''M'', CHR ''F''}"
    and "has \<longrightarrow> 0 \<le> lround alt \<and> lround alt \<le> 999999"
  shows "CHR ''*'' \<notin> set (alt_field has alt u)"
    "CHR ''#'' \<in> set (alt_field has alt u) \<longleftrightarrow> \<not> has"
    "has \<Longrightarrow> \<not> length (alt_field has alt u) > 7"
    "has \<Longrightarrow> parse_altitude (alt_field has alt u)
       = Some (of_int (lround alt), if u = CHR 0x00 then CHR ''M'' else u)"
proof -
  define v where "v = (if u \<noteq> CHR 0x00 then u else CHR ''M'')"
  have v: "v = CHR ''M'' \<or> v = CHR ''F''" "v = (if u = CHR 0x00 then CHR ''M'' else u)"
    using assms(1) by (auto simp: v_def)
  have f: "alt_field has alt u = (if has then zero_pad (lround alt) 6 @ [v] else ''#'' @ [v])"
    by (simp add: alt_field_def v_def)
  have plain: "CHR ''*'' \<notin> set (zero_pad (lround alt) 6)" "CHR ''#'' \<notin> set (zero_pad (lround alt) 6)" if has
    using digits_plain [OF zero_pad(2) [of "lround alt" 6]] assms(2) that by simp_all
  show "CHR ''*'' \<notin> set (alt_field has alt u)" "CHR ''#'' \<in> set (alt_field has alt u) \<longleftrightarrow> \<not> has"
    unfolding f using plain v(1) by auto
  show "\<not> length (alt_field has alt u) > 7" if has
    unfolding f using that assms(2) altitude_read(2) [OF _ _ v(1), of "lround alt"] by simp
  show "parse_altitude (alt_field has alt u)
       = Some (of_int (lround alt), if u = CHR 0x00 then CHR ''M'' else u)" if has
    unfolding f v(2) [symmetric] using that assms(2) altitude_read(1) [OF _ _ v(1), of "lround alt"] by simp
qed

definition object_char :: "char \<Rightarrow> bool" where
  "object_char c \<longleftrightarrow> is_allowed_object_char c \<or> c = CHR ''*''"

lemma object_allowed:
  assumes "list_all object_char obj"
  shows "list_all is_allowed_object_char (take n (strip_delimiter obj))"
proof -
  have "is_allowed_object_char (CHR ''#'')" by (simp add: is_allowed_object_char_def)
  then have "list_all is_allowed_object_char (strip_delimiter obj)"
    using assms by (auto simp: list_all_iff strip_delimiter_def object_char_def)
  then show ?thesis by (auto simp: list_all_iff dest: in_set_takeD)
qed

lemma generated_fields:
  fixes obj comment :: string
  assumes "3 \<le> length obj" "list_all object_char obj" "\<bar>lat\<bar> \<le> 90" "\<bar>lon\<bar> \<le> 180"
    and "CHR ''*'' \<notin> set (alt_field has alt u)" "CHR ''*'' \<notin> set (time_field ts tz)"
  defines "obj' \<equiv> take 15 (strip_delimiter obj)" and "cmt' \<equiv> take 25 (strip_delimiter comment)"
  shows "split_fields (generate_gpr obj lat lon has alt u ts tz comment)
      = [''GPR'', obj', lat_field lat, lon_field lon, alt_field has alt u, time_field ts tz, cmt']"
    and "\<not> length obj' < 3" "\<not> length obj' > 15" "list_all is_allowed_object_char obj'"
    and "CHR ''#'' \<notin> set (lat_field lat)" "\<not> length (lat_field lat) > 9"
      "parse_latitude (lat_field lat) = Some (of_int (lround (lat * 1000000)) / 1000000)"
    and "CHR ''#'' \<notin> set (lon_field lon)" "\<not> length (lon_field lon) > 10"
      "parse_longitude (lon_field lon) = Some (of_int (lround (lon * 1000000)) / 1000000)"
    and "\<not> length cmt' > 25"
proof -
  note lat = lat_field_read [OF assms(3)] and lon = lon_field_read [OF assms(4)]
  show "split_fields (generate_gpr obj lat lon has alt u ts tz comment)
      = [''GPR'', obj', lat_field lat, lon_field lon, alt_field has alt u, time_field ts tz, cmt']"
    unfolding generate_gpr_def obj'_def cmt'_def
    using lat(2) lon(2) assms(5,6) by (intro split_generated) auto
  show "\<not> length obj' < 3" "\<not> length obj' > 15" "list_all is_allowed_object_char obj'"
    unfolding obj'_def using assms(1) object_allowed [OF assms(2)] by (simp_all add: strip_delimiter_def)
qed (use lat_field_read [OF assms(3)] lon_field_read [OF assms(4)] in \<open>simp_all add: cmt'_def\<close>)

text \<open>
  C23. A generated report read by the parser, in either mode. For an object of at least three permitted characters, a
  position on the globe, an altitude of at most 999999 and a time in a year of four digits, every field arrives: the object
  and the comment are cut to their lengths with the delimiter replaced, the position is that of the sender to the
  nearest millionth of a degree (also where the rounding carries into the degrees), the altitude the nearest whole number
  or marked as missing, and the time is the second of the sender. The one exception is an altitude below zero: everything
  else arrives, but not the altitude; the report is marked as invalid, and in strict mode rejected.
\<close>

theorem report_read_back:
  assumes "3 \<le> length obj" "list_all object_char obj" "\<bar>lat\<bar> \<le> 90" "\<bar>lon\<bar> \<le> 180"
    and "u \<in> {CHR 0x00, CHR ''M'', CHR ''F''}"
    and "has \<longrightarrow> lround alt \<le> 999999"
    and "\<bar>ts\<bar> \<le> 10 ^ 13" "civil_from_days (ts div 86400) = (y, m, d)" "0 \<le> y" "y \<le> 9999"
    and "tz = CHR 0x00 \<or> CHR ''A'' \<le> tz \<and> tz \<le> CHR ''Z''"
    and "sent = generate_gpr obj lat lon has alt u ts tz comment"
    and "report = empty_gpr\<lparr>gpr_text := sent,
      gpr_object := take 15 (strip_delimiter obj), gpr_comment := take 25 (strip_delimiter comment),
      latitude_raw := lat_field lat, longitude_raw := lon_field lon,
      altitude_raw := alt_field has alt u, time_raw := time_field ts tz,
      has_latitude := True, latitude_deg := of_int (lround (lat * 1000000)) / 1000000,
      has_longitude := True, longitude_deg := of_int (lround (lon * 1000000)) / 1000000, valid_position := True,
      has_timestamp := True, timestamp_utc := ts, timezone_code := if tz = CHR 0x00 then CHR ''Z'' else tz,
      valid_timestamp := True\<rparr>"
  shows "parse_gpr sent strict =
    (if \<not> has then report\<lparr>valid_gpr_structure := True, manual_or_invalid_position := True\<rparr>
     else if 0 \<le> lround alt
     then report\<lparr>valid_gpr_structure := True, has_altitude := True, gpr_altitude := of_int (lround alt),
       altitude_unit := if u = CHR 0x00 then CHR ''M'' else u\<rparr>
     else report\<lparr>valid_gpr_structure := \<not> strict, manual_or_invalid_position := True,
       gpr_errors := [''invalid altitude field: '' @ quoted (alt_field has alt u)]\<rparr>)"
proof -
  note time = time_field_read [OF assms(7-11)]
  consider "\<not> has" | "has" "0 \<le> lround alt" | "has" "lround alt < 0" by linarith
  then show ?thesis
  proof cases
    case 1
    then have "has \<longrightarrow> 0 \<le> lround alt \<and> lround alt \<le> 999999" by simp
    note alt = alt_field_read [OF assms(5) this]
    note gen = generated_fields [OF assms(1-4) alt(1) time(2)]
    show ?thesis unfolding assms(12,13) using 1 parse_fields [OF gen(1-10) alt(2-4) time(3,1) gen(11)]
      by (simp add: empty_gpr_def)
  next
    case 2
    then have "has \<longrightarrow> 0 \<le> lround alt \<and> lround alt \<le> 999999" using assms(6) by simp
    note alt = alt_field_read [OF assms(5) this]
    note gen = generated_fields [OF assms(1-4) alt(1) time(2)]
    show ?thesis unfolding assms(12,13) using 2 parse_fields [OF gen(1-10) alt(2-4) time(3,1) gen(11)]
      by (simp add: empty_gpr_def)
  next
    case 3
    note alt = negative_alt_field [OF 3(2) assms(5)]
    note gen = generated_fields [OF assms(1-4) alt(1) time(2)]
    show ?thesis unfolding assms(12,13) using 3 parse_fields_bad_altitude [OF gen(1-10) alt(2,3) time(3,1) gen(11)]
      by (simp add: empty_gpr_def)
  qed
qed

theorem report_read_back_witness:
  "valid_gpr_structure (parse_gpr (generate_gpr ''KQ6XA'' (37654321 / 1000000) (- 122987654 / 1000000) True 3
     (CHR ''M'') 1124632355 (CHR ''Z'') ''EVERYTHING FINE'') True)"
proof -
  have "civil_from_days (1124632355 div 86400) = (2005, 8, 21)" by code_simp
  then show ?thesis
    by (subst report_read_back [where y = 2005 and m = 8 and d = 21 and has = True, OF _ _ _ _ _ _ _ _ _ _ _ refl refl])
      (simp_all add: object_char_def is_allowed_object_char_def less_eq_char_def lround_def)
qed

text \<open>
  An altitude below zero: the generator pads after the sign (\<open>0000-5M\<close>), which the parser does not accept:
  the report arrives without an altitude and marked as invalid, and the strict mode rejects it altogether.
\<close>

theorem negative_altitude_lost:
  assumes "3 \<le> length obj" "list_all object_char obj" "\<bar>lat\<bar> \<le> 90" "\<bar>lon\<bar> \<le> 180"
    and "u \<in> {CHR 0x00, CHR ''M'', CHR ''F''}" and "lround alt < 0"
    and "\<bar>ts\<bar> \<le> 10 ^ 13" "civil_from_days (ts div 86400) = (y, m, d)" "0 \<le> y" "y \<le> 9999"
    and "tz = CHR 0x00 \<or> CHR ''A'' \<le> tz \<and> tz \<le> CHR ''Z''"
    and "g = parse_gpr (generate_gpr obj lat lon True alt u ts tz comment) strict"
  shows "\<not> has_altitude g \<and> manual_or_invalid_position g \<and> (valid_gpr_structure g \<longleftrightarrow> \<not> strict)"
proof -
  note time = time_field_read [OF assms(7-11)] and alt = negative_alt_field [OF assms(6,5)]
  note gen = generated_fields [OF assms(1-4) alt(1) time(2)]
  show ?thesis
    unfolding assms(12) using parse_fields_bad_altitude [OF gen(1-10) alt(2,3) time(3,1) gen(11)] by (simp add: empty_gpr_def)
qed

theorem negative_altitude_lost_witness:
  "\<not> has_altitude (parse_gpr (generate_gpr ''KQ6XA'' (37654321 / 1000000) (- 122987654 / 1000000) True (-5)
     (CHR ''M'') 1124632355 (CHR ''Z'') ''DEAD SEA'') True)"
proof -
  have "civil_from_days (1124632355 div 86400) = (2005, 8, 21)" by code_simp
  then show ?thesis
    using negative_altitude_lost [of "''KQ6XA''" "37654321 / 1000000" "- 122987654 / 1000000" "CHR ''M''" "-5"
        1124632355 2005 8 21 "CHR ''Z''" _ "''DEAD SEA''" True]
    by (simp add: object_char_def is_allowed_object_char_def less_eq_char_def lround_def)
qed

end
