(* ===== verification/Word_Grid.thy ===== *)
theory Word_Grid
  imports Ale_Codec
begin

text \<open>
  The word grid of the demodulator (\<open>src/Modem/word_grid_tracker.cpp\<close>): which of the words decoded
  at neighbouring sample positions is reported, when the receiver locks to the grid of words and loses it,
  and the operating point of the error correction that follows the quality of the channel. Positions are
  32-bit counts of samples and wrap. The energies and the quality, \<open>float\<close>s, are rational numbers.
  The operations return the state and the words given to the callback.
\<close>

section \<open>State\<close>

definition SAMPLES_PER_SYMBOL :: u32 where "SAMPLES_PER_SYMBOL = 64"
definition WORD_SAMPLES :: u32 where "WORD_SAMPLES = of_nat SYMBOLS_PER_WORD * SAMPLES_PER_SYMBOL"
definition MIN_UNANIMOUS :: u8 where "MIN_UNANIMOUS = 33"
definition GRID_TIMEOUT_SAMPLES :: u32 where "GRID_TIMEOUT_SAMPLES = 3 * WORD_SAMPLES"

lemma grid_numbers [simp]:
  "SAMPLES_PER_SYMBOL = 64" "WORD_SAMPLES = 3136" "GRID_TIMEOUT_SAMPLES = 9408"
  by (simp_all add: SAMPLES_PER_SYMBOL_def WORD_SAMPLES_def GRID_TIMEOUT_SAMPLES_def SYMBOLS_PER_WORD_def)

record candidate =
  cand_word :: ale_word
  cand_fec :: decode_result
  cand_votes :: u8
  cand_energy :: rat
  decoded_ok :: bool

definition INIT_QUALITY :: rat where "INIT_QUALITY = 40"

definition observe :: "u8 \<Rightarrow> rat \<Rightarrow> rat" where
  "observe votes quality = quality + 1 / 8 * (of_nat (unat votes) - quality)"

definition adaptive_mode :: "rat \<Rightarrow> golay_mode" where
  "adaptive_mode quality =
     (if quality \<ge> 48 then Mode1_6 else if quality \<ge> 45 then Mode2_5 else Mode3_4)"

definition adaptive_threshold :: "rat \<Rightarrow> u8" where
  "adaptive_threshold quality =
     (let t = quality - 8;
          t = (if t < 30 then 30 else t);
          t = (if t > 42 then 42 else t)
      in of_int \<lfloor>t + 1 / 2\<rfloor>)"

record operating_point =
  base_mode :: golay_mode
  base_min_unanimous :: u8
  op_mode :: golay_mode
  min_unanimous :: u8
  adaptive :: bool
  afec_quality :: rat

record refinement =
  active :: bool
  first_pos :: u32
  best_pos :: u32
  best_energy :: rat
  best_votes :: u8
  best_word :: ale_word

record grid_tracker =
  grid_locked :: bool
  grid_anchor :: u32
  uncorr_anchor :: u32
  ref_state :: refinement
  op_point :: operating_point

definition init_refinement :: refinement where
  "init_refinement = \<lparr> active = False, first_pos = 0, best_pos = 0, best_energy = 0, best_votes = 0,
     best_word = ALEWord \<rparr>"

definition init_tracker :: grid_tracker where
  "init_tracker = \<lparr> grid_locked = False, grid_anchor = 0, uncorr_anchor = 0, ref_state = init_refinement,
     op_point = \<lparr> base_mode = Mode3_4, base_min_unanimous = MIN_UNANIMOUS, op_mode = Mode3_4,
       min_unanimous = MIN_UNANIMOUS, adaptive = False, afec_quality = INIT_QUALITY \<rparr> \<rparr>"

section \<open>Operations\<close>

definition restore_base :: "operating_point \<Rightarrow> operating_point" where
  "restore_base p = p\<lparr>op_mode := base_mode p, min_unanimous := base_min_unanimous p, afec_quality := INIT_QUALITY\<rparr>"

definition tracker_reset :: "grid_tracker \<Rightarrow> grid_tracker" where
  "tracker_reset g = g\<lparr>grid_locked := False, grid_anchor := 0, uncorr_anchor := 0,
     ref_state := (ref_state g)\<lparr>active := False, best_energy := 0, best_word := ALEWord\<rparr>,
     op_point := restore_base (op_point g)\<rparr>"

definition commit_refined_word :: "grid_tracker \<Rightarrow> grid_tracker \<times> ale_word list" where
  "commit_refined_word g =
     (let r = ref_state g; p = op_point g;
          p' = (if adaptive p
                then let q = observe (best_votes r) (afec_quality p)
                     in p\<lparr>afec_quality := q, op_mode := adaptive_mode q, min_unanimous := adaptive_threshold q\<rparr>
                else p)
      in (g\<lparr>grid_locked := True, grid_anchor := best_pos r, ref_state := r\<lparr>active := False\<rparr>, op_point := p'\<rparr>,
          [best_word r]))"

definition gate_word :: "grid_tracker \<Rightarrow> candidate \<Rightarrow> u32 \<Rightarrow> bool" where
  "gate_word g c pos =
     (if cand_votes c < min_unanimous (op_point g) then False
      else if \<not> grid_locked g then word_type (cand_word c) \<in> {TO, TIS, TWAS, FROM}
      else let since = pos - grid_anchor g in
        if since < WORD_SAMPLES - SAMPLES_PER_SYMBOL then False
        else if flag (cand_fec c) = DECODE_OK then True
        else let phase = since mod WORD_SAMPLES
             in phase \<le> SAMPLES_PER_SYMBOL \<or> phase \<ge> WORD_SAMPLES - SAMPLES_PER_SYMBOL)"

definition try_emit_decoded :: "candidate \<Rightarrow> u32 \<Rightarrow> grid_tracker \<Rightarrow> grid_tracker" where
  "try_emit_decoded c pos g =
     (let r = ref_state g;
          r = (if \<not> active r then r\<lparr>active := True, first_pos := pos, best_energy := -1\<rparr> else r);
          r = (if cand_energy c > best_energy r
               then r\<lparr>best_energy := cand_energy c, best_pos := pos, best_votes := cand_votes c,
                      best_word := cand_word c\<rparr>
               else r)
      in g\<lparr>ref_state := r\<rparr>)"

definition try_emit_uncorrectable :: "ale_word \<Rightarrow> u32 \<Rightarrow> grid_tracker \<Rightarrow> grid_tracker \<times> ale_word list" where
  "try_emit_uncorrectable w pos g =
     (let since = pos - grid_anchor g;
          min_sp = WORD_SAMPLES - SAMPLES_PER_SYMBOL
      in if since < min_sp then (g, [])
         else if since mod WORD_SAMPLES = 0 \<and> pos - uncorr_anchor g \<ge> min_sp
         then (g\<lparr>uncorr_anchor := pos\<rparr>, [w])
         else (g, []))"

definition release_stale_grid :: "u32 \<Rightarrow> grid_tracker \<Rightarrow> grid_tracker" where
  "release_stale_grid pos g =
     (if grid_locked g \<and> \<not> active (ref_state g) \<and> pos - grid_anchor g > GRID_TIMEOUT_SAMPLES
      then g\<lparr>op_point := restore_base (op_point g), grid_locked := False\<rparr> else g)"

definition process_candidate :: "candidate \<Rightarrow> u32 \<Rightarrow> grid_tracker \<Rightarrow> grid_tracker \<times> ale_word list" where
  "process_candidate c pos g =
     (let (g, out) = (if active (ref_state g) \<and> pos - first_pos (ref_state g) \<ge> SAMPLES_PER_SYMBOL
                      then commit_refined_word g else (g, []));
          g = release_stale_grid pos g
      in if decoded_ok c \<and> gate_word g c pos then (try_emit_decoded c pos g, out)
         else if \<not> decoded_ok c \<and> \<not> active (ref_state g) \<and> grid_locked g
                 \<and> cand_votes c \<ge> min_unanimous (op_point g)
                 \<and> (golay_uncorrectable (cand_word c) \<or> \<not> valid (cand_word c))
         then let (g, more) = try_emit_uncorrectable (cand_word c) pos g in (g, out @ more)
         else (g, out))"

definition on_silence_gap :: "grid_tracker \<Rightarrow> grid_tracker \<times> ale_word list" where
  "on_silence_gap g =
     (let (g, out) = (if active (ref_state g) then commit_refined_word g else (g, []));
          g = (if grid_locked g then g\<lparr>op_point := restore_base (op_point g)\<rparr> else g)
      in (g\<lparr>grid_locked := False\<rparr>, out))"

definition use_fine_step :: "grid_tracker \<Rightarrow> bool" where
  "use_fine_step g \<longleftrightarrow> grid_locked g \<or> active (ref_state g)"

definition set_golay_mode :: "golay_mode \<Rightarrow> grid_tracker \<Rightarrow> grid_tracker" where
  "set_golay_mode m g = g\<lparr>op_point := (op_point g)\<lparr>base_mode := m, op_mode := m\<rparr>\<rparr>"

definition set_min_unanimous_votes :: "u8 \<Rightarrow> grid_tracker \<Rightarrow> grid_tracker" where
  "set_min_unanimous_votes v g = g\<lparr>op_point := (op_point g)\<lparr>base_min_unanimous := v, min_unanimous := v\<rparr>\<rparr>"

definition set_adaptive_fec :: "bool \<Rightarrow> grid_tracker \<Rightarrow> grid_tracker" where
  "set_adaptive_fec on g =
     (let p = (op_point g)\<lparr>adaptive := on\<rparr>
      in g\<lparr>op_point := if on then p else restore_base p\<rparr>)"

datatype tracker_event = Candidate candidate u32 | Silence_Gap | Reset | Set_Mode golay_mode
  | Set_Votes u8 | Set_Adaptive bool

fun tracker_step :: "grid_tracker \<Rightarrow> tracker_event \<Rightarrow> grid_tracker \<times> ale_word list" where
  "tracker_step g (Candidate c pos) = process_candidate c pos g"
| "tracker_step g Silence_Gap = on_silence_gap g"
| "tracker_step g Reset = (tracker_reset g, [])"
| "tracker_step g (Set_Mode m) = (set_golay_mode m g, [])"
| "tracker_step g (Set_Votes v) = (set_min_unanimous_votes v g, [])"
| "tracker_step g (Set_Adaptive on) = (set_adaptive_fec on g, [])"

fun tracker_run :: "grid_tracker \<Rightarrow> tracker_event list \<Rightarrow> grid_tracker \<times> ale_word list" where
  "tracker_run g [] = (g, [])"
| "tracker_run g (e # es) =
     (let (g, out) = tracker_step g e; (g, more) = tracker_run g es in (g, out @ more))"

section \<open>Refinement of a word boundary\<close>

definition passes :: "grid_tracker \<Rightarrow> candidate \<times> u32 \<Rightarrow> bool" where
  "passes g = (\<lambda>(c, p). decoded_ok c \<and> gate_word g c p)"

definition pick :: "refinement \<Rightarrow> candidate \<times> u32 \<Rightarrow> refinement" where
  "pick r = (\<lambda>(c, p). if cand_energy c > best_energy r
     then r\<lparr>best_energy := cand_energy c, best_pos := p, best_votes := cand_votes c, best_word := cand_word c\<rparr>
     else r)"

lemma pick_keeps [simp]: "active (pick r x) = active r" "first_pos (pick r x) = first_pos r"
  by (simp_all add: pick_def split: prod.splits)

lemma pick_better:
  "cand_energy c > best_energy r \<Longrightarrow> pick r (c, p) =
    r\<lparr>best_energy := cand_energy c, best_pos := p, best_votes := cand_votes c, best_word := cand_word c\<rparr>"
  by (simp add: pick_def)

lemma pick_same: "\<not> cand_energy c > best_energy r \<Longrightarrow> pick r (c, p) = r"
  by (simp add: pick_def)

lemma gate_word_ref [simp]: "gate_word (g\<lparr>ref_state := r\<rparr>) c p = gate_word g c p"
  by (simp add: gate_word_def Let_def)

lemma passes_ref [simp]: "passes (g\<lparr>ref_state := r\<rparr>) = passes g"
  by (simp add: passes_def fun_eq_iff)

lemma candidate_while_refining:
  assumes "active (ref_state g)" "p - first_pos (ref_state g) < 64"
  shows "process_candidate c p g =
    (if passes g (c, p) then g\<lparr>ref_state := pick (ref_state g) (c, p)\<rparr> else g, [])"
proof -
  have "release_stale_grid p g = g" using assms(1) by (simp add: release_stale_grid_def)
  moreover have "\<not> p - first_pos (ref_state g) \<ge> 64" using assms(2) by (simp add: not_le)
  ultimately show ?thesis using assms(1)
    by (simp add: process_candidate_def passes_def try_emit_decoded_def pick_def Let_def)
qed

abbreviation candidates :: "(candidate \<times> u32) list \<Rightarrow> tracker_event list" where
  "candidates cs \<equiv> map (\<lambda>(c, p). Candidate c p) cs"

lemma run_while_refining:
  assumes "active (ref_state g)" "\<forall>(c, p) \<in> set cs. p - first_pos (ref_state g) < 64"
  shows "tracker_run g (candidates cs) =
    (g\<lparr>ref_state := foldl pick (ref_state g) (filter (passes g) cs)\<rparr>, [])"
  using assms
proof (induction cs arbitrary: g)
  case (Cons x cs)
  obtain c p where x: "x = (c, p)" by (cases x)
  have "tracker_step g (Candidate c p) =
      (if passes g (c, p) then g\<lparr>ref_state := pick (ref_state g) (c, p)\<rparr> else g, [])"
    using candidate_while_refining [of g p c] Cons.prems x by simp
  moreover define h where "h = (if passes g (c, p) then g\<lparr>ref_state := pick (ref_state g) (c, p)\<rparr> else g)"
  moreover have "active (ref_state h)" "first_pos (ref_state h) = first_pos (ref_state g)" "passes h = passes g"
    using Cons.prems(1) by (simp_all add: h_def)
  ultimately show ?case using Cons.IH [of h] Cons.prems(2) by (simp add: x Let_def)
qed simp

definition set_best :: "candidate \<Rightarrow> u32 \<Rightarrow> refinement \<Rightarrow> refinement" where
  "set_best c p r = r\<lparr>best_energy := cand_energy c, best_pos := p, best_votes := cand_votes c, best_word := cand_word c\<rparr>"

text \<open>The first of the candidates with the greatest energy, between those before and those after it.\<close>

definition peak ::
  "(candidate \<times> u32) list \<Rightarrow> (candidate \<times> u32) list \<Rightarrow> candidate \<Rightarrow> u32 \<Rightarrow> (candidate \<times> u32) list \<Rightarrow> bool" where
  "peak xs bs c p as \<longleftrightarrow> xs = bs @ (c, p) # as
     \<and> (\<forall>(b, _) \<in> set bs. cand_energy b < cand_energy c) \<and> (\<forall>(a, _) \<in> set as. cand_energy a \<le> cand_energy c)"

lemma peak_extend: "peak xs bs c p as \<Longrightarrow> cand_energy c' \<le> cand_energy c \<Longrightarrow> peak (xs @ [(c', p')]) bs c p (as @ [(c', p')])"
  by (simp add: peak_def)

lemma peak_new: "\<forall>x \<in> set xs. cand_energy (fst x) < cand_energy c \<Longrightarrow> peak (xs @ [(c, p)]) xs c p []"
  by (auto simp: peak_def)

lemma peak_max: "peak xs bs c p as \<Longrightarrow> \<forall>x \<in> set xs. cand_energy (fst x) \<le> cand_energy c"
  by (fastforce simp: peak_def)

lemma foldl_pick:
  "(\<forall>x \<in> set xs. cand_energy (fst x) \<le> best_energy r) \<and> foldl pick r xs = r \<or>
   (\<exists>bs c p as. peak xs bs c p as \<and> cand_energy c > best_energy r \<and> foldl pick r xs = set_best c p r)"
proof (induction xs rule: rev_induct)
  case (snoc x xs)
  obtain c' p' where x: "x = (c', p')" by (cases x)
  from snoc.IH consider
      "\<forall>x\<in>set xs. cand_energy (fst x) \<le> best_energy r" "foldl pick r xs = r"
    | bs c p as where "peak xs bs c p as" "cand_energy c > best_energy r" "foldl pick r xs = set_best c p r"
    by blast
  then show ?case
  proof cases
    case 1
    show ?thesis
    proof (cases "cand_energy c' > best_energy r")
      case True
      then have "peak (xs @ [x]) xs c' p' []" unfolding x using 1(1) by (intro peak_new) fastforce
      moreover have "foldl pick r (xs @ [x]) = set_best c' p' r"
        using 1(2) x pick_better [OF True] by (simp add: set_best_def)
      ultimately show ?thesis using True by blast
    qed (use 1 x in \<open>auto simp: pick_same\<close>)
  next
    case 2
    have e: "best_energy (set_best c p r) = cand_energy c" by (simp add: set_best_def)
    show ?thesis
    proof (cases "cand_energy c' > cand_energy c")
      case True
      then have "peak (xs @ [x]) xs c' p' []" unfolding x using peak_max [OF 2(1)] by (intro peak_new) fastforce
      moreover have "foldl pick r (xs @ [x]) = set_best c' p' r"
        using 2(3) x e True by (simp add: pick_better) (simp add: set_best_def)
      moreover have "cand_energy c' > best_energy r" using True 2(2) by simp
      ultimately show ?thesis by blast
    next
      case False
      then have "peak (xs @ [x]) bs c p (as @ [x])" unfolding x using 2(1) by (intro peak_extend) simp_all
      moreover have "foldl pick r (xs @ [x]) = set_best c p r" using 2(3) x e False by (simp add: pick_same)
      ultimately show ?thesis using 2(2) by blast
    qed
  qed
qed simp

lemma within_word:
  fixes p q p0 :: u32
  assumes "p - p0 < 64" "64 \<le> q - p0" "q - p0 < 3072"
  shows "q - p < 3072"
proof -
  have "q - p = (q - p0) - (p - p0)" by simp
  also have "\<dots> \<le> q - p0" using assms(1,2) by (intro word_sub_le) (meson less_imp_le order_trans)
  finally show ?thesis using assms(3) by simp
qed

section \<open>The word reported\<close>

text \<open>
  C18. Of the candidates that pass the gate at positions within one symbol of the first one, the tracker reports
  exactly one word: the first of those whose tone energy is greatest. It does so when the next candidate
  lies a symbol or more behind (but less than 48 symbols), and then the grid is locked to the position of
  the reported word; or at the end of the transmission.
\<close>

theorem best_candidate_committed:
  assumes "\<not> active (ref_state g)" "cs = (c0, p0) # rest" "\<forall>(c, p) \<in> set rest. p - p0 < 64"
    and "\<forall>(c, p) \<in> set cs. 0 \<le> cand_energy c"
    and "h = release_stale_grid p0 g" "decoded_ok c0" "gate_word h c0 p0"
  shows "\<exists>bs c p as. peak (filter (\<lambda>(c, p). decoded_ok c \<and> gate_word h c p) cs) bs c p as
    \<and> (\<forall>c' q. 64 \<le> q - p0 \<and> q - p0 < 3072 \<longrightarrow>
          (let (g', out) = tracker_run g (candidates (cs @ [(c', q)]))
           in out = [cand_word c] \<and> grid_locked g' \<and> grid_anchor g' = p))
    \<and> (let (g', out) = tracker_run g (candidates cs @ [Silence_Gap])
       in out = [cand_word c] \<and> \<not> grid_locked g')"
proof -
  define r0 where "r0 = (ref_state h)\<lparr>active := True, first_pos := p0, best_energy := -1\<rparr>"
  define r1 where "r1 = pick r0 (c0, p0)"
  have hr: "ref_state h = ref_state g" by (simp add: assms(5) release_stale_grid_def)
  have "process_candidate c0 p0 g = (try_emit_decoded c0 p0 h, [])"
    using assms(1,5-7) by (simp add: process_candidate_def Let_def)
  also have "try_emit_decoded c0 p0 h = h\<lparr>ref_state := r1\<rparr>"
    using assms(1) hr by (simp add: try_emit_decoded_def r1_def r0_def pick_def Let_def)
  finally have first: "tracker_step g (Candidate c0 p0) = (h\<lparr>ref_state := r1\<rparr>, [])" by simp
  have r1: "active r1" "first_pos r1 = p0" by (simp_all add: r1_def r0_def)
  define r where "r = foldl pick r0 (filter (passes h) cs)"
  have r_rest: "r = foldl pick r1 (filter (passes h) rest)"
    using assms(2,6,7) by (simp add: r_def r1_def passes_def)
  have run_rest: "tracker_run (h\<lparr>ref_state := r1\<rparr>) (candidates rest) = (h\<lparr>ref_state := r\<rparr>, [])"
    using run_while_refining [of "h\<lparr>ref_state := r1\<rparr>" rest] r1 assms(3) by (simp add: r_rest)
  have run_append: "tracker_run g (xs @ ys) = (let (g, out) = tracker_run g xs; (g, more) = tracker_run g ys in (g, out @ more))"
    for g xs ys by (induction xs arbitrary: g) (simp_all add: Let_def split: prod.splits)
  have run: "tracker_run g (candidates cs) = (h\<lparr>ref_state := r\<rparr>, [])"
    unfolding assms(2) using first run_rest by simp
  have "(c0, p0) \<in> set (filter (passes h) cs)" using assms(2,6,7) by (simp add: passes_def)
  moreover have "0 \<le> cand_energy c0" using assms(2,4) by simp
  ultimately have "\<not> (\<forall>x \<in> set (filter (passes h) cs). cand_energy (fst x) \<le> best_energy r0)"
    by (force simp: r0_def)
  then obtain bs c p as where b: "peak (filter (passes h) cs) bs c p as" "r = set_best c p r0"
    using foldl_pick [of "filter (passes h) cs" r0] unfolding r_def [symmetric] by blast
  have r: "active r" "first_pos r = p0" "best_pos r = p" "best_word r = cand_word c" by (simp_all add: b(2) r0_def set_best_def)
  have "(c, p) \<in> set (filter (passes h) cs)" using b(1) by (simp add: peak_def)
  then have "(c, p) \<in> set cs" by simp
  then have p: "p - p0 < 64" using assms(2,3) by auto
  have close: "\<exists>g'. process_candidate c' q (h\<lparr>ref_state := r\<rparr>) = (g', [cand_word c]) \<and> grid_locked g' \<and> grid_anchor g' = p"
    if q: "64 \<le> q - p0" "q - p0 < 3072" for c' q
  proof -
    obtain k where k: "commit_refined_word (h\<lparr>ref_state := r\<rparr>) = (k, [cand_word c])"
      "grid_locked k" "grid_anchor k = p" "\<not> active (ref_state k)"
      by (simp add: commit_refined_word_def Let_def r)
    have w: "q - p < 3072" using within_word [OF p q] .
    then have "\<not> q - p > 9408" using order.strict_trans by (fastforce simp: not_less)
    then have "release_stale_grid q k = k" using k by (simp add: release_stale_grid_def)
    moreover have "\<not> gate_word k c' q" using k w by (simp add: gate_word_def Let_def)
    moreover have "try_emit_uncorrectable w' q k = (k, [])" for w'
      using k w by (simp add: try_emit_uncorrectable_def Let_def)
    ultimately show ?thesis using k r q(1) by (simp add: process_candidate_def Let_def)
  qed
  have "\<forall>c' q. 64 \<le> q - p0 \<and> q - p0 < 3072 \<longrightarrow>
          (let (g', out) = tracker_run g (candidates (cs @ [(c', q)]))
           in out = [cand_word c] \<and> grid_locked g' \<and> grid_anchor g' = p)"
  proof (intro allI impI)
    fix c' q
    assume "64 \<le> q - p0 \<and> q - p0 < 3072"
    then obtain g' where "process_candidate c' q (h\<lparr>ref_state := r\<rparr>) = (g', [cand_word c])"
      "grid_locked g'" "grid_anchor g' = p" using close by blast
    then show "let (g', out) = tracker_run g (candidates (cs @ [(c', q)]))
           in out = [cand_word c] \<and> grid_locked g' \<and> grid_anchor g' = p"
      by (simp add: run_append run)
  qed
  moreover have "let (g', out) = tracker_run g (candidates cs @ [Silence_Gap])
       in out = [cand_word c] \<and> \<not> grid_locked g'"
    by (simp add: run_append run on_silence_gap_def commit_refined_word_def Let_def r)
  moreover have "peak (filter (\<lambda>(c, p). decoded_ok c \<and> gate_word h c p) cs) bs c p as"
    using b(1) by (simp add: passes_def)
  ultimately show ?thesis by blast
qed

definition example_candidate :: "preamble_type \<Rightarrow> rat \<Rightarrow> u8 \<Rightarrow> candidate" where
  "example_candidate t e v = \<lparr> cand_word = ALEWord\<lparr>word_type := t, raw_payload := of_int \<lfloor>e\<rfloor>\<rparr>,
     cand_fec = \<lparr> flag = DECODE_OK, errors_corrected = 0 \<rparr>, cand_votes = v, cand_energy = e, decoded_ok = True \<rparr>"

theorem best_candidate_committed_witness:
  "\<exists>c \<in> {example_candidate TO 5 48, example_candidate TO 9 48}.
     snd (tracker_run init_tracker
       (candidates [(example_candidate TO 5 48, 3136), (example_candidate TO 9 48, 3140)] @ [Silence_Gap])) = [cand_word c]"
proof -
  let ?cs = "[(example_candidate TO 5 48, 3136), (example_candidate TO 9 48, 3140)]"
  have s: "release_stale_grid 3136 init_tracker = init_tracker" by (simp add: release_stale_grid_def init_tracker_def)
  obtain bs c p as where
    p: "peak (filter (\<lambda>(c, p). decoded_ok c \<and> gate_word init_tracker c p) ?cs) bs c p as"
    and run: "let (g', out) = tracker_run init_tracker (candidates ?cs @ [Silence_Gap])
       in out = [cand_word c] \<and> \<not> grid_locked g'"
    using best_candidate_committed [of init_tracker ?cs "example_candidate TO 5 48" 3136
        "[(example_candidate TO 9 48, 3140)]" init_tracker]
    by (simp add: s) (auto simp: init_tracker_def init_refinement_def example_candidate_def gate_word_def MIN_UNANIMOUS_def)
  have "(c, p) \<in> set (filter (\<lambda>(c, p). decoded_ok c \<and> gate_word init_tracker c p) ?cs)"
    using p unfolding peak_def by simp
  then have "(c, p) \<in> set ?cs" by (rule subsetD [OF filter_is_subset])
  then have "c \<in> {example_candidate TO 5 48, example_candidate TO 9 48}" by auto
  with run show ?thesis by (auto simp: Let_def split: prod.splits)
qed

section \<open>Locking and the operating point\<close>

text \<open>
  A receiver without a lock neither reports a word nor locks, nor turns to the fine search, as long as no
  decoded word opens an address: whatever DATA, REP, CMD and THRU words and undecodable words arrive, and
  whatever the settings are changed to.
\<close>

theorem only_openings_lock:
  assumes "\<not> use_fine_step g"
    and "\<forall>c p. Candidate c p \<in> set es \<and> decoded_ok c \<longrightarrow> word_type (cand_word c) \<notin> {TO, TIS, TWAS, FROM}"
  shows "snd (tracker_run g es) = [] \<and> \<not> use_fine_step (fst (tracker_run g es))"
  using assms
proof (induction es arbitrary: g)
  case (Cons e es)
  have "snd (tracker_step g e) = [] \<and> \<not> use_fine_step (fst (tracker_step g e))"
  proof (cases e)
    case (Candidate c p)
    then have "\<not> (decoded_ok c \<and> word_type (cand_word c) \<in> {TO, TIS, TWAS, FROM})" using Cons.prems(2) by auto
    then show ?thesis using Cons.prems(1) Candidate
      by (auto simp: process_candidate_def release_stale_grid_def use_fine_step_def gate_word_def)
  qed (use Cons.prems(1) in \<open>simp_all add: use_fine_step_def on_silence_gap_def tracker_reset_def set_golay_mode_def
      set_min_unanimous_votes_def set_adaptive_fec_def Let_def\<close>)
  then show ?case using Cons.IH [of "fst (tracker_step g e)"] Cons.prems(2)
    by (simp add: Let_def split: prod.splits) fastforce
qed simp

theorem only_openings_lock_witness:
  "snd (tracker_run init_tracker [Candidate (example_candidate DATA 5 48) 3136, Candidate (example_candidate CMD 7 48) 6272]) = []"
  by (rule only_openings_lock [THEN conjunct1])
    (auto simp: use_fine_step_def init_tracker_def init_refinement_def example_candidate_def)

definition at_base :: "grid_tracker \<Rightarrow> bool" where
  "at_base g \<longleftrightarrow> op_mode (op_point g) = base_mode (op_point g)
     \<and> min_unanimous (op_point g) = base_min_unanimous (op_point g) \<and> afec_quality (op_point g) = INIT_QUALITY"

lemma at_base_restore: "op_point g = restore_base p \<Longrightarrow> at_base g"
  by (simp add: at_base_def restore_base_def)

lemma locked_or_base_step:
  assumes "grid_locked g \<or> at_base g"
  shows "grid_locked (fst (tracker_step g e)) \<or> at_base (fst (tracker_step g e))"
proof (cases e)
  case (Candidate c p)
  have "grid_locked h \<or> at_base h \<Longrightarrow> grid_locked (release_stale_grid p h) \<or> at_base (release_stale_grid p h)" for h
    by (auto simp: release_stale_grid_def at_base_def restore_base_def)
  moreover have "grid_locked (fst (commit_refined_word g))" by (simp add: commit_refined_word_def Let_def)
  ultimately have "grid_locked (release_stale_grid p (fst (if b then commit_refined_word g else (g, []))))
      \<or> at_base (release_stale_grid p (fst (if b then commit_refined_word g else (g, []))))" for b
    using assms by auto
  moreover have "grid_locked (try_emit_decoded c p h) = grid_locked h" "at_base (try_emit_decoded c p h) = at_base h" for h
    by (simp_all add: try_emit_decoded_def at_base_def Let_def)
  moreover have "grid_locked (fst (try_emit_uncorrectable w p h)) = grid_locked h"
    "at_base (fst (try_emit_uncorrectable w p h)) = at_base h" for w h
    by (simp_all add: try_emit_uncorrectable_def at_base_def Let_def)
  ultimately show ?thesis
    unfolding Candidate tracker_step.simps process_candidate_def Let_def
    by (auto simp: split_beta)
next
  case Silence_Gap
  then show ?thesis using assms
    by (auto simp: on_silence_gap_def at_base_def restore_base_def commit_refined_word_def Let_def)
qed (use assms in \<open>auto simp: tracker_reset_def at_base_def restore_base_def set_golay_mode_def
      set_min_unanimous_votes_def set_adaptive_fec_def Let_def\<close>)

interpretation tracker: event_machine "\<lambda>g e. fst (tracker_step g e)" "\<lambda>g. grid_locked g \<or> at_base g"
  by unfold_locales (rule locked_or_base_step)

lemma tracker_run_foldl: "fst (tracker_run g es) = foldl (\<lambda>g e. fst (tracker_step g e)) g es"
  by (induction es arbitrary: g) (simp_all add: Let_def split_beta)

text \<open>
  Whatever candidates, gaps and settings arrive, a receiver that is not locked to a grid searches with the
  configured operating point: the mode of the Golay decoder and the threshold of votes that the adaptation
  made are gone, and its estimate of the quality starts again.
\<close>

theorem unlocked_at_base:
  "grid_locked (fst (tracker_run init_tracker es)) \<or> at_base (fst (tracker_run init_tracker es))"
  unfolding tracker_run_foldl by (rule tracker.run_inv) (simp add: init_tracker_def at_base_def)

lemma decoder_votes_bound: "snd (majority_vote symbols) \<le> 48"
proof -
  have "unat (snd (fold (vote_bit symbols) ks (t, u))) \<le> unat u + length ks" if "unat u + length ks < 256" for ks t u
    using that
  proof (induction ks arbitrary: t u)
    case (Cons k ks)
    obtain t' u' where v: "vote_bit symbols k (t, u) = (t', u')" by (cases "vote_bit symbols k (t, u)")
    then have "u' = u \<or> u' = u + 1" by (auto simp: vote_bit_def Let_def split: if_splits)
    then have "unat u' \<le> unat u + 1" by (elim disjE) (simp, unat_arith)
    then show ?case using Cons.IH [of u' t'] Cons.prems v by simp
  qed simp
  from this [of 0 "[0..<48]" 0] show ?thesis
    by (simp add: majority_vote_def SYMBOLS_PER_WORD_def word_le_nat_alt)
qed

definition bounded_point :: "grid_tracker \<Rightarrow> bool" where
  "bounded_point g \<longleftrightarrow> (let p = op_point g in
     best_votes (ref_state g) \<le> 48 \<and> 0 \<le> afec_quality p \<and> afec_quality p < 48
     \<and> (op_mode p = base_mode p \<or> op_mode p = Mode2_5 \<or> op_mode p = Mode3_4)
     \<and> (min_unanimous p = base_min_unanimous p \<or> 30 \<le> min_unanimous p \<and> min_unanimous p \<le> 40))"

lemma observe_bounds:
  assumes "v \<le> 48" "0 \<le> q" "q < 48"
  shows "0 \<le> observe v q" "observe v q < 48"
proof -
  have "unat v \<le> 48" using assms(1) by (simp add: word_le_nat_alt)
  then have "of_nat (unat v) \<le> (of_nat 48 :: rat)" by (simp only: of_nat_le_iff)
  then have "of_nat (unat v) \<le> (48 :: rat)" by (simp only: of_nat_numeral)
  moreover have "observe v q = 7 / 8 * q + of_nat (unat v) / 8" by (simp add: observe_def field_simps)
  moreover have "0 \<le> (of_nat (unat v) :: rat)" by (rule of_nat_0_le_iff)
  ultimately show "0 \<le> observe v q" "observe v q < 48" using assms(2,3) by linarith+
qed

lemma adaptive_threshold_bounds:
  assumes "q < 48"
  shows "30 \<le> adaptive_threshold q" "adaptive_threshold q \<le> 40"
proof -
  define t :: rat where "t = (if q - 8 < 30 then 30 else q - 8)"
  have t: "30 \<le> t" "t < 40" using assms by (auto simp: t_def)
  define k where "k = \<lfloor>t + 1 / 2\<rfloor>"
  have k: "30 \<le> k" "k \<le> 40" unfolding k_def using t by (simp_all add: le_floor_iff floor_le_iff)
  have e: "adaptive_threshold q = of_int k"
    using t unfolding adaptive_threshold_def Let_def t_def [symmetric] k_def by simp
  have "of_int k = (of_nat (nat k) :: u8)" using k by simp
  moreover have "nat k < 2 ^ LENGTH(8)" using k by simp
  ultimately have "unat (of_int k :: u8) = nat k" by (simp only: unsigned_of_nat take_bit_nat_eq_self of_nat_id)
  then show "30 \<le> adaptive_threshold q" "adaptive_threshold q \<le> 40"
    unfolding e word_le_nat_alt using k by simp_all
qed

lemma bounded_commit: "bounded_point g \<Longrightarrow> bounded_point (fst (commit_refined_word g))"
  using observe_bounds [of "best_votes (ref_state g)" "afec_quality (op_point g)"]
    adaptive_threshold_bounds [of "observe (best_votes (ref_state g)) (afec_quality (op_point g))"]
  by (auto simp: bounded_point_def commit_refined_word_def adaptive_mode_def Let_def)

lemma bounded_restore: "bounded_point g \<Longrightarrow> bounded_point (g\<lparr>op_point := restore_base (op_point g)\<rparr>)"
  by (simp add: bounded_point_def restore_base_def INIT_QUALITY_def Let_def)

lemma bounded_locked [simp]: "bounded_point (g\<lparr>grid_locked := b\<rparr>) = bounded_point g"
  "bounded_point (g\<lparr>uncorr_anchor := u\<rparr>) = bounded_point g"
  by (simp_all add: bounded_point_def Let_def)

lemma bounded_step:
  assumes "bounded_point g" "\<And>c p. e = Candidate c p \<Longrightarrow> cand_votes c \<le> 48"
  shows "bounded_point (fst (tracker_step g e))"
proof (cases e)
  case (Candidate c p)
  define h where "h = release_stale_grid p (fst (if active (ref_state g) \<and> p - first_pos (ref_state g) \<ge> SAMPLES_PER_SYMBOL
      then commit_refined_word g else (g, [])))"
  have "bounded_point h"
    unfolding h_def using bounded_commit [OF assms(1)] assms(1)
    by (auto simp: release_stale_grid_def intro: bounded_restore)
  moreover from this have "bounded_point (try_emit_decoded c p h)"
    using assms(2) [OF Candidate] by (auto simp: try_emit_decoded_def bounded_point_def Let_def)
  moreover have "bounded_point (fst (try_emit_uncorrectable w p h))" if "bounded_point h" for w
    using that by (simp add: try_emit_uncorrectable_def Let_def)
  ultimately show ?thesis
    unfolding Candidate tracker_step.simps process_candidate_def Let_def h_def by (auto simp: split_beta)
next
  case Silence_Gap
  then show ?thesis using bounded_commit [OF assms(1)] assms(1)
    by (auto simp: on_silence_gap_def Let_def split_beta intro: bounded_restore)
qed (use assms(1) in \<open>auto simp: bounded_point_def tracker_reset_def restore_base_def INIT_QUALITY_def set_golay_mode_def
      set_min_unanimous_votes_def set_adaptive_fec_def Let_def\<close>)

text \<open>
  The adaptation with the votes the decoder counts (at most 48, \<open>decoder_votes_bound\<close>): the quality
  stays below 48, so the threshold stays between 30 and 40 although the code allows 42, and the mode for
  clean channels, chosen from a quality of 48 on, is never chosen: the decoder mode is the configured
  one, \<open>Mode2_5\<close> or \<open>Mode3_4\<close>.
\<close>

theorem clean_mode_never_chosen:
  assumes "\<forall>c p. Candidate c p \<in> set es \<longrightarrow> cand_votes c \<le> 48"
  shows "let p = op_point (fst (tracker_run init_tracker es)) in
     afec_quality p < 48 \<and> (op_mode p = base_mode p \<or> op_mode p = Mode2_5 \<or> op_mode p = Mode3_4)
     \<and> (min_unanimous p = base_min_unanimous p \<or> 30 \<le> min_unanimous p \<and> min_unanimous p \<le> 40)"
proof -
  have "bounded_point g \<Longrightarrow> bounded_point (fst (tracker_run g es))" for g
    using assms
  proof (induction es arbitrary: g)
    case (Cons e es)
    then have "bounded_point (fst (tracker_step g e))" by (intro bounded_step) auto
    then show ?case using Cons.IH [of "fst (tracker_step g e)"] Cons.prems(2) by (simp add: Let_def split_beta) blast
  qed simp
  from this [of init_tracker] show ?thesis
    by (simp add: bounded_point_def init_tracker_def init_refinement_def INIT_QUALITY_def Let_def)
qed

theorem clean_mode_never_chosen_witness:
  "op_mode (op_point (fst (tracker_run init_tracker [Set_Adaptive True, Candidate (example_candidate TO 9 48) 3136, Silence_Gap])))
     \<noteq> Mode1_6"
proof -
  have "base_mode (op_point (fst (tracker_run init_tracker [Set_Adaptive True, Candidate (example_candidate TO 9 48) 3136, Silence_Gap])))
      = Mode3_4"
    by (simp add: init_tracker_def set_adaptive_fec_def process_candidate_def on_silence_gap_def release_stale_grid_def
        commit_refined_word_def restore_base_def gate_word_def try_emit_decoded_def init_refinement_def example_candidate_def Let_def)
  then show ?thesis
    using clean_mode_never_chosen [of "[Set_Adaptive True, Candidate (example_candidate TO 9 48) 3136, Silence_Gap]"]
    by (auto simp: Let_def example_candidate_def)
qed

text \<open>
  One word reported twice: on a locked grid a candidate exactly on the grid that is not decoded but has
  the votes is reported as an invalid word at once; when the same word, a few samples later, is decoded, it is
  reported again. (The opposite order is excluded: while a boundary is refined no invalid word is reported.)
\<close>

theorem word_reported_twice:
  assumes "grid_locked g" "\<not> active (ref_state g)" "a = grid_anchor g" "a + 3136 - uncorr_anchor g \<ge> 3072"
    and "\<not> decoded_ok c" "\<not> valid (cand_word c)" "cand_votes c \<ge> min_unanimous (op_point g)"
    and "decoded_ok d" "flag (cand_fec d) = DECODE_OK" "cand_votes d \<ge> min_unanimous (op_point g)"
    and "0 \<le> cand_energy d" "0 < k" "k < 64"
  shows "snd (tracker_run g [Candidate c (a + 3136), Candidate d (a + 3136 + k), Silence_Gap]) = [cand_word c, cand_word d]"
proof -
  define h where "h = g\<lparr>uncorr_anchor := a + 3136\<rparr>"
  have "unat k < 64" using assms(13) by (simp add: word_less_nat_alt)
  then have k: "unat (3136 + k) = 3136 + unat k" "unat k < 64" by (simp_all add: unat_word_ariths)
  have "process_candidate c (a + 3136) g = (h, [cand_word c])"
    using assms(1-7) by (simp add: process_candidate_def release_stale_grid_def try_emit_uncorrectable_def h_def Let_def)
  moreover have "release_stale_grid (a + 3136 + k) h = h"
  proof -
    have "\<not> 9408 < 3136 + k" using k by (simp add: word_less_nat_alt)
    then show ?thesis using assms(3) by (simp add: release_stale_grid_def h_def add.assoc)
  qed
  moreover have "gate_word h d (a + 3136 + k)"
  proof -
    have "\<not> 3136 + k < 3072" using k by (simp add: word_less_nat_alt)
    then show ?thesis using assms(1,3,9,10) by (simp add: gate_word_def h_def Let_def add.assoc not_less)
  qed
  ultimately show ?thesis using assms(2,8,11)
    by (simp add: process_candidate_def try_emit_decoded_def on_silence_gap_def commit_refined_word_def Let_def h_def)
qed

theorem word_reported_twice_witness:
  "snd (tracker_run init_tracker [Candidate (example_candidate TO 9 48) 3136, Silence_Gap]) \<noteq> []
   \<and> (let g = init_tracker\<lparr>grid_locked := True, grid_anchor := 3136\<rparr>;
          c = (example_candidate DATA 5 40)\<lparr>decoded_ok := False, cand_word := ALEWord\<rparr>
      in snd (tracker_run g [Candidate c 6272, Candidate (example_candidate DATA 9 48) 6276, Silence_Gap])
         = [ALEWord, cand_word (example_candidate DATA 9 48)])"
proof -
  have "snd (tracker_run (init_tracker\<lparr>grid_locked := True, grid_anchor := 3136\<rparr>)
      [Candidate ((example_candidate DATA 5 40)\<lparr>decoded_ok := False, cand_word := ALEWord\<rparr>) (3136 + 3136),
       Candidate (example_candidate DATA 9 48) (3136 + 3136 + 4), Silence_Gap])
    = [cand_word ((example_candidate DATA 5 40)\<lparr>decoded_ok := False, cand_word := ALEWord\<rparr>),
       cand_word (example_candidate DATA 9 48)]"
    by (rule word_reported_twice)
      (simp_all add: init_tracker_def init_refinement_def example_candidate_def MIN_UNANIMOUS_def ALEWord_def)
  then show ?thesis
    by (simp add: Let_def process_candidate_def release_stale_grid_def on_silence_gap_def commit_refined_word_def
        gate_word_def try_emit_decoded_def init_tracker_def init_refinement_def example_candidate_def MIN_UNANIMOUS_def)
qed

end
