(* ===== verification/Fifo.thy ===== *)
theory Fifo
  imports Prelude
begin

text \<open>
  The contract of a buffer between a producer and a consumer: what is put in is accepted or dropped, and
  what is accepted comes out in order, whatever the sizes in which it is put and taken.
\<close>

datatype ('p, 'g) fifo_op = Put 'p | Get 'g

locale fifo_buffer =
  fixes inv :: "'s \<Rightarrow> bool"
    and items :: "'s \<Rightarrow> 'a list"
    and put :: "'p \<Rightarrow> 's \<Rightarrow> 's"
    and accepted :: "'p \<Rightarrow> 's \<Rightarrow> 'a list"
    and get :: "'g \<Rightarrow> 's \<Rightarrow> 'a list \<times> 's"
  assumes put_inv: "inv s \<Longrightarrow> inv (put p s)"
    and put_items: "inv s \<Longrightarrow> items (put p s) = items s @ accepted p s"
    and get_inv: "inv s \<Longrightarrow> inv (snd (get g s))"
    and get_items: "inv s \<Longrightarrow> items s = fst (get g s) @ items (snd (get g s))"
begin

text \<open>A run of operations: the state, everything accepted and everything taken.\<close>

fun run :: "'s \<Rightarrow> ('p, 'g) fifo_op list \<Rightarrow> 's \<times> 'a list \<times> 'a list" where
  "run s [] = (s, [], [])"
| "run s (Put p # es) = (let (s', ins, outs) = run (put p s) es in (s', accepted p s @ ins, outs))"
| "run s (Get g # es) = (let (out, s) = get g s; (s', ins, outs) = run s es in (s', ins, out @ outs))"

lemma run_order:
  assumes "inv s" "run s es = (s', ins, outs)"
  shows "inv s' \<and> items s @ ins = outs @ items s'"
  using assms
proof (induction es arbitrary: s ins outs)
  case (Cons e es)
  show ?case
  proof (cases e)
    case (Put p)
    obtain ins' where "run (put p s) es = (s', ins', outs)" "ins = accepted p s @ ins'"
      using Cons.prems(2) Put by (auto split: prod.splits)
    then show ?thesis using Cons.IH [OF put_inv [OF Cons.prems(1)], of p ins' outs] put_items [OF Cons.prems(1), of p] by simp
  next
    case (Get g)
    obtain outs' where o: "run (snd (get g s)) es = (s', ins, outs')" "outs = fst (get g s) @ outs'"
      using Cons.prems(2) Get by (auto split: prod.splits)
    show ?thesis
      using Cons.IH [OF get_inv [OF Cons.prems(1)] o(1)] get_items [OF Cons.prems(1), of g] o(2) by simp
  qed
qed simp

lemma run_append:
  "run s (es @ es') = (let (s, i1, o1) = run s es; (s, i2, o2) = run s es' in (s, i1 @ i2, o1 @ o2))"
proof (induction es arbitrary: s)
  case (Cons e es)
  then show ?case by (cases e) (simp_all add: split_beta Let_def)
qed (simp add: split_beta)

lemma taken_is_prefix:
  assumes "inv s" "items s = []" "run s es = (s', ins, outs)"
  shows "outs = take (length outs) ins"
  using run_order [OF assms(1,3)] assms(2) by simp

end

end
