(* ===== verification/Modulator.thy ===== *)
theory Modulator
  imports Ale_Codec Ale_Sequence Fifo
begin

text \<open>
  The modulator's queue (\<open>Modulator\<close> of \<open>src/Modem/ale2g_modem.cpp\<close>): transmitted words wait as 49-bit
  frames, the frame in front as symbols for the audio thread. The mutex makes the operations atomic. The
  assertion on the length of the queue is compiled out of a release build and is not modelled.
\<close>

record modulator =
  pending_tx49 :: u64
  word_enqueued :: bool
  tx49_queue :: "u64 list"
  symbol_buf :: "u8 list"

definition init_modulator :: modulator where
  "init_modulator = \<lparr> pending_tx49 = 0, word_enqueued = False, tx49_queue = [],
     symbol_buf = replicate SYMBOLS_PER_WORD 0 \<rparr>"

definition enqueue_tx49 :: "u64 \<Rightarrow> modulator \<Rightarrow> modulator" where
  "enqueue_tx49 tx49 m =
     (if word_enqueued m then m\<lparr>tx49_queue := tx49_queue m @ [tx49]\<rparr>
      else m\<lparr>pending_tx49 := tx49, word_enqueued := True, symbol_buf := encode_tx49 tx49\<rparr>)"

definition advance_queue :: "modulator \<Rightarrow> modulator" where
  "advance_queue m =
     (if word_enqueued m then m
      else case tx49_queue m of
        [] \<Rightarrow> m
      | tx49 # rest \<Rightarrow> m\<lparr>pending_tx49 := tx49, tx49_queue := rest, word_enqueued := True,
          symbol_buf := encode_tx49 tx49\<rparr>)"

definition enqueue_word :: "ale_word \<Rightarrow> modulator \<Rightarrow> modulator" where
  "enqueue_word w m = enqueue_tx49 (ale_word_encode w) m"

definition enqueue_sequence :: "ale_word list \<Rightarrow> modulator \<Rightarrow> modulator" where
  "enqueue_sequence ws m = fold enqueue_tx49 (sequence_encode ws) m"

definition pull_symbol_frame :: "modulator \<Rightarrow> u8 list option \<times> modulator" where
  "pull_symbol_frame m =
     (if \<not> word_enqueued m then (None, m)
      else (Some (take SYMBOLS_PER_WORD (symbol_buf m)), advance_queue (m\<lparr>word_enqueued := False\<rparr>)))"

definition is_transmitting :: "modulator \<Rightarrow> bool" where
  "is_transmitting m \<longleftrightarrow> word_enqueued m \<or> tx49_queue m \<noteq> []"

definition modulator_abort :: "modulator \<Rightarrow> modulator" where
  "modulator_abort m = m\<lparr>tx49_queue := [], word_enqueued := False, pending_tx49 := 0,
     symbol_buf := replicate SYMBOLS_PER_WORD 0\<rparr>"

section \<open>The queue of frames\<close>

definition modulator_inv :: "modulator \<Rightarrow> bool" where
  "modulator_inv m \<longleftrightarrow> (word_enqueued m \<longrightarrow> symbol_buf m = encode_tx49 (pending_tx49 m))
     \<and> (\<not> word_enqueued m \<longrightarrow> tx49_queue m = [])"

definition waiting :: "modulator \<Rightarrow> u64 list" where
  "waiting m = (if word_enqueued m then pending_tx49 m # tx49_queue m else [])"

abbreviation frames :: "modulator \<Rightarrow> u8 list list" where
  "frames m \<equiv> map encode_tx49 (waiting m)"

lemma init_modulator: "modulator_inv init_modulator" "waiting init_modulator = []"
  by (simp_all add: init_modulator_def modulator_inv_def waiting_def)

lemma enqueue_tx49:
  assumes "modulator_inv m"
  shows "modulator_inv (enqueue_tx49 t m)" "waiting (enqueue_tx49 t m) = waiting m @ [t]"
  using assms by (auto simp: modulator_inv_def waiting_def enqueue_tx49_def)

lemma enqueue_sequence:
  assumes "modulator_inv m"
  shows "modulator_inv (enqueue_sequence ws m) \<and> waiting (enqueue_sequence ws m) = waiting m @ sequence_encode ws"
proof -
  have "modulator_inv (fold enqueue_tx49 ts m) \<and> waiting (fold enqueue_tx49 ts m) = waiting m @ ts" for ts
    using assms by (induction ts arbitrary: m) (simp_all add: enqueue_tx49)
  then show ?thesis by (simp add: enqueue_sequence_def)
qed

lemma length_sent_tx49: "length (encode_tx49 t) = SYMBOLS_PER_WORD"
  by (simp add: encode_tx49_def)

lemma pull_symbol_frame:
  assumes "modulator_inv m"
  shows "modulator_inv (snd (pull_symbol_frame m))"
    and "fst (pull_symbol_frame m) = (case waiting m of [] \<Rightarrow> None | t # _ \<Rightarrow> Some (encode_tx49 t))"
    and "waiting (snd (pull_symbol_frame m)) = tl (waiting m)"
  using assms
  by (auto simp: pull_symbol_frame_def advance_queue_def modulator_inv_def waiting_def length_sent_tx49
      split: list.splits)

datatype tx_item = Word ale_word | Sequence "ale_word list"

fun modulator_put :: "tx_item \<Rightarrow> modulator \<Rightarrow> modulator" where
  "modulator_put (Word w) m = enqueue_word w m"
| "modulator_put (Sequence ws) m = enqueue_sequence ws m"

fun words_of :: "tx_item \<Rightarrow> ale_word list" where
  "words_of (Word w) = [w]"
| "words_of (Sequence ws) = ws"

definition modulator_get :: "unit \<Rightarrow> modulator \<Rightarrow> u8 list list \<times> modulator" where
  "modulator_get _ m = (let (f, m) = pull_symbol_frame m in (case f of None \<Rightarrow> [] | Some s \<Rightarrow> [s], m))"

interpretation mq: fifo_buffer modulator_inv frames modulator_put
  "\<lambda>p _. map (\<lambda>w. encode_tx49 (ale_word_encode w)) (words_of p)" modulator_get
proof
  fix m p
  assume m: "modulator_inv m"
  show "modulator_inv (modulator_put p m)"
    using enqueue_tx49 [OF m] enqueue_sequence [OF m] by (cases p) (simp_all add: enqueue_word_def)
  show "frames (modulator_put p m) = frames m @ map (\<lambda>w. encode_tx49 (ale_word_encode w)) (words_of p)"
    using enqueue_tx49 [OF m] enqueue_sequence [OF m]
    by (cases p) (simp_all add: enqueue_word_def sequence_encode_def)
next
  fix m g
  assume m: "modulator_inv m"
  show "modulator_inv (snd (modulator_get g m))"
    using pull_symbol_frame [OF m] by (simp add: modulator_get_def split_beta)
  show "frames m = fst (modulator_get g m) @ frames (snd (modulator_get g m))"
    using pull_symbol_frame [OF m] by (simp add: modulator_get_def split_beta split: list.splits)
qed

section \<open>From the queue to the receiver\<close>

definition sendable :: "ale_word \<Rightarrow> bool" where
  "sendable w \<longleftrightarrow> word_type w \<noteq> UNKNOWN \<and> raw_payload w AND 0x1FFFFF = raw_payload w
     \<and> fst (decode_ascii (raw_payload w) (word_type w))"

lemma half_errors_0: "half_errors 0 = (0, 0)"
  by code_simp

lemma frame_decoded:
  assumes "sendable w"
  shows "let r = decoder_decode (encode_tx49 (ale_word_encode w)) out mode in
    fst r \<and> word_type (fst (snd r)) = word_type w \<and> raw_payload (fst (snd r)) = raw_payload w
    \<and> flag (fst (snd (snd r))) = DECODE_OK"
proof -
  have "fst (majority_vote (encode_tx49 (ale_word_encode w))) = ale_word_encode w XOR 0"
    using majority_vote_recovers [OF copies_of_frame] ale_word_encode_masked [of w] by (metis bit_mask_word xor.right_neutral)
  then show ?thesis
    using decoder_decode_voted [of w "snd (decode_ascii (raw_payload w) (word_type w))" "encode_tx49 (ale_word_encode w)" 0 mode out]
      assms by (simp add: sendable_def half_errors_0 prod_eq_iff)
qed

text \<open>The operations of a run, with everything put in and every frame pulled.\<close>

fun modulator_run :: "modulator \<Rightarrow> (tx_item, unit) fifo_op list \<Rightarrow> modulator \<times> ale_word list \<times> u8 list list" where
  "modulator_run m [] = (m, [], [])"
| "modulator_run m (Put p # es) = (let (m', ws, fs) = modulator_run (modulator_put p m) es in (m', words_of p @ ws, fs))"
| "modulator_run m (Get g # es) =
     (let (out, m) = modulator_get g m; (m', ws, fs) = modulator_run m es in (m', ws, out @ fs))"

lemma modulator_run_locale:
  "modulator_run m es = (m', ws, fs) \<Longrightarrow> mq.run m es = (m', map (\<lambda>w. encode_tx49 (ale_word_encode w)) ws, fs)"
  by (induction m es arbitrary: ws fs rule: modulator_run.induct) (auto simp: Let_def split: prod.splits)

text \<open>
  C19. From the queue of the sender to the words of the receiver: words enqueued one by one or as sequences, in
  any interleaving with the frames the audio thread pulls, are decoded by the receiver in the order in
  which they were enqueued, without loss or repetition; what is not yet pulled is still transmitted.
\<close>

theorem words_arrive_in_order:
  assumes "modulator_run init_modulator es = (m, ws, fs)" "\<forall>w \<in> set ws. sendable w"
  shows "length fs \<le> length ws \<and> (is_transmitting m \<longleftrightarrow> length fs < length ws)
    \<and> (\<forall>i < length fs. let r = decoder_decode (fs ! i) out mode in
          fst r \<and> word_type (fst (snd r)) = word_type (ws ! i) \<and> raw_payload (fst (snd r)) = raw_payload (ws ! i))"
proof -
  have o: "modulator_inv m" "map (\<lambda>w. encode_tx49 (ale_word_encode w)) ws = fs @ frames m"
    using mq.run_order [OF init_modulator(1) modulator_run_locale [OF assms(1)]] by (simp_all add: init_modulator(2))
  then have len: "length ws = length fs + length (waiting m)" by (metis length_append length_map)
  have "is_transmitting m \<longleftrightarrow> waiting m \<noteq> []"
    using o(1) by (auto simp: is_transmitting_def waiting_def modulator_inv_def)
  moreover have "fs ! i = encode_tx49 (ale_word_encode (ws ! i))" "ws ! i \<in> set ws" if "i < length fs" for i
  proof -
    show "fs ! i = encode_tx49 (ale_word_encode (ws ! i))"
      using o(2) that len by (metis (no_types, lifting) nth_append nth_map trans_less_add1)
    show "ws ! i \<in> set ws" using that len by simp
  qed
  ultimately show ?thesis
    using len frame_decoded assms(2) by (fastforce simp: Let_def)
qed

theorem words_arrive_in_order_witness:
  "\<exists>m fs. modulator_run init_modulator [Put (Word sample_word), Get (), Put (Sequence [sample_word, sample_word]), Get ()]
       = (m, [sample_word, sample_word, sample_word], fs)
     \<and> length fs = 2 \<and> is_transmitting m
     \<and> raw_payload (fst (snd (decoder_decode (fs ! 1) ALEWord Mode3_4))) = raw_payload sample_word"
proof -
  obtain m ws fs where r: "modulator_run init_modulator [Put (Word sample_word), Get (), Put (Sequence [sample_word, sample_word]), Get ()]
      = (m, ws, fs)" by (metis prod_cases3)
  then have ws: "ws = [sample_word, sample_word, sample_word]" by (auto simp: Let_def split: prod.splits)
  have "length fs = 2" using r
    by (auto simp: modulator_get_def pull_symbol_frame_def advance_queue_def enqueue_word_def enqueue_tx49_def
        enqueue_sequence_def sequence_encode_def init_modulator_def)
  moreover have "sendable sample_word" using sample_word by (simp add: sendable_def)
  ultimately show ?thesis using words_arrive_in_order [OF r, of ALEWord Mode3_4] ws r by (auto simp: Let_def)
qed

end
