(* ===== verification/Voice_Path.thy ===== *)
theory Voice_Path
  imports Fifo
begin

text \<open>
  The voice path of a linked station: \<open>src/App/voice_path_manager.cpp\<close> (who owns the audio device, push to
  talk, the ring of microphone samples between the main loop and the audio thread) and
  \<open>src/App/audio_transport.cpp\<close> (fan-out of received audio, choice of the transmitted source). The two
  objects refer to each other; their state is a pair. Each operation, and each end of the ring, is one
  step; the release and acquire of the ring's counters make the steps of its two threads atomic. Devices
  and radios are numbers; what is commanded to the radios is part of the state.
\<close>

section \<open>State\<close>

type_synonym sample = "16 word"
type_synonym size_t = "64 word"

definition RING_CAP :: nat where "RING_CAP = 2048"
definition RING_MASK :: size_t where "RING_MASK = of_nat RING_CAP - 1"

datatype voice_mode = ALE_EXCLUSIVE | VOICE_PASSTHROUGH

record voice_path =
  vp_vac :: "nat option"
  vp_radio :: "nat option"
  vp_transport :: bool
  armed :: bool
  linked :: bool
  vp_ptt :: bool
  vp_mode :: voice_mode
  ring_buf :: "sample list"
  ring_head :: size_t
  ring_tail :: size_t
  keyed :: "nat \<Rightarrow> bool"
  ptt_activity :: nat

datatype tx_source = Symbol | Media | Silence

record audio_transport =
  at_vac :: "nat option"
  has_media :: bool
  has_decoder :: bool
  voice_sinks :: nat
  last_source :: tx_source
  protocol_tx_active :: bool
  media_tx_active :: bool

definition init_voice_path :: voice_path where
  "init_voice_path = \<lparr> vp_vac = None, vp_radio = None, vp_transport = False, armed = False, linked = False,
     vp_ptt = False, vp_mode = ALE_EXCLUSIVE, ring_buf = replicate RING_CAP 0, ring_head = 0, ring_tail = 0,
     keyed = (\<lambda>_. False), ptt_activity = 0 \<rparr>"

definition init_transport :: audio_transport where
  "init_transport = \<lparr> at_vac = None, has_media = False, has_decoder = False, voice_sinks = 0, last_source = Symbol,
     protocol_tx_active = False, media_tx_active = False \<rparr>"

section \<open>The voice path manager\<close>

definition vp_attach :: "nat option \<Rightarrow> nat option \<Rightarrow> voice_path \<Rightarrow> voice_path" where
  "vp_attach vac radio v =
     (if vac = vp_vac v \<and> radio = vp_radio v then v else v\<lparr>vp_vac := vac, vp_radio := radio\<rparr>)"

definition set_radio_ptt :: "bool \<Rightarrow> voice_path \<Rightarrow> voice_path" where
  "set_radio_ptt on v = (case vp_radio v of None \<Rightarrow> v | Some r \<Rightarrow> v\<lparr>keyed := (keyed v)(r := on)\<rparr>)"

text \<open>The manager is the one dynamic sink: the transport counts how often it is registered.\<close>

definition add_rx_sink :: "audio_transport \<Rightarrow> audio_transport" where
  "add_rx_sink t = t\<lparr>voice_sinks := voice_sinks t + 1\<rparr>"

definition remove_rx_sink :: "audio_transport \<Rightarrow> audio_transport" where
  "remove_rx_sink t = t\<lparr>voice_sinks := 0\<rparr>"

definition enter_passthrough :: "voice_path \<times> audio_transport \<Rightarrow> voice_path \<times> audio_transport" where
  "enter_passthrough = (\<lambda>(v, t).
     (v\<lparr>vp_mode := VOICE_PASSTHROUGH, vp_ptt := False\<rparr>, if vp_transport v then add_rx_sink t else t))"

definition exit_passthrough :: "voice_path \<times> audio_transport \<Rightarrow> voice_path \<times> audio_transport" where
  "exit_passthrough = (\<lambda>(v, t).
     let t = (if vp_transport v then remove_rx_sink t else t);
         v = (if vp_ptt v then (set_radio_ptt False v)\<lparr>vp_ptt := False\<rparr> else v)
     in (v\<lparr>vp_mode := ALE_EXCLUSIVE\<rparr>, t))"

definition on_link_state :: "bool \<Rightarrow> voice_path \<times> audio_transport \<Rightarrow> voice_path \<times> audio_transport" where
  "on_link_state up = (\<lambda>(v, t).
     let v = v\<lparr>linked := up\<rparr>; want = up \<and> armed v
     in if want \<and> vp_mode v = ALE_EXCLUSIVE then enter_passthrough (v, t)
        else if \<not> want \<and> vp_mode v = VOICE_PASSTHROUGH then exit_passthrough (v, t)
        else (v, t))"

definition arm :: "bool \<Rightarrow> voice_path \<times> audio_transport \<Rightarrow> voice_path \<times> audio_transport" where
  "arm on = (\<lambda>(v, t). on_link_state (linked v) (v\<lparr>armed := on\<rparr>, t))"

definition set_voice_ptt :: "bool \<Rightarrow> voice_path \<Rightarrow> voice_path" where
  "set_voice_ptt on v =
     (if vp_mode v \<noteq> VOICE_PASSTHROUGH then v
      else if on = vp_ptt v then v
      else let v = v\<lparr>vp_ptt := on\<rparr>
        in if on then (set_radio_ptt True v)\<lparr>ptt_activity := ptt_activity v + 1\<rparr>
           else set_radio_ptt False v)"

definition ring_write :: "size_t \<Rightarrow> sample list \<Rightarrow> sample list \<Rightarrow> sample list" where
  "ring_write head xs buf =
     fold (\<lambda>k buf. buf[unat ((head + of_nat k) AND RING_MASK) := xs ! k]) [0..<length xs] buf"

definition push_mic_pcm :: "sample list \<Rightarrow> voice_path \<Rightarrow> voice_path" where
  "push_mic_pcm samples v =
     (if vp_mode v \<noteq> VOICE_PASSTHROUGH then v
      else if \<not> vp_ptt v then v
      else if samples = [] then v
      else let free_slots = of_nat RING_CAP - (ring_head v - ring_tail v);
               n = min (length samples) (unat free_slots)
           in v\<lparr>ring_buf := ring_write (ring_head v) (take n samples) (ring_buf v),
                ring_head := ring_head v + of_nat n\<rparr>)"

definition pull_mic_pcm :: "nat \<Rightarrow> voice_path \<Rightarrow> sample list \<times> voice_path" where
  "pull_mic_pcm want v =
     (let avail = ring_head v - ring_tail v;
          n = min want (unat avail);
          out = map (\<lambda>k. ring_buf v ! unat ((ring_tail v + of_nat k) AND RING_MASK)) [0..<n]
      in (out, if n \<noteq> 0 then v\<lparr>ring_tail := ring_tail v + of_nat n\<rparr> else v))"

definition passthrough_active :: "voice_path \<Rightarrow> bool" where
  "passthrough_active v \<longleftrightarrow> vp_mode v = VOICE_PASSTHROUGH"

definition media_tx_wanted :: "voice_path \<Rightarrow> bool" where
  "media_tx_wanted v \<longleftrightarrow> vp_ptt v \<and> vp_mode v = VOICE_PASSTHROUGH"

section \<open>The audio transport\<close>

definition at_attach :: "nat option \<Rightarrow> audio_transport \<Rightarrow> audio_transport" where
  "at_attach vac t = (if vac = at_vac t then t else t\<lparr>at_vac := vac, last_source := Symbol\<rparr>)"

text \<open>The chosen source, and whether it is installed anew on the device.\<close>

definition arbitrate_tx :: "bool \<Rightarrow> voice_path \<Rightarrow> audio_transport \<Rightarrow> tx_source option \<times> audio_transport" where
  "arbitrate_tx protocol v t =
     (if at_vac t = None then (None, t)
      else let media_want = has_media t \<and> media_tx_wanted v;
               passthrough = has_media t \<and> passthrough_active v;
               want = (if protocol then Symbol else if media_want then Media
                       else if passthrough then Silence else Symbol);
               t = t\<lparr>protocol_tx_active := protocol, media_tx_active := \<not> protocol \<and> media_want\<rparr>
           in if want = last_source t then (None, t) else (Some want, t\<lparr>last_source := want\<rparr>))"

record tick_result =
  to_decoder :: "sample list"
  to_speaker :: "sample list list"
  installed :: "tx_source option"

definition transport_tick :: "bool \<Rightarrow> sample list \<Rightarrow> voice_path \<Rightarrow> audio_transport \<Rightarrow> tick_result \<times> audio_transport" where
  "transport_tick protocol captured v t =
     (if at_vac t = None then (\<lparr> to_decoder = [], to_speaker = [], installed = None \<rparr>, t)
      else let dec = (if captured \<noteq> [] \<and> has_decoder t then captured else []);
               (inst, t) = arbitrate_tx protocol v t;
               spk = (if captured \<noteq> [] \<and> \<not> protocol_tx_active t \<and> \<not> media_tx_active t
                      then replicate (voice_sinks t) captured else [])
           in (\<lparr> to_decoder = dec, to_speaker = spk, installed = inst \<rparr>, t))"

definition receiving_voice :: "voice_path \<Rightarrow> audio_transport \<Rightarrow> bool" where
  "receiving_voice v t \<longleftrightarrow> has_media t \<and> passthrough_active v \<and> \<not> protocol_tx_active t \<and> \<not> media_tx_active t"

definition protocol_pending :: "voice_path \<Rightarrow> audio_transport \<Rightarrow> bool" where
  "protocol_pending v t \<longleftrightarrow> protocol_tx_active t \<and> has_media t \<and> passthrough_active v"

section \<open>The ring of microphone samples\<close>

lemma ring_mask: "RING_MASK = mask 11"
  by (simp add: RING_MASK_def RING_CAP_def mask_eq_decr_exp)

lemma ring_index: "unat ((w + of_nat k) AND RING_MASK) = (unat w + k) mod 2048"
proof -
  have "unat (w + of_nat k) = (unat w + k mod 2 ^ 64) mod 2 ^ 64" by (simp add: unat_word_ariths unat_of_nat)
  also have "\<dots> = (unat w + k) mod 2 ^ 64" by (simp add: mod_add_right_eq)
  finally have "unat ((w + of_nat k) AND RING_MASK) = (unat w + k) mod 2 ^ 64 mod 2048"
    by (simp add: ring_mask unat_and_mask)
  also have "\<dots> = (unat w + k) mod 2048" by (rule mod_mod_cancel) (simp add: dvd_def exI [of _ "2 ^ 53"])
  finally show ?thesis .
qed

lemma same_slot_le:
  fixes p j n c :: nat
  assumes "j \<le> n" "n < c" "(p + j) mod c = (p + n) mod c"
  shows "j = n"
proof -
  have "c dvd (p + n) - (p + j)" using assms by (subst mod_eq_dvd_iff_nat [symmetric]) simp_all
  then have "c dvd n - j" by simp
  then show ?thesis using assms(1,2) by (cases "n - j = 0") (auto dest: dvd_imp_le)
qed

lemma same_slot: "j < c \<Longrightarrow> n < c \<Longrightarrow> (p + j) mod c = (p + n) mod c \<longleftrightarrow> j = (n :: nat)"
  using same_slot_le [of j n c p] same_slot_le [of n j c p] by (cases "j \<le> n") auto

lemma ring_write_nth:
  assumes "length buf = 2048" "length xs \<le> 2048" "j < 2048"
  shows "length (ring_write head xs buf) = 2048"
    and "ring_write head xs buf ! ((unat head + j) mod 2048) = (if j < length xs then xs ! j else buf ! ((unat head + j) mod 2048))"
proof -
  define put where "put = (\<lambda>k buf. buf[(unat head + k) mod 2048 := xs ! k])"
  have "length (fold put [0..<n] buf) = 2048 \<and>
      fold put [0..<n] buf ! ((unat head + j) mod 2048) = (if j < n then xs ! j else buf ! ((unat head + j) mod 2048))"
    if "n \<le> 2048" for n
    using that
  proof (induction n)
    case (Suc n)
    then have "(unat head + j) mod 2048 = (unat head + n) mod 2048 \<longleftrightarrow> j = n" using same_slot assms(3) by simp
    then show ?case using Suc by (auto simp: put_def nth_list_update)
  qed (simp add: assms(1))
  from this [OF assms(2)]
  show "length (ring_write head xs buf) = 2048"
    "ring_write head xs buf ! ((unat head + j) mod 2048) = (if j < length xs then xs ! j else buf ! ((unat head + j) mod 2048))"
    by (simp_all add: ring_write_def ring_index put_def)
qed

definition ring_inv :: "voice_path \<Rightarrow> bool" where
  "ring_inv v \<longleftrightarrow> length (ring_buf v) = RING_CAP \<and> unat (ring_head v - ring_tail v) \<le> RING_CAP"

definition ring_items :: "voice_path \<Rightarrow> sample list" where
  "ring_items v = map (\<lambda>k. ring_buf v ! ((unat (ring_tail v) + k) mod 2048)) [0..<unat (ring_head v - ring_tail v)]"

definition mic_accepted :: "sample list \<Rightarrow> voice_path \<Rightarrow> sample list" where
  "mic_accepted xs v = (if media_tx_wanted v then take (RING_CAP - length (ring_items v)) xs else [])"

lemma length_ring_items: "length (ring_items v) = unat (ring_head v - ring_tail v)"
  by (simp add: ring_items_def)

lemma head_position: "unat h mod 2048 = (unat (t :: size_t) + unat (h - t)) mod 2048"
  using ring_index [of t "unat (h - t)"] ring_index [of h 0] by simp

lemma push_ring:
  assumes "ring_inv v"
  shows "ring_inv (push_mic_pcm xs v)" "ring_items (push_mic_pcm xs v) = ring_items v @ mic_accepted xs v"
proof -
  let ?h = "ring_head v" and ?t = "ring_tail v"
  define len where "len = unat (?h - ?t)"
  have len: "len \<le> 2048" "length (ring_buf v) = 2048" using assms by (simp_all add: ring_inv_def RING_CAP_def len_def)
  have free: "unat (of_nat RING_CAP - (?h - ?t)) = 2048 - len"
  proof -
    have "?h - ?t \<le> 2048" using len(1) by (simp add: word_le_nat_alt len_def)
    then show ?thesis by (simp add: RING_CAP_def unat_sub len_def)
  qed
  define ys where "ys = take (2048 - len) xs"
  define n where "n = length ys"
  have n: "n = min (length xs) (2048 - len)" "len + n \<le> 2048" using len by (simp_all add: n_def ys_def min.commute)
  have acc: "mic_accepted xs v = (if media_tx_wanted v then ys else [])"
    by (simp add: mic_accepted_def ys_def length_ring_items len_def RING_CAP_def)
  have step: "push_mic_pcm xs v = (if media_tx_wanted v \<and> xs \<noteq> []
      then v\<lparr>ring_buf := ring_write ?h ys (ring_buf v), ring_head := ?h + of_nat n\<rparr> else v)"
  proof -
    have "take (min (length xs) (2048 - len)) xs = ys" by (simp add: ys_def take_all min_def)
    then show ?thesis by (simp add: push_mic_pcm_def media_tx_wanted_def free n(1) Let_def)
  qed
  define v' where "v' = v\<lparr>ring_buf := ring_write ?h ys (ring_buf v), ring_head := ?h + of_nat n\<rparr>"
  have len': "unat (?h + of_nat n - ?t) = len + n"
  proof -
    have e: "?h + of_nat n - ?t = (?h - ?t) + of_nat n" by simp
    have "unat ((?h - ?t) + of_nat n) = (len + n) mod 2 ^ 64" using n(2) by (simp add: unat_word_ariths unat_of_nat len_def mod_add_right_eq)
    then show ?thesis unfolding e using n(2) by simp
  qed
  have w: "length (ring_write ?h ys (ring_buf v)) = 2048"
    using ring_write_nth(1) [of "ring_buf v" ys 0] len(2) by (simp add: ys_def)
  have slot: "ring_write ?h ys (ring_buf v) ! ((unat ?h + j) mod 2048)
      = (if j < n then ys ! j else ring_buf v ! ((unat ?h + j) mod 2048))" if "j < 2048" for j
    using ring_write_nth(2) [of "ring_buf v" ys j ?h] len(2) that by (simp add: n_def ys_def)
  have pos: "(unat ?h + j) mod 2048 = (unat ?t + (len + j)) mod 2048" for j
  proof -
    have "(unat ?h + j) mod 2048 = (unat ?h mod 2048 + j) mod 2048" by (simp only: mod_add_left_eq)
    also have "\<dots> = ((unat ?t + len) mod 2048 + j) mod 2048" by (simp only: head_position [of ?h ?t] len_def)
    also have "\<dots> = (unat ?t + (len + j)) mod 2048" by (simp only: mod_add_left_eq add.assoc)
    finally show ?thesis .
  qed
  have old: "ring_write ?h ys (ring_buf v) ! ((unat ?t + k) mod 2048) = ring_buf v ! ((unat ?t + k) mod 2048)" if "k < len" for k
  proof -
    have "(unat ?h + (2048 - len + k)) mod 2048 = (unat ?t + k) mod 2048"
    proof -
      have "unat ?t + (len + (2048 - len + k)) = unat ?t + k + 2048" using len(1) by simp
      then show ?thesis unfolding pos by (simp only: mod_add_self2)
    qed
    moreover have "2048 - len + k < 2048" "\<not> 2048 - len + k < n" using that n(2) len(1) by linarith+
    ultimately show ?thesis using slot [of "2048 - len + k"] by simp
  qed
  have new: "ring_write ?h ys (ring_buf v) ! ((unat ?t + (len + j)) mod 2048) = ys ! j" if "j < n" for j
    using slot [of j] that n(2) len(1) by (simp add: pos)
  have inv': "ring_inv v'" by (simp add: ring_inv_def v'_def w len' n(2) RING_CAP_def)
  have items': "ring_items v' = ring_items v @ ys"
  proof (rule nth_equalityI)
    show "length (ring_items v') = length (ring_items v @ ys)"
      by (simp add: length_ring_items v'_def len' len_def [symmetric] n_def [symmetric])
    fix i
    assume i: "i < length (ring_items v')"
    then have i': "i < len + n" by (simp add: length_ring_items v'_def len')
    show "ring_items v' ! i = (ring_items v @ ys) ! i"
    proof (cases "i < len")
      case True
      then show ?thesis using i' old by (simp add: ring_items_def nth_append v'_def len' len_def [symmetric])
    next
      case False
      then have "i = len + (i - len)" "i - len < n" using i' by simp_all
      then show ?thesis using i' False new [of "i - len"]
        by (simp add: ring_items_def nth_append v'_def len' len_def [symmetric])
    qed
  qed
  show "ring_inv (push_mic_pcm xs v)" using step inv' assms by (simp add: v'_def)
  show "ring_items (push_mic_pcm xs v) = ring_items v @ mic_accepted xs v"
    using step items' acc by (auto simp: v'_def ys_def)
qed

lemma pull_ring:
  assumes "ring_inv v"
  shows "ring_inv (snd (pull_mic_pcm want v))"
    and "ring_items v = fst (pull_mic_pcm want v) @ ring_items (snd (pull_mic_pcm want v))"
    and "length (fst (pull_mic_pcm want v)) = min want (length (ring_items v))"
proof -
  let ?h = "ring_head v" and ?t = "ring_tail v"
  define len where "len = unat (?h - ?t)"
  define n where "n = min want len"
  have n: "n \<le> len" by (simp add: n_def)
  have out: "pull_mic_pcm want v = (take n (ring_items v), v\<lparr>ring_tail := ?t + of_nat n\<rparr>)"
  proof -
    have "map (\<lambda>k. ring_buf v ! ((unat ?t + k) mod 2048)) [0..<n] = take n (ring_items v)"
      using n by (simp add: ring_items_def take_map len_def)
    then show ?thesis by (simp add: pull_mic_pcm_def Let_def ring_index n_def len_def)
  qed
  have len': "unat (?h - (?t + of_nat n)) = len - n"
  proof -
    have "of_nat n \<le> ?h - ?t"
      using n by (simp add: word_le_nat_alt len_def unat_of_nat)
    moreover have "unat (of_nat n :: size_t) = n" 
    proof -
      have "unat (?h - ?t) < 2 ^ LENGTH(64)" by (rule unsigned_less)
      then have "n < 2 ^ LENGTH(64)" using n by (simp add: len_def)
      then show ?thesis by (simp only: unsigned_of_nat take_bit_nat_eq_self of_nat_id)
    qed
    ultimately have "unat (?h - ?t - of_nat n) = len - n" by (simp add: unat_sub len_def)
    then show ?thesis by (simp add: diff_diff_eq)
  qed
  have tail: "(unat (?t + of_nat n) + k) mod 2048 = (unat ?t + (n + k)) mod 2048" for k

  proof -
    have "(unat (?t + of_nat n) + k) mod 2048 = (unat (?t + of_nat n) mod 2048 + k) mod 2048" by (simp only: mod_add_left_eq)
    also have "unat (?t + of_nat n) mod 2048 = (unat ?t + n) mod 2048"
      using ring_index [of "?t + of_nat n" 0] ring_index [of ?t n] by simp
    finally show ?thesis by (simp only: mod_add_left_eq add.assoc)
  qed
  have drop: "ring_items (v\<lparr>ring_tail := ?t + of_nat n\<rparr>) = drop n (ring_items v)"
  proof (rule nth_equalityI)
    fix i
    assume "i < length (ring_items (v\<lparr>ring_tail := ?t + of_nat n\<rparr>))"
    then have "n + i < len" by (simp add: length_ring_items len')
    moreover from this have "i < len - n" by linarith
    ultimately show "ring_items (v\<lparr>ring_tail := ?t + of_nat n\<rparr>) ! i = drop n (ring_items v) ! i"
      by (simp add: ring_items_def len' len_def [symmetric] tail n)
  qed (simp add: ring_items_def len' len_def [symmetric])
  show "ring_inv (snd (pull_mic_pcm want v))" using assms n
    by (simp add: out ring_inv_def len' len_def RING_CAP_def) linarith
  show "ring_items v = fst (pull_mic_pcm want v) @ ring_items (snd (pull_mic_pcm want v))" by (simp add: out drop)
  show "length (fst (pull_mic_pcm want v)) = min want (length (ring_items v))"
    by (simp add: out length_ring_items n_def len_def)
qed

section \<open>Runs of the voice path\<close>

datatype patch_event = Vp_Attach "nat option" "nat option" | Link_State bool | Arm bool | Ptt bool
  | Mic "sample list" | At_Attach "nat option" | Tick bool "sample list"

fun patch_step :: "voice_path \<times> audio_transport \<Rightarrow> patch_event \<Rightarrow> voice_path \<times> audio_transport" where
  "patch_step (v, t) (Vp_Attach vac radio) = (vp_attach vac radio v, t)"
| "patch_step (v, t) (Link_State up) = on_link_state up (v, t)"
| "patch_step (v, t) (Arm on) = arm on (v, t)"
| "patch_step (v, t) (Ptt on) = (set_voice_ptt on v, t)"
| "patch_step (v, t) (Mic xs) = (push_mic_pcm xs v, t)"
| "patch_step (v, t) (At_Attach vac) = (v, at_attach vac t)"
| "patch_step (v, t) (Tick protocol captured) = (v, snd (transport_tick protocol captured v t))"

text \<open>The two objects as the bridge wires them up.\<close>

definition init_patch :: "voice_path \<times> audio_transport" where
  "init_patch = (init_voice_path\<lparr>vp_transport := True\<rparr>, init_transport\<lparr>has_media := True, has_decoder := True\<rparr>)"

definition patch_inv :: "voice_path \<times> audio_transport \<Rightarrow> bool" where
  "patch_inv = (\<lambda>(v, t). vp_transport v \<and> has_media t \<and> has_decoder t \<and> ring_inv v
     \<and> (vp_mode v = VOICE_PASSTHROUGH \<longleftrightarrow> linked v \<and> armed v)
     \<and> voice_sinks t = (if vp_mode v = VOICE_PASSTHROUGH then 1 else 0)
     \<and> (vp_ptt v \<longrightarrow> vp_mode v = VOICE_PASSTHROUGH))"

lemma arbitrate_keeps:
  "voice_sinks (snd (transport_tick p c v t)) = voice_sinks t"
  "has_media (snd (transport_tick p c v t)) = has_media t" "has_decoder (snd (transport_tick p c v t)) = has_decoder t"
  by (simp_all add: transport_tick_def arbitrate_tx_def Let_def)

lemma push_keeps:
  "vp_transport (push_mic_pcm xs v) = vp_transport v" "vp_mode (push_mic_pcm xs v) = vp_mode v"
  "vp_ptt (push_mic_pcm xs v) = vp_ptt v" "linked (push_mic_pcm xs v) = linked v" "armed (push_mic_pcm xs v) = armed v"
  by (simp_all add: push_mic_pcm_def Let_def)

lemma pull_keeps:
  "vp_transport (snd (pull_mic_pcm n v)) = vp_transport v" "vp_mode (snd (pull_mic_pcm n v)) = vp_mode v"
  "vp_ptt (snd (pull_mic_pcm n v)) = vp_ptt v" "linked (snd (pull_mic_pcm n v)) = linked v"
  "armed (snd (pull_mic_pcm n v)) = armed v"
  by (simp_all add: pull_mic_pcm_def Let_def)

lemma radio_keeps [simp]:
  "vp_transport (set_radio_ptt on v) = vp_transport v" "vp_mode (set_radio_ptt on v) = vp_mode v"
  "vp_ptt (set_radio_ptt on v) = vp_ptt v" "linked (set_radio_ptt on v) = linked v" "armed (set_radio_ptt on v) = armed v"
  "ring_buf (set_radio_ptt on v) = ring_buf v" "ring_head (set_radio_ptt on v) = ring_head v"
  "ring_tail (set_radio_ptt on v) = ring_tail v"
  by (simp_all add: set_radio_ptt_def split: option.splits)

lemma patch_inv_step:
  assumes "patch_inv s"
  shows "patch_inv (patch_step s e)"
proof -
  obtain v t where s: "s = (v, t)" by (cases s)
  have m: "vp_mode v = ALE_EXCLUSIVE \<longleftrightarrow> vp_mode v \<noteq> VOICE_PASSTHROUGH" by (cases "vp_mode v") simp_all
  have link: "patch_inv (on_link_state up (v\<lparr>armed := a\<rparr>, t))" for up a
    using assms m by (auto simp: s patch_inv_def on_link_state_def enter_passthrough_def exit_passthrough_def
        add_rx_sink_def remove_rx_sink_def ring_inv_def Let_def)
  show ?thesis
  proof (cases e)
    case (Link_State up)
    then show ?thesis using link [of up "armed v"] by (simp add: s)
  next
    case (Arm on)
    then show ?thesis using link [of "linked v" on] by (simp add: s arm_def)
  next
    case (Mic xs)
    then show ?thesis using assms push_ring(1) by (simp add: s patch_inv_def push_keeps)
  next
    case (Tick p c)
    then show ?thesis using assms by (simp add: s patch_inv_def arbitrate_keeps)
  qed (use assms in \<open>auto simp: s patch_inv_def vp_attach_def at_attach_def set_voice_ptt_def ring_inv_def Let_def\<close>)
qed

lemma ring_items_cong:
  "ring_buf v = ring_buf w \<Longrightarrow> ring_head v = ring_head w \<Longrightarrow> ring_tail v = ring_tail w \<Longrightarrow> ring_items v = ring_items w"
  by (simp add: ring_items_def)

text \<open>The samples an event puts into the ring, and the audio thread's step.\<close>

fun patch_accepted :: "patch_event \<Rightarrow> voice_path \<times> audio_transport \<Rightarrow> sample list" where
  "patch_accepted (Mic xs) (v, t) = mic_accepted xs v"
| "patch_accepted _ _ = []"

definition patch_pull :: "nat \<Rightarrow> voice_path \<times> audio_transport \<Rightarrow> sample list \<times> voice_path \<times> audio_transport" where
  "patch_pull n = (\<lambda>(v, t). let (out, v) = pull_mic_pcm n v in (out, v, t))"

lemma patch_step_items:
  assumes "patch_inv s"
  shows "ring_items (fst (patch_step s e)) = ring_items (fst s) @ patch_accepted e s"
proof -
  obtain v t where s: "s = (v, t)" by (cases s)
  have "ring_items (fst (on_link_state up (w, t))) = ring_items w" for up w
    by (auto intro!: ring_items_cong simp: on_link_state_def enter_passthrough_def exit_passthrough_def Let_def)
  moreover have "ring_items (v\<lparr>armed := a\<rparr>) = ring_items v" for a by (rule ring_items_cong) simp_all
  moreover have "ring_items (set_voice_ptt on v) = ring_items v" for on
    by (auto intro!: ring_items_cong simp: set_voice_ptt_def Let_def)
  moreover have "ring_items (vp_attach a b v) = ring_items v" for a b
    by (auto intro!: ring_items_cong simp: vp_attach_def)
  moreover have "ring_items (push_mic_pcm xs v) = ring_items v @ mic_accepted xs v" for xs
    using assms push_ring by (simp add: s patch_inv_def)
  ultimately show ?thesis by (cases e) (simp_all add: s arm_def)
qed

interpretation vq: fifo_buffer patch_inv "\<lambda>s. ring_items (fst s)" "\<lambda>e s. patch_step s e" patch_accepted patch_pull
proof
  fix s n
  assume "patch_inv s"
  then show "patch_inv (snd (patch_pull n s))"
    "ring_items (fst s) = fst (patch_pull n s) @ ring_items (fst (snd (patch_pull n s)))"
    using pull_ring [of "fst s" n] by (auto simp: patch_pull_def patch_inv_def pull_keeps split_beta)
qed (simp_all add: patch_inv_step patch_step_items)

lemma init_patch_inv: "patch_inv init_patch" "ring_items (fst init_patch) = []"
  by (simp_all add: patch_inv_def init_patch_def init_voice_path_def init_transport_def ring_inv_def ring_items_def)

lemma reachable_patch: "vq.run init_patch es = (s, ins, outs) \<Longrightarrow> patch_inv s"
  using vq.run_order [OF init_patch_inv(1)] by blast

text \<open>
  C20. The microphone: whatever the order of link changes, arming, push to talk, frames from the browser and
  device changes, and whatever amounts the audio thread asks for in between, the samples it gets are those
  the ring accepted, in order, none lost or repeated, also when the 64-bit counters wrap; at
  most 2048 of them are still waiting.
\<close>

theorem voice_samples_in_order:
  assumes "vq.run init_patch es = (s, ins, outs)"
  shows "outs = take (length outs) ins \<and> length ins \<le> length outs + 2048"
proof -
  have o: "patch_inv s" "ins = outs @ ring_items (fst s)"
    using vq.run_order [OF init_patch_inv(1) assms] by (simp_all add: init_patch_inv(2))
  then have "length (ring_items (fst s)) \<le> 2048"
    by (auto simp: patch_inv_def ring_inv_def length_ring_items RING_CAP_def)
  then show ?thesis using o(2) by simp
qed

text \<open>
  Whatever the order of link changes, arming, push to talk, microphone frames, device changes and ticks:
  on a tick with a device every captured sample goes to the decoder, so that a termination is heard also
  during a voice link; the speaker gets it, once, exactly if the station is linked and armed and neither the
  modem nor the operator transmits; and the source that plays is the modem's if it has a burst, else
  the microphone if the operator talks, else silence on a voice link, else the modem's.
\<close>

theorem tick_routes_audio:
  assumes "vq.run init_patch es = ((v, t), ins, outs)" "at_vac t = Some d" "captured \<noteq> []"
    and "transport_tick protocol captured v t = (r, t')"
  shows "to_decoder r = captured
    \<and> to_speaker r = (if linked v \<and> armed v \<and> \<not> protocol \<and> \<not> vp_ptt v then [captured] else [])
    \<and> last_source t' = (if protocol then Symbol else if vp_ptt v then Media
                        else if linked v \<and> armed v then Silence else Symbol)
    \<and> (receiving_voice v t' \<longleftrightarrow> to_speaker r \<noteq> [])"
proof -
  have "patch_inv (v, t)" using reachable_patch [OF assms(1)] .
  then show ?thesis using assms(2-4)
    by (auto simp: patch_inv_def transport_tick_def arbitrate_tx_def receiving_voice_def passthrough_active_def
        media_tx_wanted_def Let_def split: if_splits)
qed

theorem voice_samples_in_order_witness:
  "fst (snd (vq.run init_patch [Put (Link_State True), Put (Arm True), Put (Ptt True), Put (Mic [1, 2, 3]), Get 2, Put (Mic [4]), Get 5]))
   = [1, 2, 3, 4]
   \<and> (let outs = snd (snd (vq.run init_patch
           [Put (Link_State True), Put (Arm True), Put (Ptt True), Put (Mic [1, 2, 3]), Get 2, Put (Mic [4]), Get 5]))
      in outs = take (length outs) [1, 2, 3, 4])"
proof -
  let ?es = "[Put (Link_State True), Put (Arm True), Put (Ptt True), Put (Mic [1, 2, 3]), Get 2, Put (Mic [4]), Get 5]"
  obtain s ins outs where r: "vq.run init_patch ?es = (s, ins, outs)" by (metis prod_cases3)
  have "ins = [1, 2, 3, 4]"
    using r by (auto simp: init_patch_def init_voice_path_def init_transport_def on_link_state_def arm_def
        enter_passthrough_def set_voice_ptt_def set_radio_ptt_def mic_accepted_def media_tx_wanted_def ring_items_def
        push_mic_pcm_def pull_mic_pcm_def patch_pull_def RING_CAP_def Let_def split: prod.splits)
  then show ?thesis using voice_samples_in_order [OF r] r by (simp add: Let_def)
qed

theorem tick_routes_audio_witness:
  "to_decoder (fst (transport_tick False [7, 8] (fst init_patch) (at_attach (Some 1) (snd init_patch)))) = [7, 8]"
proof -
  have "vq.run init_patch [Put (At_Attach (Some 1))] = ((fst init_patch, at_attach (Some 1) (snd init_patch)), [], [])"
    by (simp add: init_patch_def)
  moreover have "at_vac (at_attach (Some 1) (snd init_patch)) = Some 1"
    by (simp add: at_attach_def init_patch_def init_transport_def)
  ultimately show ?thesis
    using tick_routes_audio [of "[Put (At_Attach (Some 1))]" "fst init_patch" "at_attach (Some 1) (snd init_patch)" "[]" "[]" 1
        "[7, 8]" False] by (metis list.distinct(1) prod.collapse)
qed

text \<open>
  Speech left in the ring: releasing push to talk, and even the end of the link, leaves the samples that
  were not yet pulled; the next transmission, on whatever link, starts with them.
\<close>

theorem stale_speech_transmitted:
  assumes "vq.run init_patch es = ((v, t), ins, outs)" "vp_ptt v" "xs = ring_items v" "length xs + length ys \<le> 2048"
  shows "\<exists>s. vq.run (v, t) [Put (Ptt False), Put (Link_State False), Put (Link_State True), Put (Ptt True),
      Put (Mic ys), Get (length xs + length ys)] = (s, ys, xs @ ys)"
proof -
  have inv: "patch_inv (v, t)" using reachable_patch [OF assms(1)] .
  then have m: "vp_mode v = VOICE_PASSTHROUGH" "armed v" "linked v" using assms(2) by (auto simp: patch_inv_def)
  define s4 where "s4 = foldl patch_step (v, t) [Ptt False, Link_State False, Link_State True, Ptt True]"
  have inv4: "patch_inv s4" unfolding s4_def using inv by (auto intro!: patch_inv_step simp del: patch_step.simps)
  have items4: "ring_items (fst s4) = xs"
    unfolding s4_def assms(3)
    by (simp add: patch_step_items patch_inv_step inv del: patch_step.simps)
  have ptt4: "media_tx_wanted (fst s4)"
    using m assms(2) by (simp add: s4_def set_voice_ptt_def on_link_state_def exit_passthrough_def enter_passthrough_def
        media_tx_wanted_def Let_def)
  obtain v4 t4 where s4: "s4 = (v4, t4)" by (cases s4)
  have acc: "mic_accepted ys v4 = ys"
    using ptt4 items4 assms(4) by (simp add: s4 mic_accepted_def RING_CAP_def)
  have items5: "ring_items (push_mic_pcm ys v4) = xs @ ys" and inv5: "ring_inv (push_mic_pcm ys v4)"
    using push_ring [of v4 ys] inv4 items4 acc by (simp_all add: s4 patch_inv_def)
  have "fst (pull_mic_pcm (length xs + length ys) (push_mic_pcm ys v4)) = xs @ ys"
    using pull_ring(2,3) [OF inv5, of "length xs + length ys"] unfolding items5 by (metis append_eq_conv_conj length_append min.idem take_all_iff order_refl)
  then have "\<exists>s. vq.run s4 [Put (Mic ys), Get (length xs + length ys)] = (s, ys, xs @ ys)"
    by (simp add: s4 patch_pull_def acc split_beta)
  moreover have "vq.run (v, t) [Put (Ptt False), Put (Link_State False), Put (Link_State True), Put (Ptt True),
      Put (Mic ys), Get (length xs + length ys)] = vq.run s4 [Put (Mic ys), Get (length xs + length ys)]"
    by (simp add: s4_def split: prod.splits)
  ultimately show ?thesis by simp
qed

theorem stale_speech_transmitted_witness:
  "snd (snd (vq.run init_patch [Put (Link_State True), Put (Arm True), Put (Ptt True), Put (Mic [1, 2]),
     Put (Ptt False), Put (Link_State False), Put (Link_State True), Put (Ptt True), Put (Mic [9]), Get 3])) = [1, 2, 9]"
proof -
  let ?es = "[Put (Link_State True), Put (Arm True), Put (Ptt True), Put (Mic [1, 2])]"
  obtain v3 t3 where s3: "foldl patch_step init_patch [Link_State True, Arm True, Ptt True] = (v3, t3)" by fastforce
  have "ring_items (fst (foldl patch_step init_patch [Link_State True, Arm True, Ptt True])) = []" 
    using init_patch_inv by (simp add: patch_step_items patch_inv_step del: patch_step.simps)
  then have i3: "ring_items v3 = []" "ring_inv v3"
    using s3 patch_inv_step [OF patch_inv_step [OF patch_inv_step [OF init_patch_inv(1)]], of "Link_State True" "Arm True" "Ptt True"]
    by (simp_all add: patch_inv_def del: patch_step.simps)
  have m3: "vp_ptt v3" "media_tx_wanted v3"
    using s3 by (auto simp: init_patch_def init_voice_path_def on_link_state_def arm_def enter_passthrough_def
        set_voice_ptt_def set_radio_ptt_def media_tx_wanted_def Let_def)
  let ?v = "push_mic_pcm [1, 2] v3"
  have r: "vq.run init_patch ?es = ((?v, t3), [1, 2], [])"
    using s3 i3 m3 by (simp add: mic_accepted_def RING_CAP_def)
  have v: "vp_ptt ?v" "[1, 2] = ring_items ?v"
    using push_ring(2) [OF i3(2), of "[1, 2]"] i3(1) m3 by (simp_all add: push_keeps mic_accepted_def RING_CAP_def)
  moreover obtain s where "vq.run (?v, t3) [Put (Ptt False), Put (Link_State False), Put (Link_State True), Put (Ptt True),
      Put (Mic [9]), Get 3] = (s, [9], [1, 2, 9])"
  proof -
    have "length [1, 2 :: sample] + length [9 :: sample] = 3" by simp
    moreover have "\<exists>s. vq.run (?v, t3) [Put (Ptt False), Put (Link_State False), Put (Link_State True), Put (Ptt True),
        Put (Mic [9]), Get (length [1, 2 :: sample] + length [9 :: sample])] = (s, [9], [1, 2] @ [9])"
      by (rule stale_speech_transmitted [OF r v]) simp
    ultimately show thesis using that by (simp only: append.simps) blast
  qed
  ultimately show ?thesis
    using vq.run_append [of init_patch ?es "[Put (Ptt False), Put (Link_State False), Put (Link_State True),
      Put (Ptt True), Put (Mic [9]), Get 3]"]
    by (simp only: r append.simps Let_def prod.case) simp
qed

end
