(* ===== verification/Version_Caps.thy ===== *)
theory Version_Caps
  imports Ale_Word
begin

text \<open>
  The version request and the capabilities query and report (\<open>src/Protocol/ale_version_caps.cpp\<close>): command
  words made of three raw characters, and the six words of a report.
\<close>

section \<open>Words\<close>

definition pack_payload :: "char \<Rightarrow> char \<Rightarrow> char \<Rightarrow> u32" where
  "pack_payload c0 c1 c2 =
     push_bit 14 (of_char c0 AND 0x7F) OR push_bit 7 (of_char c1 AND 0x7F) OR (of_char c2 AND 0x7F)"

definition KVC_ALL :: u8 where "KVC_ALL = 0x01 OR 0x02 OR 0x04"
definition KVF_SUMMARY :: u8 where "KVF_SUMMARY = 0x01"
definition KVF_FULL :: u8 where "KVF_FULL = 0x02"

record version_cmd =
  kvc_mask :: u8
  kvf_mask :: u8

definition caps_cmd_word :: "char \<Rightarrow> char \<Rightarrow> char \<Rightarrow> ale_word" where
  "caps_cmd_word c0 c1 c2 = ALEWord\<lparr>word_type := CMD, raw_payload := pack_payload c0 c1 c2,
     address := [c0, c1, c2, CHR 0x00], valid := True, fec_errors := 0, unanimous_votes := 0, timestamp_ms := 0\<rparr>"

definition encode_version_cmd :: "version_cmd \<Rightarrow> ale_word" where
  "encode_version_cmd cmd =
     (let sub = (if kvf_mask cmd AND KVF_FULL \<noteq> 0 \<and> \<not> kvf_mask cmd AND KVF_SUMMARY \<noteq> 0 then CHR ''f'' else CHR ''s'')
      in caps_cmd_word (CHR ''v'') (CHR ''/'') sub)"

definition payload_char7 :: "nat \<Rightarrow> ale_word \<Rightarrow> u32" where
  "payload_char7 k w = drop_bit k (raw_payload w) AND 0x7F"

definition is_version_cmd :: "ale_word \<Rightarrow> bool" where
  "is_version_cmd w \<longleftrightarrow> word_type w = CMD \<and> payload_char7 14 w = of_char (CHR ''v'') \<and> payload_char7 7 w = of_char (CHR ''/'')"

definition decode_version_cmd :: "ale_word \<Rightarrow> version_cmd" where
  "decode_version_cmd w = \<lparr> kvc_mask = KVC_ALL,
     kvf_mask = if payload_char7 0 w = of_char (CHR ''f'') then KVF_FULL else KVF_SUMMARY \<rparr>"

definition encode_capabilities_query :: ale_word where
  "encode_capabilities_query = caps_cmd_word (CHR ''c'') (CHR ''/'') (CHR ''q'')"

definition is_caps_cmd :: "char \<Rightarrow> ale_word \<Rightarrow> bool" where
  "is_caps_cmd c w \<longleftrightarrow> word_type w = CMD \<and> payload_char7 14 w = of_char (CHR ''c'')
     \<and> payload_char7 7 w = of_char (CHR ''/'') \<and> payload_char7 0 w = of_char c"

definition is_capabilities_query :: "ale_word \<Rightarrow> bool" where
  "is_capabilities_query = is_caps_cmd (CHR ''q'')"

definition is_capabilities_report :: "ale_word \<Rightarrow> bool" where
  "is_capabilities_report = is_caps_cmd (CHR ''r'')"

section \<open>The report\<close>

record capabilities_report =
  scan_rate_chps :: u8
  channels_scanned :: u8
  max_tune_time_ms :: u16
  turnaround_time_ms :: u16
  activity_timeout_s :: u16
  cap_listen_time_ms :: u16
  accept_all_calls :: bool
  accept_any_calls :: bool
  amd_enabled :: bool
  dtm_enabled :: bool
  dbm_enabled :: bool
  lp_levels_mask :: u8
  time_service_enabled :: bool
  alqa_enabled :: bool
  orderwire_enabled :: bool
  scheduling_enabled :: bool

definition caps_data_word :: "preamble_type \<Rightarrow> u32 \<Rightarrow> ale_word" where
  "caps_data_word pt payload = ALEWord\<lparr>word_type := pt, raw_payload := payload AND 0x1FFFFF, valid := True,
     fec_errors := 0, unanimous_votes := 0, timestamp_ms := 0, address := replicate 4 (CHR 0x00)\<rparr>"

definition tens :: "u16 \<Rightarrow> u8" where
  "tens ms = (if ms > 2550 then 0xFF else ucast (ms div 10))"

definition flag_bit :: "bool \<Rightarrow> nat \<Rightarrow> u32" where
  "flag_bit b k = push_bit k (of_bool b)"

definition encode_capabilities_report :: "capabilities_report \<Rightarrow> ale_word list" where
  "encode_capabilities_report r =
     [caps_cmd_word (CHR ''c'') (CHR ''/'') (CHR ''r''),
      caps_data_word DATA (push_bit 13 (ucast (scan_rate_chps r)) OR push_bit 5 (ucast (channels_scanned r))),
      caps_data_word REP (push_bit 13 (ucast (tens (max_tune_time_ms r))) OR push_bit 5 (ucast (tens (turnaround_time_ms r)))),
      caps_data_word DATA (push_bit 10 (ucast (activity_timeout_s r) AND 0x7FF) OR (ucast (cap_listen_time_ms r) AND 0x3FF)),
      caps_data_word REP
        (flag_bit (accept_all_calls r) 20 OR flag_bit (accept_any_calls r) 19 OR flag_bit (amd_enabled r) 18 OR
         flag_bit (dtm_enabled r) 17 OR flag_bit (dbm_enabled r) 16 OR push_bit 10 (ucast (lp_levels_mask r) AND 0x3F) OR
         flag_bit (time_service_enabled r) 9 OR flag_bit (alqa_enabled r) 8 OR flag_bit (orderwire_enabled r) 7 OR
         flag_bit (scheduling_enabled r) 6),
      caps_data_word DATA 0]"

section \<open>What a receiver can recover\<close>

definition field_at :: "nat \<Rightarrow> nat \<Rightarrow> u32 \<Rightarrow> nat" where
  "field_at k n w = unat (drop_bit k w AND mask n)"

text \<open>The layout of the report as its header documents it.\<close>

definition report_layout :: "ale_word list \<Rightarrow> nat list \<times> bool list \<times> nat" where
  "report_layout ws = (let p = (\<lambda>i. raw_payload (ws ! i)) in
     ([field_at 13 8 (p 1), field_at 5 8 (p 1), field_at 13 8 (p 2), field_at 5 8 (p 2), field_at 10 11 (p 3), field_at 0 10 (p 3)],
      map (bit (p 4)) [20, 19, 18, 17, 16, 9, 8, 7, 6], field_at 10 6 (p 4)))"

lemma raw_caps_data_word [simp]: "raw_payload (caps_data_word pt p) = p AND mask 21"
  by (simp add: caps_data_word_def mask_21)

lemma field_hi: "drop_bit 13 ((push_bit 13 (ucast a) OR push_bit 5 (ucast b)) AND mask 21) AND mask 8 = (ucast (a :: u8) :: u32)"
  for b :: u8
  by (rule bit_word_eqI) (auto simp: bit_and_iff bit_or_iff bit_mask_iff bit_drop_bit_eq bit_push_bit_iff bit_ucast_iff
      possible_bit_def dest: bit_imp_le_length)

lemma field_lo: "drop_bit 5 ((push_bit 13 (ucast a) OR push_bit 5 (ucast b)) AND mask 21) AND mask 8 = (ucast (b :: u8) :: u32)"
  for a :: u8
  by (rule bit_word_eqI) (auto simp: bit_and_iff bit_or_iff bit_mask_iff bit_drop_bit_eq bit_push_bit_iff bit_ucast_iff
      possible_bit_def dest: bit_imp_le_length)

lemma field_activity: "drop_bit 10 ((push_bit 10 (ucast a AND mask 11) OR (ucast b AND mask 10)) AND mask 21) AND mask 11
    = (ucast (a :: u16) :: u32) AND mask 11" for b :: u16
  by (rule bit_word_eqI) (auto simp: bit_and_iff bit_or_iff bit_mask_iff bit_drop_bit_eq bit_push_bit_iff bit_ucast_iff
      possible_bit_def dest: bit_imp_le_length)

lemma field_listen: "((push_bit 10 (ucast a AND mask 11) OR (ucast b AND mask 10)) AND mask 21) AND mask 10
    = (ucast (b :: u16) :: u32) AND mask 10" for a :: u16
  by (rule bit_word_eqI) (auto simp: bit_and_iff bit_or_iff bit_mask_iff bit_push_bit_iff bit_ucast_iff
      possible_bit_def dest: bit_imp_le_length)

lemma bit_flag_bit: "bit (flag_bit b k) n \<longleftrightarrow> b \<and> n = k \<and> k < 32"
  by (auto simp: flag_bit_def bit_push_bit_iff bit_of_bool_iff possible_bit_def)

lemma unat_tens: "unat (tens ms) = (if unat ms > 2550 then 255 else unat ms div 10)"
proof (cases "ms > 2550")
  case True
  then show ?thesis by (simp add: tens_def word_less_nat_alt)
next
  case False
  then have "unat ms \<le> 2550" by (simp add: word_less_nat_alt)
  moreover from this have "unat ms div 10 \<le> 255" by (simp add: div_le_mono [of _ 2550 10, simplified])
  ultimately show ?thesis using False
    by (simp add: tens_def word_less_nat_alt unsigned_ucast_eq unat_div take_bit_nat_eq_self)
qed

lemma unat_low: "unat ((ucast (w :: u16) :: u32) AND mask k) = unat w mod 2 ^ k"
proof -
  have "unat w < 2 ^ LENGTH(16)" by (rule unsigned_less)
  then have "unat (ucast w :: u32) = unat w" by (simp add: unsigned_ucast_eq take_bit_nat_eq_self)
  then show ?thesis by (simp only: unat_and_mask)
qed

definition levels_field :: "capabilities_report \<Rightarrow> u32" where
  "levels_field r = raw_payload (encode_capabilities_report r ! 4)"

lemma levels_field_bit:
  assumes "n < 21"
  shows "bit (levels_field r) n = (
     n = 20 \<and> accept_all_calls r \<or> n = 19 \<and> accept_any_calls r \<or> n = 18 \<and> amd_enabled r \<or> n = 17 \<and> dtm_enabled r
     \<or> n = 16 \<and> dbm_enabled r \<or> 10 \<le> n \<and> n < 16 \<and> bit (lp_levels_mask r) (n - 10)
     \<or> n = 9 \<and> time_service_enabled r \<or> n = 8 \<and> alqa_enabled r \<or> n = 7 \<and> orderwire_enabled r \<or> n = 6 \<and> scheduling_enabled r)"
proof -
  have m: "(0x3F :: u32) = mask 6" by (simp add: mask_eq_decr_exp)
  define lp where "lp = push_bit 10 ((ucast (lp_levels_mask r) :: u32) AND mask 6)"
  have lp: "bit lp n \<longleftrightarrow> 10 \<le> n \<and> n < 16 \<and> bit (lp_levels_mask r) (n - 10)"
    unfolding lp_def using assms by (auto simp: bit_push_bit_iff bit_and_iff bit_mask_iff bit_ucast_iff possible_bit_def)
  show ?thesis
    using assms unfolding levels_field_def encode_capabilities_report_def m lp_def [symmetric]
    by (simp add: bit_and_iff bit_or_iff bit_mask_iff bit_flag_bit lp) blast
qed

lemma field_levels: "drop_bit 10 (levels_field r) AND mask 6 = ucast (lp_levels_mask r) AND mask 6"
proof (rule bit_word_eqI)
  fix n
  assume "n < LENGTH(32)"
  show "bit (drop_bit 10 (levels_field r) AND mask 6) n = bit (ucast (lp_levels_mask r) AND mask 6 :: u32) n"
  proof (cases "n < 6")
    case True
    then have "bit (levels_field r) (10 + n) = bit (lp_levels_mask r) n" by (subst levels_field_bit) auto
    then show ?thesis using True
      by (simp add: bit_and_iff bit_mask_iff bit_drop_bit_eq bit_ucast_iff possible_bit_def)
  qed (simp add: bit_and_iff bit_mask_iff)
qed

text \<open>
  The capabilities report: six valid words, DATA and REP in turn after the command, whose fields
  laid out as its header documents are the rates, the times in units of 10 ms (held at 255), the flags
  and the protection levels; of the activity timeout only the remainder modulo 2048 s and of
  the listening time only the remainder modulo 1024 ms arrive, the code does not hold these at their limit.
\<close>

theorem capabilities_report_layout:
  "report_layout (encode_capabilities_report r) =
    ([unat (scan_rate_chps r), unat (channels_scanned r), min 255 (unat (max_tune_time_ms r) div 10),
      min 255 (unat (turnaround_time_ms r) div 10), unat (activity_timeout_s r) mod 2048, unat (cap_listen_time_ms r) mod 1024],
     [accept_all_calls r, accept_any_calls r, amd_enabled r, dtm_enabled r, dbm_enabled r, time_service_enabled r,
      alqa_enabled r, orderwire_enabled r, scheduling_enabled r],
     unat (lp_levels_mask r) mod 64)
   \<and> map word_type (encode_capabilities_report r) = [CMD, DATA, REP, DATA, REP, DATA]
   \<and> list_all valid (encode_capabilities_report r) \<and> is_capabilities_report (hd (encode_capabilities_report r))"
proof -
  have masks: "(0x7FF :: u32) = mask 11" "(0x3FF :: u32) = mask 10" by (simp_all add: mask_eq_decr_exp)
  have sat: "unat (tens ms) = min 255 (unat ms div 10)" for ms
    using div_le_mono [of 2550 "unat ms" 10] div_le_mono [of "unat ms" 2550 10] by (auto simp: unat_tens min_def)
  have lp: "unat ((ucast (lp_levels_mask r) :: u32) AND mask 6) = unat (lp_levels_mask r) mod 64"
  proof -
    have "unat (lp_levels_mask r) < 2 ^ LENGTH(8)" by (rule unsigned_less)
    then have "unat (ucast (lp_levels_mask r) :: u32) = unat (lp_levels_mask r)"
      by (simp add: unsigned_ucast_eq take_bit_nat_eq_self)
    then show ?thesis by (simp add: unat_and_mask)
  qed
  have byte: "unat (ucast (b :: u8) :: u32) = unat b" for b
  proof -
    have "unat b < 2 ^ LENGTH(8)" by (rule unsigned_less)
    then show ?thesis by (simp add: unsigned_ucast_eq take_bit_nat_eq_self)
  qed
  have p: "raw_payload (encode_capabilities_report r ! 1)
      = (push_bit 13 (ucast (scan_rate_chps r)) OR push_bit 5 (ucast (channels_scanned r))) AND mask 21"
    "raw_payload (encode_capabilities_report r ! 2)
      = (push_bit 13 (ucast (tens (max_tune_time_ms r))) OR push_bit 5 (ucast (tens (turnaround_time_ms r)))) AND mask 21"
    "raw_payload (encode_capabilities_report r ! 3)
      = (push_bit 10 (ucast (activity_timeout_s r) AND mask 11) OR (ucast (cap_listen_time_ms r) AND mask 10)) AND mask 21"
    unfolding masks [symmetric] by (simp_all add: encode_capabilities_report_def mask_eq_decr_exp)
  have l: "report_layout (encode_capabilities_report r) =
    ([unat (scan_rate_chps r), unat (channels_scanned r), min 255 (unat (max_tune_time_ms r) div 10),
      min 255 (unat (turnaround_time_ms r) div 10), unat (activity_timeout_s r) mod 2048, unat (cap_listen_time_ms r) mod 1024],
     [accept_all_calls r, accept_any_calls r, amd_enabled r, dtm_enabled r, dbm_enabled r, time_service_enabled r,
      alqa_enabled r, orderwire_enabled r, scheduling_enabled r],
     unat (lp_levels_mask r) mod 64)"
    unfolding report_layout_def Let_def field_at_def p levels_field_def [symmetric] drop_bit_0 id_apply
      field_hi field_lo field_activity field_listen field_levels byte sat unat_low lp
    by (simp add: levels_field_bit)
  then show ?thesis
    by (simp add: encode_capabilities_report_def caps_data_word_def caps_cmd_word_def is_capabilities_report_def is_caps_cmd_def
        payload_char7_def pack_payload_def ALEWord_def)
qed

text \<open>A version request keeps the format asked for; it always asks for all components.\<close>

lemma version_cmd_roundtrip:
  "is_version_cmd (encode_version_cmd c)
   \<and> decode_version_cmd (encode_version_cmd c) = \<lparr> kvc_mask = KVC_ALL,
       kvf_mask = if kvf_mask c AND KVF_FULL \<noteq> 0 \<and> \<not> kvf_mask c AND KVF_SUMMARY \<noteq> 0 then KVF_FULL else KVF_SUMMARY \<rparr>"
  by (simp add: is_version_cmd_def encode_version_cmd_def decode_version_cmd_def caps_cmd_word_def payload_char7_def
      pack_payload_def Let_def)

lemma capabilities_query_known:
  "is_capabilities_query encode_capabilities_query \<and> \<not> is_capabilities_report encode_capabilities_query
   \<and> \<not> is_version_cmd encode_capabilities_query"
  by (simp add: is_capabilities_query_def is_capabilities_report_def is_caps_cmd_def is_version_cmd_def
      encode_capabilities_query_def caps_cmd_word_def payload_char7_def pack_payload_def)

end
