(* ===== verification/Lqa_Database.thy ===== *)
theory Lqa_Database
  imports Complex_Main "HOL-Library.Char_ord" "HOL-Library.List_Lexorder" Prelude
begin

text \<open>
  The link quality database (\<open>src/LQA/lqa_database.cpp\<close>): measurements per channel and station, their
  time-weighted averages and scores, its bounded size. \<open>float\<close> is a rational number; the clock
  \<open>get_current_time_ms\<close>, the system's milliseconds cut to 32 bits, is an argument \<open>clock\<close> of the
  operations. The map of the entries, ordered by frequency and station, is an ordered list.
\<close>

section \<open>Entries\<close>

datatype entry_key = EntryKey (key_freq: u32) (key_station: string)

instantiation entry_key :: linorder
begin

definition less_entry_key :: "entry_key \<Rightarrow> entry_key \<Rightarrow> bool" where
  "less_entry_key a b \<longleftrightarrow>
     (if key_freq a \<noteq> key_freq b then key_freq a < key_freq b else key_station a < key_station b)"

definition less_eq_entry_key :: "entry_key \<Rightarrow> entry_key \<Rightarrow> bool" where
  "less_eq_entry_key a b \<longleftrightarrow> a < b \<or> a = b"

instance
proof
  fix a b c :: entry_key
  show "a < b \<longleftrightarrow> a \<le> b \<and> \<not> b \<le> a"
    by (cases a; cases b) (auto simp: less_entry_key_def less_eq_entry_key_def)
  show "a \<le> a" by (simp add: less_eq_entry_key_def)
  show "a \<le> b \<Longrightarrow> b \<le> c \<Longrightarrow> a \<le> c"
    by (cases a; cases b; cases c) (auto simp: less_entry_key_def less_eq_entry_key_def split: if_splits)
  show "a \<le> b \<Longrightarrow> b \<le> a \<Longrightarrow> a = b"
    by (cases a; cases b) (auto simp: less_entry_key_def less_eq_entry_key_def split: if_splits)
  show "a \<le> b \<or> b \<le> a"
    by (cases a; cases b) (auto simp: less_entry_key_def less_eq_entry_key_def)
qed

end

record lqa_entry =
  le_frequency :: u32
  le_station :: string
  le_snr :: rat
  le_ber :: rat
  le_sinad :: rat
  le_fec_errors :: int
  le_total_words :: int
  le_multipath :: rat
  le_noise_floor :: rat
  last_sounding_ms :: u32
  last_contact_ms :: u32
  le_score :: rat
  sample_count :: u32
  bilateral_sinad :: u8
  bilateral_ber :: u8
  bilateral_mp :: u8
  bilateral_tried :: bool
  last_failed_handshake_ms :: u32
  sounding_twas :: bool
  solar_elevation :: rat
  sfi_at_measurement :: rat

definition LQAEntry :: lqa_entry where
  "LQAEntry = \<lparr> le_frequency = 0, le_station = [], le_snr = 0, le_ber = 0, le_sinad = 0, le_fec_errors = 0,
     le_total_words = 0, le_multipath = 0, le_noise_floor = -120, last_sounding_ms = 0, last_contact_ms = 0,
     le_score = 0, sample_count = 0, bilateral_sinad = 31, bilateral_ber = 31, bilateral_mp = 7,
     bilateral_tried = False, last_failed_handshake_ms = 0, sounding_twas = False, solar_elevation = 0,
     sfi_at_measurement = 0 \<rparr>"

definition last_activity_ms :: "lqa_entry \<Rightarrow> u32" where
  "last_activity_ms e = (if last_contact_ms e > last_sounding_ms e then last_contact_ms e else last_sounding_ms e)"

record lqa_config =
  snr_weight :: rat
  success_weight :: rat
  recency_weight :: rat
  max_age_ms :: u32
  time_decay_factor :: rat

definition LQAConfig :: lqa_config where
  "LQAConfig = \<lparr> snr_weight = 1 / 2, success_weight = 3 / 10, recency_weight = 1 / 5, max_age_ms = 90000000,
     time_decay_factor = 9 / 10 \<rparr>"

type_synonym entries = "(entry_key \<times> lqa_entry) list"

record lqa_database =
  db_config :: lqa_config
  db_entries :: entries

definition kCapacity :: nat where "kCapacity = 10000"

definition init_database :: lqa_database where
  "init_database = \<lparr> db_config = LQAConfig, db_entries = [] \<rparr>"

section \<open>The ordered map\<close>

fun put_entry :: "entry_key \<Rightarrow> lqa_entry \<Rightarrow> entries \<Rightarrow> entries" where
  "put_entry k e [] = [(k, e)]"
| "put_entry k e ((k', e') # es) =
     (if k < k' then (k, e) # (k', e') # es
      else if k = k' then (k, e) # es
      else (k', e') # put_entry k e es)"

fun oldest :: "entry_key \<times> lqa_entry \<Rightarrow> entries \<Rightarrow> entry_key \<times> lqa_entry" where
  "oldest o1 [] = o1"
| "oldest o1 (x # es) = oldest (if last_activity_ms (snd x) < last_activity_ms (snd o1) then x else o1) es"

definition evict_oldest_if_full :: "entries \<Rightarrow> entries" where
  "evict_oldest_if_full es =
     (if length es < kCapacity then es
      else case es of [] \<Rightarrow> [] | x # rest \<Rightarrow> let k = fst (oldest x rest) in filter (\<lambda>(k', _). k' \<noteq> k) es)"

section \<open>Quality and score\<close>

definition LQA_QUALITY_MAX :: rat where "LQA_QUALITY_MAX = 30"
definition LQA_QUALITY_MIN :: rat where "LQA_QUALITY_MIN = 0"
definition kBerLeadWeight :: rat where "kBerLeadWeight = 7 / 10"

definition from_direction_quality :: "lqa_entry \<Rightarrow> rat" where
  "from_direction_quality e =
     (let has_ber = le_total_words e > 0; has_sinad = le_sinad e > 0;
          ber_q = (if has_ber then (1 - min 1 (le_ber e / 48)) * LQA_QUALITY_MAX else -1);
          sinad_q = (if has_sinad then min LQA_QUALITY_MAX (le_sinad e) else -1)
      in if has_ber \<and> has_sinad then kBerLeadWeight * ber_q + (1 - kBerLeadWeight) * sinad_q
         else if has_ber then ber_q else if has_sinad then sinad_q else -1)"

definition to_direction_quality :: "lqa_entry \<Rightarrow> rat" where
  "to_direction_quality e =
     (let has_ber = bilateral_ber e \<le> 30; has_sinad = bilateral_sinad e \<le> 30;
          ber_q = (if has_ber then LQA_QUALITY_MAX - of_nat (unat (bilateral_ber e)) else -1);
          sinad_q = (if has_sinad then min LQA_QUALITY_MAX (of_nat (unat (bilateral_sinad e))) else -1)
      in if has_ber \<and> has_sinad then kBerLeadWeight * ber_q + (1 - kBerLeadWeight) * sinad_q
         else if has_ber then ber_q else if has_sinad then sinad_q else -1)"

definition bilateral_quality_score :: "lqa_entry \<Rightarrow> rat" where
  "bilateral_quality_score e =
     (let q = to_direction_quality e in if q < 0 then 0 else min LQA_QUALITY_MAX (max LQA_QUALITY_MIN q))"

text \<open>Division by a \<open>max_age_ms\<close> of zero as \<open>float\<close> division and \<open>std::min\<close> do it.\<close>

definition age_factor :: "lqa_config \<Rightarrow> u32 \<Rightarrow> rat" where
  "age_factor cfg age =
     (if max_age_ms cfg = 0 then (if age = 0 then 1 else 0)
      else max 0 (min 1 (1 - of_nat (unat age) / of_nat (unat (max_age_ms cfg)))))"

definition compute_score :: "lqa_config \<Rightarrow> u32 \<Rightarrow> lqa_entry \<Rightarrow> rat" where
  "compute_score cfg clock e =
     (let from_q = from_direction_quality e;
          score = (if from_q \<ge> 0 then from_q else bilateral_quality_score e) * (snr_weight cfg + success_weight cfg);
          act = last_activity_ms e;
          score = (if act > 0 then score + age_factor cfg (clock - act) * LQA_QUALITY_MAX * recency_weight cfg else score)
      in min LQA_QUALITY_MAX (max LQA_QUALITY_MIN score))"

definition time_weighted_average :: "lqa_config \<Rightarrow> rat \<Rightarrow> rat \<Rightarrow> u32 \<Rightarrow> rat" where
  "time_weighted_average cfg old_value new_value old_samples =
     (let decay = time_decay_factor cfg; n = of_nat (unat old_samples)
      in (old_value * decay * n + new_value) / (n * decay + 1))"

section \<open>Operations\<close>

definition stamp :: "u32 \<Rightarrow> u32 \<Rightarrow> u32" where
  "stamp clock timestamp = (if timestamp = 0 then clock else timestamp)"

definition stamp_activity :: "string \<Rightarrow> u32 \<Rightarrow> lqa_entry \<Rightarrow> lqa_entry" where
  "stamp_activity station now e = (if station = [] then e\<lparr>last_sounding_ms := now\<rparr> else e\<lparr>last_contact_ms := now\<rparr>)"

definition scored :: "lqa_config \<Rightarrow> u32 \<Rightarrow> lqa_entry \<Rightarrow> lqa_entry" where
  "scored cfg clock e = e\<lparr>le_score := compute_score cfg clock e\<rparr>"

text \<open>Change an entry, made from the given one (after an eviction) where there is none.\<close>

definition with_entry :: "entry_key \<Rightarrow> lqa_entry \<Rightarrow> (lqa_entry \<Rightarrow> lqa_entry) \<Rightarrow> lqa_database \<Rightarrow> lqa_database" where
  "with_entry k fresh f db =
     (case map_of (db_entries db) k of
        Some e \<Rightarrow> db\<lparr>db_entries := put_entry k (f e) (db_entries db)\<rparr>
      | None \<Rightarrow> db\<lparr>db_entries := put_entry k (f fresh) (evict_oldest_if_full (db_entries db))\<rparr>)"

definition entry_for :: "u32 \<Rightarrow> string \<Rightarrow> lqa_entry" where
  "entry_for freq station = LQAEntry\<lparr>le_frequency := freq, le_station := station\<rparr>"

record measurement =
  m_snr :: rat
  m_ber :: rat
  m_sinad :: rat
  m_multipath :: rat
  m_noise :: rat
  m_fec :: int
  m_words :: int

definition db_update_entry :: "u32 \<Rightarrow> u32 \<Rightarrow> string \<Rightarrow> measurement \<Rightarrow> u32 \<Rightarrow> lqa_database \<Rightarrow> lqa_database" where
  "db_update_entry clock freq station m timestamp db =
     (let k = EntryKey freq station; now = stamp clock timestamp; cfg = db_config db
      in case map_of (db_entries db) k of
           Some e \<Rightarrow>
             (let n = sample_count e;
                  e = e\<lparr>le_snr := time_weighted_average cfg (le_snr e) (m_snr m) n,
                        le_ber := time_weighted_average cfg (le_ber e) (m_ber m) n,
                        le_fec_errors := le_fec_errors e + m_fec m, le_total_words := le_total_words e + m_words m,
                        sample_count := n + 1\<rparr>
              in db\<lparr>db_entries := put_entry k (scored cfg clock (stamp_activity station now e)) (db_entries db)\<rparr>)
         | None \<Rightarrow>
             (let e = (entry_for freq station)\<lparr>le_snr := m_snr m, le_ber := m_ber m, le_fec_errors := m_fec m,
                        le_total_words := m_words m, sample_count := 1\<rparr>
              in db\<lparr>db_entries := put_entry k (scored cfg clock (stamp_activity station now e))
                                    (evict_oldest_if_full (db_entries db))\<rparr>))"

definition update_entry_extended :: "u32 \<Rightarrow> u32 \<Rightarrow> string \<Rightarrow> measurement \<Rightarrow> u32 \<Rightarrow> lqa_database \<Rightarrow> lqa_database" where
  "update_entry_extended clock freq station m timestamp db =
     (let k = EntryKey freq station; now = stamp clock timestamp; cfg = db_config db
      in case map_of (db_entries db) k of
           Some e \<Rightarrow>
             (let n = sample_count e;
                  e = e\<lparr>le_snr := time_weighted_average cfg (le_snr e) (m_snr m) n,
                        le_ber := time_weighted_average cfg (le_ber e) (m_ber m) n,
                        le_sinad := time_weighted_average cfg (le_sinad e) (m_sinad m) n,
                        le_multipath := time_weighted_average cfg (le_multipath e) (m_multipath m) n,
                        le_noise_floor := time_weighted_average cfg (le_noise_floor e) (m_noise m) n,
                        le_fec_errors := le_fec_errors e + m_fec m, le_total_words := le_total_words e + m_words m,
                        sample_count := n + 1\<rparr>
              in db\<lparr>db_entries := put_entry k (scored cfg clock (stamp_activity station now e)) (db_entries db)\<rparr>)
         | None \<Rightarrow>
             (let e = (entry_for freq station)\<lparr>le_snr := m_snr m, le_ber := m_ber m, le_sinad := m_sinad m,
                        le_multipath := m_multipath m, le_noise_floor := m_noise m, le_fec_errors := m_fec m,
                        le_total_words := m_words m, sample_count := 1\<rparr>
              in db\<lparr>db_entries := put_entry k (scored cfg clock (stamp_activity station now e))
                                    (evict_oldest_if_full (db_entries db))\<rparr>))"

definition update_bilateral :: "u32 \<Rightarrow> u32 \<Rightarrow> string \<Rightarrow> u8 \<Rightarrow> u8 \<Rightarrow> u8 \<Rightarrow> u32 \<Rightarrow> lqa_database \<Rightarrow> lqa_database" where
  "update_bilateral clock freq station s b m timestamp db =
     (let now = stamp clock timestamp
      in with_entry (EntryKey freq station) ((entry_for freq station)\<lparr>last_contact_ms := now\<rparr>)
           (\<lambda>e. scored (db_config db) clock (e\<lparr>bilateral_sinad := s, bilateral_ber := b, bilateral_mp := m,
              bilateral_tried := True, last_contact_ms := now\<rparr>)) db)"

definition mark_bilateral_attempted :: "u32 \<Rightarrow> u32 \<Rightarrow> string \<Rightarrow> lqa_database \<Rightarrow> lqa_database" where
  "mark_bilateral_attempted clock freq station db =
     with_entry (EntryKey freq station) ((entry_for freq station)\<lparr>last_contact_ms := clock\<rparr>)
       (\<lambda>e. scored (db_config db) clock (e\<lparr>bilateral_tried := True\<rparr>)) db"

definition record_handshake_fail :: "u32 \<Rightarrow> u32 \<Rightarrow> string \<Rightarrow> u32 \<Rightarrow> lqa_database \<Rightarrow> lqa_database" where
  "record_handshake_fail clock freq station timestamp db =
     (let now = stamp clock timestamp
      in with_entry (EntryKey freq station) ((entry_for freq station)\<lparr>last_contact_ms := now\<rparr>)
           (\<lambda>e. e\<lparr>last_failed_handshake_ms := now\<rparr>) db)"

definition set_sounding_availability :: "u32 \<Rightarrow> u32 \<Rightarrow> string \<Rightarrow> bool \<Rightarrow> u32 \<Rightarrow> lqa_database \<Rightarrow> lqa_database" where
  "set_sounding_availability clock freq station twas timestamp db =
     (let now = stamp clock timestamp
      in with_entry (EntryKey freq station) ((entry_for freq station)\<lparr>last_sounding_ms := now\<rparr>)
           (\<lambda>e. scored (db_config db) clock (e\<lparr>sounding_twas := twas, last_sounding_ms := now\<rparr>)) db)"

definition update_noise_floor :: "u32 \<Rightarrow> u32 \<Rightarrow> u8 \<Rightarrow> u8 \<Rightarrow> u32 \<Rightarrow> lqa_database \<Rightarrow> lqa_database" where
  "update_noise_floor clock freq max_db mean_db timestamp db =
     (if max_db = 127 \<and> mean_db = 127 then db
      else let now = stamp clock timestamp
        in with_entry (EntryKey freq []) ((entry_for freq [])\<lparr>last_sounding_ms := now\<rparr>)
             (\<lambda>e. (if mean_db < 127 then e\<lparr>le_noise_floor := of_nat (unat mean_db) - 120\<rparr> else e)\<lparr>last_sounding_ms := now\<rparr>) db)"

definition set_propagation_at_measurement :: "u32 \<Rightarrow> string \<Rightarrow> rat \<Rightarrow> rat \<Rightarrow> lqa_database \<Rightarrow> lqa_database" where
  "set_propagation_at_measurement freq station elev sfi db =
     with_entry (EntryKey freq station) (entry_for freq station)
       (\<lambda>e. e\<lparr>solar_elevation := elev, sfi_at_measurement := sfi\<rparr>) db"

definition prune_stale_entries :: "u32 \<Rightarrow> lqa_database \<Rightarrow> nat \<times> lqa_database" where
  "prune_stale_entries clock db =
     (let kept = filter (\<lambda>(_, e). \<not> clock - last_activity_ms e > max_age_ms (db_config db)) (db_entries db)
      in (length (db_entries db) - length kept, db\<lparr>db_entries := kept\<rparr>))"

definition db_clear :: "lqa_database \<Rightarrow> lqa_database" where
  "db_clear db = db\<lparr>db_entries := []\<rparr>"

definition set_config :: "lqa_config \<Rightarrow> lqa_database \<Rightarrow> lqa_database" where
  "set_config cfg db = db\<lparr>db_config := cfg\<rparr>"

definition get_entry :: "u32 \<Rightarrow> string \<Rightarrow> lqa_database \<Rightarrow> lqa_entry option" where
  "get_entry freq station db = map_of (db_entries db) (EntryKey freq station)"

definition get_entries_for_channel :: "u32 \<Rightarrow> lqa_database \<Rightarrow> lqa_entry list" where
  "get_entries_for_channel freq db = map snd (filter (\<lambda>(k, _). key_freq k = freq) (db_entries db))"

text \<open>The age limit in milliseconds; 0 for none. The entries of one station are already in order of frequency.\<close>

definition get_entries_for_station :: "u32 \<Rightarrow> string \<Rightarrow> u32 \<Rightarrow> lqa_database \<Rightarrow> lqa_entry list" where
  "get_entries_for_station clock station limit db =
     map snd (filter (\<lambda>(k, e). key_station k = station \<and> \<not> (limit > 0 \<and> clock - last_activity_ms e > limit)) (db_entries db))"

section \<open>The map and its bound\<close>

definition sorted_entries :: "entries \<Rightarrow> bool" where
  "sorted_entries es \<longleftrightarrow> sorted_wrt (<) (map fst es)"

lemma set_put_entry: "set (put_entry k e es) \<subseteq> insert (k, e) (set es)"
  by (induction k e es rule: put_entry.induct) auto

lemma sorted_put_entry: "sorted_entries es \<Longrightarrow> sorted_entries (put_entry k e es)"
proof (induction k e es rule: put_entry.induct)
  case (2 k e k' e' es)
  show ?case
  proof (cases "k < k'")
    case True
    then show ?thesis using 2(2) by (auto simp: sorted_entries_def intro: less_trans)
  next
    case False
    show ?thesis
    proof (cases "k = k'")
      case True
      then show ?thesis using 2(2) by (simp add: sorted_entries_def)
    next
      case neq: False
      have "\<forall>x \<in> set (put_entry k e es). k' < fst x"
        using set_put_entry [of k e es] 2(2) False neq by (auto simp: sorted_entries_def)
      then show ?thesis using 2 False neq by (auto simp: sorted_entries_def)
    qed
  qed
qed (simp add: sorted_entries_def)

lemma absent_above:
  fixes k :: "'k::linorder"
  assumes "\<forall>x \<in> set es. k < fst x"
  shows "map_of es k = None"
proof -
  have "k \<notin> fst ` set es" using assms order.irrefl [of k] by force
  then show ?thesis by (simp add: map_of_eq_None_iff)
qed

lemma map_of_put_entry: "sorted_entries es \<Longrightarrow> map_of (put_entry k e es) = (map_of es)(k \<mapsto> e)"
proof (induction k e es rule: put_entry.induct)
  case (2 k e k' e' es)
  then show ?case by (auto simp: sorted_entries_def fun_eq_iff)
qed simp

lemma length_put_entry:
  "sorted_entries es \<Longrightarrow> length (put_entry k e es) = (if map_of es k = None then length es + 1 else length es)"
proof (induction k e es rule: put_entry.induct)
  case (2 k e k' e' es)
  show ?case
  proof (cases "k < k'")
    case True
    then have "map_of es k = None"
      using 2(2) by (intro absent_above) (auto simp: sorted_entries_def intro: less_trans)
    then show ?thesis using True by auto
  qed (use 2 in \<open>auto simp: sorted_entries_def\<close>)
qed simp

lemma oldest_in: "oldest o1 es \<in> set (o1 # es)"
  by (induction o1 es rule: oldest.induct) (auto split: if_splits)

lemma oldest_least: "x \<in> set (o1 # es) \<Longrightarrow> last_activity_ms (snd (oldest o1 es)) \<le> last_activity_ms (snd x)"
proof (induction o1 es arbitrary: x rule: oldest.induct)
  case (2 o1 y es)
  define z where "z = (if last_activity_ms (snd y) < last_activity_ms (snd o1) then y else o1)"
  have z: "last_activity_ms (snd z) \<le> last_activity_ms (snd y)" "last_activity_ms (snd z) \<le> last_activity_ms (snd o1)"
    by (auto simp: z_def not_less)
  have "last_activity_ms (snd (oldest z es)) \<le> last_activity_ms (snd z)" using 2(1) [of z] by (simp add: z_def)
  moreover have "x \<in> set es \<Longrightarrow> last_activity_ms (snd (oldest z es)) \<le> last_activity_ms (snd x)"
    using 2(1) [of x] by (simp add: z_def)
  ultimately show ?case using 2(2) z by (auto simp: z_def [symmetric] intro: order_trans)
qed simp

lemma sorted_filter: "sorted_entries es \<Longrightarrow> sorted_entries (filter P es)"
  by (induction es) (auto simp: sorted_entries_def)

lemma map_of_drop_key: "map_of (filter (\<lambda>(k', _). k' \<noteq> k0) es) = (map_of es)(k0 := None)"
  by (induction es) (auto simp: fun_eq_iff)

text \<open>Eviction drops one entry, least active of all, and only from a full database.\<close>

lemma evict_oldest:
  assumes "sorted_entries es" "length es \<le> kCapacity"
  shows "sorted_entries (evict_oldest_if_full es)" "length (evict_oldest_if_full es) < kCapacity"
    "set (evict_oldest_if_full es) \<subseteq> set es"
    "length es = kCapacity \<Longrightarrow> \<exists>k0 e0. map_of es k0 = Some e0 \<and> (\<forall>k e. map_of es k = Some e \<longrightarrow> last_activity_ms e0 \<le> last_activity_ms e)
       \<and> map_of (evict_oldest_if_full es) = (map_of es)(k0 := None)"
proof -
  have d: "distinct (map fst es)"
    using assms(1) unfolding sorted_entries_def by (simp add: strict_sorted_iff)
  show "set (evict_oldest_if_full es) \<subseteq> set es"
    by (auto simp: evict_oldest_if_full_def Let_def split: if_splits list.splits)
  show "sorted_entries (evict_oldest_if_full es)"
    using assms(1) sorted_filter [OF assms(1)]
    by (cases es) (simp_all add: evict_oldest_if_full_def Let_def del: filter.simps)
  show "length (evict_oldest_if_full es) < kCapacity"
  proof (cases "length es < kCapacity")
    case False
    then obtain x rest where es: "es = x # rest" using assms(2) by (cases es) (auto simp: kCapacity_def)
    let ?k = "fst (oldest x rest)"
    have "oldest x rest \<in> set es" using oldest_in [of x rest] es by simp
    then have "length (filter (\<lambda>(k', _). k' \<noteq> ?k) es) < length es"
      by (intro length_filter_less [of "oldest x rest"]) auto
    then show ?thesis using assms(2) False es by (simp add: evict_oldest_if_full_def Let_def)
  qed (simp add: evict_oldest_if_full_def)
  show "\<exists>k0 e0. map_of es k0 = Some e0 \<and> (\<forall>k e. map_of es k = Some e \<longrightarrow> last_activity_ms e0 \<le> last_activity_ms e)
       \<and> map_of (evict_oldest_if_full es) = (map_of es)(k0 := None)" if full: "length es = kCapacity"
  proof -
    obtain x rest where es: "es = x # rest" using full by (cases es) (auto simp: kCapacity_def)
    obtain k0 e0 where o: "oldest x rest = (k0, e0)" by (cases "oldest x rest")
    have "(k0, e0) \<in> set es" using oldest_in [of x rest] es o by simp
    then have "map_of es k0 = Some e0" using d by simp
    moreover have "last_activity_ms e0 \<le> last_activity_ms e" if "map_of es k = Some e" for k e
      using oldest_least [of "(k, e)" x rest] map_of_SomeD [OF that] es o by simp
    moreover have "evict_oldest_if_full es = filter (\<lambda>(k', _). k' \<noteq> k0) es"
      using that es o by (simp add: evict_oldest_if_full_def)
    ultimately show ?thesis by (auto simp: map_of_drop_key)
  qed
qed

section \<open>Invariant of the database\<close>

definition entry_ok :: "entry_key \<Rightarrow> lqa_entry \<Rightarrow> bool" where
  "entry_ok k e \<longleftrightarrow> le_frequency e = key_freq k \<and> le_station e = key_station k \<and> 0 \<le> le_score e \<and> le_score e \<le> 30"

definition db_inv :: "lqa_database \<Rightarrow> bool" where
  "db_inv db \<longleftrightarrow> sorted_entries (db_entries db) \<and> length (db_entries db) \<le> kCapacity
     \<and> (\<forall>(k, e) \<in> set (db_entries db). entry_ok k e)"

lemma compute_score_range: "0 \<le> compute_score cfg clock e" "compute_score cfg clock e \<le> 30"
  by (simp_all add: compute_score_def LQA_QUALITY_MAX_def LQA_QUALITY_MIN_def Let_def)

lemma entry_ok_scored:
  "le_frequency e = key_freq k \<Longrightarrow> le_station e = key_station k \<Longrightarrow> entry_ok k (scored cfg clock e)"
  by (simp add: entry_ok_def scored_def compute_score_range)

lemma put_existing:
  assumes "db_inv db" "map_of (db_entries db) k \<noteq> None" "entry_ok k e"
  shows "db_inv (db\<lparr>db_entries := put_entry k e (db_entries db)\<rparr>)"
  using assms set_put_entry [of k e "db_entries db"]
  by (auto simp: db_inv_def sorted_put_entry length_put_entry)

lemma put_fresh:
  assumes "db_inv db" "entry_ok k e"
  shows "db_inv (db\<lparr>db_entries := put_entry k e (evict_oldest_if_full (db_entries db))\<rparr>)"
proof -
  have s: "sorted_entries (db_entries db)" "length (db_entries db) \<le> kCapacity" using assms(1) by (simp_all add: db_inv_def)
  note ev = evict_oldest [OF s]
  show ?thesis
    using assms ev(1-3) set_put_entry [of k e "evict_oldest_if_full (db_entries db)"]
    by (auto simp: db_inv_def sorted_put_entry length_put_entry)
qed

lemma db_inv_entry: "db_inv db \<Longrightarrow> map_of (db_entries db) k = Some e \<Longrightarrow> entry_ok k e"
  by (auto simp: db_inv_def dest: map_of_SomeD)

lemma with_entry_inv:
  assumes "db_inv db" "entry_ok k fresh" "\<And>e. entry_ok k e \<Longrightarrow> entry_ok k (f e)"
  shows "db_inv (with_entry k fresh f db)"
  using put_existing [OF assms(1)] put_fresh [OF assms(1)] assms db_inv_entry [OF assms(1)]
  by (auto simp: with_entry_def split: option.splits)

lemma update_inv:
  assumes "db_inv db"
  shows "db_inv (db_update_entry clock freq station m ts db)" "db_inv (update_entry_extended clock freq station m ts db)"
proof -
  let ?k = "EntryKey freq station"
  have fresh: "le_frequency (stamp_activity station now e) = le_frequency e" "le_station (stamp_activity station now e) = le_station e"
    for now e by (simp_all add: stamp_activity_def)
  have "db_inv (db_update_entry clock freq station m ts db) \<and> db_inv (update_entry_extended clock freq station m ts db)"
  proof (cases "map_of (db_entries db) ?k")
    case None
    show ?thesis
      unfolding db_update_entry_def update_entry_extended_def Let_def None option.case
      by (intro conjI put_fresh [OF assms] entry_ok_scored) (simp_all add: fresh entry_for_def)
  next
    case (Some e)
    have "entry_ok ?k e" using db_inv_entry [OF assms Some] .
    then have e: "le_frequency e = freq" "le_station e = station" by (simp_all add: entry_ok_def)
    have n: "map_of (db_entries db) ?k \<noteq> None" using Some by simp
    show ?thesis
      unfolding db_update_entry_def update_entry_extended_def Let_def Some option.case
      by (intro conjI put_existing [OF assms n] entry_ok_scored) (simp_all add: fresh e)
  qed
  then show "db_inv (db_update_entry clock freq station m ts db)" "db_inv (update_entry_extended clock freq station m ts db)" by simp_all
qed

datatype db_event = Update u32 u32 string measurement u32 | Update_Extended u32 u32 string measurement u32
  | Bilateral u32 u32 string u8 u8 u8 u32 | Attempted u32 u32 string | Handshake_Fail u32 u32 string u32
  | Availability u32 u32 string bool u32 | Noise u32 u32 u8 u8 u32 | Propagation u32 string rat rat
  | Prune u32 | Db_Clear | Db_Config lqa_config

fun db_step :: "lqa_database \<Rightarrow> db_event \<Rightarrow> lqa_database" where
  "db_step db (Update clock f s m t) = db_update_entry clock f s m t db"
| "db_step db (Update_Extended clock f s m t) = update_entry_extended clock f s m t db"
| "db_step db (Bilateral clock f s a b c t) = update_bilateral clock f s a b c t db"
| "db_step db (Attempted clock f s) = mark_bilateral_attempted clock f s db"
| "db_step db (Handshake_Fail clock f s t) = record_handshake_fail clock f s t db"
| "db_step db (Availability clock f s w t) = set_sounding_availability clock f s w t db"
| "db_step db (Noise clock f a b t) = update_noise_floor clock f a b t db"
| "db_step db (Propagation f s a b) = set_propagation_at_measurement f s a b db"
| "db_step db (Prune clock) = snd (prune_stale_entries clock db)"
| "db_step db Db_Clear = db_clear db"
| "db_step db (Db_Config cfg) = set_config cfg db"

lemma entry_ok_for: "entry_ok (EntryKey f s) ((entry_for f s)\<lparr>last_contact_ms := a\<rparr>)"
  "entry_ok (EntryKey f s) ((entry_for f s)\<lparr>last_sounding_ms := a\<rparr>)" "entry_ok (EntryKey f s) (entry_for f s)"
  by (simp_all add: entry_ok_def entry_for_def LQAEntry_def)

lemma db_inv_step:
  assumes "db_inv db"
  shows "db_inv (db_step db e)"
proof (cases e)
  case (Prune clock)
  have "length (filter P (db_entries db)) \<le> kCapacity" for P
    using assms length_filter_le [of P "db_entries db"] unfolding db_inv_def by linarith
  then show ?thesis using assms Prune
    by (auto simp: db_inv_def prune_stale_entries_def Let_def sorted_filter)
next
  case Db_Clear
  then show ?thesis by (simp add: db_inv_def db_clear_def sorted_entries_def)
next
  case (Db_Config cfg)
  then show ?thesis using assms by (simp add: db_inv_def set_config_def)
next
  case (Bilateral clock f s a b c t)
  show ?thesis unfolding Bilateral db_step.simps update_bilateral_def Let_def
    by (rule with_entry_inv [OF assms entry_ok_for(1)], rule entry_ok_scored) (simp_all add: entry_ok_def)
next
  case (Attempted clock f s)
  show ?thesis unfolding Attempted db_step.simps mark_bilateral_attempted_def
    by (rule with_entry_inv [OF assms entry_ok_for(1)], rule entry_ok_scored) (simp_all add: entry_ok_def)
next
  case (Handshake_Fail clock f s t)
  show ?thesis unfolding Handshake_Fail db_step.simps record_handshake_fail_def Let_def
    by (rule with_entry_inv [OF assms entry_ok_for(1)]) (simp add: entry_ok_def)
next
  case (Availability clock f s w t)
  show ?thesis unfolding Availability db_step.simps set_sounding_availability_def Let_def
    by (rule with_entry_inv [OF assms entry_ok_for(2)], rule entry_ok_scored) (simp_all add: entry_ok_def)
next
  case (Noise clock f a b t)
  have "db_inv (with_entry (EntryKey f []) ((entry_for f [])\<lparr>last_sounding_ms := now\<rparr>)
      (\<lambda>e. (if b < 127 then e\<lparr>le_noise_floor := x\<rparr> else e)\<lparr>last_sounding_ms := now\<rparr>) db)" for now x
    by (rule with_entry_inv [OF assms entry_ok_for(2)]) (simp add: entry_ok_def)
  then show ?thesis using assms by (simp add: Noise update_noise_floor_def Let_def)
next
  case (Propagation f s a b)
  show ?thesis unfolding Propagation db_step.simps set_propagation_at_measurement_def
    by (rule with_entry_inv [OF assms entry_ok_for(3)]) (simp add: entry_ok_def)
qed (use update_inv [OF assms] in simp_all)

interpretation lqa_db: event_machine db_step db_inv
  by unfold_locales (rule db_inv_step)

text \<open>
  C31. Whatever measurements, reports, failures, clocks and settings the database is given, in any order:
  it holds at most 10000 entries, one per channel and station and in their order, each under its own channel
  and station, and every score is a quality from 0 to 30, never the 31 that stands for unknown.
\<close>

theorem database_invariant:
  "db_inv (foldl db_step init_database es)"
  by (rule lqa_db.run_inv) (simp add: db_inv_def init_database_def sorted_entries_def)

text \<open>
  A full database: a report about a channel and station it does not know drops exactly one entry, none being
  less recently active, and leaves every other entry as it is.
\<close>

theorem eviction_drops_the_oldest:
  assumes "db_inv db" "length (db_entries db) = kCapacity" "get_entry freq station db = None"
  shows "\<exists>k0 e0. map_of (db_entries db) k0 = Some e0
    \<and> (\<forall>k e. map_of (db_entries db) k = Some e \<longrightarrow> last_activity_ms e0 \<le> last_activity_ms e)
    \<and> (\<exists>new. map_of (db_entries (update_bilateral clock freq station s b m ts db))
         = ((map_of (db_entries db))(k0 := None))(EntryKey freq station \<mapsto> new)
         \<and> bilateral_sinad new = s \<and> bilateral_ber new = b \<and> bilateral_mp new = m)"
proof -
  have s: "sorted_entries (db_entries db)" "length (db_entries db) \<le> kCapacity" using assms(1) by (simp_all add: db_inv_def)
  obtain k0 e0 where o: "map_of (db_entries db) k0 = Some e0"
    "\<forall>k e. map_of (db_entries db) k = Some e \<longrightarrow> last_activity_ms e0 \<le> last_activity_ms e"
    "map_of (evict_oldest_if_full (db_entries db)) = (map_of (db_entries db))(k0 := None)"
    using evict_oldest(4) [OF s assms(2)] by blast
  have "map_of (db_entries db) (EntryKey freq station) = None" using assms(3) by (simp add: get_entry_def)
  then obtain new where "db_entries (update_bilateral clock freq station s b m ts db)
      = put_entry (EntryKey freq station) new (evict_oldest_if_full (db_entries db))"
    "bilateral_sinad new = s" "bilateral_ber new = b" "bilateral_mp new = m"
    using that [of "scored (db_config db) clock ((entry_for freq station)\<lparr>last_contact_ms := stamp clock ts,
      bilateral_sinad := s, bilateral_ber := b, bilateral_mp := m, bilateral_tried := True, last_contact_ms := stamp clock ts\<rparr>)"]
    by (simp add: update_bilateral_def with_entry_def Let_def scored_def)
  then show ?thesis using o map_of_put_entry [OF evict_oldest(1) [OF s]] by metis
qed

section \<open>Averages\<close>

lemma time_weighted_average_between:
  assumes "0 \<le> time_decay_factor cfg" "lo \<le> x" "x \<le> hi" "lo \<le> y" "y \<le> hi"
  shows "lo \<le> time_weighted_average cfg x y n \<and> time_weighted_average cfg x y n \<le> hi"
proof -
  define w where "w = time_decay_factor cfg * of_nat (unat n)"
  have w: "0 \<le> w" using assms(1) unfolding w_def by (intro mult_nonneg_nonneg of_nat_0_le_iff)
  have t: "time_weighted_average cfg x y n = (x * w + y) / (w + 1)"
    by (simp add: time_weighted_average_def Let_def w_def mult.commute mult.left_commute)
  have "lo * w \<le> x * w" "x * w \<le> hi * w" using assms(2,3) w by (simp_all add: mult_right_mono)
  then have "lo * (w + 1) \<le> x * w + y" "x * w + y \<le> hi * (w + 1)" using assms(4,5) by (simp_all add: algebra_simps)
  then show ?thesis using w unfolding t by (simp add: pos_le_divide_eq pos_divide_le_eq)
qed

fun measure_all :: "u32 \<Rightarrow> string \<Rightarrow> (u32 \<times> measurement \<times> u32) list \<Rightarrow> lqa_database \<Rightarrow> lqa_database" where
  "measure_all freq station [] db = db"
| "measure_all freq station ((clock, m, ts) # ms) db =
     measure_all freq station ms (update_entry_extended clock freq station m ts db)"

lemma measure_step:
  assumes "db_inv db" "0 \<le> time_decay_factor (db_config db)" "lo \<le> m_sinad m" "m_sinad m \<le> hi"
    and "\<And>e. get_entry freq station db = Some e \<Longrightarrow> lo \<le> le_sinad e \<and> le_sinad e \<le> hi"
  shows "\<exists>e. get_entry freq station (update_entry_extended clock freq station m ts db) = Some e
    \<and> lo \<le> le_sinad e \<and> le_sinad e \<le> hi
    \<and> sample_count e = (case get_entry freq station db of None \<Rightarrow> 0 | Some e \<Rightarrow> sample_count e) + 1"
proof -
  have s: "sorted_entries (db_entries db)" "length (db_entries db) \<le> kCapacity" using assms(1) by (simp_all add: db_inv_def)
  have sa: "le_sinad (scored cfg c (stamp_activity st now e)) = le_sinad e"
    "sample_count (scored cfg c (stamp_activity st now e)) = sample_count e" for cfg c st now e
    by (simp_all add: scored_def stamp_activity_def)
  show ?thesis
  proof (cases "get_entry freq station db")
    case None
    then show ?thesis using assms(3,4) map_of_put_entry [OF evict_oldest(1) [OF s]]
      by (simp add: get_entry_def update_entry_extended_def Let_def sa)
  next
    case (Some e)
    then show ?thesis
      using time_weighted_average_between [OF assms(2), of lo "le_sinad e" hi "m_sinad m" "sample_count e"] assms(3,4)
        assms(5) [OF Some] map_of_put_entry [OF s(1)]
      by (simp add: get_entry_def update_entry_extended_def Let_def sa)
  qed
qed

text \<open>
  Averages: after any number of measurements of a station on a channel, with any clocks, the stored SINAD lies
  between the least and the greatest measured, and the entry counts the measurements (modulo the
  width of its counter).
\<close>

theorem averages_stay_in_range:
  assumes "db_inv db" "0 \<le> time_decay_factor (db_config db)" "get_entry freq station db = None" "ms \<noteq> []"
    and "\<forall>(_, m, _) \<in> set ms. lo \<le> m_sinad m \<and> m_sinad m \<le> hi"
  shows "\<exists>e. get_entry freq station (measure_all freq station ms db) = Some e
    \<and> lo \<le> le_sinad e \<and> le_sinad e \<le> hi \<and> sample_count e = of_nat (length ms)"
proof -
  have cfg: "db_config (update_entry_extended c f st m ts d) = db_config d" for c f st m ts d
    by (simp add: update_entry_extended_def Let_def split: option.splits)
  have run: "\<exists>e'. get_entry freq station (measure_all freq station ms d) = Some e'
    \<and> lo \<le> le_sinad e' \<and> le_sinad e' \<le> hi \<and> sample_count e' = sample_count e + of_nat (length ms)"
    if "db_inv d" "0 \<le> time_decay_factor (db_config d)" "get_entry freq station d = Some e"
      "lo \<le> le_sinad e" "le_sinad e \<le> hi" "\<forall>(_, m, _) \<in> set ms. lo \<le> m_sinad m \<and> m_sinad m \<le> hi" for d e ms
    using that
  proof (induction ms arbitrary: d e)
    case (Cons x ms)
    obtain c m ts where x: "x = (c, m, ts)" by (cases x)
    obtain e' where e': "get_entry freq station (update_entry_extended c freq station m ts d) = Some e'"
      "lo \<le> le_sinad e'" "le_sinad e' \<le> hi" "sample_count e' = sample_count e + 1"
      using measure_step [OF Cons.prems(1,2), of lo m hi freq station c ts] Cons.prems(3-6) x by auto
    show ?case
      using Cons.IH [OF update_inv(2) [OF Cons.prems(1)] _ e'(1-3)] Cons.prems(2,6) e'(4) by (simp add: x cfg add.assoc)
  qed simp
  obtain x ms' where ms: "ms = x # ms'" using assms(4) by (cases ms) simp_all
  obtain c m ts where x: "x = (c, m, ts)" by (cases x)
  obtain e where e: "get_entry freq station (update_entry_extended c freq station m ts db) = Some e"
    "lo \<le> le_sinad e" "le_sinad e \<le> hi" "sample_count e = 1"
    using measure_step [OF assms(1,2), of lo m hi freq station c ts] assms(3,5) by (auto simp: ms x)
  show ?thesis
    using run [OF update_inv(2) [OF assms(1)] _ e(1-3), of ms'] assms(2,5) e(4) by (simp add: ms x cfg)
qed

definition sinad_measurement :: "rat \<Rightarrow> measurement" where
  "sinad_measurement s = \<lparr> m_snr = 20, m_ber = 3, m_sinad = s, m_multipath = 0, m_noise = -100, m_fec = 0, m_words = 4 \<rparr>"

theorem averages_stay_in_range_witness:
  "\<exists>e. get_entry 7000000 ''SAM'' (measure_all 7000000 ''SAM''
       [(1, sinad_measurement 10, 1), (2, sinad_measurement 20, 2), (3, sinad_measurement 12, 3)] init_database) = Some e
     \<and> 10 \<le> le_sinad e \<and> le_sinad e \<le> 20 \<and> sample_count e = 3"
  using averages_stay_in_range [of init_database 7000000 "''SAM''"
      "[(1, sinad_measurement 10, 1), (2, sinad_measurement 20, 2), (3, sinad_measurement 12, 3)]" 10 20]
  by (simp add: sinad_measurement_def init_database_def db_inv_def sorted_entries_def get_entry_def LQAConfig_def
      del: measure_all.simps)

end
