(* ===== verification/Lqa_Codes.thy ===== *)
theory Lqa_Codes
  imports Complex_Main Prelude
begin

text \<open>
  Link quality numbers (\<open>LQA/lqa_metrics.h\<close>, \<open>src/LQA/lqa_metrics.cpp\<close>): the sums over the words of
  a frame, their codes in the command word of a handshake, and that word itself. \<open>float\<close> and \<open>double\<close> are
  rational numbers.
\<close>

section \<open>Sums over a frame\<close>

record ber_accumulator =
  running_sum :: u32
  word_count :: u32

definition ber_add_word :: "u8 \<Rightarrow> bool \<Rightarrow> ber_accumulator \<Rightarrow> ber_accumulator" where
  "ber_add_word non_unanimous uncorrectable a =
     a\<lparr>running_sum := running_sum a + (if uncorrectable then 48 else ucast non_unanimous),
       word_count := word_count a + 1\<rparr>"

definition ber_score :: "ber_accumulator \<Rightarrow> u8" where
  "ber_score a =
     (if word_count a = 0 then 0
      else let score = running_sum a div word_count a in ucast (if score > 48 then 48 else score))"

definition ber_reset :: ber_accumulator where
  "ber_reset = \<lparr> running_sum = 0, word_count = 0 \<rparr>"

record frame_quality =
  fq_ber :: ber_accumulator
  snr_sum :: rat
  sinad_sum :: rat
  pending_count :: u32
  pending_snr :: rat
  pending_sinad :: rat

definition fq_init :: frame_quality where
  "fq_init = \<lparr> fq_ber = ber_reset, snr_sum = 0, sinad_sum = 0, pending_count = 0, pending_snr = 0, pending_sinad = 0 \<rparr>"

definition vote_snr :: "u8 \<Rightarrow> rat" where
  "vote_snr votes = of_nat (unat votes) / 48 * 31"

definition fq_add_word :: "u8 \<Rightarrow> bool \<Rightarrow> rat \<Rightarrow> frame_quality \<Rightarrow> frame_quality" where
  "fq_add_word votes uncorrectable sinad a =
     (if uncorrectable
      then a\<lparr>pending_count := pending_count a + 1, pending_snr := pending_snr a + vote_snr votes,
             pending_sinad := pending_sinad a + sinad\<rparr>
      else let ber = (ber_add_word 48 True ^^ unat (pending_count a)) (fq_ber a);
               non_unanimous = (if votes \<le> 48 then 48 - votes else 0)
           in a\<lparr>fq_ber := ber_add_word non_unanimous False ber,
                snr_sum := snr_sum a + pending_snr a + vote_snr votes,
                sinad_sum := sinad_sum a + pending_sinad a + sinad,
                pending_count := 0, pending_snr := 0, pending_sinad := 0\<rparr>)"

definition snr_avg :: "frame_quality \<Rightarrow> rat" where
  "snr_avg a = (if word_count (fq_ber a) \<noteq> 0 then snr_sum a / of_nat (unat (word_count (fq_ber a))) else 0)"

definition sinad_avg :: "frame_quality \<Rightarrow> rat" where
  "sinad_avg a = (if word_count (fq_ber a) \<noteq> 0 then sinad_sum a / of_nat (unat (word_count (fq_ber a))) else 0)"

section \<open>Codes\<close>

definition kBerLqaNoValue :: u8 where "kBerLqaNoValue = 31"
definition kSinadLqaNoValue :: u8 where "kSinadLqaNoValue = 31"
definition kMpLqaNotMeasured :: u8 where "kMpLqaNotMeasured = 7"

definition round_half_up :: "rat \<Rightarrow> int" where
  "round_half_up x = \<lfloor>x + 1 / 2\<rfloor>"

definition sinad_to_lqa_code :: "rat \<Rightarrow> u8" where
  "sinad_to_lqa_code sinad =
     (if sinad \<le> 0 then 0 else if sinad \<ge> 30 then 30 else of_int (round_half_up sinad))"

definition ber_score_to_lqa_code :: "u8 \<Rightarrow> u8" where
  "ber_score_to_lqa_code score = (if score \<ge> 30 then 30 else score)"

definition multipath_delay_to_lqa_code :: "rat \<Rightarrow> u8" where
  "multipath_delay_to_lqa_code delay =
     (if delay < 0 then 0 else if delay > 6 then 6 else of_int (round_half_up delay))"

definition lqa_age_code :: "u32 \<Rightarrow> u32 \<Rightarrow> u8" where
  "lqa_age_code last_contact now =
     (if last_contact = 0 \<or> now < last_contact then 7
      else let elapsed = now - last_contact in
        if elapsed < 900000 then 0 else if elapsed < 1800000 then 1 else if elapsed < 3600000 then 2
        else if elapsed < 14400000 then 3 else if elapsed < 28800000 then 4 else if elapsed < 57600000 then 5
        else if elapsed < 90000000 then 6 else 7)"

record lqa_cmd_payload =
  cmd_ber :: u8
  cmd_sinad :: u8
  cmd_mp :: u8
  cmd_ka1 :: bool

definition init_lqa_cmd_payload :: lqa_cmd_payload where
  "init_lqa_cmd_payload = \<lparr> cmd_ber = kBerLqaNoValue, cmd_sinad = kSinadLqaNoValue, cmd_mp = kMpLqaNotMeasured, cmd_ka1 = False \<rparr>"

definition encode_lqa_cmd :: "lqa_cmd_payload \<Rightarrow> u32" where
  "encode_lqa_cmd p =
     push_bit 21 6 OR push_bit 14 97 OR push_bit 13 (if cmd_ka1 p then 1 else 0) OR
     push_bit 10 (ucast (cmd_mp p AND 0x07)) OR push_bit 5 (ucast (cmd_sinad p AND 0x1F)) OR ucast (cmd_ber p AND 0x1F)"

definition decode_lqa_cmd :: "u32 \<Rightarrow> lqa_cmd_payload" where
  "decode_lqa_cmd w = \<lparr> cmd_ber = ucast (w AND 0x1F), cmd_sinad = ucast (drop_bit 5 w AND 0x1F),
     cmd_mp = ucast (drop_bit 10 w AND 0x07), cmd_ka1 = drop_bit 13 w AND 0x01 \<noteq> 0 \<rparr>"

section \<open>The frame sums against a reference\<close>

text \<open>
  The reference: the words of the frame are those up to the last one that could be corrected; an
  uncorrectable one among them counts 48 votes.
\<close>

type_synonym word_quality = "u8 \<times> bool \<times> rat"

definition frame_words :: "word_quality list \<Rightarrow> word_quality list" where
  "frame_words ws = rev (dropWhile (\<lambda>(_, uncorrectable, _). uncorrectable) (rev ws))"

fun word_ber :: "word_quality \<Rightarrow> nat" where
  "word_ber (votes, uncorrectable, _) = (if uncorrectable then 48 else if unat votes \<le> 48 then 48 - unat votes else 0)"

definition fq_run :: "word_quality list \<Rightarrow> frame_quality" where
  "fq_run ws = fold (\<lambda>(v, u, s). fq_add_word v u s) ws fq_init"

lemma frame_words_split:
  assumes "\<forall>p \<in> set ps. fst (snd p)" "fs = [] \<or> \<not> fst (snd (last fs))"
  shows "frame_words (fs @ ps) = fs"
proof -
  have "dropWhile (\<lambda>(_, u, _). u) (rev ps @ rev fs) = dropWhile (\<lambda>(_, u, _). u) (rev fs)"
    using assms(1) by (intro dropWhile_append2) auto
  moreover have "dropWhile (\<lambda>(_, u, _). u) (rev fs) = rev fs"
    using assms(2) by (cases fs rule: rev_cases) auto
  ultimately show ?thesis by (simp add: frame_words_def)
qed

lemma ber_add_iterate:
  assumes "unat (word_count a) + k < 2 ^ 32" "unat (running_sum a) + 48 * k < 2 ^ 32"
  shows "unat (word_count ((ber_add_word 48 True ^^ k) a)) = unat (word_count a) + k
    \<and> unat (running_sum ((ber_add_word 48 True ^^ k) a)) = unat (running_sum a) + 48 * k"
  using assms
proof (induction k)
  case (Suc k)
  then show ?case by (simp add: ber_add_word_def unat_word_ariths)
qed simp

text \<open>The sums when the words so far are those of the frame and the held back ones.\<close>

definition fq_sums :: "frame_quality \<Rightarrow> word_quality list \<Rightarrow> word_quality list \<Rightarrow> bool" where
  "fq_sums a fs ps \<longleftrightarrow>
     unat (word_count (fq_ber a)) = length fs \<and> unat (running_sum (fq_ber a)) = sum_list (map word_ber fs)
     \<and> snr_sum a = sum_list (map (\<lambda>(v, _, _). vote_snr v) fs) \<and> sinad_sum a = sum_list (map (\<lambda>(_, _, s). s) fs)
     \<and> unat (pending_count a) = length ps \<and> pending_snr a = sum_list (map (\<lambda>(v, _, _). vote_snr v) ps)
     \<and> pending_sinad a = sum_list (map (\<lambda>(_, _, s). s) ps) \<and> (\<forall>p \<in> set ps. fst (snd p))
     \<and> (fs = [] \<or> \<not> fst (snd (last fs)))"

lemma word_ber_le: "word_ber w \<le> 48"
  by (cases w) auto

lemma sum_word_ber_le: "sum_list (map word_ber ws) \<le> 48 * length ws"
proof (induction ws)
  case (Cons w ws)
  then show ?case using word_ber_le [of w] by simp
qed simp

lemma pending_ber: "\<forall>p \<in> set ps. fst (snd p) \<Longrightarrow> sum_list (map word_ber ps) = 48 * length ps"
  by (induction ps) auto

lemma fq_sums_uncorrectable:
  assumes "fq_sums a fs ps" "48 * (length fs + length ps + 1) < 2 ^ 32"
  shows "fq_sums (fq_add_word v True s a) fs (ps @ [(v, True, s)])"
proof -
  have "unat (pending_count a) = length ps" using assms(1) by (simp add: fq_sums_def)
  then have "unat (pending_count a + 1) = length ps + 1" using assms(2) by (simp add: unat_word_ariths)
  then show ?thesis using assms(1) by (simp add: fq_sums_def fq_add_word_def)
qed

lemma fq_sums_correctable:
  assumes "fq_sums a fs ps" "48 * (length fs + length ps + 1) < 2 ^ 32"
  shows "fq_sums (fq_add_word v False s a) (fs @ ps @ [(v, False, s)]) []"
proof -
  have h: "unat (word_count (fq_ber a)) = length fs" "unat (running_sum (fq_ber a)) = sum_list (map word_ber fs)"
    "unat (pending_count a) = length ps" "\<forall>p \<in> set ps. fst (snd p)"
    using assms(1) unfolding fq_sums_def by simp_all
  define b where "b = (ber_add_word 48 True ^^ unat (pending_count a)) (fq_ber a)"
  have bnd: "unat (word_count (fq_ber a)) + length ps < 2 ^ 32" "unat (running_sum (fq_ber a)) + 48 * length ps < 2 ^ 32"
    using assms(2) h(1,2) sum_word_ber_le [of fs] by simp_all
  then have b: "unat (word_count b) = length (fs @ ps)" "unat (running_sum b) = sum_list (map word_ber (fs @ ps))"
    using ber_add_iterate [OF bnd] h pending_ber [OF h(4)] unfolding b_def by simp_all
  define nu where "nu = (if v \<le> 48 then 48 - v else 0)"
  have nu: "unat nu = word_ber (v, False, s)"
    by (simp add: nu_def word_le_nat_alt unat_sub)
  have w: "unat (word_count b + 1) = length (fs @ ps) + 1" using b(1) assms(2) by (simp add: unat_word_ariths)
  have nu': "unat (ucast nu :: u32) = word_ber (v, False, s)"
  proof -
    have "unat nu < 2 ^ LENGTH(8)" by (rule unsigned_less)
    then show ?thesis using nu by (simp add: unsigned_ucast_eq take_bit_nat_eq_self)
  qed
  have "unat (running_sum b) + word_ber (v, False, s) < 2 ^ 32"
    using b(2) sum_word_ber_le [of "fs @ ps"] word_ber_le [of "(v, False, s)"] assms(2) by simp
  then have r: "unat (running_sum b + ucast nu) = sum_list (map word_ber (fs @ ps)) + word_ber (v, False, s)"
    using b(2) nu' by (simp add: unat_word_ariths)
  have step: "fq_add_word v False s a = a\<lparr>fq_ber := ber_add_word nu False b,
              snr_sum := snr_sum a + pending_snr a + vote_snr v,
              sinad_sum := sinad_sum a + pending_sinad a + s,
              pending_count := 0, pending_snr := 0, pending_sinad := 0\<rparr>"
    by (simp add: fq_add_word_def b_def nu_def Let_def)
  show ?thesis
    using w r assms(1) unfolding fq_sums_def step by (simp add: ber_add_word_def)
qed

lemma fq_sums_run: "48 * length ws < 2 ^ 32 \<Longrightarrow> \<exists>ps. fq_sums (fq_run ws) (frame_words ws) ps"
proof -
  have "\<exists>fs ps. ws = fs @ ps \<and> fq_sums (fq_run ws) fs ps" if "48 * length ws < 2 ^ 32" for ws
    using that
  proof (induction ws rule: rev_induct)
    case Nil
    show ?case by (simp add: fq_sums_def fq_run_def fq_init_def ber_reset_def)
  next
    case (snoc w ws)
    obtain v u s where w: "w = (v, u, s)" by (cases w)
    obtain fs ps where h: "ws = fs @ ps" "fq_sums (fq_run ws) fs ps" using snoc by auto
    have b: "48 * (length fs + length ps + 1) < 2 ^ 32" using snoc.prems h(1) by simp
    have run: "fq_run (ws @ [w]) = fq_add_word v u s (fq_run ws)" by (simp add: fq_run_def w)
    show ?case
    proof (cases u)
      case True
      have "ws @ [w] = fs @ (ps @ [w])" by (simp add: h(1))
      moreover have "fq_sums (fq_run (ws @ [w])) fs (ps @ [w])"
        using fq_sums_uncorrectable [OF h(2) b] run w True by simp
      ultimately show ?thesis by blast
    next
      case False
      have "ws @ [w] = (fs @ ps @ [w]) @ []" by (simp add: h(1))
      moreover have "fq_sums (fq_run (ws @ [w])) (fs @ ps @ [w]) []"
        using fq_sums_correctable [OF h(2) b] run w False by simp
      ultimately show ?thesis by blast
    qed
  qed
  moreover assume "48 * length ws < 2 ^ 32"
  ultimately obtain fs ps where "ws = fs @ ps" "fq_sums (fq_run ws) fs ps" by blast
  moreover from this have "frame_words ws = fs" by (auto simp: fq_sums_def frame_words_split)
  ultimately show ?thesis by auto
qed

text \<open>
  The quality of a frame: for every sequence of received words (up to 89 million) the sums kept word by
  word, with uncorrectable words held back, give the averages over exactly the words of the frame: trailing
  uncorrectable words are left out, those before a correctable word count with 48 votes, and
  the score is never above 48.
\<close>

theorem frame_quality_reference:
  assumes "48 * length ws < 2 ^ 32"
  defines "fs \<equiv> frame_words ws"
  shows "unat (ber_score (fq_ber (fq_run ws))) = sum_list (map word_ber fs) div length fs
    \<and> sinad_avg (fq_run ws) = sum_list (map (\<lambda>(_, _, s). s) fs) / of_nat (length fs)
    \<and> snr_avg (fq_run ws) = sum_list (map (\<lambda>(v, _, _). vote_snr v) fs) / of_nat (length fs)"
proof -
  let ?a = "fq_run ws"
  have h: "unat (word_count (fq_ber ?a)) = length fs" "unat (running_sum (fq_ber ?a)) = sum_list (map word_ber fs)"
    "snr_sum ?a = sum_list (map (\<lambda>(v, _, _). vote_snr v) fs)" "sinad_sum ?a = sum_list (map (\<lambda>(_, _, s). s) fs)"
    using fq_sums_run [OF assms(1)] unfolding fq_sums_def fs_def [symmetric] by auto
  have zero: "word_count (fq_ber ?a) = 0 \<longleftrightarrow> length fs = 0" using h(1) by (metis unat_eq_zero)
  have "unat (ber_score (fq_ber ?a)) = sum_list (map word_ber fs) div length fs"
  proof (cases "length fs = 0")
    case True
    then show ?thesis using zero by (simp add: ber_score_def)
  next
    case False
    have q: "unat (running_sum (fq_ber ?a) div word_count (fq_ber ?a)) = sum_list (map word_ber fs) div length fs"
      by (simp add: unat_div h(1,2))
    have "sum_list (map word_ber fs) div length fs \<le> 48"
      using sum_word_ber_le [of fs] False by (metis div_le_mono nonzero_mult_div_cancel_right)
    moreover from this have "\<not> running_sum (fq_ber ?a) div word_count (fq_ber ?a) > 48"
      using q by (simp add: word_less_nat_alt)
    ultimately show ?thesis using False zero q
      by (simp add: ber_score_def Let_def unsigned_ucast_eq take_bit_nat_eq_self)
  qed
  then show ?thesis using h zero by (simp add: sinad_avg_def snr_avg_def)
qed

theorem frame_quality_reference_witness:
  "unat (ber_score (fq_ber (fq_run [(48, False, 6), (40, True, 2), (44, False, 4), (30, True, 1)]))) = 17"
proof -
  have f: "frame_words [(48, False, 6), (40, True, 2), (44, False, 4), (30, True, 1)]
    = [(48, False, 6), (40, True, 2), (44, False, 4 :: rat)]" by (simp add: frame_words_def)
  show ?thesis
    using frame_quality_reference [of "[(48, False, 6), (40, True, 2), (44, False, 4), (30, True, 1)]"]
    unfolding f by simp
qed

section \<open>The command word\<close>

text \<open>Every field of the command word comes back, cut to its width.\<close>

theorem lqa_cmd_roundtrip:
  "decode_lqa_cmd (encode_lqa_cmd p) =
     \<lparr> cmd_ber = cmd_ber p AND mask 5, cmd_sinad = cmd_sinad p AND mask 5, cmd_mp = cmd_mp p AND mask 3, cmd_ka1 = cmd_ka1 p \<rparr>
   \<and> drop_bit 14 (encode_lqa_cmd p) = push_bit 7 6 OR of_char (CHR ''a'')"
proof -
  have m: "(0x1F :: 'a::len word) = mask 5" "(0x07 :: 'a::len word) = mask 3" "(0x01 :: 'a::len word) = mask 1"
    by (simp_all add: mask_eq_decr_exp)
  define ka :: u32 where "ka = (if cmd_ka1 p then 1 else 0)"
  define pre :: u32 where "pre = push_bit 7 6 OR 97"
  have ka: "bit ka n \<longleftrightarrow> cmd_ka1 p \<and> n = 0" for n by (simp add: ka_def bit_1_iff)
  have e: "encode_lqa_cmd p = push_bit 14 pre OR push_bit 13 ka OR push_bit 10 (ucast (cmd_mp p AND mask 3))
      OR push_bit 5 (ucast (cmd_sinad p AND mask 5)) OR ucast (cmd_ber p AND mask 5)"
  proof -
    have "push_bit 21 6 OR push_bit 14 97 = push_bit 14 pre" by (simp add: pre_def)
    then show ?thesis unfolding encode_lqa_cmd_def ka_def [symmetric] unfolding m(1,2) by (simp only: or.assoc [symmetric])
  qed
  note bits = bit_and_iff bit_or_iff bit_mask_iff bit_drop_bit_eq bit_push_bit_iff bit_ucast_iff possible_bit_def ka bit_1_iff
  have b: "ucast (encode_lqa_cmd p AND mask 5) = cmd_ber p AND mask 5"
    unfolding e by (rule bit_word_eqI) (auto simp: bits)
  have s: "ucast (drop_bit 5 (encode_lqa_cmd p) AND mask 5) = cmd_sinad p AND mask 5"
    unfolding e by (rule bit_word_eqI) (auto simp: bits dest: bit_imp_le_length)
  have mp: "ucast (drop_bit 10 (encode_lqa_cmd p) AND mask 3) = cmd_mp p AND mask 3"
    unfolding e by (rule bit_word_eqI) (auto simp: bits dest: bit_imp_le_length)
  have k: "drop_bit 13 (encode_lqa_cmd p) AND mask 1 \<noteq> 0 \<longleftrightarrow> cmd_ka1 p"
  proof -
    have "drop_bit 13 (encode_lqa_cmd p) AND mask 1 = ka"
      unfolding e by (rule bit_word_eqI) (auto simp: bits dest: bit_imp_le_length)
    then show ?thesis by (simp add: ka_def)
  qed
  have "drop_bit 14 (encode_lqa_cmd p) = pre AND mask 18"
    unfolding e by (rule bit_word_eqI) (auto simp: bits dest: bit_imp_le_length)
  moreover have "pre AND mask 18 = push_bit 7 6 OR of_char (CHR ''a'')" by (simp add: pre_def mask_eq_decr_exp)
  ultimately show ?thesis unfolding decode_lqa_cmd_def m using b s mp k by simp
qed

end
