(* ===== verification/Lqa_Exchange.thy ===== *)
theory Lqa_Exchange
  imports Lqa_Database Lqa_Codes Decimal Ale_Sequence
begin

text \<open>
  The exchange of link quality between two stations (\<open>src/LQA/lqa_exchange.cpp\<close>): the command word with the
  quality of the channel, the report about all channels that it can request, and what the receiver
  of either stores. The callbacks of the constructor are outputs, except the test for an own address,
  which is an argument \<open>is_self\<close>; the database's clock is an argument \<open>clock\<close>.
\<close>

section \<open>The manager\<close>

datatype exchange_output = Queue_Cmd_A u32 | Queue_Report "ale_word list" | Exchange_Status string

record lqa_exchange =
  x_db :: lqa_database
  x_pending :: lqa_cmd_payload
  pending_valid :: bool
  pending_freq :: u32
  sent_ka1 :: bool
  last_call_target :: string
  last_call_freq :: u32
  x_decoder :: report_decoder
  x_outs :: "exchange_output list"

definition LqaExchangeManager :: "lqa_database \<Rightarrow> lqa_exchange" where
  "LqaExchangeManager db = \<lparr> x_db = db, x_pending = init_lqa_cmd_payload, pending_valid = False, pending_freq = 0,
     sent_ka1 = False, last_call_target = [], last_call_freq = 0,
     x_decoder = \<lparr> active = False, expected_count = 0, bits_needed = 0, bits_collected = 0, payloads = [], reports = [] \<rparr>,
     x_outs = [] \<rparr>"

definition exchange_emit :: "exchange_output \<Rightarrow> lqa_exchange \<Rightarrow> lqa_exchange" where
  "exchange_emit out x = x\<lparr>x_outs := x_outs x @ [out]\<rparr>"

definition exchange_reset :: "lqa_exchange \<Rightarrow> lqa_exchange" where
  "exchange_reset x = x\<lparr>pending_valid := False, x_decoder := decoder_reset (x_decoder x)\<rparr>"

definition on_handshake_start :: "lqa_exchange \<Rightarrow> lqa_exchange" where
  "on_handshake_start x = exchange_reset x"

definition trunc_u8 :: "rat \<Rightarrow> u8" where
  "trunc_u8 x = of_int \<lfloor>x\<rfloor>"

definition vote_code :: "lqa_entry \<Rightarrow> u8" where
  "vote_code e = ber_score_to_lqa_code (trunc_u8 (min 48 (max 0 (le_ber e))))"

definition build_payload :: "u32 \<Rightarrow> string \<Rightarrow> lqa_exchange \<Rightarrow> lqa_cmd_payload" where
  "build_payload freq target x =
     (let e = (if target \<noteq> [] then get_entry freq target (x_db x) else None);
          e = (case e of Some e' \<Rightarrow> if le_total_words e' = 0 then get_entry freq [] (x_db x) else e
               | None \<Rightarrow> get_entry freq [] (x_db x))
      in case e of None \<Rightarrow> init_lqa_cmd_payload
         | Some e \<Rightarrow>
             (let p = init_lqa_cmd_payload;
                  p = (if le_sinad e > 0 then p\<lparr>cmd_sinad := if le_sinad e \<ge> 30 then 30 else trunc_u8 (le_sinad e + 1 / 2)\<rparr> else p);
                  p = (if le_total_words e > 0 then p\<lparr>cmd_ber := vote_code e\<rparr> else p)
              in if le_multipath e > 0 then p\<lparr>cmd_mp := multipath_delay_to_lqa_code (le_multipath e * 6)\<rparr> else p))"

definition build_cmd_a_word :: "u32 \<Rightarrow> string \<Rightarrow> bool \<Rightarrow> lqa_exchange \<Rightarrow> u32" where
  "build_cmd_a_word freq target request_report x =
     encode_lqa_cmd ((build_payload freq target x)\<lparr>cmd_ka1 := request_report\<rparr>)"

definition encode_outgoing :: "u32 \<Rightarrow> string \<Rightarrow> bool \<Rightarrow> lqa_exchange \<Rightarrow> lqa_exchange" where
  "encode_outgoing freq target request_report x =
     (let x = x\<lparr>sent_ka1 := False, last_call_target := [], last_call_freq := 0\<rparr>;
          p = (build_payload freq target x)\<lparr>cmd_ka1 := request_report\<rparr>;
          x = exchange_emit (Queue_Cmd_A (encode_lqa_cmd p)) x
      in if request_report then x\<lparr>sent_ka1 := True, last_call_target := target, last_call_freq := freq\<rparr> else x)"

definition on_word_lqa_cmd :: "u32 \<Rightarrow> u32 \<Rightarrow> lqa_exchange \<Rightarrow> lqa_exchange" where
  "on_word_lqa_cmd raw freq x = x\<lparr>x_pending := decode_lqa_cmd raw, pending_valid := True, pending_freq := freq\<rparr>"

definition on_report_cmd :: "u32 \<Rightarrow> lqa_exchange \<Rightarrow> lqa_exchange" where
  "on_report_cmd raw x = x\<lparr>x_decoder := decoder_start raw (x_decoder x)\<rparr>"

definition store_reports :: "u32 \<Rightarrow> string \<Rightarrow> lqa_report list \<Rightarrow> lqa_database \<Rightarrow> lqa_database" where
  "store_reports clock sender rs db =
     foldl (\<lambda>db r. update_bilateral clock (frequency_hz r) sender (sinad r) (ber r) (mp r) 0 db) db rs"

definition on_report_data :: "(string \<Rightarrow> bool) \<Rightarrow> u32 \<Rightarrow> u32 \<Rightarrow> string \<Rightarrow> lqa_exchange \<Rightarrow> bool \<times> lqa_exchange" where
  "on_report_data is_self clock raw sender x =
     (if \<not> active (x_decoder x) then (False, x)
      else let (complete, d) = decoder_feed raw (x_decoder x); x = x\<lparr>x_decoder := d\<rparr>
        in if \<not> complete then (False, x)
           else let x = (if sender \<noteq> [] \<and> \<not> is_self sender
                         then exchange_emit (Exchange_Status (''LQA Report RX from '' @ sender @ '': '' @
                                show_nat (length (reports d)) @ '' channels''))
                              (x\<lparr>x_db := store_reports clock sender (reports d) (x_db x)\<rparr>)
                         else x)
             in (True, x\<lparr>x_decoder := decoder_reset (x_decoder x)\<rparr>))"

definition report_of :: "u32 \<Rightarrow> lqa_entry \<Rightarrow> lqa_report" where
  "report_of now e =
     \<lparr> frequency_hz = le_frequency e, age = lqa_age_code (last_contact_ms e) now,
       mp = multipath_delay_to_lqa_code (le_multipath e * 6),
       sinad = (if le_sinad e > 0 then trunc_u8 (min 30 (le_sinad e)) else kSinadLqaNoValue),
       ber = (if le_total_words e > 0 then vote_code e else kBerLqaNoValue) \<rparr>"

definition apply_pending :: "(string \<Rightarrow> bool) \<Rightarrow> u32 \<Rightarrow> string \<Rightarrow> bool \<Rightarrow> lqa_exchange \<Rightarrow> bool \<times> lqa_exchange" where
  "apply_pending is_self clock peer can_queue_c5 x =
     (if \<not> pending_valid x then (False, x)
      else let p = x_pending x;
               x = (if peer \<noteq> [] \<and> \<not> is_self peer
                    then let x = x\<lparr>x_db := update_bilateral clock (pending_freq x) peer (cmd_sinad p) (cmd_ber p) (cmd_mp p) 0 (x_db x)\<rparr>;
                             x = exchange_emit (Exchange_Status (''LQA bilateral RX: '' @ peer @ '' SINAD='' @ show_nat (unat (cmd_sinad p)))) x
                      in if can_queue_c5 \<and> cmd_ka1 p
                         then let entries = get_entries_for_station clock peer 90000000 (x_db x)
                           in if entries \<noteq> []
                              then let rs = map (report_of clock) entries;
                                       x = exchange_emit (Queue_Report (lqa_report_sequence rs)) x
                                in exchange_emit (Exchange_Status (''LQA Report queued for '' @ peer @ '' ('' @
                                     show_nat (length rs) @ '' channels)'')) x
                              else x
                         else x
                    else x)
        in (True, x\<lparr>pending_valid := False\<rparr>))"

definition on_call_concluded :: "u32 \<Rightarrow> lqa_exchange \<Rightarrow> lqa_exchange" where
  "on_call_concluded clock x =
     (let x = (if sent_ka1 x \<and> last_call_target x \<noteq> [] \<and> last_call_freq x > 0
               then x\<lparr>x_db := mark_bilateral_attempted clock (last_call_freq x) (last_call_target x) (x_db x)\<rparr> else x)
      in x\<lparr>sent_ka1 := False, last_call_target := [], last_call_freq := 0\<rparr>)"

section \<open>Codes fit their fields\<close>

lemma trunc_u8_bound:
  assumes "0 \<le> x" "x < of_nat k + 1" "k < 256"
  shows "unat (trunc_u8 x) \<le> k"
proof -
  have "0 \<le> \<lfloor>x\<rfloor>" using assms(1) by simp
  then obtain n where n: "\<lfloor>x\<rfloor> = int n" by (rule nonneg_int_cases)
  have "x < of_int (int k + 1)" using assms(2) by simp
  then have "\<lfloor>x\<rfloor> < int k + 1" by (simp only: floor_less_iff)
  then show ?thesis using n assms(3) by (simp add: trunc_u8_def unat_of_nat take_bit_nat_eq_self)
qed

lemma vote_code_le: "unat (vote_code e) \<le> 30"
  by (simp add: vote_code_def ber_score_to_lqa_code_def word_le_nat_alt)

lemma multipath_code_le: "unat (multipath_delay_to_lqa_code d) \<le> 6"
  using trunc_u8_bound [of "d + 1 / 2" 6]
  by (auto simp: multipath_delay_to_lqa_code_def round_half_up_def trunc_u8_def)

lemma sinad_code_less: "0 < s \<Longrightarrow> unat (trunc_u8 (min 30 s)) < 32"
  by (rule le_less_trans [OF trunc_u8_bound [where k = 30]]) (simp_all add: min_less_iff_disj)

lemma report_of_encodable:
  assumes "unat (le_frequency e) mod 100 = 0" "unat (le_frequency e) div 100 < 2 ^ 20"
  shows "encodable (report_of now e)"
proof -
  have "unat (lqa_age_code c now) < 8" for c by (simp add: lqa_age_code_def Let_def)
  moreover have "unat (multipath_delay_to_lqa_code (le_multipath e * 6)) < 8"
    using multipath_code_le [of "le_multipath e * 6"] by simp
  moreover have "unat (if le_sinad e > 0 then trunc_u8 (min 30 (le_sinad e)) else kSinadLqaNoValue) < 32"
    using sinad_code_less [of "le_sinad e"] by (simp add: kSinadLqaNoValue_def)
  moreover have "unat (if le_total_words e > 0 then vote_code e else kBerLqaNoValue) < 32"
    using vote_code_le [of e] by (auto simp: kBerLqaNoValue_def)
  ultimately show ?thesis using assms by (simp add: encodable_def report_of_def)
qed

lemma report_of_fields:
  "frequency_hz (report_of now e) = le_frequency e"
  by (simp add: report_of_def)

section \<open>The database on the receiving side\<close>

lemma bilateral_stored:
  assumes "sorted_entries (db_entries db)" "length (db_entries db) < kCapacity"
  shows "\<exists>e. db_entries (update_bilateral clock f st s b m t db) = put_entry (EntryKey f st) e (db_entries db)
    \<and> bilateral_sinad e = s \<and> bilateral_ber e = b \<and> bilateral_mp e = m"
  using assms by (auto simp: update_bilateral_def with_entry_def Let_def scored_def evict_oldest_if_full_def
      split: option.splits)

lemma reports_stored:
  assumes "sorted_entries (db_entries db)" "length (db_entries db) + length rs \<le> kCapacity"
    and "distinct (map frequency_hz rs)"
  shows "sorted_entries (db_entries (store_reports clock st rs db))
    \<and> (\<forall>k. k \<notin> (\<lambda>r. EntryKey (frequency_hz r) st) ` set rs \<longrightarrow>
        map_of (db_entries (store_reports clock st rs db)) k = map_of (db_entries db) k)
    \<and> (\<forall>r \<in> set rs. \<exists>e. get_entry (frequency_hz r) st (store_reports clock st rs db) = Some e
        \<and> bilateral_sinad e = sinad r \<and> bilateral_ber e = ber r \<and> bilateral_mp e = mp r)"
  using assms
proof (induction rs arbitrary: db)
  case Nil
  then show ?case by (simp add: store_reports_def)
next
  case (Cons r rs)
  let ?db = "update_bilateral clock (frequency_hz r) st (sinad r) (ber r) (mp r) 0 db"
  obtain e where e: "db_entries ?db = put_entry (EntryKey (frequency_hz r) st) e (db_entries db)"
    "bilateral_sinad e = sinad r" "bilateral_ber e = ber r" "bilateral_mp e = mp r"
    using bilateral_stored [of db] Cons.prems(1,2) by force
  have s: "sorted_entries (db_entries ?db)" unfolding e(1) by (rule sorted_put_entry [OF Cons.prems(1)])
  have l: "length (db_entries ?db) + length rs \<le> kCapacity"
    using Cons.prems(2) length_put_entry [OF Cons.prems(1)] unfolding e(1) by (simp split: if_splits)
  have m: "map_of (db_entries ?db) = (map_of (db_entries db))(EntryKey (frequency_hz r) st \<mapsto> e)"
    unfolding e(1) by (rule map_of_put_entry [OF Cons.prems(1)])
  have st: "store_reports clock st (r # rs) db = store_reports clock st rs ?db" by (simp add: store_reports_def)
  note IH = Cons.IH [OF s l]
  have d: "distinct (map frequency_hz rs)" "frequency_hz r \<notin> frequency_hz ` set rs" using Cons.prems(3) by simp_all
  then have "EntryKey (frequency_hz r) st \<notin> (\<lambda>r. EntryKey (frequency_hz r) st) ` set rs" by auto
  then have "get_entry (frequency_hz r) st (store_reports clock st rs ?db) = Some e"
    using IH [OF d(1)] m by (simp add: get_entry_def)
  then show ?case using IH [OF d(1)] e(2-4) m unfolding st by simp
qed

section \<open>A report from one station to the other\<close>

text \<open>The words of a report as the controller hands them over: the command word, then its data words.\<close>

fun hear_report :: "(string \<Rightarrow> bool) \<Rightarrow> u32 \<Rightarrow> string \<Rightarrow> ale_word list \<Rightarrow> lqa_exchange \<Rightarrow> lqa_exchange" where
  "hear_report is_self clock sender [] x = x"
| "hear_report is_self clock sender (w # ws) x =
     foldl (\<lambda>x w. snd (on_report_data is_self clock (raw_payload w) sender x)) (on_report_cmd (raw_payload w) x) ws"

lemma report_data_collected:
  assumes "feed_all ps (x_decoder x) = (True, length ps, d')" "active (x_decoder x)" "sender \<noteq> []" "\<not> is_self sender"
  shows "x_db (foldl (\<lambda>x p. snd (on_report_data is_self clock p sender x)) x ps) = store_reports clock sender (reports d') (x_db x)"
  using assms(1,2)
proof (induction ps arbitrary: x)
  case (Cons p ps)
  obtain c d where f: "decoder_feed p (x_decoder x) = (c, d)" by (cases "decoder_feed p (x_decoder x)")
  show ?case
  proof (cases c)
    case True
    then have "ps = []" "d' = d" using Cons.prems(1) f by simp_all
    then show ?thesis using True f Cons.prems(2) assms(3,4) by (simp add: on_report_data_def exchange_emit_def)
  next
    case False
    then have "feed_all ps d = (True, length ps, d')" using Cons.prems(1) f by (simp split: prod.splits)
    moreover have "active d" using False f Cons.prems(2) by (auto simp: decoder_feed_def Let_def split: if_splits)
    ultimately show ?thesis
      using Cons.IH [of "x\<lparr>x_decoder := d\<rparr>"] False f Cons.prems(2) by (simp add: on_report_data_def)
  qed
qed simp

lemma inactive_never_completes: "\<not> active d \<Longrightarrow> \<not> fst (feed_all ps d)"
  by (induction ps) (auto simp: decoder_feed_def split: prod.splits)

lemma station_frequencies_distinct:
  assumes "db_inv db"
  shows "distinct (map le_frequency (get_entries_for_station clock st limit db))"
proof -
  have "\<forall>(k, e) \<in> set es. entry_ok k e \<Longrightarrow> sorted_entries es \<Longrightarrow>
      distinct (map le_frequency (map snd (filter (\<lambda>(k, e). key_station k = st \<and> P e) es)))" for es and P :: "lqa_entry \<Rightarrow> bool"
  proof (induction es)
    case (Cons x es)
    obtain k e where x: "x = (k, e)" by (cases x)
    have "le_frequency e \<noteq> le_frequency e'" if "(k', e') \<in> set es" "key_station k' = st" "key_station k = st" for k' e'
    proof
      assume "le_frequency e = le_frequency e'"
      moreover have "entry_ok k e" "entry_ok k' e'" using Cons.prems(1) that(1) x by auto
      ultimately have "k' = k" using that(2,3) by (cases k; cases k') (simp add: entry_ok_def)
      then show False using Cons.prems(2) that(1) x order.irrefl [of k] by (force simp: sorted_entries_def)
    qed
    moreover have "\<forall>(k, e) \<in> set es. entry_ok k e" "sorted_entries es"
      using Cons.prems by (simp_all add: sorted_entries_def)
    ultimately show ?case using Cons.IH x by force
  qed simp
  from this [of "db_entries db" "\<lambda>e. \<not> (limit > 0 \<and> clock - last_activity_ms e > limit)"] assms show ?thesis
    by (simp add: get_entries_for_station_def db_inv_def)
qed

text \<open>
  C12. A requested report arrives: a station that hears a command word with the request from a peer queues a
  report about the channels on which it heard that peer; the peer, handed the words of the report,
  stores for each of these channels the codes of what the station measured, and nothing about
  any other channel or station changes. The channels lie on multiples of 100 Hz below 104857600 Hz, at most 255 of them,
  and the peer's database has room for them.
\<close>

theorem report_reaches_peer:
  assumes "pending_valid b" "cmd_ka1 (x_pending b)" "peer \<noteq> []" "\<not> self_b peer" "db_inv (x_db b)"
    and "apply_pending self_b clock peer True b = (r, b')"
    and "es = get_entries_for_station clock peer 90000000 (x_db b')" "es \<noteq> []" "length es \<le> 255"
    and "\<forall>e \<in> set es. unat (le_frequency e) mod 100 = 0 \<and> unat (le_frequency e) < 104857600"
    and "db_inv (x_db a)" "length (db_entries (x_db a)) + length es \<le> kCapacity" "me \<noteq> []" "\<not> self_a me"
  shows "\<exists>ws s1 s2. x_outs b' = x_outs b @ [s1, Queue_Report ws, s2] \<and>
    (let a' = hear_report self_a clock_a me ws a in
      (\<forall>e \<in> set es. \<exists>e'. get_entry (le_frequency e) me (x_db a') = Some e' \<and> bilateral_sinad e' = sinad (report_of clock e)
         \<and> bilateral_ber e' = ber (report_of clock e) \<and> bilateral_mp e' = mp (report_of clock e)) \<and>
      (\<forall>f st. st \<noteq> me \<or> f \<notin> le_frequency ` set es \<longrightarrow> get_entry f st (x_db a') = get_entry f st (x_db a)))"
proof -
  let ?rs = "map (report_of clock) es"
  let ?db = "update_bilateral clock (pending_freq b) peer (cmd_sinad (x_pending b)) (cmd_ber (x_pending b)) (cmd_mp (x_pending b)) 0 (x_db b)"
  have b': "x_db b' = ?db" "\<exists>s1 s2. x_outs b' = x_outs b @ [s1, Queue_Report (lqa_report_sequence ?rs), s2]"
    using assms(1-4,6,7,8) by (auto simp: apply_pending_def exchange_emit_def Let_def split: if_splits)
  have enc: "list_all encodable ?rs"
    using assms(10) by (auto simp: list_all_iff intro!: report_of_encodable)
  have "db_inv ?db" using db_inv_step [OF assms(5), of "Bilateral clock (pending_freq b) peer
      (cmd_sinad (x_pending b)) (cmd_ber (x_pending b)) (cmd_mp (x_pending b)) 0"] by simp
  then have d: "distinct (map frequency_hz ?rs)"
    using station_frequencies_distinct [of ?db clock peer 90000000] assms(7) b'(1) by (simp add: comp_def report_of_fields)
  let ?x = "on_report_cmd (encode_report_cmd (of_nat (length ?rs))) a"
  obtain d' where f: "feed_all (pack_reports ?rs) (x_decoder ?x) = (True, length (pack_reports ?rs), d')" "reports d' = ?rs"
    using report_exchange [OF enc, of "x_decoder a"] assms(8,9) by (auto simp: on_report_cmd_def)
  have act: "active (x_decoder ?x)" using inactive_never_completes [of "x_decoder ?x" "pack_reports ?rs"] f(1) by auto
  have "x_db (hear_report self_a clock_a me (lqa_report_sequence ?rs) a) = store_reports clock_a me ?rs (x_db a)"
    using report_data_collected [where is_self = self_a and clock = clock_a, OF f(1) act assms(13,14)] assms(8) f(2)
    by (simp add: lqa_report_sequence_def foldl_map cmd_word_def on_report_cmd_def)
  moreover have s: "sorted_entries (db_entries (x_db a))" "length (db_entries (x_db a)) + length ?rs \<le> kCapacity"
    using assms(11,12) by (simp_all add: db_inv_def)
  have "get_entry f st (store_reports clock_a me ?rs (x_db a)) = get_entry f st (x_db a)"
    if "st \<noteq> me \<or> f \<notin> le_frequency ` set es" for f st
  proof -
    have "EntryKey f st \<notin> (\<lambda>r. EntryKey (frequency_hz r) me) ` set ?rs" using that by (auto simp: report_of_fields)
    then show ?thesis using reports_stored [OF s d, of clock_a me] by (simp add: get_entry_def)
  qed
  moreover have "\<forall>e \<in> set es. \<exists>e'. get_entry (le_frequency e) me (store_reports clock_a me ?rs (x_db a)) = Some e'
      \<and> bilateral_sinad e' = sinad (report_of clock e) \<and> bilateral_ber e' = ber (report_of clock e)
      \<and> bilateral_mp e' = mp (report_of clock e)"
    using reports_stored [OF s d, of clock_a me] by (simp add: report_of_fields)
  ultimately show ?thesis using b'(2) by (auto simp: Let_def)
qed

definition heard_sam :: lqa_database where
  "heard_sam = update_entry_extended 900 7000000 ''SAM'' (sinad_measurement 20) 900 init_database"

definition asked_by_sam :: lqa_exchange where
  "asked_by_sam = on_word_lqa_cmd (encode_lqa_cmd \<lparr> cmd_ber = 2, cmd_sinad = 17, cmd_mp = 7, cmd_ka1 = True \<rparr>) 7000000
     (LqaExchangeManager heard_sam)"

definition sam_heard :: lqa_entry where
  "sam_heard = scored LQAConfig 900 ((entry_for 7000000 ''SAM'')\<lparr>le_snr := 20, le_ber := 3,
     le_sinad := 20, le_multipath := 0, le_noise_floor := -100, le_fec_errors := 0, le_total_words := 4, sample_count := 1,
     last_contact_ms := 900\<rparr>)"

definition sam_entry :: lqa_entry where
  "sam_entry = scored LQAConfig 1000 (sam_heard\<lparr>bilateral_sinad := 17, bilateral_ber := 2, bilateral_mp := 7,
     bilateral_tried := True, last_contact_ms := 1000\<rparr>)"

lemma heard_sam: "heard_sam = \<lparr> db_config = LQAConfig, db_entries = [(EntryKey 7000000 ''SAM'', sam_heard)] \<rparr>"
  by (simp add: heard_sam_def update_entry_extended_def Let_def init_database_def evict_oldest_if_full_def kCapacity_def
      stamp_def stamp_activity_def sinad_measurement_def sam_heard_def)

lemma asked_by_sam: "pending_valid asked_by_sam" "x_db asked_by_sam = heard_sam" "pending_freq asked_by_sam = 7000000"
  "x_pending asked_by_sam = \<lparr> cmd_ber = 2, cmd_sinad = 17, cmd_mp = 7, cmd_ka1 = True \<rparr>"
  using lqa_cmd_roundtrip [of "\<lparr> cmd_ber = 2, cmd_sinad = 17, cmd_mp = 7, cmd_ka1 = True \<rparr>"]
  by (simp_all add: asked_by_sam_def on_word_lqa_cmd_def LqaExchangeManager_def mask_eq_decr_exp)

lemma heard_sam_again: "update_bilateral 1000 7000000 ''SAM'' 17 2 7 0 heard_sam =
    \<lparr> db_config = LQAConfig, db_entries = [(EntryKey 7000000 ''SAM'', sam_entry)] \<rparr>"
  by (simp add: heard_sam update_bilateral_def with_entry_def Let_def stamp_def sam_entry_def)

lemma sam_fields: "le_sinad sam_entry = 20" "le_total_words sam_entry = 4" "le_ber sam_entry = 3"
  "last_activity_ms sam_entry = 1000" "le_frequency sam_entry = 7000000"
  by (simp_all add: sam_entry_def sam_heard_def scored_def entry_for_def LQAEntry_def last_activity_ms_def)

lemma heard_sam_inv: "db_inv heard_sam"
  using update_inv(2) [of init_database] unfolding heard_sam_def
  by (simp add: db_inv_def init_database_def sorted_entries_def)

theorem report_reaches_peer_witness:
  "\<exists>b' ws s1 s2 e. apply_pending (\<lambda>a. a = ''JOE'') 1000 ''SAM'' True asked_by_sam = (True, b')
    \<and> x_outs b' = x_outs asked_by_sam @ [s1, Queue_Report ws, s2]
    \<and> get_entry 7000000 ''JOE'' (x_db (hear_report (\<lambda>a. a = ''SAM'') 2000 ''JOE'' ws (LqaExchangeManager init_database))) = Some e
    \<and> bilateral_sinad e = 20 \<and> bilateral_ber e = 3"
proof -
  obtain r b' where b': "apply_pending (\<lambda>a. a = ''JOE'') 1000 ''SAM'' True asked_by_sam = (r, b')" by fastforce
  then have db: "x_db b' = update_bilateral 1000 7000000 ''SAM'' 17 2 7 0 heard_sam" and r: r
    by (auto simp: apply_pending_def exchange_emit_def Let_def asked_by_sam split: if_splits)
  have es: "[sam_entry] = get_entries_for_station 1000 ''SAM'' 90000000 (x_db b')"
    by (simp add: db heard_sam_again get_entries_for_station_def sam_fields)
  have codes: "sinad (report_of 1000 sam_entry) = 20" "ber (report_of 1000 sam_entry) = 3"
    by (simp_all add: report_of_def sam_fields trunc_u8_def vote_code_def ber_score_to_lqa_code_def)
  show ?thesis
    using report_reaches_peer [OF asked_by_sam(1) _ _ _ _ b' es, of "LqaExchangeManager init_database" "''JOE''" "\<lambda>a. a = ''SAM''" 2000]
      asked_by_sam heard_sam_inv r b' codes
    by (auto simp: sam_fields LqaExchangeManager_def db_inv_def init_database_def sorted_entries_def kCapacity_def Let_def)
qed

end
