(* ===== verification/Lqa_Analyzer.thy ===== *)
theory Lqa_Analyzer
  imports Lqa_Database Channel_Manager "HOL-Library.Product_Lexorder" "HOL-Library.Multiset"
begin

text \<open>
  Choice of channels from the link quality database (\<open>src/LQA/lqa_analyzer.cpp\<close>). \<open>float\<close> is a rational number;
  the analyzer has a database, given as an argument \<open>db\<close>, and the clock is an argument \<open>clock\<close>. The solar elevation at the
  operator's position, computed by trigonometry in \<open>src/LQA/solar_position.cpp\<close>, is a component of the
  propagation context.
\<close>

section \<open>Configuration and ranks\<close>

datatype selection_mode = LINK_ESTABLISHMENT | BROADCAST | LISTENING

record channel_rank =
  rk_frequency :: u32
  rk_score :: rat
  rk_station :: string
  rk_last_update :: u32
  rk_from :: rat
  rk_to :: rat

definition ChannelRank :: "u32 \<Rightarrow> rat \<Rightarrow> string \<Rightarrow> u32 \<Rightarrow> channel_rank" where
  "ChannelRank freq sc st ts = \<lparr> rk_frequency = freq, rk_score = sc, rk_station = st, rk_last_update = ts, rk_from = -1, rk_to = -1 \<rparr>"

record analyzer_config =
  min_acceptable_score :: rat
  sounding_interval_ms :: u32
  enable_automatic_sounding :: bool
  fail_penalty_window_ms :: u32
  fail_score_factor :: rat

definition AnalyzerConfig :: analyzer_config where
  "AnalyzerConfig = \<lparr> min_acceptable_score = 10, sounding_interval_ms = 300000, enable_automatic_sounding = False,
     fail_penalty_window_ms = 300000, fail_score_factor = 1 / 2 \<rparr>"

record propagation_context =
  position_valid :: bool
  elevation_now :: rat
  sfi_current :: rat

section \<open>Soundings\<close>

definition measured :: "rat \<Rightarrow> rat \<Rightarrow> rat \<Rightarrow> measurement" where
  "measured snr ber_votes sinad_db = \<lparr> m_snr = snr, m_ber = ber_votes, m_sinad = sinad_db, m_multipath = 0, m_noise = -120, m_fec = 0, m_words = 1 \<rparr>"

definition process_sounding :: "u32 \<Rightarrow> propagation_context \<Rightarrow> string \<Rightarrow> u32 \<Rightarrow> rat \<Rightarrow> rat \<Rightarrow> rat \<Rightarrow> bool \<Rightarrow> u32 \<Rightarrow> lqa_database \<Rightarrow> lqa_database" where
  "process_sounding clock ctx station freq snr ber_votes sinad_db twas timestamp db =
     (let now = stamp clock timestamp; m = measured snr ber_votes sinad_db;
          db = update_entry_extended clock freq [] m now db;
          db = update_entry_extended clock freq station m now db;
          db = set_sounding_availability clock freq station twas now db
      in if position_valid ctx
         then set_propagation_at_measurement freq station (elevation_now ctx) (sfi_current ctx)
                (set_propagation_at_measurement freq [] (elevation_now ctx) (sfi_current ctx) db)
         else db)"

record full_metrics_sample =
  ms_snr :: rat
  ms_sinad :: rat
  ms_uncorrectable :: bool
  ms_non_unanimous :: u8
  ms_decode_success :: bool
  ms_multipath_delay :: rat
  ms_noise_power :: rat
  ms_fec_errors :: int
  ms_timestamp :: u32

definition process_sounding_extended :: "u32 \<Rightarrow> string \<Rightarrow> u32 \<Rightarrow> full_metrics_sample \<Rightarrow> lqa_database \<Rightarrow> lqa_database" where
  "process_sounding_extended clock station freq s db =
     (let now = stamp clock (ms_timestamp s);
          votes = (if ms_uncorrectable s then 48
                   else if ms_non_unanimous s > 0 \<or> ms_decode_success s then of_nat (unat (ms_non_unanimous s)) else 48)
      in update_entry_extended clock freq station
           \<lparr> m_snr = ms_snr s, m_ber = votes, m_sinad = ms_sinad s, m_multipath = ms_multipath_delay s / 10,
             m_noise = ms_noise_power s, m_fec = ms_fec_errors s, m_words = 1 \<rparr> now db)"

section \<open>Scores of a path\<close>

definition compute_propagation_factor :: "propagation_context \<Rightarrow> lqa_entry \<Rightarrow> rat" where
  "compute_propagation_factor ctx e =
     (if \<not> position_valid ctx then 1
      else if sample_count e = 0 \<or> solar_elevation e = 0 then 1
      else let elev_diff = \<bar>elevation_now ctx - solar_elevation e\<bar>;
               solar_sim = max 0 (1 - elev_diff / 45);
               sfi_sim = (if sfi_current ctx > 0 \<and> sfi_at_measurement e > 0
                          then max 0 (1 - \<bar>sfi_current ctx - sfi_at_measurement e\<bar> / 100) else 1)
           in 1 / 2 + 1 / 2 * (solar_sim * sfi_sim))"

definition channel_from_score :: "lqa_entry \<Rightarrow> rat" where
  "channel_from_score e = (let q = from_direction_quality e in if q \<ge> 0 then q else le_score e)"

definition channel_to_score :: "lqa_entry \<Rightarrow> rat" where
  "channel_to_score e = to_direction_quality e"

text \<open>The score with the two qualities it was made of, -1 each without data of the peer.\<close>

definition bilateral_channel_scores :: "lqa_entry \<Rightarrow> rat \<times> rat \<times> rat" where
  "bilateral_channel_scores e =
     (let to_q = to_direction_quality e
      in if to_q < 0 then (le_score e, -1, -1)
         else let from_q = from_direction_quality e;
                  from_q = (if from_q < 0 then le_score e else from_q)
              in ((from_q + to_q) / 2, from_q, to_q))"

definition bilateral_channel_score :: "lqa_entry \<Rightarrow> rat" where
  "bilateral_channel_score e = fst (bilateral_channel_scores e)"

section \<open>The best channel\<close>

text \<open>The first entry of greatest score above the limit, as the loop finds it.\<close>

fun best_entry :: "(lqa_entry \<Rightarrow> rat) \<Rightarrow> rat \<Rightarrow> lqa_entry option \<Rightarrow> lqa_entry list \<Rightarrow> rat \<times> lqa_entry option" where
  "best_entry f best_score best [] = (best_score, best)"
| "best_entry f best_score best (e # es) =
     (if f e > best_score then best_entry f (f e) (Some e) es else best_entry f best_score best es)"

definition get_best_channel_for_station :: "analyzer_config \<Rightarrow> u32 \<Rightarrow> string \<Rightarrow> lqa_database \<Rightarrow> channel_rank option" where
  "get_best_channel_for_station cfg clock station db =
     (case best_entry bilateral_channel_score (-1) None (get_entries_for_station clock station 0 db) of
        (_, None) \<Rightarrow> None
      | (s, Some e) \<Rightarrow> if s < min_acceptable_score cfg then None
                      else Some (ChannelRank (le_frequency e) s station (last_activity_ms e)))"

definition get_all_entries :: "lqa_database \<Rightarrow> lqa_entry list" where
  "get_all_entries db = map snd (db_entries db)"

definition get_best_channel :: "analyzer_config \<Rightarrow> lqa_database \<Rightarrow> channel_rank option" where
  "get_best_channel cfg db =
     (case get_all_entries db of [] \<Rightarrow> None
      | e # es \<Rightarrow>
          (case best_entry le_score (le_score e) (Some e) es of
             (_, None) \<Rightarrow> None
           | (s, Some b) \<Rightarrow> if s < min_acceptable_score cfg then None
                           else Some (ChannelRank (le_frequency b) (le_score b) (le_station b) (last_activity_ms b))))"

section \<open>Ranking\<close>

definition path_score :: "selection_mode \<Rightarrow> lqa_entry \<Rightarrow> rat" where
  "path_score mode e =
     (case mode of
        BROADCAST \<Rightarrow> (let s = channel_to_score e in if s < 0 then le_score e else s)
      | LISTENING \<Rightarrow> (let s = channel_from_score e in if s < 0 then le_score e else s)
      | LINK_ESTABLISHMENT \<Rightarrow> bilateral_channel_score e)"

record rank_sums =
  aggregate :: rat
  qualifying :: nat
  latest_update :: u32
  best_station :: string
  best_path :: rat

definition rank_path :: "selection_mode \<Rightarrow> rat \<Rightarrow> lqa_entry \<Rightarrow> rank_sums \<Rightarrow> rank_sums" where
  "rank_path mode min_path e a =
     (let s = path_score mode e
      in if s < min_path then a
         else let a = a\<lparr>aggregate := aggregate a + s, qualifying := qualifying a + 1,
                        latest_update := (if last_activity_ms e > latest_update a then last_activity_ms e else latest_update a)\<rparr>
              in if s > best_path a then a\<lparr>best_path := s, best_station := le_station e\<rparr> else a)"

definition rank_frequency :: "selection_mode \<Rightarrow> rat \<Rightarrow> u32 \<Rightarrow> lqa_entry list \<Rightarrow> channel_rank list" where
  "rank_frequency mode min_path freq es =
     (let a = fold (rank_path mode min_path) es
                \<lparr> aggregate = 0, qualifying = 0, latest_update = 0, best_station = [], best_path = -1 \<rparr>
      in if qualifying a = 0 then []
         else [ChannelRank freq (aggregate a / of_nat (qualifying a)) (best_station a) (latest_update a)])"

text \<open>\<open>std::sort\<close> leaves the order of equal scores open; here they stay in order of frequency.\<close>

definition rank_all_channels :: "selection_mode \<Rightarrow> string list \<Rightarrow> rat \<Rightarrow> lqa_database \<Rightarrow> channel_rank list" where
  "rank_all_channels mode targets min_path db =
     (let es = filter (\<lambda>e. le_station e \<noteq> [] \<and> (targets = [] \<or> le_station e \<in> set targets)) (get_all_entries db);
          freqs = sorted_list_of_set (le_frequency ` set es)
      in sort_key (\<lambda>r. - rk_score r)
           (concat (map (\<lambda>f. rank_frequency mode min_path f (filter (\<lambda>e. le_frequency e = f) es)) freqs)))"

definition penalized :: "analyzer_config \<Rightarrow> u32 \<Rightarrow> lqa_entry \<Rightarrow> bool" where
  "penalized cfg clock e \<longleftrightarrow> last_failed_handshake_ms e > 0 \<and> clock - last_failed_handshake_ms e < fail_penalty_window_ms cfg"

definition station_rank :: "analyzer_config \<Rightarrow> propagation_context \<Rightarrow> u32 \<Rightarrow> selection_mode \<Rightarrow> string \<Rightarrow> lqa_entry \<Rightarrow> channel_rank" where
  "station_rank cfg ctx clock mode station e =
     (let (score, from_q, to_q) =
            (case mode of
               BROADCAST \<Rightarrow> (let q = channel_to_score e in (if q \<ge> 0 then q else le_score e, -1, q))
             | LISTENING \<Rightarrow> (let q = channel_from_score e in (if q \<ge> 0 then q else le_score e, q, -1))
             | LINK_ESTABLISHMENT \<Rightarrow> bilateral_channel_scores e);
          score = score * compute_propagation_factor ctx e;
          score = (if penalized cfg clock e then score * fail_score_factor cfg else score)
      in (ChannelRank (le_frequency e) score station (last_activity_ms e))\<lparr>rk_from := from_q, rk_to := to_q\<rparr>)"

text \<open>The ranks of a station before they are sorted, and the order they are sorted with.\<close>

definition station_ranks :: "analyzer_config \<Rightarrow> propagation_context \<Rightarrow> u32 \<Rightarrow> string \<Rightarrow> selection_mode \<Rightarrow> lqa_database \<Rightarrow> channel_rank list" where
  "station_ranks cfg ctx clock station mode db =
     map (station_rank cfg ctx clock mode station) (get_entries_for_station clock station 0 db)"

definition imbalance :: "channel_rank \<Rightarrow> rat" where
  "imbalance r = (if rk_from r \<ge> 0 \<and> rk_to r \<ge> 0 then \<bar>rk_from r - rk_to r\<bar> else 30)"

definition rank_before :: "channel_rank \<Rightarrow> channel_rank \<Rightarrow> bool" where
  "rank_before a b = (if \<bar>rk_score a - rk_score b\<bar> > 1 / 100 then rk_score a > rk_score b else imbalance a < imbalance b)"

definition compute_channel_aggregate_score :: "u32 \<Rightarrow> lqa_database \<Rightarrow> rat" where
  "compute_channel_aggregate_score freq db =
     (let es = filter (\<lambda>e. le_station e \<noteq> []) (get_entries_for_channel freq db)
      in if es = [] then 0 else sum_list (map bilateral_channel_score es) / of_nat (length es))"

definition score_for :: "channel_rank list \<Rightarrow> u32 \<Rightarrow> rat" where
  "score_for ranked freq = (case filter (\<lambda>r. rk_frequency r = freq) ranked of r # _ \<Rightarrow> rk_score r | [] \<Rightarrow> -1)"

definition call_before :: "(u32 \<Rightarrow> rat) \<Rightarrow> (u32 \<Rightarrow> rat) \<Rightarrow> channel \<Rightarrow> channel \<Rightarrow> bool" where
  "call_before score agg a b =
     (let sa = score (rx_frequency_hz a); sb = score (rx_frequency_hz b)
      in if sa \<ge> 0 \<and> sb \<ge> 0 then sa > sb
         else if sa \<ge> 0 then True
         else if sb \<ge> 0 then False
         else let agg_a = agg (rx_frequency_hz a); agg_b = agg (rx_frequency_hz b)
           in if agg_a > 0 \<or> agg_b > 0 then agg_a > agg_b else False)"

fun insert_stable :: "('a \<Rightarrow> 'a \<Rightarrow> bool) \<Rightarrow> 'a \<Rightarrow> 'a list \<Rightarrow> 'a list" where
  "insert_stable lt x [] = [x]"
| "insert_stable lt x (y # ys) = (if lt y x then y # insert_stable lt x ys else x # y # ys)"

definition stable_sort :: "('a \<Rightarrow> 'a \<Rightarrow> bool) \<Rightarrow> 'a list \<Rightarrow> 'a list" where
  "stable_sort lt xs = foldr (insert_stable lt) xs []"

definition rank_channels_for_call :: "analyzer_config \<Rightarrow> propagation_context \<Rightarrow> u32 \<Rightarrow> string \<Rightarrow> channel list \<Rightarrow> selection_mode \<Rightarrow> lqa_database \<Rightarrow> channel list" where
  "rank_channels_for_call cfg ctx clock station channels mode db =
     stable_sort (call_before (score_for (station_ranks cfg ctx clock station mode db))
                    (\<lambda>f. compute_channel_aggregate_score f db)) channels"

section \<open>Soundings that are due\<close>

definition is_sounding_due :: "analyzer_config \<Rightarrow> u32 \<Rightarrow> u32 \<Rightarrow> lqa_database \<Rightarrow> bool" where
  "is_sounding_due cfg clock freq db =
     (let es = get_entries_for_channel freq db;
          latest = fold (\<lambda>e t. max t (last_sounding_ms e)) es 0
      in es = [] \<or> latest = 0 \<or> clock - latest \<ge> sounding_interval_ms cfg)"

definition get_channels_needing_sounding :: "analyzer_config \<Rightarrow> u32 \<Rightarrow> lqa_database \<Rightarrow> u32 list" where
  "get_channels_needing_sounding cfg clock db =
     filter (\<lambda>f. is_sounding_due cfg clock f db) (sorted_list_of_set (le_frequency ` set (get_all_entries db)))"

text \<open>The database after the update and the frequencies handed to the sounding callback.\<close>

definition analyzer_update :: "analyzer_config \<Rightarrow> bool \<Rightarrow> u32 \<Rightarrow> lqa_database \<Rightarrow> lqa_database \<times> u32 list" where
  "analyzer_update cfg callback_set clock db =
     (let db = snd (prune_stale_entries clock db)
      in (db, if enable_automatic_sounding cfg \<and> callback_set then get_channels_needing_sounding cfg clock db else []))"

definition score_to_quality_level :: "rat \<Rightarrow> string" where
  "score_to_quality_level s =
     (if s \<ge> 25 then ''Excellent'' else if s \<ge> 20 then ''Good'' else if s \<ge> 15 then ''Fair''
      else if s \<ge> 10 then ''Poor'' else ''Very Poor'')"

section \<open>The order of the channels of a call\<close>

text \<open>The score of a channel for the call: that of the station's entry for its frequency, -1 without one.\<close>

definition call_score :: "analyzer_config \<Rightarrow> propagation_context \<Rightarrow> u32 \<Rightarrow> string \<Rightarrow> selection_mode \<Rightarrow> lqa_database \<Rightarrow> u32 \<Rightarrow> rat" where
  "call_score cfg ctx clock station mode db f =
     (case get_entry f station db of None \<Rightarrow> -1 | Some e \<Rightarrow> rk_score (station_rank cfg ctx clock mode station e))"

definition call_key :: "(u32 \<Rightarrow> rat) \<Rightarrow> (u32 \<Rightarrow> rat) \<Rightarrow> channel \<Rightarrow> nat \<times> rat" where
  "call_key score agg c =
     (if score (rx_frequency_hz c) \<ge> 0 then (0, - score (rx_frequency_hz c)) else (1, - max 0 (agg (rx_frequency_hz c))))"

lemma call_before_key: "call_before score agg a b \<longleftrightarrow> call_key score agg a < call_key score agg b"
  by (auto simp: call_before_def call_key_def Let_def max_def)

lemma insert_stable_insort: "insert_stable (\<lambda>a b. key a < key b) x xs = insort_key key x xs"
  by (induction xs) (auto simp: not_less)

lemma stable_sort_key: "stable_sort (\<lambda>a b. key a < key b) xs = sort_key key xs"
  by (simp add: stable_sort_def sort_key_def insert_stable_insort [abs_def])

lemma rk_station_rank: "rk_frequency (station_rank cfg ctx clock mode st e) = le_frequency e"
  by (simp add: station_rank_def ChannelRank_def Let_def split: prod.splits)

lemma score_for_entry:
  assumes "db_inv db"
  shows "score_for (station_ranks cfg ctx clock st mode db) f = call_score cfg ctx clock st mode db f"
proof -
  let ?rank = "station_rank cfg ctx clock mode st"
  have "sorted_entries es \<Longrightarrow> \<forall>(k, e) \<in> set es. entry_ok k e \<Longrightarrow>
      filter (\<lambda>r. rk_frequency r = f) (map ?rank (map snd (filter (\<lambda>(k, e). key_station k = st) es))) =
      (case map_of es (EntryKey f st) of None \<Rightarrow> [] | Some e \<Rightarrow> [?rank e])" for es
  proof (induction es)
    case (Cons x es)
    obtain g t e where x: "x = (EntryKey g t, e)" by (metis entry_key.exhaust prod.exhaust)
    have "le_frequency e = g" using Cons.prems(2) x by (simp add: entry_ok_def)
    moreover have "map_of es (EntryKey g t) = None"
      using Cons.prems(1) x by (intro absent_above) (simp add: sorted_entries_def)
    ultimately show ?case using Cons x by (auto simp: rk_station_rank sorted_entries_def split: option.splits)
  qed simp
  then show ?thesis using assms
    by (simp add: score_for_def station_ranks_def get_entries_for_station_def call_score_def get_entry_def db_inv_def
        split: option.splits)
qed

text \<open>
  The channels of a call: the same channels in another order, so that those on which the station was
  measured come first, by score, the others after them by the average over all stations, and
  channels that compare equal keep the order of the scan list.
\<close>

theorem call_channels_ordered:
  fixes cfg ctx clock st mode channels
  assumes "db_inv db"
  defines "score \<equiv> (\<lambda>c. call_score cfg ctx clock st mode db (rx_frequency_hz c))"
    and "agg \<equiv> (\<lambda>c. max 0 (compute_channel_aggregate_score (rx_frequency_hz c) db))"
    and "cs \<equiv> rank_channels_for_call cfg ctx clock st channels mode db"
  shows "mset cs = mset channels
    \<and> (\<forall>i j. i < j \<and> j < length cs \<longrightarrow>
        (0 \<le> score (cs ! j) \<longrightarrow> score (cs ! j) \<le> score (cs ! i)) \<and> (score (cs ! i) < 0 \<longrightarrow> agg (cs ! j) \<le> agg (cs ! i)))
    \<and> (\<forall>s a. filter (\<lambda>c. score c = s \<and> agg c = a) cs = filter (\<lambda>c. score c = s \<and> agg c = a) channels)"
proof -
  define key where "key = call_key (call_score cfg ctx clock st mode db) (\<lambda>f. compute_channel_aggregate_score f db)"
  have cs: "cs = sort_key key channels"
    by (simp add: cs_def rank_channels_for_call_def score_for_entry [OF assms(1), abs_def] call_before_key [abs_def]
        key_def stable_sort_key [abs_def])
  have key: "key c = (if score c \<ge> 0 then (0, - score c) else (1, - agg c))" for c
    by (simp add: key_def call_key_def score_def agg_def)
  have le: "key (cs ! i) \<le> key (cs ! j)" if "i < j" "j < length cs" for i j
    using sorted_nth_mono [of "map key cs" i j] that by (simp add: cs)
  have "(0 \<le> score (cs ! j) \<longrightarrow> score (cs ! j) \<le> score (cs ! i)) \<and> (score (cs ! i) < 0 \<longrightarrow> agg (cs ! j) \<le> agg (cs ! i))"
    if "i < j" "j < length cs" for i j
    using le [OF that] by (auto simp: key split: if_splits)
  moreover have "filter (\<lambda>c. score c = s \<and> agg c = a) cs = filter (\<lambda>c. score c = s \<and> agg c = a) channels" for s a
  proof -
    define k where "k = (if s \<ge> 0 then (0 :: nat, - s) else (1, - a))"
    have f: "filter (\<lambda>c. score c = s \<and> agg c = a) xs = filter (\<lambda>c. score c = s \<and> agg c = a) (filter (\<lambda>c. key c = k) xs)" for xs
      by (auto simp: key k_def intro!: filter_cong)
    show ?thesis by (subst (1 2) f) (simp add: cs sort_key_stable)
  qed
  ultimately show ?thesis by (simp add: cs)
qed

definition two_channels :: "channel list" where
  "two_channels = [Channel\<lparr>rx_frequency_hz := 5000000\<rparr>, Channel\<lparr>rx_frequency_hz := 7000000\<rparr>]"

definition sam_database :: lqa_database where
  "sam_database = update_bilateral 1000 7000000 ''SAM'' 17 2 7 0 init_database"

text \<open>
  The order the ranks of a station are sorted with is no order: there are qualities of three channels
  of which the first goes before the second, the second before the third, and the third before the first.
\<close>

theorem rank_order_cyclic:
  "\<exists>e1 e2 e3. let r = station_rank cfg (ctx\<lparr>position_valid := False\<rparr>) clock LINK_ESTABLISHMENT st
     in rank_before (r e1) (r e2) \<and> rank_before (r e2) (r e3) \<and> rank_before (r e3) (r e1)"
proof -
  define e where "e t s = (entry_for 7000000 st)\<lparr>le_sinad := s, bilateral_sinad := t\<rparr>" for t s
  have q: "bilateral_channel_scores (e t s) = ((s + of_nat (unat t)) / 2, s, of_nat (unat t))"
    if "0 < s" "s \<le> 30" "unat t \<le> 30" for t s
  proof -
    have "(of_nat (unat t) :: rat) \<le> of_nat 30" using that(3) by (simp only: of_nat_le_iff)
    moreover have "(0 :: rat) \<le> of_nat (unat t)" by (rule of_nat_0_le_iff)
    ultimately show ?thesis
      using that by (simp add: bilateral_channel_scores_def Let_def to_direction_quality_def from_direction_quality_def
        e_def entry_for_def LQAEntry_def LQA_QUALITY_MAX_def word_le_nat_alt min_def)
  qed
  have r: "station_rank cfg (ctx\<lparr>position_valid := False\<rparr>) clock LINK_ESTABLISHMENT st (e t s) =
      (ChannelRank 7000000 ((s + of_nat (unat t)) / 2) st 0)\<lparr>rk_from := s, rk_to := of_nat (unat t)\<rparr>"
    if "0 < s" "s \<le> 30" "unat t \<le> 30" for t s
    by (simp add: station_rank_def q [OF that] compute_propagation_factor_def penalized_def)
      (simp add: e_def entry_for_def LQAEntry_def last_activity_ms_def)
  show ?thesis
    by (rule exI [of _ "e 20 20"], rule exI [of _ "e 19 (2627 / 125)"], rule exI [of _ "e 18 (2754 / 125)"])
      (simp add: Let_def r rank_before_def imbalance_def ChannelRank_def)
qed

section \<open>Soundings and averages\<close>

lemma with_entry_stored:
  assumes "sorted_entries (db_entries db)" "map_of (db_entries db) k = Some e"
  shows "map_of (db_entries (with_entry k fresh f db)) = (map_of (db_entries db))(k \<mapsto> f e)"
    "sorted_entries (db_entries (with_entry k fresh f db))"
  using assms by (simp_all add: with_entry_def map_of_put_entry sorted_put_entry)

lemma extended_stored:
  assumes "sorted_entries (db_entries db)" "length (db_entries db) < kCapacity \<or> get_entry f st db \<noteq> None"
  shows "\<exists>e'. map_of (db_entries (update_entry_extended clock f st m t db)) = (map_of (db_entries db))(EntryKey f st \<mapsto> e')
    \<and> (\<forall>e. get_entry f st db = Some e \<longrightarrow>
          le_noise_floor e' = time_weighted_average (db_config db) (le_noise_floor e) (m_noise m) (sample_count e)
          \<and> (st \<noteq> [] \<longrightarrow> last_contact_ms e' = stamp clock t))"
    "sorted_entries (db_entries (update_entry_extended clock f st m t db))"
    "db_config (update_entry_extended clock f st m t db) = db_config db"
  using assms map_of_put_entry [OF assms(1)] sorted_put_entry [OF assms(1)]
  by (auto simp: update_entry_extended_def Let_def get_entry_def evict_oldest_if_full_def scored_def stamp_activity_def
      split: option.splits)

text \<open>
  A sounding heard from a station that was measured before: no noise floor is measured during a sounding, but the
  one on record is averaged with the default of -120 dBm, and the time of the last contact becomes
  that of the sounding, although nothing was exchanged with the station.
\<close>

theorem sounding_dilutes_entry:
  assumes "db_inv db" "get_entry freq station db = Some e" "station \<noteq> []" "length (db_entries db) < kCapacity"
    and "0 \<le> time_decay_factor (db_config db)" "-120 < le_noise_floor e"
    and "\<not> position_valid ctx"
  shows "\<exists>e'. get_entry freq station (process_sounding clock ctx station freq snr votes sinad_db twas ts db) = Some e'
    \<and> le_noise_floor e' = time_weighted_average (db_config db) (le_noise_floor e) (-120) (sample_count e)
    \<and> le_noise_floor e' < le_noise_floor e
    \<and> last_contact_ms e' = stamp clock ts"
proof -
  let ?now = "stamp clock ts" and ?m = "measured snr votes sinad_db"
  let ?db1 = "update_entry_extended clock freq [] ?m ?now db"
  let ?db2 = "update_entry_extended clock freq station ?m ?now ?db1"
  have s: "sorted_entries (db_entries db)" using assms(1) by (simp add: db_inv_def)
  note e1 = extended_stored [OF s disjI1 [OF assms(4)], where f = freq and st = "[]" and clock = clock and m = ?m and t = ?now]
  then have g: "get_entry freq station ?db1 = Some e" using assms(2,3) by (auto simp: get_entry_def)
  note e2 = extended_stored [where db = ?db1 and f = freq and st = station and clock = clock and m = ?m and t = ?now]
  obtain e' where e': "map_of (db_entries ?db2) (EntryKey freq station) = Some e'"
    "le_noise_floor e' = time_weighted_average (db_config db) (le_noise_floor e) (-120) (sample_count e)"
    "last_contact_ms e' = stamp clock ts"
    using e2(1) e1(2,3) g assms(3) by (fastforce simp: measured_def stamp_def)
  have "get_entry freq station (process_sounding clock ctx station freq snr votes sinad_db twas ts db) =
      Some (scored (db_config ?db2) clock (e'\<lparr>sounding_twas := twas, last_sounding_ms := stamp clock ?now\<rparr>))"
    using with_entry_stored(1) [OF e2(2) e'(1)] e1(2) g assms(7)
    by (simp add: process_sounding_def Let_def set_sounding_availability_def get_entry_def)
  moreover have "time_weighted_average (db_config db) (le_noise_floor e) (-120) (sample_count e) < le_noise_floor e"
  proof -
    define w where "w = time_decay_factor (db_config db) * of_nat (unat (sample_count e))"
    have "0 \<le> w" using assms(5) unfolding w_def by (intro mult_nonneg_nonneg of_nat_0_le_iff)
    then have "(le_noise_floor e * w + -120) / (w + 1) < le_noise_floor e"
      using assms(6) by (simp add: pos_divide_less_eq algebra_simps)
    then show ?thesis by (simp add: time_weighted_average_def Let_def w_def mult.commute mult.left_commute)
  qed
  ultimately show ?thesis using e'(2,3) by (simp add: scored_def)
qed

definition sam_station_entry :: lqa_entry where
  "sam_station_entry = scored LQAConfig 1000 ((entry_for 7000000 ''SAM'')\<lparr>last_contact_ms := 1000, bilateral_sinad := 17,
     bilateral_ber := 2, bilateral_mp := 7, bilateral_tried := True, last_contact_ms := 1000\<rparr>)"

lemma sam_database: "db_inv sam_database"
  using db_inv_step [of init_database "Bilateral 1000 7000000 ''SAM'' 17 2 7 0"]
  unfolding sam_database_def by (simp add: db_inv_def init_database_def sorted_entries_def)

lemma sam_database_entries: "sam_database = \<lparr> db_config = LQAConfig, db_entries = [(EntryKey 7000000 ''SAM'', sam_station_entry)] \<rparr>"
  by (simp add: sam_database_def init_database_def update_bilateral_def with_entry_def evict_oldest_if_full_def kCapacity_def
      Let_def stamp_def sam_station_entry_def)

lemma sam_station_score: "rk_score (station_rank AnalyzerConfig \<lparr> position_valid = False, elevation_now = 0, sfi_current = 0 \<rparr>
    2000 BROADCAST ''SAM'' sam_station_entry) = 247 / 10"
  by (simp add: station_rank_def channel_to_score_def to_direction_quality_def sam_station_entry_def scored_def entry_for_def
      LQAEntry_def kBerLeadWeight_def LQA_QUALITY_MAX_def Let_def compute_propagation_factor_def penalized_def ChannelRank_def)

theorem call_channels_ordered_witness:
  "let cs = rank_channels_for_call AnalyzerConfig \<lparr> position_valid = False, elevation_now = 0, sfi_current = 0 \<rparr> 2000 ''SAM''
      two_channels BROADCAST sam_database
   in mset cs = mset two_channels \<and> rx_frequency_hz (cs ! 0) = 7000000"
proof -
  let ?cs = "rank_channels_for_call AnalyzerConfig \<lparr> position_valid = False, elevation_now = 0, sfi_current = 0 \<rparr> 2000 ''SAM''
      two_channels BROADCAST sam_database"
  let ?score = "\<lambda>f. call_score AnalyzerConfig \<lparr> position_valid = False, elevation_now = 0, sfi_current = 0 \<rparr> 2000 ''SAM''
      BROADCAST sam_database f"
  have sc: "?score 5000000 = -1" "?score 7000000 = 247 / 10"
    by (simp_all add: call_score_def get_entry_def sam_database_entries sam_station_score)
  note t = call_channels_ordered [OF sam_database, where channels = two_channels and st = "''SAM''" and clock = 2000
      and mode = BROADCAST and cfg = AnalyzerConfig and ctx = "\<lparr> position_valid = False, elevation_now = 0, sfi_current = 0 \<rparr>"]
  then have m: "mset ?cs = mset two_channels" by blast
  then have "length ?cs = 2" using mset_eq_length by (fastforce simp: two_channels_def)
  then obtain a b where ab: "?cs = [a, b]" by (auto simp: length_Suc_conv numeral_2_eq_2)
  have "rx_frequency_hz a = 7000000"
  proof (rule ccontr)
    assume n: "rx_frequency_hz a \<noteq> 7000000"
    have "rx_frequency_hz ` set [a, b] = {5000000, 7000000}"
      using mset_eq_setD [OF m] unfolding ab by (simp add: two_channels_def)
    then have "rx_frequency_hz a = 5000000" "rx_frequency_hz b = 7000000" using n by (auto simp: doubleton_eq_iff)
    moreover have "0 \<le> ?score (rx_frequency_hz b) \<longrightarrow> ?score (rx_frequency_hz b) \<le> ?score (rx_frequency_hz a)"
      using conjunct1 [OF conjunct2 [OF t], rule_format, of 0 1] unfolding ab by simp
    ultimately show False using sc by simp
  qed
  then show ?thesis using m ab by (simp add: Let_def)
qed

definition heard_station :: lqa_database where
  "heard_station = \<lparr> db_config = LQAConfig, db_entries = [(EntryKey 7000000 ''SAM'',
     (entry_for 7000000 ''SAM'')\<lparr>le_noise_floor := -100, sample_count := 1, last_contact_ms := 1000\<rparr>)] \<rparr>"

theorem sounding_dilutes_entry_witness:
  "\<exists>e'. get_entry 7000000 ''SAM'' (process_sounding 5000 \<lparr> position_valid = False, elevation_now = 0, sfi_current = 0 \<rparr>
      ''SAM'' 7000000 20 3 12 False 0 heard_station) = Some e' \<and> le_noise_floor e' = -2100 / 19 \<and> last_contact_ms e' = 5000"
proof -
  have "db_inv heard_station"
    by (simp add: db_inv_def heard_station_def sorted_entries_def kCapacity_def entry_ok_def entry_for_def LQAEntry_def)
  from sounding_dilutes_entry [OF this, of 7000000 "''SAM''" _ "\<lparr> position_valid = False, elevation_now = 0, sfi_current = 0 \<rparr>" 5000 20 3 12 False 0]
  show ?thesis
    by (auto simp: heard_station_def get_entry_def kCapacity_def LQAConfig_def entry_for_def LQAEntry_def
        time_weighted_average_def stamp_def)
qed

end
