(* ===== verification/Ctl_State.thy ===== *)
theory Ctl_State
  imports Lqa_Exchange Lqa_Analyzer Freq_Select Sounding_Identity
begin

text \<open>
  The receiving side of the controller (\<open>src/App/ale_controller.cpp\<close>, \<open>App/ale_controller.h\<close>): its members,
  what it asks its parts, and what it does to them. The state machine runs apart: what the controller asks
  of it, of the radio and of the station lists is a record \<open>ctl_env\<close>; the events it dispatches and the
  calls it makes to the state machine are the trace \<open>ctl_outs\<close>. The exchange manager, the database
  in it, the frequency selection and the sounding accumulator are the models of their own theories.
  Status lines for the log are not modelled.
\<close>

record ctl_env = efs_env +
  hs_phase :: handshake_phase
  call_phase :: calling_phase
  conclusion_rcvd :: bool
  allcall_handshake :: bool
  active_group :: bool
  active_net :: bool
  cur_freq :: u32
  configured :: "channel list"
  primary_self :: string
  now_ms :: u32
  db_clock :: u32
  prop_ctx :: propagation_context
  lqa_enabled :: bool
  lqa_exchange_enabled :: bool
  enhanced_freq_select :: bool
  relink_enabled :: bool
  relink_threshold :: rat
  manual_accept_mode :: bool
  amd_max_attempts :: u32
  noise_max_dbm :: rat
  noise_mean_dbm :: rat
  sounding_channels :: "string \<Rightarrow> channel list"
  calling_width :: "string \<Rightarrow> u32"
  sweep_accepted :: bool
  sm_self_address :: string
  call_accepted :: bool
  net_interval_sec :: "string \<Rightarrow> u32"

datatype ctl_output =
  Amd_Received string string string string
| Respond_Linked_Amd string "ale_word list"
| Call_Received string
| Link_Up string
| Link_Down string
| Amd_No_Link string
| Amd_Delivered string
| Amd_Not_Sent string
| Warning string
| Sm_Terminate_Link
| Initiate_Call string
| Set_Pending_Message string bool
| Send_Linked_Amd "ale_word list" string u32
| Set_Noise_Cmd u32
| Set_Target_Scan u32
| Send_Sweep "channel list"
| Sounding_Warning string u32 string
| Sounding_Started string

record amd_accumulator =
  amd_collecting :: bool
  amd_acc :: string

definition AmdAccumulator :: amd_accumulator where
  "AmdAccumulator = \<lparr> amd_collecting = False, amd_acc = [] \<rparr>"

record controller =
  exchange :: lqa_exchange
  freq_select :: efs
  sounding :: "session option"
  rx_ber_acc :: ber_accumulator
  rx_ber_snr_sum :: rat
  rx_ber_sinad_sum :: rat
  rx_ber_freq_hz :: u32
  rx_ber_settle_ms :: u32
  hs_call_acc :: frame_quality
  hs_call_freq_hz :: u32
  hs_resp_acc :: frame_quality
  hs_resp_freq_hz :: u32
  last_caller :: string
  call_alert_fired :: bool
  call_amd :: amd_accumulator
  call_amd_pending :: "string list"
  handshake_call_context :: string
  resp_amd :: amd_accumulator
  resp_amd_pending :: "string list"
  ack_amd :: amd_accumulator
  ack_amd_peer :: string
  linked_amd :: amd_accumulator
  linked_amd_peer :: string
  linked_amd_settle_ms :: u32
  pending_relink_addr :: string
  pending_operator_accept :: bool
  link_start_ms :: u32
  amd_retry_active :: bool
  amd_attempts_remaining :: u32
  amd_retry_target :: string
  amd_retry_text :: string
  amd_retry_link_after_send :: bool
  amd_retry_pending_recall :: bool
  amd_retry_recall_after_ms :: u32
  auto_sounding_on :: bool
  auto_sounding_net :: string
  auto_sounding_interval_ms :: u32
  auto_sounding_last_ms :: u32
  sounding_cycle_active :: bool
  sounding_warning_sent :: bool
  sounding_warning_active :: bool
  sounding_warning_lead_ms :: u32
  ctl_outs :: "ctl_output list"

definition init_controller :: "lqa_database \<Rightarrow> controller" where
  "init_controller db =
     \<lparr> exchange = LqaExchangeManager db, freq_select = FreqSelectManager, sounding = None,
       rx_ber_acc = ber_reset, rx_ber_snr_sum = 0, rx_ber_sinad_sum = 0, rx_ber_freq_hz = 0, rx_ber_settle_ms = 0,
       hs_call_acc = fq_init, hs_call_freq_hz = 0, hs_resp_acc = fq_init, hs_resp_freq_hz = 0,
       last_caller = [], call_alert_fired = False,
       call_amd = AmdAccumulator, call_amd_pending = [], handshake_call_context = ''INDIVIDUAL'',
       resp_amd = AmdAccumulator, resp_amd_pending = [], ack_amd = AmdAccumulator, ack_amd_peer = [],
       linked_amd = AmdAccumulator, linked_amd_peer = [], linked_amd_settle_ms = 0,
       pending_relink_addr = [], pending_operator_accept = False, link_start_ms = 0,
       amd_retry_active = False, amd_attempts_remaining = 0, amd_retry_target = [], amd_retry_text = [],
       amd_retry_link_after_send = False, amd_retry_pending_recall = False, amd_retry_recall_after_ms = 0,
       auto_sounding_on = False, auto_sounding_net = [], auto_sounding_interval_ms = 0, auto_sounding_last_ms = 0,
       sounding_cycle_active = False, sounding_warning_sent = False, sounding_warning_active = False,
       sounding_warning_lead_ms = 10000, ctl_outs = [] \<rparr>"

definition ctl_emit :: "ctl_output \<Rightarrow> controller \<Rightarrow> controller" where
  "ctl_emit out c = c\<lparr>ctl_outs := ctl_outs c @ [out]\<rparr>"

section \<open>Queries\<close>

definition find_channel_by_freq :: "channel list \<Rightarrow> u32 \<Rightarrow> channel option" where
  "find_channel_by_freq chs rx_hz = (if rx_hz = 0 then None else find (\<lambda>ch. rx_frequency_hz ch = rx_hz) chs)"

definition channel_has :: "(channel \<Rightarrow> bool) \<Rightarrow> channel list \<Rightarrow> u32 \<Rightarrow> bool" where
  "channel_has p chs rx_hz = (case find_channel_by_freq chs rx_hz of None \<Rightarrow> False | Some ch \<Rightarrow> p ch)"

definition reporting_inhibited :: "channel list \<Rightarrow> u32 \<Rightarrow> bool" where
  "reporting_inhibited = channel_has inhibit_reporting"

definition sounding_inhibited :: "channel list \<Rightarrow> u32 \<Rightarrow> bool" where
  "sounding_inhibited = channel_has inhibit_sounding"

definition calling_inhibited :: "channel list \<Rightarrow> u32 \<Rightarrow> bool" where
  "calling_inhibited = channel_has inhibit_calling"

definition tx_inhibited :: "channel list \<Rightarrow> u32 \<Rightarrow> bool" where
  "tx_inhibited = channel_has rx_only"

definition rx_inhibited :: "channel list \<Rightarrow> u32 \<Rightarrow> bool" where
  "rx_inhibited = channel_has tx_only"

definition efs_part :: "ctl_env \<Rightarrow> efs_env" where
  "efs_part env = efs_env.truncate env"

definition active_peer :: "ctl_env \<Rightarrow> string" where
  "active_peer env =
     (if sm_state env \<noteq> LINKED then [] else if sm_to_address env \<noteq> [] then sm_to_address env else sm_caller_address env)"

definition measured_peer :: "ctl_env \<Rightarrow> string" where
  "measured_peer env = (if sm_to_address env \<noteq> [] then sm_to_address env else sm_caller_address env)"

definition foreign :: "ctl_env \<Rightarrow> string \<Rightarrow> bool" where
  "foreign env addr \<longleftrightarrow> addr \<noteq> [] \<and> \<not> efs_is_self env addr"

definition ctl_db :: "controller \<Rightarrow> lqa_database" where
  "ctl_db c = x_db (exchange c)"

definition map_db :: "(lqa_database \<Rightarrow> lqa_database) \<Rightarrow> controller \<Rightarrow> controller" where
  "map_db f c = c\<lparr>exchange := (exchange c)\<lparr>x_db := f (x_db (exchange c))\<rparr>\<rparr>"

section \<open>A station for examples\<close>

definition station_env :: "ale_state \<Rightarrow> ctl_env" where
  "station_env st =
     \<lparr> sm_state = st, sm_to_address = ''SAM'', sm_caller_address = [], sm_channel = None, ranked = (\<lambda>_. []), self_addr = ''JOE'',
       efs_is_self = (\<lambda>a. a = ''JOE''), hs_phase = HP_WAIT_CYCLE_END, call_phase = CP_LBT, conclusion_rcvd = False,
       allcall_handshake = False, active_group = False, active_net = False, cur_freq = 7000000, configured = [],
       primary_self = ''JOE'', now_ms = 1000, db_clock = 1000,
       prop_ctx = \<lparr> position_valid = False, elevation_now = 0, sfi_current = 0 \<rparr>, lqa_enabled = True,
       lqa_exchange_enabled = True, enhanced_freq_select = False, relink_enabled = False, relink_threshold = 3,
       manual_accept_mode = False, amd_max_attempts = 3, noise_max_dbm = -120, noise_mean_dbm = -120,
       sounding_channels = (\<lambda>_. []), calling_width = (\<lambda>_. 4), sweep_accepted = True, sm_self_address = ''JOE'',
       call_accepted = True, net_interval_sec = (\<lambda>_. 1800) \<rparr>"

end
