(* ===== verification/Ctl_Amd.thy ===== *)
theory Ctl_Amd
  imports Ctl_State Orderwire
begin

text \<open>
  Display messages on the receiving side of the controller (\<open>src/App/ale_controller.cpp\<close>, \<open>amd_step\<close> to
  \<open>reply_to_linked_amd_\<close>): the accumulator shared by the four windows in which a message may arrive, and
  its display. The words that \<open>Orderwire.encode_amd\<close> makes of a text rebuild it in the accumulator.
\<close>

unbundle bit_operations_syntax

section \<open>The accumulator\<close>

definition blank :: "char \<Rightarrow> bool" where
  "blank ch \<longleftrightarrow> ch = CHR '' '' \<or> ch = CHR ''@''"

text \<open>A text of nothing but blanks stays as it is.\<close>

definition trim_text :: "string \<Rightarrow> string" where
  "trim_text s = (if list_all blank s then s else rev (dropWhile blank (rev s)))"

definition amd_flush :: "amd_accumulator \<Rightarrow> string \<times> amd_accumulator" where
  "amd_flush st = (if \<not> amd_collecting st then ([], st) else (trim_text (amd_acc st), AmdAccumulator))"

definition amd_step :: "ale_word \<Rightarrow> amd_accumulator \<Rightarrow> string \<times> amd_accumulator" where
  "amd_step w st =
     (if word_type w = CMD then
        let cc = cmd_char_code w
        in if cc = of_char (CHR ''f'') \<or> cc = of_char (CHR ''a'') \<or> cc = of_char (CHR ''n'') \<or> cc = of_char (CHR ''r'')
           then amd_flush st
           else let (ok, basic38) = decode_ascii (raw_payload w) CMD
             in if ok \<and> (take 3 basic38 = ''DTM'' \<or> take 3 basic38 = ''DBM'') then amd_flush st
                else let (prior, st) = amd_flush st; (ok, exp64) = decode_ascii (raw_payload w) DATA
                  in (prior, if ok then st\<lparr>amd_collecting := True, amd_acc := take 3 exp64\<rparr> else st)
      else if \<not> amd_collecting st then ([], st)
      else if word_type w = DATA \<or> word_type w = REP then
        let (ok, exp64) = decode_ascii (raw_payload w) DATA
        in ([], if ok then st\<lparr>amd_acc := amd_acc st @ take 3 exp64\<rparr> else st)
      else if word_type w = TIS \<or> word_type w = TWAS then amd_flush st
      else ([], st))"

definition amd_dispatch :: "ctl_env \<Rightarrow> string \<Rightarrow> string \<Rightarrow> string \<Rightarrow> controller \<Rightarrow> controller" where
  "amd_dispatch env peer txt context c =
     (if txt = [] \<or> peer = [] then c else ctl_emit (Amd_Received (primary_self env) peer txt context) c)"

section \<open>The four windows\<close>

definition rx_accumulate_call_amd :: "ctl_env \<Rightarrow> ale_word \<Rightarrow> controller \<Rightarrow> controller" where
  "rx_accumulate_call_amd env w c =
     (if sm_state env \<noteq> HANDSHAKE \<or> hs_phase env \<noteq> HP_WAIT_CYCLE_END then c
      else let (txt, st) = amd_step w (call_amd c)
        in c\<lparr>call_amd := st, call_amd_pending := (if txt \<noteq> [] then call_amd_pending c @ [txt] else call_amd_pending c)\<rparr>)"

definition rx_accumulate_resp_amd :: "ctl_env \<Rightarrow> ale_word \<Rightarrow> controller \<Rightarrow> controller" where
  "rx_accumulate_resp_amd env w c =
     (if sm_state env \<noteq> CALLING \<or> call_phase env \<noteq> CP_LISTENING then c
      else let (txt, st) = amd_step w (resp_amd c)
        in c\<lparr>resp_amd := st, resp_amd_pending := (if txt \<noteq> [] then resp_amd_pending c @ [txt] else resp_amd_pending c)\<rparr>)"

definition reply_to_linked_amd :: "ctl_env \<Rightarrow> string \<Rightarrow> controller \<Rightarrow> controller" where
  "reply_to_linked_amd env sender c =
     (if sender = [] \<or> efs_is_self env sender then c
      else ctl_emit (Respond_Linked_Amd sender
             (if lqa_exchange_enabled env \<and> cur_freq env > 0 \<and> \<not> reporting_inhibited (configured env) (cur_freq env)
              then lqa_cmd (build_cmd_a_word (cur_freq env) sender False (exchange c)) else [])) c)"

definition rx_accumulate_linked_amd :: "ctl_env \<Rightarrow> ale_word \<Rightarrow> controller \<Rightarrow> controller" where
  "rx_accumulate_linked_amd env w c =
     (if sm_state env \<noteq> LINKED then
        let (txt, st) = amd_flush (linked_amd c)
        in amd_dispatch env (linked_amd_peer c) txt ''LINKED'' (c\<lparr>linked_amd := st\<rparr>)
      else
        let was_collecting = amd_collecting (linked_amd c);
            (txt, st) = amd_step w (linked_amd c);
            c = c\<lparr>linked_amd := st\<rparr>;
            c = (if \<not> was_collecting \<and> amd_collecting st then c\<lparr>linked_amd_peer := active_peer env\<rparr> else c);
            c = (if amd_collecting st then c\<lparr>linked_amd_settle_ms := now_ms env\<rparr> else c);
            c = amd_dispatch env (linked_amd_peer c) txt ''LINKED'' c
        in if txt \<noteq> [] then reply_to_linked_amd env (linked_amd_peer c) c else c)"

definition commit_linked_amd :: "ctl_env \<Rightarrow> controller \<Rightarrow> controller" where
  "commit_linked_amd env c =
     (let c = c\<lparr>linked_amd_settle_ms := 0\<rparr>;
          (txt, st) = amd_flush (linked_amd c);
          c = amd_dispatch env (linked_amd_peer c) txt ''LINKED'' (c\<lparr>linked_amd := st\<rparr>);
          c = (if txt \<noteq> [] then reply_to_linked_amd env (linked_amd_peer c) c else c)
      in c\<lparr>linked_amd_peer := []\<rparr>)"

definition rx_accumulate_ack_amd :: "ctl_env \<Rightarrow> ale_word \<Rightarrow> controller \<Rightarrow> controller" where
  "rx_accumulate_ack_amd env w c =
     (if sm_state env \<noteq> HANDSHAKE \<or> hs_phase env \<noteq> HP_WAIT_ACK then
        let (txt, st) = amd_flush (ack_amd c)
        in amd_dispatch env (ack_amd_peer c) txt ''LINKED'' (c\<lparr>ack_amd := st\<rparr>)
      else
        let was_collecting = amd_collecting (ack_amd c);
            (txt, st) = amd_step w (ack_amd c);
            c = c\<lparr>ack_amd := st\<rparr>;
            c = (if \<not> was_collecting \<and> amd_collecting st then c\<lparr>ack_amd_peer := sm_caller_address env\<rparr> else c)
        in amd_dispatch env (ack_amd_peer c) txt ''LINKED'' c)"

definition commit_ack_amd :: "ctl_env \<Rightarrow> controller \<Rightarrow> controller" where
  "commit_ack_amd env c =
     (let (txt, st) = amd_flush (ack_amd c);
          c = amd_dispatch env (ack_amd_peer c) txt ''LINKED'' (c\<lparr>ack_amd := st\<rparr>)
      in c\<lparr>ack_amd_peer := []\<rparr>)"

section \<open>A message through the accumulator\<close>

fun amd_run :: "ale_word list \<Rightarrow> amd_accumulator \<Rightarrow> string list \<times> amd_accumulator" where
  "amd_run [] st = ([], st)"
| "amd_run (w # ws) st =
     (let (txt, st') = amd_step w st; (txts, st'') = amd_run ws st'
      in (if txt \<noteq> [] then txt # txts else txts, st''))"

lemma amd_run_append:
  "amd_run (ws @ vs) st = (let (ts, st') = amd_run ws st; (us, st'') = amd_run vs st' in (ts @ us, st''))"
  by (induction ws arbitrary: st) (auto simp: Let_def split: prod.splits)

text \<open>The words of a received message: the first is its command word, the rest its data words.\<close>

definition same_content :: "ale_word list \<Rightarrow> ale_word list \<Rightarrow> bool" where
  "same_content ws vs \<longleftrightarrow> map (\<lambda>w. (word_type w, raw_payload w)) ws = map (\<lambda>w. (word_type w, raw_payload w)) vs"

lemma amd_payload:
  assumes "length cs = 3" "list_all (valid_char DATA) cs"
  shows "raw_payload (amd_word k cs) = encode_ascii cs DATA"
proof -
  obtain a b c where cs: "cs = [a, b, c]" using three_chars [OF assms(1)] by blast
  have "encode_ascii cs DATA \<noteq> 0xFFFFFFFF" using encode_ascii_masked(2) [of DATA a b c] assms(2) by (simp add: cs)
  moreover have "valid_char REP = valid_char DATA" by (simp add: fun_eq_iff valid_char_def uses_basic38_def)
  ultimately show ?thesis using assms
    by (auto simp: amd_word_def make_cmd_amd_word_def make_word_eq alternating_def encode_ascii_def)
qed

lemma cmd_char_code_payload: "unat (cmd_char_code w) = of_char (payload_char (raw_payload w) 14)"
proof -
  have "unat (drop_bit 14 (raw_payload w) AND mask 7) < 2 ^ 7" by (rule unat_and_mask_less)
  then show ?thesis
    by (simp add: cmd_char_code_def payload_char_def mask_7 unsigned_ucast_eq take_bit_nat_eq_self)
qed

lemma step_starts:
  assumes "word_type w = CMD" "raw_payload w = encode_ascii cs DATA" "length cs = 3" "list_all (valid_char DATA) cs"
    and "cs \<noteq> ''DTM''" "cs \<noteq> ''DBM''" "\<not> amd_collecting st"
  shows "amd_step w st = ([], \<lparr> amd_collecting = True, amd_acc = cs \<rparr>)"
proof -
  obtain a b c where cs: "cs = [a, b, c]" using three_chars [OF assms(3)] by blast
  have d: "decode_ascii (raw_payload w) DATA = (True, [a, b, c, NUL])" "decode_ascii (raw_payload w) CMD = (True, [a, b, c, NUL])"
    using decode_encode_ascii [of DATA a b c] decode_cmd_encode [of a b c] assms(2,4) by (simp_all add: cs)
  then have "payload_char (raw_payload w) 14 = a" by (simp add: decode_ascii_def Let_def)
  moreover have "(of_char a :: nat) < 0x60"
    using assms(4) by (simp add: cs valid_char_def uses_basic38_def is_valid_expanded64_char_iff)
  ultimately have "unat (cmd_char_code w) < 0x60" by (simp add: cmd_char_code_payload)
  then have "cmd_char_code w \<noteq> 102" "cmd_char_code w \<noteq> 97" "cmd_char_code w \<noteq> 110" "cmd_char_code w \<noteq> 114" by auto
  then show ?thesis using d assms(1,5-7) by (auto simp: amd_step_def amd_flush_def cs Let_def)
qed

lemma step_continues:
  assumes "word_type w = DATA \<or> word_type w = REP" "raw_payload w = encode_ascii cs DATA" "length cs = 3"
    and "list_all (valid_char DATA) cs"
  shows "amd_step w \<lparr> amd_collecting = True, amd_acc = s \<rparr> = ([], \<lparr> amd_collecting = True, amd_acc = s @ cs \<rparr>)"
proof -
  obtain a b c where cs: "cs = [a, b, c]" using three_chars [OF assms(3)] by blast
  have "decode_ascii (raw_payload w) DATA = (True, [a, b, c, NUL])"
    using decode_encode_ascii [of DATA a b c] assms(2,4) by (simp add: cs)
  then show ?thesis using assms(1) by (auto simp: amd_step_def cs)
qed

lemma run_continues:
  assumes "list_all (\<lambda>(w, cs). (word_type w = DATA \<or> word_type w = REP) \<and> raw_payload w = encode_ascii cs DATA \<and>
      length cs = 3 \<and> list_all (valid_char DATA) cs) wcs"
  shows "amd_run (map fst wcs) \<lparr> amd_collecting = True, amd_acc = s \<rparr> = ([], \<lparr> amd_collecting = True, amd_acc = s @ concat (map snd wcs) \<rparr>)"
  using assms by (induction wcs arbitrary: s) (auto simp: step_continues)

text \<open>What is shown of a text: its first 90 characters, those outside the character set as question marks.\<close>

definition shown :: "string \<Rightarrow> string" where
  "shown txt = map text_char (take 90 txt)"

definition first_chars :: "string \<Rightarrow> string" where
  "first_chars txt = take 3 (shown txt @ ''  '')"

lemma trim_text_padded:
  assumes "s \<noteq> []" "\<not> blank (last s)"
  shows "trim_text (s @ replicate n (CHR '' '')) = s"
proof -
  have "\<not> list_all blank s" using assms by (auto simp: list_all_iff)
  moreover have "dropWhile blank (rev (replicate n (CHR '' '')) @ rev s) = dropWhile blank (rev s)"
    by (intro dropWhile_append2) (auto simp: blank_def)
  moreover have "dropWhile blank (rev s) = rev s" using assms by (cases s rule: rev_cases) auto
  ultimately show ?thesis by (simp add: trim_text_def)
qed

lemma message_run:
  assumes "txt \<noteq> []" "first_chars txt \<noteq> ''DTM''" "first_chars txt \<noteq> ''DBM''" "same_content ws (encode_amd txt)" "\<not> amd_collecting st"
  shows "\<exists>s. amd_run ws st = ([], \<lparr> amd_collecting = True, amd_acc = shown txt @ replicate s (CHR '' '') \<rparr>)"
proof -
  define n where "n = min (length txt) 90"
  define tr where "tr k = triplet text_char (CHR '' '') txt n (3 * k)" for k
  define m where "m = (n + 2) div 3"
  have "0 < n" using assms(1) by (simp add: n_def)
  then have "m \<noteq> 0" by (simp add: m_def)
  have enc: "encode_amd txt = map (\<lambda>k. amd_word k (tr k)) [0..<m]"
    by (simp add: encode_amd_map tr_def m_def n_def)
  have tr: "length (tr k) = 3" "list_all (valid_char DATA) (tr k)" for k
    by (simp_all add: tr_def triplet_text_valid)
  have kinds: "word_type (amd_word k (tr k)) = (if k = 0 then CMD else alternating k)" for k
    using amd_word_properties by (simp add: tr_def)
  have eq: "map (\<lambda>w. (word_type w, raw_payload w)) ws =
      map (\<lambda>k. (if k = 0 then CMD else alternating k, encode_ascii (tr k) DATA)) [0..<m]"
    using assms(4) by (simp add: same_content_def enc comp_def kinds amd_payload tr)
  then have len: "length ws = m" using map_eq_imp_length_eq by fastforce
  have at: "word_type (ws ! k) = (if k = 0 then CMD else alternating k)" "raw_payload (ws ! k) = encode_ascii (tr k) DATA" if "k < m" for k
    using arg_cong [OF eq, of "\<lambda>l. l ! k"] that len by simp_all
  have "concat (map tr [0..<m]) = shown txt @ replicate (3 * m - n) (CHR '' '')"
    using concat_triplets [of n "txt" text_char "CHR '' ''"] unfolding tr_def m_def shown_def n_def
    by (simp add: min_def split: if_splits)
  moreover have "[0..<m] = 0 # [1..<m]" using \<open>m \<noteq> 0\<close> by (simp add: upt_rec [of 0 m])
  ultimately have all: "tr 0 @ concat (map tr [1..<m]) = shown txt @ replicate (3 * m - n) (CHR '' '')" by simp
  have "tr 0 = take 3 (tr 0 @ concat (map tr [1..<m]))" by (simp add: tr)
  also have "\<dots> = first_chars txt"
  proof (cases "3 \<le> n")
    case True
    then have "3 \<le> length (shown txt)" by (simp add: shown_def n_def)
    then show ?thesis unfolding all by (simp add: first_chars_def)
  next
    case False
    have l: "length (shown txt) = n" by (simp add: shown_def n_def)
    from False \<open>0 < n\<close> consider "n = 1" | "n = 2" by linarith
    then show ?thesis
    proof cases
      case 1
      then have "length (shown txt) = Suc 0" using l by simp
      then obtain x where "shown txt = [x]" by (auto simp: length_Suc_conv)
      then show ?thesis unfolding all first_chars_def by (simp add: m_def 1 numeral_2_eq_2)
    next
      case 2
      then have "length (shown txt) = Suc (Suc 0)" using l by simp
      then obtain x y where "shown txt = [x, y]" by (auto simp: length_Suc_conv)
      then show ?thesis unfolding all first_chars_def by (simp add: m_def 2)
    qed
  qed
  finally have first: "tr 0 = first_chars txt" .
  obtain w0 rest where ws: "ws = w0 # rest" using len \<open>m \<noteq> 0\<close> by (cases ws) auto
  have "amd_step w0 st = ([], \<lparr> amd_collecting = True, amd_acc = tr 0 \<rparr>)"
    using at [of 0] \<open>m \<noteq> 0\<close> assms(2,3,5) tr [of 0] by (intro step_starts) (simp_all add: ws first)
  moreover have "amd_run (map fst (zip rest (map tr [1..<m]))) \<lparr> amd_collecting = True, amd_acc = tr 0 \<rparr>
      = ([], \<lparr> amd_collecting = True, amd_acc = tr 0 @ concat (map snd (zip rest (map tr [1..<m]))) \<rparr>)"
  proof (rule run_continues, rule list_all_length [THEN iffD2], intro allI impI)
    fix k
    assume "k < length (zip rest (map tr [1..<m]))"
    then have k: "k < length rest" "Suc k < m" using len ws by simp_all
    then show "case zip rest (map tr [1..<m]) ! k of (w, cs) \<Rightarrow> (word_type w = DATA \<or> word_type w = REP) \<and>
        raw_payload w = encode_ascii cs DATA \<and> length cs = 3 \<and> list_all (valid_char DATA) cs"
      using at [of "Suc k"] tr by (simp add: ws alternating_def)
  qed
  moreover have "length rest = length (map tr [1..<m])" using len ws by simp
  ultimately show ?thesis using all by (auto simp: ws Let_def)
qed

lemma prefix_ignored: "\<forall>w \<in> set ws. word_type w \<noteq> CMD \<Longrightarrow> \<not> amd_collecting st \<Longrightarrow> amd_run ws st = ([], st)"
  by (induction ws) (simp_all add: amd_step_def)

end
