(* ===== verification/Ctl_Link.thy ===== *)
theory Ctl_Link
  imports Ctl_Amd
begin

text \<open>
  Received words and the events of the state machine in the controller (\<open>src/App/ale_controller.cpp\<close>): the
  chain \<open>on_received_word\<close>, the call alert, the reaction to state changes and operator events, the measured
  quality of frames and its way into the database and the exchange with the peer, and the timers of
  \<open>tick_frame_settle\<close>, \<open>tick_relink\<close> and \<open>tick_sounding_sweep\<close>.
\<close>

unbundle bit_operations_syntax

section \<open>Received words\<close>


definition map_exchange :: "(lqa_exchange \<Rightarrow> lqa_exchange) \<Rightarrow> controller \<Rightarrow> controller" where
  "map_exchange f c = c\<lparr>exchange := f (exchange c)\<rparr>"




text \<open>A step of the frequency selection; its callback for a new call stores the address to call again.\<close>

definition efs_apply :: "(efs \<Rightarrow> efs) \<Rightarrow> controller \<Rightarrow> controller" where
  "efs_apply f c =
     (let s = f (freq_select c);
          new = drop (length (efs_outs (freq_select c))) (efs_outs s)
      in c\<lparr>freq_select := s,
           pending_relink_addr := fold (\<lambda>out addr. case out of Relink a \<Rightarrow> a | _ \<Rightarrow> addr) new (pending_relink_addr c)\<rparr>)"


definition commit_sounding_result :: "ctl_env \<Rightarrow> sounding_result \<Rightarrow> controller \<Rightarrow> controller" where
  "commit_sounding_result env r c =
     (if efs_is_self env (station r) then c
      else map_db (process_sounding (db_clock env) (prop_ctx env) (station r) (sr_frequency_hz r) (snr_db r)
             (sounding_result.ber r) (sr_sinad_db r) (twas_conclusion r) 0) c)"





section \<open>Measured frames\<close>

definition frame_measurement :: "rat \<Rightarrow> u8 \<Rightarrow> rat \<Rightarrow> u32 \<Rightarrow> measurement" where
  "frame_measurement snr votes sn words =
     \<lparr> m_snr = snr, m_ber = of_nat (unat votes), m_sinad = sn, m_multipath = 0, m_noise = -120, m_fec = 0, m_words = sint words \<rparr>"

definition acc_measurement :: "frame_quality \<Rightarrow> measurement" where
  "acc_measurement a = frame_measurement (snr_avg a) (ber_score (fq_ber a)) (sinad_avg a) (word_count (fq_ber a))"

definition commit_response_frame :: "ctl_env \<Rightarrow> controller \<Rightarrow> controller" where
  "commit_response_frame env c =
     (let c = (if lqa_enabled env \<and> word_count (fq_ber (hs_resp_acc c)) > 0 \<and> foreign env (sm_to_address env) \<and> hs_resp_freq_hz c > 0
               then map_db (update_entry_extended (db_clock env) (hs_resp_freq_hz c) (sm_to_address env) (acc_measurement (hs_resp_acc c)) 0) c
               else c)
      in c\<lparr>hs_resp_acc := fq_init, hs_resp_freq_hz := 0\<rparr>)"

definition commit_call_frame :: "ctl_env \<Rightarrow> controller \<Rightarrow> controller" where
  "commit_call_frame env c =
     (let c = (if lqa_enabled env \<and> word_count (fq_ber (hs_call_acc c)) > 0 \<and> foreign env (sm_caller_address env) \<and> hs_call_freq_hz c > 0
               then map_db (update_entry_extended (db_clock env) (hs_call_freq_hz c) (sm_caller_address env)
                      (acc_measurement (hs_call_acc c)) 0) c
               else c)
      in c\<lparr>hs_call_acc := fq_init, hs_call_freq_hz := 0\<rparr>)"

definition queue_call_quality :: "ctl_env \<Rightarrow> controller \<Rightarrow> controller" where
  "queue_call_quality env c =
     (let caller = sm_caller_address env;
          c = (if lqa_exchange_enabled env \<and> cur_freq env > 0 \<and> \<not> reporting_inhibited (configured env) (cur_freq env)
               then map_exchange (encode_outgoing (cur_freq env) caller False) c else c)
      in if lqa_exchange_enabled env \<and> \<not> reporting_inhibited (configured env) (cur_freq env)
         then map_exchange (\<lambda>x. snd (apply_pending (efs_is_self env) (db_clock env) caller True x)) c else c)"

definition maybe_emit_call_alert :: "ctl_env \<Rightarrow> controller \<Rightarrow> controller" where
  "maybe_emit_call_alert env c =
     (if call_alert_fired c \<or> sm_state env \<noteq> HANDSHAKE \<or> \<not> conclusion_rcvd env \<or> hs_phase env = HP_WAIT_CYCLE_END then c
      else ctl_emit (Call_Received (sm_caller_address env))
             (queue_call_quality env (commit_call_frame env (c\<lparr>call_alert_fired := True\<rparr>))))"



definition finalize_sounding :: "ctl_env \<Rightarrow> controller \<Rightarrow> controller" where
  "finalize_sounding env c =
     (let (res, sess) = sounding_finalize (sounding c); c = c\<lparr>sounding := sess\<rparr>
      in case res of None \<Rightarrow> c | Some r \<Rightarrow> commit_sounding_result env r c)"


section \<open>Messages to stations that are not linked\<close>

definition amd_confirm_clear :: "controller \<Rightarrow> controller" where
  "amd_confirm_clear c =
     c\<lparr>amd_retry_active := False, amd_attempts_remaining := 0, amd_retry_target := [], amd_retry_text := [],
       amd_retry_link_after_send := False, amd_retry_pending_recall := False, amd_retry_recall_after_ms := 0\<rparr>"

definition is_valid_ale_address :: "string \<Rightarrow> bool" where
  "is_valid_ale_address addr \<longleftrightarrow> 3 \<le> length addr \<and> length addr \<le> 15 \<and>
     list_all is_valid_basic38_char addr"

text \<open>One attempt; whether the call was placed.\<close>

definition attempt_amd_send :: "ctl_env \<Rightarrow> string \<Rightarrow> string \<Rightarrow> bool \<Rightarrow> controller \<Rightarrow> bool \<times> controller" where
  "attempt_amd_send env target txt link_after c =
     (let c = ctl_emit (Initiate_Call target) (ctl_emit (Set_Pending_Message txt link_after) c)
      in if call_accepted env then (True, c) else (False, amd_confirm_clear c))"

datatype send_result =
  Err_Empty | Broadcast_Requested | Err_No_Peer | Err_No_Characters | Sent_Linked string | Err_Address | Err_State | Queued string

definition send_amd :: "ctl_env \<Rightarrow> string \<Rightarrow> string \<Rightarrow> bool \<Rightarrow> controller \<Rightarrow> send_result \<times> controller" where
  "send_amd env target txt link_after c =
     (if txt = [] then (Err_Empty, c)
      else if target = ''ALLCALL'' then (Broadcast_Requested, c)
      else if sm_state env = LINKED then
        let peer = active_peer env
        in if peer = [] then (Err_No_Peer, c)
           else let to_words = encode_address peer TO; amd = encode_amd txt
             in if amd = [] then (Err_No_Characters, c)
                else (Sent_Linked peer, ctl_emit (Send_Linked_Amd (to_words @ to_words @ amd) peer (max 1 (amd_max_attempts env))) c)
      else if \<not> is_valid_ale_address target then (Err_Address, c)
      else
        let c = (amd_confirm_clear c)\<lparr>amd_retry_active := True, amd_attempts_remaining := max 1 (amd_max_attempts env),
              amd_retry_target := target, amd_retry_text := txt, amd_retry_link_after_send := link_after\<rparr>;
            (placed, c) = attempt_amd_send env target txt link_after c
        in (if placed then Queued target else Err_State, c))"

definition tick_amd_confirm :: "ctl_env \<Rightarrow> controller \<Rightarrow> controller" where
  "tick_amd_confirm env c =
     (if amd_retry_pending_recall c then
        if (sm_state env = IDLE \<or> sm_state env = SCANNING) \<and> now_ms env \<ge> amd_retry_recall_after_ms c \<and> pending_relink_addr c = []
        then let c = c\<lparr>amd_retry_pending_recall := False\<rparr>
          in snd (attempt_amd_send env (amd_retry_target c) (amd_retry_text c) (amd_retry_link_after_send c) c)
        else c
      else c)"

section \<open>Operator events\<close>

definition conclude_call :: "ctl_env \<Rightarrow> controller \<Rightarrow> controller" where
  "conclude_call env c =
     (let c = finalize_sounding env c
      in if lqa_exchange_enabled env then map_exchange (on_call_concluded (db_clock env)) c else c)"

definition amd_heard :: "controller \<Rightarrow> controller" where
  "amd_heard c = (if amd_retry_active c then amd_confirm_clear c else c)"

definition amd_not_heard :: "ctl_env \<Rightarrow> controller \<Rightarrow> controller" where
  "amd_not_heard env c =
     (if amd_retry_active c then
        if amd_attempts_remaining c > 1
        then c\<lparr>amd_attempts_remaining := amd_attempts_remaining c - 1, amd_retry_pending_recall := True,
               amd_retry_recall_after_ms := now_ms env + TT_NEXT_TRY_MS\<rparr>
        else amd_confirm_clear (ctl_emit (Amd_Not_Sent (amd_retry_target c)) c)
      else c)"

fun on_operator_event :: "ctl_env \<Rightarrow> operator_event \<Rightarrow> controller \<Rightarrow> controller" where
  "on_operator_event env LINK_ESTABLISHED c =
     (let c = commit_response_frame env c;
          c = (if lqa_exchange_enabled env \<and> \<not> reporting_inhibited (configured env) (cur_freq env)
               then map_exchange (\<lambda>x. snd (apply_pending (efs_is_self env) (db_clock env) (sm_to_address env) False x)) c else c);
          c = conclude_call env c;
          c = (if manual_accept_mode env then c\<lparr>pending_operator_accept := True\<rparr> else c);
          c = ctl_emit (Link_Up (measured_peer env)) (c\<lparr>link_start_ms := now_ms env\<rparr>)
      in amd_heard c)"
| "on_operator_event env CALL_REJECTED c =
     amd_heard (ctl_emit (Amd_Delivered (sm_to_address env)) (ctl_emit (Link_Down ''Call rejected'')
       (conclude_call env (commit_response_frame env c))))"
| "on_operator_event env NO_CHANNELS_LEFT c =
     (let c = finalize_sounding env (c\<lparr>hs_resp_acc := fq_init, hs_resp_freq_hz := 0\<rparr>);
          tgt = last_call_target (exchange c);
          c = (if lqa_exchange_enabled env
               then map_exchange (on_call_concluded (db_clock env))
                 (if tgt \<noteq> []
                  then map_db (fold (\<lambda>ch. record_handshake_fail (db_clock env) (rx_frequency_hz ch) tgt (now_ms env)) (configured env)) c
                  else c)
               else c)
      in amd_not_heard env (ctl_emit (Link_Down ''No reply'') c))"
| "on_operator_event env EMERGENCY_ACTIVE c = ctl_emit (Warning ''Emergency manual control active'') c"
| "on_operator_event env AMD_SENT_NO_LINK c =
     amd_heard (ctl_emit (Amd_No_Link (sm_to_address env)) (conclude_call env (commit_response_frame env c)))"
| "on_operator_event env AMD_RECEIVED_NO_LINK c = ctl_emit (Amd_No_Link (sm_caller_address env)) c"
| "on_operator_event env AMD_DELIVERED c = ctl_emit (Amd_Delivered (active_peer env)) c"
| "on_operator_event env AMD_RETRY c = c"
| "on_operator_event env AMD_NOT_DELIVERED c = ctl_emit (Amd_Not_Sent (active_peer env)) c"

section \<open>State changes\<close>

definition cancel_warning :: "ale_state \<Rightarrow> controller \<Rightarrow> controller" where
  "cancel_warning to c =
     (if sounding_warning_active c \<and> to \<in> {CALLING, HANDSHAKE, LINKED}
      then ctl_emit (Sounding_Warning (auto_sounding_net c) 0 ''cancel'') (c\<lparr>sounding_warning_active := False\<rparr>) else c)"

definition dispatch_all :: "ctl_env \<Rightarrow> string \<Rightarrow> string list \<Rightarrow> string \<Rightarrow> controller \<Rightarrow> controller" where
  "dispatch_all env peer txts context c = fold (\<lambda>m. amd_dispatch env peer m context) txts c"

definition leave_handshake :: "ctl_env \<Rightarrow> controller \<Rightarrow> controller" where
  "leave_handshake env c =
     (let (tail, st) = amd_flush (call_amd c);
          pending = (if tail \<noteq> [] then call_amd_pending c @ [tail] else call_amd_pending c);
          c = c\<lparr>call_amd := st\<rparr>;
          c = (if foreign env (sm_caller_address env)
               then dispatch_all env (sm_caller_address env) pending (handshake_call_context c) c else c)
      in c\<lparr>call_amd_pending := [], last_caller := [], call_alert_fired := False, hs_call_acc := fq_init, hs_call_freq_hz := 0\<rparr>)"

definition begin_handshake :: "ctl_env \<Rightarrow> controller \<Rightarrow> controller" where
  "begin_handshake env c =
     map_exchange on_handshake_start
       (c\<lparr>hs_call_acc := fq_init, hs_call_freq_hz := 0, call_amd := AmdAccumulator, call_amd_pending := [],
          handshake_call_context := (if allcall_handshake env then ''ALLCALL'' else ''INDIVIDUAL'')\<rparr>)"

definition leave_calling :: "ctl_env \<Rightarrow> controller \<Rightarrow> controller" where
  "leave_calling env c =
     (let (tail, st) = amd_flush (resp_amd c);
          pending = (if tail \<noteq> [] then resp_amd_pending c @ [tail] else resp_amd_pending c);
          c = c\<lparr>resp_amd := st\<rparr>;
          context = (if active_group env then ''GROUP'' else if active_net env then ''NET'' else ''INDIVIDUAL'');
          c = (if foreign env (measured_peer env) then dispatch_all env (measured_peer env) pending context c else c)
      in c\<lparr>resp_amd_pending := []\<rparr>)"

definition begin_calling :: "controller \<Rightarrow> controller" where
  "begin_calling c =
     map_exchange exchange_reset
       (c\<lparr>hs_resp_acc := fq_init, hs_resp_freq_hz := 0, resp_amd := AmdAccumulator, resp_amd_pending := []\<rparr>)"

definition to_noise_code :: "rat \<Rightarrow> u8" where
  "to_noise_code dbm =
     (if dbm \<le> -120 then 127 else let v = \<lfloor>dbm + 120\<rfloor> in if v < 0 \<or> v > 126 then 127 else of_int v)"

definition attach_noise :: "ctl_env \<Rightarrow> controller \<Rightarrow> controller" where
  "attach_noise env c =
     (if sm_channel env \<noteq> None \<and> lqa_exchange_enabled env then
        let max_code = to_noise_code (noise_max_dbm env); mean_code = to_noise_code (noise_mean_dbm env)
        in if max_code \<noteq> 127 \<or> mean_code \<noteq> 127
           then ctl_emit (Set_Noise_Cmd (raw_payload (hd (noise_cmd max_code mean_code)))) c else c
      else c)"

definition on_sm_state_change :: "ctl_env \<Rightarrow> ale_state \<Rightarrow> ale_state \<Rightarrow> controller \<Rightarrow> controller" where
  "on_sm_state_change env from to c =
     (let c = cancel_warning to c;
          c = (if from = HANDSHAKE then leave_handshake env c else c);
          c = (if to = HANDSHAKE then begin_handshake env c else c);
          c = (if from = CALLING then leave_calling env c else c);
          c = (if to = CALLING then begin_calling c else c);
          c = (if to = LINKED then map_exchange exchange_reset c else c);
          c = (if to = SOUNDING then attach_noise env c else c);
          c = (if from = SOUNDING \<and> to \<noteq> SOUNDING \<and> sounding_cycle_active c
               then c\<lparr>auto_sounding_last_ms := now_ms env, sounding_cycle_active := False, sounding_warning_sent := False\<rparr> else c)
      in if from = LINKED \<and> to \<noteq> LINKED
         then ctl_emit (Link_Down ''Link state exited'') (c\<lparr>link_start_ms := 0, pending_operator_accept := False\<rparr>) else c)"

section \<open>Timers\<close>

definition evaluate_relink :: "ctl_env \<Rightarrow> controller \<Rightarrow> controller" where
  "evaluate_relink env c =
     (if rx_ber_settle_ms c = 0 \<or> now_ms env - rx_ber_settle_ms c < Tdrw_ms * 4 then c
      else let peer = measured_peer env in
        if \<not> foreign env peer then c
        else case sm_channel env of
          None \<Rightarrow> c
        | Some ch \<Rightarrow>
            if rx_frequency_hz ch = 0 then c
            else case ranked env peer of
              [] \<Rightarrow> c
            | (best_freq, best_score) # _ \<Rightarrow>
                if best_freq \<noteq> rx_frequency_hz ch
                   \<and> best_score > first_score (rx_frequency_hz ch) (ranked env peer) + relink_threshold env
                then ctl_emit Sm_Terminate_Link (c\<lparr>pending_relink_addr := peer\<rparr>) else c)"

definition tick_relink :: "ctl_env \<Rightarrow> controller \<Rightarrow> controller" where
  "tick_relink env c =
     (let c = (if (relink_enabled env \<or> enhanced_freq_select env) \<and> lqa_enabled env \<and> sm_state env = LINKED
                  \<and> pending_relink_addr c = [] \<and> efs_is_idle (freq_select c)
               then if enhanced_freq_select env
                    then efs_apply (efs_evaluate (efs_part env) (now_ms env) (rx_ber_settle_ms c) (relink_threshold env)) c
                    else evaluate_relink env c
               else c);
          c = efs_apply (efs_tick (now_ms env)) c;
          c = tick_amd_confirm env c
      in if pending_relink_addr c \<noteq> [] \<and> (sm_state env = IDLE \<or> sm_state env = SCANNING)
         then ctl_emit (Initiate_Call (pending_relink_addr c)) (c\<lparr>pending_relink_addr := []\<rparr>) else c)"

section \<open>Periodic soundings\<close>

text \<open>The milliseconds to the next sweep, negative when it is overdue.\<close>

definition sounding_remaining :: "ctl_env \<Rightarrow> controller \<Rightarrow> int" where
  "sounding_remaining env c = sint (auto_sounding_interval_ms c) - sint (now_ms env - auto_sounding_last_ms c)"

definition sounding_warn :: "ctl_env \<Rightarrow> controller \<Rightarrow> controller" where
  "sounding_warn env c =
     (let remaining = sounding_remaining env c
      in if sm_state env = IDLE \<and> sounding_warning_lead_ms c > 0 \<and> remaining > 0
            \<and> remaining \<le> uint (sounding_warning_lead_ms c) \<and> \<not> sounding_warning_sent c
         then ctl_emit (Sounding_Warning (auto_sounding_net c) ((of_int remaining + 999) div 1000) ''warn'')
                (c\<lparr>sounding_warning_sent := True, sounding_warning_active := True\<rparr>)
         else c)"

definition sounding_fire :: "ctl_env \<Rightarrow> controller \<Rightarrow> controller" where
  "sounding_fire env c =
     (let channels = sounding_channels env (auto_sounding_net c);
          c = ctl_emit (Set_Target_Scan (calling_width env (auto_sounding_net c))) c
      in if sm_self_address env = [] then c\<lparr>auto_sounding_last_ms := now_ms env\<rparr>
         else let c = (if channels \<noteq> [] then ctl_emit (Send_Sweep channels) c else c);
                  c = (if channels \<noteq> [] \<and> sweep_accepted env then c\<lparr>sounding_cycle_active := True\<rparr>
                       else c\<lparr>auto_sounding_last_ms := now_ms env\<rparr>);
                  c = c\<lparr>sounding_warning_sent := False\<rparr>
           in if sounding_warning_active c
              then ctl_emit (Sounding_Started (auto_sounding_net c))
                     (ctl_emit (Sounding_Warning (auto_sounding_net c) 0 ''fire'') (c\<lparr>sounding_warning_active := False\<rparr>))
              else c)"

definition tick_sounding_sweep :: "ctl_env \<Rightarrow> controller \<Rightarrow> controller" where
  "tick_sounding_sweep env c =
     (if \<not> auto_sounding_on c \<or> auto_sounding_net c = [] \<or> auto_sounding_interval_ms c = 0 then c
      else if sm_state env = SOUNDING then c
      else let due = sounding_remaining env c \<le> 0; c = sounding_warn env c
        in if due \<and> (sm_state env = IDLE \<or> sm_state env = SCANNING) then sounding_fire env c else c)"

definition set_automatic_sounding :: "ctl_env \<Rightarrow> bool \<Rightarrow> string \<Rightarrow> controller \<Rightarrow> controller" where
  "set_automatic_sounding env on net_name c =
     (let new_on = on \<and> net_name \<noteq> []; new_net = (if on then net_name else [])
      in if new_on = auto_sounding_on c \<and> new_net = auto_sounding_net c then c
         else let c = (if sounding_warning_active c then ctl_emit (Sounding_Warning (auto_sounding_net c) 0 ''cancel'') c else c);
                  c = c\<lparr>sounding_warning_sent := False, sounding_warning_active := False, auto_sounding_on := new_on, auto_sounding_net := new_net\<rparr>
           in if new_on then c\<lparr>auto_sounding_interval_ms := net_interval_sec env net_name * 1000, auto_sounding_last_ms := now_ms env\<rparr>
              else c\<lparr>auto_sounding_interval_ms := 0\<rparr>)"

definition refresh_auto_sounding_interval :: "ctl_env \<Rightarrow> controller \<Rightarrow> controller" where
  "refresh_auto_sounding_interval env c =
     (if \<not> auto_sounding_on c \<or> auto_sounding_net c = [] then c
      else c\<lparr>auto_sounding_interval_ms := net_interval_sec env (auto_sounding_net c) * 1000\<rparr>)"

definition set_sounding_warning_lead_sec :: "u32 \<Rightarrow> controller \<Rightarrow> controller" where
  "set_sounding_warning_lead_sec sec c = c\<lparr>sounding_warning_lead_ms := sec * 1000\<rparr>"

definition interrupt_sounding :: "ctl_env \<Rightarrow> string \<Rightarrow> controller \<Rightarrow> controller" where
  "interrupt_sounding env net c =
     (if net \<noteq> auto_sounding_net c then c
      else if sm_state env = SOUNDING then c
      else let c = c\<lparr>auto_sounding_last_ms := now_ms env, sounding_warning_sent := False\<rparr>
        in if sounding_warning_active c
           then ctl_emit (Sounding_Warning net 0 ''cancel'') (c\<lparr>sounding_warning_active := False\<rparr>) else c)"

section \<open>What the response says about the call\<close>

lemma ctl_emit_fields [simp]: "exchange (ctl_emit out c) = exchange c"
  by (simp add: ctl_emit_def)

lemma apply_pending_outs: "\<exists>rest. x_outs (snd (apply_pending me clock peer queue x)) = x_outs x @ rest"
  by (auto simp: apply_pending_def exchange_emit_def Let_def)

lemma small_and_mask: "unat x < 2 ^ n \<Longrightarrow> (x :: 'a::len word) AND mask n = x"
  by (simp add: word_unat_eq_iff unat_and_mask)

lemma sint_of_small: "0 < w \<Longrightarrow> unat w < 2 ^ 31 \<Longrightarrow> 0 < sint (w :: u32)"
proof -
  assume w: "0 < w" "unat w < 2 ^ 31"
  have u: "uint w = int (unat w)" by simp
  have "signed_take_bit 31 (uint w) = uint w"
    using w(2) by (intro signed_take_bit_int_eq_self) (simp_all add: u del: of_nat_unat)
  then show ?thesis using w(1) by (simp add: sint_uint word_less_def)
qed

lemma ber_score_le: "unat (ber_score a) \<le> 48"
proof -
  have "unat (ucast (if x > 48 then 48 else x) :: u8) \<le> 48" for x :: u32
  proof -
    have "unat (ucast (if x > 48 then 48 else x) :: u8) \<le> unat (if x > 48 then 48 else x)"
      by (simp add: unsigned_ucast_eq take_bit_nat_less_eq_self)
    also have "\<dots> \<le> 48" by (auto simp: word_less_nat_alt)
    finally show ?thesis .
  qed
  then show ?thesis by (simp only: ber_score_def Let_def) simp
qed

text \<open>
  What a value of the entry becomes with one more frame: the measured value where there is no entry yet, else the
  average over the entry that weighs the older samples by their age.
\<close>

definition averaged :: "(lqa_entry \<Rightarrow> rat) \<Rightarrow> rat \<Rightarrow> u32 \<Rightarrow> string \<Rightarrow> lqa_database \<Rightarrow> rat" where
  "averaged field new f s db =
     (case get_entry f s db of None \<Rightarrow> new | Some e \<Rightarrow> time_weighted_average (db_config db) (field e) new (sample_count e))"

lemma updated_entry:
  assumes "db_inv db" "s \<noteq> []" "0 < m_words m" "\<forall>old. get_entry f s db = Some old \<longrightarrow> 0 \<le> le_total_words old"
  obtains e where "get_entry f s (update_entry_extended clock f s m t db) = Some e"
    "le_sinad e = averaged le_sinad (m_sinad m) f s db" "le_ber e = averaged le_ber (m_ber m) f s db"
    "le_multipath e = averaged le_multipath (m_multipath m) f s db" "0 < le_total_words e"
proof -
  have s: "sorted_entries (db_entries db)" "length (db_entries db) \<le> kCapacity" using assms(1) by (simp_all add: db_inv_def)
  note put = map_of_put_entry [OF s(1)] map_of_put_entry [OF evict_oldest(1) [OF s]]
  show ?thesis
  proof (cases "get_entry f s db")
    case None
    then show ?thesis
      using assms(2,3) by (intro that) (auto simp: averaged_def get_entry_def update_entry_extended_def Let_def put scored_def stamp_activity_def)
  next
    case (Some old)
    then show ?thesis
      using assms(2-4) by (intro that) (auto simp: averaged_def get_entry_def update_entry_extended_def Let_def put scored_def stamp_activity_def)
  qed
qed

lemma score_in_votes: "trunc_u8 (min 48 (max 0 (of_nat (unat (ber_score a))))) = ber_score a"
proof -
  define n where "n = unat (ber_score a)"
  have "(of_nat n :: rat) \<le> of_nat 48" unfolding of_nat_le_iff using ber_score_le [of a] by (simp add: n_def)
  then have "min 48 (max 0 (of_nat n)) = (of_nat n :: rat)" by simp
  moreover have "trunc_u8 (of_nat n) = ber_score a" by (simp add: trunc_u8_def) (simp add: n_def)
  ultimately show ?thesis by (simp add: n_def)
qed

text \<open>
  C9. The called station answers with what it measured: at the alert of a call the frame's quality goes into
  the database first, and the command word of the response, as the caller decodes it, carries the codes of the
  caller's entry on the channel with this frame averaged in; they are the codes of the frame itself when the caller
  was not heard on the channel before.
\<close>

theorem response_reports_call:
  assumes "\<not> call_alert_fired c" "sm_state env = HANDSHAKE" "conclusion_rcvd env" "hs_phase env \<noteq> HP_WAIT_CYCLE_END"
    and "lqa_enabled env" "lqa_exchange_enabled env" "s = sm_caller_address env" "foreign env s"
    and "f = cur_freq env" "f = hs_call_freq_hz c" "0 < f" "\<not> reporting_inhibited (configured env) f"
    and "db_inv (ctl_db c)" "\<forall>old. get_entry f s (ctl_db c) = Some old \<longrightarrow> 0 \<le> le_total_words old"
    and "q = hs_call_acc c" "0 < word_count (fq_ber q)" "unat (word_count (fq_ber q)) < 2 ^ 31"
    and "votes = averaged le_ber (of_nat (unat (ber_score (fq_ber q)))) f s (ctl_db c)"
    and "snd_db = averaged le_sinad (sinad_avg q) f s (ctl_db c)" "paths = averaged le_multipath 0 f s (ctl_db c)"
  shows "\<exists>word rest. x_outs (exchange (maybe_emit_call_alert env c)) = x_outs (exchange c) @ Queue_Cmd_A word # rest \<and>
    decode_lqa_cmd word = \<lparr> cmd_ber = ber_score_to_lqa_code (trunc_u8 (min 48 (max 0 votes))),
      cmd_sinad = (if snd_db \<le> 0 then 31 else if 30 \<le> snd_db then 30 else trunc_u8 (snd_db + 1 / 2)),
      cmd_mp = (if paths \<le> 0 then 7 else multipath_delay_to_lqa_code (paths * 6)), cmd_ka1 = False \<rparr> \<and>
    (get_entry f s (ctl_db c) = None \<and> 0 < sinad_avg q \<longrightarrow>
      decode_lqa_cmd word = \<lparr> cmd_ber = ber_score_to_lqa_code (ber_score (fq_ber q)),
        cmd_sinad = (if 30 \<le> sinad_avg q then 30 else trunc_u8 (sinad_avg q + 1 / 2)), cmd_mp = 7, cmd_ka1 = False \<rparr>)"
proof -
  let ?x = "exchange c"
  have s: "s \<noteq> []" using assms(8) by (simp add: foreign_def)
  define x where "x = ?x\<lparr>x_db := update_entry_extended (db_clock env) f s (acc_measurement q) 0 (x_db ?x)\<rparr>"
  have words: "0 < sint (word_count (fq_ber q))"
    using assms(16,17) by (rule sint_of_small)
  obtain e where e: "get_entry f s (x_db x) = Some e" "le_sinad e = snd_db" "le_ber e = votes" "le_multipath e = paths"
      "0 < le_total_words e"
    using updated_entry [of "ctl_db c" s "acc_measurement q" f "db_clock env" 0] assms(13,14,18-20) s words
    by (auto simp: x_def ctl_db_def acc_measurement_def frame_measurement_def)
  let ?P = "\<lparr> cmd_ber = ber_score_to_lqa_code (trunc_u8 (min 48 (max 0 votes))),
      cmd_sinad = (if snd_db \<le> 0 then 31 else if 30 \<le> snd_db then 30 else trunc_u8 (snd_db + 1 / 2)),
      cmd_mp = (if paths \<le> 0 then 7 else multipath_delay_to_lqa_code (paths * 6)), cmd_ka1 = False \<rparr>"
  have p: "(build_payload f s (x\<lparr>sent_ka1 := False, last_call_target := [], last_call_freq := 0\<rparr>))\<lparr>cmd_ka1 := False\<rparr> = ?P"
    using s e by (simp add: build_payload_def Let_def vote_code_def init_lqa_cmd_payload_def kMpLqaNotMeasured_def kSinadLqaNoValue_def)
  have small: "unat (cmd_ber ?P) < 2 ^ 5" "unat (cmd_sinad ?P) < 2 ^ 5" "unat (cmd_mp ?P) < 2 ^ 3"
    using trunc_u8_bound [of "snd_db + 1 / 2" 30] multipath_code_le [of "paths * 6"]
    by (auto simp: ber_score_to_lqa_code_def word_le_nat_alt)
  then have dec: "decode_lqa_cmd (encode_lqa_cmd ?P) = ?P"
    using lqa_cmd_roundtrip [of ?P, THEN conjunct1]
    unfolding small_and_mask [OF small(1)] small_and_mask [OF small(2)] small_and_mask [OF small(3)] by simp
  have out: "x_outs (encode_outgoing f s False x) = x_outs ?x @ [Queue_Cmd_A (encode_lqa_cmd ?P)]"
    unfolding encode_outgoing_def Let_def p by (simp add: exchange_emit_def x_def)
  have ex: "exchange (maybe_emit_call_alert env c) = snd (apply_pending (efs_is_self env) (db_clock env) s True (encode_outgoing f s False x))"
  proof -
    have "exchange (commit_call_frame env (c\<lparr>call_alert_fired := True\<rparr>)) = x"
      using assms(5-12,16) by (simp add: commit_call_frame_def map_db_def x_def assms(15))
    moreover have "exchange (queue_call_quality env d) = snd (apply_pending (efs_is_self env) (db_clock env) s True (encode_outgoing f s False (exchange d)))"
      for d using assms(6,7,9-12) by (simp add: queue_call_quality_def map_exchange_def Let_def)
    ultimately show ?thesis using assms(1-4) by (simp add: maybe_emit_call_alert_def)
  qed
  obtain rest where outs: "x_outs (exchange (maybe_emit_call_alert env c)) = x_outs ?x @ Queue_Cmd_A (encode_lqa_cmd ?P) # rest"
    unfolding ex using apply_pending_outs [of "efs_is_self env" "db_clock env" s True "encode_outgoing f s False x"] out by auto
  have first: "?P = \<lparr> cmd_ber = ber_score_to_lqa_code (ber_score (fq_ber q)),
        cmd_sinad = (if 30 \<le> sinad_avg q then 30 else trunc_u8 (sinad_avg q + 1 / 2)), cmd_mp = 7, cmd_ka1 = False \<rparr>"
    if "get_entry f s (ctl_db c) = None" "0 < sinad_avg q"
    using that assms(18-20) score_in_votes [of "fq_ber q"] by (simp add: averaged_def)
  show ?thesis using outs dec first by metis
qed

definition called_by_sam :: controller where
  "called_by_sam = (init_controller init_database)\<lparr>hs_call_acc := \<lparr> fq_ber = \<lparr> running_sum = 9, word_count = 3 \<rparr>,
     snr_sum = 30, sinad_sum = 36, pending_count = 0, pending_snr = 0, pending_sinad = 0 \<rparr>, hs_call_freq_hz := 7000000\<rparr>"

definition call_from_sam :: ctl_env where
  "call_from_sam = (station_env HANDSHAKE)\<lparr>sm_caller_address := ''SAM'', conclusion_rcvd := True, hs_phase := HP_SLOT_WAIT\<rparr>"

theorem response_reports_call_witness:
  "\<exists>word rest. x_outs (exchange (maybe_emit_call_alert call_from_sam called_by_sam)) = Queue_Cmd_A word # rest \<and>
    decode_lqa_cmd word = \<lparr> cmd_ber = 3, cmd_sinad = 12, cmd_mp = 7, cmd_ka1 = False \<rparr>"
proof -
  have f: "\<lfloor>25 / 2 :: rat\<rfloor> = 12" by (simp add: floor_unique)
  have q: "ber_score_to_lqa_code (ber_score (fq_ber (hs_call_acc called_by_sam))) = 3" "sinad_avg (hs_call_acc called_by_sam) = 12"
    "word_count (fq_ber (hs_call_acc called_by_sam)) = 3"
    by (simp_all add: called_by_sam_def ber_score_def ber_score_to_lqa_code_def sinad_avg_def)
  have h: "\<not> call_alert_fired called_by_sam" "sm_state call_from_sam = HANDSHAKE" "conclusion_rcvd call_from_sam"
    "hs_phase call_from_sam \<noteq> HP_WAIT_CYCLE_END" "lqa_enabled call_from_sam" "lqa_exchange_enabled call_from_sam"
    "foreign call_from_sam (sm_caller_address call_from_sam)" "cur_freq call_from_sam = hs_call_freq_hz called_by_sam"
    "0 < cur_freq call_from_sam" "\<not> reporting_inhibited (configured call_from_sam) (cur_freq call_from_sam)"
    "db_inv (ctl_db called_by_sam)" "x_outs (exchange called_by_sam) = []"
    by (simp_all add: called_by_sam_def call_from_sam_def station_env_def init_controller_def foreign_def reporting_inhibited_def
        channel_has_def find_channel_by_freq_def db_inv_def init_database_def sorted_entries_def ctl_db_def LqaExchangeManager_def)
  have none: "get_entry (cur_freq call_from_sam) (sm_caller_address call_from_sam) (ctl_db called_by_sam) = None"
    by (simp add: called_by_sam_def init_controller_def init_database_def ctl_db_def LqaExchangeManager_def get_entry_def)
  have t: "trunc_u8 (25 / 2) = 12" using f by (simp add: trunc_u8_def)
  have w: "0 < word_count (fq_ber (hs_call_acc called_by_sam))" "unat (word_count (fq_ber (hs_call_acc called_by_sam))) < 2 ^ 31"
    by (simp_all add: q)
  obtain word rest where "x_outs (exchange (maybe_emit_call_alert call_from_sam called_by_sam)) = Queue_Cmd_A word # rest"
    "0 < sinad_avg (hs_call_acc called_by_sam) \<longrightarrow> decode_lqa_cmd word =
       \<lparr> cmd_ber = ber_score_to_lqa_code (ber_score (fq_ber (hs_call_acc called_by_sam))),
         cmd_sinad = (if 30 \<le> sinad_avg (hs_call_acc called_by_sam) then 30 else trunc_u8 (sinad_avg (hs_call_acc called_by_sam) + 1 / 2)),
         cmd_mp = 7, cmd_ka1 = False \<rparr>"
    using response_reports_call [where c = called_by_sam and env = call_from_sam,
        OF h(1-6) refl h(7) refl h(8-11) _ refl w refl refl refl] none h(12) by auto
  then show ?thesis by (simp add: q t)
qed

section \<open>A message over a link\<close>



definition heard_words :: "(ctl_env \<times> ale_word option) list \<Rightarrow> ale_word list" where
  "heard_words es = concat (map (\<lambda>ev. case snd ev of Some w \<Rightarrow> [w] | None \<Rightarrow> []) es)"

lemma heard_words_simps [simp]:
  "heard_words [] = []" "heard_words ((env, Some w) # es) = w # heard_words es" "heard_words ((env, None) # es) = heard_words es"
  "heard_words (es @ es') = heard_words es @ heard_words es'"
  by (simp_all add: heard_words_def)













end
