(* ===== verification/Ctl_Retry.thy ===== *)
theory Ctl_Retry
  imports Ctl_Link
begin

text \<open>
  Calls that are not answered: how often a message to a station that is not linked is tried, when a retry is
  lost, and what the database keeps of a failed call (\<open>send_amd\<close>, \<open>tick_amd_confirm\<close>, \<open>on_operator_event\<close> of
  \<open>src/App/ale_controller.cpp\<close>).
\<close>

section \<open>Tries of a message\<close>

lemma ctl_emit_outs [simp]: "ctl_outs (ctl_emit out c) = ctl_outs c @ [out]"
  by (simp add: ctl_emit_def)

lemma map_parts_outs [simp]:
  "ctl_outs (map_db f c) = ctl_outs c" "ctl_outs (map_exchange g c) = ctl_outs c"
  by (simp_all add: map_db_def map_exchange_def)

lemma finalize_outs [simp]: "ctl_outs (finalize_sounding env c) = ctl_outs c"
  by (simp add: finalize_sounding_def commit_sounding_result_def Let_def split: prod.splits option.splits)

text \<open>What a step leaves of the retry and of the relink.\<close>

definition same_retry :: "controller \<Rightarrow> controller \<Rightarrow> bool" where
  "same_retry c d \<longleftrightarrow> amd_retry_active d = amd_retry_active c \<and> amd_attempts_remaining d = amd_attempts_remaining c
     \<and> amd_retry_target d = amd_retry_target c \<and> amd_retry_text d = amd_retry_text c
     \<and> amd_retry_link_after_send d = amd_retry_link_after_send c \<and> pending_relink_addr d = pending_relink_addr c"

lemma same_retry_steps:
  "same_retry c (finalize_sounding env c)" "same_retry c (map_db f c)" "same_retry c (map_exchange g c)" "same_retry c (ctl_emit out c)"
  by (simp_all add: same_retry_def finalize_sounding_def commit_sounding_result_def map_db_def map_exchange_def ctl_emit_def Let_def
      split: prod.splits option.splits)

text \<open>The event of a call that nobody answered, but for the retry.\<close>

definition no_reply_recorded :: "ctl_env \<Rightarrow> controller \<Rightarrow> controller" where
  "no_reply_recorded env c =
     (let c = finalize_sounding env (c\<lparr>hs_resp_acc := fq_init, hs_resp_freq_hz := 0\<rparr>); tgt = last_call_target (exchange c)
      in if lqa_exchange_enabled env
         then map_exchange (on_call_concluded (db_clock env))
           (if tgt \<noteq> []
            then map_db (fold (\<lambda>ch. record_handshake_fail (db_clock env) (rx_frequency_hz ch) tgt (now_ms env)) (configured env)) c
            else c)
         else c)"

lemma no_channels_left:
  "on_operator_event env NO_CHANNELS_LEFT c = amd_not_heard env (ctl_emit (Link_Down ''No reply'') (no_reply_recorded env c))"
  by (simp add: no_reply_recorded_def Let_def)

lemma no_reply_recorded:
  "ctl_outs (no_reply_recorded env c) = ctl_outs c" "same_retry c (no_reply_recorded env c)"
  using same_retry_steps
  by (auto simp: no_reply_recorded_def same_retry_def Let_def)

text \<open>One try that nobody answers, then the tick that tries again.\<close>

definition unanswered_try :: "ctl_env \<times> ctl_env \<Rightarrow> controller \<Rightarrow> controller" where
  "unanswered_try = (\<lambda>(e, t) c. tick_amd_confirm t (on_operator_event e NO_CHANNELS_LEFT c))"

text \<open>The tick comes when the next try is due; the state machine may still refuse the call.\<close>

definition retry_due :: "ctl_env \<times> ctl_env \<Rightarrow> bool" where
  "retry_due = (\<lambda>(e, t). (sm_state t = IDLE \<or> sm_state t = SCANNING) \<and> now_ms t \<ge> now_ms e + TT_NEXT_TRY_MS)"

definition may_try_again :: "ctl_env \<times> ctl_env \<Rightarrow> bool" where
  "may_try_again r \<longleftrightarrow> retry_due r \<and> call_accepted (snd r)"

definition retrying :: "string \<Rightarrow> string \<Rightarrow> bool \<Rightarrow> u32 \<Rightarrow> controller \<Rightarrow> bool" where
  "retrying tgt txt link n c \<longleftrightarrow> amd_retry_active c \<and> amd_attempts_remaining c = n \<and> amd_retry_target c = tgt \<and> amd_retry_text c = txt
     \<and> amd_retry_link_after_send c = link \<and> pending_relink_addr c = []"

abbreviation try_outs :: "string \<Rightarrow> string \<Rightarrow> bool \<Rightarrow> ctl_output list" where
  "try_outs tgt txt link \<equiv> [Set_Pending_Message txt link, Initiate_Call tgt]"

lemma due_again:
  assumes "retrying tgt txt link n c" "1 < n" "retry_due r"
  shows "ctl_outs (unanswered_try r c) = ctl_outs c @ Link_Down ''No reply'' # try_outs tgt txt link"
    "call_accepted (snd r) \<Longrightarrow> retrying tgt txt link (n - 1) (unanswered_try r c)"
    "\<not> call_accepted (snd r) \<Longrightarrow> \<not> amd_retry_active (unanswered_try r c) \<and> \<not> amd_retry_pending_recall (unanswered_try r c)"
proof -
  obtain e t where r: "r = (e, t)" by (cases r)
  let ?d = "on_operator_event e NO_CHANNELS_LEFT c"
  note nr = no_reply_recorded [where env = e and c = c, unfolded same_retry_def]
  have d: "amd_retry_active ?d" "amd_attempts_remaining ?d = n - 1" "amd_retry_target ?d = tgt" "amd_retry_text ?d = txt"
      "amd_retry_link_after_send ?d = link" "pending_relink_addr ?d = []" "amd_retry_pending_recall ?d"
      "amd_retry_recall_after_ms ?d = now_ms e + TT_NEXT_TRY_MS" "ctl_outs ?d = ctl_outs c @ [Link_Down ''No reply'']"
    using assms(1,2) nr unfolding no_channels_left
    by (simp_all add: retrying_def amd_not_heard_def ctl_emit_def)
  show "ctl_outs (unanswered_try r c) = ctl_outs c @ Link_Down ''No reply'' # try_outs tgt txt link"
    "call_accepted (snd r) \<Longrightarrow> retrying tgt txt link (n - 1) (unanswered_try r c)"
    "\<not> call_accepted (snd r) \<Longrightarrow> \<not> amd_retry_active (unanswered_try r c) \<and> \<not> amd_retry_pending_recall (unanswered_try r c)"
    using assms(3) d unfolding r
    by (auto simp: retry_due_def unanswered_try_def tick_amd_confirm_def attempt_amd_send_def Let_def retrying_def ctl_emit_def
        amd_confirm_clear_def simp del: on_operator_event.simps)
qed

lemmas tried_again = due_again(1,2)

lemma all_tries:
  assumes "retrying tgt txt link n c" "length rs < unat n" "list_all may_try_again rs"
  shows "retrying tgt txt link (n - of_nat (length rs)) (fold unanswered_try rs c) \<and>
    ctl_outs (fold unanswered_try rs c) = ctl_outs c @ concat (map (\<lambda>_. Link_Down ''No reply'' # try_outs tgt txt link) rs)"
  using assms
proof (induction rs arbitrary: n c)
  case (Cons r rs)
  have n: "1 < unat n" using Cons.prems(2) by simp
  then have m: "1 < n" "unat (n - 1) = unat n - 1" using unat_minus_one [of n] by (auto simp: word_less_nat_alt word_neq_0_conv)
  have due: "retry_due r" "call_accepted (snd r)" using Cons.prems(3) by (simp_all add: may_try_again_def)
  note step = tried_again(1) [OF Cons.prems(1) m(1) due(1)] tried_again(2) [OF Cons.prems(1) m(1) due]
  have "n - 1 - of_nat (length rs) = n - of_nat (length (r # rs))" by simp
  then show ?case
    using Cons.IH [of "n - 1" "unanswered_try r c"] step Cons.prems(2,3) m n by (auto simp: algebra_simps)
qed simp

lemma separated: "xs @ concat (map (\<lambda>_. y # xs) rs) @ [y] = concat (replicate (Suc (length rs)) (xs @ [y]))"
  by (induction rs) simp_all

text \<open>
  C25. A message to a station that is not linked, when nobody answers: as long as every retry finds its call accepted it
  is tried as often as configured - the trace holds \<open>max 1 n\<close> calls - and then its sender is told, once, and nothing is
  left to retry. A retry whose call the state machine refuses ends it at that try: nothing is left to retry either, and
  the sender is not told.
\<close>

theorem unheard_message_reported:
  assumes "msg \<noteq> []" "tgt \<noteq> ''ALLCALL''" "sm_state env \<noteq> LINKED" "is_valid_ale_address tgt" "call_accepted env"
    and "pending_relink_addr c = []" "n = unat (max 1 (amd_max_attempts env))"
    and "length rs < n" "list_all may_try_again rs" "s = fold unanswered_try rs (snd (send_amd env tgt msg link c))"
  shows "fst (send_amd env tgt msg link c) = Queued tgt \<and>
    (length rs = n - 1 \<longrightarrow>
      (let d = on_operator_event e NO_CHANNELS_LEFT s
       in \<not> amd_retry_active d \<and> tick_amd_confirm t d = d \<and>
          ctl_outs d = ctl_outs c @ concat (replicate n (try_outs tgt msg link @ [Link_Down ''No reply''])) @ [Amd_Not_Sent tgt])) \<and>
    (length rs < n - 1 \<and> retry_due r \<and> \<not> call_accepted (snd r) \<longrightarrow>
      (let d = unanswered_try r s
       in \<not> amd_retry_active d \<and> tick_amd_confirm t d = d \<and>
          ctl_outs d = ctl_outs c @ concat (replicate (length rs + 1) (try_outs tgt msg link @ [Link_Down ''No reply''])) @ try_outs tgt msg link))"
proof -
  let ?c = "snd (send_amd env tgt msg link c)" and ?n = "max 1 (amd_max_attempts env)" and ?attempt = "try_outs tgt msg link"
  have sent: "fst (send_amd env tgt msg link c) = Queued tgt" "retrying tgt msg link ?n ?c" "ctl_outs ?c = ctl_outs c @ ?attempt"
    using assms(1-6) by (simp_all add: send_amd_def amd_confirm_clear_def attempt_amd_send_def Let_def retrying_def ctl_emit_def)
  note tries = all_tries [OF sent(2) assms(8) [unfolded assms(7)] assms(9), folded assms(10)]
  note run = tries [THEN conjunct1] tries [THEN conjunct2]
  have "unat ?n < 2 ^ LENGTH(32)" by (rule unsigned_less)
  then have small: "length rs < 2 ^ 32" using assms(7,8) by simp
  then have k: "unat (of_nat (length rs) :: u32) = length rs" by (simp add: unsigned_of_nat take_bit_nat_eq_self)
  then have "of_nat (length rs) \<le> ?n" using assms(7,8) by (simp add: word_le_nat_alt)
  then have left: "unat (?n - of_nat (length rs)) = n - length rs" using k assms(7) by (simp add: unat_sub)
  have nr: "ctl_outs (no_reply_recorded e s) = ctl_outs s" "same_retry s (no_reply_recorded e s)" by (rule no_reply_recorded)+
  have told: "\<not> amd_retry_active d \<and> tick_amd_confirm t d = d \<and>
      ctl_outs d = ctl_outs c @ concat (replicate n (?attempt @ [Link_Down ''No reply''])) @ [Amd_Not_Sent tgt]"
    if "length rs = n - 1" "d = on_operator_event e NO_CHANNELS_LEFT s" for d
  proof -
    have "n = Suc (length rs)" using that(1) assms(8) by simp
    moreover from this have "?n - of_nat (length rs) = 1" using left by (simp add: word_unat_eq_iff)
    moreover have "d = amd_confirm_clear (ctl_emit (Amd_Not_Sent tgt) (ctl_emit (Link_Down ''No reply'') (no_reply_recorded e s)))"
      using run(1) nr(2) \<open>?n - of_nat (length rs) = 1\<close> unfolding that(2) no_channels_left
      by (simp add: amd_not_heard_def retrying_def same_retry_def) (simp add: ctl_emit_def)
    ultimately show ?thesis
      using run(2) nr(1) sent(3) separated [of ?attempt "Link_Down ''No reply''" rs]
      by (simp add: amd_confirm_clear_def tick_amd_confirm_def)
  qed
  have untold: "\<not> amd_retry_active d \<and> tick_amd_confirm t d = d \<and>
      ctl_outs d = ctl_outs c @ concat (replicate (length rs + 1) (?attempt @ [Link_Down ''No reply''])) @ ?attempt"
    if "length rs < n - 1" "retry_due r" "\<not> call_accepted (snd r)" "d = unanswered_try r s" for d
  proof -
    have "1 < ?n - of_nat (length rs)" using left that(1) by (simp add: word_less_nat_alt)
    note due = due_again [OF run(1) this that(2)]
    show ?thesis
      using due(1) due(3) [OF that(3)] run(2) sent(3) separated [of ?attempt "Link_Down ''No reply''" rs]
      by (simp add: that(4) tick_amd_confirm_def)
  qed
  show ?thesis unfolding Let_def by (intro conjI impI sent(1) told untold refl) blast+
qed

theorem unheard_message_reported_witness:
  "ctl_outs (on_operator_event ((station_env IDLE)\<lparr>now_ms := 60000\<rparr>) NO_CHANNELS_LEFT
     (fold unanswered_try [((station_env IDLE)\<lparr>now_ms := 20000\<rparr>, (station_env IDLE)\<lparr>now_ms := 50000\<rparr>)]
       (snd (send_amd ((station_env IDLE)\<lparr>amd_max_attempts := 2\<rparr>) ''SAM'' ''HI'' False (init_controller init_database))))) =
   concat (replicate 2 [Set_Pending_Message ''HI'' False, Initiate_Call ''SAM'', Link_Down ''No reply'']) @ [Amd_Not_Sent ''SAM'']"
proof -
  let ?env = "(station_env IDLE)\<lparr>amd_max_attempts := 2\<rparr>"
  let ?rs = "[((station_env IDLE)\<lparr>now_ms := 20000\<rparr>, (station_env IDLE)\<lparr>now_ms := 50000\<rparr>)]"
  have v: "is_valid_ale_address ''SAM''" by code_simp
  have env: "sm_state ?env \<noteq> LINKED" "call_accepted ?env" "2 = unat (max 1 (amd_max_attempts ?env))" "list_all may_try_again ?rs"
    by (simp_all add: station_env_def may_try_again_def retry_due_def TT_NEXT_TRY_MS_def max_def)
  have init: "pending_relink_addr (init_controller init_database) = []" "ctl_outs (init_controller init_database) = []"
    by (simp_all add: init_controller_def)
  have "length ?rs < 2" "''HI'' \<noteq> []" "''SAM'' \<noteq> ''ALLCALL''" by simp_all
  from unheard_message_reported [OF this(2,3) env(1) v env(2) init(1) env(3) this(1) env(4) refl] show ?thesis
    by (simp add: Let_def init(2) del: on_operator_event.simps fold_simps)
qed

section \<open>A retry that is lost\<close>

lemma commit_response:
  "ctl_outs (commit_response_frame env c) = ctl_outs c" "same_retry c (commit_response_frame env c)"
  by (simp_all add: commit_response_frame_def same_retry_def map_db_def Let_def)

lemma conclude_call:
  "ctl_outs (conclude_call env c) = ctl_outs c" "same_retry c (conclude_call env c)"
  using same_retry_steps(1) [of c env] by (simp_all add: conclude_call_def same_retry_def map_exchange_def Let_def)

text \<open>
  C40. A link with any station ends the retry: a message that waits for its next try when another station
  calls is neither tried again nor reported, whatever the timer does afterwards.
\<close>

theorem retry_lost_by_other_link:
  assumes "retrying tgt msg link n c"
  shows "ctl_outs (on_operator_event env LINK_ESTABLISHED c) = ctl_outs c @ [Link_Up (measured_peer env)]
    \<and> tick_amd_confirm t (on_operator_event env LINK_ESTABLISHED c) = on_operator_event env LINK_ESTABLISHED c"
proof -
  define pending where "pending d =
    (if lqa_exchange_enabled env \<and> \<not> reporting_inhibited (configured env) (cur_freq env)
     then map_exchange (\<lambda>x. snd (apply_pending (efs_is_self env) (db_clock env) (sm_to_address env) False x)) d else d)" for d
  define accept where "accept d = (if manual_accept_mode env then d\<lparr>pending_operator_accept := True\<rparr> else d)" for d :: controller
  have pending: "ctl_outs (pending d) = ctl_outs d" "amd_retry_active (pending d) = amd_retry_active d" for d
    by (simp_all add: pending_def map_exchange_def)
  have accept: "ctl_outs (accept d) = ctl_outs d" "amd_retry_active (accept d) = amd_retry_active d" for d
    by (simp_all add: accept_def)
  define d where "d = accept (conclude_call env (pending (commit_response_frame env c)))"
  have d: "ctl_outs d = ctl_outs c" "amd_retry_active d"
    using assms conclude_call(2) [of "pending (commit_response_frame env c)" env] commit_response(2) [of c env]
    by (simp_all add: d_def pending accept conclude_call(1) commit_response(1) same_retry_def retrying_def)
  have "on_operator_event env LINK_ESTABLISHED c = amd_heard (ctl_emit (Link_Up (measured_peer env)) (d\<lparr>link_start_ms := now_ms env\<rparr>))"
    by (simp add: d_def pending_def accept_def Let_def)
  then have "on_operator_event env LINK_ESTABLISHED c =
      amd_confirm_clear (ctl_emit (Link_Up (measured_peer env)) (d\<lparr>link_start_ms := now_ms env\<rparr>))"
    using d by (simp add: amd_heard_def ctl_emit_def)
  then show ?thesis using d by (simp add: amd_confirm_clear_def tick_amd_confirm_def)
qed

theorem retry_lost_by_other_link_witness:
  "let c = tick_amd_confirm ((station_env IDLE)\<lparr>now_ms := 90000\<rparr>) (on_operator_event ((station_env LINKED)\<lparr>sm_to_address := ''BOB''\<rparr>) LINK_ESTABLISHED
       (on_operator_event (station_env IDLE) NO_CHANNELS_LEFT (snd (send_amd (station_env IDLE) ''SAM'' ''HI'' False (init_controller init_database)))))
   in ctl_outs c = [Set_Pending_Message ''HI'' False, Initiate_Call ''SAM'', Link_Down ''No reply'', Link_Up ''BOB'']"
proof -
  define s where "s = snd (send_amd (station_env IDLE) ''SAM'' ''HI'' False (init_controller init_database))"
  define c where "c = on_operator_event (station_env IDLE) NO_CHANNELS_LEFT s"
  have v: "is_valid_ale_address ''SAM''" by code_simp
  have s: "retrying ''SAM'' ''HI'' False 3 s" "ctl_outs s = [Set_Pending_Message ''HI'' False, Initiate_Call ''SAM'']"
    by (simp_all add: s_def send_amd_def v amd_confirm_clear_def attempt_amd_send_def retrying_def ctl_emit_def station_env_def
        init_controller_def max_def)
  note nr = no_reply_recorded [where env = "station_env IDLE" and c = s, unfolded same_retry_def]
  have c: "retrying ''SAM'' ''HI'' False 2 c" "ctl_outs c = [Set_Pending_Message ''HI'' False, Initiate_Call ''SAM'', Link_Down ''No reply'']"
    using s nr unfolding c_def no_channels_left by (simp_all add: retrying_def amd_not_heard_def ctl_emit_def)
  show ?thesis
    using retry_lost_by_other_link [OF c(1), of "(station_env LINKED)\<lparr>sm_to_address := ''BOB''\<rparr>" "(station_env IDLE)\<lparr>now_ms := 90000\<rparr>"] c(2)
    unfolding c_def s_def by (simp add: Let_def measured_peer_def del: on_operator_event.simps)
qed

section \<open>What the database keeps of a failed call\<close>

lemma with_existing:
  assumes "sorted_entries (db_entries db)" "map_of (db_entries db) k = Some e"
  shows "map_of (db_entries (with_entry k fresh f db)) = (map_of (db_entries db))(k \<mapsto> f e)" "sorted_entries (db_entries (with_entry k fresh f db))"
  using assms by (simp_all add: with_entry_def map_of_put_entry sorted_put_entry)

definition fail_all :: "u32 \<Rightarrow> string \<Rightarrow> u32 \<Rightarrow> channel list \<Rightarrow> lqa_database \<Rightarrow> lqa_database" where
  "fail_all clock tgt now chs db = fold (\<lambda>ch. record_handshake_fail clock (rx_frequency_hz ch) tgt now) chs db"

lemma fail_all:
  assumes "sorted_entries (db_entries db)" "\<forall>ch \<in> set chs. get_entry (rx_frequency_hz ch) tgt db \<noteq> None" "0 < now"
  shows "sorted_entries (db_entries (fail_all clock tgt now chs db)) \<and>
    get_entry f tgt (fail_all clock tgt now chs db) =
      (if f \<in> rx_frequency_hz ` set chs then map_option (last_failed_handshake_ms_update (\<lambda>_. now)) (get_entry f tgt db) else get_entry f tgt db)"
  using assms
proof (induction chs arbitrary: db)
  case (Cons ch chs)
  let ?k = "EntryKey (rx_frequency_hz ch) tgt"
  let ?db = "record_handshake_fail clock (rx_frequency_hz ch) tgt now db"
  obtain e where e: "map_of (db_entries db) ?k = Some e" using Cons.prems(2) by (auto simp: get_entry_def)
  have "stamp clock now = now" using Cons.prems(3) by (auto simp: stamp_def)
  then have db: "map_of (db_entries ?db) = (map_of (db_entries db))(?k \<mapsto> e\<lparr>last_failed_handshake_ms := now\<rparr>)" "sorted_entries (db_entries ?db)"
    using with_existing [OF Cons.prems(1) e] by (simp_all add: record_handshake_fail_def)
  then have g: "get_entry g tgt ?db = (if g = rx_frequency_hz ch then Some (e\<lparr>last_failed_handshake_ms := now\<rparr>) else get_entry g tgt db)" for g
    by (simp add: get_entry_def)
  then have "\<forall>ch \<in> set chs. get_entry (rx_frequency_hz ch) tgt ?db \<noteq> None" using Cons.prems(2) by simp
  from Cons.IH [OF db(2) this Cons.prems(3)] show ?case
    using e g by (auto simp: fail_all_def get_entry_def)
qed (simp add: fail_all_def)

text \<open>
  After a call that nobody answered, every channel of a known station carries the failure, stamped with the
  time of the controller; the ranking compares it with the clock of the database, and lowers the channel
  exactly while that difference is inside the window. The controller counts from the start of the
  program, the database from 1970.
\<close>

theorem failed_call_penalty:
  assumes "lqa_exchange_enabled env" "sounding c = None" "0 < now_ms env"
    and "tgt = last_call_target (exchange c)" "tgt \<noteq> []" "last_call_freq (exchange c) \<in> rx_frequency_hz ` set (configured env)"
    and "db_inv (ctl_db c)" "\<forall>ch \<in> set (configured env). get_entry (rx_frequency_hz ch) tgt (ctl_db c) \<noteq> None"
    and "ch \<in> set (configured env)"
  shows "\<exists>e. get_entry (rx_frequency_hz ch) tgt (ctl_db (on_operator_event env NO_CHANNELS_LEFT c)) = Some e \<and>
    (\<forall>cfg clock. penalized cfg clock e \<longleftrightarrow> clock - now_ms env < fail_penalty_window_ms cfg)"
proof -
  let ?now = "now_ms env" and ?f = "rx_frequency_hz ch"
  let ?db = "fail_all (db_clock env) tgt ?now (configured env) (ctl_db c)"
  let ?d = "ctl_db (on_operator_event env NO_CHANNELS_LEFT c)"
  have s: "sorted_entries (db_entries (ctl_db c))" using assms(7) by (simp add: db_inv_def)
  note fails = fail_all [OF s assms(8,3), of "db_clock env", THEN conjunct2]
  have hit: "\<exists>e. get_entry g tgt ?db = Some e \<and> last_failed_handshake_ms e = ?now" if "g \<in> rx_frequency_hz ` set (configured env)" for g
    using fails [of g] assms(8) that by auto
  have conf: "ctl_db (amd_not_heard env (ctl_emit out x)) = ctl_db x" for out x
    by (simp add: amd_not_heard_def amd_confirm_clear_def ctl_emit_def ctl_db_def)
  have d: "?d = (if sent_ka1 (exchange c) \<and> last_call_freq (exchange c) > 0
      then mark_bilateral_attempted (db_clock env) (last_call_freq (exchange c)) tgt ?db else ?db)"
    using assms(1,2,4,5) unfolding no_channels_left conf
    by (simp add: no_reply_recorded_def finalize_sounding_def sounding_finalize_def ctl_db_def map_exchange_def map_db_def
        on_call_concluded_def fail_all_def Let_def)
  have "\<exists>e. get_entry ?f tgt ?d = Some e \<and> last_failed_handshake_ms e = ?now"
  proof (cases "sent_ka1 (exchange c) \<and> last_call_freq (exchange c) > 0")
    case True
    obtain e where e: "map_of (db_entries ?db) (EntryKey (last_call_freq (exchange c)) tgt) = Some e" "last_failed_handshake_ms e = ?now"
      using hit [OF assms(6)] by (auto simp: get_entry_def)
    have "sorted_entries (db_entries ?db)" using fail_all [OF s assms(8,3)] by blast
    note m = with_existing(1) [OF this e(1)]
    show ?thesis
      using hit [of ?f] assms(9) e(2) True unfolding d
      by (auto simp: get_entry_def mark_bilateral_attempted_def m scored_def)
  next
    case False
    then have "?d = ?db" unfolding d by auto
    then show ?thesis using hit [of ?f] assms(9) by simp
  qed
  then show ?thesis using assms(3) by (auto simp: penalized_def)
qed

definition called_sam :: controller where
  "called_sam = (init_controller heard_sam)\<lparr>exchange :=
     (LqaExchangeManager heard_sam)\<lparr>sent_ka1 := True, last_call_target := ''SAM'', last_call_freq := 7000000\<rparr>\<rparr>"

definition up_a_minute :: ctl_env where
  "up_a_minute = (station_env IDLE)\<lparr>now_ms := 60000, db_clock := 1000000000, configured := [Channel\<lparr>rx_frequency_hz := 7000000\<rparr>]\<rparr>"

theorem failed_call_penalty_witness:
  "\<exists>e. get_entry 7000000 ''SAM'' (ctl_db (on_operator_event up_a_minute NO_CHANNELS_LEFT called_sam)) = Some e
     \<and> \<not> penalized AnalyzerConfig (db_clock up_a_minute) e \<and> penalized AnalyzerConfig 60001 e"
proof -
  have "db_inv (ctl_db called_sam)" using heard_sam_inv by (simp add: called_sam_def ctl_db_def LqaExchangeManager_def)
  moreover have "get_entry 7000000 ''SAM'' (ctl_db called_sam) \<noteq> None"
    by (simp add: called_sam_def ctl_db_def LqaExchangeManager_def heard_sam get_entry_def)
  moreover have "lqa_exchange_enabled up_a_minute" "now_ms up_a_minute = 60000" "db_clock up_a_minute = 1000000000"
      "configured up_a_minute = [Channel\<lparr>rx_frequency_hz := 7000000\<rparr>]"
    by (simp_all add: up_a_minute_def station_env_def)
  moreover have "sounding called_sam = None" "last_call_target (exchange called_sam) = ''SAM''" "last_call_freq (exchange called_sam) = 7000000"
    by (simp_all add: called_sam_def init_controller_def)
  ultimately have "\<exists>e. get_entry 7000000 ''SAM'' (ctl_db (on_operator_event up_a_minute NO_CHANNELS_LEFT called_sam)) = Some e \<and>
      (\<forall>cfg clock. penalized cfg clock e \<longleftrightarrow> clock - 60000 < fail_penalty_window_ms cfg)"
    using failed_call_penalty [of up_a_minute called_sam "''SAM''" "Channel\<lparr>rx_frequency_hz := 7000000\<rparr>"]
    by (simp del: on_operator_event.simps)
  then show ?thesis using \<open>db_clock up_a_minute = _\<close> by (auto simp: AnalyzerConfig_def simp del: on_operator_event.simps)
qed

end
