(* ===== verification/Ctl_Test.thy ===== *)
theory Ctl_Test
  imports Ctl_Link
begin

text \<open>
  The test of all channels to one peer (\<open>start_test_channel\<close>, \<open>tick_test_channel\<close>, \<open>stop_test_channel\<close> of
  \<open>src/App/ale_controller.cpp\<close>): on every channel a call, the dwell on the link, its end, and the score the
  database then holds. The state machine, the radio and the database are asked through \<open>sweep_env\<close>; what
  the sweep does to them is the trace \<open>sweep_outs\<close>, where a call stands with its answer: whether the state machine placed it (\<open>call_placed\<close>).
\<close>

datatype test_phase = TP_INACTIVE | TP_TUNE | TP_CALLING | TP_LINKED_SETTLE | TP_TERMINATING | TP_NEXT | TP_DONE

record test_result =
  tr_freq_hz :: u32
  tr_id :: string
  tr_linked :: bool
  tr_score :: int

definition TestResult :: test_result where
  "TestResult = \<lparr> tr_freq_hz = 0, tr_id = [], tr_linked = False, tr_score = -1 \<rparr>"

record sweep_env =
  sw_state :: ale_state
  sw_now_ms :: u32
  call_placed :: bool
  sw_db :: lqa_database
  sw_channels :: "channel list"
  sw_net :: "string \<Rightarrow> string list option"
  sw_active_net :: string
  sw_current :: "u32 \<times> string"
  link_hold_sec :: u32

datatype sweep_output =
  Test_Event string string "channel option" nat nat int bool string
| Tune u32 string
| Single_Call string bool
| Sweep_Emergency
| Sweep_Terminate
| Sweep_Start_Scan

record test_sweep =
  test_active :: bool
  test_phase :: test_phase
  test_target :: string
  test_net :: string
  test_channels :: "channel list"
  test_idx :: nat
  test_phase_start_ms :: u32
  test_link_deadline_ms :: u32
  test_was_scanning :: bool
  test_orig_freq_hz :: u32
  test_orig_mode :: string
  test_results :: "test_result list"
  test_summary :: string
  sweep_outs :: "sweep_output list"

definition init_sweep :: test_sweep where
  "init_sweep = \<lparr> test_active = False, test_phase = TP_INACTIVE, test_target = [], test_net = [], test_channels = [], test_idx = 0,
     test_phase_start_ms = 0, test_link_deadline_ms = 0, test_was_scanning = False, test_orig_freq_hz = 0, test_orig_mode = [],
     test_results = [], test_summary = [], sweep_outs = [] \<rparr>"

definition TEST_CHANNEL_LINK_TIMEOUT_MS :: u32 where "TEST_CHANNEL_LINK_TIMEOUT_MS = 30000"

definition sweep_emit :: "sweep_output \<Rightarrow> test_sweep \<Rightarrow> test_sweep" where
  "sweep_emit out s = s\<lparr>sweep_outs := sweep_outs s @ [out]\<rparr>"

definition emit_test_event :: "string \<Rightarrow> channel option \<Rightarrow> int \<Rightarrow> bool \<Rightarrow> test_sweep \<Rightarrow> test_sweep" where
  "emit_test_event what ch sc linked s =
     sweep_emit (Test_Event (test_target s) what ch (case ch of None \<Rightarrow> 0 | Some _ \<Rightarrow> test_idx s + 1) (length (test_channels s)) sc linked
       (if what = ''done'' then test_summary s else [])) s"

section \<open>The channels of a sweep\<close>

definition callable :: "channel \<Rightarrow> bool" where
  "callable ch \<longleftrightarrow> chan_enabled ch \<and> \<not> inhibit_calling ch \<and> \<not> rx_only ch"

definition collect_net :: "channel list \<Rightarrow> string list \<Rightarrow> channel list" where
  "collect_net chs ids = List.map_filter (\<lambda>i. find (\<lambda>ch. chan_id ch = i \<and> callable ch) chs) ids"

definition resolve_net_call_channels :: "sweep_env \<Rightarrow> string \<Rightarrow> channel list" where
  "resolve_net_call_channels env net_name =
     (case (if net_name \<noteq> [] then sw_net env net_name else None) of
        Some ids \<Rightarrow> collect_net (sw_channels env) ids
      | None \<Rightarrow>
          (case (if sw_active_net env \<noteq> [] then sw_net env (sw_active_net env) else None) of
             Some ids \<Rightarrow> collect_net (sw_channels env) ids
           | None \<Rightarrow> filter callable (sw_channels env)))"

section \<open>Start and stop\<close>

definition quiescent :: "sweep_env \<Rightarrow> bool" where
  "quiescent env \<longleftrightarrow> sw_state env = IDLE \<or> sw_state env = SCANNING"

definition restore_test_channel :: "sweep_env \<Rightarrow> test_sweep \<Rightarrow> test_sweep" where
  "restore_test_channel env s =
     (if test_orig_freq_hz s = 0 then s
      else sweep_emit (Tune (test_orig_freq_hz s)
             (case find_channel_by_freq (sw_channels env) (test_orig_freq_hz s) of Some ch \<Rightarrow> rx_mode ch | None \<Rightarrow> test_orig_mode s)) s)"

definition resume_scan :: "test_sweep \<Rightarrow> test_sweep" where
  "resume_scan s = (if test_was_scanning s then sweep_emit Sweep_Start_Scan s else s)"

definition start_test_channel :: "sweep_env \<Rightarrow> string \<Rightarrow> string \<Rightarrow> test_sweep \<Rightarrow> bool \<times> test_sweep" where
  "start_test_channel env target net s =
     (if test_active s \<or> \<not> is_valid_ale_address target \<or> \<not> quiescent env then (False, s)
      else let chans = resolve_net_call_channels env net
        in if chans = [] then (False, s)
           else (True, emit_test_event ''start'' None (-1) False
             (s\<lparr>test_target := target, test_net := net, test_channels := chans, test_idx := 0,
                test_results := replicate (length chans) TestResult, test_summary := [],
                test_was_scanning := (sw_state env = SCANNING),
                test_orig_freq_hz := fst (sw_current env), test_orig_mode := snd (sw_current env),
                test_active := True, test_phase := TP_TUNE, test_phase_start_ms := sw_now_ms env\<rparr>)))"

definition stop_test_channel :: "sweep_env \<Rightarrow> test_sweep \<Rightarrow> test_sweep" where
  "stop_test_channel env s =
     (if \<not> test_active s then s
      else let s = (if sw_state env = CALLING \<or> sw_state env = HANDSHAKE \<or> sw_state env = LINKED then sweep_emit Sweep_Emergency s else s);
               s = s\<lparr>test_active := False, test_phase := TP_INACTIVE\<rparr>
        in emit_test_event ''stop'' None (-1) False (resume_scan (restore_test_channel env s)))"

section \<open>One tick\<close>

text \<open>A float is cut to an integer towards zero.\<close>

definition trunc_int :: "rat \<Rightarrow> int" where
  "trunc_int x = (if x < 0 then \<lceil>x\<rceil> else \<lfloor>x\<rfloor>)"

definition measured_score :: "sweep_env \<Rightarrow> string \<Rightarrow> channel \<Rightarrow> int" where
  "measured_score env target ch =
     (case get_entry (rx_frequency_hz ch) target (sw_db env) of None \<Rightarrow> -1 | Some e \<Rightarrow> trunc_int (le_score e + 1 / 2))"

definition set_result :: "test_result \<Rightarrow> test_sweep \<Rightarrow> test_sweep" where
  "set_result r s = s\<lparr>test_results := (test_results s)[test_idx s := r]\<rparr>"

definition snapshot_test_score :: "sweep_env \<Rightarrow> channel \<Rightarrow> test_sweep \<Rightarrow> test_sweep" where
  "snapshot_test_score env ch s =
     set_result ((test_results s ! test_idx s)\<lparr>tr_freq_hz := rx_frequency_hz ch, tr_id := chan_id ch,
       tr_score := measured_score env (test_target s) ch\<rparr>) s"

definition channel_result :: "channel \<Rightarrow> bool \<Rightarrow> test_result" where
  "channel_result ch linked = \<lparr> tr_freq_hz = rx_frequency_hz ch, tr_id = chan_id ch, tr_linked = linked, tr_score = -1 \<rparr>"

definition channel_failed :: "channel \<Rightarrow> test_sweep \<Rightarrow> test_sweep" where
  "channel_failed ch s = (emit_test_event ''failed'' (Some ch) (-1) False (set_result (channel_result ch False) s))\<lparr>test_phase := TP_NEXT\<rparr>"

definition result_before :: "test_result \<Rightarrow> test_result \<Rightarrow> bool" where
  "result_before a b = (if tr_linked a \<noteq> tr_linked b then tr_linked a else tr_linked a \<and> tr_score a > tr_score b)"

definition ranked_results :: "test_result list \<Rightarrow> test_result list" where
  "ranked_results rs = stable_sort result_before rs"

definition pad_right :: "nat \<Rightarrow> string \<Rightarrow> string" where
  "pad_right n t = t @ replicate (n - length t) (CHR '' '')"

definition result_line :: "test_result \<Rightarrow> string" where
  "result_line r = take 111 (''  '' @ pad_right 12 (tr_id r) @ '' '' @ pad_right 11 (show_nat (unat (tr_freq_hz r))) @ '' ''
     @ pad_right 7 (if tr_linked r then ''yes'' else ''no'') @ '' '' @ show_int (tr_score r) @ [CHR 0x0A])"

definition sweep_summary :: "string \<Rightarrow> test_result list \<Rightarrow> string" where
  "sweep_summary target rs = ''Test-Channel results for '' @ target @ '':'' @ [CHR 0x0A] @
     ''  channel      freq_hz    linked  score'' @ [CHR 0x0A] @ concat (map result_line (ranked_results rs))"

definition tick_tune :: "sweep_env \<Rightarrow> test_sweep \<Rightarrow> test_sweep" where
  "tick_tune env s =
     (if \<not> quiescent env then s
      else if test_idx s \<ge> length (test_channels s) then s\<lparr>test_phase := TP_DONE\<rparr>
      else let ch = test_channels s ! test_idx s
        in if inhibit_calling ch \<or> rx_only ch then channel_failed ch s
           else let s = sweep_emit (Single_Call (test_target s) (call_placed env)) (sweep_emit (Tune (rx_frequency_hz ch) (rx_mode ch)) s)
             in if \<not> call_placed env then channel_failed ch s
                else (emit_test_event ''tune'' (Some ch) (-1) False s)\<lparr>test_phase := TP_CALLING, test_phase_start_ms := sw_now_ms env,
                       test_link_deadline_ms := sw_now_ms env + TEST_CHANNEL_LINK_TIMEOUT_MS\<rparr>)"

definition tick_calling :: "sweep_env \<Rightarrow> test_sweep \<Rightarrow> test_sweep" where
  "tick_calling env s =
     (let ch = test_channels s ! test_idx s
      in if sw_state env = LINKED
         then (emit_test_event ''linked'' (Some ch) (-1) True (set_result (channel_result ch True) s))
                \<lparr>test_phase := TP_LINKED_SETTLE, test_phase_start_ms := sw_now_ms env\<rparr>
         else if quiescent env then channel_failed ch s
         else if sw_now_ms env \<ge> test_link_deadline_ms s then channel_failed ch (sweep_emit Sweep_Emergency s)
         else s)"

definition dwell_ms :: "sweep_env \<Rightarrow> u32" where
  "dwell_ms env = max Tdrw_ms (link_hold_sec env * 1000)"

definition tick_settle :: "sweep_env \<Rightarrow> test_sweep \<Rightarrow> test_sweep" where
  "tick_settle env s =
     (let ch = test_channels s ! test_idx s
      in if sw_state env \<noteq> LINKED then (snapshot_test_score env ch s)\<lparr>test_phase := TP_NEXT\<rparr>
         else if sw_now_ms env - test_phase_start_ms s < dwell_ms env then s
         else let s = sweep_emit Sweep_Terminate (snapshot_test_score env ch s)
           in (emit_test_event ''terminate'' (Some ch) (tr_score (test_results s ! test_idx s)) True s)
                \<lparr>test_phase := TP_TERMINATING, test_phase_start_ms := sw_now_ms env\<rparr>)"

definition tick_terminating :: "sweep_env \<Rightarrow> test_sweep \<Rightarrow> test_sweep" where
  "tick_terminating env s =
     (if sw_state env \<noteq> LINKED then s\<lparr>test_phase_start_ms := sw_now_ms env, test_phase := TP_NEXT\<rparr>
      else if sw_now_ms env - test_phase_start_ms s > TEST_CHANNEL_LINK_TIMEOUT_MS
        then (sweep_emit Sweep_Emergency s)\<lparr>test_phase_start_ms := sw_now_ms env, test_phase := TP_NEXT\<rparr>
      else s)"

definition tick_next :: "sweep_env \<Rightarrow> test_sweep \<Rightarrow> test_sweep" where
  "tick_next env s =
     (if \<not> quiescent env then s
      else if sw_now_ms env - test_phase_start_ms s < Tdrw_ms then s
      else let s = s\<lparr>test_idx := test_idx s + 1\<rparr>
        in s\<lparr>test_phase := (if test_idx s \<ge> length (test_channels s) then TP_DONE else TP_TUNE)\<rparr>)"

definition tick_done :: "sweep_env \<Rightarrow> test_sweep \<Rightarrow> test_sweep" where
  "tick_done env s =
     (let s = s\<lparr>test_summary := sweep_summary (test_target s) (test_results s)\<rparr>;
          s = (emit_test_event ''done'' None (-1) False s)\<lparr>test_active := False, test_phase := TP_INACTIVE\<rparr>
      in resume_scan (restore_test_channel env s))"

definition tick_test_channel :: "sweep_env \<Rightarrow> test_sweep \<Rightarrow> test_sweep" where
  "tick_test_channel env s =
     (if \<not> test_active s then s
      else case test_phase s of
        TP_TUNE \<Rightarrow> tick_tune env s | TP_CALLING \<Rightarrow> tick_calling env s | TP_LINKED_SETTLE \<Rightarrow> tick_settle env s
      | TP_TERMINATING \<Rightarrow> tick_terminating env s | TP_NEXT \<Rightarrow> tick_next env s | TP_DONE \<Rightarrow> tick_done env s | TP_INACTIVE \<Rightarrow> s)"

section \<open>The report\<close>

lemma mset_stable_sort: "mset (stable_sort lt xs) = mset xs"
proof -
  have "mset (insert_stable lt x ys) = add_mset x (mset ys)" for x ys by (induction ys) auto
  then show ?thesis by (induction xs) (simp_all add: stable_sort_def)
qed

lemma sorted_stable_sort:
  assumes "\<And>x y. lt x y \<Longrightarrow> \<not> lt y x" "\<And>x y z. \<not> lt y x \<Longrightarrow> \<not> lt z y \<Longrightarrow> \<not> lt z x"
  shows "sorted_wrt (\<lambda>x y. \<not> lt y x) (stable_sort lt xs)"
proof -
  have set: "set (insert_stable lt x ys) = insert x (set ys)" for x ys by (induction ys) auto
  have "sorted_wrt (\<lambda>x y. \<not> lt y x) ys \<Longrightarrow> sorted_wrt (\<lambda>x y. \<not> lt y x) (insert_stable lt x ys)" for x ys
  proof (induction ys)
    case (Cons y ys)
    have "\<not> lt z x" if "\<not> lt y x" "z \<in> set ys" for z using assms(2) [OF that(1)] Cons.prems that(2) by auto
    then show ?case using Cons assms(1) [of y x] by (auto simp: set)
  qed simp
  then show ?thesis by (induction xs) (simp_all add: stable_sort_def)
qed

text \<open>The report names every result once: the channels with a link first, the better score before the worse.\<close>

theorem results_ranked:
  "mset (ranked_results rs) = mset rs \<and>
   sorted_wrt (\<lambda>a b. (tr_linked b \<longrightarrow> tr_linked a) \<and> (tr_linked a \<and> tr_linked b \<longrightarrow> tr_score b \<le> tr_score a)) (ranked_results rs)"
proof -
  have "sorted_wrt (\<lambda>a b. \<not> result_before b a) (ranked_results rs)"
    unfolding ranked_results_def by (rule sorted_stable_sort) (auto simp: result_before_def split: if_splits)
  then have "sorted_wrt (\<lambda>a b. (tr_linked b \<longrightarrow> tr_linked a) \<and> (tr_linked a \<and> tr_linked b \<longrightarrow> tr_score b \<le> tr_score a)) (ranked_results rs)"
    by (rule sorted_wrt_mono_rel [rotated]) (auto simp: result_before_def split: if_splits)
  then show ?thesis by (simp add: ranked_results_def mset_stable_sort)
qed

section \<open>Invariant of a sweep\<close>

text \<open>What goes to the radio and to the state machine of a channel's test: it is tuned, then the peer is called.\<close>

definition on_air :: "sweep_output list \<Rightarrow> sweep_output list" where
  "on_air trace = filter (\<lambda>out. case out of Tune _ _ \<Rightarrow> True | Single_Call _ _ \<Rightarrow> True | _ \<Rightarrow> False) trace"

definition answers :: "sweep_output list \<Rightarrow> bool list" where
  "answers trace = List.map_filter (\<lambda>out. case out of Single_Call _ ok \<Rightarrow> Some ok | _ \<Rightarrow> None) trace"

definition test_of :: "string \<Rightarrow> channel \<times> bool \<Rightarrow> sweep_output list" where
  "test_of target = (\<lambda>(ch, ok). [Tune (rx_frequency_hz ch) (rx_mode ch), Single_Call target ok])"

lemma on_air_simps [simp]:
  "on_air [] = []" "on_air (xs @ ys) = on_air xs @ on_air ys"
  "on_air (out # xs) = (case out of Tune _ _ \<Rightarrow> [out] | Single_Call _ _ \<Rightarrow> [out] | _ \<Rightarrow> []) @ on_air xs"
  by (simp_all add: on_air_def split: sweep_output.split)

lemma answers_simps [simp]:
  "answers [] = []" "answers (xs @ ys) = answers xs @ answers ys"
  "answers (out # xs) = (case out of Single_Call _ ok \<Rightarrow> [ok] | _ \<Rightarrow> []) @ answers xs"
proof -
  show "answers (xs @ ys) = answers xs @ answers ys"
    by (induction xs) (auto simp: answers_def List.map_filter_simps split: option.splits)
qed (simp_all add: answers_def List.map_filter_simps split: sweep_output.split)

text \<open>The channels already called, and those whose result is written.\<close>

definition called :: "test_sweep \<Rightarrow> nat" where
  "called s = (if test_phase s = TP_TUNE \<or> test_phase s = TP_DONE then test_idx s else test_idx s + 1)"

definition recorded :: "test_sweep \<Rightarrow> nat" where
  "recorded s = (if test_phase s = TP_CALLING then test_idx s else called s)"

definition result_of :: "channel \<Rightarrow> test_result \<Rightarrow> bool" where
  "result_of ch r \<longleftrightarrow> tr_freq_hz r = rx_frequency_hz ch \<and> tr_id r = chan_id ch"

text \<open>The first \<open>k\<close> channels were tested, in order; the refused ones are reported so.\<close>

definition tested :: "nat \<Rightarrow> test_sweep \<Rightarrow> bool" where
  "tested k s \<longleftrightarrow>
     on_air (sweep_outs s) = concat (map (test_of (test_target s)) (zip (take k (test_channels s)) (answers (sweep_outs s))))
     \<and> length (answers (sweep_outs s)) = k
     \<and> (\<forall>j < k. \<not> answers (sweep_outs s) ! j \<longrightarrow> test_results s ! j = channel_result (test_channels s ! j) False)"

lemma nth_update: "xs[i := x] ! j = (if i = j \<and> j < length xs then x else xs ! j)"
  by (cases "i < length xs") (auto simp: list_update_beyond)

lemma tested_more:
  assumes "tested k s" "k < length (test_channels s)" "length (test_results s) = length (test_channels s)"
    and "test_channels t = test_channels s" "test_target t = test_target s"
    and "on_air (sweep_outs t) = on_air (sweep_outs s) @ test_of (test_target s) (test_channels s ! k, ok)"
    and "answers (sweep_outs t) = answers (sweep_outs s) @ [ok]"
    and "test_results t = (if ok then test_results s else (test_results s)[k := channel_result (test_channels s ! k) False])"
  shows "tested (Suc k) t"
  using assms by (auto simp: tested_def take_Suc_conv_app_nth nth_append nth_update less_Suc_eq)

lemma tested_same:
  assumes "tested k s" "test_channels t = test_channels s" "test_target t = test_target s"
    and "on_air (sweep_outs t) = on_air (sweep_outs s)" "answers (sweep_outs t) = answers (sweep_outs s)"
    and "test_results t = test_results s \<or> (\<exists>r. test_results t = (test_results s)[i := r]) \<and> answers (sweep_outs s) ! i"
  shows "tested k t"
  using assms by (auto simp: tested_def nth_update)

definition sweep_inv :: "test_sweep \<Rightarrow> bool" where
  "sweep_inv s \<longleftrightarrow>
     length (test_results s) = length (test_channels s) \<and> list_all callable (test_channels s) \<and> test_phase s \<noteq> TP_INACTIVE
     \<and> (if test_phase s = TP_DONE then test_idx s = length (test_channels s) else test_idx s < length (test_channels s))
     \<and> (\<forall>j < recorded s. result_of (test_channels s ! j) (test_results s ! j))
     \<and> tested (called s) s
     \<and> (test_phase s \<in> {TP_CALLING, TP_LINKED_SETTLE, TP_TERMINATING} \<longrightarrow> answers (sweep_outs s) ! test_idx s)"

lemmas sweep_defs = sweep_inv_def called_def recorded_def sweep_emit_def emit_test_event_def set_result_def channel_failed_def

text \<open>The channels were filtered when the sweep began, and their copies do not change: none is skipped.\<close>

lemma never_skipped:
  assumes "sweep_inv s" "test_phase s = TP_TUNE"
  shows "test_idx s < length (test_channels s)" "\<not> inhibit_calling (test_channels s ! test_idx s)" "\<not> rx_only (test_channels s ! test_idx s)"
  using assms by (auto simp: sweep_inv_def list_all_length callable_def)

lemma tune_keeps:
  assumes "sweep_inv s" "test_phase s = TP_TUNE"
  shows "sweep_inv (tick_tune env s)"
proof (cases "quiescent env")
  case True
  let ?t = "tick_tune env s" and ?ok = "call_placed env" and ?k = "test_idx s"
  have k: "called s = ?k" "?k < length (test_channels s)" "length (test_results s) = length (test_channels s)" "tested ?k s"
    using assms by (simp_all add: sweep_inv_def called_def)
  have t: "test_channels ?t = test_channels s" "test_target ?t = test_target s" "test_idx ?t = ?k"
    "on_air (sweep_outs ?t) = on_air (sweep_outs s) @ test_of (test_target s) (test_channels s ! ?k, ?ok)"
    "answers (sweep_outs ?t) = answers (sweep_outs s) @ [?ok]"
    "test_results ?t = (if ?ok then test_results s else (test_results s)[?k := channel_result (test_channels s ! ?k) False])"
    "test_phase ?t = (if ?ok then TP_CALLING else TP_NEXT)"
    using True never_skipped [OF assms] by (simp_all add: tick_tune_def sweep_defs test_of_def Let_def)
  have "tested (Suc ?k) ?t" by (rule tested_more [OF k(4,2,3) t(1,2,4-6)])
  moreover have "answers (sweep_outs ?t) ! ?k = ?ok" using k(4) by (simp add: t(5) tested_def nth_append)
  ultimately show ?thesis
    using assms k
    by (cases ?ok) (auto simp: sweep_inv_def called_def recorded_def t nth_update result_of_def channel_result_def less_Suc_eq)
qed (use assms in \<open>simp add: tick_tune_def\<close>)

text \<open>The other phases write at most the result of the channel whose call was placed.\<close>

lemma writes_keep:
  assumes "sweep_inv s" "test_phase s \<in> {TP_CALLING, TP_LINKED_SETTLE, TP_TERMINATING}"
    and "test_phase t \<in> {TP_LINKED_SETTLE, TP_TERMINATING, TP_NEXT}"
    and "test_channels t = test_channels s" "test_target t = test_target s" "test_idx t = test_idx s"
    and "on_air (sweep_outs t) = on_air (sweep_outs s)" "answers (sweep_outs t) = answers (sweep_outs s)"
    and "test_results t = test_results s \<and> test_phase s \<noteq> TP_CALLING \<or>
      (\<exists>r. test_results t = (test_results s)[test_idx s := r] \<and> result_of (test_channels s ! test_idx s) r)"
  shows "sweep_inv t"
proof -
  have c: "called t = called s" "called s = Suc (test_idx s)" "recorded t = Suc (test_idx s)" "test_idx s < length (test_channels s)"
    "recorded s = (if test_phase s = TP_CALLING then test_idx s else Suc (test_idx s))"
    using assms(1-3,6) by (auto simp: called_def recorded_def sweep_inv_def)
  have "tested (called s) s" "answers (sweep_outs s) ! test_idx s" using assms(1,2) by (auto simp: sweep_inv_def)
  then have "tested (called s) t" using assms(9) by (intro tested_same [OF _ assms(4,5,7,8)]) auto
  moreover have "\<forall>j < Suc (test_idx s). result_of (test_channels s ! j) (test_results t ! j)"
    using assms(1,9) c(4,5) by (auto simp: sweep_inv_def nth_update less_Suc_eq)
  moreover have "length (test_results t) = length (test_results s)" using assms(9) by auto
  ultimately show ?thesis
    using assms(1,3) c(1-4) \<open>answers (sweep_outs s) ! test_idx s\<close>
    by (auto simp: sweep_inv_def assms(4-6,8))
qed

lemma calling_keeps:
  assumes "sweep_inv s" "test_phase s = TP_CALLING"
  shows "sweep_inv (tick_calling env s)"
proof (cases "tick_calling env s = s")
  case False
  show ?thesis
    by (rule writes_keep [OF assms(1)])
      (use assms(2) False in \<open>auto simp: tick_calling_def sweep_defs Let_def result_of_def channel_result_def split: if_splits\<close>)
qed (use assms in simp)

lemma settle_keeps:
  assumes "sweep_inv s" "test_phase s = TP_LINKED_SETTLE"
  shows "sweep_inv (tick_settle env s)"
proof (cases "tick_settle env s = s")
  case False
  show ?thesis
    by (rule writes_keep [OF assms(1)])
      (use assms(2) False in \<open>auto simp: tick_settle_def snapshot_test_score_def sweep_defs Let_def result_of_def split: if_splits\<close>)
qed (use assms in simp)

lemma terminating_keeps:
  assumes "sweep_inv s" "test_phase s = TP_TERMINATING"
  shows "sweep_inv (tick_terminating env s)"
proof (cases "tick_terminating env s = s")
  case False
  show ?thesis
    by (rule writes_keep [OF assms(1)]) (use assms(2) False in \<open>auto simp: tick_terminating_def sweep_emit_def split: if_splits\<close>)
qed (use assms in simp)

lemma next_keeps:
  assumes "sweep_inv s" "test_phase s = TP_NEXT"
  shows "sweep_inv (tick_next env s)"
proof (cases "tick_next env s = s")
  case False
  let ?t = "tick_next env s"
  have "called ?t = called s" "recorded ?t = recorded s" "test_channels ?t = test_channels s" "test_results ?t = test_results s"
    "test_target ?t = test_target s" "sweep_outs ?t = sweep_outs s" "test_phase ?t \<in> {TP_TUNE, TP_DONE}"
    "test_phase ?t = TP_DONE \<longleftrightarrow> test_idx s + 1 \<ge> length (test_channels s)" "test_idx ?t = test_idx s + 1"
    using assms(2) False by (auto simp: tick_next_def called_def recorded_def Let_def split: if_splits)
  then show ?thesis
    using assms by (auto simp: sweep_inv_def tested_def)
qed (use assms in simp)

lemma tick_keeps:
  assumes "sweep_inv s" "test_phase s \<noteq> TP_DONE"
  shows "sweep_inv (tick_test_channel env s)"
  using assms tune_keeps calling_keeps settle_keeps terminating_keeps next_keeps
  by (auto simp: tick_test_channel_def sweep_inv_def split: test_phase.split)

section \<open>Where a sweep ends\<close>

definition sweep_from :: "sweep_env \<Rightarrow> string \<Rightarrow> string \<Rightarrow> test_sweep" where
  "sweep_from env target net = snd (start_test_channel env target net init_sweep)"

abbreviation sweep_run :: "sweep_env list \<Rightarrow> test_sweep \<Rightarrow> test_sweep" where
  "sweep_run envs s \<equiv> fold tick_test_channel envs s"

lemma resolve_callable: "list_all callable (resolve_net_call_channels env net)"
proof -
  have "list_all callable (collect_net chs ids)" for chs ids
    by (induction ids) (auto simp: collect_net_def List.map_filter_simps find_Some_iff split: option.splits)
  then show ?thesis by (auto simp: resolve_net_call_channels_def list_all_iff split: option.splits)
qed

lemma started:
  assumes "fst (start_test_channel env target net init_sweep)"
  shows "sweep_inv (sweep_from env target net)" "test_active (sweep_from env target net)"
    "test_target (sweep_from env target net) = target" "test_channels (sweep_from env target net) = resolve_net_call_channels env net"
    "test_idx (sweep_from env target net) = 0" "test_phase (sweep_from env target net) = TP_TUNE"
  using assms resolve_callable [of env net]
  by (auto simp: sweep_from_def start_test_channel_def init_sweep_def sweep_defs tested_def Let_def split: if_splits)



definition sweep_over :: "test_sweep \<Rightarrow> bool" where
  "sweep_over s \<longleftrightarrow> \<not> test_active s \<and> length (test_results s) = length (test_channels s)
     \<and> (\<forall>j < length (test_channels s). result_of (test_channels s ! j) (test_results s ! j))
     \<and> length (answers (sweep_outs s)) = length (test_channels s)
     \<and> (\<exists>m. on_air (sweep_outs s) = concat (map (test_of (test_target s)) (zip (test_channels s) (answers (sweep_outs s))))
         @ (if test_orig_freq_hz s = 0 then [] else [Tune (test_orig_freq_hz s) m]))
     \<and> (\<forall>j < length (test_channels s). \<not> answers (sweep_outs s) ! j \<longrightarrow> test_results s ! j = channel_result (test_channels s ! j) False)
     \<and> test_summary s = sweep_summary (test_target s) (test_results s)"

lemma done_over:
  assumes "sweep_inv s" "test_phase s = TP_DONE"
  shows "sweep_over (tick_done env s)"
proof -
  have "tested (length (test_channels s)) s" "length (test_results s) = length (test_channels s)"
    "\<forall>j < length (test_channels s). result_of (test_channels s ! j) (test_results s ! j)"
    using assms by (auto simp: sweep_inv_def called_def recorded_def)
  then show ?thesis
    by (auto simp: tested_def tick_done_def sweep_over_def resume_scan_def restore_test_channel_def sweep_emit_def emit_test_event_def Let_def)
qed

definition sweep_ok :: "test_sweep \<Rightarrow> bool" where
  "sweep_ok s \<longleftrightarrow> test_active s \<and> sweep_inv s \<or> sweep_over s"

lemma tick_ok:
  assumes "sweep_ok s"
  shows "sweep_ok (tick_test_channel env s)"
proof (cases "test_active s \<and> sweep_inv s")
  case True
  then show ?thesis
  proof (cases "test_phase s = TP_DONE")
    case False
    then have "test_active (tick_test_channel env s)"
      using True by (auto simp: tick_test_channel_def tick_tune_def tick_calling_def tick_settle_def tick_terminating_def
          tick_next_def snapshot_test_score_def sweep_defs Let_def split: test_phase.split)
    then show ?thesis using tick_keeps [of s env] True False by (simp add: sweep_ok_def)
  qed (use True done_over [of s env] in \<open>simp add: tick_test_channel_def sweep_ok_def\<close>)
next
  case False
  then show ?thesis using assms by (auto simp: sweep_ok_def sweep_over_def tick_test_channel_def)
qed

interpretation sweep: event_machine "\<lambda>s env. tick_test_channel env s" sweep_ok
  by unfold_locales (rule tick_ok)

lemma run_keeps: "sweep_ok s \<Longrightarrow> sweep_ok (sweep_run envs s)"
  using sweep.run_inv [of s envs] by (simp add: foldl_conv_fold)



definition refused_at :: "u32 \<Rightarrow> sweep_env" where
  "refused_at now = \<lparr> sw_state = IDLE, sw_now_ms = now, call_placed = False, sw_db = init_database,
     sw_channels = [Channel\<lparr>rx_frequency_hz := 7000000, chan_id := ''A''\<rparr>], sw_net = (\<lambda>_. None), sw_active_net = [],
     sw_current = (5000000, ''USB''), link_hold_sec = 1 \<rparr>"


section \<open>A sweep ends\<close>

text \<open>What a phase waits for.\<close>

definition tick_enabled :: "sweep_env \<Rightarrow> test_sweep \<Rightarrow> bool" where
  "tick_enabled env s \<longleftrightarrow> test_active s \<and>
     (case test_phase s of
        TP_TUNE \<Rightarrow> quiescent env
      | TP_CALLING \<Rightarrow> sw_state env = LINKED \<or> quiescent env \<or> sw_now_ms env \<ge> test_link_deadline_ms s
      | TP_LINKED_SETTLE \<Rightarrow> sw_state env \<noteq> LINKED \<or> sw_now_ms env - test_phase_start_ms s \<ge> dwell_ms env
      | TP_TERMINATING \<Rightarrow> sw_state env \<noteq> LINKED \<or> sw_now_ms env - test_phase_start_ms s > TEST_CHANNEL_LINK_TIMEOUT_MS
      | TP_NEXT \<Rightarrow> quiescent env \<and> sw_now_ms env - test_phase_start_ms s \<ge> Tdrw_ms
      | TP_DONE \<Rightarrow> True | TP_INACTIVE \<Rightarrow> False)"

fun steps_left :: "nat \<Rightarrow> test_phase \<Rightarrow> nat" where
  "steps_left k TP_TUNE = 5 * k + 1"
| "steps_left k TP_CALLING = 5 * k"
| "steps_left k TP_LINKED_SETTLE = 5 * k - 1"
| "steps_left k TP_TERMINATING = 5 * k - 2"
| "steps_left k TP_NEXT = 5 * k - 3"
| "steps_left k TP_DONE = 1"
| "steps_left k TP_INACTIVE = 0"

definition sweep_measure :: "test_sweep \<Rightarrow> nat" where
  "sweep_measure s = (if test_active s then steps_left (length (test_channels s) - test_idx s) (test_phase s) else 0)"

lemma tick_lowers:
  assumes "sweep_inv s" "tick_enabled env s"
  shows "sweep_measure (tick_test_channel env s) < sweep_measure s"
proof -
  have i: "if test_phase s = TP_DONE then test_idx s = length (test_channels s) else test_idx s < length (test_channels s)"
    using assms(1) by (simp add: sweep_inv_def)
  show ?thesis
  proof (cases "test_phase s")
    case TP_TUNE
    with assms i show ?thesis
      by (auto simp: tick_enabled_def tick_test_channel_def tick_tune_def sweep_measure_def sweep_emit_def emit_test_event_def
          set_result_def channel_failed_def Let_def)
  next
    case TP_CALLING
    with assms i show ?thesis
      by (auto simp: tick_enabled_def tick_test_channel_def tick_calling_def sweep_measure_def sweep_emit_def emit_test_event_def
          set_result_def channel_failed_def Let_def)
  next
    case TP_LINKED_SETTLE
    with assms i show ?thesis
      by (auto simp: tick_enabled_def tick_test_channel_def tick_settle_def sweep_measure_def sweep_emit_def emit_test_event_def
          set_result_def snapshot_test_score_def Let_def)
  next
    case TP_TERMINATING
    with assms i show ?thesis
      by (auto simp: tick_enabled_def tick_test_channel_def tick_terminating_def sweep_measure_def sweep_emit_def)
  next
    case TP_NEXT
    with assms i show ?thesis
      by (auto simp: tick_enabled_def tick_test_channel_def tick_next_def sweep_measure_def Let_def)
  next
    case TP_DONE
    with assms i show ?thesis
      by (auto simp: tick_enabled_def tick_test_channel_def tick_done_def sweep_measure_def sweep_emit_def emit_test_event_def
          resume_scan_def restore_test_channel_def Let_def)
  next
    case TP_INACTIVE
    with assms show ?thesis by (simp add: tick_enabled_def)
  qed
qed

lemma tick_waits: "\<not> tick_enabled env s \<Longrightarrow> tick_test_channel env s = s"
  by (cases "test_phase s")
    (auto simp: tick_enabled_def tick_test_channel_def tick_tune_def tick_calling_def tick_settle_def tick_terminating_def tick_next_def Let_def)

fun enabled_ticks :: "sweep_env list \<Rightarrow> test_sweep \<Rightarrow> nat" where
  "enabled_ticks [] s = 0"
| "enabled_ticks (env # envs) s = (if tick_enabled env s then 1 else 0) + enabled_ticks envs (tick_test_channel env s)"

lemma enabled_ticks_bound:
  assumes "sweep_ok s"
  shows "sweep_measure (sweep_run envs s) + enabled_ticks envs s \<le> sweep_measure s"
  using assms
proof (induction envs arbitrary: s)
  case (Cons env envs)
  let ?t = "tick_test_channel env s"
  note ih = Cons.IH [OF tick_ok [OF Cons.prems, of env]]
  show ?case
  proof (cases "tick_enabled env s")
    case True
    then have "sweep_inv s" using Cons.prems by (auto simp: tick_enabled_def sweep_ok_def sweep_over_def)
    from tick_lowers [OF this True] ih True show ?thesis by simp
  qed (use ih tick_waits [of env s] in simp)
qed simp

text \<open>
  C24. A sweep over \<open>n\<close> channels ends. Whatever the radio, the peer and the clock do, a tick that finds what its phase
  waits for happens at most \<open>5 * n + 1\<close> times, the last of so many ends the sweep, and any other tick changes nothing.
  A sweep that is still active is not stuck: its phase goes on in every tick that finds the station idle or scanning
  after the pause of \<open>Tdrw_ms\<close>.
\<close>

theorem sweep_terminates:
  assumes "fst (start_test_channel env target net init_sweep)"
    and "n = length (resolve_net_call_channels env net)" "s = sweep_run envs (sweep_from env target net)"
  shows "enabled_ticks envs (sweep_from env target net) \<le> 5 * n + 1 \<and>
    (enabled_ticks envs (sweep_from env target net) = 5 * n + 1 \<longrightarrow> \<not> test_active s) \<and>
    (\<forall>env'. \<not> tick_enabled env' s \<longrightarrow> tick_test_channel env' s = s) \<and>
    (test_active s \<longrightarrow> (\<forall>env'. quiescent env' \<and> Tdrw_ms \<le> sw_now_ms env' - test_phase_start_ms s \<longrightarrow> tick_enabled env' s))"
proof -
  let ?s = "sweep_from env target net"
  note st = started [OF assms(1)]
  have "sweep_measure ?s = 5 * n + 1" using st assms(2) by (simp add: sweep_measure_def)
  then have bound: "sweep_measure s + enabled_ticks envs ?s \<le> 5 * n + 1"
    using enabled_ticks_bound [of ?s envs] st(1,2) by (simp add: sweep_ok_def assms(3))
  have inv: "test_active s \<Longrightarrow> sweep_inv s"
    using run_keeps [of ?s envs] st(1,2) by (auto simp: sweep_ok_def sweep_over_def assms(3))
  have "sweep_inv s \<Longrightarrow> test_active s \<Longrightarrow> 0 < sweep_measure s"
    by (cases "test_phase s") (auto simp: sweep_measure_def sweep_inv_def split: if_splits)
  moreover have "tick_enabled env' s" if "test_active s" "quiescent env'" "Tdrw_ms \<le> sw_now_ms env' - test_phase_start_ms s" for env'
    using that inv by (auto simp: tick_enabled_def quiescent_def sweep_inv_def split: test_phase.split)
  ultimately show ?thesis using bound inv tick_waits [of _ s] by force
qed

definition answered_at :: "ale_state \<Rightarrow> u32 \<Rightarrow> sweep_env" where
  "answered_at st now = (refused_at now)\<lparr>sw_state := st, call_placed := True\<rparr>"

definition full_sweep :: "sweep_env list" where
  "full_sweep = [answered_at IDLE 0, answered_at LINKED 5000, answered_at LINKED 9000, answered_at IDLE 10000,
     answered_at IDLE 11000, answered_at IDLE 11100]"

text \<open>The bound is attained: on one channel, a call that is answered takes six ticks.\<close>

theorem sweep_terminates_witness:
  "enabled_ticks full_sweep (sweep_from (refused_at 0) ''SAM'' []) = 6 \<and>
   \<not> test_active (sweep_run full_sweep (sweep_from (refused_at 0) ''SAM'' []))"
proof -
  have v: "is_valid_ale_address ''SAM''" by code_simp
  have c: "length (resolve_net_call_channels (refused_at 0) []) = 1"
    by (simp add: resolve_net_call_channels_def refused_at_def callable_def Channel_def)
  then have st: "fst (start_test_channel (refused_at 0) ''SAM'' [] init_sweep)"
    by (auto simp: start_test_channel_def v init_sweep_def quiescent_def Let_def) (simp add: refused_at_def)
  note b = started [OF st]
  define s0 where "s0 = sweep_from (refused_at 0) ''SAM'' []"
  define s1 where "s1 = tick_test_channel (answered_at IDLE 0) s0"
  define s2 where "s2 = tick_test_channel (answered_at LINKED 5000) s1"
  define s3 where "s3 = tick_test_channel (answered_at LINKED 9000) s2"
  define s4 where "s4 = tick_test_channel (answered_at IDLE 10000) s3"
  define s5 where "s5 = tick_test_channel (answered_at IDLE 11000) s4"
  have a: "sw_state (answered_at x t) = x" "sw_now_ms (answered_at x t) = t" "call_placed (answered_at x t)"
    "quiescent (answered_at IDLE t)" "dwell_ms (answered_at x t) \<le> 4000" for x t
    by (simp_all add: answered_at_def refused_at_def quiescent_def dwell_ms_def Tdrw_ms_def)
  note ticks = tick_enabled_def tick_test_channel_def a sweep_emit_def emit_test_event_def set_result_def Let_def
  have 0: "test_phase s0 = TP_TUNE" "test_active s0" "test_idx s0 = 0" "length (test_channels s0) = 1" "\<not> inhibit_calling (test_channels s0 ! 0)"
      "\<not> rx_only (test_channels s0 ! 0)"
    using b c never_skipped [OF b(1,6)] unfolding s0_def by simp_all
  have 1: "tick_enabled (answered_at IDLE 0) s0" "test_phase s1 = TP_CALLING" "test_active s1" "test_idx s1 = 0" "length (test_channels s1) = 1"
    using 0 unfolding s1_def by (simp_all add: ticks tick_tune_def)
  have 2: "tick_enabled (answered_at LINKED 5000) s1" "test_phase s2 = TP_LINKED_SETTLE" "test_active s2" "test_idx s2 = 0"
      "length (test_channels s2) = 1" "test_phase_start_ms s2 = 5000"
    using 1 unfolding s2_def by (simp_all add: ticks tick_calling_def)
  have 3: "tick_enabled (answered_at LINKED 9000) s2" "test_phase s3 = TP_TERMINATING" "test_active s3" "test_idx s3 = 0"
      "length (test_channels s3) = 1"
    using 2 a(5) [of LINKED 9000] unfolding s3_def by (simp_all add: ticks tick_settle_def snapshot_test_score_def not_less)
  have 4: "tick_enabled (answered_at IDLE 10000) s3" "test_phase s4 = TP_NEXT" "test_active s4" "test_idx s4 = 0"
      "length (test_channels s4) = 1" "test_phase_start_ms s4 = 10000"
    using 3 unfolding s4_def by (simp_all add: ticks tick_terminating_def)
  have 5: "tick_enabled (answered_at IDLE 11000) s4" "test_phase s5 = TP_DONE" "test_active s5"
    using 4 unfolding s5_def by (simp_all add: ticks tick_next_def Tdrw_ms_def)
  have 6: "tick_enabled (answered_at IDLE 11100) s5" using 5 by (simp add: tick_enabled_def)
  have "enabled_ticks full_sweep s0 = 6"
    using 1(1) 2(1) 3(1) 4(1) 5(1) 6 by (simp add: full_sweep_def s1_def s2_def s3_def s4_def s5_def)
  with sweep_terminates [OF st c [symmetric] refl, of full_sweep] show ?thesis by (simp add: s0_def)
qed

section \<open>The deadline of a call\<close>

text \<open>
  The time to answer a call is lost when the clock of milliseconds is about to wrap: in the last thirty
  seconds before the wrap, the first tick after a call is placed aborts it.
\<close>

theorem deadline_wraps:
  assumes "2 ^ 32 - 30000 \<le> unat (sw_now_ms env)" "quiescent env" "call_placed env" "test_active s" "sweep_inv s" "test_phase s = TP_TUNE"
    and "sw_state env' = CALLING" "sw_now_ms env' = sw_now_ms env"
  shows "\<exists>hz m ev ev'. sweep_outs (tick_test_channel env' (tick_test_channel env s)) =
    sweep_outs s @ [Tune hz m, Single_Call (test_target s) True, ev, Sweep_Emergency, ev']"
proof -
  let ?t = "tick_test_channel env s" and ?now = "sw_now_ms env"
  have t: "\<exists>hz m ev. sweep_outs ?t = sweep_outs s @ [Tune hz m, Single_Call (test_target s) True, ev]"
      "test_phase ?t = TP_CALLING" "test_active ?t" "test_link_deadline_ms ?t = ?now + 30000"
    using assms(2-6) never_skipped [OF assms(5,6)]
    by (auto simp: tick_test_channel_def tick_tune_def sweep_emit_def emit_test_event_def Let_def TEST_CHANNEL_LINK_TIMEOUT_MS_def)
  have "unat ?now < 2 ^ LENGTH(32)" by (rule unsigned_less)
  then have lt: "unat ?now < 2 ^ 32" by simp
  have "unat (?now + 30000) = (unat ?now + 30000) mod 2 ^ 32" by (simp add: unat_word_ariths)
  also have "\<dots> = unat ?now + 30000 - 2 ^ 32" using assms(1) lt by (simp add: mod_if)
  also have "\<dots> \<le> unat ?now" using lt by simp
  finally have late: "?now + 30000 \<le> ?now" by (simp only: word_le_nat_alt)
  have "\<exists>ev'. sweep_outs (tick_test_channel env' ?t) = sweep_outs ?t @ [Sweep_Emergency, ev']"
    using t(2-4) late assms(7,8)
    by (simp add: tick_test_channel_def tick_calling_def quiescent_def channel_failed_def set_result_def sweep_emit_def emit_test_event_def Let_def)
  then show ?thesis using t(1) by auto
qed

theorem deadline_wraps_witness:
  "\<exists>hz m ev ev'. sweep_outs (tick_test_channel ((refused_at 4294967000)\<lparr>sw_state := CALLING\<rparr>)
      (tick_test_channel ((refused_at 4294967000)\<lparr>call_placed := True\<rparr>) (sweep_from (refused_at 0) ''SAM'' []))) =
    sweep_outs (sweep_from (refused_at 0) ''SAM'' []) @ [Tune hz m, Single_Call ''SAM'' True, ev, Sweep_Emergency, ev']"
proof -
  have v: "is_valid_ale_address ''SAM''" by code_simp
  have st: "fst (start_test_channel (refused_at 0) ''SAM'' [] init_sweep)"
    by (simp add: start_test_channel_def v init_sweep_def quiescent_def resolve_net_call_channels_def callable_def Channel_def refused_at_def)
  note b = started [OF st]
  show ?thesis
    using deadline_wraps [of "(refused_at 4294967000)\<lparr>call_placed := True\<rparr>" "sweep_from (refused_at 0) ''SAM'' []"
        "(refused_at 4294967000)\<lparr>sw_state := CALLING\<rparr>"] b
    by (simp add: refused_at_def quiescent_def)
qed

end
