(* ===== verification/Ctl_Calls.thy ===== *)
theory Ctl_Calls
  imports Ctl_Test
begin

text \<open>
  Placing calls and scanning (\<open>initiate_call\<close>, \<open>initiate_single_channel_call\<close>, \<open>initiate_group_call\<close>,
  \<open>start_scanning\<close>, \<open>set_power\<close> of \<open>src/App/ale_controller.cpp\<close>) and the position reports
  (\<open>tick_position_report\<close>). An operation returns whether it went through and what it asks of the state machine,
  the channel detector and the exchange, in order. The stores of contacts and nets are functions of the
  environment.
\<close>

record net_policy =
  net_channel_ids :: "string list"
  net_dwell_ms :: u32
  calling_length_c :: u32

record call_env =
  ce_channels :: "channel list"
  ce_net :: "string \<Rightarrow> net_policy option"
  ce_active_net :: string
  ce_contact_nets :: "string \<Rightarrow> string list"
  assumed_scan_channels :: u32
  ce_exchange_enabled :: bool
  ce_broadcasting :: bool
  ce_freq :: u32
  ce_db :: lqa_database
  ce_cfg :: analyzer_config
  ce_ctx :: propagation_context
  ce_clock :: u32
  scan_dwell_ms :: u32
  sm_accepts :: bool

datatype call_output =
  Set_Calling_Channels "channel list"
| Set_This_Channel u32
| Set_Target_Scan_Channels u32
| Queue_Quality u32 string
| Set_Lbt_Shared bool
| Clear_Busy_Latch
| Sm_Call string
| Sm_Group_Call "string list"
| Call_Sent string
| Configure_Scan u32 "channel list"
| Sm_Start_Scan

section \<open>Calls\<close>

definition may_call :: "channel \<Rightarrow> bool" where
  "may_call ch \<longleftrightarrow> \<not> inhibit_calling ch \<and> \<not> rx_only ch"

definition active_net_policy :: "call_env \<Rightarrow> net_policy option" where
  "active_net_policy env = (if ce_active_net env = [] then None else ce_net env (ce_active_net env))"

definition scope_to_net :: "call_env \<Rightarrow> channel list \<Rightarrow> channel list" where
  "scope_to_net env chs =
     (case active_net_policy env of None \<Rightarrow> chs
      | Some net \<Rightarrow> (let scoped = filter (\<lambda>ch. chan_id ch \<in> set (net_channel_ids net)) chs in if scoped \<noteq> [] then scoped else chs))"

text \<open>The width of a scanning call: that of the first known net of the contacts.\<close>

definition call_width :: "call_env \<Rightarrow> string list \<Rightarrow> u32" where
  "call_width env targets =
     (case find (\<lambda>nm. ce_net env nm \<noteq> None) (concat (map (ce_contact_nets env) targets)) of
        None \<Rightarrow> assumed_scan_channels env
      | Some nm \<Rightarrow> (case ce_net env nm of Some net \<Rightarrow> calling_length_c net | None \<Rightarrow> assumed_scan_channels env))"

definition lbt_policy :: "channel list \<Rightarrow> call_output" where
  "lbt_policy chs = Set_Lbt_Shared (\<not> (chs \<noteq> [] \<and> list_all ale_only chs))"

definition ctl_initiate_call :: "call_env \<Rightarrow> string \<Rightarrow> bool \<times> call_output list" where
  "ctl_initiate_call env target =
     (if \<not> is_valid_ale_address target \<or> ce_broadcasting env then (False, [])
      else let allowed = filter may_call (ce_channels env)
        in if ce_channels env \<noteq> [] \<and> allowed = [] then (False, [])
           else let allowed = scope_to_net env allowed;
                    ordered = (if allowed \<noteq> [] then rank_channels_for_call (ce_cfg env) (ce_ctx env) (ce_clock env) target allowed
                                 LINK_ESTABLISHMENT (ce_db env) else ce_channels env);
                    first = (if allowed \<noteq> [] then rx_frequency_hz (hd ordered) else 0)
             in (sm_accepts env,
                 [Set_Calling_Channels ordered, Set_Target_Scan_Channels (call_width env [target])]
                 @ (if ce_exchange_enabled env \<and> \<not> reporting_inhibited (ce_channels env) first then [Queue_Quality first target] else [])
                 @ [lbt_policy allowed, Clear_Busy_Latch, Sm_Call target]
                 @ (if sm_accepts env then [Call_Sent target] else [])))"

definition ctl_initiate_single_channel_call :: "call_env \<Rightarrow> string \<Rightarrow> bool \<times> call_output list" where
  "ctl_initiate_single_channel_call env target =
     (if \<not> is_valid_ale_address target \<or> tx_inhibited (ce_channels env) (ce_freq env) then (False, [])
      else (sm_accepts env,
        [Set_This_Channel (ce_freq env),
         lbt_policy (case find_channel_by_freq (ce_channels env) (ce_freq env) of Some ch \<Rightarrow> [ch] | None \<Rightarrow> []),
         Clear_Busy_Latch, Set_Target_Scan_Channels (call_width env [target])]
        @ (if ce_exchange_enabled env \<and> \<not> reporting_inhibited (ce_channels env) (ce_freq env) then [Queue_Quality (ce_freq env) target] else [])
        @ [Sm_Call target]))"

definition ctl_initiate_group_call :: "call_env \<Rightarrow> string list \<Rightarrow> bool \<times> call_output list" where
  "ctl_initiate_group_call env members =
     (if members = [] \<or> \<not> list_all is_valid_ale_address members then (False, [])
      else let allowed = scope_to_net env (filter may_call (ce_channels env))
        in (sm_accepts env,
            [Set_Target_Scan_Channels (call_width env members)]
            @ (if allowed \<noteq> [] then [Set_Calling_Channels allowed] else [])
            @ [Clear_Busy_Latch, Sm_Group_Call members]))"

text \<open>The power of the current channel: the list of all channels goes to the state machine when it changes.\<close>

fun store_power :: "u32 \<Rightarrow> u8 \<Rightarrow> channel list \<Rightarrow> (channel list) option" where
  "store_power hz pct [] = None"
| "store_power hz pct (ch # chs) =
     (if rx_frequency_hz ch \<noteq> hz then map_option (Cons ch) (store_power hz pct chs)
      else if power_pct ch \<noteq> pct then Some (ch\<lparr>power_pct := pct\<rparr> # chs) else None)"

definition ctl_set_power :: "call_env \<Rightarrow> int \<Rightarrow> channel list \<times> call_output list" where
  "ctl_set_power env pct =
     (case store_power (ce_freq env) (of_int (max 0 (min 100 pct))) (ce_channels env) of
        None \<Rightarrow> (ce_channels env, [])
      | Some chs \<Rightarrow> (chs, [Set_Calling_Channels chs]))"

section \<open>Scanning\<close>

definition scannable :: "channel \<Rightarrow> bool" where
  "scannable ch \<longleftrightarrow> chan_enabled ch \<and> \<not> tx_only ch"

definition from_quality :: "call_env \<Rightarrow> channel \<Rightarrow> rat" where
  "from_quality env ch =
     (case get_entry (rx_frequency_hz ch) [] (ce_db env) of None \<Rightarrow> 0 | Some e \<Rightarrow> if le_sinad e > 0 then le_sinad e else 0)"

definition scan_list_of :: "call_env \<Rightarrow> u32 \<times> channel list" where
  "scan_list_of env =
     (let all = filter scannable (ce_channels env)
      in case active_net_policy env of None \<Rightarrow> (scan_dwell_ms env, all)
         | Some net \<Rightarrow> (let own = filter (\<lambda>ch. chan_id ch \<in> set (net_channel_ids net)) all
                        in if own = [] then (scan_dwell_ms env, all) else (net_dwell_ms net, own)))"

definition ctl_start_scanning :: "call_env \<Rightarrow> call_output list" where
  "ctl_start_scanning env =
     (let (dwell, chs) = scan_list_of env
      in (if chs \<noteq> [] then [Configure_Scan dwell (stable_sort (\<lambda>a b. from_quality env a > from_quality env b) chs)] else []) @ [Sm_Start_Scan])"

section \<open>Which channels a call uses\<close>

lemma mset_rank_channels: "mset (rank_channels_for_call cfg prop clock st chs mode db) = mset chs"
  by (simp add: rank_channels_for_call_def mset_stable_sort)

lemma scope_nonempty: "chs \<noteq> [] \<Longrightarrow> scope_to_net env chs \<noteq> []"
  by (auto simp: scope_to_net_def Let_def split: option.splits)

lemma scope_subset: "set (scope_to_net env chs) \<subseteq> set chs"
  by (auto simp: scope_to_net_def Let_def split: option.splits)

text \<open>
  C27. A call to a single station that is placed goes out on a list of channels set for it, a rearrangement of exactly
  these: of the channels on which neither calling is forbidden nor transmitting at all, those the selected net lists,
  or all of them when no net is selected or the net lists none of them. The pause before transmitting is the short one
  exactly when all of the channels are reserved for ALE.
\<close>

theorem call_uses_permitted_channels:
  assumes "Sm_Call target \<in> set (snd (ctl_initiate_call env target))" "ce_channels env \<noteq> []"
  shows "\<exists>cs rest. snd (ctl_initiate_call env target) = Set_Calling_Channels cs # rest \<and> (\<forall>cs'. Set_Calling_Channels cs' \<notin> set rest)
    \<and> cs \<noteq> [] \<and> (\<forall>ch \<in> set cs. \<not> inhibit_calling ch \<and> \<not> rx_only ch)
    \<and> (let permitted = filter (\<lambda>ch. \<not> inhibit_calling ch \<and> \<not> rx_only ch) (ce_channels env);
           ids = (case (if ce_active_net env = [] then None else ce_net env (ce_active_net env)) of None \<Rightarrow> []
                  | Some net \<Rightarrow> net_channel_ids net);
           own = filter (\<lambda>ch. chan_id ch \<in> set ids) permitted
       in mset cs = mset (if own = [] then permitted else own))
    \<and> (Set_Lbt_Shared False \<in> set rest \<longleftrightarrow> list_all ale_only cs)"
proof -
  let ?allowed = "filter may_call (ce_channels env)"
  let ?scoped = "scope_to_net env ?allowed"
  let ?cs = "rank_channels_for_call (ce_cfg env) (ce_ctx env) (ce_clock env) target ?scoped LINK_ESTABLISHMENT (ce_db env)"
  have ok: "is_valid_ale_address target" "\<not> ce_broadcasting env" "?allowed \<noteq> []"
    using assms by (auto simp: ctl_initiate_call_def split: if_splits)
  have ne: "?scoped \<noteq> []" using scope_nonempty [OF ok(3)] .
  have m: "mset ?cs = mset ?scoped" by (rule mset_rank_channels)
  then have s: "set ?cs = set ?scoped" by (rule mset_eq_setD)
  let ?rest = "Set_Target_Scan_Channels (call_width env [target])
     # (if ce_exchange_enabled env \<and> \<not> reporting_inhibited (ce_channels env) (rx_frequency_hz (hd ?cs))
        then [Queue_Quality (rx_frequency_hz (hd ?cs)) target] else [])
     @ [lbt_policy ?scoped, Clear_Busy_Latch, Sm_Call target] @ (if sm_accepts env then [Call_Sent target] else [])"
  have "snd (ctl_initiate_call env target) = Set_Calling_Channels ?cs # ?rest"
    unfolding ctl_initiate_call_def Let_def using ok ne by simp
  moreover have "Set_Calling_Channels cs' \<notin> set ?rest" for cs' by (auto simp: lbt_policy_def)
  moreover have "?cs \<noteq> []" using ne s by fastforce
  moreover have "\<forall>ch \<in> set ?cs. \<not> inhibit_calling ch \<and> \<not> rx_only ch"
    using scope_subset [of env ?allowed] by (auto simp: s may_call_def)
  moreover have "?scoped = (let permitted = filter (\<lambda>ch. \<not> inhibit_calling ch \<and> \<not> rx_only ch) (ce_channels env);
      ids = (case (if ce_active_net env = [] then None else ce_net env (ce_active_net env)) of None \<Rightarrow> [] | Some net \<Rightarrow> net_channel_ids net);
      own = filter (\<lambda>ch. chan_id ch \<in> set ids) permitted
    in if own = [] then permitted else own)"
    by (simp add: scope_to_net_def active_net_policy_def may_call_def [abs_def] Let_def split: option.split)
  moreover have "Set_Lbt_Shared False \<in> set ?rest \<longleftrightarrow> list_all ale_only ?cs" using ne by (auto simp: lbt_policy_def list_all_iff s)
  ultimately show ?thesis using m by (metis (no_types, lifting))
qed

definition one_channel :: "channel \<Rightarrow> call_env" where
  "one_channel ch = \<lparr> ce_channels = [ch], ce_net = (\<lambda>_. None), ce_active_net = [], ce_contact_nets = (\<lambda>_. []), assumed_scan_channels = 10,
     ce_exchange_enabled = True, ce_broadcasting = False, ce_freq = rx_frequency_hz ch, ce_db = init_database, ce_cfg = AnalyzerConfig,
     ce_ctx = \<lparr> position_valid = False, elevation_now = 0, sfi_current = 0 \<rparr>, ce_clock = 1000, scan_dwell_ms = 200, sm_accepts = True \<rparr>"

theorem call_uses_permitted_channels_witness:
  "\<exists>cs rest. snd (ctl_initiate_call (one_channel (Channel\<lparr>rx_frequency_hz := 7000000\<rparr>)) ''SAM'') = Set_Calling_Channels cs # rest
     \<and> mset cs = {#Channel\<lparr>rx_frequency_hz := 7000000\<rparr>#}"
proof -
  let ?env = "one_channel (Channel\<lparr>rx_frequency_hz := 7000000\<rparr>)"
  have v: "is_valid_ale_address ''SAM''" by code_simp
  have f: "filter may_call (ce_channels ?env) \<noteq> []" by (simp add: one_channel_def may_call_def Channel_def)
  have b: "\<not> ce_broadcasting ?env" by (simp add: one_channel_def)
  have c: "ce_channels ?env = [Channel\<lparr>rx_frequency_hz := 7000000\<rparr>]" "ce_active_net ?env = []" by (simp_all add: one_channel_def)
  have p: "\<not> inhibit_calling (Channel\<lparr>rx_frequency_hz := 7000000\<rparr>)" "\<not> rx_only (Channel\<lparr>rx_frequency_hz := 7000000\<rparr>)"
    by (simp_all add: Channel_def)
  have "Sm_Call ''SAM'' \<in> set (snd (ctl_initiate_call ?env ''SAM''))"
    unfolding ctl_initiate_call_def Let_def using v f b by simp
  from call_uses_permitted_channels [OF this] show ?thesis by (auto simp: c p Let_def)
qed

text \<open>
  A group call does not refuse where an individual call does: with calling forbidden on every channel it
  is still placed, and on whatever channels the state machine had before.
\<close>

theorem group_call_on_old_channels:
  assumes "members \<noteq> []" "list_all is_valid_ale_address members" "ce_channels env \<noteq> []" "list_all (\<lambda>ch. \<not> may_call ch) (ce_channels env)"
  shows "Sm_Group_Call members \<in> set (snd (ctl_initiate_group_call env members)) \<and>
    (\<forall>cs. Set_Calling_Channels cs \<notin> set (snd (ctl_initiate_group_call env members))) \<and>
    (\<forall>m. ctl_initiate_call env m = (False, []))"
proof -
  have "filter may_call (ce_channels env) = []" using assms(4) by (simp add: filter_empty_conv list_all_iff)
  moreover have "scope_to_net env [] = []" by (simp add: scope_to_net_def Let_def split: option.split)
  ultimately show ?thesis using assms(1-3) by (simp add: ctl_initiate_group_call_def ctl_initiate_call_def)
qed

theorem group_call_on_old_channels_witness:
  "Sm_Group_Call [''SAM'', ''BOB''] \<in> set (snd (ctl_initiate_group_call (one_channel (Channel\<lparr>rx_only := True\<rparr>)) [''SAM'', ''BOB'']))"
proof -
  have v: "list_all is_valid_ale_address [''SAM'', ''BOB'']" by code_simp
  show ?thesis
    using group_call_on_old_channels [OF _ v, of "one_channel (Channel\<lparr>rx_only := True\<rparr>)"] by (simp add: one_channel_def may_call_def)
qed

section \<open>The scan list\<close>

text \<open>
  A scan runs over enabled channels that can receive, the ones heard better first, those of equal
  quality in the order of the list; with none of them it starts on the list of the scan before.
\<close>

theorem scan_list_ranked:
  "(\<exists>dwell cs. ctl_start_scanning env = [Configure_Scan dwell cs, Sm_Start_Scan] \<and> cs \<noteq> [] \<and> list_all scannable cs \<and>
      mset cs = mset (snd (scan_list_of env)) \<and> sorted_wrt (\<lambda>a b. from_quality env b \<le> from_quality env a) cs)
   \<or> ctl_start_scanning env = [Sm_Start_Scan] \<and> list_all (\<lambda>ch. \<not> scannable ch) (ce_channels env)"
proof -
  let ?lt = "\<lambda>a b. from_quality env a > from_quality env b"
  obtain dwell chs where l: "scan_list_of env = (dwell, chs)" by (cases "scan_list_of env")
  have scan: "list_all scannable chs" "chs = [] \<Longrightarrow> list_all (\<lambda>ch. \<not> scannable ch) (ce_channels env)"
    using l by (auto simp: scan_list_of_def Let_def list_all_iff filter_empty_conv split: option.splits if_splits)
  let ?cs = "stable_sort ?lt chs"
  have m: "mset ?cs = mset chs" by (rule mset_stable_sort)
  then have s: "set ?cs = set chs" by (rule mset_eq_setD)
  have "sorted_wrt (\<lambda>a b. \<not> ?lt b a) ?cs" by (rule sorted_stable_sort) auto
  then have o: "sorted_wrt (\<lambda>a b. from_quality env b \<le> from_quality env a) ?cs" by (simp add: not_less)
  show ?thesis
  proof (cases "chs = []")
    case False
    then have "?cs \<noteq> []" using s by fastforce
    then show ?thesis using False m o scan(1) s by (simp add: ctl_start_scanning_def l list_all_iff)
  qed (simp add: ctl_start_scanning_def l scan(2))
qed

section \<open>A change of power during a call\<close>

lemma store_power_keeps:
  "store_power hz pct chs = Some chs' \<Longrightarrow> map rx_frequency_hz chs' = map rx_frequency_hz chs \<and> map may_call chs' = map may_call chs"
  by (induction hz pct chs arbitrary: chs' rule: store_power.induct) (auto simp: may_call_def split: if_splits)

text \<open>
  Setting another power hands all channels to the state machine, those closed to calling with them: a
  call under way goes on over the unfiltered list.
\<close>

theorem power_change_unfilters_call:
  assumes "snd (ctl_set_power env pct) \<noteq> []" "ch \<in> set (ce_channels env)" "\<not> may_call ch"
  shows "\<exists>cs. snd (ctl_set_power env pct) = [Set_Calling_Channels cs] \<and>
    (\<exists>c \<in> set cs. \<not> may_call c \<and> rx_frequency_hz c = rx_frequency_hz ch)"
proof -
  obtain cs where cs: "store_power (ce_freq env) (of_int (max 0 (min 100 pct))) (ce_channels env) = Some cs"
    using assms(1) by (auto simp: ctl_set_power_def split: option.splits)
  note keep = store_power_keeps [OF cs]
  obtain i where i: "i < length (ce_channels env)" "ce_channels env ! i = ch" using assms(2) by (auto simp: in_set_conv_nth)
  have n: "length cs = length (ce_channels env)" using keep by (metis length_map)
  have "rx_frequency_hz (cs ! i) = rx_frequency_hz ch \<and> may_call (cs ! i) = may_call ch"
    using keep i n by (metis nth_map)
  then show ?thesis using cs i(1) n assms(3) by (auto simp: ctl_set_power_def intro: nth_mem)
qed

theorem power_change_unfilters_call_witness:
  "\<exists>cs. snd (ctl_set_power ((one_channel (Channel\<lparr>rx_frequency_hz := 7000000\<rparr>))\<lparr>ce_channels :=
      [Channel\<lparr>rx_frequency_hz := 7000000\<rparr>, Channel\<lparr>rx_frequency_hz := 5000000, rx_only := True\<rparr>]\<rparr>) 50) = [Set_Calling_Channels cs] \<and>
    (\<exists>c \<in> set cs. \<not> may_call c \<and> rx_frequency_hz c = 5000000)"
  using power_change_unfilters_call [of "(one_channel (Channel\<lparr>rx_frequency_hz := 7000000\<rparr>))\<lparr>ce_channels :=
      [Channel\<lparr>rx_frequency_hz := 7000000\<rparr>, Channel\<lparr>rx_frequency_hz := 5000000, rx_only := True\<rparr>]\<rparr>" 50
    "Channel\<lparr>rx_frequency_hz := 5000000, rx_only := True\<rparr>"]
  by (simp add: ctl_set_power_def one_channel_def Channel_def may_call_def)

section \<open>Position reports\<close>

datatype report_mode = PR_NONE | PR_INTERVAL | PR_ON_CHANGE

record report_env =
  pr_enabled :: bool
  pr_mode :: report_mode
  pr_target :: string
  pr_state :: ale_state
  pr_now_ms :: u32
  pr_position :: "(rat \<times> rat) option"
  pr_interval_min :: u32
  pr_change_m :: rat
  pr_distance_m :: "rat \<times> rat \<Rightarrow> rat \<times> rat \<Rightarrow> rat"
  pr_text :: string
  pr_sent_ok :: bool

record report_state =
  last_report_ms :: u32
  last_reported :: "(rat \<times> rat) option"
  pr_sends :: "(string \<times> string) list"

definition report_due :: "report_env \<Rightarrow> rat \<times> rat \<Rightarrow> report_state \<Rightarrow> bool" where
  "report_due env pos s =
     (if pr_mode env = PR_INTERVAL
      then pr_interval_min env * 60000 \<noteq> 0 \<and> pr_now_ms env - last_report_ms s \<ge> pr_interval_min env * 60000
      else case last_reported s of None \<Rightarrow> True
        | Some prev \<Rightarrow> pr_now_ms env - last_report_ms s \<ge> 60000 \<and> pr_distance_m env pos prev \<ge> pr_change_m env)"

definition tick_position_report :: "report_env \<Rightarrow> report_state \<Rightarrow> report_state" where
  "tick_position_report env s =
     (if \<not> pr_enabled env \<or> pr_mode env = PR_NONE \<or> pr_target env = [] then s
      else if pr_state env \<noteq> IDLE \<and> pr_state env \<noteq> SCANNING then s
      else case pr_position env of None \<Rightarrow> s
        | Some pos \<Rightarrow>
            if \<not> report_due env pos s \<or> pr_text env = [] then s
            else let s = s\<lparr>pr_sends := pr_sends s @ [(pr_target env, pr_text env)], last_report_ms := pr_now_ms env\<rparr>
              in if pr_sent_ok env then s\<lparr>last_reported := Some pos\<rparr> else s)"

definition report_floor :: "report_env \<Rightarrow> u32" where
  "report_floor env = (if pr_mode env = PR_INTERVAL then pr_interval_min env * 60000 else 60000)"

lemma not_due: "(\<And>pos. \<not> report_due e pos s) \<Longrightarrow> tick_position_report e s = s"
  by (auto simp: tick_position_report_def split: option.splits)

text \<open>
  Two reports are never closer than the interval, or than a minute when they follow changes of the
  position, once a report has gone out.
\<close>

theorem position_reports_spaced:
  assumes "pr_sends (tick_position_report env s) \<noteq> pr_sends s" "pr_sent_ok env"
    and "\<forall>e \<in> set es. pr_mode e = pr_mode env \<and> pr_interval_min e = pr_interval_min env \<and> pr_now_ms e - pr_now_ms env < report_floor env"
  shows "pr_sends (fold tick_position_report es (tick_position_report env s)) = pr_sends s @ [(pr_target env, pr_text env)]"
proof -
  let ?t = "tick_position_report env s"
  have t: "pr_sends ?t = pr_sends s @ [(pr_target env, pr_text env)]" "last_report_ms ?t = pr_now_ms env" "last_reported ?t \<noteq> None"
    using assms(1,2) by (auto simp: tick_position_report_def Let_def split: option.splits if_splits)
  have "fold tick_position_report es ?t = ?t" using assms(3)
  proof (induction es)
    case (Cons e es)
    have "\<not> report_due e pos ?t" for pos using Cons.prems t(2,3) by (auto simp: report_due_def report_floor_def not_le split: if_splits)
    then have "tick_position_report e ?t = ?t" by (rule not_due)
    then show ?case using Cons by simp
  qed simp
  then show ?thesis using t(1) by simp
qed

text \<open>
  Before the first report has gone out nothing holds the reports on change apart: a send that fails is
  tried again on every tick.
\<close>

theorem failed_report_every_tick:
  assumes "last_reported s = None"
    and "\<forall>e \<in> set es. pr_enabled e \<and> pr_mode e = PR_ON_CHANGE \<and> pr_target e = tgt \<and> tgt \<noteq> [] \<and> pr_state e = IDLE \<and> pr_position e \<noteq> None
      \<and> pr_text e = txt \<and> txt \<noteq> [] \<and> \<not> pr_sent_ok e"
  shows "pr_sends (fold tick_position_report es s) = pr_sends s @ replicate (length es) (tgt, txt)"
  using assms
proof (induction es arbitrary: s)
  case (Cons e es)
  have "pr_sends (tick_position_report e s) = pr_sends s @ [(tgt, txt)]" "last_reported (tick_position_report e s) = None"
  proof -
    have e: "pr_enabled e" "pr_mode e = PR_ON_CHANGE" "pr_target e = tgt" "tgt \<noteq> []" "pr_state e = IDLE" "pr_text e = txt" "txt \<noteq> []"
        "\<not> pr_sent_ok e" using Cons.prems(2) by simp_all
    obtain pos where "pr_position e = Some pos" using Cons.prems(2) by auto
    with e Cons.prems(1) show "pr_sends (tick_position_report e s) = pr_sends s @ [(tgt, txt)]"
        "last_reported (tick_position_report e s) = None"
      by (simp_all add: tick_position_report_def report_due_def)
  qed
  moreover have "\<forall>e \<in> set es. pr_enabled e \<and> pr_mode e = PR_ON_CHANGE \<and> pr_target e = tgt \<and> tgt \<noteq> [] \<and> pr_state e = IDLE
      \<and> pr_position e \<noteq> None \<and> pr_text e = txt \<and> txt \<noteq> [] \<and> \<not> pr_sent_ok e" using Cons.prems(2) by (meson list.set_intros(2))
  ultimately show ?case using Cons.IH [of "tick_position_report e s"] by simp
qed simp

definition reporting :: "report_mode \<Rightarrow> u32 \<Rightarrow> bool \<Rightarrow> report_env" where
  "reporting mode now ok = \<lparr> pr_enabled = True, pr_mode = mode, pr_target = ''SAM'', pr_state = IDLE, pr_now_ms = now,
     pr_position = Some (48, 11), pr_interval_min = 5, pr_change_m = 100, pr_distance_m = (\<lambda>_ _. 500), pr_text = ''POS'', pr_sent_ok = ok \<rparr>"

definition no_report :: report_state where
  "no_report = \<lparr> last_report_ms = 0, last_reported = None, pr_sends = [] \<rparr>"

theorem position_reports_spaced_witness:
  "pr_sends (fold tick_position_report [reporting PR_INTERVAL 500000 True, reporting PR_INTERVAL 599999 True]
     (tick_position_report (reporting PR_INTERVAL 300000 True) no_report)) = [(''SAM'', ''POS'')]"
  using position_reports_spaced [of "reporting PR_INTERVAL 300000 True" no_report
      "[reporting PR_INTERVAL 500000 True, reporting PR_INTERVAL 599999 True]"]
  by (simp add: reporting_def no_report_def tick_position_report_def report_due_def report_floor_def)

theorem failed_report_every_tick_witness:
  "length (pr_sends (fold tick_position_report (replicate 3 (reporting PR_ON_CHANGE 1000 False)) no_report)) = 3"
  using failed_report_every_tick [of no_report "replicate 3 (reporting PR_ON_CHANGE 1000 False)" "''SAM''" "''POS''"]
  by (simp add: reporting_def no_report_def)

end
