(* ===== verification/Ctl_Ptt.thy ===== *)
theory Ctl_Ptt
  imports Ctl_State Modulator
begin

text \<open>
  Keying the transmitter (\<open>wire_callbacks\<close>, \<open>set_manual_ptt\<close>, \<open>tick_ptt_timing\<close>, \<open>tick_sm\<close>, \<open>emergency_stop\<close> of
  \<open>src/App/ale_controller.cpp\<close>): the state machine asks for reception or transmission, the controller keys the
  radio, holds the words back for the lead time and releases the key after the tail. The radio and the
  receiver are the flags \<open>ptt_keyed\<close> and \<open>demod_enabled\<close>, the queue of frames is the model of \<open>Modulator\<close>.
  The emergency of the state machine is what it does to the controller: in a link it sends the words that
  end it, then, unless it was idle, it asks for reception.
\<close>

record ptt_env =
  pt_now_ms :: u32
  pt_freq :: u32
  pt_configured :: "channel list"
  ptt_lead_ms :: u32
  ptt_tail_ms :: u32
  audio_latency :: "u32 option"
  pt_state :: ale_state
  ending_words :: "ale_word list"

datatype ptt_output =
  Word_Tx ale_word u32
| Ptt_Event bool
| Arm_Frame_Complete ale_word
| Emergency_Control
| Extend_Peer_Wait u32

record tx_path =
  sm_rx_enabled :: bool
  manual_ptt :: bool
  abort_tx_pending :: bool
  ptt_lead_deadline_ms :: u32
  ptt_tail_deadline_ms :: u32
  ptt_tail_armed_delay_ms :: u32
  pending_tx_words :: "(ale_word \<times> bool) list"
  demod_enabled :: bool
  ptt_keyed :: bool
  tx_modulator :: modulator
  tx_word_seq :: u32
  tx_outs :: "ptt_output list"

definition init_tx_path :: tx_path where
  "init_tx_path = \<lparr> sm_rx_enabled = True, manual_ptt = False, abort_tx_pending = False, ptt_lead_deadline_ms = 0,
     ptt_tail_deadline_ms = 0, ptt_tail_armed_delay_ms = 0, pending_tx_words = [], demod_enabled = True, ptt_keyed = False,
     tx_modulator = init_modulator, tx_word_seq = 0, tx_outs = [] \<rparr>"

definition tx_emit :: "ptt_output \<Rightarrow> tx_path \<Rightarrow> tx_path" where
  "tx_emit out s = s\<lparr>tx_outs := tx_outs s @ [out]\<rparr>"

definition set_ptt_and_notify :: "bool \<Rightarrow> tx_path \<Rightarrow> tx_path" where
  "set_ptt_and_notify on s = tx_emit (Ptt_Event on) (s\<lparr>ptt_keyed := on\<rparr>)"

text \<open>A word goes to the modulator, and its completion is asked of the audio device where there is one.\<close>

definition hand_to_modulator :: "bool \<Rightarrow> ale_word \<Rightarrow> tx_path \<Rightarrow> tx_path" where
  "hand_to_modulator armed w s =
     (let s = s\<lparr>tx_modulator := enqueue_word w (tx_modulator s)\<rparr> in if armed then tx_emit (Arm_Frame_Complete w) s else s)"

definition on_transmit :: "ptt_env \<Rightarrow> ale_word \<Rightarrow> tx_path \<Rightarrow> tx_path" where
  "on_transmit env w s =
     (let s = tx_emit (Word_Tx w (tx_word_seq s)) (s\<lparr>tx_word_seq := tx_word_seq s + 1\<rparr>); dev = audio_latency env \<noteq> None
      in if ptt_lead_deadline_ms s > 0 then s\<lparr>pending_tx_words := pending_tx_words s @ [(w, dev)]\<rparr>
         else hand_to_modulator dev w s)"

definition effective_tail_ms :: "ptt_env \<Rightarrow> u32" where
  "effective_tail_ms env = ptt_tail_ms env + (case audio_latency env of None \<Rightarrow> 0 | Some l \<Rightarrow> l)"

definition enable_receiver :: "ptt_env \<Rightarrow> tx_path \<Rightarrow> tx_path" where
  "enable_receiver env s = (if rx_inhibited (pt_configured env) (pt_freq env) then s else s\<lparr>demod_enabled := True\<rparr>)"

definition on_rx_enabled :: "ptt_env \<Rightarrow> bool \<Rightarrow> tx_path \<Rightarrow> tx_path" where
  "on_rx_enabled env rx_on s =
     (if rx_on = sm_rx_enabled s then s
      else
        let s = s\<lparr>sm_rx_enabled := rx_on\<rparr>
        in if manual_ptt s then tx_emit (Ptt_Event (\<not> rx_on)) (if \<not> rx_on then s\<lparr>demod_enabled := False\<rparr> else s)
           else if rx_on then
             let s = s\<lparr>ptt_lead_deadline_ms := 0, pending_tx_words := []\<rparr>
             in if effective_tail_ms env > 0
                then s\<lparr>ptt_tail_deadline_ms := pt_now_ms env + effective_tail_ms env, ptt_tail_armed_delay_ms := effective_tail_ms env\<rparr>
                else enable_receiver env (set_ptt_and_notify False s)
           else if pt_freq env > 0 \<and> tx_inhibited (pt_configured env) (pt_freq env)
             then tx_emit (Ptt_Event False) (s\<lparr>abort_tx_pending := True\<rparr>)
           else (set_ptt_and_notify True (s\<lparr>ptt_tail_deadline_ms := 0, demod_enabled := False\<rparr>))
                  \<lparr>ptt_lead_deadline_ms := (if ptt_lead_ms env > 0 then pt_now_ms env + ptt_lead_ms env else 0)\<rparr>)"

definition send_ending :: "ptt_env \<Rightarrow> tx_path \<Rightarrow> tx_path" where
  "send_ending env s = fold (on_transmit env) (if pt_state env = LINKED then ending_words env else []) s"

definition sm_emergency :: "ptt_env \<Rightarrow> tx_path \<Rightarrow> tx_path" where
  "sm_emergency env s =
     (let s = send_ending env (tx_emit Emergency_Control s)
      in if pt_state env = IDLE then s else on_rx_enabled env True s)"

definition set_manual_ptt :: "ptt_env \<Rightarrow> bool \<Rightarrow> tx_path \<Rightarrow> tx_path" where
  "set_manual_ptt env on s =
     (let s = s\<lparr>manual_ptt := on\<rparr>
      in if on \<and> tx_inhibited (pt_configured env) (pt_freq env) then s\<lparr>manual_ptt := False\<rparr>
         else if on then
           let s = set_ptt_and_notify True (s\<lparr>ptt_tail_deadline_ms := 0, ptt_lead_deadline_ms := 0, pending_tx_words := [], demod_enabled := False\<rparr>);
               s = (if pt_state env = CALLING \<or> pt_state env = HANDSHAKE \<or> pt_state env = SOUNDING then sm_emergency env s else s)
           in tx_emit (Ptt_Event True) s
         else tx_emit (Ptt_Event False) (if sm_rx_enabled s then (set_ptt_and_notify False s)\<lparr>demod_enabled := True\<rparr> else s))"

definition flush_lead :: "ptt_env \<Rightarrow> tx_path \<Rightarrow> tx_path" where
  "flush_lead env s =
     (if ptt_lead_deadline_ms s > 0 \<and> pt_now_ms env \<ge> ptt_lead_deadline_ms s
      then (fold (\<lambda>(w, dev). hand_to_modulator (dev \<and> audio_latency env \<noteq> None) w) (pending_tx_words s) (s\<lparr>ptt_lead_deadline_ms := 0\<rparr>))
             \<lparr>pending_tx_words := []\<rparr>
      else s)"

definition release_tail :: "ptt_env \<Rightarrow> tx_path \<Rightarrow> tx_path" where
  "release_tail env s =
     (if ptt_tail_deadline_ms s > 0 \<and> \<not> manual_ptt s \<and> pt_now_ms env \<ge> ptt_tail_deadline_ms s
      then (tx_emit (Extend_Peer_Wait (ptt_tail_armed_delay_ms s))
             (enable_receiver env (set_ptt_and_notify False (s\<lparr>ptt_tail_deadline_ms := 0\<rparr>))))\<lparr>ptt_tail_armed_delay_ms := 0\<rparr>
      else s)"

definition tick_ptt_timing :: "ptt_env \<Rightarrow> tx_path \<Rightarrow> tx_path" where
  "tick_ptt_timing env s = release_tail env (flush_lead env s)"

definition abort_suppressed_tx :: "ptt_env \<Rightarrow> tx_path \<Rightarrow> tx_path" where
  "abort_suppressed_tx env s = (if abort_tx_pending s then sm_emergency env (s\<lparr>abort_tx_pending := False\<rparr>) else s)"

definition emergency_stop :: "ptt_env \<Rightarrow> tx_path \<Rightarrow> tx_path" where
  "emergency_stop env s =
     (let s = sm_emergency env s;
          s = s\<lparr>pending_tx_words := [], tx_modulator := modulator_abort (tx_modulator s), ptt_lead_deadline_ms := 0,
                ptt_tail_deadline_ms := 0, manual_ptt := False\<rparr>
      in (set_ptt_and_notify False s)\<lparr>demod_enabled := True\<rparr>)"

text \<open>Leaving the scan the state machine asks for reception; in every other state it ignores the event.\<close>

definition start_available :: "ptt_env \<Rightarrow> tx_path \<Rightarrow> tx_path" where
  "start_available env s = (if pt_state env = SCANNING then on_rx_enabled env True s else s)\<lparr>demod_enabled := True\<rparr>"

definition is_tx_active :: "tx_path \<Rightarrow> bool" where
  "is_tx_active s \<longleftrightarrow> ptt_lead_deadline_ms s > 0 \<or> pending_tx_words s \<noteq> [] \<or> is_transmitting (tx_modulator s)"

section \<open>Runs\<close>

datatype ptt_event = Transmit ale_word | Rx_Enabled bool | Manual_Ptt bool | Ptt_Tick | Sm_Tick | Emergency_Stop | Audio_Pull
| Start_Available

fun ptt_step :: "ptt_env \<times> ptt_event \<Rightarrow> tx_path \<Rightarrow> tx_path" where
  "ptt_step (env, Transmit w) s = on_transmit env w s"
| "ptt_step (env, Rx_Enabled on) s = on_rx_enabled env on s"
| "ptt_step (env, Manual_Ptt on) s = set_manual_ptt env on s"
| "ptt_step (env, Ptt_Tick) s = tick_ptt_timing env s"
| "ptt_step (env, Sm_Tick) s = abort_suppressed_tx env s"
| "ptt_step (env, Emergency_Stop) s = emergency_stop env s"
| "ptt_step (env, Audio_Pull) s = s\<lparr>tx_modulator := snd (pull_symbol_frame (tx_modulator s))\<rparr>"
| "ptt_step (env, Start_Available) s = start_available env s"

section \<open>The receiver is off while the transmitter is keyed\<close>

definition half_duplex :: "tx_path \<Rightarrow> bool" where
  "half_duplex s \<longleftrightarrow> \<not> (ptt_keyed s \<and> demod_enabled s)"

lemma tx_emit_fields [simp]: "ptt_keyed (tx_emit out s) = ptt_keyed s" "demod_enabled (tx_emit out s) = demod_enabled s"
  "manual_ptt (tx_emit out s) = manual_ptt s" "sm_rx_enabled (tx_emit out s) = sm_rx_enabled s"
  "ptt_tail_deadline_ms (tx_emit out s) = ptt_tail_deadline_ms s" "ptt_lead_deadline_ms (tx_emit out s) = ptt_lead_deadline_ms s"
  "pending_tx_words (tx_emit out s) = pending_tx_words s" "tx_modulator (tx_emit out s) = tx_modulator s"
  "ptt_tail_armed_delay_ms (tx_emit out s) = ptt_tail_armed_delay_ms s" "abort_tx_pending (tx_emit out s) = abort_tx_pending s"
  "tx_word_seq (tx_emit out s) = tx_word_seq s"
  by (simp_all add: tx_emit_def)

lemma word_keeps:
  "ptt_keyed (hand_to_modulator dev w s) = ptt_keyed s" "demod_enabled (hand_to_modulator dev w s) = demod_enabled s"
  "manual_ptt (hand_to_modulator dev w s) = manual_ptt s" "ptt_keyed (on_transmit env w s) = ptt_keyed s"
  "demod_enabled (on_transmit env w s) = demod_enabled s"
  by (simp_all add: hand_to_modulator_def on_transmit_def Let_def)

lemma words_keep:
  "ptt_keyed (fold (on_transmit env) ws s) = ptt_keyed s" "demod_enabled (fold (on_transmit env) ws s) = demod_enabled s"
  by (induction ws arbitrary: s) (simp_all add: word_keeps)

lemma ending_keeps [simp]: "ptt_keyed (send_ending env s) = ptt_keyed s" "demod_enabled (send_ending env s) = demod_enabled s"
  by (simp_all add: send_ending_def words_keep)

lemma flush_keeps:
  "ptt_keyed (flush_lead env s) = ptt_keyed s" "demod_enabled (flush_lead env s) = demod_enabled s"
proof -
  have "ptt_keyed (fold (\<lambda>(w, dev). hand_to_modulator (dev \<and> p) w) ws s) = ptt_keyed s
      \<and> demod_enabled (fold (\<lambda>(w, dev). hand_to_modulator (dev \<and> p) w) ws s) = demod_enabled s" for p ws s
  proof (induction ws arbitrary: s)
    case (Cons x ws)
    then show ?case by (cases x) (simp add: word_keeps)
  qed simp
  then show "ptt_keyed (flush_lead env s) = ptt_keyed s" "demod_enabled (flush_lead env s) = demod_enabled s"
    by (simp_all add: flush_lead_def)
qed

lemma rx_half_duplex: "half_duplex s \<Longrightarrow> half_duplex (on_rx_enabled env on s)"
  by (auto simp: on_rx_enabled_def half_duplex_def set_ptt_and_notify_def enable_receiver_def Let_def)

lemma emergency_half_duplex: "half_duplex s \<Longrightarrow> half_duplex (sm_emergency env s)"
proof -
  assume "half_duplex s"
  then have d: "half_duplex (send_ending env (tx_emit Emergency_Control s))" by (simp add: half_duplex_def)
  then show ?thesis using rx_half_duplex [OF d, of env True] by (simp add: sm_emergency_def Let_def)
qed

lemma manual_half_duplex: "half_duplex s \<Longrightarrow> half_duplex (set_manual_ptt env on s)"
proof -
  assume s: "half_duplex s"
  let ?d = "set_ptt_and_notify True (s\<lparr>manual_ptt := True, ptt_tail_deadline_ms := 0, ptt_lead_deadline_ms := 0, pending_tx_words := [], demod_enabled := False\<rparr>)"
  have "half_duplex (sm_emergency env ?d)" by (rule emergency_half_duplex) (simp add: half_duplex_def set_ptt_and_notify_def)
  then show ?thesis using s by (auto simp: set_manual_ptt_def half_duplex_def set_ptt_and_notify_def Let_def)
qed

lemma tick_half_duplex: "half_duplex s \<Longrightarrow> half_duplex (tick_ptt_timing env s)"
  by (auto simp: tick_ptt_timing_def release_tail_def half_duplex_def flush_keeps set_ptt_and_notify_def enable_receiver_def)

text \<open>A start while the radio is keyed is the one step that opens the receiver over the own transmission.\<close>

definition starts_unkeyed :: "ptt_env \<times> ptt_event \<Rightarrow> tx_path \<Rightarrow> bool" where
  "starts_unkeyed e s \<longleftrightarrow> snd e \<noteq> Start_Available \<or> \<not> ptt_keyed s"

lemma start_unkeyed: "\<not> ptt_keyed s \<Longrightarrow> \<not> ptt_keyed (start_available env s)"
  by (auto simp: start_available_def on_rx_enabled_def set_ptt_and_notify_def enable_receiver_def Let_def)

lemma step_half_duplex: "half_duplex s \<Longrightarrow> starts_unkeyed (env, ev) s \<Longrightarrow> half_duplex (ptt_step (env, ev) s)"
proof (cases ev)
  case Sm_Tick
  have "half_duplex s \<Longrightarrow> half_duplex (s\<lparr>abort_tx_pending := False\<rparr>)" by (simp add: half_duplex_def)
  from emergency_half_duplex [OF this, of env] Sm_Tick show "half_duplex s \<Longrightarrow> half_duplex (ptt_step (env, ev) s)"
    by (simp add: abort_suppressed_tx_def)
next
  case Start_Available
  then show "starts_unkeyed (env, ev) s \<Longrightarrow> half_duplex (ptt_step (env, ev) s)"
    using start_unkeyed [of s env] by (simp add: starts_unkeyed_def half_duplex_def)
qed (use rx_half_duplex manual_half_duplex tick_half_duplex in \<open>auto simp: word_keeps emergency_stop_def Let_def set_ptt_and_notify_def half_duplex_def\<close>)

text \<open>A start that the operator asks for over the own transmission is not performed in this run.\<close>

definition guarded_step :: "ptt_env \<times> ptt_event \<Rightarrow> tx_path \<Rightarrow> tx_path" where
  "guarded_step e s = (if starts_unkeyed e s then ptt_step e s else s)"

interpretation half_duplex_keying: event_machine "\<lambda>s e. guarded_step e s" half_duplex
  by unfold_locales (use step_half_duplex in \<open>auto simp: guarded_step_def\<close>)

lemma guarded_run:
  assumes "\<forall>i < length es. starts_unkeyed (es ! i) (fold ptt_step (take i es) s)"
  shows "foldl (\<lambda>s e. guarded_step e s) s es = fold ptt_step es s"
  using assms
proof (induction es rule: rev_induct)
  case (snoc e es)
  have "\<forall>i < length es. starts_unkeyed (es ! i) (fold ptt_step (take i es) s)"
  proof (intro allI impI)
    fix i assume "i < length es"
    then show "starts_unkeyed (es ! i) (fold ptt_step (take i es) s)" using snoc.prems [rule_format, of i] by (simp add: nth_append)
  qed
  moreover have "starts_unkeyed e (fold ptt_step es s)" using snoc.prems by (auto dest: spec [of _ "length es"])
  ultimately show ?case using snoc.IH by (simp add: guarded_step_def)
qed simp

text \<open>
  C7. The receiver does not hear the own transmitter: in every run of the keying from a station that listens - the
  words, the requests of the state machine, the manual key, the ticks, the emergency stop, the audio thread, and the
  operator's return to availability as long as it does not come while the radio is keyed - the receiver is off
  whenever the radio is keyed.
\<close>

theorem receiver_off_while_keyed:
  assumes "\<forall>i < length es. snd (es ! i) = Start_Available \<longrightarrow> \<not> ptt_keyed (fold ptt_step (take i es) init_tx_path)"
  shows "\<not> (ptt_keyed (fold ptt_step es init_tx_path) \<and> demod_enabled (fold ptt_step es init_tx_path))"
proof -
  have "foldl (\<lambda>s e. guarded_step e s) init_tx_path es = fold ptt_step es init_tx_path"
    using assms by (intro guarded_run) (auto simp: starts_unkeyed_def)
  moreover have "half_duplex (foldl (\<lambda>s e. guarded_step e s) init_tx_path es)"
    by (rule half_duplex_keying.run_inv) (simp add: half_duplex_def init_tx_path_def)
  ultimately show ?thesis by (simp add: half_duplex_def)
qed

section \<open>Receive-only channels\<close>

lemma rx_never_keys:
  assumes "tx_inhibited (pt_configured env) (pt_freq env)" "ptt_keyed (on_rx_enabled env on s)"
  shows "ptt_keyed s"
proof -
  have "pt_freq env > 0" using assms(1) by (auto simp: tx_inhibited_def channel_has_def find_channel_by_freq_def word_gt_0 split: if_splits)
  then show ?thesis
    using assms by (auto simp: on_rx_enabled_def set_ptt_and_notify_def enable_receiver_def Let_def split: if_splits)
qed

lemma emergency_never_keys:
  assumes "tx_inhibited (pt_configured env) (pt_freq env)" "ptt_keyed (sm_emergency env s)"
  shows "ptt_keyed s"
proof -
  have "ptt_keyed (send_ending env (tx_emit Emergency_Control s))"
    using assms(2) rx_never_keys [OF assms(1), of True "send_ending env (tx_emit Emergency_Control s)"]
    by (cases "pt_state env = IDLE") (simp_all add: sm_emergency_def)
  then show ?thesis by simp
qed

text \<open>
  C26. No step keys the radio on a channel that is configured for reception only.
\<close>

theorem receive_only_never_keyed:
  assumes "tx_inhibited (pt_configured env) (pt_freq env)" "\<not> ptt_keyed s"
  shows "\<not> ptt_keyed (ptt_step (env, ev) s)"
proof (cases ev)
  case (Rx_Enabled on)
  then show ?thesis using rx_never_keys [OF assms(1)] assms(2) by auto
next
  case Sm_Tick
  have "\<not> ptt_keyed (sm_emergency env (s\<lparr>abort_tx_pending := False\<rparr>))" using emergency_never_keys [OF assms(1)] assms(2) by fastforce
  then show ?thesis using Sm_Tick assms(2) by (simp add: abort_suppressed_tx_def)
qed (use assms start_unkeyed in \<open>auto simp: word_keeps set_manual_ptt_def set_ptt_and_notify_def tick_ptt_timing_def release_tail_def flush_keeps
    enable_receiver_def emergency_stop_def Let_def\<close>)

section \<open>Words wait for the lead\<close>

definition path_inv :: "tx_path \<Rightarrow> bool" where
  "path_inv s \<longleftrightarrow> modulator_inv (tx_modulator s) \<and> (ptt_lead_deadline_ms s = 0 \<longrightarrow> pending_tx_words s = [])"

definition queued_words :: "tx_path \<Rightarrow> u64 list" where
  "queued_words s = waiting (tx_modulator s) @ map (\<lambda>(w, _). ale_word_encode w) (pending_tx_words s)"

lemma handed:
  assumes "modulator_inv (tx_modulator s)"
  shows "modulator_inv (tx_modulator (hand_to_modulator dev w s))"
    "waiting (tx_modulator (hand_to_modulator dev w s)) = waiting (tx_modulator s) @ [ale_word_encode w]"
  using enqueue_tx49 [OF assms, of "ale_word_encode w"] by (simp_all add: hand_to_modulator_def enqueue_word_def Let_def)

lemma handed_all:
  assumes "modulator_inv (tx_modulator s)"
  shows "modulator_inv (tx_modulator (fold (\<lambda>(w, dev). hand_to_modulator (dev \<and> p) w) ws s)) \<and>
    waiting (tx_modulator (fold (\<lambda>(w, dev). hand_to_modulator (dev \<and> p) w) ws s)) =
      waiting (tx_modulator s) @ map (\<lambda>(w, _). ale_word_encode w) ws"
  using assms
proof (induction ws arbitrary: s)
  case (Cons x ws)
  obtain w dev where x: "x = (w, dev)" by (cases x)
  show ?case using Cons.IH [OF handed(1) [OF Cons.prems], of "dev \<and> p" w] handed(2) [OF Cons.prems] x by simp
qed simp

text \<open>The words of a run, and a tick that comes before the deadline.\<close>

fun transmitted :: "(ptt_env \<times> ptt_event) list \<Rightarrow> ale_word list" where
  "transmitted [] = []"
| "transmitted ((_, Transmit w) # es) = w # transmitted es"
| "transmitted (_ # es) = transmitted es"

fun early :: "u32 \<Rightarrow> ptt_env \<times> ptt_event \<Rightarrow> bool" where
  "early deadline (env, Transmit w) = True"
| "early deadline (env, Ptt_Tick) = (pt_now_ms env < deadline)"
| "early deadline _ = False"

lemma early_step:
  assumes "early d e" "ptt_lead_deadline_ms s = d" "0 < d" "ptt_tail_deadline_ms s = 0"
  shows "ptt_lead_deadline_ms (ptt_step e s) = d" "ptt_tail_deadline_ms (ptt_step e s) = 0" "tx_modulator (ptt_step e s) = tx_modulator s"
    "ptt_keyed (ptt_step e s) = ptt_keyed s" "demod_enabled (ptt_step e s) = demod_enabled s"
    "map fst (pending_tx_words (ptt_step e s)) = map fst (pending_tx_words s) @ transmitted [e]"
  using assms by (cases rule: early.cases [of "(d, e)"];
      auto simp: on_transmit_def tick_ptt_timing_def flush_lead_def release_tail_def Let_def)+

lemma early_run:
  assumes "list_all (early d) es" "ptt_lead_deadline_ms s = d" "0 < d" "ptt_tail_deadline_ms s = 0"
  shows "ptt_lead_deadline_ms (fold ptt_step es s) = d \<and> ptt_tail_deadline_ms (fold ptt_step es s) = 0
    \<and> tx_modulator (fold ptt_step es s) = tx_modulator s \<and> ptt_keyed (fold ptt_step es s) = ptt_keyed s
    \<and> demod_enabled (fold ptt_step es s) = demod_enabled s
    \<and> map fst (pending_tx_words (fold ptt_step es s)) = map fst (pending_tx_words s) @ transmitted es"
  using assms
proof (induction es arbitrary: s)
  case (Cons e es)
  have e: "early d e" using Cons.prems(1) by simp
  have "transmitted (e # es) = transmitted [e] @ transmitted es" by (cases e; cases "snd e") auto
  then show ?case using Cons.IH [of "ptt_step e s"] early_step [OF e Cons.prems(2-4)] Cons.prems(1,3) by simp
qed simp

text \<open>
  C11. When the state machine begins to transmit, the radio is keyed and the receiver off at once; no word of
  the frame reaches the modulator before the lead time is over, and the first tick after it hands all of
  them over in order.
\<close>

theorem words_wait_for_lead:
  assumes "sm_rx_enabled s" "\<not> manual_ptt s" "pending_tx_words s = []" "modulator_inv (tx_modulator s)"
    and "\<not> tx_inhibited (pt_configured env) (pt_freq env)" "0 < ptt_lead_ms env"
    and "deadline = pt_now_ms env + ptt_lead_ms env" "0 < deadline"
    and "list_all (early deadline) es" "r = fold ptt_step es (on_rx_enabled env False s)" "deadline \<le> pt_now_ms late"
  shows "ptt_keyed r \<and> \<not> demod_enabled r \<and> tx_modulator r = tx_modulator s \<and>
    pending_tx_words (tick_ptt_timing late r) = [] \<and>
    waiting (tx_modulator (tick_ptt_timing late r)) = waiting (tx_modulator s) @ map ale_word_encode (transmitted es)"
proof -
  let ?d = "on_rx_enabled env False s"
  have d: "ptt_lead_deadline_ms ?d = deadline" "ptt_tail_deadline_ms ?d = 0" "tx_modulator ?d = tx_modulator s" "ptt_keyed ?d"
      "\<not> demod_enabled ?d" "pending_tx_words ?d = []"
    using assms(1-3,5-7) by (simp_all add: on_rx_enabled_def set_ptt_and_notify_def Let_def)
  note run = early_run [OF assms(9) d(1) assms(8) d(2), folded assms(10)]
  have p: "map (\<lambda>(w, _). ale_word_encode w) (pending_tx_words r) = map ale_word_encode (transmitted es)"
    using run d(6) by (metis (no_types, lifting) append_Nil case_prod_beta' list.map_comp comp_def list.simps(8) map_eq_conv)
  have t: "ptt_tail_deadline_ms (fold (\<lambda>(w, dev). hand_to_modulator (dev \<and> q) w) ws x) = ptt_tail_deadline_ms x" for q ws x
    by (induction ws arbitrary: x) (auto simp: hand_to_modulator_def Let_def)
  have f: "flush_lead late r = (fold (\<lambda>(w, dev). hand_to_modulator (dev \<and> audio_latency late \<noteq> None) w) (pending_tx_words r)
      (r\<lparr>ptt_lead_deadline_ms := 0\<rparr>))\<lparr>pending_tx_words := []\<rparr>"
    using run assms(8,11) by (simp add: flush_lead_def)
  have "release_tail late (flush_lead late r) = flush_lead late r" using run unfolding f by (simp add: release_tail_def t)
  then have "tick_ptt_timing late r = flush_lead late r" by (simp add: tick_ptt_timing_def)
  then show ?thesis
    using run d handed_all [of "r\<lparr>ptt_lead_deadline_ms := 0\<rparr>" "audio_latency late \<noteq> None" "pending_tx_words r"] assms(4) unfolding f
    by (simp add: p)
qed

definition keying :: "ale_state \<Rightarrow> u32 \<Rightarrow> ptt_env" where
  "keying st now = \<lparr> pt_now_ms = now, pt_freq = 7000000, pt_configured = [Channel\<lparr>rx_frequency_hz := 7000000\<rparr>], ptt_lead_ms = 50,
     ptt_tail_ms = 100, audio_latency = Some 20, pt_state = st, ending_words = [ALEWord] \<rparr>"

theorem words_wait_for_lead_witness:
  "waiting (tx_modulator (tick_ptt_timing (keying CALLING 1050) (fold ptt_step
      [(keying CALLING 1000, Transmit ALEWord), (keying CALLING 1020, Ptt_Tick), (keying CALLING 1020, Transmit ALEWord)]
      (on_rx_enabled (keying CALLING 1000) False init_tx_path)))) = [ale_word_encode ALEWord, ale_word_encode ALEWord]"
proof -
  have "\<not> tx_inhibited (pt_configured (keying CALLING 1000)) (pt_freq (keying CALLING 1000))"
    by (simp add: keying_def tx_inhibited_def channel_has_def find_channel_by_freq_def Channel_def)
  then show ?thesis
    using words_wait_for_lead [of init_tx_path "keying CALLING 1000" 1050
        "[(keying CALLING 1000, Transmit ALEWord), (keying CALLING 1020, Ptt_Tick), (keying CALLING 1020, Transmit ALEWord)]"
        _ "keying CALLING 1050"]
    by (simp add: keying_def init_tx_path_def init_modulator)
qed

theorem receive_only_never_keyed_witness:
  "\<not> ptt_keyed (ptt_step ((keying HANDSHAKE 1000)\<lparr>pt_configured := [Channel\<lparr>rx_frequency_hz := 7000000, rx_only := True\<rparr>]\<rparr>,
     Rx_Enabled False) init_tx_path)"
proof -
  let ?env = "(keying HANDSHAKE 1000)\<lparr>pt_configured := [Channel\<lparr>rx_frequency_hz := 7000000, rx_only := True\<rparr>]\<rparr>"
  have "tx_inhibited (pt_configured ?env) (pt_freq ?env)"
    by (simp add: keying_def tx_inhibited_def channel_has_def find_channel_by_freq_def Channel_def)
  then show ?thesis by (rule receive_only_never_keyed) (simp add: init_tx_path_def)
qed

section \<open>The key is released after the tail\<close>

lemma early_tail:
  assumes "\<forall>e \<in> set envs. pt_now_ms e < d" "ptt_tail_deadline_ms s = d" "ptt_lead_deadline_ms s = 0"
  shows "fold tick_ptt_timing envs s = s"
  using assms
proof (induction envs)
  case (Cons e envs)
  then have "tick_ptt_timing e s = s" by (auto simp: tick_ptt_timing_def flush_lead_def release_tail_def)
  then show ?case using Cons by simp
qed simp

text \<open>
  At the end of a transmission the radio stays keyed until the configured tail and the latency of the
  audio device have passed; the first tick after that releases it, tells the state machine how long that
  took, and opens the receiver unless the channel is for transmission only.
\<close>

theorem key_released_after_tail:
  assumes "\<not> sm_rx_enabled s" "\<not> manual_ptt s" "0 < effective_tail_ms env"
    and "deadline = pt_now_ms env + effective_tail_ms env" "0 < deadline" "\<forall>e \<in> set envs. pt_now_ms e < deadline"
    and "r = fold tick_ptt_timing envs (on_rx_enabled env True s)" "deadline \<le> pt_now_ms late"
  shows "ptt_keyed r = ptt_keyed s \<and> demod_enabled r = demod_enabled s \<and> \<not> ptt_keyed (tick_ptt_timing late r) \<and>
    tx_outs (tick_ptt_timing late r) = tx_outs s @ [Ptt_Event False, Extend_Peer_Wait (effective_tail_ms env)] \<and>
    demod_enabled (tick_ptt_timing late r) = (demod_enabled s \<or> \<not> rx_inhibited (pt_configured late) (pt_freq late))"
proof -
  let ?d = "on_rx_enabled env True s"
  have d: "?d = s\<lparr>sm_rx_enabled := True, ptt_lead_deadline_ms := 0, pending_tx_words := [], ptt_tail_deadline_ms := deadline,
      ptt_tail_armed_delay_ms := effective_tail_ms env\<rparr>"
    using assms(1-4) by (simp add: on_rx_enabled_def Let_def)
  have "r = ?d" unfolding assms(7) by (rule early_tail [OF assms(6)]) (simp_all add: d)
  then show ?thesis
    using assms(2,5,8) unfolding d
    by (simp add: tick_ptt_timing_def flush_lead_def release_tail_def enable_receiver_def set_ptt_and_notify_def tx_emit_def)
qed

theorem key_released_after_tail_witness:
  "\<not> ptt_keyed (tick_ptt_timing (keying LINKED 5200) (fold tick_ptt_timing [keying LINKED 5050]
     (on_rx_enabled (keying LINKED 5000) True (on_rx_enabled (keying CALLING 1000) False init_tx_path))))"
proof -
  let ?s = "on_rx_enabled (keying CALLING 1000) False init_tx_path"
  have "\<not> sm_rx_enabled ?s" "\<not> manual_ptt ?s"
    by (simp_all add: on_rx_enabled_def keying_def init_tx_path_def tx_inhibited_def channel_has_def find_channel_by_freq_def Channel_def
        set_ptt_and_notify_def Let_def)
  then show ?thesis
    using key_released_after_tail [of ?s "keying LINKED 5000" 5120 "[keying LINKED 5050]" _ "keying LINKED 5200", OF _ _ _ _ _ _ refl]
    by (simp add: keying_def effective_tail_ms_def)
qed

theorem receiver_off_while_keyed_witness:
  "\<not> demod_enabled (fold ptt_step [(keying IDLE 500, Start_Available), (keying CALLING 1000, Rx_Enabled False)] init_tx_path)"
proof -
  let ?es = "[(keying IDLE 500, Start_Available), (keying CALLING 1000, Rx_Enabled False)]"
  have "\<forall>i < length ?es. snd (?es ! i) = Start_Available \<longrightarrow> \<not> ptt_keyed (fold ptt_step (take i ?es) init_tx_path)"
    by (auto simp: less_Suc_eq init_tx_path_def)
  from receiver_off_while_keyed [OF this] show ?thesis
    by (simp add: on_rx_enabled_def keying_def init_tx_path_def tx_inhibited_def channel_has_def find_channel_by_freq_def Channel_def
        set_ptt_and_notify_def start_available_def Let_def)
qed

section \<open>Where the keying falls short\<close>

text \<open>The operator's return to availability opens the receiver in every state, also while the radio is keyed.\<close>

lemma start_opens_receiver:
  assumes "ptt_keyed s" "pt_state env \<noteq> SCANNING"
  shows "ptt_keyed (start_available env s) \<and> demod_enabled (start_available env s)"
  using assms by (simp add: start_available_def)

text \<open>
  The emergency stop ends a link with the words that say so, but the same call empties the queues: the
  monitor has shown the words as transmitted, the modulator has none of them.
\<close>

theorem emergency_stop_drops_ending:
  "waiting (tx_modulator (emergency_stop env s)) = [] \<and> pending_tx_words (emergency_stop env s) = [] \<and>
   (pt_state env = LINKED \<longrightarrow> (\<forall>w \<in> set (ending_words env). \<exists>n. Word_Tx w n \<in> set (tx_outs (emergency_stop env s))))"
proof -
  have mono: "set (tx_outs x) \<subseteq> set (tx_outs (on_transmit env w x)) \<and> Word_Tx w (tx_word_seq x) \<in> set (tx_outs (on_transmit env w x))" for w x
    by (auto simp: on_transmit_def hand_to_modulator_def tx_emit_def Let_def)
  have grow: "set (tx_outs x) \<subseteq> set (tx_outs (fold (on_transmit env) ws x))" for ws x
    by (induction ws arbitrary: x) (use mono in \<open>auto, blast\<close>)
  have all: "\<exists>n. Word_Tx w n \<in> set (tx_outs (fold (on_transmit env) ws x))" if "w \<in> set ws" for w ws x
    using that
  proof (induction ws arbitrary: x)
    case (Cons v ws)
    show ?case
    proof (cases "w = v")
      case True
      then show ?thesis using mono [of x v] grow [of "on_transmit env v x" ws] by auto
    qed (use Cons in auto)
  qed simp
  have rx: "set (tx_outs x) \<subseteq> set (tx_outs (on_rx_enabled env True x))" for x
    by (auto simp: on_rx_enabled_def set_ptt_and_notify_def enable_receiver_def tx_emit_def Let_def)
  have "\<exists>n. Word_Tx w n \<in> set (tx_outs (sm_emergency env s))" if "pt_state env = LINKED" "w \<in> set (ending_words env)" for w
    using all [OF that(2), of "tx_emit Emergency_Control s"] rx that(1) by (auto simp: sm_emergency_def send_ending_def Let_def)
  then show ?thesis
    by (auto simp: emergency_stop_def set_ptt_and_notify_def modulator_abort_def waiting_def tx_emit_def Let_def)
qed

text \<open>
  Pressing and releasing the key by hand on a channel for transmission only opens the receiver, which
  the end of every other transmission leaves closed there.
\<close>

theorem manual_key_opens_receiver:
  assumes "rx_inhibited (pt_configured env) (pt_freq env)" "\<not> tx_inhibited (pt_configured env) (pt_freq env)" "pt_state env = IDLE"
    and "sm_rx_enabled s"
  shows "demod_enabled (set_manual_ptt env False (set_manual_ptt env True s)) \<and> \<not> demod_enabled (enable_receiver env (set_manual_ptt env True s))"
  using assms by (simp add: set_manual_ptt_def set_ptt_and_notify_def enable_receiver_def Let_def)

theorem manual_key_opens_receiver_witness:
  "demod_enabled (set_manual_ptt ((keying IDLE 1000)\<lparr>pt_configured := [Channel\<lparr>rx_frequency_hz := 7000000, tx_only := True\<rparr>]\<rparr>) False
     (set_manual_ptt ((keying IDLE 1000)\<lparr>pt_configured := [Channel\<lparr>rx_frequency_hz := 7000000, tx_only := True\<rparr>]\<rparr>) True
       (init_tx_path\<lparr>demod_enabled := False\<rparr>)))"
proof -
  let ?env = "(keying IDLE 1000)\<lparr>pt_configured := [Channel\<lparr>rx_frequency_hz := 7000000, tx_only := True\<rparr>]\<rparr>"
  have "rx_inhibited (pt_configured ?env) (pt_freq ?env)" "\<not> tx_inhibited (pt_configured ?env) (pt_freq ?env)" "pt_state ?env = IDLE"
    by (simp_all add: keying_def rx_inhibited_def tx_inhibited_def channel_has_def find_channel_by_freq_def Channel_def)
  from manual_key_opens_receiver [OF this, of "init_tx_path\<lparr>demod_enabled := False\<rparr>"] show ?thesis by (simp add: init_tx_path_def)
qed

text \<open>
  A transmission refused on a receive-only channel is not stopped: the words the state machine sends
  before it is aborted go to the modulator, unkeyed, and the abort leaves them there.
\<close>

theorem refused_words_reach_modulator:
  assumes "tx_inhibited (pt_configured env) (pt_freq env)" "sm_rx_enabled s" "\<not> manual_ptt s" "ptt_lead_deadline_ms s = 0"
    and "modulator_inv (tx_modulator s)" "pt_state env = HANDSHAKE" "r = fold (on_transmit env) ws (on_rx_enabled env False s)"
  shows "waiting (tx_modulator (abort_suppressed_tx env r)) = waiting (tx_modulator s) @ map ale_word_encode ws \<and> demod_enabled r = demod_enabled s"
proof -
  have f: "pt_freq env > 0" using assms(1) by (auto simp: tx_inhibited_def channel_has_def find_channel_by_freq_def word_gt_0 split: if_splits)
  let ?d = "on_rx_enabled env False s"
  have d: "modulator_inv (tx_modulator ?d)" "tx_modulator ?d = tx_modulator s" "ptt_lead_deadline_ms ?d = 0" "demod_enabled ?d = demod_enabled s"
      "abort_tx_pending ?d"
    using assms(1-5) f by (simp_all add: on_rx_enabled_def Let_def)
  have sent: "modulator_inv (tx_modulator (fold (on_transmit env) ws x)) \<and>
      waiting (tx_modulator (fold (on_transmit env) ws x)) = waiting (tx_modulator x) @ map ale_word_encode ws \<and>
      demod_enabled (fold (on_transmit env) ws x) = demod_enabled x \<and> abort_tx_pending (fold (on_transmit env) ws x) = abort_tx_pending x"
    if "modulator_inv (tx_modulator x)" "ptt_lead_deadline_ms x = 0" for ws x
    using that
  proof (induction ws arbitrary: x)
    case (Cons w ws)
    have "ptt_lead_deadline_ms (on_transmit env w x) = 0" "abort_tx_pending (on_transmit env w x) = abort_tx_pending x"
      using Cons.prems(2) by (simp_all add: on_transmit_def hand_to_modulator_def Let_def)
    moreover have "modulator_inv (tx_modulator (on_transmit env w x)) \<and>
        waiting (tx_modulator (on_transmit env w x)) = waiting (tx_modulator x) @ [ale_word_encode w]"
      using Cons.prems enqueue_tx49 [OF Cons.prems(1), of "ale_word_encode w"]
      by (simp add: on_transmit_def hand_to_modulator_def enqueue_word_def Let_def)
    ultimately show ?case using Cons.IH [of "on_transmit env w x"] by (simp add: word_keeps)
  qed simp
  note t = sent [OF d(1,3), of ws, folded assms(7)]
  have "tx_modulator (on_rx_enabled env True x) = tx_modulator x" for x
    by (simp add: on_rx_enabled_def set_ptt_and_notify_def enable_receiver_def Let_def)
  then have "tx_modulator (abort_suppressed_tx env r) = tx_modulator r"
    using t d(5) assms(6) by (simp add: abort_suppressed_tx_def sm_emergency_def send_ending_def Let_def)
  then show ?thesis using t d(2,4) by simp
qed

theorem refused_words_reach_modulator_witness:
  "waiting (tx_modulator (abort_suppressed_tx ((keying HANDSHAKE 1000)\<lparr>pt_configured := [Channel\<lparr>rx_frequency_hz := 7000000, rx_only := True\<rparr>]\<rparr>)
     (fold (on_transmit ((keying HANDSHAKE 1000)\<lparr>pt_configured := [Channel\<lparr>rx_frequency_hz := 7000000, rx_only := True\<rparr>]\<rparr>)) [ALEWord]
       (on_rx_enabled ((keying HANDSHAKE 1000)\<lparr>pt_configured := [Channel\<lparr>rx_frequency_hz := 7000000, rx_only := True\<rparr>]\<rparr>) False init_tx_path))))
   = [ale_word_encode ALEWord]"
proof -
  let ?env = "(keying HANDSHAKE 1000)\<lparr>pt_configured := [Channel\<lparr>rx_frequency_hz := 7000000, rx_only := True\<rparr>]\<rparr>"
  have "tx_inhibited (pt_configured ?env) (pt_freq ?env)" "pt_state ?env = HANDSHAKE"
    by (simp_all add: keying_def tx_inhibited_def channel_has_def find_channel_by_freq_def Channel_def)
  from refused_words_reach_modulator [OF this(1) _ _ _ _ this(2) refl, of init_tx_path "[ALEWord]"]
  show ?thesis by (simp add: init_tx_path_def init_modulator)
qed

end
