(* ===== verification/Data_Store.thy ===== *)
theory Data_Store
  imports Address_Book Channel_Manager Lqa_Database
begin

text \<open>
  The stores of \<open>include/Stores/ale_data_store.h\<close> and \<open>src/Stores/ale_data_store.cpp\<close>: channels, nets,
  group rosters, contacts, own addresses, known stations and the channel choice of the LQA store. A
  store is the list (with the primary address, the address book) its class holds; an operation that
  can refuse returns its \<open>bool\<close> with the new store. Each store keeps its keys distinct and its bound:
  the operations are the steps of an \<open>event_machine\<close>.
\<close>

section \<open>Loops of the stores\<close>

text \<open>The loop that changes the first match and returns, and \<open>erase(remove_if)\<close>.\<close>

fun update_matching :: "('a \<Rightarrow> bool) \<Rightarrow> ('a \<Rightarrow> 'a) \<Rightarrow> 'a list \<Rightarrow> 'a list" where
  "update_matching P f [] = []"
| "update_matching P f (x # xs) = (if P x then f x # xs else x # update_matching P f xs)"

lemma length_update_matching [simp]: "length (update_matching P f xs) = length xs"
  by (induction xs) auto

lemma map_update_matching: "(\<And>x. P x \<Longrightarrow> g (f x) = g x) \<Longrightarrow> map g (update_matching P f xs) = map g xs"
  by (induction xs) auto

lemma list_all_update_matching:
  "list_all Q xs \<Longrightarrow> (\<And>x. Q x \<Longrightarrow> P x \<Longrightarrow> Q (f x)) \<Longrightarrow> list_all Q (update_matching P f xs)"
  by (induction xs) auto

lemma update_matching_absent: "\<not> list_ex P xs \<Longrightarrow> update_matching P f xs = xs"
  by (induction xs) auto

lemma find_update_matching:
  assumes "\<And>x. key (f x) = key x"
  shows "find (\<lambda>x. key x = k') (update_matching (\<lambda>x. key x = k) f xs) =
    map_option (if k = k' then f else id) (find (\<lambda>x. key x = k') xs)"
  using assms by (induction xs) (auto simp: option.map_id)

lemma list_ex_key: "list_ex (\<lambda>x. key x = k) xs \<longleftrightarrow> k \<in> set (map key xs)"
  by (induction xs) auto

lemma find_key_None [simp]: "find (\<lambda>x. key x = k) xs = None \<longleftrightarrow> k \<notin> key ` set xs"
  by (auto simp: find_None_iff)

lemma distinct_keys_filter: "distinct (map key xs) \<Longrightarrow> distinct (map key (filter P xs))"
  by (induction xs) auto

section \<open>Channels\<close>

type_synonym channel_store = "channel list"

definition channel_capacity :: nat where "channel_capacity = 100"

definition has_channel :: "u32 \<Rightarrow> channel_store \<Rightarrow> bool" where
  "has_channel rx s = list_ex (\<lambda>c. rx_frequency_hz c = rx) s"

definition store_channel :: "channel \<Rightarrow> channel_store \<Rightarrow> bool \<times> channel_store" where
  "store_channel ch s =
     (if has_channel (rx_frequency_hz ch) s then (False, s)
      else if length s \<ge> channel_capacity then (False, s)
      else (True, s @ [ch]))"

definition remove_channel :: "u32 \<Rightarrow> channel_store \<Rightarrow> channel_store" where
  "remove_channel rx s = filter (\<lambda>c. rx_frequency_hz c \<noteq> rx) s"

definition set_enabled :: "u32 \<Rightarrow> bool \<Rightarrow> channel_store \<Rightarrow> channel_store" where
  "set_enabled rx e s = update_matching (\<lambda>c. rx_frequency_hz c = rx) (\<lambda>c. c\<lparr>chan_enabled := e\<rparr>) s"

definition enabled_channels :: "channel_store \<Rightarrow> channel list" where
  "enabled_channels s = filter chan_enabled s"

text \<open>Loading from a backend: what it delivers replaces the store, a failure leaves it.\<close>

definition load_channels :: "channel list option \<Rightarrow> channel_store \<Rightarrow> bool \<times> channel_store" where
  "load_channels backend s = (case backend of None \<Rightarrow> (False, s) | Some loaded \<Rightarrow> (True, loaded))"

datatype channel_op = Store_Channel channel | Remove_Channel u32 | Set_Enabled u32 bool | Clear_Channels

fun channel_step :: "channel_store \<Rightarrow> channel_op \<Rightarrow> channel_store" where
  "channel_step s (Store_Channel ch) = snd (store_channel ch s)"
| "channel_step s (Remove_Channel rx) = remove_channel rx s"
| "channel_step s (Set_Enabled rx e) = set_enabled rx e s"
| "channel_step s Clear_Channels = []"

definition channels_ok :: "channel_store \<Rightarrow> bool" where
  "channels_ok s \<longleftrightarrow> distinct (map rx_frequency_hz s) \<and> length s \<le> channel_capacity"

lemma channels_ok_step: "channels_ok s \<Longrightarrow> channels_ok (channel_step s e)"
  by (cases e)
    (auto simp: channels_ok_def store_channel_def has_channel_def list_ex_key remove_channel_def
      set_enabled_def map_update_matching distinct_keys_filter intro: order.trans [OF length_filter_le])

interpretation channel_memory: event_machine channel_step channels_ok
  by unfold_locales (rule channels_ok_step)

section \<open>Nets\<close>

record net =
  net_name :: string
  channel_ids :: "string list"
  dwell_ms :: u32
  scanning_enabled :: bool
  sounding_enabled :: bool
  sounding_interval_sec :: u32
  net_calling_length :: u32

definition Net :: "string \<Rightarrow> net" where
  "Net name = \<lparr>net_name = name, channel_ids = [], dwell_ms = 200, scanning_enabled = True,
     sounding_enabled = False, sounding_interval_sec = 300, net_calling_length = 10\<rparr>"

type_synonym net_store = "net list"

definition find_net :: "string \<Rightarrow> net_store \<Rightarrow> net option" where
  "find_net name s = find (\<lambda>n. net_name n = name) s"

definition on_net :: "string \<Rightarrow> (net \<Rightarrow> net) \<Rightarrow> net_store \<Rightarrow> bool \<times> net_store" where
  "on_net name f s =
     (if find_net name s = None then (False, s) else (True, update_matching (\<lambda>n. net_name n = name) f s))"

definition store_net :: "string \<Rightarrow> net_store \<Rightarrow> bool \<times> net_store" where
  "store_net name s = (if find_net name s \<noteq> None then (False, s) else (True, s @ [Net name]))"

definition remove_net :: "string \<Rightarrow> net_store \<Rightarrow> bool \<times> net_store" where
  "remove_net name s = (let s' = filter (\<lambda>n. net_name n \<noteq> name) s in (length s' \<noteq> length s, s'))"

definition update_net :: "net \<Rightarrow> net_store \<Rightarrow> bool \<times> net_store" where
  "update_net u s = on_net (net_name u)
     (\<lambda>n. n\<lparr>dwell_ms := dwell_ms u, scanning_enabled := scanning_enabled u,
            sounding_enabled := sounding_enabled u, sounding_interval_sec := sounding_interval_sec u,
            net_calling_length := net_calling_length u\<rparr>) s"

definition rename_net :: "string \<Rightarrow> string \<Rightarrow> net_store \<Rightarrow> bool \<times> net_store" where
  "rename_net old new s =
     (if old = new then (True, s)
      else if new = [] then (False, s)
      else if find_net new s \<noteq> None then (False, s)
      else on_net old (\<lambda>n. n\<lparr>net_name := new\<rparr>) s)"

definition assign_channel :: "string \<Rightarrow> string \<Rightarrow> net_store \<Rightarrow> bool \<times> net_store" where
  "assign_channel name ident s = on_net name
     (\<lambda>n. if ident \<in> set (channel_ids n) then n else n\<lparr>channel_ids := channel_ids n @ [ident]\<rparr>) s"

definition drop_channel :: "string \<Rightarrow> net \<Rightarrow> net" where
  "drop_channel ident n = n\<lparr>channel_ids := filter (\<lambda>i. i \<noteq> ident) (channel_ids n)\<rparr>"

definition unassign_channel :: "string \<Rightarrow> string \<Rightarrow> net_store \<Rightarrow> bool \<times> net_store" where
  "unassign_channel name ident s = on_net name (drop_channel ident) s"

definition unassign_channel_everywhere :: "string \<Rightarrow> net_store \<Rightarrow> net_store" where
  "unassign_channel_everywhere ident s = map (drop_channel ident) s"

text \<open>A net that already lists the new identifier loses the renamed slot; empty identifiers go.\<close>

definition rename_ids :: "string \<Rightarrow> string \<Rightarrow> string list \<Rightarrow> string list" where
  "rename_ids old new ids =
     (let has_new = new \<in> set ids
      in filter (\<lambda>i. i \<noteq> []) (map (\<lambda>i. if i = old then (if has_new then [] else new) else i) ids))"

definition rename_channel :: "string \<Rightarrow> string \<Rightarrow> net_store \<Rightarrow> net_store" where
  "rename_channel old new s =
     (if old = new then s else map (\<lambda>n. n\<lparr>channel_ids := rename_ids old new (channel_ids n)\<rparr>) s)"

fun enabled_with_id :: "string \<Rightarrow> channel list \<Rightarrow> bool" where
  "enabled_with_id ident [] = False"
| "enabled_with_id ident (ch # chs) =
     (if chan_id ch = ident \<and> chan_enabled ch then True else enabled_with_id ident chs)"

definition net_scan_channel_count :: "net \<Rightarrow> channel list \<Rightarrow> u32" where
  "net_scan_channel_count net chs =
     foldl (\<lambda>count ident. if enabled_with_id ident chs then count + 1 else count) 0 (channel_ids net)"

datatype net_op =
  Store_Net string | Remove_Net string | Update_Net net | Rename_Net string string
| Assign_Channel string string | Unassign_Channel string string | Unassign_Everywhere string
| Rename_Channel string string | Clear_Nets

fun net_step :: "net_store \<Rightarrow> net_op \<Rightarrow> net_store" where
  "net_step s (Store_Net name) = snd (store_net name s)"
| "net_step s (Remove_Net name) = snd (remove_net name s)"
| "net_step s (Update_Net u) = snd (update_net u s)"
| "net_step s (Rename_Net old new) = snd (rename_net old new s)"
| "net_step s (Assign_Channel name ident) = snd (assign_channel name ident s)"
| "net_step s (Unassign_Channel name ident) = snd (unassign_channel name ident s)"
| "net_step s (Unassign_Everywhere ident) = unassign_channel_everywhere ident s"
| "net_step s (Rename_Channel old new) = rename_channel old new s"
| "net_step s Clear_Nets = []"

text \<open>Every name once, and the members of a net are a set.\<close>

definition nets_ok :: "net_store \<Rightarrow> bool" where
  "nets_ok s \<longleftrightarrow> distinct (map net_name s) \<and> list_all (\<lambda>n. distinct (channel_ids n)) s"

lemma distinct_rename_ids:
  assumes "distinct ids"
  shows "distinct (rename_ids old new ids)"
  using assms
  by (cases "new \<in> set ids") (auto simp: rename_ids_def Let_def filter_map distinct_map inj_on_def)

lemma set_rename_ids:
  assumes "[] \<notin> set ids" and "new \<noteq> []" and "old \<noteq> new"
  shows "set (rename_ids old new ids) = (\<lambda>i. if i = old then new else i) ` set ids"
  using assms by (auto simp: rename_ids_def Let_def image_iff)

lemma find_net_None: "find_net name s = None \<longleftrightarrow> name \<notin> net_name ` set s"
  by (simp add: find_net_def)

lemma on_net_cases:
  "snd (on_net name f s) = s \<or> snd (on_net name f s) = update_matching (\<lambda>n. net_name n = name) f s"
  by (simp add: on_net_def)

lemma nets_ok_on_net:
  assumes "nets_ok s" and "\<And>n. net_name (f n) = net_name n"
    and "\<And>n. distinct (channel_ids n) \<Longrightarrow> distinct (channel_ids (f n))"
  shows "nets_ok (snd (on_net name f s))"
  using assms by (auto simp: nets_ok_def on_net_def map_update_matching intro: list_all_update_matching)

lemma keys_rename_first:
  "distinct (map net_name s) \<Longrightarrow> new \<notin> net_name ` set s \<Longrightarrow>
    distinct (map net_name (update_matching (\<lambda>n. net_name n = old) (\<lambda>n. n\<lparr>net_name := new\<rparr>) s)) \<and>
    set (map net_name (update_matching (\<lambda>n. net_name n = old) (\<lambda>n. n\<lparr>net_name := new\<rparr>) s)) \<subseteq> insert new (set (map net_name s))"
  by (induction s) auto

lemma nets_ok_rename:
  assumes "nets_ok s"
  shows "nets_ok (snd (rename_net old new s))"
  using assms keys_rename_first [of s new old]
  by (auto simp: rename_net_def on_net_def nets_ok_def find_net_None intro: list_all_update_matching)

lemma nets_ok_step: "nets_ok s \<Longrightarrow> nets_ok (net_step s e)"
proof (cases e)
  case (Rename_Net old new)
  then show "nets_ok s \<Longrightarrow> nets_ok (net_step s e)" by (simp add: nets_ok_rename)
next
  case (Rename_Channel old new)
  then show "nets_ok s \<Longrightarrow> nets_ok (net_step s e)"
    by (auto simp: rename_channel_def nets_ok_def list.pred_set distinct_rename_ids comp_def)
next
  case (Unassign_Everywhere ident)
  then show "nets_ok s \<Longrightarrow> nets_ok (net_step s e)"
    by (auto simp: unassign_channel_everywhere_def drop_channel_def nets_ok_def list.pred_set comp_def)
next
  case (Store_Net name)
  then show "nets_ok s \<Longrightarrow> nets_ok (net_step s e)"
    by (auto simp: store_net_def find_net_None nets_ok_def Net_def list.pred_set simp flip: find_net_None)
next
  case (Remove_Net name)
  then show "nets_ok s \<Longrightarrow> nets_ok (net_step s e)"
    by (auto simp: remove_net_def Let_def nets_ok_def list.pred_set distinct_keys_filter)
next
  case (Update_Net u)
  then show "nets_ok s \<Longrightarrow> nets_ok (net_step s e)" by (simp add: update_net_def nets_ok_on_net)
next
  case (Assign_Channel name ident)
  then show "nets_ok s \<Longrightarrow> nets_ok (net_step s e)" by (simp add: assign_channel_def nets_ok_on_net)
next
  case (Unassign_Channel name ident)
  then show "nets_ok s \<Longrightarrow> nets_ok (net_step s e)"
    by (simp add: unassign_channel_def drop_channel_def nets_ok_on_net)
qed (simp add: nets_ok_def)

interpretation net_directory: event_machine net_step nets_ok
  by unfold_locales (rule nets_ok_step)

section \<open>The scan width of a net\<close>

lemma enabled_with_id_iff: "enabled_with_id ident chs \<longleftrightarrow> (\<exists>c\<in>set chs. chan_id c = ident \<and> chan_enabled c)"
  by (induction chs) auto

lemma scan_count_from:
  "foldl (\<lambda>count ident. if P ident then count + 1 else count) c ids = c + (of_nat (length (filter P ids)) :: u32)"
  by (induction ids arbitrary: c) (auto simp: add_ac)

text \<open>The count is the number of members with an enabled channel (below the range of \<open>uint32_t\<close>).\<close>

lemma net_scan_channel_count_card:
  assumes "distinct (channel_ids n)"
  shows "net_scan_channel_count n chs = of_nat (card {i \<in> set (channel_ids n). enabled_with_id i chs})"
  using assms by (simp add: net_scan_channel_count_def scan_count_from distinct_length_filter Int_def conj_commute)

definition renamed_channel :: "string \<Rightarrow> string \<Rightarrow> channel \<Rightarrow> channel" where
  "renamed_channel old new c = (if chan_id c = old then c\<lparr>chan_id := new\<rparr> else c)"

lemma enabled_renamed:
  assumes "new \<notin> chan_id ` set chs" and "old \<noteq> new"
  shows "enabled_with_id i (map (renamed_channel old new) chs) =
    (if i = new then enabled_with_id old chs else i \<noteq> old \<and> enabled_with_id i chs)"
  using assms by (induction chs) (auto simp: renamed_channel_def)

lemma scan_count_renamed:
  assumes "distinct (channel_ids n)" and "[] \<notin> set (channel_ids n)" and "new \<noteq> []"
    and "new \<notin> set (channel_ids n)" and "new \<notin> chan_id ` set chs" and "old \<noteq> new"
  shows "net_scan_channel_count (n\<lparr>channel_ids := rename_ids old new (channel_ids n)\<rparr>) (map (renamed_channel old new) chs) =
    net_scan_channel_count n chs"
proof -
  let ?r = "\<lambda>i. if i = old then new else i"
  let ?A = "{i \<in> set (channel_ids n). enabled_with_id i chs}"
  have new: "\<not> enabled_with_id new chs"
    using assms(5) by (auto simp: enabled_with_id_iff)
  have members: "{i \<in> set (rename_ids old new (channel_ids n)). enabled_with_id i (map (renamed_channel old new) chs)} = ?r ` ?A"
    using assms new by (auto simp: set_rename_ids enabled_renamed split: if_splits)
  have "inj_on ?r ?A"
    using new by (auto simp: inj_on_def)
  then have "card {i \<in> set (rename_ids old new (channel_ids n)). enabled_with_id i (map (renamed_channel old new) chs)} = card ?A"
    unfolding members by (rule card_image)
  with assms(1) show ?thesis
    by (simp add: net_scan_channel_count_card distinct_rename_ids)
qed

section \<open>Group rosters\<close>

record roster =
  roster_name :: string
  roster_members :: "string list"

type_synonym roster_store = "roster list"

definition find_roster :: "string \<Rightarrow> roster_store \<Rightarrow> roster option" where
  "find_roster name s = find (\<lambda>r. roster_name r = name) s"

definition add_roster :: "string \<Rightarrow> roster_store \<Rightarrow> bool \<times> roster_store" where
  "add_roster name s =
     (if find_roster name s \<noteq> None then (False, s)
      else (True, s @ [\<lparr>roster_name = name, roster_members = []\<rparr>]))"

definition remove_roster :: "string \<Rightarrow> roster_store \<Rightarrow> bool \<times> roster_store" where
  "remove_roster name s = (let s' = filter (\<lambda>r. roster_name r \<noteq> name) s in (length s' \<noteq> length s, s'))"

definition on_roster :: "string \<Rightarrow> (roster \<Rightarrow> roster) \<Rightarrow> roster_store \<Rightarrow> bool \<times> roster_store" where
  "on_roster name f s =
     (if find_roster name s = None then (False, s)
      else (True, update_matching (\<lambda>r. roster_name r = name) f s))"

definition add_member :: "string \<Rightarrow> string \<Rightarrow> roster_store \<Rightarrow> bool \<times> roster_store" where
  "add_member name callsign s = on_roster name
     (\<lambda>r. if callsign \<in> set (roster_members r) then r
          else r\<lparr>roster_members := roster_members r @ [callsign]\<rparr>) s"

definition remove_member :: "string \<Rightarrow> string \<Rightarrow> roster_store \<Rightarrow> bool \<times> roster_store" where
  "remove_member name callsign s = on_roster name
     (\<lambda>r. r\<lparr>roster_members := filter (\<lambda>m. m \<noteq> callsign) (roster_members r)\<rparr>) s"

datatype roster_op =
  Add_Roster string | Remove_Roster string | Add_Member string string | Remove_Member string string | Clear_Rosters

fun roster_step :: "roster_store \<Rightarrow> roster_op \<Rightarrow> roster_store" where
  "roster_step s (Add_Roster name) = snd (add_roster name s)"
| "roster_step s (Remove_Roster name) = snd (remove_roster name s)"
| "roster_step s (Add_Member name m) = snd (add_member name m s)"
| "roster_step s (Remove_Member name m) = snd (remove_member name m s)"
| "roster_step s Clear_Rosters = []"

definition rosters_ok :: "roster_store \<Rightarrow> bool" where
  "rosters_ok s \<longleftrightarrow> distinct (map roster_name s) \<and> list_all (\<lambda>r. distinct (roster_members r)) s"

lemma rosters_ok_on_roster:
  assumes "rosters_ok s" and "\<And>r. roster_name (f r) = roster_name r"
    and "\<And>r. distinct (roster_members r) \<Longrightarrow> distinct (roster_members (f r))"
  shows "rosters_ok (snd (on_roster name f s))"
  using assms by (auto simp: rosters_ok_def on_roster_def map_update_matching intro: list_all_update_matching)

lemma rosters_ok_step: "rosters_ok s \<Longrightarrow> rosters_ok (roster_step s e)"
proof (cases e)
  case (Add_Member name m)
  then show "rosters_ok s \<Longrightarrow> rosters_ok (roster_step s e)" by (simp add: add_member_def rosters_ok_on_roster)
next
  case (Remove_Member name m)
  then show "rosters_ok s \<Longrightarrow> rosters_ok (roster_step s e)" by (simp add: remove_member_def rosters_ok_on_roster)
qed (auto simp: add_roster_def remove_roster_def find_roster_def Let_def rosters_ok_def list.pred_set distinct_keys_filter)

interpretation roster_directory: event_machine roster_step rosters_ok
  by unfold_locales (rule rosters_ok_step)

section \<open>Contacts\<close>

record contact_meta =
  ct_enabled :: bool
  ct_net_members :: "string list"
  ct_valid_channels :: "string list"
  ct_all_channels :: bool

definition ContactMeta :: contact_meta where
  "ContactMeta = \<lparr>ct_enabled = True, ct_net_members = [], ct_valid_channels = [], ct_all_channels = True\<rparr>"

record contact = contact_meta +
  callsign :: string
  contact_name :: string

text \<open>The address book of the state machine, which the store refers to, and the side table.\<close>

record contact_store =
  book :: address_book
  meta :: "(string \<times> contact_meta) list"

definition with_meta :: "string \<Rightarrow> string \<Rightarrow> contact_meta \<Rightarrow> contact" where
  "with_meta addr name m = \<lparr>ct_enabled = ct_enabled m, ct_net_members = ct_net_members m,
     ct_valid_channels = ct_valid_channels m, ct_all_channels = ct_all_channels m, callsign = addr,
     contact_name = name\<rparr>"

definition meta_of :: "contact \<Rightarrow> contact_meta" where
  "meta_of c = \<lparr>ct_enabled = ct_enabled c, ct_net_members = ct_net_members c,
     ct_valid_channels = ct_valid_channels c, ct_all_channels = ct_all_channels c\<rparr>"

definition build_contact :: "contact_store \<Rightarrow> string \<Rightarrow> string \<Rightarrow> contact" where
  "build_contact s addr name =
     (case find (\<lambda>p. fst p = addr) (meta s) of None \<Rightarrow> with_meta addr name ContactMeta
      | Some p \<Rightarrow> with_meta addr name (snd p))"

definition put_meta :: "string \<Rightarrow> contact_meta \<Rightarrow> (string \<times> contact_meta) list \<Rightarrow> (string \<times> contact_meta) list" where
  "put_meta k m ms =
     (if list_ex (\<lambda>p. fst p = k) ms then update_matching (\<lambda>p. fst p = k) (\<lambda>p. (fst p, m)) ms else ms @ [(k, m)])"

definition add_or_update :: "contact \<Rightarrow> contact_store \<Rightarrow> bool \<times> contact_store" where
  "add_or_update c s =
     (if callsign c = [] then (False, s)
      else (True, \<lparr>book = update_station (callsign c) (contact_name c) (book s),
                   meta = put_meta (callsign c) (meta_of c) (meta s)\<rparr>))"

definition remove_contact :: "string \<Rightarrow> contact_store \<Rightarrow> bool \<times> contact_store" where
  "remove_contact cs s =
     (if \<not> list_ex (\<lambda>p. fst p = cs) (stations (book s)) then (False, s)
      else (True, \<lparr>book = remove_station cs (book s), meta = filter (\<lambda>p. fst p \<noteq> cs) (meta s)\<rparr>))"

definition find_contact :: "contact_store \<Rightarrow> string \<Rightarrow> contact option" where
  "find_contact s cs =
     (case find (\<lambda>p. fst p = cs) (stations (book s)) of None \<Rightarrow> None
      | Some p \<Rightarrow> Some (build_contact s (fst p) (snd p)))"

definition all_contacts :: "contact_store \<Rightarrow> contact list" where
  "all_contacts s = map (\<lambda>p. build_contact s (fst p) (snd p)) (stations (book s))"

definition clear_contacts :: "contact_store \<Rightarrow> contact_store" where
  "clear_contacts s = \<lparr>book = clear_stations (book s), meta = []\<rparr>"

lemma find_map_of: "map_option snd (find (\<lambda>p. fst p = k) ps) = map_of ps k"
  by (induction ps) auto

lemma find_key_SomeD: "find (\<lambda>p. fst p = k) ps = Some p \<Longrightarrow> fst p = k"
  by (auto simp: find_Some_iff)

lemma case_find_map_of:
  "(case find (\<lambda>p. fst p = k) ps of None \<Rightarrow> d | Some p \<Rightarrow> f (snd p)) =
     (case map_of ps k of None \<Rightarrow> d | Some v \<Rightarrow> f v)"
  by (induction ps) auto

lemma build_contact_map: 
  "build_contact s addr name = with_meta addr name (case map_of (meta s) addr of None \<Rightarrow> ContactMeta | Some m \<Rightarrow> m)"
  unfolding build_contact_def case_find_map_of [where f = "with_meta addr name"] by (simp split: option.split)

lemma find_contact_map:
  "find_contact s cs =
     map_option (\<lambda>name. with_meta cs name (case map_of (meta s) cs of None \<Rightarrow> ContactMeta | Some m \<Rightarrow> m))
       (map_of (stations (book s)) cs)"
proof (cases "find (\<lambda>p. fst p = cs) (stations (book s))")
  case None
  then have "map_of (stations (book s)) cs = None" by (simp add: map_of_eq_None_iff)
  then show ?thesis unfolding find_contact_def None by simp
next
  case (Some p)
  then have "fst p = cs" by (rule find_key_SomeD)
  moreover have "map_of (stations (book s)) cs = Some (snd p)" using Some by (simp flip: find_map_of)
  ultimately show ?thesis using Some by (simp add: find_contact_def build_contact_map)
qed

lemma map_of_put_meta: "map_of (put_meta k m ms) = (map_of ms)(k \<mapsto> m)"
proof -
  have "list_ex (\<lambda>p. fst p = k) ms \<Longrightarrow>
      map_of (update_matching (\<lambda>p. fst p = k) (\<lambda>p. (fst p, m)) ms) = (map_of ms)(k \<mapsto> m)"
    by (induction ms) (auto simp: fun_eq_iff)
  moreover have "\<not> list_ex (\<lambda>p. fst p = k) ms \<Longrightarrow> map_of ms k = None"
    by (induction ms) auto
  ultimately show ?thesis
    by (auto simp: put_meta_def map_add_def fun_eq_iff split: option.split)
qed

lemma with_meta_of [simp]: "with_meta (callsign c) (contact_name c) (meta_of c) = c"
  by (simp add: with_meta_def meta_of_def)

text \<open>The two tables together are one map from callsigns to contacts.\<close>

lemma find_contact_add:
  assumes "callsign c \<noteq> []"
  shows "find_contact (snd (add_or_update c s)) = (find_contact s)(callsign c \<mapsto> c)"
  using assms
  by (auto simp: fun_eq_iff find_contact_map add_or_update_def update_station_def
      map_of_update_entry map_of_put_meta)

lemma find_contact_remove:
  "find_contact (snd (remove_contact cs s)) = (find_contact s)(cs := None)"
proof (cases "list_ex (\<lambda>p. fst p = cs) (stations (book s))")
  case True
  then show ?thesis
    by (auto simp: fun_eq_iff find_contact_map remove_contact_def remove_station_def map_of_filter_key)
next
  case False
  then have "cs \<notin> fst ` set (stations (book s))" by (simp add: list_ex_key)
  then have "map_of (stations (book s)) cs = None" by (simp add: map_of_eq_None_iff)
  with False show ?thesis by (auto simp: fun_eq_iff find_contact_map remove_contact_def)
qed

section \<open>Own addresses\<close>

record self_entry =
  se_address :: string
  se_enabled :: bool
  se_valid_channels :: "string list"
  se_all_channels :: bool

record self_store =
  self_entries :: "self_entry list"
  primary :: string

definition self_capacity :: nat where "self_capacity = 20"

definition find_self :: "string \<Rightarrow> self_store \<Rightarrow> self_entry option" where
  "find_self a s = find (\<lambda>e. se_address e = a) (self_entries s)"

definition add_self :: "self_entry \<Rightarrow> self_store \<Rightarrow> bool \<times> self_store" where
  "add_self e s =
     (if se_address e = [] then (False, s)
      else if find_self (se_address e) s \<noteq> None
      then (True, s\<lparr>self_entries := update_matching (\<lambda>x. se_address x = se_address e) (\<lambda>_. e) (self_entries s)\<rparr>)
      else if length (self_entries s) \<ge> self_capacity then (False, s)
      else (True, \<lparr>self_entries = self_entries s @ [e], primary = (if primary s = [] then se_address e else primary s)\<rparr>))"

definition remove_self :: "string \<Rightarrow> self_store \<Rightarrow> bool \<times> self_store" where
  "remove_self a s =
     (let es = filter (\<lambda>e. se_address e \<noteq> a) (self_entries s)
      in if length es = length (self_entries s) then (False, s)
         else (True, \<lparr>self_entries = es,
                      primary = (if primary s = a then (if es = [] then [] else se_address (hd es)) else primary s)\<rparr>))"

definition set_primary :: "string \<Rightarrow> self_store \<Rightarrow> bool \<times> self_store" where
  "set_primary a s = (if find_self a s = None then (False, s) else (True, s\<lparr>primary := a\<rparr>))"

definition matches_self :: "string \<Rightarrow> self_store \<Rightarrow> bool" where
  "matches_self a s \<longleftrightarrow> find_self a s \<noteq> None"

definition clear_self :: "self_store \<Rightarrow> self_store" where
  "clear_self s = \<lparr>self_entries = [], primary = []\<rparr>"

datatype self_op = Add_Self self_entry | Remove_Self string | Set_Primary string | Clear_Self

fun self_step :: "self_store \<Rightarrow> self_op \<Rightarrow> self_store" where
  "self_step s (Add_Self e) = snd (add_self e s)"
| "self_step s (Remove_Self a) = snd (remove_self a s)"
| "self_step s (Set_Primary a) = snd (set_primary a s)"
| "self_step s Clear_Self = clear_self s"

text \<open>The primary address is one of the entries, or empty exactly when there is none.\<close>

definition self_ok :: "self_store \<Rightarrow> bool" where
  "self_ok s \<longleftrightarrow> distinct (map se_address (self_entries s)) \<and> [] \<notin> se_address ` set (self_entries s) \<and>
     length (self_entries s) \<le> self_capacity \<and>
     (if self_entries s = [] then primary s = [] else primary s \<in> se_address ` set (self_entries s))"

lemma addresses_update_matching:
  "map se_address (update_matching (\<lambda>x. se_address x = se_address e) (\<lambda>_. e) xs) = map se_address xs"
  by (induction xs) auto

lemma find_self_None: "find_self a s = None \<longleftrightarrow> a \<notin> se_address ` set (self_entries s)"
  by (simp add: find_self_def)

lemma self_ok_add:
  assumes "self_ok s"
  shows "self_ok (snd (add_self e s))"
proof -
  let ?u = "update_matching (\<lambda>x. se_address x = se_address e) (\<lambda>_. e) (self_entries s)"
  have "se_address ` set ?u = se_address ` set (self_entries s)"
    by (metis addresses_update_matching list.set_map)
  moreover have "?u = [] \<longleftrightarrow> self_entries s = []"
    by (metis length_0_conv length_update_matching)
  ultimately show ?thesis
    using assms by (auto simp: self_ok_def add_self_def find_self_None addresses_update_matching split: if_splits)
qed

lemma self_ok_remove:
  assumes "self_ok s"
  shows "self_ok (snd (remove_self a s))"
proof -
  let ?es = "filter (\<lambda>e. se_address e \<noteq> a) (self_entries s)"
  have front: "se_address (hd ?es) \<in> se_address ` set ?es" if "?es \<noteq> []"
    using that by (intro imageI hd_in_set)
  have bound: "length ?es \<le> self_capacity"
    using assms by (auto simp: self_ok_def intro: order.trans [OF length_filter_le])
  have kept: "primary s \<in> se_address ` set ?es" if "primary s \<noteq> a" "self_entries s \<noteq> []"
    using assms that by (auto simp: self_ok_def)
  have empty: "self_entries s = [] \<Longrightarrow> ?es = []" by simp
  have distinct: "distinct (map se_address ?es)" and named: "[] \<notin> se_address ` set ?es"
    using assms by (auto simp: self_ok_def distinct_keys_filter)
  show ?thesis
  proof (cases "length ?es = length (self_entries s)")
    case True
    then show ?thesis using assms by (simp add: remove_self_def)
  next
    case False
    then have "self_entries s \<noteq> []" by auto
    moreover have "snd (remove_self a s) = \<lparr>self_entries = ?es,
        primary = (if primary s = a then (if ?es = [] then [] else se_address (hd ?es)) else primary s)\<rparr>"
      using False by (simp add: remove_self_def Let_def)
    ultimately show ?thesis
      using bound front kept distinct named by (auto simp: self_ok_def simp del: filter_empty_conv set_filter)
  qed
qed

lemma self_ok_step: "self_ok s \<Longrightarrow> self_ok (self_step s e)"
  by (cases e)
    (auto simp: self_ok_add self_ok_remove, auto simp: self_ok_def set_primary_def find_self_None clear_self_def)

interpretation own_addresses: event_machine self_step self_ok
  by unfold_locales (rule self_ok_step)

section \<open>Known stations\<close>

record station_info =
  si_address :: string
  si_name :: string
  si_last_contact :: u32
  si_contact_count :: u32

definition station_capacity :: nat where "station_capacity = 100"

definition has_station :: "string \<Rightarrow> station_info list \<Rightarrow> bool" where
  "has_station a s = list_ex (\<lambda>i. si_address i = a) s"

definition store_station :: "station_info \<Rightarrow> station_info list \<Rightarrow> bool \<times> station_info list" where
  "store_station i s =
     (if has_station (si_address i) s then (False, s)
      else if length s \<ge> station_capacity then (False, s)
      else (True, s @ [i]))"

definition update_contact :: "string \<Rightarrow> u32 \<Rightarrow> station_info list \<Rightarrow> station_info list" where
  "update_contact a now s =
     (if has_station a s
      then update_matching (\<lambda>i. si_address i = a)
             (\<lambda>i. i\<lparr>si_last_contact := now, si_contact_count := si_contact_count i + 1\<rparr>) s
      else if length s \<ge> station_capacity then s
      else s @ [\<lparr>si_address = a, si_name = [], si_last_contact = now, si_contact_count = 1\<rparr>])"

definition get_station :: "string \<Rightarrow> station_info list \<Rightarrow> station_info option" where
  "get_station a s = find (\<lambda>i. si_address i = a) s"

datatype station_op = Store_Station station_info | Heard_Station string u32 | Clear_Station_List

fun station_step :: "station_info list \<Rightarrow> station_op \<Rightarrow> station_info list" where
  "station_step s (Store_Station i) = snd (store_station i s)"
| "station_step s (Heard_Station a now) = update_contact a now s"
| "station_step s Clear_Station_List = []"

definition stations_ok :: "station_info list \<Rightarrow> bool" where
  "stations_ok s \<longleftrightarrow> distinct (map si_address s) \<and> length s \<le> station_capacity"

lemma stations_ok_step: "stations_ok s \<Longrightarrow> stations_ok (station_step s e)"
  by (cases e)
    (auto simp: stations_ok_def store_station_def update_contact_def has_station_def list_ex_key map_update_matching)

interpretation heard_stations: event_machine station_step stations_ok
  by unfold_locales (rule stations_ok_step)

section \<open>The channel choice of the LQA store\<close>

definition best_score :: "lqa_database \<Rightarrow> u32 \<Rightarrow> rat" where
  "best_score db f = foldl (\<lambda>best e. if le_score e > best then le_score e else best) (-1) (get_entries_for_channel f db)"

fun best_scored :: "(u32 \<Rightarrow> rat) \<Rightarrow> u32 \<Rightarrow> rat \<Rightarrow> u32 list \<Rightarrow> u32" where
  "best_scored score best_freq best [] = best_freq"
| "best_scored score best_freq best (f # fs) =
     (if score f > best then best_scored score f (score f) fs else best_scored score best_freq best fs)"

definition best_channel :: "lqa_database \<Rightarrow> u32 list \<Rightarrow> u32" where
  "best_channel db candidates =
     (if candidates = [] then 0 else best_scored (best_score db) (hd candidates) (-1) candidates)"

lemma foldl_max: "foldl (\<lambda>best e. if g e > best then g e else best) (b :: 'a :: linorder) es = Max (insert b (g ` set es))"
proof (induction es arbitrary: b)
  case (Cons e es)
  have "Max (insert (if g e > b then g e else b) (g ` set es)) = Max (insert b (g ` set (e # es)))"
    by (cases "set es = {}") (auto simp: max_def Max_insert)
  with Cons show ?case by simp
qed simp

lemma best_score_ge: "-1 \<le> best_score db f"
  by (simp add: best_score_def foldl_max)

lemma best_scored_maximal:
  assumes "best = score best_freq \<or> best \<le> score best_freq \<and> best_freq \<in> set fs"
  shows "best_scored score best_freq best fs \<in> insert best_freq (set fs) \<and>
    (\<forall>f\<in>insert best_freq (set fs). score f \<le> score (best_scored score best_freq best fs))"
  using assms
proof (induction fs arbitrary: best_freq best)
  case Nil
  then show ?case by simp
next
  case (Cons f fs)
  show ?case
  proof (cases "score f > best")
    case True
    show ?thesis using Cons.IH [of "score f" f] True Cons.prems
      by (auto split: if_splits)
  next
    case False
    then show ?thesis using Cons.IH [of best best_freq] Cons.prems by auto
  qed
qed

lemma best_channel_maximal:
  assumes "candidates \<noteq> []"
  shows "best_channel db candidates \<in> set candidates \<and>
    (\<forall>f\<in>set candidates. best_score db f \<le> best_score db (best_channel db candidates))"
  using assms best_scored_maximal [of "-1" "best_score db" "hd candidates" candidates]
  by (auto simp: best_channel_def best_score_ge insert_absorb)

section \<open>Properties\<close>

text \<open>
  A call under the policy \<open>BEST_LQA\<close> goes out on an enabled channel, and none of the enabled channels has
  a better score for any station.
\<close>

theorem call_on_best_channel:
  assumes "enabled_channels cs \<noteq> []" and "policy s = BEST_LQA" and "0 \<notin> rx_frequency_hz ` set cs"
  shows "(let f = fst (select_for_call (best_channel db) (enabled_channels cs) s)
    in (\<exists>c\<in>set cs. chan_enabled c \<and> rx_frequency_hz c = f) \<and>
       (\<forall>c\<in>set cs. chan_enabled c \<longrightarrow> best_score db (rx_frequency_hz c) \<le> best_score db f))"
proof -
  let ?fs = "map rx_frequency_hz (enabled_channels cs)"
  have best: "best_channel db ?fs \<in> set ?fs \<and> (\<forall>f\<in>set ?fs. best_score db f \<le> best_score db (best_channel db ?fs))"
    using assms(1) by (intro best_channel_maximal) simp
  then have "best_channel db ?fs \<noteq> 0"
    using assms(3) by (auto simp: enabled_channels_def)
  then have "fst (select_for_call (best_channel db) (enabled_channels cs) s) = best_channel db ?fs"
    using assms(1,2) by (simp add: select_for_call_def select_best_lqa_def Let_def)
  with best show ?thesis by (auto simp: enabled_channels_def Let_def)
qed

theorem call_on_best_channel_witness:
  "fst (select_for_call (best_channel init_database)
     (enabled_channels [simplex_channel 7102000 ''USB'']) ChannelSelector) = 7102000"
  using call_on_best_channel [of "[simplex_channel 7102000 ''USB'']" ChannelSelector init_database]
  by (simp add: enabled_channels_def simplex_channel_def Channel_def ChannelSelector_def Let_def)

text \<open>
  The contact store is a map from callsigns: adding or updating a contact under a callsign makes it what
  is found there, removing forgets it, and every other callsign keeps its contact; an empty callsign is refused.
\<close>

theorem contact_store_is_map:
  "find_contact (snd (add_or_update c s)) =
     (if callsign c = [] then find_contact s else (find_contact s)(callsign c \<mapsto> c)) \<and>
   find_contact (snd (remove_contact cs s)) = (find_contact s)(cs := None) \<and>
   find_contact (clear_contacts s) = Map.empty \<and>
   (fst (remove_contact cs s) \<longleftrightarrow> cs \<in> dom (find_contact s))"
proof -
  have "find_contact (clear_contacts s) = Map.empty"
    by (auto simp: fun_eq_iff find_contact_map clear_contacts_def clear_stations_def)
  moreover have "fst (remove_contact cs s) \<longleftrightarrow> cs \<in> dom (find_contact s)"
    by (simp add: remove_contact_def list_ex_key find_contact_map domIff map_of_eq_None_iff)
  ultimately show ?thesis
    by (simp add: find_contact_add find_contact_remove) (simp add: add_or_update_def)
qed

text \<open>
  Whatever is added, removed, made primary or cleared, the primary own address is one of the listed
  addresses, and it is empty only when the list is; the list keeps within its twenty entries, each address once.
\<close>

theorem primary_address_listed:
  "(let s = foldl self_step \<lparr>self_entries = [], primary = []\<rparr> es
    in distinct (map se_address (self_entries s)) \<and> length (self_entries s) \<le> 20 \<and>
       (primary s = [] \<longleftrightarrow> self_entries s = []) \<and>
       (primary s = [] \<or> matches_self (primary s) s))"
proof -
  have "self_ok (foldl self_step \<lparr>self_entries = [], primary = []\<rparr> es)"
    by (rule own_addresses.run_inv) (simp add: self_ok_def)
  then show ?thesis
    by (auto simp: self_ok_def Let_def matches_self_def find_self_None self_capacity_def split: if_splits)
qed

text \<open>
  Loading replaces the channels without the checks of \<open>add_channel\<close>: a file with two channels of one frequency
  leaves a store that breaks the invariant, and removing that frequency then removes both.
\<close>

lemma loaded_channels_unchecked:
  "\<not> channels_ok (snd (load_channels (Some [c, c]) s)) \<and>
   remove_channel (rx_frequency_hz c) (snd (load_channels (Some [c, c]) s)) = []"
  by (simp add: load_channels_def channels_ok_def remove_channel_def)

text \<open>The header asks for three to fifteen Basic 38 characters; the store takes any address but the empty one.\<close>

lemma any_self_address_taken:
  assumes "a \<noteq> []"
  shows "fst (add_self \<lparr>se_address = a, se_enabled = True, se_valid_channels = [], se_all_channels = True\<rparr>
    \<lparr>self_entries = [], primary = []\<rparr>)"
  using assms by (simp add: add_self_def find_self_def self_capacity_def)

end
