(* ===== verification/Text_Lines.thy ===== *)
theory Text_Lines
  imports Decimal
begin

text \<open>
  Text as the file formats of the controller take it apart: fields between separators, the lines of a
  stream (\<open>std::getline\<close>), the words of a stream (\<open>operator>>\<close>), trimming, comma lists, and \<open>std::stoul\<close> with
  a 64-bit \<open>unsigned long\<close>.
\<close>

section \<open>Fields\<close>

fun split_on :: "(char \<Rightarrow> bool) \<Rightarrow> string \<Rightarrow> string list" where
  "split_on P [] = [[]]"
| "split_on P (c # s) =
     (if P c then [] # split_on P s
      else (case split_on P s of [] \<Rightarrow> [[c]] | f # fs \<Rightarrow> (c # f) # fs))"

lemma split_on_not_Nil [simp]: "split_on P s \<noteq> []"
  by (induction s) (auto split: list.split)

lemma split_on_single: "list_all (\<lambda>c. \<not> P c) s \<Longrightarrow> split_on P s = [s]"
  by (induction s) auto

lemma split_on_append: "P d \<Longrightarrow> split_on P (xs @ d # ys) = split_on P xs @ split_on P ys"
proof (induction xs)
  case (Cons x xs)
  then show ?case by (cases "split_on P xs") auto
qed simp

definition getlines :: "char \<Rightarrow> string \<Rightarrow> string list" where
  "getlines d s = (let fs = split_on (\<lambda>c. c = d) s in if last fs = [] then butlast fs else fs)"

definition is_space :: "char \<Rightarrow> bool" where
  "is_space c \<longleftrightarrow> (of_char c :: nat) = 32 \<or> 9 \<le> (of_char c :: nat) \<and> (of_char c :: nat) \<le> 13"

definition tokens :: "string \<Rightarrow> string list" where
  "tokens s = filter (\<lambda>t. t \<noteq> []) (split_on is_space s)"

definition trim_with :: "(char \<Rightarrow> bool) \<Rightarrow> string \<Rightarrow> string" where
  "trim_with P s = rev (dropWhile P (rev (dropWhile P s)))"

definition split_csv :: "string \<Rightarrow> string list" where
  "split_csv s = filter (\<lambda>t. t \<noteq> []) (map (trim_with is_space) (split_on (\<lambda>c. c = CHR '','') s))"

definition split_pipe :: "string \<Rightarrow> string list" where
  "split_pipe s = split_on (\<lambda>c. c = CHR ''|'') s"

definition join_with :: "char \<Rightarrow> string list \<Rightarrow> string" where
  "join_with d items = foldl (\<lambda>out it. (if out \<noteq> [] then out @ [d] else out) @ it) [] items"

definition join_csv :: "string list \<Rightarrow> string" where
  "join_csv items = join_with (CHR '','') items"

definition unlines :: "string list \<Rightarrow> string" where
  "unlines ls = concat (map (\<lambda>l. l @ [CHR 0x0A]) ls)"

section \<open>Reading back what was joined\<close>

lemma getlines_unlines:
  assumes "list_all (\<lambda>l. CHR 0x0A \<notin> set l) ls"
  shows "getlines (CHR 0x0A) (unlines ls) = ls"
proof -
  have "split_on (\<lambda>c. c = CHR 0x0A) (unlines ls) = ls @ [[]]"
    using assms
  proof (induction ls)
    case (Cons l ls)
    then have "split_on (\<lambda>c. c = CHR 0x0A) l = [l]" by (intro split_on_single) (auto simp: list_all_iff)
    with Cons show ?case by (simp add: unlines_def split_on_append)
  qed (simp add: unlines_def)
  then show ?thesis by (simp add: getlines_def)
qed

lemma join_with_Nil [simp]: "join_with d [] = []"
  by (simp add: join_with_def)

lemma join_with_single [simp]: "join_with d [it] = it"
  by (simp add: join_with_def)

lemma join_with_snoc:
  "join_with d (items @ [it]) = (if join_with d items \<noteq> [] then join_with d items @ d # it else it)"
  by (simp add: join_with_def)

lemma join_with_eq_Nil: "list_all (\<lambda>t. t \<noteq> []) items \<Longrightarrow> join_with d items = [] \<longleftrightarrow> items = []"
  by (induction items rule: rev_induct) (auto simp: join_with_snoc)

lemma set_join_with: "set (join_with d items) \<subseteq> insert d (\<Union> (set ` set items))"
  by (induction items rule: rev_induct) (auto simp: join_with_snoc)

lemma split_on_join:
  assumes "items \<noteq> []" and "list_all (\<lambda>t. t \<noteq> [] \<and> list_all (\<lambda>c. \<not> P c) t) items" and "P d"
  shows "split_on P (join_with d items) = items"
  using assms
proof (induction items rule: rev_induct)
  case (snoc it items)
  show ?case
  proof (cases "items = []")
    case True
    then show ?thesis using snoc.prems by (simp add: join_with_def split_on_single)
  next
    case False
    moreover have "list_all (\<lambda>t. t \<noteq> []) items" using snoc.prems(2) by (auto simp: list_all_iff)
    ultimately have "join_with d items \<noteq> []" by (simp add: join_with_eq_Nil)
    with False snoc show ?thesis by (simp add: join_with_snoc split_on_append split_on_single)
  qed
qed simp

lemma trim_with_none: "list_all (\<lambda>c. \<not> P c) s \<Longrightarrow> trim_with P s = s"
proof -
  assume "list_all (\<lambda>c. \<not> P c) s"
  then have "dropWhile P t = t" if "set t \<subseteq> set s" for t
    using that by (cases t) (auto simp: list_all_iff)
  then show "trim_with P s = s" by (simp add: trim_with_def)
qed

text \<open>Words that need no quoting: not empty, without blanks.\<close>

definition is_word :: "string \<Rightarrow> bool" where
  "is_word t \<longleftrightarrow> t \<noteq> [] \<and> list_all (\<lambda>c. \<not> is_space c) t"

lemma tokens_Nil [simp]: "tokens [] = []"
  by (simp add: tokens_def)

lemma tokens_word: "is_word t \<Longrightarrow> tokens t = [t]"
  by (simp add: tokens_def is_word_def split_on_single)

lemma tokens_append: "is_space d \<Longrightarrow> tokens (xs @ d # ys) = tokens xs @ tokens ys"
  by (simp add: tokens_def split_on_append)

lemma tokens_space [simp]: "is_space d \<Longrightarrow> tokens (d # ys) = tokens ys"
  using tokens_append [of d "[]" ys] by simp

lemma is_space_blank [simp]: "is_space (CHR '' '')"
  by (simp add: is_space_def)

lemma split_on_parts: "t \<in> set (split_on P s) \<Longrightarrow> set t \<subseteq> {c \<in> set s. \<not> P c}"
proof (induction s arbitrary: t)
  case (Cons c s)
  then show ?case by (cases "split_on P s") (force split: if_splits)+
qed simp

lemma tokens_words: "list_all is_word (tokens s)"
  using split_on_parts [of _ is_space s] by (force simp: tokens_def list_all_iff is_word_def)

lemma tokens_join: "list_all is_word ts \<Longrightarrow> tokens (join_with (CHR '' '') ts) = ts"
proof (cases "ts = []")
  case False
  assume "list_all is_word ts"
  then have "split_on is_space (join_with (CHR '' '') ts) = ts"
    using False by (intro split_on_join) (auto simp: list_all_iff is_word_def)
  then show ?thesis using \<open>list_all is_word ts\<close> by (simp add: tokens_def list_all_iff is_word_def)
qed simp

lemma tokens_dropWhile: "(\<And>c. P c \<Longrightarrow> is_space c) \<Longrightarrow> tokens (dropWhile P s) = tokens s"
  by (induction s) auto

lemma tokens_snoc_space: "is_space d \<Longrightarrow> tokens (s @ [d]) = tokens s"
  using tokens_append [of d s "[]"] by simp

lemma tokens_drop_back: "(\<And>c. P c \<Longrightarrow> is_space c) \<Longrightarrow> tokens (rev (dropWhile P r)) = tokens (rev r)"
  by (induction r) (auto simp: tokens_snoc_space)

lemma tokens_trim: "(\<And>c. P c \<Longrightarrow> is_space c) \<Longrightarrow> tokens (trim_with P s) = tokens s"
  by (simp add: trim_with_def tokens_drop_back tokens_dropWhile)

lemma tokens_line:
  assumes "is_word w" and "list_all is_word ws" and "r = [] \<or> hd r = CHR '' ''"
  shows "tokens (w @ concat (map (Cons (CHR '' '')) ws) @ r) = w # ws @ tokens r"
  using assms
proof (induction ws arbitrary: w)
  case Nil
  then show ?case by (cases r) (simp_all add: tokens_word tokens_append)
next
  case (Cons v ws)
  then have "tokens (v @ concat (map (Cons (CHR '' '')) ws) @ r) = v # ws @ tokens r" by simp
  then show ?case using Cons.prems by (simp add: tokens_append tokens_word)
qed

lemma split_csv_join:
  assumes "list_all (\<lambda>t. is_word t \<and> CHR '','' \<notin> set t) items"
  shows "split_csv (join_csv items) = items"
proof (cases "items = []")
  case True
  then show ?thesis by (simp add: split_csv_def join_csv_def trim_with_def)
next
  case False
  then have "split_on (\<lambda>c. c = CHR '','') (join_csv items) = items"
    using assms unfolding join_csv_def by (intro split_on_join) (auto simp: list_all_iff is_word_def)
  moreover have "map (trim_with is_space) items = items"
    using assms by (intro map_idI trim_with_none) (auto simp: list_all_iff is_word_def)
  ultimately show ?thesis using assms by (simp add: split_csv_def list_all_iff is_word_def)
qed

section \<open>Numbers\<close>

text \<open>Blanks, a sign and digits; what follows is not looked at. No digits, or a number out of range, throws.\<close>

definition stoul :: "string \<Rightarrow> u64 option" where
  "stoul s =
     (let s = dropWhile is_space s;
          neg = (s \<noteq> [] \<and> hd s = CHR ''-'');
          s = (if s \<noteq> [] \<and> (hd s = CHR ''-'' \<or> hd s = CHR ''+'') then tl s else s);
          ds = takeWhile is_digit s
      in if ds = [] then None
         else if read_nat ds > 2 ^ 64 - 1 then None
         else Some (if neg then - of_nat (read_nat ds) else of_nat (read_nat ds)))"

definition stoul32 :: "string \<Rightarrow> u32 option" where
  "stoul32 s = map_option ucast (stoul s)"

text \<open>Of a string of digits only: \<open>std::stoi\<close>.\<close>

definition stoi_digits :: "string \<Rightarrow> nat option" where
  "stoi_digits s = (if read_nat s > 2 ^ 31 - 1 then None else Some (read_nat s))"

lemma digit_not_space: "is_digit c \<Longrightarrow> \<not> is_space c"
  by (auto simp: is_digit_def is_space_def)

lemma digit_not_sign: "is_digit c \<Longrightarrow> c \<noteq> CHR ''-'' \<and> c \<noteq> CHR ''+''"
  by (auto simp: is_digit_def)

lemma show_nat_word: "is_word (show_nat n)"
  using show_nat_digits [of n] by (auto simp: is_word_def list_all_iff digit_not_space)

lemma stoul_show:
  assumes "n < 2 ^ 64"
  shows "stoul (show_nat n) = Some (of_nat n)"
proof -
  obtain c cs where s: "show_nat n = c # cs" by (cases "show_nat n") auto
  have d: "list_all is_digit (c # cs)" using show_nat_digits [of n] by (simp add: s)
  have all: "takeWhile is_digit cs = cs" using d by (simp add: list_all_iff takeWhile_eq_all_conv)
  have "read_nat (c # cs) = n" using read_show_nat [of n] by (simp add: s)
  then show ?thesis
    using d digit_not_sign [of c] digit_not_space [of c] assms by (auto simp: stoul_def s Let_def all)
qed

lemma stoul32_show [simp]: "stoul32 (show_nat (unat (w :: u32))) = Some w"
proof -
  have "unat w < 2 ^ 64" using unsigned_less [of w] by (rule order.strict_trans2) simp
  moreover have "ucast (of_nat (unat w) :: u64) = w"
    by (rule bit_word_eqI) (auto simp: bit_simps)
  ultimately show ?thesis by (simp add: stoul32_def stoul_show)
qed

end
