(* ===== verification/Channel_Line.thy ===== *)
theory Channel_Line
  imports Channel_Manager Text_Lines
begin

text \<open>
  One channel of a station file: \<open>format_channel_line\<close> and \<open>parse_channel_spec\<close> of
  \<open>src/App/ale_controller.cpp\<close>, with the free identifiers of \<open>next_free_channel_id\<close>. The result of the
  parser tells a line without a channel from an exception that leaves the function.
\<close>

section \<open>Writing\<close>

definition kModes :: "string list" where
  "kModes = [''USB'', ''LSB'', ''AM'', ''FM'', ''FMW'', ''CWU'', ''CWL'', ''FSK'', ''RTTY'', ''USB-D'', ''LSB-D'']"

definition is_ale_mode :: "string \<Rightarrow> bool" where
  "is_ale_mode s = list_ex (\<lambda>m. s = m) kModes"

definition channel_flags :: "channel \<Rightarrow> string list" where
  "channel_flags ch =
     (if \<not> chan_enabled ch then [''OFF''] else []) @
     (if rx_only ch then [''RX''] else []) @
     (if tx_only ch then [''TX''] else []) @
     (if inhibit_calling ch then [''IC''] else []) @
     (if inhibit_sounding ch then [''IS''] else []) @
     (if inhibit_reporting ch then [''IR''] else []) @
     (if ale_only ch then [''AO''] else []) @
     (if power_pct ch \<noteq> 100 then [''PWR:'' @ show_nat (unat (power_pct ch))] else [])"

text \<open>The frequencies and the mode go through a buffer of 64 bytes.\<close>

definition format_channel_line :: "channel \<Rightarrow> string" where
  "format_channel_line ch =
     (let buf = take 63 (show_nat (unat (rx_frequency_hz ch)) @ '' '' @ show_nat (unat (tx_frequency_hz ch)) @ '' '' @
                  takeWhile (\<lambda>c. c \<noteq> CHR 0x00) (rx_mode ch));
          flags = concat (map (\<lambda>f. f @ '','') (channel_flags ch))
      in (if chan_id ch \<noteq> [] then ''ID:'' @ chan_id ch @ '' '' else []) @ buf @
         (if flags \<noteq> [] then '' ['' @ butlast flags @ '']'' else []) @
         (if label ch \<noteq> [] then '' '' @ label ch else []))"

section \<open>Reading\<close>

datatype 'a parsed = Nothing | Parsed 'a | Thrown

text \<open>The frequencies, with the tokens after them; \<open>None\<close> for a number that is none.\<close>

definition parse_frequencies :: "string list \<Rightarrow> (u32 \<times> u32 \<times> string list) option" where
  "parse_frequencies toks =
     (let t = hd toks; rest = tl toks
      in if CHR '':'' \<in> set t
         then (let tx_str = tl (dropWhile (\<lambda>c. c \<noteq> CHR '':'') t)
               in case stoul32 (takeWhile (\<lambda>c. c \<noteq> CHR '':'') t) of None \<Rightarrow> None
                  | Some rx \<Rightarrow> (case (if tx_str = [] then Some 0 else stoul32 tx_str) of None \<Rightarrow> None
                                | Some tx \<Rightarrow> Some (rx, tx, rest)))
         else (case stoul32 t of None \<Rightarrow> None
               | Some rx \<Rightarrow>
                   if rest \<noteq> [] \<and> hd rest \<noteq> [] \<and> list_all is_digit (hd rest)
                   then (case stoul32 (hd rest) of None \<Rightarrow> None | Some tx \<Rightarrow> Some (rx, tx, tl rest))
                   else Some (rx, 0, rest)))"

definition is_power_code :: "string \<Rightarrow> bool" where
  "is_power_code c \<longleftrightarrow> take 4 c = ''PWR:'' \<and> length c > 4 \<and> list_all is_digit (drop 4 c)"

definition is_flag_code :: "string \<Rightarrow> bool" where
  "is_flag_code c \<longleftrightarrow>
     list_ex (\<lambda>f. c = f) [''OFF'', ''RX'', ''TX'', ''IC'', ''IS'', ''IR'', ''AO''] \<or> is_power_code c"

text \<open>The codes of a token in brackets when every one of them is known.\<close>

definition flag_codes :: "string \<Rightarrow> string list option" where
  "flag_codes t =
     (if t \<noteq> [] \<and> hd t = CHR ''['' \<and> last t = CHR '']''
      then (let body = take (length t - 2) (drop 1 t);
                codes = filter (\<lambda>c. c \<noteq> [])
                  (map (trim_with (\<lambda>c. c = CHR '' '' \<or> c = CHR 0x09)) (getlines (CHR '','') body))
            in if codes \<noteq> [] \<and> list_all is_flag_code codes then Some codes else None)
      else None)"

text \<open>\<open>std::stoi\<close> is outside of the \<open>try\<close> of the function.\<close>

definition apply_code :: "string \<Rightarrow> channel \<Rightarrow> channel option" where
  "apply_code c ch =
     (if c = ''OFF'' then Some (ch\<lparr>chan_enabled := False\<rparr>)
      else if c = ''RX'' then Some (ch\<lparr>rx_only := True\<rparr>)
      else if c = ''TX'' then Some (ch\<lparr>tx_only := True\<rparr>)
      else if c = ''IC'' then Some (ch\<lparr>inhibit_calling := True\<rparr>)
      else if c = ''IS'' then Some (ch\<lparr>inhibit_sounding := True\<rparr>)
      else if c = ''IR'' then Some (ch\<lparr>inhibit_reporting := True\<rparr>)
      else if c = ''AO'' then Some (ch\<lparr>ale_only := True\<rparr>)
      else if take 4 c = ''PWR:''
      then (case stoi_digits (drop 4 c) of None \<Rightarrow> None
            | Some n \<Rightarrow> Some (ch\<lparr>power_pct := of_nat (min n 100)\<rparr>))
      else Some ch)"

fun apply_codes :: "string list \<Rightarrow> channel \<Rightarrow> channel option" where
  "apply_codes [] ch = Some ch"
| "apply_codes (c # cs) ch = (case apply_code c ch of None \<Rightarrow> None | Some ch' \<Rightarrow> apply_codes cs ch')"

definition parse_flags_label :: "channel \<Rightarrow> string list \<Rightarrow> channel parsed" where
  "parse_flags_label ch toks =
     (case (if toks = [] then None else flag_codes (hd toks)) of
        None \<Rightarrow> Parsed (ch\<lparr>label := join_with (CHR '' '') toks\<rparr>)
      | Some codes \<Rightarrow>
          (case apply_codes codes ch of None \<Rightarrow> Thrown
           | Some ch' \<Rightarrow> Parsed (ch'\<lparr>label := join_with (CHR '' '') (tl toks)\<rparr>)))"

definition is_blank :: "char \<Rightarrow> bool" where
  "is_blank c \<longleftrightarrow> c = CHR '' '' \<or> c = CHR 0x09 \<or> c = CHR 0x0D \<or> c = CHR 0x0A"

definition parse_channel_spec :: "string \<Rightarrow> channel parsed" where
  "parse_channel_spec raw =
     (let s = trim_with is_blank (takeWhile (\<lambda>c. c \<noteq> CHR ''#'') raw)
      in if s = [] then Nothing
         else let toks = tokens s
         in if toks = [] then Nothing
         else let (ident, toks) = (if take 3 (hd toks) = ''ID:'' then (drop 3 (hd toks), tl toks) else ([], toks))
         in if toks = [] then Nothing
         else case parse_frequencies toks of None \<Rightarrow> Nothing
         | Some (rx, tx, toks) \<Rightarrow>
             if rx = 0 then Nothing
             else let (mode, toks) = (if toks \<noteq> [] \<and> is_ale_mode (hd toks) then (hd toks, tl toks) else (''USB'', toks))
             in parse_flags_label
                  (Channel\<lparr>rx_frequency_hz := rx, tx_frequency_hz := tx, rx_mode := mode, tx_mode := mode, chan_id := ident\<rparr>)
                  toks)"

section \<open>A channel read back\<close>

text \<open>What a line holds of a channel; everything else comes back with its default.\<close>

definition stored_channel :: "channel \<Rightarrow> channel" where
  "stored_channel ch = Channel\<lparr>chan_id := chan_id ch, rx_frequency_hz := rx_frequency_hz ch,
     tx_frequency_hz := tx_frequency_hz ch, rx_mode := rx_mode ch, tx_mode := rx_mode ch, label := label ch,
     chan_enabled := chan_enabled ch, rx_only := rx_only ch, tx_only := tx_only ch,
     inhibit_calling := inhibit_calling ch, inhibit_sounding := inhibit_sounding ch,
     inhibit_reporting := inhibit_reporting ch, ale_only := ale_only ch, power_pct := power_pct ch\<rparr>"

text \<open>What a line can hold: no comment sign, an identifier of one word, a label of single spaces that does not
  start like flags.\<close>

definition channel_line_ok :: "channel \<Rightarrow> bool" where
  "channel_line_ok ch \<longleftrightarrow> rx_frequency_hz ch \<noteq> 0 \<and> is_ale_mode (rx_mode ch) \<and> unat (power_pct ch) \<le> 100 \<and>
     list_all (\<lambda>c. \<not> is_space c \<and> c \<noteq> CHR ''#'') (chan_id ch) \<and>
     CHR ''#'' \<notin> set (label ch) \<and> join_with (CHR '' '') (tokens (label ch)) = label ch \<and>
     (channel_flags ch = [] \<and> label ch \<noteq> [] \<longrightarrow> flag_codes (hd (tokens (label ch))) = None)"

lemma parse_channel_tokens:
  "parse_channel_spec raw =
     (let toks = tokens (takeWhile (\<lambda>c. c \<noteq> CHR ''#'') raw)
      in if toks = [] then Nothing
         else let (ident, toks) = (if take 3 (hd toks) = ''ID:'' then (drop 3 (hd toks), tl toks) else ([], toks))
         in if toks = [] then Nothing
         else case parse_frequencies toks of None \<Rightarrow> Nothing
         | Some (rx, tx, toks) \<Rightarrow>
             if rx = 0 then Nothing
             else let (mode, toks) = (if toks \<noteq> [] \<and> is_ale_mode (hd toks) then (hd toks, tl toks) else (''USB'', toks))
             in parse_flags_label
                  (Channel\<lparr>rx_frequency_hz := rx, tx_frequency_hz := tx, rx_mode := mode, tx_mode := mode, chan_id := ident\<rparr>)
                  toks)"
proof -
  let ?s = "takeWhile (\<lambda>c. c \<noteq> CHR ''#'') raw"
  have "is_blank c \<Longrightarrow> is_space c" for c by (auto simp: is_blank_def is_space_def)
  then have "tokens (trim_with is_blank ?s) = tokens ?s" by (rule tokens_trim)
  moreover from this have "trim_with is_blank ?s = [] \<Longrightarrow> tokens ?s = []" by simp
  ultimately show ?thesis by (auto simp: parse_channel_spec_def Let_def)
qed

lemma apply_codes_append:
  "apply_codes (cs @ ds) ch = (case apply_codes cs ch of None \<Rightarrow> None | Some ch' \<Rightarrow> apply_codes ds ch')"
  by (induction cs arbitrary: ch) (auto split: option.split)

text \<open>One optional code each, as an update of its field.\<close>

lemma apply_optional_codes:
  "apply_codes ((if \<not> b then [''OFF''] else []) @ rest) d = apply_codes rest (d\<lparr>chan_enabled := chan_enabled d \<and> b\<rparr>)"
  "apply_codes ((if b then [''RX''] else []) @ rest) d = apply_codes rest (d\<lparr>rx_only := rx_only d \<or> b\<rparr>)"
  "apply_codes ((if b then [''TX''] else []) @ rest) d = apply_codes rest (d\<lparr>tx_only := tx_only d \<or> b\<rparr>)"
  "apply_codes ((if b then [''IC''] else []) @ rest) d = apply_codes rest (d\<lparr>inhibit_calling := inhibit_calling d \<or> b\<rparr>)"
  "apply_codes ((if b then [''IS''] else []) @ rest) d = apply_codes rest (d\<lparr>inhibit_sounding := inhibit_sounding d \<or> b\<rparr>)"
  "apply_codes ((if b then [''IR''] else []) @ rest) d = apply_codes rest (d\<lparr>inhibit_reporting := inhibit_reporting d \<or> b\<rparr>)"
  "apply_codes ((if b then [''AO''] else []) @ rest) d = apply_codes rest (d\<lparr>ale_only := ale_only d \<or> b\<rparr>)"
  by (cases b; simp add: apply_code_def)+

lemma apply_power_code:
  assumes "unat p \<le> 100"
  shows "apply_codes (if p \<noteq> 100 then [''PWR:'' @ show_nat (unat (p :: u8))] else []) d =
    Some (d\<lparr>power_pct := (if p \<noteq> 100 then p else power_pct d)\<rparr>)"
  using assms by (simp add: apply_code_def stoi_digits_def min_absorb1)

lemma apply_channel_flags:
  assumes "unat (power_pct ch) \<le> 100" and "power_pct c = 100" "chan_enabled c" "\<not> rx_only c" "\<not> tx_only c"
    "\<not> inhibit_calling c" "\<not> inhibit_sounding c" "\<not> inhibit_reporting c" "\<not> ale_only c"
  shows "apply_codes (channel_flags ch) c = Some (c\<lparr>chan_enabled := chan_enabled ch, rx_only := rx_only ch,
    tx_only := tx_only ch, inhibit_calling := inhibit_calling ch, inhibit_sounding := inhibit_sounding ch,
    inhibit_reporting := inhibit_reporting ch, ale_only := ale_only ch, power_pct := power_pct ch\<rparr>)"
  unfolding channel_flags_def apply_optional_codes apply_power_code [OF assms(1)]
  using assms(2-) by simp

lemma concat_commas:
  "cs \<noteq> [] \<Longrightarrow> list_all (\<lambda>c. c \<noteq> []) cs \<Longrightarrow> concat (map (\<lambda>c. c @ [d]) cs) = join_with d cs @ [d]"
proof (induction cs rule: rev_induct)
  case (snoc c cs)
  then show ?case by (cases "cs = []") (auto simp: join_with_snoc join_with_eq_Nil)
qed simp

text \<open>The codes written are codes the parser knows, words without separators.\<close>

definition plain_code :: "string \<Rightarrow> bool" where
  "plain_code c \<longleftrightarrow> is_flag_code c \<and> is_word c \<and> CHR '','' \<notin> set c \<and> CHR ''#'' \<notin> set c"

lemma digits_separate: "list_all is_digit s \<Longrightarrow> CHR '','' \<notin> set s \<and> CHR ''#'' \<notin> set s \<and> CHR '':'' \<notin> set s"
  by (auto simp: list_all_iff is_digit_def)

lemma power_code_plain: "plain_code (''PWR:'' @ show_nat n)"
  using show_nat_digits [of n] show_nat_word [of n] digits_separate [OF show_nat_digits [of n]]
  by (simp add: plain_code_def is_flag_code_def is_power_code_def is_word_def is_space_def)

lemma channel_flags_plain: "list_all plain_code (channel_flags ch)"
proof -
  have "list_all plain_code [''OFF'', ''RX'', ''TX'', ''IC'', ''IS'', ''IR'', ''AO'']"
    by (simp add: plain_code_def is_flag_code_def is_word_def is_space_def)
  then show ?thesis
    using power_code_plain [of "unat (power_pct ch)"] by (simp add: channel_flags_def)
qed

lemma flag_codes_written:
  assumes "codes \<noteq> []" and "list_all plain_code codes"
  shows "flag_codes (CHR ''['' # join_with (CHR '','') codes @ '']'') = Some codes"
proof -
  have words: "list_all (\<lambda>c. c \<noteq> [] \<and> list_all (\<lambda>x. \<not> x = CHR '','') c) codes"
    using assms(2) by (auto simp: list_all_iff plain_code_def is_word_def)
  have split: "split_on (\<lambda>c. c = CHR '','') (join_with (CHR '','') codes) = codes"
    using assms(1) words by (intro split_on_join) auto
  have last: "last codes \<noteq> []" using words assms(1) by (simp add: list_all_iff)
  have trim: "map (trim_with (\<lambda>c. c = CHR '' '' \<or> c = CHR 0x09)) codes = codes"
  proof -
    have "\<not> is_space c \<Longrightarrow> \<not> (c = CHR '' '' \<or> c = CHR 0x09)" for c by (auto simp: is_space_def)
    then show ?thesis
      using assms(2) by (intro map_idI trim_with_none) (auto simp: list_all_iff plain_code_def is_word_def)
  qed
  have "filter (\<lambda>c. c \<noteq> []) codes = codes" using words by (simp add: list_all_iff)
  moreover have "list_all is_flag_code codes" using assms(2) by (simp add: list_all_iff plain_code_def)
  ultimately show ?thesis
    using assms(1) last by (simp add: flag_codes_def getlines_def Let_def split trim)
qed

definition flags_token :: "channel \<Rightarrow> string list" where
  "flags_token ch =
     (if channel_flags ch = [] then [] else [CHR ''['' # join_with (CHR '','') (channel_flags ch) @ '']''])"

lemma flags_token_written:
  "(let flags = concat (map (\<lambda>f. f @ '','') (channel_flags ch))
    in if flags \<noteq> [] then '' ['' @ butlast flags @ '']'' else []) = concat (map (Cons (CHR '' '')) (flags_token ch))"
proof (cases "channel_flags ch = []")
  case False
  moreover have "list_all (\<lambda>c. c \<noteq> []) (channel_flags ch)"
    using channel_flags_plain [of ch] by (auto simp: list_all_iff plain_code_def is_word_def)
  ultimately show ?thesis by (simp add: concat_commas flags_token_def)
qed (simp add: flags_token_def)

lemma flags_token_word: "list_all (\<lambda>t. is_word t \<and> CHR ''#'' \<notin> set t) (flags_token ch)"
proof -
  have "set (join_with (CHR '','') (channel_flags ch)) \<subseteq> {c. \<not> is_space c \<and> c \<noteq> CHR ''#''}"
    using set_join_with [of "CHR '',''" "channel_flags ch"] channel_flags_plain [of ch]
    by (auto simp: list_all_iff plain_code_def is_word_def is_space_def subset_iff)
  then show ?thesis by (auto simp: flags_token_def is_word_def list_all_iff is_space_def)
qed

lemma modes_plain:
  assumes "is_ale_mode m"
  shows "is_word m" "CHR ''#'' \<notin> set m" "takeWhile (\<lambda>c. c \<noteq> CHR 0x00) m = m" "length m \<le> 5" "flag_codes m = None"
  using assms by (auto simp: is_ale_mode_def kModes_def is_word_def is_space_def flag_codes_def)

lemma show_u32_length: "length (show_nat (unat (w :: u32))) \<le> 10"
proof -
  have "unat w < 2 ^ LENGTH(32)" by (rule unsigned_less)
  then show ?thesis by (simp add: length_show_nat)
qed

lemma mode_not_digits: "is_ale_mode m \<Longrightarrow> \<not> list_all is_digit m"
  by (auto simp: is_ale_mode_def kModes_def is_digit_def)

lemma show_no_prefix: "take 3 (show_nat n) \<noteq> ''ID:''"
proof
  assume "take 3 (show_nat n) = ''ID:''"
  then have "CHR '':'' \<in> set (show_nat n)" by (metis in_set_takeD list.set_intros)
  then show False using digits_separate [OF show_nat_digits [of n]] by simp
qed

lemma format_channel_tokens:
  assumes "channel_line_ok ch"
  shows "tokens (takeWhile (\<lambda>c. c \<noteq> CHR ''#'') (format_channel_line ch)) =
    (if chan_id ch \<noteq> [] then [''ID:'' @ chan_id ch] else []) @
    [show_nat (unat (rx_frequency_hz ch)), show_nat (unat (tx_frequency_hz ch)), rx_mode ch] @
    flags_token ch @ tokens (label ch)"
proof -
  let ?rx = "show_nat (unat (rx_frequency_hz ch))" and ?tx = "show_nat (unat (tx_frequency_hz ch))"
  have mode: "is_ale_mode (rx_mode ch)" using assms by (simp add: channel_line_ok_def)
  have plain: "CHR ''#'' \<notin> set (show_nat n)" for n using digits_separate [OF show_nat_digits [of n]] by simp
  have buf: "take 63 (?rx @ '' '' @ ?tx @ '' '' @ takeWhile (\<lambda>c. c \<noteq> CHR 0x00) (rx_mode ch)) = ?rx @ '' '' @ ?tx @ '' '' @ rx_mode ch"
    unfolding modes_plain(3) [OF mode]
    using modes_plain(4) [OF mode] show_u32_length [of "rx_frequency_hz ch"] show_u32_length [of "tx_frequency_hz ch"]
    by (intro take_all) simp
  have line: "format_channel_line ch = (if chan_id ch \<noteq> [] then ''ID:'' @ chan_id ch @ '' '' else []) @
      (?rx @ '' '' @ ?tx @ '' '' @ rx_mode ch) @ concat (map (Cons (CHR '' '')) (flags_token ch)) @
      (if label ch \<noteq> [] then '' '' @ label ch else [])"
    using flags_token_written [of ch] by (simp only: format_channel_line_def Let_def buf)
  have "CHR ''#'' \<notin> set (format_channel_line ch)"
    using assms plain modes_plain(2) [OF mode] flags_token_word [of ch]
    by (auto simp: line channel_line_ok_def list_all_iff)
  then have whole: "takeWhile (\<lambda>c. c \<noteq> CHR ''#'') (format_channel_line ch) = format_channel_line ch"
    by (auto simp: takeWhile_eq_all_conv)
  let ?r = "if label ch \<noteq> [] then '' '' @ label ch else []"
  have r: "?r = [] \<or> hd ?r = CHR '' ''" "tokens ?r = tokens (label ch)" by auto
  have words: "is_word ?rx" "list_all is_word ([?tx, rx_mode ch] @ flags_token ch)"
    using modes_plain(1) [OF mode] flags_token_word [of ch] by (simp_all add: show_nat_word list_all_iff)
  show ?thesis
  proof (cases "chan_id ch = []")
    case True
    then show ?thesis using tokens_line [OF words r(1)] unfolding whole unfolding line r(2) by (simp split del: if_split)
  next
    case False
    then have ident: "is_word (''ID:'' @ chan_id ch)"
      using assms by (auto simp: channel_line_ok_def is_word_def list_all_iff is_space_def)
    have rest: "list_all is_word (?rx # [?tx, rx_mode ch] @ flags_token ch)" using words by simp
    show ?thesis using tokens_line [OF ident rest r(1)] False unfolding whole unfolding line r(2) by (simp split del: if_split)
  qed
qed

lemma parse_written_frequencies:
  assumes "is_ale_mode m"
  shows "parse_frequencies (show_nat (unat (rx :: u32)) # show_nat (unat (tx :: u32)) # rest) = Some (rx, tx, rest)"
proof -
  have "CHR '':'' \<notin> set (show_nat (unat rx))" using digits_separate [OF show_nat_digits [of "unat rx"]] by simp
  then show ?thesis using show_nat_digits [of "unat tx"] by (simp add: parse_frequencies_def Let_def)
qed

lemma channel_line_parsed:
  assumes "channel_line_ok ch"
  shows "parse_channel_spec (format_channel_line ch) = Parsed (stored_channel ch)"
proof -
  let ?c = "Channel\<lparr>rx_frequency_hz := rx_frequency_hz ch, tx_frequency_hz := tx_frequency_hz ch,
      rx_mode := rx_mode ch, tx_mode := rx_mode ch, chan_id := chan_id ch\<rparr>"
  have mode: "is_ale_mode (rx_mode ch)" and label: "join_with (CHR '' '') (tokens (label ch)) = label ch"
    and power: "unat (power_pct ch) \<le> 100"
    using assms by (simp_all add: channel_line_ok_def)
  have tail: "parse_flags_label ?c (flags_token ch @ tokens (label ch)) = Parsed (stored_channel ch)"
  proof (cases "channel_flags ch = []")
    case True
    then have "tokens (label ch) \<noteq> [] \<Longrightarrow> flag_codes (hd (tokens (label ch))) = None"
      using assms by (auto simp: channel_line_ok_def)
    moreover have "?c\<lparr>label := label ch\<rparr> = stored_channel ch"
      using True by (auto simp: stored_channel_def channel_flags_def Channel_def split: if_splits)
    ultimately show ?thesis using True label by (cases "tokens (label ch)") (simp_all add: parse_flags_label_def flags_token_def)
  next
    case False
    then have codes: "flag_codes (CHR ''['' # join_with (CHR '','') (channel_flags ch) @ '']'') = Some (channel_flags ch)"
      using channel_flags_plain by (rule flag_codes_written)
    have "apply_codes (channel_flags ch) ?c = Some (?c\<lparr>chan_enabled := chan_enabled ch, rx_only := rx_only ch,
        tx_only := tx_only ch, inhibit_calling := inhibit_calling ch, inhibit_sounding := inhibit_sounding ch,
        inhibit_reporting := inhibit_reporting ch, ale_only := ale_only ch, power_pct := power_pct ch\<rparr>)"
      by (rule apply_channel_flags [OF power]) (simp_all add: Channel_def)
    then show ?thesis
      using False label codes by (simp add: parse_flags_label_def flags_token_def stored_channel_def Channel_def)
  qed
  have rx: "rx_frequency_hz ch \<noteq> 0" using assms by (simp add: channel_line_ok_def)
  show ?thesis
    using tail rx mode
    by (cases "chan_id ch = []")
      (simp_all add: parse_channel_tokens format_channel_tokens [OF assms] show_no_prefix
        parse_written_frequencies [OF mode] Let_def)
qed


definition sample_channel :: channel where
  "sample_channel = Channel\<lparr>chan_id := ''C-1'', rx_frequency_hz := 14250000, rx_mode := ''USB'', tx_mode := ''USB'',
     label := ''DX main'', inhibit_sounding := True, power_pct := 50\<rparr>"

text \<open>
  A channel written to a line and parsed comes back with its identifier, frequencies, mode, label and flags; what the
  line does not hold comes back with its default.
\<close>

theorem channel_line_read_back:
  assumes "channel_line_ok ch"
  shows "parse_channel_spec (format_channel_line ch) = Parsed (stored_channel ch)"
  using assms by (rule channel_line_parsed)

theorem channel_line_read_back_witness:
  "parse_channel_spec (format_channel_line sample_channel) = Parsed (stored_channel sample_channel)"
  by (rule channel_line_read_back)
    (simp add: channel_line_ok_def sample_channel_def Channel_def is_ale_mode_def kModes_def is_space_def
      channel_flags_def tokens_def join_with_def)

text \<open>
  A flag that no number of the machine holds throws out of the parser, which a file of such a line then ends.
\<close>

lemma power_out_of_range_throws:
  "parse_channel_spec ''7102 USB [PWR:4294967296]'' = Thrown"
proof -
  have toks: "tokens ''7102 USB [PWR:4294967296]'' = [''7102'', ''USB'', ''[PWR:4294967296]'']"
    by (simp add: tokens_def is_space_def)
  have freq: "parse_frequencies [''7102'', ''USB'', ''[PWR:4294967296]''] = Some (7102, 0, [''USB'', ''[PWR:4294967296]''])"
    by (simp add: parse_frequencies_def stoul32_def stoul_def is_space_def is_digit_def read_nat_def digit_value_def)
  have mode: "is_ale_mode ''USB''" by (simp add: is_ale_mode_def kModes_def)
  have flags: "flag_codes ''[PWR:4294967296]'' = Some [''PWR:4294967296'']"
    by (simp add: flag_codes_def getlines_def trim_with_def is_flag_code_def is_power_code_def is_digit_def)
  have "apply_codes [''PWR:4294967296''] ch = None" for ch
    by (simp add: apply_code_def stoi_digits_def read_nat_def digit_value_def)
  then show ?thesis
    by (simp add: parse_channel_tokens toks freq mode parse_flags_label_def flags)
qed

section \<open>Free identifiers\<close>

definition channel_candidate :: "nat \<Rightarrow> string" where
  "channel_candidate n = ''C-'' @ show_nat n"

text \<open>The loop over \<open>n\<close>; the channels use up at most as many candidates as there are channels.\<close>

fun first_free :: "nat \<Rightarrow> nat \<Rightarrow> string list \<Rightarrow> string" where
  "first_free 0 n used = channel_candidate n"
| "first_free (Suc k) n used =
     (if list_ex (\<lambda>i. i = channel_candidate n) used then first_free k (n + 1) used else channel_candidate n)"

definition next_free_channel_id :: "channel list \<Rightarrow> string" where
  "next_free_channel_id chs = first_free (length chs) 1 (map chan_id chs)"

lemma channel_candidate_inj: "channel_candidate m = channel_candidate n \<Longrightarrow> m = n"
  by (metis channel_candidate_def read_show_nat same_append_eq)

lemma first_free_spec:
  "\<exists>i\<le>k. first_free k n used = channel_candidate (n + i) \<and> channel_candidate ` {n..<n + i} \<subseteq> set used \<and>
    (i < k \<longrightarrow> channel_candidate (n + i) \<notin> set used)"
proof (induction k arbitrary: n)
  case (Suc k)
  show ?case
  proof (cases "channel_candidate n \<in> set used")
    case True
    from Suc [of "n + 1"] obtain i where i: "i \<le> k" "first_free k (n + 1) used = channel_candidate (n + 1 + i)"
      "channel_candidate ` {n + 1..<n + 1 + i} \<subseteq> set used" "i < k \<longrightarrow> channel_candidate (n + 1 + i) \<notin> set used"
      by blast
    have "{n..<n + Suc i} = insert n {n + 1..<n + 1 + i}" by auto
    with True i show ?thesis
      by (intro exI [of _ "Suc i"]) (auto simp: list_ex_iff)
  next
    case False
    then show ?thesis by (intro exI [of _ 0]) (auto simp: list_ex_iff)
  qed
qed simp

text \<open>The identifier given to a channel is one that no channel has.\<close>

lemma next_free_channel_id_fresh: "next_free_channel_id chs \<notin> chan_id ` set chs"
proof
  assume used: "next_free_channel_id chs \<in> chan_id ` set chs"
  obtain i where i: "i \<le> length chs" "next_free_channel_id chs = channel_candidate (1 + i)"
    "channel_candidate ` {1..<1 + i} \<subseteq> chan_id ` set chs" "i < length chs \<longrightarrow> channel_candidate (1 + i) \<notin> chan_id ` set chs"
    using first_free_spec [of "length chs" 1 "map chan_id chs"] by (auto simp: next_free_channel_id_def)
  have "{1..<2 + i} = insert (1 + i) {1..<1 + i}" by auto
  then have "channel_candidate ` {1..<2 + i} \<subseteq> chan_id ` set chs" using i used by auto
  moreover have "card (channel_candidate ` {1..<2 + i}) = Suc i"
    by (subst card_image) (auto simp: inj_on_def dest: channel_candidate_inj)
  ultimately have "Suc i \<le> card (chan_id ` set chs)" by (metis card_mono finite_imageI finite_set)
  also have "\<dots> \<le> length chs" by (meson card_image_le card_length finite_set le_trans)
  finally have "Suc i \<le> length chs" .
  then show False using i(2,4) used by simp
qed

end
