(* ===== verification/Station_File.thy ===== *)
theory Station_File
  imports Data_Store Channel_Line
begin

text \<open>
  The station file (\<open>write_station_body\<close>, \<open>parse_station_body\<close>, \<open>save_station_file\<close>, \<open>load_station_file\<close> of
  \<open>src/App/ale_controller.cpp\<close>): channels, nets, contacts, group rosters and the AllCall settings, one line each.
  A body is the list of its lines; an exception that ends the parser is \<open>None\<close>. Saving what the controller holds and
  loading the file gives back the same data.
\<close>

record station_data =
  sd_channels :: "channel list"
  sd_nets :: net_store
  sd_contacts :: contact_store
  sd_rosters :: roster_store
  sd_selector :: char
  sd_accept :: bool

section \<open>Writing\<close>

definition net_line :: "net \<Rightarrow> string" where
  "net_line n = ''NET:'' @ net_name n @ '' '' @ join_csv (channel_ids n) @
     '' dwell='' @ show_nat (unat (dwell_ms n)) @
     '' scan='' @ (if scanning_enabled n then ''1'' else ''0'') @
     '' sound='' @ (if sounding_enabled n then ''1'' else ''0'') @
     '' sndint='' @ show_nat (unat (sounding_interval_sec n)) @
     '' c='' @ show_nat (unat (net_calling_length n))"

definition contact_fields :: "contact \<Rightarrow> string" where
  "contact_fields c = callsign c @ ''|'' @ contact_name c @ ''|'' @ (if ct_enabled c then ''enabled'' else ''disabled'') @
     ''|'' @ join_csv (ct_net_members c) @ ''|'' @ (if ct_all_channels c then ''ALL'' else join_csv (ct_valid_channels c))"

definition contact_line :: "contact \<Rightarrow> string" where
  "contact_line c = ''CONTACT:'' @ contact_fields c"

definition roster_line :: "roster \<Rightarrow> string" where
  "roster_line r = ''GROUP:'' @ roster_name r @ '':'' @ join_csv (roster_members r)"

text \<open>With a preset, a channel that is as the preset has it is left out.\<close>

definition unchanged :: "channel list \<Rightarrow> channel \<Rightarrow> bool" where
  "unchanged preset ch =
     (case find (\<lambda>p. chan_id p = chan_id ch) preset of None \<Rightarrow> False
      | Some p \<Rightarrow> format_channel_line p = format_channel_line ch)"

definition written_channels :: "channel list option \<Rightarrow> channel list \<Rightarrow> channel list" where
  "written_channels overlay chs =
     (case overlay of None \<Rightarrow> chs | Some preset \<Rightarrow> filter (\<lambda>ch. \<not> unchanged preset ch) chs)"

definition write_station_body :: "channel list option \<Rightarrow> station_data \<Rightarrow> string list" where
  "write_station_body overlay d =
     [''# openALE station file '' @ [CHR 0xE2, CHR 0x80, CHR 0x94] @ '' MIL-STD-188-141B'',
      ''# ID:id rx_hz tx_hz mode [flags] [label]   flags=[OFF,RX,IC,IS,IR]''] @
     map format_channel_line (written_channels overlay (sd_channels d)) @
     (if sd_nets d \<noteq> [] then ''# NET:name id,id,...  [dwell=ms] [scan=0|1] [sound=0|1] [sndint=sec] [c=N]'' # map net_line (sd_nets d) else []) @
     (if stations (book (sd_contacts d)) \<noteq> []
      then ''# CONTACT:callsign|name|status|net_members|valid_channels'' # map contact_line (all_contacts (sd_contacts d)) else []) @
     (if sd_rosters d \<noteq> [] then ''# GROUP:name:member1,member2,...'' # map roster_line (sd_rosters d) else []) @
     [''# ALLCALL:key=val'', ''ALLCALL:selector='' @ [sd_selector d], ''ALLCALL:accept='' @ (if sd_accept d then ''1'' else ''0'')]"

section \<open>Reading\<close>

definition before :: "char \<Rightarrow> string \<Rightarrow> string" where
  "before d s = takeWhile (\<lambda>c. c \<noteq> d) s"

definition after :: "char \<Rightarrow> string \<Rightarrow> string" where
  "after d s = tl (dropWhile (\<lambda>c. c \<noteq> d) s)"

definition number_or :: "u32 \<Rightarrow> string \<Rightarrow> u32" where
  "number_or old s = (case stoul32 s of None \<Rightarrow> old | Some v \<Rightarrow> v)"

definition net_token :: "string \<Rightarrow> net_store \<times> net \<Rightarrow> string \<Rightarrow> net_store \<times> net" where
  "net_token name sp tok =
     (let (s, p) = sp
      in if CHR ''='' \<in> set tok
         then (let key = before (CHR ''='') tok; val = after (CHR ''='') tok
               in (s, if key = ''dwell'' then p\<lparr>dwell_ms := number_or (dwell_ms p) val\<rparr>
                      else if key = ''scan'' then p\<lparr>scanning_enabled := (val \<noteq> ''0'')\<rparr>
                      else if key = ''sound'' then p\<lparr>sounding_enabled := (val \<noteq> ''0'')\<rparr>
                      else if key = ''sndint'' then p\<lparr>sounding_interval_sec := number_or (sounding_interval_sec p) val\<rparr>
                      else if key = ''c'' then p\<lparr>net_calling_length := number_or (net_calling_length p) val\<rparr>
                      else p))
         else (foldl (\<lambda>s ident. snd (assign_channel name ident s)) s (split_csv tok), p))"

definition parse_net :: "string \<Rightarrow> net_store \<Rightarrow> net_store" where
  "parse_net rest s =
     (case tokens rest of [] \<Rightarrow> s
      | name # toks \<Rightarrow>
          (let (s', p) = foldl (net_token name) (snd (store_net name s), Net name) toks
           in snd (update_net p s')))"

definition make_contact :: "string \<Rightarrow> string \<Rightarrow> string \<Rightarrow> string \<Rightarrow> string \<Rightarrow> contact" where
  "make_contact cs name status members chans =
     (let all = (chans = [] \<or> chans = ''ALL'')
      in \<lparr>ct_enabled = (status \<noteq> ''disabled''), ct_net_members = split_csv members,
          ct_valid_channels = (if all then [] else split_csv chans), ct_all_channels = all,
          callsign = cs, contact_name = name\<rparr>)"

definition field_or :: "string list \<Rightarrow> nat \<Rightarrow> string \<Rightarrow> string" where
  "field_or fs i d = (if length fs > i then fs ! i else d)"

definition parse_contact :: "string \<Rightarrow> contact_store \<Rightarrow> contact_store" where
  "parse_contact rest s =
     (let fs = split_pipe rest
      in if fs = [] \<or> hd fs = [] then s
         else snd (add_or_update
           (make_contact (hd fs) (field_or fs 1 []) (field_or fs 2 ''enabled'') (field_or fs 3 []) (field_or fs 4 ''ALL'')) s))"

definition parse_roster :: "string \<Rightarrow> roster_store \<Rightarrow> roster_store" where
  "parse_roster rest s =
     (if CHR '':'' \<notin> set rest then s
      else let name = before (CHR '':'') rest
      in if name = [] then s
         else foldl (\<lambda>s m. snd (add_member name m s)) (snd (add_roster name s)) (split_csv (after (CHR '':'') rest)))"

definition parse_all_call :: "string \<Rightarrow> station_data \<Rightarrow> station_data" where
  "parse_all_call kv d =
     (if CHR ''='' \<notin> set kv then d
      else let key = before (CHR ''='') kv; val = after (CHR ''='') kv
      in if key = ''accept'' then d\<lparr>sd_accept := (val \<noteq> ''0'')\<rparr>
         else if key = ''selector'' \<and> val \<noteq> [] then d\<lparr>sd_selector := hd val\<rparr>
         else d)"

definition parse_line :: "string \<Rightarrow> station_data \<times> channel list \<Rightarrow> (station_data \<times> channel list) option" where
  "parse_line line dl =
     (let (d, loaded) = dl
      in if line = [] \<or> hd line = CHR ''#'' then Some dl
         else if take 4 line = ''NET:'' then Some (d\<lparr>sd_nets := parse_net (drop 4 line) (sd_nets d)\<rparr>, loaded)
         else if take 8 line = ''CONTACT:'' then Some (d\<lparr>sd_contacts := parse_contact (drop 8 line) (sd_contacts d)\<rparr>, loaded)
         else if take 6 line = ''GROUP:'' then Some (d\<lparr>sd_rosters := parse_roster (drop 6 line) (sd_rosters d)\<rparr>, loaded)
         else if take 8 line = ''ALLCALL:'' then Some (parse_all_call (drop 8 line) d, loaded)
         else (case parse_channel_spec line of Thrown \<Rightarrow> None | Nothing \<Rightarrow> Some (d, loaded)
               | Parsed ch \<Rightarrow> Some (d, loaded @ [ch])))"

fun parse_lines :: "string list \<Rightarrow> station_data \<times> channel list \<Rightarrow> (station_data \<times> channel list) option" where
  "parse_lines [] dl = Some dl"
| "parse_lines (l # ls) dl = (case parse_line l dl of None \<Rightarrow> None | Some dl' \<Rightarrow> parse_lines ls dl')"

text \<open>Channels without an identifier get one: all loaded channels, or those merged over the preset.\<close>

definition with_free_id :: "channel list \<Rightarrow> channel \<Rightarrow> channel" where
  "with_free_id chs ch = (if chan_id ch = [] then ch\<lparr>chan_id := next_free_channel_id chs\<rparr> else ch)"

definition assign_ids :: "channel list \<Rightarrow> channel list" where
  "assign_ids chs = foldl (\<lambda>l i. l[i := with_free_id l (l ! i)]) chs [0..<length chs]"

definition merge_channel :: "channel list \<Rightarrow> channel \<Rightarrow> channel list" where
  "merge_channel chs ch =
     (let ch = with_free_id chs ch
      in if list_ex (\<lambda>c. chan_id c = chan_id ch) chs then update_matching (\<lambda>c. chan_id c = chan_id ch) (\<lambda>_. ch) chs
         else chs @ [ch])"

definition parse_station_body :: "bool \<Rightarrow> string list \<Rightarrow> station_data \<Rightarrow> station_data option" where
  "parse_station_body replace ls d =
     (case parse_lines ls (d, []) of None \<Rightarrow> None
      | Some (d', loaded) \<Rightarrow>
          Some (d'\<lparr>sd_channels := (if replace then assign_ids loaded else foldl merge_channel (sd_channels d') loaded)\<rparr>))"

definition clear_station_stores :: "station_data \<Rightarrow> station_data" where
  "clear_station_stores d = d\<lparr>sd_nets := [], sd_contacts := clear_contacts (sd_contacts d), sd_rosters := []\<rparr>"

text \<open>The content of the file, \<open>None\<close> when it cannot be opened; the outer \<open>None\<close> is the exception.\<close>

definition load_station_file :: "string option \<Rightarrow> station_data \<Rightarrow> (bool \<times> station_data) option" where
  "load_station_file content d =
     (case content of None \<Rightarrow> Some (False, d)
      | Some text \<Rightarrow> map_option (Pair True) (parse_station_body True (getlines (CHR 0x0A) text) (clear_station_stores d)))"

definition save_station_file :: "station_data \<Rightarrow> string" where
  "save_station_file d = unlines (write_station_body None d)"

section \<open>What a line can hold\<close>

definition plain_item :: "string \<Rightarrow> bool" where
  "plain_item t \<longleftrightarrow> is_word t \<and> CHR '','' \<notin> set t"

definition plain_text :: "char \<Rightarrow> string \<Rightarrow> bool" where
  "plain_text d t \<longleftrightarrow> d \<notin> set t \<and> CHR 0x0A \<notin> set t"

definition net_line_ok :: "net \<Rightarrow> bool" where
  "net_line_ok n \<longleftrightarrow> is_word (net_name n) \<and> list_all (\<lambda>t. plain_item t \<and> CHR ''='' \<notin> set t) (channel_ids n)"

definition contact_line_ok :: "contact \<Rightarrow> bool" where
  "contact_line_ok c \<longleftrightarrow> callsign c \<noteq> [] \<and> plain_text (CHR ''|'') (callsign c) \<and> plain_text (CHR ''|'') (contact_name c) \<and>
     list_all (\<lambda>t. plain_item t \<and> CHR ''|'' \<notin> set t) (ct_net_members c @ ct_valid_channels c) \<and>
     (if ct_all_channels c then ct_valid_channels c = [] else ct_valid_channels c \<notin> {[], [''ALL'']})"

definition roster_line_ok :: "roster \<Rightarrow> bool" where
  "roster_line_ok r \<longleftrightarrow> roster_name r \<noteq> [] \<and> plain_text (CHR '':'') (roster_name r) \<and> list_all plain_item (roster_members r)"

definition station_line_ok :: "station_data \<Rightarrow> bool" where
  "station_line_ok d \<longleftrightarrow>
     list_all (\<lambda>ch. channel_line_ok ch \<and> chan_id ch \<noteq> [] \<and> CHR 0x0A \<notin> set (label ch)) (sd_channels d) \<and>
     nets_ok (sd_nets d) \<and> list_all net_line_ok (sd_nets d) \<and>
     distinct (map fst (stations (book (sd_contacts d)))) \<and> list_all contact_line_ok (all_contacts (sd_contacts d)) \<and>
     rosters_ok (sd_rosters d) \<and> list_all roster_line_ok (sd_rosters d) \<and>
     sd_selector d \<noteq> CHR 0x0A"

lemma plain_items_csv: "list_all plain_item ts \<Longrightarrow> split_csv (join_csv ts) = ts"
  by (rule split_csv_join) (simp add: plain_item_def list_all_iff)

lemma plain_items_set: "list_all plain_item ts \<Longrightarrow> set (join_csv ts) \<subseteq> insert (CHR '','') (\<Union> (set ` set ts))"
  unfolding join_csv_def by (rule set_join_with)

lemma plain_items_word:
  assumes "list_all plain_item ts" and "ts \<noteq> []"
  shows "is_word (join_csv ts)"
proof -
  have "join_csv ts \<noteq> []"
    using assms by (simp add: join_csv_def join_with_eq_Nil list_all_iff plain_item_def is_word_def)
  then show ?thesis
    using plain_items_set [OF assms(1)] assms(1)
    by (auto simp: is_word_def plain_item_def list_all_iff is_space_def)
qed

lemma before_sep: "d \<notin> set k \<Longrightarrow> before d (k @ d # v) = k"
  unfolding before_def by (induction k) auto

lemma after_sep: "d \<notin> set k \<Longrightarrow> after d (k @ d # v) = v"
  unfolding after_def by (induction k) auto

section \<open>Nets\<close>

lemma update_matching_last: "\<not> list_ex P s \<Longrightarrow> P n \<Longrightarrow> update_matching P f (s @ [n]) = s @ [f n]"
  by (induction s) auto

lemma on_net_last:
  assumes "net_name n \<notin> net_name ` set s"
  shows "on_net (net_name n) f (s @ [n]) = (True, s @ [f n])"
  using assms by (simp add: on_net_def find_net_None update_matching_last list_ex_key)

lemma assign_all:
  assumes "net_name n \<notin> net_name ` set s" and "distinct (channel_ids n @ ids)"
  shows "foldl (\<lambda>s ident. snd (assign_channel (net_name n) ident s)) (s @ [n]) ids =
    s @ [n\<lparr>channel_ids := channel_ids n @ ids\<rparr>]"
  using assms
proof (induction ids arbitrary: n)
  case (Cons i ids)
  then show ?case
    using Cons.IH [of "n\<lparr>channel_ids := channel_ids n @ [i]\<rparr>"] by (simp add: assign_channel_def on_net_last)
qed simp

lemma net_policy_tokens:
  fixes v :: u32
  shows "net_token name (s, p) (''dwell='' @ show_nat (unat v)) = (s, p\<lparr>dwell_ms := v\<rparr>)"
    and "net_token name (s, p) (''sndint='' @ show_nat (unat v)) = (s, p\<lparr>sounding_interval_sec := v\<rparr>)"
    and "net_token name (s, p) (''c='' @ show_nat (unat v)) = (s, p\<lparr>net_calling_length := v\<rparr>)"
    and "net_token name (s, p) (''scan='' @ (if b then ''1'' else ''0'')) = (s, p\<lparr>scanning_enabled := b\<rparr>)"
    and "net_token name (s, p) (''sound='' @ (if b then ''1'' else ''0'')) = (s, p\<lparr>sounding_enabled := b\<rparr>)"
  by (simp_all add: net_token_def before_def after_def number_or_def)

definition policy_tokens :: "net \<Rightarrow> string list" where
  "policy_tokens n = [''dwell='' @ show_nat (unat (dwell_ms n)), ''scan='' @ (if scanning_enabled n then ''1'' else ''0''),
     ''sound='' @ (if sounding_enabled n then ''1'' else ''0''), ''sndint='' @ show_nat (unat (sounding_interval_sec n)),
     ''c='' @ show_nat (unat (net_calling_length n))]"

lemma policy_tokens_words: "list_all is_word (policy_tokens n)"
  using show_nat_word by (simp add: policy_tokens_def is_word_def is_space_def)

lemma net_line_tokens:
  assumes "net_line_ok n"
  shows "tokens (drop 4 (net_line n)) =
    net_name n # (if channel_ids n = [] then [] else [join_csv (channel_ids n)]) @ policy_tokens n"
proof -
  have line: "drop 4 (net_line n) = net_name n @ CHR '' '' # join_csv (channel_ids n) @ concat (map (Cons (CHR '' '')) (policy_tokens n)) @ []"
    by (simp add: net_line_def policy_tokens_def)
  have name: "tokens (net_name n) = [net_name n]"
    using assms by (simp add: net_line_ok_def tokens_word)
  show ?thesis
  proof (cases "channel_ids n = []")
    case True
    have first: "is_word (hd (policy_tokens n))" "list_all is_word (tl (policy_tokens n))"
      using policy_tokens_words [of n] by (simp_all add: policy_tokens_def)
    have "tokens (concat (map (Cons (CHR '' '')) (policy_tokens n)) @ []) = policy_tokens n"
      using tokens_line [OF first, of "[]"] by (simp add: policy_tokens_def)
    with True name show ?thesis by (simp add: line tokens_append join_csv_def)
  next
    case False
    then have "is_word (join_csv (channel_ids n))"
      using assms by (intro plain_items_word) (auto simp: net_line_ok_def list_all_iff)
    from tokens_line [OF this policy_tokens_words, of "[]" n] False name show ?thesis
      unfolding line by (simp add: tokens_append)
  qed
qed

lemma parse_net_written:
  assumes ok: "net_line_ok n" and fresh: "net_name n \<notin> net_name ` set s" and dist: "distinct (channel_ids n)"
  shows "parse_net (drop 4 (net_line n)) s = s @ [n]"
proof -
  let ?n = "(Net (net_name n))\<lparr>channel_ids := channel_ids n\<rparr>"
  have plain: "list_all plain_item (channel_ids n)" using ok by (auto simp: net_line_ok_def list_all_iff)
  have stored: "snd (store_net (net_name n) s) = s @ [Net (net_name n)]"
    using fresh by (simp add: store_net_def find_net_None)
  have name: "net_name (Net m) = m" "channel_ids (Net m) = []" for m by (simp_all add: Net_def)
  have "CHR ''='' \<notin> set (join_csv (channel_ids n))"
    using ok plain_items_set [OF plain] by (auto simp: net_line_ok_def list_all_iff)
  then have "net_token (net_name n) (s @ [Net (net_name n)], p) (join_csv (channel_ids n)) = (s @ [?n], p)" for p
    using assign_all [of "Net (net_name n)" s "channel_ids n"] fresh dist
    by (simp add: net_token_def plain_items_csv [OF plain] name)
  moreover have "channel_ids n = [] \<Longrightarrow> ?n = Net (net_name n)" by (simp add: Net_def)
  ultimately have ids: "foldl (net_token (net_name n)) (s @ [Net (net_name n)], p)
      ((if channel_ids n = [] then [] else [join_csv (channel_ids n)]) @ ts) = foldl (net_token (net_name n)) (s @ [?n], p) ts" for p ts
    by simp
  have policy: "foldl (net_token (net_name n)) (s', p) (policy_tokens n) =
      (s', p\<lparr>dwell_ms := dwell_ms n, scanning_enabled := scanning_enabled n, sounding_enabled := sounding_enabled n,
        sounding_interval_sec := sounding_interval_sec n, net_calling_length := net_calling_length n\<rparr>)" for s' p
    unfolding policy_tokens_def foldl.simps net_policy_tokens by simp
  have fold: "foldl (net_token (net_name n)) (s @ [Net (net_name n)], Net (net_name n))
      ((if channel_ids n = [] then [] else [join_csv (channel_ids n)]) @ policy_tokens n) =
      (s @ [?n], (Net (net_name n))\<lparr>dwell_ms := dwell_ms n, scanning_enabled := scanning_enabled n, sounding_enabled := sounding_enabled n,
        sounding_interval_sec := sounding_interval_sec n, net_calling_length := net_calling_length n\<rparr>)"
    unfolding ids policy by simp
  have "net_name ?n = net_name n" by (simp add: Net_def)
  then have "on_net (net_name n) f (s @ [?n]) = (True, s @ [f ?n])" for f
    using fresh on_net_last [of ?n s f] by simp
  then show ?thesis
    unfolding parse_net_def net_line_tokens [OF ok] list.case stored fold
    by (simp add: update_net_def name)
qed

lemma parse_nets_written:
  assumes "list_all net_line_ok ns" and "distinct (map net_name (s @ ns))" and "list_all (\<lambda>n. distinct (channel_ids n)) ns"
  shows "foldl (\<lambda>s l. parse_net (drop 4 l) s) s (map net_line ns) = s @ ns"
  using assms
proof (induction ns arbitrary: s)
  case (Cons n ns)
  then have "parse_net (drop 4 (net_line n)) s = s @ [n]" by (intro parse_net_written) auto
  then show ?case using Cons.IH [of "s @ [n]"] Cons.prems by simp
qed simp

section \<open>Contacts and rosters\<close>

lemma split_pipe_fields:
  "list_all (\<lambda>f. CHR ''|'' \<notin> set f) [a, b, c, d, e] \<Longrightarrow>
    split_pipe (a @ ''|'' @ b @ ''|'' @ c @ ''|'' @ d @ ''|'' @ e) = [a, b, c, d, e]"
proof -
  assume "list_all (\<lambda>f. CHR ''|'' \<notin> set f) [a, b, c, d, e]"
  then have "f \<in> {a, b, c, d, e} \<Longrightarrow> split_on (\<lambda>x. x = CHR ''|'') f = [f]" for f
    by (intro split_on_single) (auto simp: list_all_iff)
  then show ?thesis by (simp add: split_pipe_def split_on_append)
qed

lemma parse_contact_written:
  assumes "contact_line_ok c"
  shows "parse_contact (contact_fields c) s = snd (add_or_update c s)"
proof -
  have mem: "list_all plain_item (ct_net_members c)" and val: "list_all plain_item (ct_valid_channels c)"
    using assms by (auto simp: contact_line_ok_def list_all_iff)
  have pipes: "CHR ''|'' \<notin> set (join_csv (ct_net_members c))" "CHR ''|'' \<notin> set (join_csv (ct_valid_channels c))"
    using assms plain_items_set [OF mem] plain_items_set [OF val] by (auto simp: contact_line_ok_def list_all_iff)
  have fields: "split_pipe (contact_fields c) =
      [callsign c, contact_name c, (if ct_enabled c then ''enabled'' else ''disabled''), join_csv (ct_net_members c),
       (if ct_all_channels c then ''ALL'' else join_csv (ct_valid_channels c))]"
    unfolding contact_fields_def using assms pipes
    by (intro split_pipe_fields) (simp add: contact_line_ok_def plain_text_def)
  have "join_csv (ct_valid_channels c) \<noteq> ''ALL''" "join_csv (ct_valid_channels c) \<noteq> []" if "\<not> ct_all_channels c"
  proof -
    have split: "split_csv (join_csv (ct_valid_channels c)) = ct_valid_channels c" using val by (rule plain_items_csv)
    have "split_csv ''ALL'' = [''ALL'']" "split_csv [] = []"
      by (simp_all add: split_csv_def trim_with_def is_space_def)
    with split assms that show "join_csv (ct_valid_channels c) \<noteq> ''ALL''" "join_csv (ct_valid_channels c) \<noteq> []"
      by (auto simp: contact_line_ok_def)
  qed
  then have "make_contact (callsign c) (contact_name c) (if ct_enabled c then ''enabled'' else ''disabled'')
      (join_csv (ct_net_members c)) (if ct_all_channels c then ''ALL'' else join_csv (ct_valid_channels c)) = c"
    using assms by (auto simp: make_contact_def Let_def plain_items_csv [OF mem] plain_items_csv [OF val] contact_line_ok_def
        intro: contact.equality)
  then show ?thesis
    using assms by (simp add: parse_contact_def fields field_or_def contact_line_ok_def split del: if_split)
qed

lemma update_entry_new: "k \<notin> fst ` set ps \<Longrightarrow> update_entry k v ps = ps @ [(k, v)]"
  by (induction ps) auto

lemma all_contacts_add:
  assumes "callsign c \<noteq> []" and "callsign c \<notin> fst ` set (stations (book s))"
  shows "all_contacts (snd (add_or_update c s)) = all_contacts s @ [c]"
    and "map fst (stations (book (snd (add_or_update c s)))) = map fst (stations (book s)) @ [callsign c]"
proof -
  have st: "stations (update_station (callsign c) (contact_name c) (book s)) = stations (book s) @ [(callsign c, contact_name c)]"
    using assms(2) by (simp add: update_station_def update_entry_new)
  have "build_contact (snd (add_or_update c s)) (fst p) n = build_contact s (fst p) n" if "p \<in> set (stations (book s))" for p n
  proof -
    have "fst p \<noteq> callsign c" using that assms(2) by (metis imageI)
    then show ?thesis using assms(1) by (simp add: build_contact_map add_or_update_def map_of_put_meta)
  qed
  moreover have "build_contact (snd (add_or_update c s)) (callsign c) (contact_name c) = c"
    using assms(1) by (simp add: build_contact_map add_or_update_def map_of_put_meta)
  moreover have "stations (book (snd (add_or_update c s))) = stations (book s) @ [(callsign c, contact_name c)]"
    using assms(1) st by (simp add: add_or_update_def)
  ultimately show "all_contacts (snd (add_or_update c s)) = all_contacts s @ [c]"
    by (simp add: all_contacts_def cong: map_cong)
  show "map fst (stations (book (snd (add_or_update c s)))) = map fst (stations (book s)) @ [callsign c]"
    using assms st by (simp add: add_or_update_def)
qed

lemma add_contacts_written:
  assumes "list_all contact_line_ok cs" and "distinct (map fst (stations (book s)) @ map callsign cs)"
  shows "all_contacts (foldl (\<lambda>s c. snd (add_or_update c s)) s cs) = all_contacts s @ cs"
  using assms
proof (induction cs arbitrary: s)
  case (Cons c cs)
  then have "callsign c \<noteq> []" "callsign c \<notin> fst ` set (stations (book s))"
    by (auto simp: contact_line_ok_def)
  note add = all_contacts_add [OF this]
  then show ?case using Cons.IH [of "snd (add_or_update c s)"] Cons.prems by (simp add: add(1) add(2))
qed simp

lemma add_all_members:
  assumes "roster_name r \<notin> roster_name ` set s" and "distinct (roster_members r @ ms)"
  shows "foldl (\<lambda>s m. snd (add_member (roster_name r) m s)) (s @ [r]) ms =
    s @ [r\<lparr>roster_members := roster_members r @ ms\<rparr>]"
  using assms
proof (induction ms arbitrary: r)
  case (Cons m ms)
  have "on_roster (roster_name r) f (s @ [r]) = (True, s @ [f r])" for f
    using Cons.prems by (simp add: on_roster_def find_roster_def update_matching_last list_ex_key)
  then show ?case
    using Cons.IH [of "r\<lparr>roster_members := roster_members r @ [m]\<rparr>"] Cons.prems by (simp add: add_member_def)
qed simp

lemma parse_roster_written:
  assumes ok: "roster_line_ok r" and "roster_name r \<notin> roster_name ` set s" and "distinct (roster_members r)"
  shows "parse_roster (drop 6 (roster_line r)) s = s @ [r]"
proof -
  have name: "roster_name r \<noteq> []" "CHR '':'' \<notin> set (roster_name r)"
    using ok by (simp_all add: roster_line_ok_def plain_text_def)
  have "list_all plain_item (roster_members r)" using ok by (simp add: roster_line_ok_def)
  moreover have "snd (add_roster (roster_name r) s) = s @ [r\<lparr>roster_members := []\<rparr>]"
    using assms(2) by (simp add: add_roster_def find_roster_def)
  ultimately show ?thesis
    using name assms(2,3) add_all_members [of "r\<lparr>roster_members := []\<rparr>" s "roster_members r"]
    by (simp add: parse_roster_def roster_line_def before_sep after_sep plain_items_csv Let_def)
qed

lemma parse_rosters_written:
  assumes "list_all roster_line_ok rs" and "distinct (map roster_name (s @ rs))"
    and "list_all (\<lambda>r. distinct (roster_members r)) rs"
  shows "foldl (\<lambda>s l. parse_roster (drop 6 l) s) s (map roster_line rs) = s @ rs"
  using assms
proof (induction rs arbitrary: s)
  case (Cons r rs)
  then have "parse_roster (drop 6 (roster_line r)) s = s @ [r]" by (intro parse_roster_written) auto
  then show ?case using Cons.IH [of "s @ [r]"] Cons.prems by simp
qed simp

section \<open>The whole file\<close>

lemma parse_lines_append:
  "parse_lines (ls @ ms) dl = (case parse_lines ls dl of None \<Rightarrow> None | Some dl' \<Rightarrow> parse_lines ms dl')"
  by (induction ls arbitrary: dl) (auto split: option.split)

lemma parse_comment: "parse_lines ((CHR ''#'' # c) # ls) dl = parse_lines ls dl"
  by (simp add: parse_line_def split_beta)

text \<open>A line that starts with an identifier is a channel.\<close>

lemma format_prefix:
  assumes "chan_id ch \<noteq> []"
  shows "\<exists>r. format_channel_line ch = ''ID:'' @ r"
  using assms by (simp add: format_channel_line_def Let_def)

lemma parse_channel_line:
  assumes "channel_line_ok ch" and "chan_id ch \<noteq> []"
  shows "parse_line (format_channel_line ch) (d, loaded) = Some (d, loaded @ [stored_channel ch])"
proof -
  obtain r where r: "format_channel_line ch = ''ID:'' @ r" using format_prefix [OF assms(2)] by blast
  have "parse_channel_spec (''ID:'' @ r) = Parsed (stored_channel ch)"
    using channel_line_parsed [OF assms(1)] by (simp add: r)
  then show ?thesis by (simp add: parse_line_def r)
qed

lemma parse_channel_lines:
  assumes "list_all (\<lambda>ch. channel_line_ok ch \<and> chan_id ch \<noteq> []) chs"
  shows "parse_lines (map format_channel_line chs @ ls) (d, loaded) = parse_lines ls (d, loaded @ map stored_channel chs)"
  using assms by (induction chs arbitrary: loaded) (simp_all add: parse_channel_line)

lemma parse_net_lines:
  "parse_lines (map net_line ns @ ls) (d, loaded) =
     parse_lines ls (d\<lparr>sd_nets := foldl (\<lambda>s l. parse_net (drop 4 l) s) (sd_nets d) (map net_line ns)\<rparr>, loaded)"
proof (induction ns arbitrary: d)
  case (Cons n ns)
  have "parse_line (net_line n) (d, loaded) = Some (d\<lparr>sd_nets := parse_net (drop 4 (net_line n)) (sd_nets d)\<rparr>, loaded)"
    by (simp add: parse_line_def net_line_def)
  then show ?case using Cons by simp
qed simp

lemma parse_contact_lines:
  assumes "list_all contact_line_ok cs"
  shows "parse_lines (map contact_line cs @ ls) (d, loaded) =
     parse_lines ls (d\<lparr>sd_contacts := foldl (\<lambda>s c. snd (add_or_update c s)) (sd_contacts d) cs\<rparr>, loaded)"
  using assms
proof (induction cs arbitrary: d)
  case (Cons c cs)
  have "parse_line (contact_line c) (d, loaded) = Some (d\<lparr>sd_contacts := snd (add_or_update c (sd_contacts d))\<rparr>, loaded)"
    using Cons.prems by (simp add: parse_line_def contact_line_def parse_contact_written)
  then show ?case using Cons by simp
qed simp

lemma parse_roster_lines:
  "parse_lines (map roster_line rs @ ls) (d, loaded) =
     parse_lines ls (d\<lparr>sd_rosters := foldl (\<lambda>s l. parse_roster (drop 6 l) s) (sd_rosters d) (map roster_line rs)\<rparr>, loaded)"
proof (induction rs arbitrary: d)
  case (Cons r rs)
  have "parse_line (roster_line r) (d, loaded) = Some (d\<lparr>sd_rosters := parse_roster (drop 6 (roster_line r)) (sd_rosters d)\<rparr>, loaded)"
    by (simp add: parse_line_def roster_line_def)
  then show ?case using Cons by simp
qed simp

lemma parse_all_call_lines:
  "parse_lines [''# ALLCALL:key=val'', ''ALLCALL:selector='' @ [sel], ''ALLCALL:accept='' @ (if acc then ''1'' else ''0'')] (d, loaded) =
     Some (d\<lparr>sd_selector := sel, sd_accept := acc\<rparr>, loaded)"
  by (simp add: parse_line_def parse_all_call_def before_def after_def)

text \<open>Optional sections: without entries the section has no header either.\<close>

lemma parse_section:
  "parse_lines ((if xs \<noteq> [] then (CHR ''#'' # h) # map f xs else []) @ ls) dl = parse_lines (map f xs @ ls) dl"
  using parse_comment [of h "map f xs @ ls" dl] by simp

lemma contacts_section:
  "(if stations (book s) \<noteq> [] then h # map contact_line (all_contacts s) else []) =
   (if all_contacts s \<noteq> [] then h # map contact_line (all_contacts s) else [])"
  by (simp add: all_contacts_def)

lemma foldl_assign_none:
  assumes "list_all (\<lambda>ch. chan_id ch \<noteq> []) chs" and "set js \<subseteq> {..<length chs}"
  shows "foldl (\<lambda>l i. l[i := with_free_id l (l ! i)]) chs js = chs"
  using assms by (induction js) (auto simp: with_free_id_def list_all_length)

lemma assign_ids_named: "list_all (\<lambda>ch. chan_id ch \<noteq> []) chs \<Longrightarrow> assign_ids chs = chs"
  unfolding assign_ids_def by (rule foldl_assign_none) auto

lemma parse_written_lines:
  assumes ok: "station_line_ok d" and base: "sd_nets d0 = []" "sd_rosters d0 = []"
  shows "parse_lines (write_station_body None d) (d0, []) = Some (d0\<lparr>
      sd_nets := sd_nets d,
      sd_contacts := foldl (\<lambda>s c. snd (add_or_update c s)) (sd_contacts d0) (all_contacts (sd_contacts d)),
      sd_rosters := sd_rosters d, sd_selector := sd_selector d, sd_accept := sd_accept d\<rparr>, map stored_channel (sd_channels d))"
proof -
  have chs: "list_all (\<lambda>ch. channel_line_ok ch \<and> chan_id ch \<noteq> []) (sd_channels d)"
    and cts: "list_all contact_line_ok (all_contacts (sd_contacts d))"
    using ok by (auto simp: station_line_ok_def list_all_iff)
  have nets: "foldl (\<lambda>s l. parse_net (drop 4 l) s) [] (map net_line (sd_nets d)) = sd_nets d"
    using ok parse_nets_written [of "sd_nets d" "[]"] by (simp add: station_line_ok_def nets_ok_def)
  have rosters: "foldl (\<lambda>s l. parse_roster (drop 6 l) s) [] (map roster_line (sd_rosters d)) = sd_rosters d"
    using ok parse_rosters_written [of "sd_rosters d" "[]"] by (simp add: station_line_ok_def rosters_ok_def)
  show ?thesis
    unfolding write_station_body_def written_channels_def option.case contacts_section append_Cons append_Nil
      parse_comment parse_section parse_channel_lines [OF chs] parse_net_lines parse_contact_lines [OF cts] parse_roster_lines
      parse_all_call_lines [unfolded append_Cons append_Nil parse_comment]
    using base nets rosters by simp
qed

lemma stored_ids:
  assumes "station_line_ok d"
  shows "assign_ids (map stored_channel (sd_channels d)) = map stored_channel (sd_channels d)"
  using assms by (intro assign_ids_named) (auto simp: station_line_ok_def list_all_iff stored_channel_def)

text \<open>After the lines of a station the file may hold lines that say nothing about it.\<close>

lemma parse_written_body:
  assumes "station_line_ok d" and "sd_nets d0 = []" "sd_rosters d0 = []"
    and "\<And>dl. parse_lines ls dl = Some dl"
  shows "parse_station_body True (write_station_body None d @ ls) d0 = Some (d0\<lparr>
      sd_channels := map stored_channel (sd_channels d), sd_nets := sd_nets d,
      sd_contacts := foldl (\<lambda>s c. snd (add_or_update c s)) (sd_contacts d0) (all_contacts (sd_contacts d)),
      sd_rosters := sd_rosters d, sd_selector := sd_selector d, sd_accept := sd_accept d\<rparr>)"
  using parse_written_lines [OF assms(1-3)] stored_ids [OF assms(1)]
  by (simp add: parse_station_body_def parse_lines_append assms(4))

text \<open>A line that starts like no number and no entry of a station is ignored.\<close>

definition lower :: "char \<Rightarrow> bool" where
  "lower c \<longleftrightarrow> CHR ''a'' \<le> c \<and> c \<le> CHR ''z''"

lemma lower_code: "lower c \<Longrightarrow> 97 \<le> (of_char c :: nat) \<and> (of_char c :: nat) \<le> 122"
  by (simp add: lower_def less_eq_char_def)

lemma lower_no_number: "lower c \<Longrightarrow> stoul32 (c # s) = None"
  using lower_code [of c] by (auto simp: stoul32_def stoul_def is_space_def is_digit_def Let_def)

lemma parse_settings_line:
  assumes "lower c"
  shows "parse_line (c # line) dl = Some dl"
proof -
  have c: "c \<noteq> CHR ''#''" "c \<noteq> CHR '':''" "\<not> is_space c" "c \<noteq> CHR ''N''" "c \<noteq> CHR ''C''" "c \<noteq> CHR ''G''" "c \<noteq> CHR ''A''" "c \<noteq> CHR ''I''"
    using lower_code [OF assms] by (auto simp: is_space_def)
  obtain t where t: "tokens (takeWhile (\<lambda>x. x \<noteq> CHR ''#'') (c # line)) = t"  "t \<noteq> [] \<and> hd t \<noteq> [] \<and> hd (hd t) = c"
    using c(1,3) by (cases "split_on is_space (takeWhile (\<lambda>x. x \<noteq> CHR ''#'') line)") (auto simp: tokens_def)
  obtain s ts where s: "t = (c # s) # ts" using t(2) by (cases t; cases "hd t") auto
  have "parse_frequencies ((c # s) # ts) = None"
    using lower_no_number [OF assms] c(2) by (simp add: parse_frequencies_def Let_def)
  then have "parse_channel_spec (c # line) = Nothing"
    using t(1) c(8) by (simp add: parse_channel_tokens s)
  then show ?thesis using c by (simp add: parse_line_def split_beta)
qed

lemma parse_settings_lines:
  assumes "list_all (\<lambda>l. l = [] \<or> hd l = CHR ''#'' \<or> lower (hd l)) ls"
  shows "parse_lines ls dl = Some dl"
  using assms
proof (induction ls)
  case (Cons l ls)
  then consider "l = [] \<or> hd l = CHR ''#''" | c line where "l = c # line" "lower c" by (cases l) auto
  then have "parse_line l dl = Some dl"
  proof cases
    case 1
    then show ?thesis by (simp add: parse_line_def split_beta)
  next
    case 2
    then show ?thesis by (simp add: parse_settings_line)
  qed
  with Cons show ?case by simp
qed simp

text \<open>The lines of a station do not start like a setting.\<close>

definition no_setting :: "string \<Rightarrow> bool" where
  "no_setting l \<longleftrightarrow> l \<noteq> [] \<and> \<not> lower (hd l)"

lemma no_setting_upper:
  "no_setting (CHR ''#'' # l)" "no_setting (CHR ''I'' # l)" "no_setting (CHR ''N'' # l)" "no_setting (CHR ''C'' # l)"
  "no_setting (CHR ''G'' # l)" "no_setting (CHR ''A'' # l)"
  by (simp_all add: no_setting_def lower_def less_eq_char_def)

lemma written_body_heads:
  assumes "station_line_ok d"
  shows "list_all no_setting (write_station_body None d)"
proof -
  have "no_setting (format_channel_line ch)" if ch: "ch \<in> set (sd_channels d)" for ch
  proof -
    have "chan_id ch \<noteq> []" using assms ch by (auto simp: station_line_ok_def list_all_iff)
    then obtain r where "format_channel_line ch = ''ID:'' @ r" using format_prefix by blast
    then show ?thesis by (simp add: no_setting_upper)
  qed
  then have chs: "list_all no_setting (map format_channel_line (sd_channels d))" by (simp add: list_all_iff)
  have nets: "list_all no_setting (map net_line ns)" for ns by (simp add: list_all_iff net_line_def no_setting_upper)
  have contacts: "list_all no_setting (map contact_line cs)" for cs by (simp add: list_all_iff contact_line_def no_setting_upper)
  have rosters: "list_all no_setting (map roster_line rs)" for rs by (simp add: list_all_iff roster_line_def no_setting_upper)
  have optional: "list_all P (if b then xs else [])" if "list_all P xs" for P :: "string \<Rightarrow> bool" and b xs using that by simp
  show ?thesis
    unfolding write_station_body_def written_channels_def option.case list_all_append
    by (intro conjI chs optional) (simp_all add: nets contacts rosters no_setting_upper)
qed

text \<open>No line holds a line end.\<close>

lemma word_no_newline: "list_all (\<lambda>c. \<not> is_space c) t \<Longrightarrow> CHR 0x0A \<notin> set t"
  by (auto simp: list_all_iff is_space_def)

lemma show_no_newline: "CHR 0x0A \<notin> set (show_nat n)"
  using show_nat_word [of n] by (simp add: is_word_def word_no_newline)

lemma csv_no_newline: "list_all plain_item ts \<Longrightarrow> CHR 0x0A \<notin> set (join_csv ts)"
proof -
  assume ts: "list_all plain_item ts"
  then have "CHR 0x0A \<notin> set t" if "t \<in> set ts" for t
    using that by (intro word_no_newline) (auto simp: list_all_iff plain_item_def is_word_def)
  then show ?thesis using plain_items_set [OF ts] by auto
qed

lemma channel_no_newline:
  assumes "channel_line_ok ch" and "CHR 0x0A \<notin> set (label ch)"
  shows "CHR 0x0A \<notin> set (format_channel_line ch)"
proof -
  let ?buf = "show_nat (unat (rx_frequency_hz ch)) @ '' '' @ show_nat (unat (tx_frequency_hz ch)) @ '' '' @
      takeWhile (\<lambda>c. c \<noteq> CHR 0x00) (rx_mode ch)"
  have mode: "is_ale_mode (rx_mode ch)" and ident: "list_all (\<lambda>c. \<not> is_space c \<and> c \<noteq> CHR ''#'') (chan_id ch)"
    using assms(1) by (simp_all only: channel_line_ok_def)
  have ident: "CHR 0x0A \<notin> set (chan_id ch)"
    using ident by (intro word_no_newline) (simp add: list_all_iff)
  have "CHR 0x0A \<notin> set (rx_mode ch)"
    using modes_plain(1) [OF mode] by (intro word_no_newline) (simp add: is_word_def)
  then have "CHR 0x0A \<notin> set ?buf"
    unfolding modes_plain(3) [OF mode] by (simp add: show_no_newline)
  then have buf: "CHR 0x0A \<notin> set (take 63 ?buf)" by (meson in_set_takeD)
  have flags: "CHR 0x0A \<notin> set (concat (map (Cons (CHR '' '')) (flags_token ch)))"
  proof -
    have "CHR 0x0A \<notin> set t" if "t \<in> set (flags_token ch)" for t
      using flags_token_word [of ch] that by (intro word_no_newline) (auto simp: list_all_iff is_word_def)
    then show ?thesis by auto
  qed
  show ?thesis
    using buf flags ident assms(2) flags_token_written [of ch]
    by (simp only: format_channel_line_def Let_def) simp
qed

lemma written_body_no_newline:
  assumes "station_line_ok d"
  shows "list_all (\<lambda>l. CHR 0x0A \<notin> set l) (write_station_body None d)"
proof -
  have chs: "CHR 0x0A \<notin> set (format_channel_line ch)" if "ch \<in> set (sd_channels d)" for ch
    using assms that by (intro channel_no_newline) (auto simp: station_line_ok_def list_all_iff)
  have nts: "CHR 0x0A \<notin> set (net_line n)" if "n \<in> set (sd_nets d)" for n
  proof -
    have ok: "net_line_ok n" using assms that by (auto simp: station_line_ok_def list_all_iff)
    then have "list_all plain_item (channel_ids n)" by (auto simp: net_line_ok_def list_all_iff)
    with ok show ?thesis
      by (auto simp: net_line_def net_line_ok_def is_word_def word_no_newline show_no_newline csv_no_newline)
  qed
  have cts: "CHR 0x0A \<notin> set (contact_line c)" if "c \<in> set (all_contacts (sd_contacts d))" for c
  proof -
    have ok: "contact_line_ok c" using assms that by (auto simp: station_line_ok_def list_all_iff)
    then have "list_all plain_item (ct_net_members c)" "list_all plain_item (ct_valid_channels c)"
      by (auto simp: contact_line_ok_def list_all_iff)
    with ok show ?thesis
      by (auto simp: contact_line_def contact_fields_def contact_line_ok_def plain_text_def csv_no_newline)
  qed
  have rs: "CHR 0x0A \<notin> set (roster_line r)" if "r \<in> set (sd_rosters d)" for r
  proof -
    have ok: "roster_line_ok r" using assms that by (auto simp: station_line_ok_def list_all_iff)
    then show ?thesis by (auto simp: roster_line_def roster_line_ok_def plain_text_def csv_no_newline)
  qed
  have "sd_selector d \<noteq> CHR 0x0A" using assms by (simp add: station_line_ok_def)
  with chs nts cts rs show ?thesis
    by (auto simp: write_station_body_def written_channels_def list_all_iff)
qed

section \<open>Properties\<close>

lemma station_file_restored:
  assumes "station_line_ok d"
  shows "\<exists>d'. load_station_file (Some (save_station_file d)) d0 = Some (True, d') \<and>
    sd_channels d' = map stored_channel (sd_channels d) \<and> sd_nets d' = sd_nets d \<and>
    all_contacts (sd_contacts d') = all_contacts (sd_contacts d) \<and> sd_rosters d' = sd_rosters d \<and>
    sd_selector d' = sd_selector d \<and> sd_accept d' = sd_accept d"
proof -
  let ?d0 = "clear_station_stores d0"
  have base: "sd_nets ?d0 = []" "sd_rosters ?d0 = []" "stations (book (sd_contacts ?d0)) = []"
    by (simp_all add: clear_station_stores_def clear_contacts_def clear_stations_def)
  have "all_contacts (sd_contacts ?d0) = []" by (simp add: all_contacts_def base)
  moreover have "map callsign (all_contacts s) = map fst (stations (book s))" for s
    by (simp add: all_contacts_def build_contact_map with_meta_def)
  ultimately have "all_contacts (foldl (\<lambda>s c. snd (add_or_update c s)) (sd_contacts ?d0) (all_contacts (sd_contacts d))) =
      all_contacts (sd_contacts d)"
    using assms base(3) by (subst add_contacts_written) (simp_all add: station_line_ok_def)
  moreover have "getlines (CHR 0x0A) (save_station_file d) = write_station_body None d"
    unfolding save_station_file_def by (rule getlines_unlines) (rule written_body_no_newline [OF assms])
  ultimately show ?thesis
    using parse_written_body [OF assms base(1,2), of "[]"] by (simp add: load_station_file_def)
qed

text \<open>
  Saving a station and loading the file: the channels (with what their lines hold), the nets with their policies,
  the contacts, the rosters and the AllCall settings come back as they were, whatever the controller held before.
\<close>

theorem station_file_read_back:
  assumes "station_line_ok d"
  shows "\<exists>d'. load_station_file (Some (save_station_file d)) d0 = Some (True, d') \<and>
    sd_channels d' = map stored_channel (sd_channels d) \<and> sd_nets d' = sd_nets d \<and>
    all_contacts (sd_contacts d') = all_contacts (sd_contacts d) \<and> sd_rosters d' = sd_rosters d \<and>
    sd_selector d' = sd_selector d \<and> sd_accept d' = sd_accept d"
  using assms by (rule station_file_restored)

definition sample_station :: station_data where
  "sample_station = \<lparr>sd_channels = [sample_channel], sd_nets = [(Net ''HFN'')\<lparr>channel_ids := [''C-1'']\<rparr>],
     sd_contacts = \<lparr>book = update_station ''SAM'' ''Sam'' AddressBook, meta = []\<rparr>,
     sd_rosters = [\<lparr>roster_name = ''relief'', roster_members = [''SAM'', ''JOE'']\<rparr>],
     sd_selector = CHR ''?'', sd_accept = True\<rparr>"

lemma sample_station_ok: "station_line_ok sample_station"
  by (simp add: station_line_ok_def sample_station_def sample_channel_def channel_line_ok_def Channel_def is_ale_mode_def
      kModes_def is_space_def channel_flags_def tokens_def join_with_def nets_ok_def Net_def net_line_ok_def plain_item_def
      is_word_def update_station_def AddressBook_def all_contacts_def build_contact_def with_meta_def ContactMeta_def
      contact_line_ok_def plain_text_def rosters_ok_def roster_line_ok_def)

theorem station_file_read_back_witness:
  "\<exists>d'. load_station_file (Some (save_station_file sample_station)) sample_station = Some (True, d') \<and>
     sd_nets d' = [(Net ''HFN'')\<lparr>channel_ids := [''C-1'']\<rparr>]"
  using station_file_read_back [OF sample_station_ok, of sample_station] by (auto simp: sample_station_def)

text \<open>
  A channel that is read back may transmit in every way its line says; the security mode, the use for voice and data,
  the antenna and the sounding interval of a channel are not in the file and come back with their defaults.
\<close>

lemma unsaved_channel_fields:
  "secure (stored_channel ch) = False" "voice_use (stored_channel ch)" "data_use (stored_channel ch)"
  "antenna (stored_channel ch) = 1" "sounding_interval_ms (stored_channel ch) = 0"
  by (simp_all add: stored_channel_def Channel_def)

end
