(* ===== verification/Ctl_Stations.thy ===== *)
theory Ctl_Stations
  imports Ctl_Link Station_File
begin

text \<open>
  The operator's changes to the station (\<open>add_channel\<close> .. \<open>set_primary_self_address\<close> of
  \<open>src/App/ale_controller.cpp\<close>): the stores with the copies other parts hold of them, and the state file that every
  change is written through to. The file is what \<open>save_state\<close> last wrote: the station body, the identifiers
  deleted from the preset, the path of a channel file, and of the settings the own addresses and the stations
  (\<open>Ctl_Restart\<close> has the other lines, and the reading); writing succeeds.
\<close>

record state_file =
  file_body :: "string list"
  file_deleted :: string
  file_self :: "string list"
  file_channel_file :: string
  file_stations :: "(string \<times> string) list"

record station_ctl =
  sc_data :: station_data
  sc_self :: self_store
  sc_self_addr :: string
  sc_sm_channels :: "channel list"
  sc_armed :: bool
  sc_file :: "state_file option"
  sc_preset :: "channel list option"
  sc_channel_file :: string
  sc_active_net :: string
  sc_sounding_net :: string
  sc_sounding_on :: bool
  sc_sounding_ms :: u32
  sc_default_sec :: u32
  sc_selected :: string

definition own_address :: "station_ctl \<Rightarrow> string" where
  "own_address s = self_address (book (sd_contacts (sc_data s)))"

section \<open>The state file\<close>

definition deleted_ids :: "channel list \<Rightarrow> channel list \<Rightarrow> string list" where
  "deleted_ids preset chs = map chan_id (filter (\<lambda>p. \<not> list_ex (\<lambda>c. chan_id c = chan_id p) chs) preset)"

definition deleted_csv :: "channel list option \<Rightarrow> channel list \<Rightarrow> string" where
  "deleted_csv overlay chs = (case overlay of None \<Rightarrow> [] | Some preset \<Rightarrow> join_csv (deleted_ids preset chs))"

definition state_image :: "station_ctl \<Rightarrow> state_file" where
  "state_image s =
     \<lparr>file_body = write_station_body (sc_preset s) (sc_data s),
      file_deleted = deleted_csv (sc_preset s) (sd_channels (sc_data s)),
      file_self = map se_address (self_entries (sc_self s)), file_channel_file = sc_channel_file s,
      file_stations = stations (book (sd_contacts (sc_data s)))\<rparr>"

definition save_state :: "station_ctl \<Rightarrow> station_ctl" where
  "save_state s = s\<lparr>sc_file := Some (state_image s)\<rparr>"

definition auto_save :: "bool \<Rightarrow> station_ctl \<Rightarrow> station_ctl" where
  "auto_save changed s = (if changed \<and> sc_armed s then save_state s else s)"

section \<open>Channels\<close>

definition set_channels :: "channel list \<Rightarrow> station_ctl \<Rightarrow> station_ctl" where
  "set_channels chs s = s\<lparr>sc_data := (sc_data s)\<lparr>sd_channels := chs\<rparr>, sc_sm_channels := chs\<rparr>"

definition ctl_add_channel :: "channel \<Rightarrow> station_ctl \<Rightarrow> bool \<times> station_ctl" where
  "ctl_add_channel ch s =
     (let chs = sd_channels (sc_data s);
          ch = with_free_id chs ch;
          chs = (if list_ex (\<lambda>c. rx_frequency_hz c = rx_frequency_hz ch) chs
                 then update_matching (\<lambda>c. rx_frequency_hz c = rx_frequency_hz ch) (\<lambda>_. ch) chs
                 else chs @ [ch])
      in (True, auto_save True (set_channels chs s)))"

definition set_nets :: "net_store \<Rightarrow> station_ctl \<Rightarrow> station_ctl" where
  "set_nets ns s = s\<lparr>sc_data := (sc_data s)\<lparr>sd_nets := ns\<rparr>\<rparr>"

definition ctl_del_channel :: "u32 \<Rightarrow> station_ctl \<Rightarrow> bool \<times> station_ctl" where
  "ctl_del_channel rx s =
     (let chs = sd_channels (sc_data s);
          removed = (case find (\<lambda>c. rx_frequency_hz c = rx) chs of None \<Rightarrow> [] | Some c \<Rightarrow> chan_id c);
          chs' = filter (\<lambda>c. rx_frequency_hz c \<noteq> rx) chs
      in if length chs' = length chs then (False, s)
         else let s = (if removed \<noteq> [] then set_nets (unassign_channel_everywhere removed (sd_nets (sc_data s))) s else s)
              in (True, auto_save True (set_channels chs' s)))"

definition ctl_rename_channel :: "string \<Rightarrow> string \<Rightarrow> station_ctl \<Rightarrow> bool \<times> station_ctl" where
  "ctl_rename_channel old new s =
     (let chs = sd_channels (sc_data s)
      in if old = new then (True, s)
         else if new = [] then (False, s)
         else if list_ex is_blank new then (False, s)
         else if \<not> list_ex (\<lambda>c. chan_id c = old) chs then (False, s)
         else if list_ex (\<lambda>c. chan_id c = new) chs then (False, s)
         else let chs = update_matching (\<lambda>c. chan_id c = old) (\<lambda>c. c\<lparr>chan_id := new\<rparr>) chs;
                  s = set_nets (rename_channel old new (sd_nets (sc_data s))) s
              in (True, auto_save True (set_channels chs s)))"

definition ctl_set_channel_enabled :: "string \<Rightarrow> bool \<Rightarrow> station_ctl \<Rightarrow> bool \<times> station_ctl" where
  "ctl_set_channel_enabled ident enabled s =
     (case find (\<lambda>c. chan_id c = ident) (sd_channels (sc_data s)) of None \<Rightarrow> (False, s)
      | Some c \<Rightarrow>
          if chan_enabled c = enabled then (True, s)
          else (True, auto_save True (set_channels
            (update_matching (\<lambda>c. chan_id c = ident) (\<lambda>c. c\<lparr>chan_enabled := enabled\<rparr>) (sd_channels (sc_data s))) s)))"

definition ctl_set_channel_mode :: "string \<Rightarrow> string \<Rightarrow> station_ctl \<Rightarrow> bool \<times> station_ctl" where
  "ctl_set_channel_mode ident mode s =
     (if mode = [] then (False, s)
      else if \<not> list_ex (\<lambda>c. chan_id c = ident) (sd_channels (sc_data s)) then (False, s)
      else (True, auto_save True (set_channels
        (update_matching (\<lambda>c. chan_id c = ident) (\<lambda>c. c\<lparr>rx_mode := mode, tx_mode := mode\<rparr>) (sd_channels (sc_data s))) s)))"

section \<open>Nets, rosters and contacts\<close>

definition net_change :: "(net_store \<Rightarrow> bool \<times> net_store) \<Rightarrow> station_ctl \<Rightarrow> bool \<times> station_ctl" where
  "net_change f s = (let (ok, ns) = f (sd_nets (sc_data s)) in (ok, auto_save ok (set_nets ns s)))"

definition refresh_sounding_interval :: "station_ctl \<Rightarrow> station_ctl" where
  "refresh_sounding_interval s =
     (if \<not> sc_sounding_on s \<or> sc_sounding_net s = [] then s
      else let sec = (case find_net (sc_sounding_net s) (sd_nets (sc_data s)) of
                        None \<Rightarrow> sc_default_sec s
                      | Some n \<Rightarrow> if sounding_interval_sec n > 0 then sounding_interval_sec n else sc_default_sec s)
           in s\<lparr>sc_sounding_ms := sec * 1000\<rparr>)"

definition ctl_update_net :: "net \<Rightarrow> station_ctl \<Rightarrow> bool \<times> station_ctl" where
  "ctl_update_net u s =
     (let (ok, s) = net_change (update_net u) s
      in (ok, if ok \<and> net_name u = sc_sounding_net s then refresh_sounding_interval s else s))"

definition set_contacts :: "contact_store \<Rightarrow> station_ctl \<Rightarrow> station_ctl" where
  "set_contacts cs s = s\<lparr>sc_data := (sc_data s)\<lparr>sd_contacts := cs\<rparr>\<rparr>"

definition renamed_member :: "string \<Rightarrow> string \<Rightarrow> contact \<Rightarrow> contact" where
  "renamed_member old new c = c\<lparr>ct_net_members := map (\<lambda>n. if n = old then new else n) (ct_net_members c)\<rparr>"

definition rename_members :: "string \<Rightarrow> string \<Rightarrow> contact_store \<Rightarrow> contact_store" where
  "rename_members old new cs =
     foldl (\<lambda>cs c. if old \<in> set (ct_net_members c) then snd (add_or_update (renamed_member old new c) cs) else cs)
       cs (all_contacts cs)"

definition ctl_rename_net :: "string \<Rightarrow> string \<Rightarrow> station_ctl \<Rightarrow> bool \<times> station_ctl" where
  "ctl_rename_net old new s =
     (if old = new then (True, s)
      else if new = [] then (False, s)
      else let (ok, ns) = rename_net old new (sd_nets (sc_data s))
      in if \<not> ok then (False, s)
         else let s = set_nets ns s;
                  s = (if sc_active_net s = old then s\<lparr>sc_active_net := new\<rparr> else s);
                  s = (if sc_sounding_net s = old then refresh_sounding_interval (s\<lparr>sc_sounding_net := new\<rparr>) else s);
                  s = set_contacts (rename_members old new (sd_contacts (sc_data s))) s
              in (True, auto_save True s))"

definition roster_change :: "(roster_store \<Rightarrow> bool \<times> roster_store) \<Rightarrow> station_ctl \<Rightarrow> bool \<times> station_ctl" where
  "roster_change f s =
     (let (ok, rs) = f (sd_rosters (sc_data s))
      in (ok, auto_save ok (s\<lparr>sc_data := (sc_data s)\<lparr>sd_rosters := rs\<rparr>\<rparr>)))"

definition ctl_add_contact :: "string \<Rightarrow> string \<Rightarrow> string \<Rightarrow> string \<Rightarrow> string \<Rightarrow> station_ctl \<Rightarrow> bool \<times> station_ctl" where
  "ctl_add_contact cs name status members chans s =
     (if cs = [] then (False, s)
      else let (ok, store) = add_or_update (make_contact cs name status members chans) (sd_contacts (sc_data s))
           in (ok, auto_save ok (set_contacts store s)))"

definition ctl_remove_contact :: "string \<Rightarrow> station_ctl \<Rightarrow> bool \<times> station_ctl" where
  "ctl_remove_contact cs s =
     (let (removed, store) = remove_contact cs (sd_contacts (sc_data s));
          s = set_contacts store s;
          s = (if removed \<and> sc_selected s = cs then s\<lparr>sc_selected := []\<rparr> else s)
      in (removed, auto_save removed s))"

definition ctl_select_contact :: "string \<Rightarrow> station_ctl \<Rightarrow> bool \<times> station_ctl" where
  "ctl_select_contact cs s =
     (if find_contact (sd_contacts (sc_data s)) cs = None then (False, s) else (True, s\<lparr>sc_selected := cs\<rparr>))"

section \<open>Own addresses\<close>

definition ctl_set_self_address :: "string \<Rightarrow> station_ctl \<Rightarrow> bool \<times> station_ctl" where
  "ctl_set_self_address a s =
     (if \<not> is_valid_ale_address a then (False, s)
      else let cs = sd_contacts (sc_data s)
           in (True, set_contacts (cs\<lparr>book := snd (set_self_address a (book cs))\<rparr>) (s\<lparr>sc_self_addr := a\<rparr>)))"

definition ctl_set_primary :: "string \<Rightarrow> station_ctl \<Rightarrow> bool \<times> station_ctl" where
  "ctl_set_primary a s =
     (let (known, store) = set_primary a (sc_self s)
      in if \<not> known then (False, s)
         else let (valid, s) = ctl_set_self_address a (s\<lparr>sc_self := store\<rparr>)
              in if \<not> valid then (False, s) else (True, auto_save True s))"

definition self_entry_of :: "string \<Rightarrow> string \<Rightarrow> string \<Rightarrow> self_entry" where
  "self_entry_of a status chans =
     (let all = (chans = [] \<or> chans = ''ALL'')
      in \<lparr>se_address = a, se_enabled = (status \<noteq> ''disabled''), se_valid_channels = (if all then [] else split_csv chans),
          se_all_channels = all\<rparr>)"

definition ctl_add_self :: "string \<Rightarrow> string \<Rightarrow> string \<Rightarrow> station_ctl \<Rightarrow> bool \<times> station_ctl" where
  "ctl_add_self a status chans s =
     (if a = [] then (False, s)
      else let (added, store) = add_self (self_entry_of a status chans) (sc_self s);
               s = s\<lparr>sc_self := store\<rparr>;
               s = (if added \<and> primary store = a then snd (ctl_set_primary a s) else s)
           in (added, auto_save added s))"

definition ctl_remove_self :: "string \<Rightarrow> station_ctl \<Rightarrow> bool \<times> station_ctl" where
  "ctl_remove_self a s =
     (let (removed, store) = remove_self a (sc_self s) in (removed, auto_save removed (s\<lparr>sc_self := store\<rparr>)))"

section \<open>All operations\<close>

datatype station_op =
  Op_Add_Channel channel | Op_Del_Channel u32 | Op_Rename_Channel string string | Op_Set_Enabled string bool
| Op_Set_Mode string string | Op_Add_Net string | Op_Del_Net string | Op_Assign string string | Op_Unassign string string
| Op_Update_Net net | Op_Rename_Net string string | Op_Add_Roster string | Op_Del_Roster string | Op_Add_Member string string
| Op_Del_Member string string | Op_Add_Contact string string string string string | Op_Remove_Contact string
| Op_Select_Contact string | Op_Add_Self string string string | Op_Remove_Self string | Op_Set_Primary string

fun apply_station_op :: "station_op \<Rightarrow> station_ctl \<Rightarrow> bool \<times> station_ctl" where
  "apply_station_op (Op_Add_Channel ch) s = ctl_add_channel ch s"
| "apply_station_op (Op_Del_Channel rx) s = ctl_del_channel rx s"
| "apply_station_op (Op_Rename_Channel old new) s = ctl_rename_channel old new s"
| "apply_station_op (Op_Set_Enabled ident e) s = ctl_set_channel_enabled ident e s"
| "apply_station_op (Op_Set_Mode ident m) s = ctl_set_channel_mode ident m s"
| "apply_station_op (Op_Add_Net n) s = net_change (store_net n) s"
| "apply_station_op (Op_Del_Net n) s = net_change (remove_net n) s"
| "apply_station_op (Op_Assign n ident) s = net_change (assign_channel n ident) s"
| "apply_station_op (Op_Unassign n ident) s = net_change (unassign_channel n ident) s"
| "apply_station_op (Op_Update_Net u) s = ctl_update_net u s"
| "apply_station_op (Op_Rename_Net old new) s = ctl_rename_net old new s"
| "apply_station_op (Op_Add_Roster n) s = roster_change (add_roster n) s"
| "apply_station_op (Op_Del_Roster n) s = roster_change (remove_roster n) s"
| "apply_station_op (Op_Add_Member n m) s = roster_change (add_member n m) s"
| "apply_station_op (Op_Del_Member n m) s = roster_change (remove_member n m) s"
| "apply_station_op (Op_Add_Contact cs name status members chans) s = ctl_add_contact cs name status members chans s"
| "apply_station_op (Op_Remove_Contact cs) s = ctl_remove_contact cs s"
| "apply_station_op (Op_Select_Contact cs) s = ctl_select_contact cs s"
| "apply_station_op (Op_Add_Self a status chans) s = ctl_add_self a status chans s"
| "apply_station_op (Op_Remove_Self a) s = ctl_remove_self a s"
| "apply_station_op (Op_Set_Primary a) s = ctl_set_primary a s"

definition station_step :: "station_ctl \<Rightarrow> station_op \<Rightarrow> station_ctl" where
  "station_step s e = snd (apply_station_op e s)"

section \<open>Every change is written through\<close>

lemma filter_same_length: "length (filter P xs) = length xs \<Longrightarrow> filter P xs = xs"
proof (induction xs)
  case (Cons x xs)
  then show ?case using length_filter_le [of P xs] by (cases "P x") auto
qed simp

text \<open>The file is up to date, and the state machine has the channels of the controller.\<close>

definition synced :: "station_ctl \<Rightarrow> bool" where
  "synced s \<longleftrightarrow> (sc_armed s \<longrightarrow> sc_file s = Some (state_image s)) \<and> sc_sm_channels s = sd_channels (sc_data s)"

lemma synced_saved: "sc_sm_channels s = sd_channels (sc_data s) \<Longrightarrow> synced (auto_save True s)"
  by (simp add: synced_def auto_save_def save_state_def state_image_def)

lemma synced_sm: "synced s \<Longrightarrow> sc_sm_channels s = sd_channels (sc_data s)"
  by (simp add: synced_def)

lemma auto_save_False [simp]: "auto_save False s = s"
  by (simp add: auto_save_def)

lemma set_channels_sm [simp]: "sc_sm_channels (set_channels chs s) = chs" "sd_channels (sc_data (set_channels chs s)) = chs"
  by (simp_all add: set_channels_def)

text \<open>What leaves the image alone.\<close>

lemma synced_same:
  assumes "synced s" and "sc_data t = sc_data s" "self_entries (sc_self t) = self_entries (sc_self s)" "sc_armed t = sc_armed s"
    "sc_file t = sc_file s" "sc_preset t = sc_preset s" "sc_channel_file t = sc_channel_file s" "sc_sm_channels t = sc_sm_channels s"
  shows "synced t"
  using assms by (simp add: synced_def state_image_def)

lemma synced_net_change:
  assumes "synced s" and "\<And>y. f (sd_nets (sc_data s)) = (False, y) \<Longrightarrow> y = sd_nets (sc_data s)"
  shows "synced (snd (net_change f s))"
proof (cases "f (sd_nets (sc_data s))")
  case (Pair ok ns)
  show ?thesis
  proof (cases ok)
    case True
    then show ?thesis using Pair assms(1) by (auto simp: net_change_def set_nets_def synced_def intro!: synced_saved [unfolded synced_def])
  next
    case False
    then have "ns = sd_nets (sc_data s)" using Pair assms(2) by simp
    then show ?thesis using Pair False assms(1) by (simp add: net_change_def set_nets_def)
  qed
qed

lemma synced_roster_change:
  assumes "synced s" and "\<And>y. f (sd_rosters (sc_data s)) = (False, y) \<Longrightarrow> y = sd_rosters (sc_data s)"
  shows "synced (snd (roster_change f s))"
proof (cases "f (sd_rosters (sc_data s))")
  case (Pair ok rs)
  show ?thesis
  proof (cases ok)
    case True
    then show ?thesis using Pair assms(1) by (auto simp: roster_change_def synced_def intro!: synced_saved [unfolded synced_def])
  next
    case False
    then have "rs = sd_rosters (sc_data s)" using Pair assms(2) by simp
    then show ?thesis using Pair False assms(1) by (simp add: roster_change_def)
  qed
qed

lemma net_refused:
  "store_net n x = (False, y) \<Longrightarrow> y = x" "remove_net n x = (False, y) \<Longrightarrow> y = x"
  "assign_channel n i x = (False, y) \<Longrightarrow> y = x" "unassign_channel n i x = (False, y) \<Longrightarrow> y = x"
  "update_net u x = (False, y) \<Longrightarrow> y = x" "rename_net n i x = (False, y) \<Longrightarrow> y = x"
  by (auto simp: store_net_def remove_net_def assign_channel_def unassign_channel_def update_net_def rename_net_def
      on_net_def Let_def filter_same_length split: if_splits)

lemma roster_refused:
  "add_roster n x = (False, y) \<Longrightarrow> y = x" "remove_roster n x = (False, y) \<Longrightarrow> y = x"
  "add_member n m x = (False, y) \<Longrightarrow> y = x" "remove_member n m x = (False, y) \<Longrightarrow> y = x"
  by (auto simp: add_roster_def remove_roster_def add_member_def remove_member_def on_roster_def Let_def filter_same_length
      split: if_splits)

lemma contact_refused: "remove_contact cs x = (False, y) \<Longrightarrow> y = x" "add_or_update c x = (False, y) \<Longrightarrow> y = x"
  by (auto simp: remove_contact_def add_or_update_def split: if_splits)

lemma self_refused: "add_self e x = (False, y) \<Longrightarrow> y = x" "remove_self a x = (False, y) \<Longrightarrow> self_entries y = self_entries x"
  by (auto simp: add_self_def remove_self_def Let_def split: if_splits)

lemma refresh_keeps [simp]:
  "sc_data (refresh_sounding_interval s) = sc_data s" "sc_self (refresh_sounding_interval s) = sc_self s"
  "sc_armed (refresh_sounding_interval s) = sc_armed s" "sc_file (refresh_sounding_interval s) = sc_file s"
  "sc_preset (refresh_sounding_interval s) = sc_preset s" "sc_channel_file (refresh_sounding_interval s) = sc_channel_file s"
  "sc_sm_channels (refresh_sounding_interval s) = sc_sm_channels s"
  "sc_self_addr (refresh_sounding_interval s) = sc_self_addr s"
  by (simp_all add: refresh_sounding_interval_def Let_def)

lemma set_contacts_keeps [simp]:
  "sc_sm_channels (set_contacts cs s) = sc_sm_channels s" "sd_channels (sc_data (set_contacts cs s)) = sd_channels (sc_data s)"
  by (simp_all add: set_contacts_def)

lemma set_nets_keeps [simp]:
  "sc_sm_channels (set_nets ns s) = sc_sm_channels s" "sd_channels (sc_data (set_nets ns s)) = sd_channels (sc_data s)"
  by (simp_all add: set_nets_def)

lemma sm_auto_save [simp]:
  "sc_sm_channels (auto_save b s) = sc_sm_channels s" "sc_data (auto_save b s) = sc_data s"
  "sc_self (auto_save b s) = sc_self s" "sc_self_addr (auto_save b s) = sc_self_addr s"
  by (simp_all add: auto_save_def save_state_def)

lemma sm_set_primary:
  "sc_sm_channels (snd (ctl_set_primary a s)) = sc_sm_channels s"
  "sd_channels (sc_data (snd (ctl_set_primary a s))) = sd_channels (sc_data s)"
  by (simp_all add: ctl_set_primary_def ctl_set_self_address_def Let_def split_beta)

lemma synced_set_primary:
  assumes "synced s"
  shows "synced (snd (ctl_set_primary a s))"
proof (cases "fst (set_primary a (sc_self s)) \<and> is_valid_ale_address a")
  case True
  then have "\<exists>t. snd (ctl_set_primary a s) = auto_save True t \<and> sc_sm_channels t = sc_sm_channels s \<and>
      sd_channels (sc_data t) = sd_channels (sc_data s)"
    by (auto simp: ctl_set_primary_def ctl_set_self_address_def Let_def split_beta)
  then show ?thesis using synced_sm [OF assms] by (auto intro!: synced_saved)
next
  case False
  then have "snd (ctl_set_primary a s) = s \<or> snd (ctl_set_primary a s) = s\<lparr>sc_self := snd (set_primary a (sc_self s))\<rparr>"
    by (auto simp: ctl_set_primary_def ctl_set_self_address_def Let_def split_beta)
  then show ?thesis
    by (rule disjE) (auto simp: assms set_primary_def intro: synced_same [OF assms])
qed

lemma synced_add_self:
  assumes "synced s"
  shows "synced (snd (ctl_add_self a status chans s))"
proof (cases "a \<noteq> [] \<and> fst (add_self (self_entry_of a status chans) (sc_self s))")
  case True
  then obtain t where "snd (ctl_add_self a status chans s) = auto_save True t"
    "sc_sm_channels t = sc_sm_channels s" "sd_channels (sc_data t) = sd_channels (sc_data s)"
    by (auto simp: ctl_add_self_def Let_def split_beta sm_set_primary)
  then show ?thesis using synced_sm [OF assms] by (auto intro!: synced_saved)
next
  case False
  then have "snd (add_self (self_entry_of a status chans) (sc_self s)) = sc_self s \<or> a = []"
    using self_refused(1) by (metis prod.collapse)
  with False show ?thesis using assms by (auto simp: ctl_add_self_def Let_def split_beta)
qed

lemma synced_remove_self:
  assumes "synced s"
  shows "synced (snd (ctl_remove_self a s))"
proof (cases "remove_self a (sc_self s)")
  case (Pair ok store)
  show ?thesis
  proof (cases ok)
    case True
    then show ?thesis using Pair synced_sm [OF assms] by (auto simp: ctl_remove_self_def intro!: synced_saved)
  next
    case False
    with Pair show ?thesis
      by (auto simp: ctl_remove_self_def self_refused(2) intro: synced_same [OF assms])
  qed
qed

lemma synced_remove_contact:
  assumes "synced s"
  shows "synced (snd (ctl_remove_contact cs s))"
proof (cases "remove_contact cs (sd_contacts (sc_data s))")
  case (Pair ok store)
  show ?thesis
  proof (cases ok)
    case True
    then show ?thesis using Pair synced_sm [OF assms]
      by (auto simp: ctl_remove_contact_def Let_def intro!: synced_saved)
  next
    case False
    with Pair have "store = sd_contacts (sc_data s)" by (auto dest: contact_refused(1))
    with Pair False show ?thesis using assms by (simp add: ctl_remove_contact_def set_contacts_def Let_def)
  qed
qed

lemma synced_rename_net:
  assumes "synced s"
  shows "synced (snd (ctl_rename_net old new s))"
proof -
  have "sc_sm_channels s = sd_channels (sc_data s)" using assms by (simp add: synced_def)
  then show ?thesis using assms
    by (auto simp: ctl_rename_net_def Let_def split_beta intro!: synced_saved)
qed

lemma synced_update_net:
  assumes "synced s"
  shows "synced (snd (ctl_update_net u s))"
proof -
  have "synced (snd (net_change (update_net u) s))" by (intro synced_net_change assms) (rule net_refused)
  then show ?thesis
    by (auto simp: ctl_update_net_def Let_def split_beta elim!: synced_same)
qed

lemma synced_channels:
  assumes "synced s"
  shows "synced (snd (ctl_add_channel ch s))" "synced (snd (ctl_del_channel rx s))" "synced (snd (ctl_rename_channel old new s))"
    "synced (snd (ctl_set_channel_enabled ident b s))" "synced (snd (ctl_set_channel_mode ident m s))"
  using assms
  by (auto simp: ctl_add_channel_def ctl_del_channel_def ctl_rename_channel_def ctl_set_channel_enabled_def
      ctl_set_channel_mode_def Let_def intro!: synced_saved split: option.split)

lemma synced_contacts:
  assumes "synced s"
  shows "synced (snd (ctl_add_contact cs name status members chans s))" "synced (snd (ctl_select_contact cs s))"
proof -
  have "sc_sm_channels s = sd_channels (sc_data s)" using assms by (simp add: synced_def)
  then show "synced (snd (ctl_add_contact cs name status members chans s))"
    using assms by (auto simp: ctl_add_contact_def make_contact_def add_or_update_def Let_def intro!: synced_saved)
  show "synced (snd (ctl_select_contact cs s))"
    using assms by (auto simp: ctl_select_contact_def elim!: synced_same)
qed

lemmas synced_ops = synced_channels synced_contacts synced_update_net synced_rename_net synced_remove_contact
  synced_remove_self synced_add_self synced_set_primary

lemma synced_step: "synced s \<Longrightarrow> synced (station_step s e)"
  by (cases e) (auto simp: station_step_def synced_ops intro!: synced_net_change synced_roster_change
      dest: net_refused roster_refused)

section \<open>The keys stay distinct\<close>

text \<open>Frequencies, names and callsigns are keys; the own address is the one of the address book.\<close>

definition keyed :: "station_ctl \<Rightarrow> bool" where
  "keyed s \<longleftrightarrow> distinct (map rx_frequency_hz (sd_channels (sc_data s))) \<and> nets_ok (sd_nets (sc_data s)) \<and>
     rosters_ok (sd_rosters (sc_data s)) \<and> distinct (map fst (stations (book (sd_contacts (sc_data s))))) \<and>
     self_ok (sc_self s) \<and> sc_self_addr s = own_address s"

lemma nets_ok_ops:
  assumes "nets_ok ns"
  shows "nets_ok (snd (store_net n ns))" "nets_ok (snd (remove_net n ns))" "nets_ok (snd (assign_channel n i ns))"
    "nets_ok (snd (unassign_channel n i ns))" "nets_ok (snd (update_net u ns))" "nets_ok (snd (rename_net n i ns))"
    "nets_ok (unassign_channel_everywhere i ns)" "nets_ok (rename_channel n i ns)"
  using nets_ok_step [OF assms, of "Store_Net n"] nets_ok_step [OF assms, of "Remove_Net n"]
    nets_ok_step [OF assms, of "Assign_Channel n i"] nets_ok_step [OF assms, of "Unassign_Channel n i"]
    nets_ok_step [OF assms, of "Update_Net u"] nets_ok_step [OF assms, of "Rename_Net n i"]
    nets_ok_step [OF assms, of "Unassign_Everywhere i"] nets_ok_step [OF assms, of "Rename_Channel n i"]
  by simp_all

lemma rosters_ok_ops:
  assumes "rosters_ok rs"
  shows "rosters_ok (snd (add_roster n rs))" "rosters_ok (snd (remove_roster n rs))" "rosters_ok (snd (add_member n m rs))"
    "rosters_ok (snd (remove_member n m rs))"
  using rosters_ok_step [OF assms, of "Add_Roster n"] rosters_ok_step [OF assms, of "Remove_Roster n"]
    rosters_ok_step [OF assms, of "Add_Member n m"] rosters_ok_step [OF assms, of "Remove_Member n m"]
  by simp_all

lemma self_ok_ops:
  assumes "self_ok x"
  shows "self_ok (snd (add_self e x))" "self_ok (snd (remove_self a x))" "self_ok (snd (set_primary a x))"
  using self_ok_step [OF assms, of "Add_Self e"] self_ok_step [OF assms, of "Remove_Self a"] self_ok_step [OF assms, of "Set_Primary a"]
  by simp_all

lemma contact_keys:
  assumes "distinct (map fst (stations (book cs)))"
  shows "distinct (map fst (stations (book (snd (add_or_update c cs)))))" "distinct (map fst (stations (book (snd (remove_contact k cs)))))"
  using assms by (auto simp: add_or_update_def remove_contact_def update_station_def remove_station_def keys_update_entry
      has_key_iff distinct_map_filter)

lemma contact_keeps_own:
  "self_address (book (snd (add_or_update c cs))) = self_address (book cs)"
  "self_address (book (snd (remove_contact k cs))) = self_address (book cs)"
  by (simp_all add: add_or_update_def remove_contact_def update_station_def remove_station_def)

lemma rename_members_keeps:
  assumes "distinct (map fst (stations (book cs)))"
  shows "distinct (map fst (stations (book (rename_members old new cs)))) \<and>
    self_address (book (rename_members old new cs)) = self_address (book cs)"
proof -
  have "distinct (map fst (stations (book x))) \<Longrightarrow>
      (let y = foldl (\<lambda>cs c. if old \<in> set (ct_net_members c) then snd (add_or_update (renamed_member old new c) cs) else cs) x list
       in distinct (map fst (stations (book y))) \<and> self_address (book y) = self_address (book x))" for x list
    by (induction list arbitrary: x) (simp_all add: contact_keys contact_keeps_own Let_def)
  from this [of cs "all_contacts cs"] show ?thesis using assms by (simp add: rename_members_def Let_def)
qed

lemma keyed_data:
  assumes "keyed s" and "distinct (map rx_frequency_hz (sd_channels (sc_data t)))" "nets_ok (sd_nets (sc_data t))"
    "rosters_ok (sd_rosters (sc_data t))" "sd_contacts (sc_data t) = sd_contacts (sc_data s)" "sc_self t = sc_self s"
    "sc_self_addr t = sc_self_addr s"
  shows "keyed t"
  using assms by (simp add: keyed_def own_address_def)

lemma distinct_rx_filter: "distinct (map rx_frequency_hz chs) \<Longrightarrow> distinct (map rx_frequency_hz (filter P chs))"
  by (simp add: distinct_map_filter)

lemma with_free_id_rx [simp]: "rx_frequency_hz (with_free_id chs ch) = rx_frequency_hz ch"
  by (simp add: with_free_id_def)

lemma keys_replaced: "map rx_frequency_hz (update_matching (\<lambda>c. rx_frequency_hz c = k) (\<lambda>_. ch) chs) = map rx_frequency_hz chs"
  if "rx_frequency_hz ch = k"
  using that by (induction chs) auto

lemma keyed_set_channels:
  assumes "keyed s" and "distinct (map rx_frequency_hz chs)"
  shows "keyed (auto_save b (set_channels chs s))"
  using assms by (auto simp: keyed_def set_channels_def own_address_def)

lemma keyed_set_nets: "keyed s \<Longrightarrow> nets_ok ns \<Longrightarrow> keyed (set_nets ns s)"
  by (simp add: keyed_def set_nets_def own_address_def)

lemma keyed_channels:
  assumes "keyed s"
  shows "keyed (snd (ctl_add_channel ch s))" "keyed (snd (ctl_del_channel rx s))" "keyed (snd (ctl_rename_channel old new s))"
    "keyed (snd (ctl_set_channel_enabled ident b s))" "keyed (snd (ctl_set_channel_mode ident m s))"
proof -
  have d: "distinct (map rx_frequency_hz (sd_channels (sc_data s)))" and n: "nets_ok (sd_nets (sc_data s))"
    using assms by (simp_all add: keyed_def)
  show "keyed (snd (ctl_add_channel ch s))"
    using assms d by (auto simp: ctl_add_channel_def Let_def keys_replaced list_ex_key intro!: keyed_set_channels)
  show "keyed (snd (ctl_del_channel rx s))"
    using assms d n by (auto simp: ctl_del_channel_def Let_def distinct_rx_filter nets_ok_ops
        intro!: keyed_set_channels keyed_set_nets)
  show "keyed (snd (ctl_rename_channel old new s))"
    using assms d n by (auto simp: ctl_rename_channel_def Let_def map_update_matching nets_ok_ops intro!: keyed_set_channels keyed_set_nets)
  show "keyed (snd (ctl_set_channel_enabled ident b s))" "keyed (snd (ctl_set_channel_mode ident m s))"
    using assms d by (auto simp: ctl_set_channel_enabled_def ctl_set_channel_mode_def Let_def map_update_matching
        intro!: keyed_set_channels split: option.split)
qed

lemma keyed_auto_save [simp]: "keyed (auto_save b s) = keyed s"
  by (simp add: keyed_def own_address_def)

lemma keyed_net_change:
  assumes "keyed s" and "nets_ok (snd (f (sd_nets (sc_data s))))"
  shows "keyed (snd (net_change f s))"
  using assms by (simp add: net_change_def split_beta keyed_set_nets)

lemma keyed_roster_change:
  assumes "keyed s" and "rosters_ok (snd (f (sd_rosters (sc_data s))))"
  shows "keyed (snd (roster_change f s))"
  using assms by (simp add: roster_change_def split_beta keyed_def own_address_def)

lemma keyed_set_contacts:
  assumes "keyed s" and "distinct (map fst (stations (book cs)))" and "self_address (book cs) = own_address s"
  shows "keyed (set_contacts cs s)"
  using assms by (simp add: keyed_def set_contacts_def own_address_def)

lemma valid_address_taken: "is_valid_ale_address a \<Longrightarrow> self_address (snd (set_self_address a b)) = a"
  by (simp add: is_valid_ale_address_def set_self_address_def)

lemma set_self_address_stations: "stations (snd (set_self_address a b)) = stations b"
  by (simp add: set_self_address_def)

lemma keyed_self:
  assumes "keyed s"
  shows "keyed (snd (ctl_set_primary a s))" "keyed (snd (ctl_remove_self a s))" "keyed (snd (ctl_add_self a status chans s))"
proof -
  have primary: "keyed (snd (ctl_set_primary a t))" if "keyed t" for t
    using that by (auto simp: ctl_set_primary_def ctl_set_self_address_def keyed_def own_address_def set_contacts_def Let_def split_beta
        self_ok_ops valid_address_taken set_self_address_stations)
  then show "keyed (snd (ctl_set_primary a s))" using assms .
  show "keyed (snd (ctl_remove_self a s))"
    using assms by (simp add: ctl_remove_self_def split_beta keyed_def own_address_def self_ok_ops)
  have "keyed (s\<lparr>sc_self := snd (add_self e (sc_self s))\<rparr>)" for e
    using assms by (simp add: keyed_def own_address_def self_ok_ops)
  then show "keyed (snd (ctl_add_self a status chans s))"
    using assms primary by (auto simp: ctl_add_self_def Let_def split_beta)
qed

lemma keyed_nets_contacts:
  assumes "keyed s"
  shows "keyed (snd (ctl_update_net u s))" "keyed (snd (ctl_rename_net old new s))"
    "keyed (snd (ctl_add_contact cs name status members chans s))" "keyed (snd (ctl_remove_contact cs s))"
    "keyed (snd (ctl_select_contact cs s))"
proof -
  have n: "nets_ok (sd_nets (sc_data s))" and c: "distinct (map fst (stations (book (sd_contacts (sc_data s)))))"
    using assms by (simp_all add: keyed_def)
  have same: "keyed (refresh_sounding_interval t) = keyed t" "keyed (t\<lparr>sc_sounding_net := x\<rparr>) = keyed t"
    "keyed (t\<lparr>sc_active_net := x\<rparr>) = keyed t" "keyed (t\<lparr>sc_selected := x\<rparr>) = keyed t" for t x
    by (simp_all add: keyed_def own_address_def)
  have "keyed (snd (net_change (update_net u) s))" using assms n by (intro keyed_net_change nets_ok_ops)
  then show "keyed (snd (ctl_update_net u s))" by (auto simp: ctl_update_net_def Let_def split_beta same)
  have "keyed (set_contacts (rename_members old new (sd_contacts (sc_data t))) t)" if "keyed t" for t
    using that rename_members_keeps [of "sd_contacts (sc_data t)"]
    by (intro keyed_set_contacts) (auto simp: keyed_def own_address_def)
  then show "keyed (snd (ctl_rename_net old new s))"
    using assms n by (auto simp: ctl_rename_net_def Let_def split_beta same keyed_set_nets nets_ok_ops)
  show "keyed (snd (ctl_add_contact cs name status members chans s))"
    using assms c by (auto simp: ctl_add_contact_def Let_def split_beta own_address_def contact_keys contact_keeps_own
        intro!: keyed_set_contacts)
  have "keyed (set_contacts (snd (remove_contact cs (sd_contacts (sc_data s)))) s)"
    using assms c by (intro keyed_set_contacts) (auto simp: own_address_def contact_keys contact_keeps_own)
  then show "keyed (snd (ctl_remove_contact cs s))"
    by (auto simp: ctl_remove_contact_def Let_def split_beta same)
  show "keyed (snd (ctl_select_contact cs s))" using assms by (simp add: ctl_select_contact_def same)
qed

lemma keyed_step: "keyed s \<Longrightarrow> keyed (station_step s e)"
proof -
  assume s: "keyed s"
  then have "nets_ok (sd_nets (sc_data s))" "rosters_ok (sd_rosters (sc_data s))" by (simp_all add: keyed_def)
  with s show "keyed (station_step s e)"
    by (cases e) (simp_all add: station_step_def keyed_channels keyed_self keyed_nets_contacts keyed_net_change keyed_roster_change
        nets_ok_ops rosters_ok_ops)
qed

interpretation station_settings: event_machine station_step "\<lambda>s. synced s \<and> keyed s"
  by unfold_locales (simp add: synced_step keyed_step)

lemma step_keeps_file_settings:
  "sc_armed (station_step s e) = sc_armed s \<and> sc_preset (station_step s e) = sc_preset s \<and>
     sc_channel_file (station_step s e) = sc_channel_file s"
proof -
  have same: "sc_armed (auto_save b t) = sc_armed t" "sc_preset (auto_save b t) = sc_preset t"
    "sc_channel_file (auto_save b t) = sc_channel_file t" "sc_armed (set_channels chs t) = sc_armed t"
    "sc_preset (set_channels chs t) = sc_preset t" "sc_channel_file (set_channels chs t) = sc_channel_file t"
    "sc_armed (set_nets ns t) = sc_armed t" "sc_preset (set_nets ns t) = sc_preset t"
    "sc_channel_file (set_nets ns t) = sc_channel_file t" "sc_armed (set_contacts cs t) = sc_armed t"
    "sc_preset (set_contacts cs t) = sc_preset t" "sc_channel_file (set_contacts cs t) = sc_channel_file t" for b chs ns cs t
    by (simp_all add: auto_save_def save_state_def set_channels_def set_nets_def set_contacts_def)
  have primary: "sc_armed (snd (ctl_set_primary a t)) = sc_armed t" "sc_preset (snd (ctl_set_primary a t)) = sc_preset t"
    "sc_channel_file (snd (ctl_set_primary a t)) = sc_channel_file t" for a t
    by (simp_all add: ctl_set_primary_def ctl_set_self_address_def Let_def split_beta same)
  show ?thesis
    by (cases e)
      (simp_all add: station_step_def ctl_add_channel_def ctl_del_channel_def ctl_rename_channel_def ctl_set_channel_enabled_def
        ctl_set_channel_mode_def net_change_def ctl_update_net_def ctl_rename_net_def roster_change_def ctl_add_contact_def
        ctl_remove_contact_def ctl_select_contact_def ctl_add_self_def ctl_remove_self_def primary Let_def split_beta same
        split: option.split)
qed

lemma run_keeps_file_settings:
  "sc_armed (foldl station_step s es) = sc_armed s \<and> sc_preset (foldl station_step s es) = sc_preset s \<and>
     sc_channel_file (foldl station_step s es) = sc_channel_file s"
  by (induction es arbitrary: s) (simp_all add: step_keeps_file_settings)

section \<open>Renaming a channel\<close>

lemma rename_first_id:
  "distinct (map chan_id chs) \<Longrightarrow>
    update_matching (\<lambda>c. chan_id c = old) (\<lambda>c. c\<lparr>chan_id := new\<rparr>) chs = map (renamed_channel old new) chs"
proof (induction chs)
  case (Cons c chs)
  show ?case
  proof (cases "chan_id c = old")
    case True
    then have "map (renamed_channel old new) chs = chs"
      using Cons.prems by (intro map_idI) (auto simp: renamed_channel_def image_iff)
    then show ?thesis using True by simp (simp add: renamed_channel_def)
  next
    case False
    then show ?thesis using Cons by (simp add: renamed_channel_def)
  qed
qed simp

text \<open>
  Renaming a channel leaves every net with the number of scanned channels it had, which sets the width of the calls to
  its members: the nets follow the new name.
\<close>

theorem renaming_keeps_scan_width:
  assumes "keyed s" and "distinct (map chan_id (sd_channels (sc_data s)))"
    and "fst (ctl_rename_channel old new s)"
    and "\<forall>n\<in>set (sd_nets (sc_data s)). [] \<notin> set (channel_ids n) \<and> new \<notin> set (channel_ids n)"
  shows "(let t = sc_data (snd (ctl_rename_channel old new s))
    in map (\<lambda>n. net_scan_channel_count n (sd_channels t)) (sd_nets t) =
       map (\<lambda>n. net_scan_channel_count n (sd_channels (sc_data s))) (sd_nets (sc_data s)))"
proof (cases "old = new")
  case True
  then show ?thesis by (simp add: ctl_rename_channel_def)
next
  case False
  let ?chs = "sd_channels (sc_data s)" and ?ns = "sd_nets (sc_data s)"
  let ?t = "sc_data (snd (ctl_rename_channel old new s))"
  have new: "new \<noteq> []" "new \<notin> chan_id ` set ?chs"
    using assms(3) False by (auto simp: ctl_rename_channel_def Let_def list_ex_key image_iff split: if_splits)
  have t: "sd_channels ?t = map (renamed_channel old new) ?chs" "sd_nets ?t = rename_channel old new ?ns"
    using assms(3) False rename_first_id [OF assms(2), of old new]
    by (auto simp: ctl_rename_channel_def Let_def set_channels_def set_nets_def split: if_splits)
  have "net_scan_channel_count (n\<lparr>channel_ids := rename_ids old new (channel_ids n)\<rparr>) (map (renamed_channel old new) ?chs) =
      net_scan_channel_count n ?chs" if "n \<in> set ?ns" for n
    using assms(1,4) new False that by (intro scan_count_renamed) (auto simp: keyed_def nets_ok_def list_all_iff)
  then show ?thesis using False by (simp add: t rename_channel_def)
qed

section \<open>Renaming a net\<close>

declare find_key_None [simp del]

lemma find_net_renamed:
  assumes "distinct (map net_name ns)" and "new \<notin> net_name ` set ns" and "old \<noteq> new"
  shows "find_net k (update_matching (\<lambda>n. net_name n = old) (\<lambda>n. n\<lparr>net_name := new\<rparr>) ns) =
    (if k = new then map_option (\<lambda>n. n\<lparr>net_name := new\<rparr>) (find_net old ns) else if k = old then None else find_net k ns)"
  using assms
proof (induction ns)
  case (Cons n ns)
  have absent: "net_name n \<notin> net_name ` set ns" using Cons.prems(1) by simp
  then have "find_net (net_name n) ns = None" by (simp add: find_net_None)
  moreover have "find_net new ns = None" using Cons.prems(2) by (simp add: find_net_None)
  ultimately show ?case using Cons by (auto simp: find_net_def)
qed (simp add: find_net_def)

lemma find_contact_list: "find_contact cs k = find (\<lambda>c. callsign c = k) (all_contacts cs)"
proof -
  have "callsign (build_contact cs a n) = a" for a n by (simp add: build_contact_map with_meta_def)
  then have "find (\<lambda>c. callsign c = k) (map (\<lambda>p. build_contact cs (fst p) (snd p)) ps) =
      (case find (\<lambda>p. fst p = k) ps of None \<Rightarrow> None | Some p \<Rightarrow> Some (build_contact cs (fst p) (snd p)))" for ps
    by (induction ps) auto
  then show ?thesis by (simp add: all_contacts_def find_contact_def)
qed

lemma find_renamed_members:
  assumes "distinct (map callsign L)" and "list_all (\<lambda>c. callsign c \<noteq> []) L"
  shows "find_contact (foldl (\<lambda>cs c. if old \<in> set (ct_net_members c) then snd (add_or_update (renamed_member old new c) cs) else cs) x L) k =
    (case find (\<lambda>c. callsign c = k) L of None \<Rightarrow> find_contact x k
     | Some c \<Rightarrow> if old \<in> set (ct_net_members c) then Some (renamed_member old new c) else find_contact x k)"
  using assms
proof (induction L arbitrary: x)
  case (Cons c L)
  have key: "callsign (renamed_member old new c) = callsign c" by (simp add: renamed_member_def)
  let ?x = "if old \<in> set (ct_net_members c) then snd (add_or_update (renamed_member old new c) x) else x"
  have IH: "find_contact (foldl (\<lambda>cs c. if old \<in> set (ct_net_members c) then snd (add_or_update (renamed_member old new c) cs) else cs) ?x L) k =
      (case find (\<lambda>c. callsign c = k) L of None \<Rightarrow> find_contact ?x k
       | Some c \<Rightarrow> if old \<in> set (ct_net_members c) then Some (renamed_member old new c) else find_contact ?x k)"
    using Cons.prems by (intro Cons.IH) simp_all
  have none: "find (\<lambda>d. callsign d = callsign c) L = None" using Cons.prems(1) by (simp add: find_key_None)
  show ?case
  proof (cases "callsign c = k")
    case True
    then show ?thesis using IH none Cons.prems(2) by (simp add: find_contact_add key)
  next
    case False
    then have same: "find_contact ?x k = find_contact x k" using Cons.prems(2) by (simp add: find_contact_add key)
    show ?thesis unfolding foldl.simps IH same using False by simp
  qed
qed simp

lemma find_contact_renamed:
  assumes "distinct (map fst (stations (book cs)))" and "[] \<notin> fst ` set (stations (book cs))"
  shows "find_contact (rename_members old new cs) k = map_option (renamed_member old new) (find_contact cs k)"
proof -
  have calls: "map callsign (all_contacts cs) = map fst (stations (book cs))"
    by (simp add: all_contacts_def build_contact_map with_meta_def)
  then have "distinct (map callsign (all_contacts cs))" using assms(1) by simp
  moreover have "[] \<notin> callsign ` set (all_contacts cs)" using assms(2) calls by (metis list.set_map)
  moreover have "old \<notin> set (ct_net_members c) \<Longrightarrow> renamed_member old new c = c" for c
    by (auto simp: renamed_member_def intro!: contact.equality map_idI)
  moreover have "list_all (\<lambda>c. callsign c \<noteq> []) (all_contacts cs)" if "[] \<notin> callsign ` set (all_contacts cs)"
    using that by (auto simp: list_all_iff image_iff)
  ultimately show ?thesis
    unfolding rename_members_def
    by (subst find_renamed_members) (auto simp: find_contact_list [of cs k] split: option.split)
qed

text \<open>
  C32. Renaming a net leaves every contact with the nets it belongs to: in order, each membership of a contact finds after
  the renaming the policy it found before, those of the old name through the new one. A membership of the new name found
  no net before, for the name was free; it now finds the renamed net.
\<close>

theorem renaming_net_keeps_memberships:
  assumes "keyed s" and "fst (ctl_rename_net old new s)" and "[] \<notin> fst ` set (stations (book (sd_contacts (sc_data s))))"
    and "d = sc_data s" and "t = sc_data (snd (ctl_rename_net old new s))"
    and "rules = (\<lambda>d nm. map_option (\<lambda>n. n\<lparr>net_name := []\<rparr>) (find_net nm (sd_nets d)))"
  shows "map_option (\<lambda>c. map (rules t) (ct_net_members c)) (find_contact (sd_contacts t) k) =
      map_option (\<lambda>c. map (\<lambda>nm. rules d (if nm = new then old else nm)) (ct_net_members c)) (find_contact (sd_contacts d) k) \<and>
    (old \<noteq> new \<longrightarrow> rules d new = None)"
proof (cases "old = new")
  case True
  then have "(\<lambda>nm. rules d (if nm = new then old else nm)) = rules d" by (simp add: fun_eq_iff)
  then show ?thesis using True by (simp add: ctl_rename_net_def assms(4,5))
next
  case False
  let ?cs = "sd_contacts d" and ?ns = "sd_nets d"
  have new: "new \<noteq> []" "fst (rename_net old new ?ns)"
    using assms(2) False by (auto simp: ctl_rename_net_def Let_def split_beta assms(4) split: if_splits)
  then have fresh: "new \<notin> net_name ` set ?ns" and ns: "snd (rename_net old new ?ns) = update_matching (\<lambda>n. net_name n = old) (\<lambda>n. n\<lparr>net_name := new\<rparr>) ?ns"
    using False by (auto simp: rename_net_def on_net_def find_net_None split: if_splits)
  have t: "sd_nets t = snd (rename_net old new ?ns)" "sd_contacts t = rename_members old new ?cs"
    using new False by (auto simp: assms(4,5) ctl_rename_net_def Let_def split_beta set_contacts_def set_nets_def)
  have dist: "distinct (map net_name ?ns)" "distinct (map fst (stations (book ?cs)))"
    using assms(1,4) by (simp_all add: keyed_def nets_ok_def)
  have named: "[] \<notin> fst ` set (stations (book ?cs))" using assms(3,4) by simp
  have found: "find_net nm (sd_nets t) = (if nm = new then map_option (\<lambda>n. n\<lparr>net_name := new\<rparr>) (find_net old ?ns)
      else if nm = old then None else find_net nm ?ns)" for nm
    unfolding t(1) ns by (rule find_net_renamed [OF dist(1) fresh False])
  have "rules t (if nm = old then new else nm) = rules d (if nm = new then old else nm)" for nm
    using False by (auto simp: assms(6) found option.map_comp comp_def)
  then have "map_option (\<lambda>c. map (rules t) (ct_net_members c)) (find_contact (sd_contacts t) k) =
      map_option (\<lambda>c. map (\<lambda>nm. rules d (if nm = new then old else nm)) (ct_net_members c)) (find_contact ?cs k)"
    by (simp add: t(2) find_contact_renamed [OF dist(2) named] option.map_comp comp_def renamed_member_def)
  moreover have "rules d new = None" using fresh by (simp add: assms(6) find_net_None)
  ultimately show ?thesis by blast
qed

section \<open>Witnesses of the renaming\<close>

definition sample_settings :: station_ctl where
  "sample_settings = \<lparr>sc_data = sample_station, sc_self = \<lparr>self_entries = [], primary = []\<rparr>, sc_self_addr = [],
     sc_sm_channels = [sample_channel], sc_armed = True, sc_file = None, sc_preset = None, sc_channel_file = [], sc_active_net = ''HFN'',
     sc_sounding_net = [], sc_sounding_on = False, sc_sounding_ms = 0, sc_default_sec = 300, sc_selected = []\<rparr>"

definition saved_settings :: station_ctl where
  "saved_settings = save_state sample_settings"

lemma saved_settings_ok: "synced saved_settings" "keyed saved_settings"
  by (simp_all add: synced_def keyed_def saved_settings_def save_state_def state_image_def sample_settings_def sample_station_def
      sample_channel_def nets_ok_def Net_def rosters_ok_def self_ok_def update_station_def AddressBook_def own_address_def
      self_capacity_def)

theorem renaming_keeps_scan_width_witness:
  "map (\<lambda>n. net_scan_channel_count n (sd_channels (sc_data (snd (ctl_rename_channel ''C-1'' ''C-7'' saved_settings)))))
     (sd_nets (sc_data (snd (ctl_rename_channel ''C-1'' ''C-7'' saved_settings)))) = [1]"
proof -
  have data: "sc_data saved_settings = sample_station"
    by (simp add: saved_settings_def save_state_def sample_settings_def)
  have renamed: "fst (ctl_rename_channel ''C-1'' ''C-7'' saved_settings)"
    by (simp add: ctl_rename_channel_def data sample_station_def sample_channel_def is_blank_def Let_def)
  have ids: "distinct (map chan_id (sd_channels (sc_data saved_settings)))"
    "\<forall>n\<in>set (sd_nets (sc_data saved_settings)). [] \<notin> set (channel_ids n) \<and> ''C-7'' \<notin> set (channel_ids n)"
    by (simp_all add: data sample_station_def)
  have "map (\<lambda>n. net_scan_channel_count n (sd_channels (sc_data saved_settings))) (sd_nets (sc_data saved_settings)) = [1]"
    by (simp add: data sample_station_def sample_channel_def net_scan_channel_count_def Channel_def)
  then show ?thesis
    using renaming_keeps_scan_width [OF saved_settings_ok(2) ids(1) renamed ids(2)] by (simp add: Let_def)
qed

theorem renaming_net_keeps_memberships_witness:
  "find_contact (sd_contacts (sc_data (snd (ctl_rename_net ''HFN'' ''HF2'' saved_settings)))) ''SAM'' \<noteq> None"
proof -
  have data: "sc_data saved_settings = sample_station"
    by (simp add: saved_settings_def save_state_def sample_settings_def)
  have renamed: "fst (ctl_rename_net ''HFN'' ''HF2'' saved_settings)"
    by (simp add: ctl_rename_net_def data sample_station_def rename_net_def on_net_def find_net_def Net_def Let_def)
  have "[] \<notin> fst ` set (stations (book (sd_contacts (sc_data saved_settings))))"
    by (simp add: data sample_station_def update_station_def AddressBook_def)
  note kept = renaming_net_keeps_memberships [OF saved_settings_ok(2) renamed this refl refl refl, of "''SAM''"]
  have "find_contact (sd_contacts (sc_data saved_settings)) ''SAM'' \<noteq> None"
    by (simp add: data sample_station_def update_station_def AddressBook_def find_contact_def)
  then show ?thesis using kept by auto
qed

section \<open>The own addresses after a restart\<close>

text \<open>The own addresses of the settings: every line adds its address and makes it the primary one.\<close>

definition import_self_address :: "station_ctl \<Rightarrow> string \<Rightarrow> station_ctl" where
  "import_self_address s a = snd (ctl_set_primary a (snd (ctl_add_self a ''enabled'' ''ALL'' s)))"

definition import_self_addresses :: "string list \<Rightarrow> station_ctl \<Rightarrow> station_ctl" where
  "import_self_addresses addrs s =
     foldl import_self_address (if addrs \<noteq> [] then s\<lparr>sc_self := clear_self (sc_self s)\<rparr> else s) addrs"

lemma add_self_new:
  assumes "a \<noteq> []" and "se_address e = a" and "a \<notin> se_address ` set (self_entries x)" and "length (self_entries x) < self_capacity"
  shows "add_self e x = (True, \<lparr>self_entries = self_entries x @ [e], primary = (if primary x = [] then a else primary x)\<rparr>)"
  using assms by (simp add: add_self_def find_self_None)

lemma set_primary_known:
  assumes "a \<in> se_address ` set (self_entries (sc_self s))" and "is_valid_ale_address a"
  shows "sc_self (snd (ctl_set_primary a s)) = (sc_self s)\<lparr>primary := a\<rparr>" "own_address (snd (ctl_set_primary a s)) = a"
  using assms
  by (auto simp: ctl_set_primary_def ctl_set_self_address_def set_primary_def find_self_None set_contacts_def own_address_def
      valid_address_taken Let_def)

lemma import_one:
  assumes "is_valid_ale_address a" and "a \<notin> se_address ` set (self_entries (sc_self s))"
    and "length (self_entries (sc_self s)) < self_capacity"
  shows "own_address (import_self_address s a) = a \<and> primary (sc_self (import_self_address s a)) = a \<and>
    self_entries (sc_self (import_self_address s a)) = self_entries (sc_self s) @ [self_entry_of a ''enabled'' ''ALL'']"
proof -
  let ?e = "self_entry_of a ''enabled'' ''ALL''" and ?s = "snd (ctl_add_self a ''enabled'' ''ALL'' s)"
  have a: "a \<noteq> []" "se_address ?e = a" using assms(1) by (auto simp: is_valid_ale_address_def self_entry_of_def Let_def)
  note new = add_self_new [OF a assms(2,3)]
  have "sc_self (snd (ctl_set_primary a (s\<lparr>sc_self := x\<rparr>))) = x\<lparr>primary := a\<rparr>" if "a \<in> se_address ` set (self_entries x)" for x
    using that by (subst set_primary_known(1)) (simp_all add: assms(1))
  then have entries: "self_entries (sc_self ?s) = self_entries (sc_self s) @ [?e]"
    using a by (simp add: ctl_add_self_def new Let_def)
  then have "a \<in> se_address ` set (self_entries (sc_self ?s))" using a(2) by auto
  from set_primary_known [OF this assms(1)] entries show ?thesis by (simp add: import_self_address_def)
qed

lemma import_many:
  assumes "addrs \<noteq> []" and "list_all is_valid_ale_address addrs" and "distinct (map se_address (self_entries (sc_self s)) @ addrs)"
    and "length (self_entries (sc_self s)) + length addrs \<le> self_capacity"
  shows "own_address (foldl import_self_address s addrs) = last addrs \<and>
    primary (sc_self (foldl import_self_address s addrs)) = last addrs"
  using assms
proof (induction addrs arbitrary: s)
  case (Cons a addrs)
  have one: "own_address (import_self_address s a) = a" "primary (sc_self (import_self_address s a)) = a"
    "self_entries (sc_self (import_self_address s a)) = self_entries (sc_self s) @ [self_entry_of a ''enabled'' ''ALL'']"
    using import_one [of a s] Cons.prems by auto
  show ?case
  proof (cases "addrs = []")
    case True
    then show ?thesis using one by simp
  next
    case False
    have "se_address (self_entry_of a ''enabled'' ''ALL'') = a" by (simp add: self_entry_of_def Let_def)
    then show ?thesis
      using Cons.IH [of "import_self_address s a"] Cons.prems False one(3) by simp
  qed
qed simp

text \<open>
  C38. The file lists the own addresses in the order they were added and does not say which is the primary one: after a
  restart the station answers to the last address of the list, whichever the operator had chosen.
\<close>

theorem restart_takes_last_address:
  assumes "self_ok (sc_self s)" and "self_entries (sc_self s) \<noteq> []"
    and "list_all (\<lambda>e. is_valid_ale_address (se_address e)) (self_entries (sc_self s))"
  shows "own_address (import_self_addresses (file_self (state_image s)) s0) = se_address (last (self_entries (sc_self s)))"
proof -
  let ?addrs = "map se_address (self_entries (sc_self s))"
  have "own_address (foldl import_self_address (s0\<lparr>sc_self := clear_self (sc_self s0)\<rparr>) ?addrs) = last ?addrs"
    using assms by (intro import_many [THEN conjunct1]) (auto simp: self_ok_def clear_self_def list_all_iff)
  then show ?thesis using assms(2) by (simp add: import_self_addresses_def state_image_def last_map)
qed

definition two_addresses :: station_ctl where
  "two_addresses = sample_settings\<lparr>sc_self := \<lparr>self_entries = map (\<lambda>a. self_entry_of a ''enabled'' ''ALL'') [''ABC'', ''DEF''], primary = ''ABC''\<rparr>\<rparr>"

theorem restart_takes_last_address_witness:
  "primary (sc_self two_addresses) = ''ABC'' \<and>
   own_address (import_self_addresses (file_self (state_image two_addresses)) sample_settings) = ''DEF''"
proof -
  have valid: "is_valid_ale_address ''ABC''" "is_valid_ale_address ''DEF''" by code_simp+
  have self: "sc_self two_addresses =
      \<lparr>self_entries = map (\<lambda>a. self_entry_of a ''enabled'' ''ALL'') [''ABC'', ''DEF''], primary = ''ABC''\<rparr>"
    by (simp add: two_addresses_def)
  have "self_ok (sc_self two_addresses)" by (simp add: self self_ok_def self_entry_of_def self_capacity_def Let_def)
  moreover have "self_entries (sc_self two_addresses) \<noteq> []" by (simp add: self)
  moreover have "list_all (\<lambda>e. is_valid_ale_address (se_address e)) (self_entries (sc_self two_addresses))"
    using valid by (simp add: self self_entry_of_def Let_def)
  ultimately show ?thesis
    using restart_takes_last_address [of two_addresses sample_settings] by (simp add: self self_entry_of_def Let_def)
qed

text \<open>
  Removing the primary address makes the next entry the primary one of the table, and leaves the station answering to
  the address that was removed.
\<close>

lemma removed_address_stays:
  "own_address (snd (ctl_remove_self a s)) = own_address s \<and> sc_self_addr (snd (ctl_remove_self a s)) = sc_self_addr s"
  by (simp add: ctl_remove_self_def split_beta own_address_def)

text \<open>An address the station cannot take is refused after the table has made it the primary one.\<close>

lemma refused_primary_kept:
  assumes "find_self a (sc_self s) \<noteq> None" and "\<not> is_valid_ale_address a"
  shows "\<not> fst (ctl_set_primary a s) \<and> primary (sc_self (snd (ctl_set_primary a s))) = a \<and>
    own_address (snd (ctl_set_primary a s)) = own_address s"
  using assms by (auto simp: ctl_set_primary_def ctl_set_self_address_def set_primary_def own_address_def)

text \<open>Two channels may carry one identifier: only the frequency is a key when a channel is added.\<close>

lemma identifier_added_twice:
  assumes "sd_channels (sc_data s) = [c]" and "rx_frequency_hz d \<noteq> rx_frequency_hz c" and "chan_id d = chan_id c" and "chan_id c \<noteq> []"
  shows "sd_channels (sc_data (snd (ctl_add_channel d s))) = [c, d]"
  using assms by (simp add: ctl_add_channel_def with_free_id_def Let_def)

text \<open>Changing the identifier of a channel by adding it again leaves the old identifier in the nets.\<close>

lemma readded_channel_leaves_nets:
  assumes "sd_channels (sc_data s) = [c]" and "rx_frequency_hz d = rx_frequency_hz c" and "chan_id d \<noteq> []"
  shows "sd_channels (sc_data (snd (ctl_add_channel d s))) = [d] \<and> sd_nets (sc_data (snd (ctl_add_channel d s))) = sd_nets (sc_data s)"
  using assms by (simp add: ctl_add_channel_def with_free_id_def set_channels_def Let_def)

text \<open>Deleting a net leaves it selected for scanning.\<close>

lemma deleted_net_stays_active: "sc_active_net (snd (net_change (remove_net n) s)) = sc_active_net s"
  by (simp add: net_change_def split_beta auto_save_def save_state_def set_nets_def)

end
