(* ===== verification/Ctl_Restart.thy ===== *)
theory Ctl_Restart
  imports Ctl_Stations
begin

text \<open>
  The state file as text and its way back into the controller (\<open>save_state\<close>, \<open>load_state\<close>, \<open>load_channel_file\<close> and
  \<open>import_settings\<close> of \<open>src/App/ale_controller.cpp\<close>): the lines of a \<open>state_file\<close>, the references to a preset, the two
  ways in which the stations are loaded, and the own addresses and stations of the settings. Of the other settings the
  lines are modelled, with any text as their values; what reading those values changes in the configuration is not. The
  other files are a function from paths to contents; an exception that ends the loading is \<open>None\<close>.
\<close>

section \<open>The lines of the state file\<close>

definition settings_keys :: "string list" where
  "settings_keys =
    [''assumed_scan_channels'', ''golay_mode'', ''min_unanimous_votes'', ''adaptive_fec'', ''debug_rx'',
    ''manual_accept_mode'', ''manual_accept_timeout_ms'', ''scan_dwell_ms'', ''scan_squelch_enabled'',
    ''scan_detect_margin_db'', ''lbt_margin_db'', ''lbt_occupancy_enabled'', ''sounding_interval_sec'',
    ''sounding_use_twas'', ''sounding_warning_lead_sec'', ''link_idle_timeout_sec'', ''max_tune_time_ms'',
    ''ptt_lead_ms'', ''ptt_tail_ms'', ''lqa_exchange_enabled'', ''lqa_enabled'', ''relink_enabled'',
    ''relink_improvement_threshold'', ''enhanced_freq_select'', ''position_source'', ''station_lat_deg'',
    ''station_lon_deg'', ''grid_locator'', ''gpsd_host'', ''gpsd_port'', ''nmea_port'', ''nmea_baud'',
    ''sfi_enabled'', ''rigctld_server_enabled'', ''rigctld_server_port'', ''rigctld_server_bind_remote'',
    ''rig_model'', ''rig_host'', ''rig_port'', ''rig_serial'', ''rig_baud'', ''rig_dtr'', ''rig_rts'', ''rig_stab'',
    ''rig_ptt'', ''rig_ptt_type'', ''rig_ptt_port'', ''rig_avoid_relay_click'', ''rig_auto_connect'', ''audio_in'',
    ''audio_out'', ''audio_auto_open'', ''position_report_enabled'', ''position_report_mode'',
    ''position_report_target'', ''position_report_net'', ''position_report_change_m'',
    ''position_report_interval_min'', ''position_report_format'', ''position_report_comment'',
    ''location_sharing_enabled'', ''location_api_url'', ''location_relay_identity_path'', ''location_ca_cert_path'',
    ''location_sharing_allcall'', ''location_sharing_individual'', ''location_sharing_net'',
    ''location_sharing_group'', ''location_sharing_linked'', ''location_sharing_min_interval_sec'',
    ''location_sharing_round_digits'', ''location_sharing_include_comment'', ''location_sharing_queue_size'',
    ''link_default_individual'', ''link_default_group'', ''link_default_allcall'']"

definition setting_line :: "string \<Rightarrow> string \<Rightarrow> string" where
  "setting_line key val = key @ ''='' @ val"

text \<open>What \<open>write_settings_body\<close> writes, given the texts of the other settings in the order of their keys.\<close>

definition settings_lines :: "string list \<Rightarrow> state_file \<Rightarrow> string list" where
  "settings_lines vals f =
     ''# ALE settings export'' # map (setting_line ''self_address'') (file_self f) @ map2 setting_line settings_keys vals @
     (if file_channel_file f \<noteq> []
      then [setting_line ''channel_file'' (file_channel_file f), setting_line ''channel_deleted'' (file_deleted f)] else []) @
     (if file_stations f \<noteq> []
      then [] # ''# ALE address export'' # map (\<lambda>(a, n). setting_line ''station'' (a @ ''|'' @ n)) (file_stations f) else [])"

definition state_text :: "string list \<Rightarrow> state_file \<Rightarrow> string" where
  "state_text vals f = unlines (''# openALE-state version=1'' # file_body f @ settings_lines vals f)"

section \<open>Loading\<close>

definition is_setting :: "string \<Rightarrow> bool" where
  "is_setting line \<longleftrightarrow> line \<noteq> [] \<and> hd line \<noteq> CHR ''#'' \<and> CHR ''='' \<in> set line"

text \<open>The scan for the preset and the identifiers deleted from it.\<close>

definition overlay_ref :: "string \<Rightarrow> string \<times> string \<Rightarrow> string \<times> string" where
  "overlay_ref line refs =
     (let (ref, del) = refs; key = before (CHR ''='') line; val = after (CHR ''='') line
      in if \<not> is_setting line then refs
         else if key = ''channel_file'' \<and> val \<noteq> [] then (val, del)
         else if key = ''channel_deleted'' then (ref, val)
         else refs)"

definition set_data :: "station_data \<Rightarrow> station_ctl \<Rightarrow> station_ctl" where
  "set_data d s = s\<lparr>sc_data := d, sc_sm_channels := sd_channels d\<rparr>"

definition load_channel_file :: "(string \<Rightarrow> string option) \<Rightarrow> string \<Rightarrow> station_ctl \<Rightarrow> (bool \<times> station_ctl) option" where
  "load_channel_file fs path s =
     (case load_station_file (fs path) (sc_data s) of None \<Rightarrow> None
      | Some (ok, d) \<Rightarrow>
          if \<not> ok then Some (False, s)
          else Some (True, (set_data d s)\<lparr>sc_channel_file := path, sc_preset := Some (sd_channels d)\<rparr>))"

definition drop_deleted :: "string \<Rightarrow> station_ctl \<Rightarrow> station_ctl" where
  "drop_deleted del s =
     (if del = [] then s
      else set_channels (filter (\<lambda>c. chan_id c \<notin> set (split_csv del)) (sd_channels (sc_data s))) s)"

definition load_body :: "bool \<Rightarrow> string list \<Rightarrow> station_ctl \<Rightarrow> station_ctl option" where
  "load_body replace ls s = map_option (\<lambda>d. set_data d s) (parse_station_body replace ls (clear_station_stores (sc_data s)))"

definition load_stations :: "(string \<Rightarrow> string option) \<Rightarrow> string list \<Rightarrow> station_ctl \<Rightarrow> station_ctl option" where
  "load_stations fs ls s =
     (let (ref, del) = fold overlay_ref ls ([], [])
      in if ref = [] then load_body True ls s
         else case load_channel_file fs ref s of None \<Rightarrow> None
           | Some (found, s) \<Rightarrow>
               if found then load_body False ls (drop_deleted del s)
               else load_body True ls
                 (s\<lparr>sc_channel_file := [], sc_preset := None, sc_data := (sc_data s)\<lparr>sd_channels := []\<rparr>\<rparr>))"

text \<open>A line of the settings: the first own address clears the table, stations are collected.\<close>

definition import_line :: "string \<Rightarrow> station_ctl \<times> bool \<times> (string \<times> string) list \<Rightarrow> station_ctl \<times> bool \<times> (string \<times> string) list" where
  "import_line line st =
     (let (s, first, conf) = st; key = before (CHR ''='') line; val = after (CHR ''='') line
      in if \<not> is_setting line then st
         else if key = ''self_address'' \<and> val \<noteq> []
         then (import_self_address (if first then s\<lparr>sc_self := clear_self (sc_self s)\<rparr> else s) val, False, conf)
         else if key = ''station'' \<and> val \<noteq> []
         then (let cs = before (CHR ''|'') val
               in if cs \<noteq> [] then (s, first, conf @ [(cs, after (CHR ''|'') val)]) else st)
         else if key = ''contact'' \<and> val \<noteq> []
         then (let fs = split_pipe val
               in if fs \<noteq> [] \<and> hd fs \<noteq> [] then (s, first, conf @ [(hd fs, field_or fs 1 [])]) else st)
         else st)"

definition add_unknown :: "string \<times> string \<Rightarrow> address_book \<Rightarrow> address_book" where
  "add_unknown an b = (if is_known_station b (fst an) then b else update_station (fst an) (snd an) b)"

definition import_settings :: "string list \<Rightarrow> station_ctl \<Rightarrow> station_ctl" where
  "import_settings ls s =
     (let (s, _, conf) = fold import_line ls (s, True, []); cs = sd_contacts (sc_data s)
      in set_contacts (cs\<lparr>book := fold add_unknown conf (book cs)\<rparr>) s)"

text \<open>The content of the state file, \<open>None\<close> on the first run.\<close>

definition load_state :: "(string \<Rightarrow> string option) \<Rightarrow> string option \<Rightarrow> station_ctl \<Rightarrow> station_ctl option" where
  "load_state fs content s =
     (case content of None \<Rightarrow> Some (s\<lparr>sc_armed := True\<rparr>)
      | Some text \<Rightarrow>
          (let ls = getlines (CHR 0x0A) text
           in case load_stations fs ls s of None \<Rightarrow> None
              | Some s \<Rightarrow>
                  let s = (import_settings ls s)\<lparr>sc_armed := True\<rparr>
                  in Some (if sc_active_net s = [] \<and> sd_nets (sc_data s) \<noteq> []
                           then s\<lparr>sc_active_net := net_name (hd (sd_nets (sc_data s)))\<rparr> else s)))"

section \<open>Lines that are ignored\<close>

definition special_keys :: "string list" where
  "special_keys = [''channel_file'', ''channel_deleted'', ''self_address'', ''station'', ''contact'']"

definition ignored_line :: "string \<Rightarrow> bool" where
  "ignored_line l \<longleftrightarrow> \<not> is_setting l \<or> before (CHR ''='') l \<notin> set special_keys"

lemma ignored_refs: "list_all ignored_line ls \<Longrightarrow> fold overlay_ref ls refs = refs"
  by (induction ls arbitrary: refs) (auto simp: overlay_ref_def ignored_line_def special_keys_def split_beta Let_def)

lemma ignored_import: "list_all ignored_line ls \<Longrightarrow> fold import_line ls st = st"
  by (induction ls arbitrary: st) (auto simp: import_line_def ignored_line_def special_keys_def split_beta Let_def)

lemma no_setting_ignored: "no_setting l \<Longrightarrow> ignored_line l"
proof -
  assume l: "no_setting l"
  have "list_all (\<lambda>k. k \<noteq> [] \<and> lower (hd k)) special_keys" by code_simp
  then have "before (CHR ''='') l \<in> set special_keys \<Longrightarrow> before (CHR ''='') l \<noteq> [] \<and> lower (hd (before (CHR ''='') l))"
    by (simp add: list_all_iff)
  moreover have "before (CHR ''='') l \<noteq> [] \<Longrightarrow> hd (before (CHR ''='') l) = hd l" by (cases l) (auto simp: before_def)
  ultimately show ?thesis using l by (auto simp: ignored_line_def no_setting_def)
qed

text \<open>The keys of the other settings start with a small letter and are none of those read here.\<close>

lemma settings_keys_ok:
  "list_all (\<lambda>k. k \<noteq> [] \<and> lower (hd k) \<and> list_all (\<lambda>c. c \<noteq> CHR ''='' \<and> c \<noteq> CHR 0x0A) k \<and> \<not> list_ex (\<lambda>x. x = k) special_keys) settings_keys"
  by code_simp

lemma setting_line_key: "list_all (\<lambda>c. c \<noteq> CHR ''='') k \<Longrightarrow> before (CHR ''='') (setting_line k v) = k \<and> after (CHR ''='') (setting_line k v) = v"
  by (auto simp: setting_line_def before_def after_def list_all_iff)

lemma other_settings_ignored: "list_all ignored_line (map2 setting_line settings_keys vals)"
proof -
  have "ignored_line (setting_line k v)" if "k \<in> set settings_keys" for k v
  proof -
    have "list_all (\<lambda>c. c \<noteq> CHR ''='') k" "k \<notin> set special_keys"
      using settings_keys_ok that by (auto simp: list_all_iff list_ex_iff)
    then show ?thesis using setting_line_key [of k v] by (simp add: ignored_line_def)
  qed
  then show ?thesis by (auto simp: list_all_iff dest: set_zip_leftD)
qed

lemma other_settings_heads: "list_all (\<lambda>l. l = [] \<or> hd l = CHR ''#'' \<or> lower (hd l)) (map2 setting_line settings_keys vals)"
proof -
  have "k \<noteq> [] \<and> lower (hd k)" if "k \<in> set settings_keys" for k using settings_keys_ok that by (auto simp: list_all_iff)
  then show ?thesis by (auto simp: list_all_iff setting_line_def hd_append dest: set_zip_leftD)
qed

lemma other_settings_no_newline:
  assumes "list_all (\<lambda>v. CHR 0x0A \<notin> set v) vals"
  shows "list_all (\<lambda>l. CHR 0x0A \<notin> set l) (map2 setting_line settings_keys vals)"
proof -
  have "CHR 0x0A \<notin> set k" if "k \<in> set settings_keys" for k using settings_keys_ok that by (auto simp: list_all_iff)
  then show ?thesis using assms by (auto simp: list_all_iff setting_line_def dest: set_zip_leftD set_zip_rightD)
qed

section \<open>The own addresses and the stations of the settings\<close>

text \<open>What reading an own address leaves alone.\<close>

definition station_view where
  "station_view s = ((sd_channels (sc_data s), sd_nets (sc_data s), sd_rosters (sc_data s), sd_selector (sc_data s), sd_accept (sc_data s)),
     (stations (book (sd_contacts (sc_data s))), meta (sd_contacts (sc_data s)), sc_sm_channels s, sc_active_net s))"

lemma station_view_set_primary: "station_view (snd (ctl_set_primary a s)) = station_view s"
  by (simp add: station_view_def ctl_set_primary_def ctl_set_self_address_def set_contacts_def set_self_address_def
      auto_save_def save_state_def split_beta Let_def)

lemma station_view_import: "station_view (import_self_address s a) = station_view s"
proof -
  have "station_view (s\<lparr>sc_self := x\<rparr>) = station_view s" "station_view (auto_save b s) = station_view s" for x b s
    by (simp_all add: station_view_def auto_save_def save_state_def)
  then show ?thesis
    by (simp add: import_self_address_def station_view_set_primary ctl_add_self_def split_beta Let_def)
qed

lemma entries_set_primary: "self_entries (sc_self (snd (ctl_set_primary a s))) = self_entries (sc_self s)"
  by (simp add: ctl_set_primary_def ctl_set_self_address_def set_contacts_def set_primary_def split_beta Let_def)

lemma import_address:
  assumes "a \<noteq> []" "a \<notin> se_address ` set (self_entries (sc_self s))" "length (self_entries (sc_self s)) < self_capacity"
  shows "map se_address (self_entries (sc_self (import_self_address s a))) = map se_address (self_entries (sc_self s)) @ [a]"
proof -
  have e: "se_address (self_entry_of a ''enabled'' ''ALL'') = a" by (simp add: self_entry_of_def Let_def)
  show ?thesis
    using assms(1) add_self_new [OF assms(1) e assms(2,3)] e
    by (simp add: import_self_address_def entries_set_primary ctl_add_self_def split_beta Let_def)
qed

lemma import_addresses:
  assumes "[] \<notin> set addrs" "distinct (map se_address (self_entries (sc_self s)) @ addrs)"
    and "length (self_entries (sc_self s)) + length addrs \<le> self_capacity"
  shows "map se_address (self_entries (sc_self (foldl import_self_address s addrs))) =
      map se_address (self_entries (sc_self s)) @ addrs \<and>
    station_view (foldl import_self_address s addrs) = station_view s"
  using assms
proof (induction addrs arbitrary: s)
  case (Cons a addrs)
  have one: "map se_address (self_entries (sc_self (import_self_address s a))) = map se_address (self_entries (sc_self s)) @ [a]"
    using Cons.prems by (intro import_address) auto
  moreover from this have "length (self_entries (sc_self (import_self_address s a))) = Suc (length (self_entries (sc_self s)))"
    by (metis length_append_singleton length_map)
  ultimately show ?case
    using Cons.IH [of "import_self_address s a"] Cons.prems station_view_import [of s a] by simp
qed simp

lemma import_address_line:
  assumes "a \<noteq> []"
  shows "import_line (setting_line ''self_address'' a) (s, first, conf) =
    (import_self_address (if first then s\<lparr>sc_self := clear_self (sc_self s)\<rparr> else s) a, False, conf)"
  using assms setting_line_key [of "''self_address''" a] by (simp add: import_line_def is_setting_def setting_line_def)

lemma import_address_lines:
  assumes "[] \<notin> set addrs"
  shows "fold import_line (map (setting_line ''self_address'') addrs) (s, True, conf) =
    (import_self_addresses addrs s, addrs = [], conf)"
proof (cases addrs)
  case Nil
  then show ?thesis by (simp add: import_self_addresses_def)
next
  case (Cons a as)
  have "fold import_line (map (setting_line ''self_address'') as) (s, False, conf) = (foldl import_self_address s as, False, conf)"
    if "[] \<notin> set as" for s using that by (induction as arbitrary: s) (auto simp: import_address_line)
  moreover have "a \<noteq> []" "[] \<notin> set as" using assms Cons by auto
  ultimately show ?thesis using Cons by (simp add: import_address_line import_self_addresses_def)
qed

lemma import_station_lines:
  assumes "\<forall>(a, n) \<in> set ps. a \<noteq> [] \<and> CHR ''|'' \<notin> set a"
  shows "fold import_line (map (\<lambda>(a, n). setting_line ''station'' (a @ CHR ''|'' # n)) ps) (s, first, conf) = (s, first, conf @ ps)"
  using assms
proof (induction ps arbitrary: conf)
  case (Cons p ps)
  obtain a n where p: "p = (a, n)" by (cases p)
  have a: "a \<noteq> []" "CHR ''|'' \<notin> set a" using Cons.prems p by simp_all
  have "import_line (setting_line ''station'' (a @ ''|'' @ n)) (s, first, conf) = (s, first, conf @ [(a, n)])"
    using a setting_line_key [of "''station''" "a @ ''|'' @ n"] before_sep [OF a(2), of n] after_sep [OF a(2), of n]
    by (simp add: import_line_def is_setting_def setting_line_def)
  then show ?case using Cons p by simp
qed simp

lemma known_not_added:
  assumes "fst ` set ps \<subseteq> fst ` set (stations b)"
  shows "fold add_unknown ps b = b"
  using assms by (induction ps) (auto simp: add_unknown_def is_known_station_def has_key_iff)

section \<open>A restart\<close>

text \<open>What the lines of the state file can hold of the own addresses and the values of the other settings.\<close>

definition settings_ok :: "string list \<Rightarrow> station_ctl \<Rightarrow> bool" where
  "settings_ok vals s \<longleftrightarrow> list_all (\<lambda>v. CHR 0x0A \<notin> set v) vals \<and>
     list_all (\<lambda>e. se_address e \<noteq> [] \<and> CHR 0x0A \<notin> set (se_address e)) (self_entries (sc_self s))"

text \<open>The stations of the settings are those of the contacts, with their callsigns and names.\<close>

lemma station_fields:
  assumes "station_line_ok d" "(a, n) \<in> set (stations (book (sd_contacts d)))"
  shows "a \<noteq> [] \<and> CHR ''|'' \<notin> set a \<and> CHR 0x0A \<notin> set a \<and> CHR 0x0A \<notin> set n"
proof -
  have "contact_line_ok (build_contact (sd_contacts d) a n)"
    using assms by (auto simp: station_line_ok_def list_all_iff all_contacts_def)
  then show ?thesis by (auto simp: contact_line_ok_def build_contact_map with_meta_def plain_text_def)
qed

lemma settings_no_newline:
  assumes "station_line_ok (sc_data t)" "settings_ok vals t" "sc_channel_file t = []"
  shows "list_all (\<lambda>l. CHR 0x0A \<notin> set l) (settings_lines vals (state_image t))"
proof -
  have "CHR 0x0A \<notin> set (setting_line ''station'' (a @ ''|'' @ n))" if "(a, n) \<in> set (stations (book (sd_contacts (sc_data t))))" for a n
    using station_fields [OF assms(1) that] by (simp add: setting_line_def)
  moreover have "list_all (\<lambda>l. CHR 0x0A \<notin> set l) (map (setting_line ''self_address'') (map se_address (self_entries (sc_self t))))"
    using assms(2) by (auto simp: settings_ok_def list_all_iff setting_line_def)
  moreover have "list_all (\<lambda>l. CHR 0x0A \<notin> set l) (map2 setting_line settings_keys vals)"
    using assms(2) by (intro other_settings_no_newline) (simp add: settings_ok_def)
  ultimately show ?thesis
    using assms(3) by (auto simp: settings_lines_def state_image_def list_all_iff)
qed

lemma settings_heads:
  "list_all (\<lambda>l. l = [] \<or> hd l = CHR ''#'' \<or> lower (hd l)) (settings_lines vals f)"
proof -
  have "lower (CHR ''s'')" "lower (CHR ''c'')" by (simp_all add: lower_def less_eq_char_def)
  then show ?thesis
    using other_settings_heads [of vals] by (auto simp: settings_lines_def setting_line_def list_all_iff split_beta)
qed

lemma settings_refs:
  assumes "file_channel_file f = []"
  shows "fold overlay_ref (settings_lines vals f) refs = refs"
proof -
  have key: "overlay_ref (setting_line k v) refs = refs"
    if "list_all (\<lambda>c. c \<noteq> CHR ''='') k" "k \<noteq> ''channel_file''" "k \<noteq> ''channel_deleted''" for k v refs
    using that setting_line_key [of k v] by (simp add: overlay_ref_def split_beta Let_def)
  have self: "fold overlay_ref (map (setting_line ''self_address'') as) refs = refs" for as refs
    by (induction as arbitrary: refs) (simp_all add: key)
  have st: "fold overlay_ref (map (\<lambda>(a, n). setting_line ''station'' (a @ CHR ''|'' # n)) ps) refs = refs" for ps refs
    by (induction ps arbitrary: refs) (auto simp: key)
  have other: "fold overlay_ref (map2 setting_line settings_keys vals) refs = refs" for refs
    by (rule ignored_refs [OF other_settings_ignored])
  have "overlay_ref (CHR ''#'' # l) refs = refs" "overlay_ref [] refs = refs" for l refs
    by (simp_all add: overlay_ref_def is_setting_def split_beta Let_def)
  then show ?thesis by (simp add: settings_lines_def assms self st other)
qed

lemma settings_import:
  assumes "station_line_ok (sc_data t)" "settings_ok vals t" "sc_channel_file t = []"
  shows "fold import_line (settings_lines vals (state_image t)) (s, True, []) =
    (import_self_addresses (map se_address (self_entries (sc_self t))) s, self_entries (sc_self t) = [],
     stations (book (sd_contacts (sc_data t))))"
proof -
  have comment: "import_line (CHR ''#'' # l) st = st" "import_line [] st = st" for l st
    by (simp_all add: import_line_def is_setting_def split_beta Let_def)
  have "[] \<notin> set (map se_address (self_entries (sc_self t)))" using assms(2) by (auto simp: settings_ok_def list_all_iff)
  note self = import_address_lines [OF this, of s "[]"]
  have "\<forall>(a, n) \<in> set (stations (book (sd_contacts (sc_data t)))). a \<noteq> [] \<and> CHR ''|'' \<notin> set a"
    using station_fields [OF assms(1)] by auto
  note st = import_station_lines [OF this]
  show ?thesis
    using st self by (simp add: settings_lines_def state_image_def assms(3) comment ignored_import [OF other_settings_ignored] del: map_map)
qed

lemma state_lines_read:
  assumes "station_line_ok (sc_data t)" "settings_ok vals t" "sc_channel_file t = []" "sc_preset t = None"
  shows "getlines (CHR 0x0A) (state_text vals (state_image t)) =
    ''# openALE-state version=1'' # write_station_body None (sc_data t) @ settings_lines vals (state_image t)"
proof -
  have "list_all (\<lambda>l. CHR 0x0A \<notin> set l) (''# openALE-state version=1'' # write_station_body None (sc_data t) @ settings_lines vals (state_image t))"
    using written_body_no_newline [OF assms(1)] settings_no_newline [OF assms(1-3)] by simp
  then show ?thesis
    unfolding state_text_def by (subst getlines_unlines) (simp_all add: state_image_def assms(4))
qed

lemma loaded_contacts:
  assumes "station_line_ok d" "stations (book c0) = []"
  defines "c \<equiv> foldl (\<lambda>s x. snd (add_or_update x s)) c0 (all_contacts (sd_contacts d))"
  shows "all_contacts c = all_contacts (sd_contacts d)" "fst ` set (stations (book c)) = fst ` set (stations (book (sd_contacts d)))"
proof -
  have calls: "map callsign (all_contacts s) = map fst (stations (book s))" for s
    by (simp add: all_contacts_def build_contact_map with_meta_def)
  have "all_contacts c0 = []" by (simp add: all_contacts_def assms(2))
  then show all: "all_contacts c = all_contacts (sd_contacts d)"
    using assms(1,2) calls unfolding c_def by (subst add_contacts_written) (simp_all add: station_line_ok_def)
  show "fst ` set (stations (book c)) = fst ` set (stations (book (sd_contacts d)))"
    using calls [of c] calls [of "sd_contacts d"] all by (metis list.set_map)
qed

lemma own_addresses_read:
  assumes "self_ok self" "[] \<notin> set (map se_address (self_entries self))" "self_entries self = [] \<longrightarrow> self_entries (sc_self s) = []"
  shows "map se_address (self_entries (sc_self (import_self_addresses (map se_address (self_entries self)) s))) =
      map se_address (self_entries self)"
    and "station_view (import_self_addresses (map se_address (self_entries self)) s) = station_view s"
proof -
  let ?addrs = "map se_address (self_entries self)"
  have "distinct ?addrs" "length ?addrs \<le> self_capacity" using assms(1) by (simp_all add: self_ok_def)
  moreover have "station_view (s\<lparr>sc_self := clear_self (sc_self s)\<rparr>) = station_view s" by (simp add: station_view_def)
  ultimately have "map se_address (self_entries (sc_self (import_self_addresses ?addrs s))) = ?addrs \<and>
      station_view (import_self_addresses ?addrs s) = station_view s"
    using assms(2,3) import_addresses [of ?addrs "s\<lparr>sc_self := clear_self (sc_self s)\<rparr>"]
    by (cases "self_entries self = []") (simp_all add: import_self_addresses_def clear_self_def)
  then show "map se_address (self_entries (sc_self (import_self_addresses ?addrs s))) = ?addrs"
    "station_view (import_self_addresses ?addrs s) = station_view s" by simp_all
qed

text \<open>
  C14. Whatever the operator changes while automatic saving is on, a restart finds it. After any sequence of operations on a
  station that was not loaded from a preset or a channel file the state file is that of the present station and the state machine has the
  channels of the controller. The file can hold the station when no name is empty, given twice or contains a separator,
  and every channel has a receive frequency, a mode of the file and a power of at most 100 percent (\<open>station_line_ok\<close>,
  \<open>settings_ok\<close>). Then a new controller that loads the text of the file - whatever the values of the other settings,
  without own addresses of its own where the file has none - has the channels (with all that a line holds of them),
  nets, contacts, rosters and AllCall settings of the old one, in itself and
  in its state machine, the own addresses in their order, and goes on saving.
\<close>

theorem changes_survive_restart:
  assumes "synced s" and "keyed s" and "sc_armed s" and "sc_preset s = None" and "sc_channel_file s = []"
    and "t = foldl station_step s ops" and "station_line_ok (sc_data t)" and "settings_ok vals t"
    and "self_entries (sc_self t) = [] \<longrightarrow> self_entries (sc_self fresh) = []"
  shows "\<exists>r. sc_file t = Some (state_image t) \<and> sc_sm_channels t = sd_channels (sc_data t) \<and>
    load_state fs (Some (state_text vals (state_image t))) fresh = Some r \<and>
    sd_channels (sc_data r) = map stored_channel (sd_channels (sc_data t)) \<and> sc_sm_channels r = sd_channels (sc_data r) \<and>
    sd_nets (sc_data r) = sd_nets (sc_data t) \<and> all_contacts (sd_contacts (sc_data r)) = all_contacts (sd_contacts (sc_data t)) \<and>
    sd_rosters (sc_data r) = sd_rosters (sc_data t) \<and> sd_selector (sc_data r) = sd_selector (sc_data t) \<and>
    sd_accept (sc_data r) = sd_accept (sc_data t) \<and>
    map se_address (self_entries (sc_self r)) = map se_address (self_entries (sc_self t)) \<and> sc_armed r"
proof -
  have "synced t \<and> keyed t" unfolding assms(6) by (rule station_settings.run_inv) (use assms in simp)
  moreover have t: "sc_armed t" "sc_preset t = None" "sc_channel_file t = []" using assms run_keeps_file_settings by auto
  ultimately have saved: "sc_file t = Some (state_image t)" "sc_sm_channels t = sd_channels (sc_data t)" "self_ok (sc_self t)"
    by (simp_all add: synced_def keyed_def)
  let ?d = "sc_data t" and ?empty = "clear_station_stores (sc_data fresh)" and ?S = "settings_lines vals (state_image t)"
  let ?addrs = "map se_address (self_entries (sc_self t))"
  define ls where "ls = ''# openALE-state version=1'' # write_station_body None ?d @ ?S"
  have base: "sd_nets ?empty = []" "sd_rosters ?empty = []" "stations (book (sd_contacts ?empty)) = []"
    by (simp_all add: clear_station_stores_def clear_contacts_def clear_stations_def)
  define cts where "cts = foldl (\<lambda>s c. snd (add_or_update c s)) (sd_contacts ?empty) (all_contacts (sd_contacts ?d))"
  define d1 where "d1 = ?empty\<lparr>sd_channels := map stored_channel (sd_channels ?d), sd_nets := sd_nets ?d, sd_contacts := cts,
    sd_rosters := sd_rosters ?d, sd_selector := sd_selector ?d, sd_accept := sd_accept ?d\<rparr>"
  note cts = loaded_contacts [OF assms(7) base(3), folded cts_def]
  have ignored: "list_all ignored_line (write_station_body None ?d)"
    using written_body_heads [OF assms(7)] no_setting_ignored by (auto simp: list_all_iff)
  have version: "ignored_line ''# openALE-state version=1''" by (simp add: ignored_line_def is_setting_def)
  have refs: "fold overlay_ref ls ([], []) = ([], [])"
    using ignored_refs [OF ignored] ignored_refs [of "[''# openALE-state version=1'']"] version settings_refs [of "state_image t"] t(3)
    by (simp add: ls_def state_image_def)
  have "parse_station_body True ls ?empty = parse_station_body True (write_station_body None ?d @ ?S) ?empty"
    unfolding ls_def parse_station_body_def by (simp only: append_Cons append_Nil parse_comment)
  then have body: "parse_station_body True ls ?empty = Some d1"
    using parse_written_body [OF assms(7) base(1,2) parse_settings_lines [OF settings_heads]]
    by (simp add: d1_def cts_def)
  define s1 where "s1 = set_data d1 fresh"
  have load: "load_stations fs ls fresh = Some s1" by (simp add: load_stations_def refs load_body_def body s1_def)
  define s2 where "s2 = import_self_addresses ?addrs s1"
  have own: "map se_address (self_entries (sc_self s2)) = ?addrs" "station_view s2 = station_view s1"
  proof -
    have "[] \<notin> set ?addrs" using assms(8) by (auto simp: settings_ok_def list_all_iff)
    moreover have "self_entries (sc_self t) = [] \<longrightarrow> self_entries (sc_self s1) = []" using assms(9) by (simp add: s1_def set_data_def)
    ultimately show "map se_address (self_entries (sc_self s2)) = ?addrs" "station_view s2 = station_view s1"
      using own_addresses_read [OF saved(3), of s1] by (simp_all add: s2_def)
  qed
  have "fold import_line ls (s1, True, []) = (s2, self_entries (sc_self t) = [], stations (book (sd_contacts ?d)))"
    using ignored_import [OF ignored] ignored_import [of "[''# openALE-state version=1'']"] version
      settings_import [OF assms(7,8) t(3)] by (simp add: ls_def s2_def)
  moreover have "stations (book (sd_contacts (sc_data s2))) = stations (book cts)"
    using own(2) by (simp add: station_view_def s1_def set_data_def d1_def)
  then have "fold add_unknown (stations (book (sd_contacts ?d))) (book (sd_contacts (sc_data s2))) = book (sd_contacts (sc_data s2))"
    by (intro known_not_added) (simp add: cts(2))
  ultimately have imported: "import_settings ls s1 = s2" by (simp add: import_settings_def set_contacts_def)
  have "load_state fs (Some (state_text vals (state_image t))) fresh =
      Some (let s = s2\<lparr>sc_armed := True\<rparr> in if sc_active_net s = [] \<and> sd_nets (sc_data s) \<noteq> []
            then s\<lparr>sc_active_net := net_name (hd (sd_nets (sc_data s)))\<rparr> else s)"
    by (simp add: load_state_def state_lines_read [OF assms(7,8) t(3,2)] load [unfolded ls_def] imported [unfolded ls_def] Let_def)
  moreover have "all_contacts (sd_contacts (sc_data s2)) = all_contacts (sd_contacts ?d)"
    using own(2) cts(1) by (simp add: station_view_def s1_def set_data_def d1_def all_contacts_def build_contact_def)
  ultimately show ?thesis
    using saved(1,2) own by (auto simp: Let_def station_view_def s1_def set_data_def d1_def)
qed

definition watched_settings :: station_ctl where
  "watched_settings = foldl station_step saved_settings [Op_Add_Roster ''watch'', Op_Add_Member ''watch'' ''SAM'']"

theorem changes_survive_restart_witness:
  "\<exists>r. load_state (\<lambda>_. None) (Some (state_text [''4''] (state_image watched_settings))) sample_settings = Some r \<and>
     sd_rosters (sc_data r) =
       [\<lparr>roster_name = ''relief'', roster_members = [''SAM'', ''JOE'']\<rparr>, \<lparr>roster_name = ''watch'', roster_members = [''SAM'']\<rparr>]"
proof -
  have s: "sc_armed saved_settings" "sc_preset saved_settings = None" "sc_channel_file saved_settings = []"
    "sc_data saved_settings = sample_station" "self_entries (sc_self saved_settings) = []" "self_entries (sc_self sample_settings) = []"
    by (simp_all add: saved_settings_def save_state_def sample_settings_def)
  have t: "sc_data watched_settings = sample_station\<lparr>sd_rosters := [\<lparr>roster_name = ''relief'', roster_members = [''SAM'', ''JOE'']\<rparr>,
      \<lparr>roster_name = ''watch'', roster_members = [''SAM'']\<rparr>]\<rparr>" "sc_self watched_settings = sc_self saved_settings"
    by (simp_all add: watched_settings_def station_step_def roster_change_def s(4) sample_station_def add_roster_def add_member_def
        on_roster_def find_roster_def)
  have ok: "station_line_ok (sc_data watched_settings)"
    using sample_station_ok unfolding t(1)
    by (simp add: station_line_ok_def rosters_ok_def roster_line_ok_def plain_text_def plain_item_def is_word_def is_space_def)
  have "settings_ok [''4''] watched_settings" by (simp add: settings_ok_def t(2) s(5))
  moreover have "self_entries (sc_self watched_settings) = [] \<longrightarrow> self_entries (sc_self sample_settings) = []" using s(6) by simp
  ultimately show ?thesis
    using changes_survive_restart [OF saved_settings_ok s(1-3) watched_settings_def ok, of "[''4'']" sample_settings "\<lambda>_. None"] t(1)
    by auto
qed

text \<open>A preset that is not there any more: the channels of the state file, which are those the operator had changed, are all there is.\<close>

lemma preset_missing:
  assumes "fs ref = None" "ref \<noteq> []" "fold overlay_ref ls ([], []) = (ref, del)"
  shows "load_stations fs ls s = load_body True ls (s\<lparr>sc_channel_file := [], sc_preset := None, sc_data := (sc_data s)\<lparr>sd_channels := []\<rparr>\<rparr>)"
  using assms by (simp add: load_stations_def load_channel_file_def load_station_file_def)

end
