(* ===== verification/Spec2Isabelle.thy ===== *)
theory Spec2Isabelle
  imports Ale_Codec Sm_Reception Sm_Transmit Fs1052_Transfer Aqc Freq_Select Sounding_Identity
    Gpr Word_Grid Modulator Voice_Path Version_Caps Ctl_Retry Ctl_Calls Ctl_Ptt Ctl_Stations
    Ctl_Restart
begin

text \<open>
  Verification library for openALE, a controller for automatic link establishment by MIL-STD-188-141B
  (C++17). All paths are those of the sources under \<open>src/\<close> of the repository.

  The program. A station sends and hears words of 24 bits. A received symbol stream is turned into words by
  the demodulator, the majority voter, the interleaver and the Golay decoder; the controller hands every word
  to the link quality accumulators, the message windows and the state machine; the state machine answers with
  words, which the encoder, the modulator and the keyed radio put on the air. Around this core stand the link
  quality database with its exchange between stations and the ranking of channels, the negotiation of a
  better channel, the data protocol of FED-STD-1052, the voice path and the controller's own timers.

  The theories, from the air inwards.

  \<^item> \<open>Prelude\<close>, \<open>Fifo\<close>, \<open>Crc\<close>, \<open>Decimal\<close>, \<open>Civil\<close>: machine integers and bits, the locale \<open>event_machine\<close> of
    components with a step and an invariant, the locale \<open>fifo_buffer\<close> of buffers, checksums, numerals, dates.
  \<^item> \<open>Golay_Table\<close>, \<open>Golay\<close> (\<open>FEC/golay.cpp\<close>), \<open>Fec_Codec\<close> (\<open>FEC/word_interleaver.cpp\<close>, \<open>ale_fec_codec.cpp\<close>), \<open>Ale_Word\<close>
    (\<open>Word/ale_word.cpp\<close>), \<open>Ale_Codec\<close> (\<open>Codec/\<close>): the coding of a word. The lemmas go from the syndrome code (locale
    \<open>syndrome_code\<close>) over the half words (locale \<open>half_code\<close>) to whole words through bursts of errors.
  \<^item> \<open>Address_Encoder\<close>, \<open>Frame_Validator\<close>, \<open>Ale_Sequence\<close>, \<open>Orderwire\<close>, \<open>Ale_Message\<close>, \<open>Version_Caps\<close>, \<open>Lqa_Report\<close>, \<open>Gpr\<close>,
    \<open>Aqc\<close>: what sequences of words say (\<open>Word/\<close>, \<open>Protocol/Message/\<close>, \<open>Protocol/AQC/\<close>, \<open>LQA/lqa_report.cpp\<close>), with
    round trips between builder and parser.
  \<^item> \<open>Word_Grid\<close>, \<open>Modulator\<close>, \<open>Voice_Path\<close>: when a word is reported (\<open>Modem/word_grid_tracker.cpp\<close>), the transmit queue
    (\<open>Modulator\<close> of \<open>Modem/ale2g_modem.cpp\<close>) and the microphone ring (\<open>App/voice_path_manager.cpp\<close>) as buffers.
  \<^item> \<open>Ale_Timing\<close>, \<open>Channel_Manager\<close>, \<open>Address_Book\<close>: times, channels and the scan, stations (locale \<open>keyed_store\<close>).
  \<^item> \<open>Sm_State\<close>, \<open>Sm_Step\<close>, \<open>Sm_Update\<close>, \<open>Sm_Api\<close>, \<open>Call_Processor\<close>: the link state machine
    (\<open>Protocol/Control/ale_state_machine.cpp\<close>, \<open>ale_call_processor.cpp\<close>). Its members are the record \<open>ale_sm\<close>; its callbacks
    are outputs in the trace \<open>outs\<close>; every public operation is a function on the record.
  \<^item> \<open>Sm_Transitions\<close>, \<open>Sm_Machine\<close>, \<open>Sm_Link\<close>, \<open>Sm_Reception\<close>, \<open>Sm_Transmit\<close>: its properties. Events refine a table;
    \<open>sm_step\<close> performs any operation and \<open>sm_inv\<close> holds over all sequences of them; which station a link is bound
    to; two stations together; when it transmits.
  \<^item> \<open>Freq_Select\<close> (\<open>ale_freq_select.cpp\<close>, \<open>App/freq_select_manager.cpp\<close>), \<open>Sounding_Identity\<close>
    (\<open>App/sounding_identity_accumulator.cpp\<close>): the negotiation of a better channel, and who sounded.
  \<^item> \<open>Lqa_Codes\<close>, \<open>Lqa_Database\<close>, \<open>Lqa_Exchange\<close>, \<open>Lqa_Analyzer\<close> (\<open>LQA/\<close>): sums over a frame, the database with its
    bound, the report a peer asks for, the order of channels.
  \<^item> \<open>Fs1052_Frame\<close>, \<open>Fs1052_Arq\<close>, \<open>Fs1052_Transfer\<close> (\<open>FS1052/\<close>): frames, the sending and receiving machine, and what a
    transfer achieves.
  \<^item> \<open>Ctl_State\<close>, \<open>Ctl_Amd\<close>, \<open>Ctl_Link\<close>, \<open>Ctl_Retry\<close>, \<open>Ctl_Test\<close>, \<open>Ctl_Calls\<close>, \<open>Ctl_Ptt\<close>: the controller
    (\<open>App/ale_controller.cpp\<close>). \<open>controller\<close> is its state, \<open>ctl_env\<close> what it asks of the state machine, the radio, the
    clocks and the stores, \<open>ctl_outs\<close> the events it dispatches and the calls it makes. \<open>Ctl_Amd\<close> has the four message
    windows, \<open>Ctl_Link\<close> the received word (\<open>on_received_word\<close>), the events of the state machine and the timers,
    \<open>Ctl_Retry\<close> calls that are not answered, \<open>Ctl_Test\<close> the test of all channels to one peer, \<open>Ctl_Calls\<close> the placing of
    calls, scans and position reports, \<open>Ctl_Ptt\<close> the keying with lead and tail over the model of the modulator.
  \<^item> \<open>Data_Store\<close> (\<open>Stores/ale_data_store.cpp\<close>), \<open>Text_Lines\<close>, \<open>Channel_Line\<close>, \<open>Station_File\<close>, \<open>Ctl_Stations\<close>, \<open>Ctl_Restart\<close>: the
    stores of channels, nets, contacts and own addresses with their events, the text of a channel and of the station
    file, what the operator changes (\<open>App/ale_controller.cpp\<close>), which is written to the state file at once, and the
    lines of that file with \<open>load_state\<close>, which reads them in the next session.

  What the lemmas show. Coding: correctable errors are corrected, and up to sixteen lost symbols in a row do not cost
  a word. Protocol: what the builders send the parsers and the receiving station take apart again, whole addresses
  included. State machine: a table of events that every operation refines, the states a link returns to, who
  transmits when. Controller: a message is displayed once and tried as often as configured as long as its calls are accepted,
  the receiver is off while the state machine has the radio keyed unless the operator starts the scan anew, no
  receive-only channel is keyed, a test sweep visits every channel and ends, and what a station measured of a call
  reaches its caller through database and command word. Settings: what the operator changed is what a restart reads
  back, own addresses included but for the choice among them; renaming a channel keeps the widths of the scan, renaming
  a net its members. The theorems of kind error state where the code departs from what it means to do; each names the
  behaviour on concrete states.

  Conventions. A \<open>w\<close>-bit integer is a \<open>w\<close>-bit word and wraps; \<open>float\<close> and \<open>double\<close> are rational numbers, so rounding of the
  floating point is not modelled; strings are lists of characters. A thrown error, an assertion and a read out of
  bounds are values of a sum or an option. Clocks, random numbers, audio measures and the answers of other parts are
  arguments. Callbacks do not re-enter the part that calls them; where the code relies on that they are outputs.

  Bounds and fuel. The syndrome table of the Golay decoder is complete for at most three errors, the covering
  radius of the checks. \<open>send_loop\<close> of \<open>Fs1052_Arq\<close> is a partial function: for up to 255 blocks it is proved to return, for
  more it is proved not to. Every other loop of the models recurses over its data or carries a measure; the test
  sweep has the bound of \<open>5 * n + 1\<close> effective ticks, and the search for a free channel number takes at
  most one step for each channel, which is proved to find one.

  Not modelled. Signal processing in floating point (\<open>FSK/\<close>, the demodulator, \<open>spectrum_analyser.cpp\<close>,
  \<open>channel_occupancy.h\<close>, solar position): rational numbers would not be faithful to it. The message
  store and its binary file, the files of the database, the values of the settings of the state file that are not stations or own addresses,
  the history log. The drivers of single radios (\<open>icom\<close>, \<open>yaesu\<close>, \<open>kenwood\<close>, \<open>elecraft\<close>), which the build leaves out. Devices,
  sockets and threads (\<open>PAL/\<close>, the audio backends, \<open>apps/\<close>, \<open>ale_monitor/\<close>), third-party code and the user interfaces in
  other languages. Log lines and texts for the operator, except where a later step reads them.
\<close>

end
